(* ===== verification/Prelude.thy ===== *)
theory Prelude
  imports
    Complex_Main
    "HOL-Library.AList"
    "HOL-Library.Char_ord"
    "HOL-Library.List_Lexorder"
begin

text \<open>
  Shared vocabulary of the development: Python exceptions as values, Python decimals with
  their non-finite values, insertion-ordered dictionaries, a small state-and-exception
  combinator library for operations that change state before they raise, and a locale for
  invariants of labelled transition systems. The lemmas here are the automation of the
  component theories: \<open>dict_simps\<close> for dictionaries, \<open>eff_simps\<close> for the effect
  combinators, \<open>res_simps\<close> for results.
\<close>

named_theorems dict_simps "lookup, keys and counts of ordered dictionaries"
named_theorems eff_simps "unfolding of the state-and-exception combinators"
named_theorems wp_simps "weakest preconditions of the state-and-exception combinators"
named_theorems res_simps "case analysis of results that may be an exception"

section \<open>Python exceptions as values\<close>

text \<open>
  \<open>Refusal\<close> is the exception class of \<open>momentum_live/admission.py\<close> (a subclass of
  \<open>ValueError\<close>); its argument is the message the source raises it with.
  \<open>UnsentEntryConflict\<close> is its subclass of \<open>momentum_live/entry_reprice.py\<close> and
  \<open>LocalEntryNoDispatch\<close> the subclass of \<open>RuntimeError\<close> of \<open>momentum_live/entry_wire.py\<close>.
  The others are the builtin exceptions the modelled code can raise.
\<close>

datatype py_error =
    Refusal string
  | UnsentEntryConflict string
  | LocalEntryNoDispatch string
  | ValueError string
  | RuntimeError string
  | KeyError
  | TypeError
  | IndexError
  | ArithmeticError
  | QueueFull
  | TimeoutError
  | CancelledError
  | OtherError string

text \<open>\<open>except Refusal\<close> and \<open>except RuntimeError\<close>, subclasses included, and \<open>str(exc)\<close>.\<close>

fun is_refusal :: "py_error \<Rightarrow> bool" where
  "is_refusal (Refusal _) = True"
| "is_refusal (UnsentEntryConflict _) = True"
| "is_refusal _ = False"

fun is_runtime_error :: "py_error \<Rightarrow> bool" where
  "is_runtime_error (RuntimeError _) = True"
| "is_runtime_error (LocalEntryNoDispatch _) = True"
| "is_runtime_error _ = False"

fun error_text :: "py_error \<Rightarrow> string" where
  "error_text (Refusal m) = m"
| "error_text (UnsentEntryConflict m) = m"
| "error_text (LocalEntryNoDispatch m) = m"
| "error_text (ValueError m) = m"
| "error_text (RuntimeError m) = m"
| "error_text (OtherError m) = m"
| "error_text _ = []"

type_synonym 'a result = "py_error + 'a"

text \<open>Statements one after the other, and a guard that raises.\<close>

definition and_then :: "'a result \<Rightarrow> ('a \<Rightarrow> 'b result) \<Rightarrow> 'b result" where
  "and_then r f = (case r of Inl e \<Rightarrow> Inl e | Inr x \<Rightarrow> f x)"

definition refuse_if :: "bool \<Rightarrow> string \<Rightarrow> unit result" where
  "refuse_if b why = (if b then Inl (ValueError why) else Inr ())"

lemma and_then_simps [simp]: "and_then (Inl e) f = Inl e" "and_then (Inr x) f = f x"
  by (simp_all add: and_then_def)

lemma and_then_Inr [res_simps]: "and_then r f = Inr y \<longleftrightarrow> (\<exists>x. r = Inr x \<and> f x = Inr y)"
  by (cases r) simp_all

lemma refuse_if_Inr [res_simps]: "refuse_if b why = Inr u \<longleftrightarrow> \<not> b"
  by (simp add: refuse_if_def)

lemma and_then_Inl [res_simps]: "and_then r f = Inl e \<longleftrightarrow> r = Inl e \<or> (\<exists>x. r = Inr x \<and> f x = Inl e)"
  by (cases r) simp_all

lemma refuse_if_Inl [res_simps]: "refuse_if b why = Inl e \<longleftrightarrow> b \<and> e = ValueError why"
  by (auto simp: refuse_if_def)

text \<open>The list comprehension over a call that may raise: the first exception wins.\<close>

fun map_result :: "('a \<Rightarrow> 'b result) \<Rightarrow> 'a list \<Rightarrow> 'b list result" where
  "map_result f [] = Inr []"
| "map_result f (x # xs) =
     (case f x of
        Inl e \<Rightarrow> Inl e
      | Inr y \<Rightarrow> (case map_result f xs of Inl e \<Rightarrow> Inl e | Inr ys \<Rightarrow> Inr (y # ys)))"

lemma map_result_Inr [res_simps]:
  "(\<And>x. x \<in> set xs \<Longrightarrow> f x = Inr (g x)) \<Longrightarrow> map_result f xs = Inr (map g xs)"
  by (induction xs) auto

lemma map_result_InrD:
  "map_result f xs = Inr ys \<Longrightarrow> list_all2 (\<lambda>x y. f x = Inr y) xs ys"
  by (induction xs arbitrary: ys) (auto split: sum.splits)

lemma list_all2_right: "list_all2 P xs ys \<Longrightarrow> y \<in> set ys \<Longrightarrow> \<exists>x \<in> set xs. P x y"
  by (induction rule: list_all2_induct) auto

lemma list_all2_left: "list_all2 P xs ys \<Longrightarrow> x \<in> set xs \<Longrightarrow> \<exists>y \<in> set ys. P x y"
  by (induction rule: list_all2_induct) auto

section \<open>Python strings\<close>

text \<open>
  Strings are lists of characters; the symbols, identities and codes the program handles are
  ASCII, for which \<open>str.upper\<close> is the map below.
\<close>

definition char_upper :: "char \<Rightarrow> char" where
  "char_upper c =
     (if CHR ''a'' \<le> c \<and> c \<le> CHR ''z'' then char_of (of_char c - 32 :: nat) else c)"

definition py_upper :: "string \<Rightarrow> string" where
  "py_upper s = map char_upper s"

definition is_upper_symbol :: "string \<Rightarrow> bool" where
  "is_upper_symbol s \<longleftrightarrow> s \<noteq> [] \<and> s = py_upper s"

definition py_startswith :: "string \<Rightarrow> string \<Rightarrow> bool" where
  "py_startswith s p \<longleftrightarrow> take (length p) s = p"

lemma py_upper_length [simp]: "length (py_upper s) = length s"
  by (simp add: py_upper_def)

lemma py_upper_Nil [simp]: "py_upper s = [] \<longleftrightarrow> s = []"
  by (simp add: py_upper_def)

section \<open>Python decimals\<close>

text \<open>
  A \<open>decimal.Decimal\<close> is a finite number or one of the special values; only
  \<open>is_finite\<close> may be asked of a special value before the code compares it. Finite values are
  exact rationals: the prices and quantities of the program have few digits, and the
  comparisons, products by two-digit factors and floors it applies to them are exact in the
  28-digit context the program runs with.
\<close>

datatype decimal = Fin rat | Infinite | NaN

fun is_finite :: "decimal \<Rightarrow> bool" where
  "is_finite (Fin _) = True"
| "is_finite _ = False"

text \<open>\<open>not d.is_finite() or d <= 0\<close>, the guard the source puts before using a price.\<close>

fun not_finite_positive :: "decimal \<Rightarrow> bool" where
  "not_finite_positive (Fin r) \<longleftrightarrow> r \<le> 0"
| "not_finite_positive _ \<longleftrightarrow> True"

lemma not_finite_positive_False [simp]:
  "\<not> not_finite_positive d \<longleftrightarrow> (\<exists>r. d = Fin r \<and> 0 < r)"
  by (cases d) auto

text \<open>
  \<open>(x / step).to_integral_value(rounding=...) * step\<close> for the two rounding directions the
  program uses to put a price on the exchange's tick grid.
\<close>

definition ceil_to :: "rat \<Rightarrow> rat \<Rightarrow> rat" where
  "ceil_to step x = of_int \<lceil>x / step\<rceil> * step"

definition floor_to :: "rat \<Rightarrow> rat \<Rightarrow> rat" where
  "floor_to step x = of_int \<lfloor>x / step\<rfloor> * step"

lemma ceil_to_ge: "0 < step \<Longrightarrow> x \<le> ceil_to step x"
  unfolding ceil_to_def by (metis le_of_int_ceiling pos_divide_le_eq)

lemma ceil_to_less: "0 < step \<Longrightarrow> ceil_to step x < x + step"
proof -
  assume s: "0 < step"
  have "of_int \<lceil>x / step\<rceil> < x / step + 1" by linarith
  with s have "of_int \<lceil>x / step\<rceil> * step < (x / step + 1) * step"
    by (rule mult_strict_right_mono[rotated])
  with s show ?thesis by (simp add: ceil_to_def distrib_right)
qed

lemma floor_to_le: "0 < step \<Longrightarrow> floor_to step x \<le> x"
  unfolding floor_to_def by (metis of_int_floor_le pos_le_divide_eq)

lemma floor_to_greater: "0 < step \<Longrightarrow> x - step < floor_to step x"
proof -
  assume s: "0 < step"
  have "x / step - 1 < of_int \<lfloor>x / step\<rfloor>" by linarith
  with s have "(x / step - 1) * step < of_int \<lfloor>x / step\<rfloor> * step"
    by (rule mult_strict_right_mono[rotated])
  with s show ?thesis by (simp add: floor_to_def left_diff_distrib)
qed

lemma ceil_to_pos: "0 < step \<Longrightarrow> 0 < x \<Longrightarrow> 0 < ceil_to step x"
  using ceil_to_ge by (meson less_le_trans)

text \<open>\<open>max(1, int((c / l).to_integral_value(ROUND_FLOOR)))\<close>: whole shares for an amount.\<close>

definition whole_shares :: "rat \<Rightarrow> rat \<Rightarrow> int" where
  "whole_shares c l = max 1 \<lfloor>c / l\<rfloor>"

lemma whole_shares_bounds:
  assumes l: "0 < l"
  shows "1 \<le> whole_shares c l"
    and "whole_shares c l = 1 \<or> of_int (whole_shares c l) * l \<le> c"
    and "c < of_int (whole_shares c l + 1) * l"
proof -
  show "1 \<le> whole_shares c l" by (simp add: whole_shares_def)
  have "of_int \<lfloor>c / l\<rfloor> * l \<le> c"
    using l by (metis of_int_floor_le pos_le_divide_eq)
  then show "whole_shares c l = 1 \<or> of_int (whole_shares c l) * l \<le> c"
    by (simp add: whole_shares_def max_def)
  have "c / l < of_int \<lfloor>c / l\<rfloor> + 1" by linarith
  also have "of_int \<lfloor>c / l\<rfloor> + 1 \<le> (of_int (whole_shares c l + 1) :: rat)"
    by (simp add: whole_shares_def)
  finally show "c < of_int (whole_shares c l + 1) * l"
    using l by (simp only: pos_divide_less_eq)
qed

section \<open>Python numbers\<close>

text \<open>
  \<open>int(x)\<close> of a float, towards zero; \<open>round(x, n)\<close>, to the nearest multiple of \<open>10\<^sup>-\<^sup>n\<close> with
  halves to the even digit; \<open>x or 0\<close> of a number that may be missing.
\<close>

definition py_int :: "rat \<Rightarrow> int" where
  "py_int x = (if x < 0 then \<lceil>x\<rceil> else \<lfloor>x\<rfloor>)"

definition round_even :: "rat \<Rightarrow> int" where
  "round_even x =
     (let f = \<lfloor>x\<rfloor>; d = x - of_int f
      in if d < 1 / 2 then f else if 1 / 2 < d then f + 1 else if even f then f else f + 1)"

definition py_round :: "rat \<Rightarrow> nat \<Rightarrow> rat" where
  "py_round x n = of_int (round_even (x * 10 ^ n)) / 10 ^ n"

definition or_zero :: "('a :: zero) option \<Rightarrow> 'a" where
  "or_zero x = (case x of Some v \<Rightarrow> v | None \<Rightarrow> 0)"

lemma round_even_bounds:
  assumes "of_int a \<le> x" "x \<le> of_int b"
  shows "a \<le> round_even x \<and> round_even x \<le> b"
proof -
  have f: "a \<le> \<lfloor>x\<rfloor>" "\<lfloor>x\<rfloor> \<le> b" using assms by (simp_all add: le_floor_iff floor_le_iff)
  have "\<lfloor>x\<rfloor> + 1 \<le> b" if "x - of_int \<lfloor>x\<rfloor> \<noteq> 0"
  proof -
    have "of_int \<lfloor>x\<rfloor> < x" using that of_int_floor_le[of x] by linarith
    with assms(2) have "of_int \<lfloor>x\<rfloor> < (of_int b :: rat)" by linarith
    then show ?thesis by simp
  qed
  with f show ?thesis by (auto simp: round_even_def Let_def)
qed

lemma py_round_bounds:
  assumes "of_int a \<le> x" "x \<le> of_int b"
  shows "of_int a \<le> py_round x n \<and> py_round x n \<le> of_int b"
proof -
  have p: "(0 :: rat) < 10 ^ n" by simp
  have "of_int (a * 10 ^ n) \<le> x * 10 ^ n" "x * 10 ^ n \<le> of_int (b * 10 ^ n)"
    using assms p by (simp_all add: mult_right_mono)
  from round_even_bounds[OF this]
  have "of_int (a * 10 ^ n) \<le> (of_int (round_even (x * 10 ^ n)) :: rat)"
    "(of_int (round_even (x * 10 ^ n)) :: rat) \<le> of_int (b * 10 ^ n)"
    by (simp_all only: of_int_le_iff)
  then show ?thesis using p by (simp add: py_round_def le_divide_eq divide_le_eq)
qed

section \<open>Insertion-ordered dictionaries\<close>

text \<open>
  A Python dict keeps insertion order, and an assignment to an existing key keeps its place:
  an association list with \<open>AList.update\<close> and \<open>AList.delete\<close>. Lookup is \<open>map_of\<close>.
\<close>

type_synonym ('k, 'v) dict = "('k \<times> 'v) list"

abbreviation keys_distinct :: "('k, 'v) dict \<Rightarrow> bool" where
  "keys_distinct d \<equiv> distinct (map fst d)"

definition count_vals :: "('v \<Rightarrow> bool) \<Rightarrow> ('k, 'v) dict \<Rightarrow> int" where
  "count_vals P d = int (length (filter (\<lambda>p. P (snd p)) d))"

lemma map_of_update [dict_simps]:
  "map_of (AList.update k v d) k' = (if k' = k then Some v else map_of d k')"
  by (simp add: update_conv')

lemma map_of_delete [dict_simps]:
  "map_of (AList.delete k d) k' = (if k' = k then None else map_of d k')"
  by (simp add: delete_conv')

lemma keys_distinct_update [dict_simps]:
  "keys_distinct d \<Longrightarrow> keys_distinct (AList.update k v d)"
  by (rule distinct_update)

lemma keys_distinct_delete [dict_simps]:
  "keys_distinct d \<Longrightarrow> keys_distinct (AList.delete k d)"
  by (rule distinct_delete)

lemma length_update_new [dict_simps]:
  "map_of d k = None \<Longrightarrow> length (AList.update k v d) = Suc (length d)"
  by (induction d) auto

lemma length_update_old [dict_simps]:
  "map_of d k = Some w \<Longrightarrow> length (AList.update k v d) = length d"
  by (induction d) (auto split: if_splits)

lemma count_vals_Nil [simp]: "count_vals P [] = 0"
  by (simp add: count_vals_def)

lemma count_vals_Cons [simp]:
  "count_vals P (p # d) = (if P (snd p) then 1 else 0) + count_vals P d"
  by (simp add: count_vals_def)

lemma count_vals_nonneg: "0 \<le> count_vals P d"
  by (simp add: count_vals_def)

lemma count_vals_update_new [dict_simps]:
  "map_of d k = None \<Longrightarrow>
   count_vals P (AList.update k v d) = count_vals P d + (if P v then 1 else 0)"
  by (induction d) auto

lemma count_vals_update_old [dict_simps]:
  "map_of d k = Some w \<Longrightarrow>
   count_vals P (AList.update k v d) =
     count_vals P d + (if P v then 1 else 0) - (if P w then 1 else 0)"
  by (induction d) (auto split: if_splits)

lemma count_vals_pos:
  "map_of d k = Some v \<Longrightarrow> P v \<Longrightarrow> 0 < count_vals P d"
proof (induction d)
  case (Cons p d)
  then show ?case
    using count_vals_nonneg[of P d] by (auto split: if_splits)
qed simp

lemma map_of_append_new:
  "map_of d k = None \<Longrightarrow> AList.update k v d = d @ [(k, v)]"
  by (induction d) auto

section \<open>State and exceptions\<close>

text \<open>
  An operation that mutates objects and may raise keeps the mutations made before the raise:
  it maps a state to an exception or a value, and the state it leaves.
\<close>

type_synonym ('s, 'a) eff = "'s \<Rightarrow> 'a result \<times> 's"

definition returnE :: "'a \<Rightarrow> ('s, 'a) eff" where
  "returnE a = (\<lambda>s. (Inr a, s))"

definition raiseE :: "py_error \<Rightarrow> ('s, 'a) eff" where
  "raiseE e = (\<lambda>s. (Inl e, s))"

definition bindE :: "('s, 'a) eff \<Rightarrow> ('a \<Rightarrow> ('s, 'b) eff) \<Rightarrow> ('s, 'b) eff" where
  "bindE m f = (\<lambda>s. case m s of (Inl e, s') \<Rightarrow> (Inl e, s') | (Inr a, s') \<Rightarrow> f a s')"

definition thenE :: "('s, 'a) eff \<Rightarrow> ('s, 'b) eff \<Rightarrow> ('s, 'b) eff" where
  "thenE m n = bindE m (\<lambda>_. n)"

definition modifyE :: "('s \<Rightarrow> 's) \<Rightarrow> ('s, unit) eff" where
  "modifyE f = (\<lambda>s. (Inr (), f s))"

definition getE :: "('s \<Rightarrow> 'a) \<Rightarrow> ('s, 'a) eff" where
  "getE f = (\<lambda>s. (Inr (f s), s))"

definition raise_if :: "bool \<Rightarrow> py_error \<Rightarrow> ('s, unit) eff" where
  "raise_if c e = (if c then raiseE e else returnE ())"

text \<open>\<open>try: m  except: h\<close>, where \<open>h\<close> re-raises what it does not handle.\<close>

definition catchE :: "('s, 'a) eff \<Rightarrow> (py_error \<Rightarrow> ('s, 'a) eff) \<Rightarrow> ('s, 'a) eff" where
  "catchE m h = (\<lambda>s. case m s of (Inl e, t) \<Rightarrow> h e t | (Inr a, t) \<Rightarrow> (Inr a, t))"

text \<open>A value that may be an exception, in the middle of an operation.\<close>

definition liftE :: "'a result \<Rightarrow> ('s, 'a) eff" where
  "liftE r = (\<lambda>s. (r, s))"

lemmas eff_defs = returnE_def raiseE_def bindE_def thenE_def modifyE_def getE_def raise_if_def

lemma bindE_return [simp]: "bindE (returnE a) f = f a"
  by (simp add: eff_defs)

lemma bindE_raise [simp]: "bindE (raiseE e) f = raiseE e"
  by (simp add: eff_defs)

lemma bindE_assoc: "bindE (bindE m f) g = bindE m (\<lambda>x. bindE (f x) g)"
  by (rule ext) (simp add: eff_defs split: prod.splits sum.splits)

lemma bindE_InrD:
  "bindE m f s = (Inr b, t) \<Longrightarrow> \<exists>a u. m s = (Inr a, u) \<and> f a u = (Inr b, t)"
  by (auto simp: bindE_def split: prod.splits sum.splits)

lemma bindE_cases:
  "bindE m f s = (r, t) \<Longrightarrow>
   (\<exists>e. m s = (Inl e, t) \<and> r = Inl e) \<or> (\<exists>a u. m s = (Inr a, u) \<and> f a u = (r, t))"
  by (auto simp: bindE_def split: prod.splits sum.splits)

text \<open>
  A predicate every step of an operation keeps, whether the step returns or raises.
\<close>

definition keeps :: "('s \<Rightarrow> bool) \<Rightarrow> ('s, 'a) eff \<Rightarrow> bool" where
  "keeps P m \<longleftrightarrow> (\<forall>s. P s \<longrightarrow> P (snd (m s)))"

lemma keepsI: "(\<And>s. P s \<Longrightarrow> P (snd (m s))) \<Longrightarrow> keeps P m"
  by (simp add: keeps_def)

lemma keepsD: "keeps P m \<Longrightarrow> P s \<Longrightarrow> m s = (r, t) \<Longrightarrow> P t"
  by (metis keeps_def snd_conv)

lemma keeps_return [intro]: "keeps P (returnE a)"
  and keeps_raise [intro]: "keeps P (raiseE e)"
  and keeps_get [intro]: "keeps P (getE f)"
  and keeps_raise_if [intro]: "keeps P (raise_if c e)"
  by (auto simp: keeps_def eff_defs)

lemma keeps_modify [intro]: "(\<And>s. P s \<Longrightarrow> P (f s)) \<Longrightarrow> keeps P (modifyE f)"
  by (simp add: keeps_def modifyE_def)

lemma keeps_bind [intro]: "keeps P m \<Longrightarrow> (\<And>a. keeps P (f a)) \<Longrightarrow> keeps P (bindE m f)"
  by (fastforce simp: keeps_def bindE_def split: prod.splits sum.splits)

lemma keeps_then [intro]: "keeps P m \<Longrightarrow> keeps P n \<Longrightarrow> keeps P (thenE m n)"
  unfolding thenE_def by (rule keeps_bind)

lemma keeps_if [intro]: "(c \<Longrightarrow> keeps P m) \<Longrightarrow> (\<not> c \<Longrightarrow> keeps P n) \<Longrightarrow> keeps P (if c then m else n)"
  by simp

lemma keeps_catch [intro]:
  "keeps P m \<Longrightarrow> (\<And>e. keeps P (h e)) \<Longrightarrow> keeps P (catchE m h)"
  by (fastforce simp: keeps_def catchE_def split: prod.splits sum.splits)

lemma keeps_lift [intro]: "keeps P (liftE r)"
  by (simp add: keeps_def liftE_def)

lemma keeps_guard: "(\<not> c \<Longrightarrow> keeps P m) \<Longrightarrow> keeps P (thenE (raise_if c e) m)"
  by (auto simp: keeps_def thenE_def bindE_def raise_if_def raiseE_def returnE_def)

lemma keeps_get_bind: "(\<And>s. P s \<Longrightarrow> keeps P (g (f s))) \<Longrightarrow> keeps P (bindE (getE f) g)"
  by (auto simp: keeps_def bindE_def getE_def)

lemma thenE_apply [eff_simps]:
  "thenE m n s = (case m s of (Inl e, t) \<Rightarrow> (Inl e, t) | (Inr a, t) \<Rightarrow> n t)"
  by (simp add: thenE_def bindE_def)

lemma bindE_apply [eff_simps]:
  "bindE m f s = (case m s of (Inl e, t) \<Rightarrow> (Inl e, t) | (Inr a, t) \<Rightarrow> f a t)"
  by (simp add: bindE_def)

lemma basic_apply [eff_simps]:
  "returnE a s = (Inr a, s)" "raiseE e s = (Inl e, s)" "modifyE f s = (Inr (), f s)"
  "getE g s = (Inr (g s), s)" "raise_if c e s = (if c then (Inl e, s) else (Inr (), s))"
  by (simp_all add: eff_defs)

text \<open>
  The weakest precondition of an operation: \<open>Q\<close> of the value and state it returns, \<open>R\<close> of the
  exception and state it raises. It computes through the combinators.
\<close>

definition wp :: "('s, 'a) eff \<Rightarrow> ('a \<Rightarrow> 's \<Rightarrow> bool) \<Rightarrow> (py_error \<Rightarrow> 's \<Rightarrow> bool) \<Rightarrow> 's \<Rightarrow> bool" where
  "wp m Q R s \<longleftrightarrow> (case m s of (Inl e, t) \<Rightarrow> R e t | (Inr a, t) \<Rightarrow> Q a t)"

lemma wp_return [wp_simps]: "wp (returnE a) Q R = Q a"
  by (rule ext) (simp add: wp_def eff_simps)

lemma wp_raise [wp_simps]: "wp (raiseE e) Q R s = R e s"
  by (simp add: wp_def eff_simps)

lemma wp_modify [wp_simps]: "wp (modifyE f) Q R s = Q () (f s)"
  by (simp add: wp_def eff_simps)

lemma wp_get [wp_simps]: "wp (getE g) Q R s = Q (g s) s"
  by (simp add: wp_def eff_simps)

lemma wp_raise_if [wp_simps]: "wp (raise_if c e) Q R s = (if c then R e s else Q () s)"
  by (simp add: wp_def eff_simps)

lemma wp_bind [wp_simps]: "wp (bindE m f) Q R s = wp m (\<lambda>a. wp (f a) Q R) R s"
  by (auto simp: wp_def eff_simps split: prod.splits sum.splits)

lemma wp_then [wp_simps]: "wp (thenE m n) Q R s = wp m (\<lambda>_. wp n Q R) R s"
  by (auto simp: wp_def eff_simps split: prod.splits sum.splits)

lemma wp_catch [wp_simps]: "wp (catchE m h) Q R s = wp m Q (\<lambda>e. wp (h e) Q R) s"
  by (auto simp: wp_def catchE_def split: prod.splits sum.splits)

lemma wp_lift [wp_simps]: "wp (liftE r) Q R s = (case r of Inl e \<Rightarrow> R e s | Inr a \<Rightarrow> Q a s)"
  by (simp add: wp_def liftE_def)

lemma wp_if [wp_simps]: "wp (if c then m else n) Q R s = (if c then wp m Q R s else wp n Q R s)"
  by simp

lemma wp_mono:
  "wp m Q R s \<Longrightarrow> (\<And>a t. Q a t \<Longrightarrow> Q' a t) \<Longrightarrow> (\<And>e t. R e t \<Longrightarrow> R' e t) \<Longrightarrow> wp m Q' R' s"
  by (auto simp: wp_def split: prod.splits sum.splits)

lemma wp_bindI:
  "wp m Q' R s \<Longrightarrow> (\<And>a t. Q' a t \<Longrightarrow> wp (f a) Q R t) \<Longrightarrow> wp (bindE m f) Q R s"
  unfolding wp_bind by (rule wp_mono)

lemma wp_thenI:
  "wp m Q' R s \<Longrightarrow> (\<And>a t. Q' a t \<Longrightarrow> wp n Q R t) \<Longrightarrow> wp (thenE m n) Q R s"
  unfolding wp_then by (rule wp_mono)

lemma wp_top: "wp m (\<lambda>_ _. True) (\<lambda>_ _. True) s"
  by (simp add: wp_def split: prod.split sum.split)

lemma wp_conj: "wp m Q R s \<Longrightarrow> wp m Q' R' s \<Longrightarrow>
   wp m (\<lambda>a t. Q a t \<and> Q' a t) (\<lambda>e t. R e t \<and> R' e t) s"
  by (auto simp: wp_def split: prod.splits sum.splits)

lemma wp_keeps: "keeps P m \<Longrightarrow> P s \<Longrightarrow> wp m (\<lambda>_. P) (\<lambda>_. P) s"
  unfolding wp_def keeps_def by (cases "m s"; cases "fst (m s)") force+

lemma keeps_wp: "(\<And>s. P s \<Longrightarrow> wp m (\<lambda>_. P) (\<lambda>_. P) s) \<Longrightarrow> keeps P m"
proof (rule keepsI)
  fix s assume "\<And>s. P s \<Longrightarrow> wp m (\<lambda>_. P) (\<lambda>_. P) s" "P s"
  then show "P (snd (m s))"
    by (cases "m s"; cases "fst (m s)") (force simp: wp_def)+
qed

lemma wpD_Inr: "wp m Q R s \<Longrightarrow> m s = (Inr a, t) \<Longrightarrow> Q a t"
  and wpD_Inl: "wp m Q R s \<Longrightarrow> m s = (Inl e, t) \<Longrightarrow> R e t"
  by (simp_all add: wp_def)

lemma wpD_both: "wp m (\<lambda>_. P) (\<lambda>_. P) s \<Longrightarrow> m s = (r, t) \<Longrightarrow> P t"
  by (cases r) (auto simp: wp_def)

section \<open>Labelled transition systems\<close>

text \<open>
  The components with state are step relations; \<open>reach\<close> collects the states a run of labelled
  steps can visit, and \<open>run\<close> the runs with their labels.
\<close>

inductive run :: "('s \<Rightarrow> 'l \<Rightarrow> 's \<Rightarrow> bool) \<Rightarrow> 's \<Rightarrow> 'l list \<Rightarrow> 's \<Rightarrow> bool" for step where
  run_nil: "run step s [] s"
| run_snoc: "run step s ls t \<Longrightarrow> step t l u \<Longrightarrow> run step s (ls @ [l]) u"

lemma run_one: "step s l t \<Longrightarrow> run step s [l] t"
  using run_snoc[where ls = "[]"] run_nil by fastforce

lemma run_append: "run step t ms u \<Longrightarrow> run step s ls t \<Longrightarrow> run step s (ls @ ms) u"
proof (induction rule: run.induct)
  case (run_snoc t ms u l v)
  then show ?case using run.run_snoc[of step s "ls @ ms" u l v] by simp
qed simp

lemma run_Cons: "step s l t \<Longrightarrow> run step t ls u \<Longrightarrow> run step s (l # ls) u"
  using run_append[OF _ run_one] by fastforce

locale invariant_system =
  fixes init :: "'s \<Rightarrow> bool"
    and step :: "'s \<Rightarrow> 'l \<Rightarrow> 's \<Rightarrow> bool"
    and inv :: "'s \<Rightarrow> bool"
  assumes inv_init: "init s \<Longrightarrow> inv s"
    and inv_step: "inv s \<Longrightarrow> step s l t \<Longrightarrow> inv t"
begin

lemma run_preserves: "run step s ls t \<Longrightarrow> inv s \<Longrightarrow> inv t"
  by (induction rule: run.induct) (auto intro: inv_step)

lemma run_from_init: "run step s ls t \<Longrightarrow> init s \<Longrightarrow> inv t"
  using run_preserves inv_init by blast

end

text \<open>
  A system in which some labels mark an act that may happen once per subject: the act needs the
  subject unmarked, marks it, and no step unmarks it. Then no run performs the act twice for the
  same subject, whatever else happens in between.
\<close>

locale one_shot_system = invariant_system init step inv
  for init :: "'s \<Rightarrow> bool" and step :: "'s \<Rightarrow> 'l \<Rightarrow> 's \<Rightarrow> bool" and inv :: "'s \<Rightarrow> bool" +
  fixes act :: "'l \<Rightarrow> 'i option"
    and done_for :: "'s \<Rightarrow> 'i \<Rightarrow> bool"
  assumes act_once: "inv s \<Longrightarrow> step s l t \<Longrightarrow> act l = Some i \<Longrightarrow> \<not> done_for s i \<and> done_for t i"
    and done_stays: "inv s \<Longrightarrow> step s l t \<Longrightarrow> done_for s i \<Longrightarrow> done_for t i"
begin

lemma acts_counted:
  "run step s ls t \<Longrightarrow> inv s \<Longrightarrow>
   length (filter (\<lambda>l. act l = Some i) ls) \<le> (if done_for t i \<and> \<not> done_for s i then 1 else 0)
   \<and> (done_for s i \<longrightarrow> done_for t i)"
proof (induction rule: run.induct)
  case (run_snoc s ls t l u)
  then have "inv t" using run_preserves by blast
  with run_snoc show ?case
    using act_once[of t l u i] done_stays[of t l u i] by (auto split: if_splits)
qed simp

lemma at_most_one_act: "run step s ls t \<Longrightarrow> inv s \<Longrightarrow> length (filter (\<lambda>l. act l = Some i) ls) \<le> 1"
  using acts_counted[of s ls t i] by (auto split: if_splits)

lemma no_act_when_done:
  "run step s ls t \<Longrightarrow> inv s \<Longrightarrow> done_for s i \<Longrightarrow> l \<in> set ls \<Longrightarrow> act l \<noteq> Some i"
  using acts_counted[of s ls t i] by (auto simp: filter_empty_conv)

end

text \<open>
  Operations that emit records while they change the state: \<open>does s rs t\<close> promises what a call
  that emits \<open>rs\<close> may do. Whatever keeps \<open>ok\<close> and composes can be looped over a list.
\<close>

locale recorder =
  fixes ok :: "'s \<Rightarrow> bool"
    and does :: "'s \<Rightarrow> 'r list \<Rightarrow> 's \<Rightarrow> bool"
  assumes does_nil: "ok s \<Longrightarrow> does s [] s"
    and does_append: "ok s \<Longrightarrow> does s rs t \<Longrightarrow> does t rs' u \<Longrightarrow> does s (rs @ rs') u"
    and does_ok: "ok s \<Longrightarrow> does s rs t \<Longrightarrow> ok t"
begin

lemma does_two:
  "ok s \<Longrightarrow> does s rs t \<Longrightarrow> (ok t \<Longrightarrow> does t rs' u) \<Longrightarrow> does s (rs @ rs') u"
  using does_append does_ok by blast

lemma does_loop:
  assumes nil: "\<And>s. loop [] s = ([], s)"
    and cons: "\<And>i is s. loop (i # is) s =
      (case f i s of (rs, s1) \<Rightarrow> (case loop is s1 of (rs', s2) \<Rightarrow> (rs @ rs', s2)))"
    and body: "\<And>i s. i \<in> set xs \<Longrightarrow> ok s \<Longrightarrow> does s (fst (f i s)) (snd (f i s))"
  shows "ok s \<Longrightarrow> does s (fst (loop xs s)) (snd (loop xs s))"
  using body
proof (induction xs arbitrary: s)
  case Nil
  then show ?case by (simp add: nil does_nil)
next
  case (Cons i xs)
  from Cons.prems have d: "does s (fst (f i s)) (snd (f i s))" by simp
  with Cons.prems(1) have "ok (snd (f i s))" by (rule does_ok)
  with Cons have "does (snd (f i s)) (fst (loop xs (snd (f i s)))) (snd (loop xs (snd (f i s))))"
    by simp
  with does_append[OF Cons.prems(1) d] show ?case by (simp add: cons case_prod_beta)
qed

lemma run_does:
  "run (\<lambda>s rs t. does s rs t) s rss t \<Longrightarrow> ok s \<Longrightarrow> does s (concat rss) t"
proof (induction rule: run.induct)
  case (run_snoc s rss t rs u)
  then show ?case using does_append by simp
qed (simp add: does_nil)

end

end
