(* ===== verification/Admission.thy ===== *)
theory Admission
  imports Prelude
begin

text \<open>
  \<open>momentum_live/admission.py\<close>: signals, broker routes, entry prices and the
  \<open>EpisodeLedger\<close>, the single owner of the live strategy's episodes. The ledger is a record of
  four dictionaries; the episode objects the source shares between \<open>episodes\<close>,
  \<open>_latest\<close>, \<open>_sources\<close> and \<open>_active_by_symbol\<close> live once, in \<open>episodes\<close>, and
  the other three hold their identities.
\<close>

section \<open>Signals\<close>

definition STRATEGY_CODE :: string where
  "STRATEGY_CODE = ''momentum_warn_live''"

record signal =
  sig_session_date :: string
  sig_symbol :: string
  sig_source_id :: string
  sig_interval_start_ms :: int
  sig_interval_end_ms :: int
  sig_price :: decimal
  sig_observed_ns :: int
  sig_day_volume :: "int option"
  sig_country_route :: "string option"
  sig_country_category :: "string option"
  sig_country_evidence :: "string option"

definition validate :: "signal \<Rightarrow> unit result" where
  "validate s =
     (if \<not> is_upper_symbol (sig_symbol s) \<or> sig_source_id s = []
         \<or> sig_interval_start_ms s < 0 \<or> sig_interval_start_ms s > sig_interval_end_ms s
         \<or> not_finite_positive (sig_price s)
      then Inl (Refusal ''signal_invalid'')
      else case sig_day_volume s of
        None \<Rightarrow> Inl (Refusal ''day_volume_unknown'')
      | Some v \<Rightarrow> if v < 50000 then Inl (Refusal ''day_volume_below_50000'') else Inr ())"

section \<open>Routes and entry prices\<close>

datatype route = SCHWAB | WEBULL

fun route_value :: "route \<Rightarrow> string" where
  "route_value SCHWAB = ''schwab''"
| "route_value WEBULL = ''webull''"

text \<open>\<open>Route(text)\<close>, the enum's constructor from its value.\<close>

definition route_of :: "string \<Rightarrow> route result" where
  "route_of t = (if t = ''schwab'' then Inr SCHWAB else if t = ''webull'' then Inr WEBULL
                 else Inl (ValueError t))"

record route_decision =
  rd_route :: route
  rd_reason :: string

text \<open>
  \<open>select_route\<close> reads the New York clock hour of the decision instant (\<open>now.astimezone(ET)\<close>);
  the time-zone conversion is the caller's argument.
\<close>

definition select_route :: "int \<Rightarrow> bool \<Rightarrow> bool option \<Rightarrow> route_decision result" where
  "select_route local_hour market_open is_us =
     (if \<not> market_open \<or> \<not> (4 \<le> local_hour \<and> local_hour < 16)
      then Inl (Refusal ''entry_window_closed'')
      else if local_hour < 7 then Inr \<lparr>rd_route = WEBULL, rd_reason = ''all_before_0700''\<rparr>
      else case is_us of
        Some True \<Rightarrow> Inr \<lparr>rd_route = SCHWAB, rd_reason = ''sec_us''\<rparr>
      | Some False \<Rightarrow> Inr \<lparr>rd_route = WEBULL, rd_reason = ''sec_non_us''\<rparr>
      | None \<Rightarrow> Inr \<lparr>rd_route = WEBULL, rd_reason = ''sec_unknown_at_decision''\<rparr>)"

record entry_price =
  ep_limit :: rat
  ep_cap :: rat
  ep_quantity :: int

definition price_entry ::
  "decimal \<Rightarrow> decimal option \<Rightarrow> int option \<Rightarrow> int \<Rightarrow> route \<Rightarrow> decimal \<Rightarrow> entry_price result" where
  "price_entry signal_price ask quote_ns now_ns route tick =
     (case (ask, quote_ns) of
        (Some (Fin a), Some q) \<Rightarrow>
          if a \<le> 0 \<or> \<not> (0 \<le> now_ns - q \<and> now_ns - q \<le> 2000000000)
          then Inl (Refusal ''quote_missing_future_or_stale'')
          else (case (signal_price, tick) of
            (Fin sp, Fin tk) \<Rightarrow>
              if sp \<le> 0 \<or> tk \<le> 0 then Inl (Refusal ''price_invalid'')
              else let cap = sp * (1015 / 1000);
                       limit = ceil_to tk a
                   in if limit > cap then Inl (Refusal ''rounded_ask_above_cap'')
                      else let quantity = whole_shares 100 limit
                           in if route = WEBULL \<and> limit < 1 \<and> quantity < 100
                              then Inl (Refusal ''webull_subdollar_quantity_below_100'')
                              else Inr \<lparr>ep_limit = limit, ep_cap = cap, ep_quantity = quantity\<rparr>
          | _ \<Rightarrow> Inl (Refusal ''price_invalid''))
      | _ \<Rightarrow> Inl (Refusal ''quote_missing_future_or_stale''))"

section \<open>Episodes and the ledger\<close>

datatype ep_state =
    Claimed | Submitting | Working | Partial | Held | CancelRequested | Exiting | Unknown
  | Closed | TerminalNoFill

fun state_value :: "ep_state \<Rightarrow> string" where
  "state_value Claimed = ''claimed''"
| "state_value Submitting = ''submitting''"
| "state_value Working = ''working''"
| "state_value Partial = ''partial''"
| "state_value Held = ''held''"
| "state_value CancelRequested = ''cancel_requested''"
| "state_value Exiting = ''exiting''"
| "state_value Unknown = ''unknown''"
| "state_value Closed = ''closed''"
| "state_value TerminalNoFill = ''terminal_no_fill''"

definition all_states :: "ep_state list" where
  "all_states = [Claimed, Submitting, Working, Partial, Held, CancelRequested, Exiting, Unknown,
                 Closed, TerminalNoFill]"

text \<open>The membership test of \<open>restore\<close>: a state text outside the known states is invalid.\<close>

definition state_of :: "string \<Rightarrow> ep_state option" where
  "state_of t = find (\<lambda>s. state_value s = t) all_states"

text \<open>\<open>ACTIVE_STATES\<close>.\<close>

fun is_active :: "ep_state \<Rightarrow> bool" where
  "is_active Closed = False"
| "is_active TerminalNoFill = False"
| "is_active _ = True"

record episode =
  ep_id :: string
  ep_date :: string
  ep_symbol :: string
  ep_start_ms :: int
  ep_end_ms :: int
  ep_sources :: "string set"
  ep_state :: ep_state
  ep_route :: "route option"
  ep_first_submit_ns :: "int option"
  ep_fallback_used :: bool
  ep_cancel_requested :: bool
  ep_filled :: rat
  ep_exited :: rat
  ep_first_fill_ns :: "int option"
  ep_closed_ns :: "int option"

definition ep_remaining :: "episode \<Rightarrow> rat" where
  "ep_remaining e = ep_filled e - ep_exited e"

abbreviation ep_active :: "episode \<Rightarrow> bool" where
  "ep_active e \<equiv> is_active (ep_state e)"

type_synonym source_key = "string \<times> string \<times> string"

record ledger =
  capacity :: int
  history_limit :: int
  episodes :: "(string, episode) dict"
  latest :: "(string \<times> string, string) dict"
  sources :: "(source_key, string) dict"
  active_by_symbol :: "(string, string set) dict"
  active_count :: int
  ready :: bool

definition new_ledger :: "int \<Rightarrow> int \<Rightarrow> ledger" where
  "new_ledger cap hist =
     \<lparr>capacity = cap, history_limit = hist, episodes = [], latest = [], sources = [],
      active_by_symbol = [], active_count = 0, ready = False\<rparr>"

definition overlaps :: "signal \<Rightarrow> episode \<Rightarrow> bool" where
  "overlaps s e \<longleftrightarrow> sig_interval_start_ms s \<le> ep_end_ms e \<and> sig_interval_end_ms s \<ge> ep_start_ms e"

text \<open>\<open>f"{STRATEGY_CODE}:{session_date}:{symbol}:{source_id}"\<close>, the name the episode id hashes.\<close>

definition identity_text :: "signal \<Rightarrow> string" where
  "identity_text s = STRATEGY_CODE @ '':'' @ sig_session_date s @ '':'' @ sig_symbol s
                     @ '':'' @ sig_source_id s"

definition new_episode :: "string \<Rightarrow> signal \<Rightarrow> episode" where
  "new_episode i s =
     \<lparr>ep_id = i, ep_date = sig_session_date s, ep_symbol = sig_symbol s,
      ep_start_ms = sig_interval_start_ms s, ep_end_ms = sig_interval_end_ms s,
      ep_sources = {sig_source_id s}, ep_state = Claimed, ep_route = None,
      ep_first_submit_ns = None, ep_fallback_used = False, ep_cancel_requested = False,
      ep_filled = 0, ep_exited = 0, ep_first_fill_ns = None, ep_closed_ns = None\<rparr>"

definition lookup_episode :: "ledger \<Rightarrow> string \<Rightarrow> episode result" where
  "lookup_episode L i = (case map_of (episodes L) i of None \<Rightarrow> Inl KeyError | Some e \<Rightarrow> Inr e)"

definition put_episode :: "string \<Rightarrow> episode \<Rightarrow> ledger \<Rightarrow> ledger" where
  "put_episode i e L = L\<lparr>episodes := AList.update i e (episodes L)\<rparr>"

definition active_ids :: "ledger \<Rightarrow> string \<Rightarrow> string set" where
  "active_ids L y = (case map_of (active_by_symbol L) y of None \<Rightarrow> {} | Some A \<Rightarrow> A)"

definition insert_active :: "string \<Rightarrow> string \<Rightarrow> ledger \<Rightarrow> ledger" where
  "insert_active y i L =
     L\<lparr>active_by_symbol := AList.update y (insert i (active_ids L y)) (active_by_symbol L)\<rparr>"

definition discard_active :: "string \<Rightarrow> string \<Rightarrow> ledger \<Rightarrow> ledger" where
  "discard_active y i L =
     (case map_of (active_by_symbol L) y of
        None \<Rightarrow> L
      | Some A \<Rightarrow>
          if A - {i} = {} then L\<lparr>active_by_symbol := AList.delete y (active_by_symbol L)\<rparr>
          else L\<lparr>active_by_symbol := AList.update y (A - {i}) (active_by_symbol L)\<rparr>)"

text \<open>
  The extension of a known episode by a further source of the same move, and the creation of
  a new one. \<open>uuid5\<close> stands for \<open>str(uuid5(NAMESPACE_URL, name))\<close>.
\<close>

definition merge_signal :: "signal \<Rightarrow> episode \<Rightarrow> episode" where
  "merge_signal s e =
     e\<lparr>ep_start_ms := min (ep_start_ms e) (sig_interval_start_ms s),
       ep_end_ms := max (ep_end_ms e) (sig_interval_end_ms s),
       ep_sources := insert (sig_source_id s) (ep_sources e)\<rparr>"

definition sig_key :: "signal \<Rightarrow> string \<times> string" where
  "sig_key s = (sig_session_date s, sig_symbol s)"

definition sig_source_key :: "signal \<Rightarrow> source_key" where
  "sig_source_key s = (sig_session_date s, sig_symbol s, sig_source_id s)"

definition admit_new :: "(string \<Rightarrow> string) \<Rightarrow> ledger \<Rightarrow> signal \<Rightarrow> ledger \<times> string" where
  "admit_new uuid5 L s =
     (let i = uuid5 (identity_text s);
          L1 = put_episode i (new_episode i s) L;
          L2 = L1\<lparr>latest := AList.update (sig_key s) i (latest L1),
                  sources := AList.update (sig_source_key s) i (sources L1),
                  active_count := active_count L1 + 1\<rparr>
      in (insert_active (sig_symbol s) i L2, i))"

definition claim_owned ::
  "(string \<Rightarrow> string) \<Rightarrow> ledger \<Rightarrow> signal \<Rightarrow> int \<Rightarrow> episode list \<Rightarrow> (ledger \<times> string \<times> bool) result" where
  "claim_owned uuid5 L s now_ns active =
     (let overlapping = filter (\<lambda>e. ep_date e = sig_session_date s \<and> overlaps s e) active;
          recent = (case map_of (latest L) (sig_key s) of
                      None \<Rightarrow> None | Some i \<Rightarrow> map_of (episodes L) i);
          prior = (if overlapping \<noteq> [] then Some (hd overlapping) else recent)
      in if length overlapping > 1 then Inl (Refusal ''multiple_owned_overlapping_episodes'')
         else if (case prior of None \<Rightarrow> False | Some p \<Rightarrow> overlaps s p)
         then (if int (length (sources L)) \<ge> history_limit L
               then Inl (Refusal ''episode_history_full'')
               else let p = the prior
                    in Inr ((put_episode (ep_id p) (merge_signal s p) L)
                              \<lparr>sources := AList.update (sig_source_key s) (ep_id p) (sources L)\<rparr>,
                            ep_id p, False))
         else if active \<noteq> [] then Inl (Refusal ''symbol_episode_pending_or_held'')
         else if (case prior of
                    None \<Rightarrow> False
                  | Some p \<Rightarrow> (case ep_closed_ns p of
                                None \<Rightarrow> False | Some c \<Rightarrow> now_ns - c < 30000000000))
         then Inl (Refusal ''symbol_close_cooldown'')
         else if active_count L \<ge> capacity L then Inl (Refusal ''two_reservations_full'')
         else if int (length (sources L)) \<ge> history_limit L
         then Inl (Refusal ''episode_history_full'')
         else let (L', i) = admit_new uuid5 L s in Inr (L', i, True))"

definition claim ::
  "(string \<Rightarrow> string) \<Rightarrow> ledger \<Rightarrow> signal \<Rightarrow> int \<Rightarrow> bool \<Rightarrow> (ledger \<times> string \<times> bool) result" where
  "claim uuid5 L s now_ns foreign_owner =
     (case validate s of
        Inl e \<Rightarrow> Inl e
      | Inr _ \<Rightarrow>
          if \<not> ready L then Inl (Refusal ''ownership_restore_pending'')
          else if foreign_owner then Inl (Refusal ''foreign_account_symbol_owner'')
          else (case map_of (sources L) (sig_source_key s) of
            Some i \<Rightarrow> Inr (L, i, False)
          | None \<Rightarrow>
              (case map_result (lookup_episode L)
                      (sorted_list_of_set (active_ids L (sig_symbol s))) of
                 Inl e \<Rightarrow> Inl e
               | Inr active \<Rightarrow> claim_owned uuid5 L s now_ns active)))"

definition begin_submit :: "ledger \<Rightarrow> string \<Rightarrow> route \<Rightarrow> int \<Rightarrow> ledger result" where
  "begin_submit L i rt now_ns =
     (case lookup_episode L i of
        Inl e \<Rightarrow> Inl e
      | Inr e \<Rightarrow>
          if ep_state e \<noteq> Claimed \<or> ep_first_submit_ns e \<noteq> None
          then Inl (Refusal ''entry_already_attempted'')
          else Inr (put_episode i (e\<lparr>ep_route := Some rt, ep_first_submit_ns := Some now_ns,
                                     ep_state := Submitting\<rparr>) L))"

definition claim_fallback :: "ledger \<Rightarrow> string \<Rightarrow> int \<Rightarrow> bool \<Rightarrow> bool \<Rightarrow> unit result" where
  "claim_fallback L i now_ns proven_ineligible proven_terminal_zero_fill =
     Inl (Refusal ''fallback_disabled_operator_142x'')"

definition cancel_due :: "ledger \<Rightarrow> string \<Rightarrow> int \<Rightarrow> (ledger \<times> bool) result" where
  "cancel_due L i now_ns =
     (case lookup_episode L i of
        Inl e \<Rightarrow> Inl e
      | Inr e \<Rightarrow>
          if (case ep_first_submit_ns e of
                None \<Rightarrow> True | Some t \<Rightarrow> now_ns - t < 2000000000)
             \<or> ep_cancel_requested e
             \<or> ep_state e \<notin> {Submitting, Working, Partial, Unknown}
          then Inr (L, False)
          else Inr (put_episode i (e\<lparr>ep_cancel_requested := True,
                                     ep_state := CancelRequested\<rparr>) L, True))"

text \<open>
  \<open>reconcile\<close>: the fields of the episode from the broker's cumulative quantities, then the
  active counter and the index by symbol.
\<close>

definition reconciled_episode ::
  "episode \<Rightarrow> rat \<Rightarrow> rat \<Rightarrow> int \<Rightarrow> bool \<Rightarrow> bool \<Rightarrow> int option \<Rightarrow> episode" where
  "reconciled_episode e cf cx now_ns terminal_entry outstanding_exit first_fill_ns =
     (let e1 = (if cf > 0
                then (case first_fill_ns of
                        None \<Rightarrow> e
                      | Some t \<Rightarrow> e\<lparr>ep_first_fill_ns :=
                          Some (case ep_first_fill_ns e of None \<Rightarrow> t | Some u \<Rightarrow> min u t)\<rparr>)
                else e);
          e2 = e1\<lparr>ep_filled := cf, ep_exited := cx\<rparr>
      in if terminal_entry \<and> ep_remaining e2 = 0 \<and> \<not> outstanding_exit
         then (let e3 = e2\<lparr>ep_state := (if ep_filled e2 \<noteq> 0 then Closed else TerminalNoFill)\<rparr>
               in if ep_filled e3 \<noteq> 0 \<and> ep_closed_ns e3 = None
                  then e3\<lparr>ep_closed_ns := Some now_ns\<rparr> else e3)
         else if ep_remaining e2 > 0
         then e2\<lparr>ep_state := (if terminal_entry then Held else Partial)\<rparr>
         else if \<not> terminal_entry then e2\<lparr>ep_state := Unknown\<rparr>
         else e2)"

definition reindex :: "string \<Rightarrow> episode \<Rightarrow> episode \<Rightarrow> ledger \<Rightarrow> ledger" where
  "reindex i old new L =
     (let L1 = (put_episode i new L)
                 \<lparr>active_count := active_count L + (if ep_active new then 1 else 0)
                                                  - (if ep_active old then 1 else 0)\<rparr>
      in if ep_active new then insert_active (ep_symbol new) (ep_id new) L1
         else discard_active (ep_symbol new) (ep_id new) L1)"

definition reconcile ::
  "ledger \<Rightarrow> string \<Rightarrow> decimal \<Rightarrow> decimal \<Rightarrow> int \<Rightarrow> bool \<Rightarrow> bool \<Rightarrow> int option \<Rightarrow> ledger result" where
  "reconcile L i cumulative_filled cumulative_exited now_ns terminal_entry outstanding_exit
             first_fill_ns =
     (case lookup_episode L i of
        Inl x \<Rightarrow> Inl x
      | Inr e \<Rightarrow>
          (case (cumulative_filled, cumulative_exited) of
             (Fin cf, Fin cx) \<Rightarrow>
               if cf < ep_filled e \<or> cx < ep_exited e \<or> cx < 0 \<or> cx > cf
               then Inl (Refusal ''fill_reconciliation_invalid'')
               else if (case first_fill_ns of
                          None \<Rightarrow> False | Some t \<Rightarrow> \<not> (0 < t \<and> t \<le> now_ns))
               then Inl (Refusal ''first_fill_time_unknown_or_future'')
               else Inr (reindex i e (reconciled_episode e cf cx now_ns terminal_entry
                                        outstanding_exit first_fill_ns) L)
           | _ \<Rightarrow> Inl (Refusal ''fill_reconciliation_invalid'')))"

definition time_exit_due :: "ledger \<Rightarrow> string \<Rightarrow> int \<Rightarrow> bool result" where
  "time_exit_due L i now_ns =
     (case lookup_episode L i of
        Inl e \<Rightarrow> Inl e
      | Inr e \<Rightarrow>
          let clock = (case ep_first_fill_ns e of
                         Some t \<Rightarrow> Some t | None \<Rightarrow> ep_first_submit_ns e)
          in Inr (ep_remaining e > 0
                  \<and> (case clock of None \<Rightarrow> False | Some t \<Rightarrow> now_ns - t \<ge> 300000000000)))"

section \<open>Snapshot and restore\<close>

text \<open>
  A row of the durable snapshot: the source set as a sorted list, the state and the route as
  their texts, the quantities as decimal texts (read back by \<open>Decimal\<close>).
\<close>

record row =
  r_id :: string
  r_date :: string
  r_symbol :: string
  r_start_ms :: int
  r_end_ms :: int
  r_sources :: "string list"
  r_state :: string
  r_route :: "string option"
  r_first_submit_ns :: "int option"
  r_fallback_used :: bool
  r_cancel_requested :: bool
  r_filled :: decimal
  r_exited :: decimal
  r_first_fill_ns :: "int option"
  r_closed_ns :: "int option"

definition row_of :: "episode \<Rightarrow> row" where
  "row_of e =
     \<lparr>r_id = ep_id e, r_date = ep_date e, r_symbol = ep_symbol e, r_start_ms = ep_start_ms e,
      r_end_ms = ep_end_ms e, r_sources = sorted_list_of_set (ep_sources e),
      r_state = state_value (ep_state e), r_route = map_option route_value (ep_route e),
      r_first_submit_ns = ep_first_submit_ns e, r_fallback_used = ep_fallback_used e,
      r_cancel_requested = ep_cancel_requested e, r_filled = Fin (ep_filled e),
      r_exited = Fin (ep_exited e), r_first_fill_ns = ep_first_fill_ns e,
      r_closed_ns = ep_closed_ns e\<rparr>"

definition snapshot :: "ledger \<Rightarrow> row list" where
  "snapshot L = map (\<lambda>p. row_of (snd p)) (episodes L)"

definition row_route :: "string option \<Rightarrow> route option result" where
  "row_route r =
     (case r of
        None \<Rightarrow> Inr None
      | Some t \<Rightarrow> if t = [] then Inr None
                  else (case route_of t of Inl e \<Rightarrow> Inl e | Inr rt \<Rightarrow> Inr (Some rt)))"

text \<open>
  The conversion and the check of one row; \<open>seen\<close> are the episodes restored so far.
\<close>

definition episode_of_row :: "(string, episode) dict \<Rightarrow> row \<Rightarrow> episode result" where
  "episode_of_row seen r =
     (case row_route (r_route r) of
        Inl e \<Rightarrow> Inl e
      | Inr rt \<Rightarrow>
          (case (state_of (r_state r), r_filled r, r_exited r) of
             (Some st, Fin f, Fin x) \<Rightarrow>
               if map_of seen (r_id r) \<noteq> None \<or> x < 0 \<or> x > f
               then Inl (Refusal ''restore_invalid'')
               else Inr \<lparr>ep_id = r_id r, ep_date = r_date r, ep_symbol = r_symbol r,
                         ep_start_ms = r_start_ms r, ep_end_ms = r_end_ms r,
                         ep_sources = set (r_sources r), ep_state = st, ep_route = rt,
                         ep_first_submit_ns = r_first_submit_ns r,
                         ep_fallback_used = r_fallback_used r,
                         ep_cancel_requested = r_cancel_requested r,
                         ep_filled = f, ep_exited = x,
                         ep_first_fill_ns = r_first_fill_ns r, ep_closed_ns = r_closed_ns r\<rparr>
           | _ \<Rightarrow> Inl (Refusal ''restore_invalid'')))"

text \<open>The tuple comparison \<open>(end_ms, start_ms, episode_id) > (...)\<close>.\<close>

definition later :: "episode \<Rightarrow> episode \<Rightarrow> bool" where
  "later e p \<longleftrightarrow>
     ep_end_ms e > ep_end_ms p
     \<or> ep_end_ms e = ep_end_ms p
        \<and> (ep_start_ms e > ep_start_ms p \<or> ep_start_ms e = ep_start_ms p \<and> ep_id e > ep_id p)"

fun restore_sources ::
  "string \<times> string \<Rightarrow> string \<Rightarrow> string list \<Rightarrow> (source_key, string) dict
   \<Rightarrow> (source_key, string) dict result" where
  "restore_sources key i [] d = Inr d"
| "restore_sources key i (x # xs) d =
     (if map_of d (fst key, snd key, x) \<noteq> None then Inl (Refusal ''restore_duplicate_source'')
      else restore_sources key i xs (AList.update (fst key, snd key, x) i d))"

definition restore_episode :: "ledger \<Rightarrow> episode \<Rightarrow> ledger result" where
  "restore_episode L e =
     (let key = (ep_date e, ep_symbol e);
          previous = (case map_of (latest L) key of
                        None \<Rightarrow> None | Some j \<Rightarrow> map_of (episodes L) j);
          L1 = put_episode (ep_id e) e L;
          L2 = (if (case previous of None \<Rightarrow> True | Some p \<Rightarrow> later e p)
                then L1\<lparr>latest := AList.update key (ep_id e) (latest L1)\<rparr> else L1);
          L3 = L2\<lparr>active_count := active_count L2 + (if ep_active e then 1 else 0)\<rparr>;
          L4 = (if ep_active e then insert_active (ep_symbol e) (ep_id e) L3 else L3)
      in (case restore_sources key (ep_id e) (sorted_list_of_set (ep_sources e)) (sources L4) of
            Inl x \<Rightarrow> Inl x
          | Inr d \<Rightarrow> Inr (L4\<lparr>sources := d\<rparr>)))"

fun restore_rows :: "ledger \<Rightarrow> row list \<Rightarrow> ledger result" where
  "restore_rows L [] = Inr L"
| "restore_rows L (r # rs) =
     (case episode_of_row (episodes L) r of
        Inl e \<Rightarrow> Inl e
      | Inr e \<Rightarrow>
          (case restore_episode L e of Inl x \<Rightarrow> Inl x | Inr L' \<Rightarrow> restore_rows L' rs))"

definition restore :: "row list \<Rightarrow> int \<Rightarrow> int \<Rightarrow> ledger result" where
  "restore rows cap hist =
     (case restore_rows (new_ledger cap hist) rows of
        Inl e \<Rightarrow> Inl e
      | Inr L \<Rightarrow>
          if int (length (sources L)) > hist \<or> active_count L > cap
          then Inl (Refusal ''restore_capacity_invalid'')
          else Inr (L\<lparr>ready := True\<rparr>))"

end
