(* ===== verification/AdmissionInv.thy ===== *)
theory AdmissionInv
  imports Admission
begin

text \<open>
  The well-formedness of an \<open>EpisodeLedger\<close> and its preservation by every operation that
  changes it. The three indexes of the ledger are determined by its episodes: each source of
  each episode is registered once, the index by symbol holds exactly the active episodes of
  that symbol, and the counter counts the active episodes.
\<close>

named_theorems ledger_simps "projections of the ledger's update functions"

section \<open>The invariant\<close>

definition active_set :: "(string, episode) dict \<Rightarrow> string \<Rightarrow> string set" where
  "active_set d y = {i. \<exists>e. map_of d i = Some e \<and> ep_active e \<and> ep_symbol e = y}"

definition episode_ok :: "string \<Rightarrow> episode \<Rightarrow> bool" where
  "episode_ok i e \<longleftrightarrow>
     ep_id e = i \<and> finite (ep_sources e) \<and> 0 \<le> ep_exited e \<and> ep_exited e \<le> ep_filled e"

definition owns :: "episode \<Rightarrow> source_key \<Rightarrow> bool" where
  "owns e k \<longleftrightarrow> (case k of (d, y, x) \<Rightarrow> ep_date e = d \<and> ep_symbol e = y \<and> x \<in> ep_sources e)"

definition ledger_inv :: "ledger \<Rightarrow> bool" where
  "ledger_inv L \<longleftrightarrow>
     keys_distinct (episodes L) \<and> keys_distinct (sources L)
     \<and> keys_distinct (latest L) \<and> keys_distinct (active_by_symbol L)
     \<and> (\<forall>i e. map_of (episodes L) i = Some e \<longrightarrow> episode_ok i e)
     \<and> (\<forall>k i. map_of (sources L) k = Some i
              \<longleftrightarrow> (\<exists>e. map_of (episodes L) i = Some e \<and> owns e k))
     \<and> (\<forall>k i. map_of (latest L) k = Some i
              \<longrightarrow> (\<exists>e. map_of (episodes L) i = Some e \<and> (ep_date e, ep_symbol e) = k))
     \<and> active_count L = count_vals ep_active (episodes L)
     \<and> (\<forall>y. map_of (active_by_symbol L) y
              = (if active_set (episodes L) y = {} then None
                 else Some (active_set (episodes L) y)))"

lemma ledger_inv_new: "ledger_inv (new_ledger cap hist)"
  by (simp add: ledger_inv_def new_ledger_def active_set_def)

lemma ledger_inv_ready: "ledger_inv (L\<lparr>ready := b\<rparr>) \<longleftrightarrow> ledger_inv L"
  by (simp add: ledger_inv_def)

lemma ledger_invD:
  assumes "ledger_inv L"
  shows inv_episode: "map_of (episodes L) i = Some e \<Longrightarrow> episode_ok i e"
    and inv_source: "map_of (sources L) k = Some i
                       \<longleftrightarrow> (\<exists>e. map_of (episodes L) i = Some e \<and> owns e k)"
    and inv_latest: "map_of (latest L) kk = Some i
                       \<Longrightarrow> \<exists>e. map_of (episodes L) i = Some e \<and> (ep_date e, ep_symbol e) = kk"
    and inv_count: "active_count L = count_vals ep_active (episodes L)"
    and inv_active: "map_of (active_by_symbol L) y
                       = (if active_set (episodes L) y = {} then None
                          else Some (active_set (episodes L) y))"
  using assms unfolding ledger_inv_def by blast+

lemma ledger_invI:
  assumes "keys_distinct (episodes L)" "keys_distinct (sources L)"
    and "keys_distinct (latest L)" "keys_distinct (active_by_symbol L)"
    and "\<And>i e. map_of (episodes L) i = Some e \<Longrightarrow> episode_ok i e"
    and "\<And>k i. map_of (sources L) k = Some i
                \<longleftrightarrow> (\<exists>e. map_of (episodes L) i = Some e \<and> owns e k)"
    and "\<And>k i. map_of (latest L) k = Some i
                \<Longrightarrow> \<exists>e. map_of (episodes L) i = Some e \<and> (ep_date e, ep_symbol e) = k"
    and "active_count L = count_vals ep_active (episodes L)"
    and "\<And>y. map_of (active_by_symbol L) y
              = (if active_set (episodes L) y = {} then None
                 else Some (active_set (episodes L) y))"
  shows "ledger_inv L"
  using assms unfolding ledger_inv_def by blast

lemma ledger_inv_keys:
  assumes "ledger_inv L"
  shows "keys_distinct (episodes L)" "keys_distinct (sources L)"
    "keys_distinct (latest L)" "keys_distinct (active_by_symbol L)"
  using assms unfolding ledger_inv_def by blast+

lemma active_ids_eq: "ledger_inv L \<Longrightarrow> active_ids L y = active_set (episodes L) y"
  by (simp add: active_ids_def inv_active)

lemma finite_active_set [simp]: "finite (active_set d y)"
proof -
  have "active_set d y \<subseteq> fst ` set d"
    by (auto simp: active_set_def dest: map_of_SomeD intro!: image_eqI[rotated])
  then show ?thesis by (rule finite_subset) simp
qed

section \<open>Changing one episode\<close>

text \<open>
  The index by symbol after one episode is stored, when its symbol does not change; with it,
  each operation's index update is an instance of one of the two cases below.
\<close>

lemma active_set_update:
  "(\<And>f. map_of d i = Some f \<Longrightarrow> ep_symbol f = ep_symbol e) \<Longrightarrow>
   active_set (AList.update i e d) y =
     (if y = ep_symbol e then (if ep_active e then insert i (active_set d y)
                               else active_set d y - {i})
      else active_set d y)"
  by (auto simp: active_set_def map_of_update split: if_splits)

lemma insert_active_simps [ledger_simps]:
  "episodes (insert_active y i L) = episodes L"
  "latest (insert_active y i L) = latest L"
  "sources (insert_active y i L) = sources L"
  "active_count (insert_active y i L) = active_count L"
  "ready (insert_active y i L) = ready L"
  "capacity (insert_active y i L) = capacity L"
  "history_limit (insert_active y i L) = history_limit L"
  by (simp_all add: insert_active_def)

lemma discard_active_simps [ledger_simps]:
  "episodes (discard_active y i L) = episodes L"
  "latest (discard_active y i L) = latest L"
  "sources (discard_active y i L) = sources L"
  "active_count (discard_active y i L) = active_count L"
  "ready (discard_active y i L) = ready L"
  "capacity (discard_active y i L) = capacity L"
  "history_limit (discard_active y i L) = history_limit L"
  by (simp_all add: discard_active_def split: option.split)

lemma put_episode_simps [ledger_simps]:
  "episodes (put_episode i e L) = AList.update i e (episodes L)"
  "latest (put_episode i e L) = latest L"
  "sources (put_episode i e L) = sources L"
  "active_count (put_episode i e L) = active_count L"
  "active_by_symbol (put_episode i e L) = active_by_symbol L"
  "ready (put_episode i e L) = ready L"
  "capacity (put_episode i e L) = capacity L"
  "history_limit (put_episode i e L) = history_limit L"
  by (simp_all add: put_episode_def)

lemma reindex_simps [ledger_simps]:
  "episodes (reindex i old new L) = AList.update i new (episodes L)"
  "latest (reindex i old new L) = latest L"
  "sources (reindex i old new L) = sources L"
  "active_count (reindex i old new L) =
     active_count L + (if ep_active new then 1 else 0) - (if ep_active old then 1 else 0)"
  "ready (reindex i old new L) = ready L"
  "capacity (reindex i old new L) = capacity L"
  "history_limit (reindex i old new L) = history_limit L"
  by (simp_all add: reindex_def Let_def ledger_simps)

lemma map_of_insert_active:
  "map_of (active_by_symbol (insert_active y i L)) z =
     (if z = y then Some (insert i (active_ids L y)) else map_of (active_by_symbol L) z)"
  by (simp add: insert_active_def map_of_update)

lemma map_of_discard_active:
  "map_of (active_by_symbol (discard_active y i L)) z =
     (if z = y then (if active_ids L y - {i} = {} then None else Some (active_ids L y - {i}))
      else map_of (active_by_symbol L) z)"
  if "map_of (active_by_symbol L) y \<noteq> Some {}"
  using that
  by (auto simp: discard_active_def active_ids_def map_of_update map_of_delete
      split: option.split)

lemma keys_distinct_active [ledger_simps]:
  "keys_distinct (active_by_symbol L) \<Longrightarrow> keys_distinct (active_by_symbol (insert_active y i L))"
  "keys_distinct (active_by_symbol L) \<Longrightarrow> keys_distinct (active_by_symbol (discard_active y i L))"
  by (auto simp: insert_active_def discard_active_def keys_distinct_update keys_distinct_delete
      split: option.split)

text \<open>
  The common step of \<open>reconcile\<close>, \<open>begin_submit\<close> and \<open>cancel_due\<close>: a known episode is
  replaced by one with the same identity, key and sources.
\<close>

lemma ledger_inv_reindex:
  assumes inv: "ledger_inv L" and old: "map_of (episodes L) i = Some old"
    and ok: "episode_ok i new"
    and same: "ep_date new = ep_date old" "ep_symbol new = ep_symbol old"
              "ep_sources new = ep_sources old"
  shows "ledger_inv (reindex i old new L)"
proof -
  have idnew: "ep_id new = i" using ok by (simp add: episode_ok_def)
  have owns_eq: "owns new k = owns old k" for k
    using same by (auto simp: owns_def)
  have act: "active_set (AList.update i new (episodes L)) y =
     (if y = ep_symbol new then (if ep_active new then insert i (active_set (episodes L) y)
                                 else active_set (episodes L) y - {i})
      else active_set (episodes L) y)" for y
    by (rule active_set_update) (use old same in auto)
  let ?L1 = "(put_episode i new L)
     \<lparr>active_count := active_count L + (if ep_active new then 1 else 0)
                     - (if ep_active old then 1 else 0)\<rparr>"
  have ids: "active_ids ?L1 y = active_set (episodes L) y" for y
    using inv by (simp add: active_ids_def ledger_simps inv_active)
  have ne: "map_of (active_by_symbol ?L1) y \<noteq> Some {}" for y
    using inv by (simp add: ledger_simps inv_active)
  have idx: "map_of (active_by_symbol (reindex i old new L)) y =
     (if active_set (AList.update i new (episodes L)) y = {} then None
      else Some (active_set (AList.update i new (episodes L)) y))" for y
    using inv ids ne
    by (auto simp: reindex_def Let_def idnew act map_of_insert_active map_of_discard_active
        inv_active put_episode_simps)
  have kd: "keys_distinct (active_by_symbol (reindex i old new L))"
    using inv by (auto simp: reindex_def Let_def ledger_inv_def ledger_simps)
  show ?thesis
  proof (rule ledger_invI)
    fix k j
    show "map_of (sources (reindex i old new L)) k = Some j
            \<longleftrightarrow> (\<exists>e. map_of (episodes (reindex i old new L)) j = Some e \<and> owns e k)"
      using inv_source[OF inv, of k j] old by (simp add: reindex_simps map_of_update owns_eq)
    show "\<exists>e. map_of (episodes (reindex i old new L)) j = Some e \<and> (ep_date e, ep_symbol e) = k'"
      if "map_of (latest (reindex i old new L)) k' = Some j" for k'
      using inv_latest[OF inv, of k' j] that old same by (auto simp: reindex_simps map_of_update)
  next
    fix j e
    show "episode_ok j e" if "map_of (episodes (reindex i old new L)) j = Some e"
      using that ok inv_episode[OF inv, of j e]
      by (simp add: reindex_simps map_of_update split: if_splits)
  qed (use kd idx ledger_inv_keys[OF inv] inv_count[OF inv] old
       in \<open>simp_all add: reindex_simps dict_simps\<close>)
qed

lemma put_episode_reindex:
  "ledger_inv L \<Longrightarrow> map_of (episodes L) i = Some old \<Longrightarrow> ep_active old \<Longrightarrow> ep_active new
   \<Longrightarrow> ep_symbol new = ep_symbol old \<Longrightarrow> ep_id new = i
   \<Longrightarrow> put_episode i new L = reindex i old new L"
proof -
  assume a: "ledger_inv L" "map_of (episodes L) i = Some old" "ep_active old" "ep_active new"
    "ep_symbol new = ep_symbol old" "ep_id new = i"
  have "i \<in> active_set (episodes L) (ep_symbol old)"
    using a by (auto simp: active_set_def)
  then have "map_of (active_by_symbol L) (ep_symbol old) = Some (active_set (episodes L) (ep_symbol old))"
    and "insert i (active_set (episodes L) (ep_symbol old)) = active_set (episodes L) (ep_symbol old)"
    using a by (auto simp: inv_active)
  then have "AList.update (ep_symbol old) (insert i (active_ids L (ep_symbol old))) (active_by_symbol L)
             = active_by_symbol L"
    using a by (simp add: active_ids_eq update_triv)
  then show ?thesis
    using a by (simp add: reindex_def Let_def insert_active_def put_episode_def active_ids_def)
qed

section \<open>Every operation keeps the invariant\<close>

lemma lookup_episode_Inr [simp]:
  "lookup_episode L i = Inr e \<longleftrightarrow> map_of (episodes L) i = Some e"
  by (simp add: lookup_episode_def split: option.split)

lemma begin_submit_Inr:
  "begin_submit L i rt now = Inr L' \<longleftrightarrow>
     (\<exists>e. map_of (episodes L) i = Some e \<and> ep_state e = Claimed \<and> ep_first_submit_ns e = None
        \<and> L' = put_episode i (e\<lparr>ep_route := Some rt, ep_first_submit_ns := Some now,
                               ep_state := Submitting\<rparr>) L)"
  by (auto simp: begin_submit_def lookup_episode_def split: option.splits)

lemma begin_submit_inv:
  assumes "ledger_inv L" "begin_submit L i rt now = Inr L'"
  shows "ledger_inv L'"
proof -
  from assms(2) obtain e where e: "map_of (episodes L) i = Some e" "ep_state e = Claimed"
    and L': "L' = put_episode i (e\<lparr>ep_route := Some rt, ep_first_submit_ns := Some now,
                                   ep_state := Submitting\<rparr>) L"
    by (auto simp: begin_submit_Inr)
  have ok: "episode_ok i e" using assms(1) e(1) by (rule inv_episode)
  have "L' = reindex i e (e\<lparr>ep_route := Some rt, ep_first_submit_ns := Some now,
                            ep_state := Submitting\<rparr>) L"
    unfolding L' by (rule put_episode_reindex) (use assms(1) e ok in \<open>auto simp: episode_ok_def\<close>)
  also have "ledger_inv \<dots>"
    by (rule ledger_inv_reindex) (use assms(1) e ok in \<open>auto simp: episode_ok_def\<close>)
  finally show ?thesis .
qed

lemma cancel_due_Inr:
  "cancel_due L i now = Inr (L', b) \<Longrightarrow>
     L' = L \<and> \<not> b \<or>
     b \<and> (\<exists>e t. map_of (episodes L) i = Some e \<and> ep_first_submit_ns e = Some t
            \<and> 2000000000 \<le> now - t \<and> \<not> ep_cancel_requested e
            \<and> ep_state e \<in> {Submitting, Working, Partial, Unknown}
            \<and> L' = put_episode i (e\<lparr>ep_cancel_requested := True, ep_state := CancelRequested\<rparr>) L)"
  by (auto simp: cancel_due_def lookup_episode_def split: option.splits if_splits)

lemma cancel_due_inv:
  assumes "ledger_inv L" "cancel_due L i now = Inr (L', b)"
  shows "ledger_inv L'"
  using cancel_due_Inr[OF assms(2)]
proof (elim disjE conjE exE)
  fix e t
  assume e: "map_of (episodes L) i = Some e"
    and st: "ep_state e \<in> {Submitting, Working, Partial, Unknown}"
    and L': "L' = put_episode i (e\<lparr>ep_cancel_requested := True, ep_state := CancelRequested\<rparr>) L"
  have ok: "episode_ok i e" using assms(1) e by (rule inv_episode)
  have "L' = reindex i e (e\<lparr>ep_cancel_requested := True, ep_state := CancelRequested\<rparr>) L"
    unfolding L' by (rule put_episode_reindex) (use assms(1) e ok st in \<open>auto simp: episode_ok_def\<close>)
  also have "ledger_inv \<dots>"
    by (rule ledger_inv_reindex) (use assms(1) e ok in \<open>auto simp: episode_ok_def\<close>)
  finally show ?thesis .
qed (use assms(1) in simp)

lemma reconciled_episode_simps [simp]:
  "ep_id (reconciled_episode e cf cx now t x f) = ep_id e"
  "ep_date (reconciled_episode e cf cx now t x f) = ep_date e"
  "ep_symbol (reconciled_episode e cf cx now t x f) = ep_symbol e"
  "ep_sources (reconciled_episode e cf cx now t x f) = ep_sources e"
  "ep_filled (reconciled_episode e cf cx now t x f) = cf"
  "ep_exited (reconciled_episode e cf cx now t x f) = cx"
  "ep_first_submit_ns (reconciled_episode e cf cx now t x f) = ep_first_submit_ns e"
  "ep_remaining (reconciled_episode e cf cx now t x f) = cf - cx"
  by (simp_all add: reconciled_episode_def Let_def ep_remaining_def split: option.split)

lemma reconcile_Inr:
  "reconcile L i cf cx now t x f = Inr L' \<Longrightarrow>
     \<exists>e rf rx. map_of (episodes L) i = Some e \<and> cf = Fin rf \<and> cx = Fin rx
        \<and> ep_filled e \<le> rf \<and> ep_exited e \<le> rx \<and> 0 \<le> rx \<and> rx \<le> rf
        \<and> (\<forall>u. f = Some u \<longrightarrow> 0 < u \<and> u \<le> now)
        \<and> L' = reindex i e (reconciled_episode e rf rx now t x f) L"
  by (auto simp: reconcile_def lookup_episode_def not_less
      split: option.splits decimal.splits if_splits)

lemma reconcile_inv:
  assumes "ledger_inv L" "reconcile L i cf cx now t x f = Inr L'"
  shows "ledger_inv L'"
proof -
  obtain e rf rx where e: "map_of (episodes L) i = Some e"
    and b: "0 \<le> rx" "rx \<le> rf"
    and L': "L' = reindex i e (reconciled_episode e rf rx now t x f) L"
    using reconcile_Inr[OF assms(2)] by blast
  have ok: "episode_ok i e" using assms(1) e by (rule inv_episode)
  show ?thesis
    unfolding L' by (rule ledger_inv_reindex) (use assms(1) e ok b in \<open>auto simp: episode_ok_def\<close>)
qed


subsection \<open>claim\<close>

lemma merge_signal_simps [simp]:
  "ep_id (merge_signal s e) = ep_id e"
  "ep_date (merge_signal s e) = ep_date e"
  "ep_symbol (merge_signal s e) = ep_symbol e"
  "ep_state (merge_signal s e) = ep_state e"
  "ep_sources (merge_signal s e) = insert (sig_source_id s) (ep_sources e)"
  "ep_filled (merge_signal s e) = ep_filled e"
  "ep_exited (merge_signal s e) = ep_exited e"
  "ep_first_submit_ns (merge_signal s e) = ep_first_submit_ns e"
  by (simp_all add: merge_signal_def)

lemma new_episode_simps [simp]:
  "ep_id (new_episode i s) = i"
  "ep_date (new_episode i s) = sig_session_date s"
  "ep_symbol (new_episode i s) = sig_symbol s"
  "ep_state (new_episode i s) = Claimed"
  "ep_sources (new_episode i s) = {sig_source_id s}"
  "ep_filled (new_episode i s) = 0"
  "ep_exited (new_episode i s) = 0"
  "ep_first_submit_ns (new_episode i s) = None"
  by (simp_all add: new_episode_def)

lemma admit_new_eq:
  "admit_new uuid5 L s = (L', i) \<longleftrightarrow>
     i = uuid5 (identity_text s) \<and>
     L' = insert_active (sig_symbol s) i
            ((put_episode i (new_episode i s) L)
               \<lparr>latest := AList.update (sig_key s) i (latest L),
                sources := AList.update (sig_source_key s) i (sources L),
                active_count := active_count L + 1\<rparr>)"
  by (auto simp: admit_new_def Let_def ledger_simps)

lemma ledger_inv_admit_new:
  assumes inv: "ledger_inv L" and adm: "admit_new uuid5 L s = (L', i)"
    and new: "map_of (episodes L) i = None"
    and src: "map_of (sources L) (sig_source_key s) = None"
  shows "ledger_inv L'"
proof -
  let ?e = "new_episode i s"
  have act: "active_set (AList.update i ?e (episodes L)) y =
     (if y = sig_symbol s then insert i (active_set (episodes L) y) else active_set (episodes L) y)" for y
    using active_set_update[of "episodes L" i ?e y] new by simp
  have eps: "episodes L' = AList.update i ?e (episodes L)"
    and lat: "latest L' = AList.update (sig_key s) i (latest L)"
    and srcs: "sources L' = AList.update (sig_source_key s) i (sources L)"
    and cnt: "active_count L' = active_count L + 1"
    using adm by (auto simp: admit_new_eq ledger_simps)
  have abs: "active_by_symbol L' =
     AList.update (sig_symbol s) (insert i (active_ids L (sig_symbol s))) (active_by_symbol L)"
    using adm by (simp add: admit_new_eq insert_active_def active_ids_def ledger_simps)
  have idx: "map_of (active_by_symbol L') y =
     (if active_set (episodes L') y = {} then None else Some (active_set (episodes L') y))" for y
    by (simp add: abs eps act map_of_update active_ids_eq[OF inv] inv_active[OF inv])
  have kd: "keys_distinct (active_by_symbol L')"
    using ledger_inv_keys[OF inv] by (simp add: abs keys_distinct_update)
  have own: "owns ?e k \<longleftrightarrow> k = sig_source_key s" for k
    by (auto simp: owns_def sig_source_key_def split: prod.splits)
  show ?thesis
  proof (rule ledger_invI)
    fix k j
    show "map_of (sources L') k = Some j
            \<longleftrightarrow> (\<exists>e. map_of (episodes L') j = Some e \<and> owns e k)"
      using inv_source[OF inv, of k j] inv_source[OF inv, of "sig_source_key s" j] new src own
      by (auto simp: eps srcs map_of_update)
    show "\<exists>e. map_of (episodes L') j = Some e \<and> (ep_date e, ep_symbol e) = k'"
      if "map_of (latest L') k' = Some j" for k'
      using inv_latest[OF inv, of k' j] that new
      by (auto simp: eps lat map_of_update sig_key_def split: if_splits)
  next
    fix j e
    show "episode_ok j e" if "map_of (episodes L') j = Some e"
      using that inv_episode[OF inv, of j e]
      by (auto simp: eps map_of_update episode_ok_def split: if_splits)
  qed (use kd idx ledger_inv_keys[OF inv] inv_count[OF inv] new
       in \<open>simp_all add: eps lat srcs cnt dict_simps\<close>)
qed

lemma ledger_inv_merge:
  assumes inv: "ledger_inv L" and p: "map_of (episodes L) i = Some p"
    and key: "ep_date p = sig_session_date s" "ep_symbol p = sig_symbol s"
    and src: "map_of (sources L) (sig_source_key s) = None"
    and L': "L' = (put_episode i (merge_signal s p) L)
                   \<lparr>sources := AList.update (sig_source_key s) i (sources L)\<rparr>"
  shows "ledger_inv L'"
proof -
  let ?e = "merge_signal s p"
  have act: "active_set (AList.update i ?e (episodes L)) y = active_set (episodes L) y" for y
    using active_set_update[of "episodes L" i ?e y] p by (auto simp: active_set_def)
  have own: "owns ?e k \<longleftrightarrow> k = sig_source_key s \<or> owns p k" for k
    using key by (auto simp: owns_def sig_source_key_def split: prod.splits)
  have ok: "episode_ok i p" using inv p by (rule inv_episode)
  show ?thesis
  proof (rule ledger_invI)
    fix k j
    show "map_of (sources L') k = Some j
            \<longleftrightarrow> (\<exists>e. map_of (episodes L') j = Some e \<and> owns e k)"
      using inv_source[OF inv, of k j] inv_source[OF inv, of "sig_source_key s" j] p src own
      by (auto simp: L' ledger_simps map_of_update)
    show "\<exists>e. map_of (episodes L') j = Some e \<and> (ep_date e, ep_symbol e) = k'"
      if "map_of (latest L') k' = Some j" for k'
      using inv_latest[OF inv, of k' j] that p
      by (auto simp: L' ledger_simps map_of_update)
  next
    fix j e
    show "episode_ok j e" if "map_of (episodes L') j = Some e"
      using that inv_episode[OF inv, of j e] ok
      by (auto simp: L' ledger_simps map_of_update episode_ok_def split: if_splits)
  qed (use ledger_inv_keys[OF inv] inv_count[OF inv] inv_active[OF inv] p
       in \<open>simp_all add: L' ledger_simps dict_simps act\<close>)
qed

text \<open>
  The episodes \<open>claim\<close> collects for the signal's symbol are the ledger's active episodes of it.
\<close>

lemma claim_active:
  assumes "ledger_inv L"
    and "map_result (lookup_episode L) (sorted_list_of_set (active_ids L y)) = Inr active"
  shows "e \<in> set active \<longleftrightarrow>
    map_of (episodes L) (ep_id e) = Some e \<and> ep_active e \<and> ep_symbol e = y"
proof -
  have l: "list_all2 (\<lambda>i e. map_of (episodes L) i = Some e)
             (sorted_list_of_set (active_set (episodes L) y)) active"
    using map_result_InrD[OF assms(2)] active_ids_eq[OF assms(1)] by simp
  have ids: "map_of (episodes L) i = Some f \<Longrightarrow> ep_id f = i" for i f
    using inv_episode[OF assms(1)] by (auto simp: episode_ok_def)
  show ?thesis
  proof
    assume "e \<in> set active"
    then obtain i where "i \<in> active_set (episodes L) y" "map_of (episodes L) i = Some e"
      using list_all2_right[OF l, of e] by auto
    then show "map_of (episodes L) (ep_id e) = Some e \<and> ep_active e \<and> ep_symbol e = y"
      using ids by (auto simp: active_set_def)
  next
    assume e: "map_of (episodes L) (ep_id e) = Some e \<and> ep_active e \<and> ep_symbol e = y"
    then have "ep_id e \<in> active_set (episodes L) y"
      by (auto simp: active_set_def)
    then have "ep_id e \<in> set (sorted_list_of_set (active_set (episodes L) y))"
      by simp
    then show "e \<in> set active"
      using list_all2_left[OF l, of "ep_id e"] e by auto
  qed
qed

text \<open>
  What a successful claim did: it found the source already registered, or extended an episode of
  the same day and symbol, or admitted a new one.
\<close>

lemma claim_cases:
  assumes inv: "ledger_inv L" and c: "claim uuid5 L s now foreign = Inr (L', i, fresh)"
  obtains
    (known) "map_of (sources L) (sig_source_key s) = Some i" "L' = L" "\<not> fresh"
  | (merge) p where "map_of (sources L) (sig_source_key s) = None"
      "map_of (episodes L) i = Some p" "ep_date p = sig_session_date s"
      "ep_symbol p = sig_symbol s" "overlaps s p" "\<not> fresh"
      "int (length (sources L)) < history_limit L"
      "L' = (put_episode i (merge_signal s p) L)
              \<lparr>sources := AList.update (sig_source_key s) i (sources L)\<rparr>"
  | (new) "map_of (sources L) (sig_source_key s) = None" "fresh"
      "active_set (episodes L) (sig_symbol s) = {}"
      "active_count L < capacity L" "int (length (sources L)) < history_limit L"
      "admit_new uuid5 L s = (L', i)" "validate s = Inr ()" "ready L" "\<not> foreign"
      "\<And>j p t. map_of (latest L) (sig_key s) = Some j \<Longrightarrow> map_of (episodes L) j = Some p
         \<Longrightarrow> \<not> overlaps s p \<and> (ep_closed_ns p = Some t \<longrightarrow> 30000000000 \<le> now - t)"
proof (cases "map_of (sources L) (sig_source_key s)")
  case (Some j)
  then show ?thesis using c known
    by (auto simp: claim_def split: sum.splits if_splits)
next
  case None
  from c None obtain active where
    act: "map_result (lookup_episode L) (sorted_list_of_set (active_ids L (sig_symbol s))) = Inr active"
    and co: "claim_owned uuid5 L s now active = Inr (L', i, fresh)"
    and v: "validate s = Inr ()" "ready L" "\<not> foreign"
    by (auto simp: claim_def split: sum.splits if_splits option.splits)
  note mem = claim_active[OF inv act]
  let ?ov = "filter (\<lambda>e. ep_date e = sig_session_date s \<and> overlaps s e) active"
  let ?recent = "case map_of (latest L) (sig_key s) of None \<Rightarrow> None | Some i \<Rightarrow> map_of (episodes L) i"
  let ?prior = "if ?ov \<noteq> [] then Some (hd ?ov) else ?recent"
  have prior: "map_of (episodes L) (ep_id p) = Some p \<and> ep_date p = sig_session_date s
                \<and> ep_symbol p = sig_symbol s" if pr: "?prior = Some p" for p
  proof (cases "?ov = []")
    case False
    then have "p \<in> set ?ov" using pr by (metis hd_in_set option.inject)
    then show ?thesis using mem by auto
  next
    case True
    then obtain j where j: "map_of (latest L) (sig_key s) = Some j" "map_of (episodes L) j = Some p"
      using pr by (auto split: option.splits)
    then show ?thesis
      using inv_latest[OF inv j(1)] inv_episode[OF inv j(2)]
      by (auto simp: sig_key_def episode_ok_def)
  qed
  show ?thesis
  proof (cases "case ?prior of None \<Rightarrow> False | Some p \<Rightarrow> overlaps s p")
    case True
    then obtain p where p: "?prior = Some p" "overlaps s p" by (auto split: option.splits)
    have h: "int (length (sources L)) < history_limit L"
      and r: "L' = (put_episode (ep_id p) (merge_signal s p) L)
              \<lparr>sources := AList.update (sig_source_key s) (ep_id p) (sources L)\<rparr>"
        "i = ep_id p" "\<not> fresh"
      using co True p(1) by (auto simp: claim_owned_def Let_def split: if_splits)
    show ?thesis
      by (rule merge[OF None, of p]) (use prior[OF p(1)] p(2) h r in auto)
  next
    case False
    then have co': "active = []" "fresh" "active_count L < capacity L"
      "int (length (sources L)) < history_limit L" "admit_new uuid5 L s = (L', i)"
      "\<not> (case ?prior of None \<Rightarrow> False
         | Some p \<Rightarrow> (case ep_closed_ns p of None \<Rightarrow> False | Some c \<Rightarrow> now - c < 30000000000))"
      using co by (auto simp: claim_owned_def Let_def split: if_splits prod.splits)
    have empty: "active_set (episodes L) (sig_symbol s) = {}"
    proof -
      have "j \<notin> active_set (episodes L) (sig_symbol s)" for j
        using mem co'(1) inv_episode[OF inv, of j]
        by (auto simp: active_set_def episode_ok_def)
      then show ?thesis by blast
    qed
    have nov: "\<not> overlaps s p \<and> (ep_closed_ns p = Some t \<longrightarrow> 30000000000 \<le> now - t)"
      if "map_of (latest L) (sig_key s) = Some j" "map_of (episodes L) j = Some p" for j p t
      using that False co'(1,6) by auto
    show ?thesis
      by (rule new[OF None co'(2) empty co'(3,4,5) v]) (use nov in blast)
  qed
qed

text \<open>
  The identity a claim would give a new episode is not in use: no SHA-1 collision among the
  names the ledger has hashed.
\<close>

definition uuid_fresh :: "(string \<Rightarrow> string) \<Rightarrow> ledger \<Rightarrow> signal \<Rightarrow> bool" where
  "uuid_fresh uuid5 L s \<longleftrightarrow> map_of (episodes L) (uuid5 (identity_text s)) = None"

lemma claim_inv:
  assumes inv: "ledger_inv L" and u: "uuid_fresh uuid5 L s \<or> \<not> fresh"
    and c: "claim uuid5 L s now foreign = Inr (L', i, fresh)"
  shows "ledger_inv L'"
  using inv c
proof (cases rule: claim_cases)
  case known
  then show ?thesis using inv by simp
next
  case (merge p)
  then show ?thesis using ledger_inv_merge[OF inv] by blast
next
  case new
  then have "i = uuid5 (identity_text s)" by (simp add: admit_new_eq)
  with new u have "map_of (episodes L) i = None" by (simp add: uuid_fresh_def)
  then show ?thesis using ledger_inv_admit_new[OF inv new(6)] new(1) by blast
qed


subsection \<open>Restore\<close>

lemma restore_sources_Inr:
  assumes "restore_sources key i xs d = Inr d'"
  shows "map_of d' k =
           (if fst k = fst key \<and> fst (snd k) = snd key \<and> snd (snd k) \<in> set xs then Some i
            else map_of d k)"
    and "x \<in> set xs \<Longrightarrow> map_of d (fst key, snd key, x) = None"
    and "keys_distinct d \<Longrightarrow> keys_distinct d'"
proof -
  have "(\<forall>k. map_of d' k =
           (if fst k = fst key \<and> fst (snd k) = snd key \<and> snd (snd k) \<in> set xs then Some i
            else map_of d k))
    \<and> (\<forall>x \<in> set xs. map_of d (fst key, snd key, x) = None)
    \<and> (keys_distinct d \<longrightarrow> keys_distinct d')"
    using assms
  proof (induction xs arbitrary: d)
    case (Cons x xs)
    then have x: "map_of d (fst key, snd key, x) = None"
      and r: "restore_sources key i xs (AList.update (fst key, snd key, x) i d) = Inr d'"
      by (auto split: if_splits)
    from Cons.IH[OF r] x show ?case
      by (auto simp: map_of_update keys_distinct_update prod_eq_iff split: if_splits)
  qed simp
  then show "map_of d' k =
           (if fst k = fst key \<and> fst (snd k) = snd key \<and> snd (snd k) \<in> set xs then Some i
            else map_of d k)"
    and "x \<in> set xs \<Longrightarrow> map_of d (fst key, snd key, x) = None"
    and "keys_distinct d \<Longrightarrow> keys_distinct d'"
    by blast+
qed

lemma restore_sources_total:
  "distinct xs \<Longrightarrow> (\<And>x. x \<in> set xs \<Longrightarrow> map_of d (fst key, snd key, x) = None)
   \<Longrightarrow> \<exists>d'. restore_sources key i xs d = Inr d'"
proof (induction xs arbitrary: d)
  case (Cons x xs)
  have "\<exists>d'. restore_sources key i xs (AList.update (fst key, snd key, x) i d) = Inr d'"
    by (rule Cons.IH) (use Cons.prems in \<open>auto simp: map_of_update\<close>)
  with Cons.prems show ?case by simp
qed simp

text \<open>The part of \<open>restore_episode\<close> before the sources, as one update.\<close>

lemma restore_episode_Inr:
  assumes "restore_episode L e = Inr L'"
  obtains d where
    "restore_sources (ep_date e, ep_symbol e) (ep_id e) (sorted_list_of_set (ep_sources e))
       (sources L) = Inr d"
    "sources L' = d" "episodes L' = AList.update (ep_id e) e (episodes L)"
    "latest L' = latest L \<or>
     latest L' = AList.update (ep_date e, ep_symbol e) (ep_id e) (latest L)"
    "active_count L' = active_count L + (if ep_active e then 1 else 0)"
    "active_by_symbol L' =
       (if ep_active e
        then AList.update (ep_symbol e) (insert (ep_id e) (active_ids L (ep_symbol e)))
               (active_by_symbol L)
        else active_by_symbol L)"
    "capacity L' = capacity L" "history_limit L' = history_limit L"
proof -
  let ?M = "let key = (ep_date e, ep_symbol e);
          previous = (case map_of (latest L) key of
                        None \<Rightarrow> None | Some j \<Rightarrow> map_of (episodes L) j);
          L1 = put_episode (ep_id e) e L;
          L2 = (if (case previous of None \<Rightarrow> True | Some p \<Rightarrow> later e p)
                then L1\<lparr>latest := AList.update key (ep_id e) (latest L1)\<rparr> else L1);
          L3 = L2\<lparr>active_count := active_count L2 + (if ep_active e then 1 else 0)\<rparr>
      in (if ep_active e then insert_active (ep_symbol e) (ep_id e) L3 else L3)"
  have M: "sources ?M = sources L" "episodes ?M = AList.update (ep_id e) e (episodes L)"
    "latest ?M = latest L \<or> latest ?M = AList.update (ep_date e, ep_symbol e) (ep_id e) (latest L)"
    "active_count ?M = active_count L + (if ep_active e then 1 else 0)"
    "active_by_symbol ?M =
       (if ep_active e
        then AList.update (ep_symbol e) (insert (ep_id e) (active_ids L (ep_symbol e)))
               (active_by_symbol L)
        else active_by_symbol L)"
    "capacity ?M = capacity L" "history_limit ?M = history_limit L"
    by (auto simp: Let_def ledger_simps insert_active_def active_ids_def put_episode_def)
  obtain d where d: "restore_sources (ep_date e, ep_symbol e) (ep_id e)
       (sorted_list_of_set (ep_sources e)) (sources ?M) = Inr d" and L': "L' = ?M\<lparr>sources := d\<rparr>"
    using assms unfolding restore_episode_def Let_def by (auto split: sum.splits)
  show ?thesis
    by (rule that[of d]) (use d M in \<open>simp_all add: L'\<close>)
qed

lemma restore_episode_inv:
  assumes inv: "ledger_inv L" and r: "restore_episode L e = Inr L'"
    and new: "map_of (episodes L) (ep_id e) = None"
    and ok: "episode_ok (ep_id e) e"
  shows "ledger_inv L'"
  using r
proof (rule restore_episode_Inr)
  fix d
  assume d: "restore_sources (ep_date e, ep_symbol e) (ep_id e)
       (sorted_list_of_set (ep_sources e)) (sources L) = Inr d"
    and srcs: "sources L' = d" and eps: "episodes L' = AList.update (ep_id e) e (episodes L)"
    and lat: "latest L' = latest L \<or>
              latest L' = AList.update (ep_date e, ep_symbol e) (ep_id e) (latest L)"
    and cnt: "active_count L' = active_count L + (if ep_active e then 1 else 0)"
    and abs: "active_by_symbol L' =
       (if ep_active e
        then AList.update (ep_symbol e) (insert (ep_id e) (active_ids L (ep_symbol e)))
               (active_by_symbol L)
        else active_by_symbol L)"
  have fin: "finite (ep_sources e)" using ok by (simp add: episode_ok_def)
  note dd = restore_sources_Inr[OF d, unfolded set_sorted_list_of_set[OF fin]]
  have act: "active_set (AList.update (ep_id e) e (episodes L)) y =
     (if y = ep_symbol e \<and> ep_active e then insert (ep_id e) (active_set (episodes L) y)
      else active_set (episodes L) y)" for y
    using active_set_update[of "episodes L" "ep_id e" e y] new by (auto simp: active_set_def)
  show ?thesis
  proof (rule ledger_invI)
    fix k j
    have clash: "map_of (sources L) k = None" if "owns e k"
      using dd(2)[of "snd (snd k)"] that by (cases k) (simp add: owns_def)
    show "map_of (sources L') k = Some j
            \<longleftrightarrow> (\<exists>e. map_of (episodes L') j = Some e \<and> owns e k)"
      using dd(1)[of k] inv_source[OF inv, of k j] clash new
      by (cases k) (auto simp: srcs eps map_of_update owns_def)
    show "\<exists>e. map_of (episodes L') j = Some e \<and> (ep_date e, ep_symbol e) = k'"
      if "map_of (latest L') k' = Some j" for k'
      using inv_latest[OF inv, of k' j] that new lat
      by (auto simp: eps map_of_update split: if_splits)
  next
    fix j f
    show "episode_ok j f" if "map_of (episodes L') j = Some f"
      using that inv_episode[OF inv, of j f] ok
      by (auto simp: eps map_of_update split: if_splits)
    show "map_of (active_by_symbol L') y =
       (if active_set (episodes L') y = {} then None else Some (active_set (episodes L') y))" for y
      by (simp add: abs eps act map_of_update active_ids_eq[OF inv] inv_active[OF inv])
  qed (use dd(3) lat ledger_inv_keys[OF inv] inv_count[OF inv] new
       in \<open>auto simp: srcs eps cnt abs dict_simps\<close>)
qed

lemma episode_of_row_Inr:
  "episode_of_row seen r = Inr e \<Longrightarrow>
     map_of seen (ep_id e) = None \<and> episode_ok (ep_id e) e"
  by (auto simp: episode_of_row_def episode_ok_def split: sum.splits option.splits decimal.splits
      if_splits)

lemma restore_rows_inv:
  "restore_rows L rs = Inr L' \<Longrightarrow> ledger_inv L \<Longrightarrow> ledger_inv L'"
proof (induction rs arbitrary: L)
  case (Cons r rs)
  then obtain e M where e: "episode_of_row (episodes L) r = Inr e"
    and M: "restore_episode L e = Inr M" and rest: "restore_rows M rs = Inr L'"
    by (auto split: sum.splits)
  have "ledger_inv M"
    using episode_of_row_Inr[OF e] by (intro restore_episode_inv[OF Cons.prems(2) M]) simp_all
  with rest show ?case by (rule Cons.IH)
qed simp

lemma restore_Inr:
  "restore rows cap hist = Inr L \<Longrightarrow>
     \<exists>M. restore_rows (new_ledger cap hist) rows = Inr M \<and> L = M\<lparr>ready := True\<rparr>
        \<and> int (length (sources M)) \<le> hist \<and> active_count M \<le> cap"
  by (auto simp: restore_def split: sum.splits if_splits)

lemma restore_inv: "restore rows cap hist = Inr L \<Longrightarrow> ledger_inv L"
  by (auto dest!: restore_Inr dest: restore_rows_inv simp: ledger_inv_new ledger_inv_ready)

subsection \<open>Restoring a snapshot\<close>

lemma state_of_value [simp]: "state_of (state_value st) = Some st"
  by (cases st) (simp_all add: state_of_def all_states_def)

lemma route_of_value [simp]: "route_of (route_value r) = Inr r"
  by (cases r) (simp_all add: route_of_def)

lemma row_route_value [simp]: "row_route (map_option route_value r) = Inr r"
  by (cases r; cases "the r") (auto simp: row_route_def route_of_def)

lemma episode_of_row_of:
  "episode_ok i e \<Longrightarrow> map_of seen i = None \<Longrightarrow> episode_of_row seen (row_of e) = Inr e"
  by (auto simp: episode_of_row_def row_of_def episode_ok_def)

lemma restore_episode_total:
  assumes "finite (ep_sources e)"
    and "\<And>x. x \<in> ep_sources e \<Longrightarrow> map_of (sources L) (ep_date e, ep_symbol e, x) = None"
  shows "\<exists>L'. restore_episode L e = Inr L'"
proof -
  have "\<exists>d. restore_sources (ep_date e, ep_symbol e) (ep_id e) (sorted_list_of_set (ep_sources e))
              (sources L) = Inr d"
    by (rule restore_sources_total) (use assms in auto)
  then show ?thesis
    unfolding restore_episode_def Let_def by (auto simp: ledger_simps)
qed

text \<open>
  Replaying the rows of well-formed episodes whose source sets do not meet rebuilds exactly
  these episodes, in order.
\<close>

lemma restore_rows_snapshot:
  assumes "ledger_inv M" "distinct (map fst (episodes M @ ds))"
    and "\<And>i e. (i, e) \<in> set ds \<Longrightarrow> episode_ok i e"
    and "\<And>i e j f k. (i, e) \<in> set (episodes M @ ds) \<Longrightarrow> (j, f) \<in> set (episodes M @ ds)
           \<Longrightarrow> owns e k \<Longrightarrow> owns f k \<Longrightarrow> i = j"
  shows "\<exists>N. restore_rows M (map (\<lambda>p. row_of (snd p)) ds) = Inr N \<and> episodes N = episodes M @ ds
           \<and> capacity N = capacity M \<and> history_limit N = history_limit M"
  using assms
proof (induction ds arbitrary: M)
  case Nil
  then show ?case by simp
next
  case (Cons p ds)
  obtain i e where p: "p = (i, e)" by force
  have ok: "episode_ok i e" using Cons.prems(3) p by simp
  then have i: "ep_id e = i" and fin: "finite (ep_sources e)" by (auto simp: episode_ok_def)
  have new: "map_of (episodes M) i = None"
    using Cons.prems(2) p by (auto simp: map_of_eq_None_iff)
  have "map_of (sources M) (ep_date e, ep_symbol e, x) = None" if x: "x \<in> ep_sources e" for x
  proof (rule ccontr)
    assume "map_of (sources M) (ep_date e, ep_symbol e, x) \<noteq> None"
    then obtain j where j: "map_of (sources M) (ep_date e, ep_symbol e, x) = Some j" by blast
    then obtain f where f: "map_of (episodes M) j = Some f" "owns f (ep_date e, ep_symbol e, x)"
      using inv_source[OF Cons.prems(1)] by blast
    moreover have "owns e (ep_date e, ep_symbol e, x)" using x by (simp add: owns_def)
    ultimately have "i = j"
      using Cons.prems(4)[of i e j f] p by (auto dest: map_of_SomeD)
    then show False using f(1) new by simp
  qed
  then obtain M' where M': "restore_episode M e = Inr M'"
    using restore_episode_total[OF fin, of M] by blast
  have eps: "episodes M' = episodes M @ [(i, e)]"
    and ch: "capacity M' = capacity M" "history_limit M' = history_limit M"
    using restore_episode_Inr[OF M'] new i map_of_append_new by metis+
  have inv': "ledger_inv M'"
    using new ok i by (intro restore_episode_inv[OF Cons.prems(1) M']) simp_all
  obtain N where N: "restore_rows M' (map (\<lambda>p. row_of (snd p)) ds) = Inr N"
      "episodes N = episodes M' @ ds" "capacity N = capacity M'" "history_limit N = history_limit M'"
  proof -
    have "\<exists>N. restore_rows M' (map (\<lambda>p. row_of (snd p)) ds) = Inr N \<and> episodes N = episodes M' @ ds
            \<and> capacity N = capacity M' \<and> history_limit N = history_limit M'"
    proof (rule Cons.IH[OF inv'])
      show "distinct (map fst (episodes M' @ ds))"
        using Cons.prems(2) p by (simp add: eps)
      show "episode_ok j f" if "(j, f) \<in> set ds" for j f
        using Cons.prems(3) that by simp
      show "j = l" if "(j, f) \<in> set (episodes M' @ ds)" "(l, g) \<in> set (episodes M' @ ds)"
        "owns f k" "owns g k" for j f l g k
        by (rule Cons.prems(4)[of j f l g k]) (use that p in \<open>simp_all add: eps\<close>)
    qed
    then show ?thesis using that by blast
  qed
  have row: "episode_of_row (episodes M) (row_of e) = Inr e"
    by (rule episode_of_row_of[OF ok new])
  show ?case
    by (rule exI[of _ N]) (use row M' N eps ch p in simp)
qed

lemma count_sources_determined:
  assumes "ledger_inv L" "ledger_inv M" "episodes M = episodes L"
  shows "map_of (sources M) = map_of (sources L)"
    and "map_of (active_by_symbol M) = map_of (active_by_symbol L)"
    and "active_count M = active_count L"
    and "length (sources M) = length (sources L)"
proof -
  show s: "map_of (sources M) = map_of (sources L)"
  proof
    fix k
    have "map_of (sources M) k = Some i \<longleftrightarrow> map_of (sources L) k = Some i" for i
      using inv_source[OF assms(1), of k i] inv_source[OF assms(2), of k i] assms(3) by simp
    then show "map_of (sources M) k = map_of (sources L) k"
      by (metis not_None_eq)
  qed
  show "map_of (active_by_symbol M) = map_of (active_by_symbol L)"
    using assms by (auto simp: inv_active)
  show "active_count M = active_count L"
    using assms by (simp add: inv_count)
  have "card (dom (map_of (sources M))) = length (sources M)"
    and "card (dom (map_of (sources L))) = length (sources L)"
    using ledger_inv_keys(2)[OF assms(2)] ledger_inv_keys(2)[OF assms(1)]
    by (simp_all add: dom_map_of_conv_image_fst) (metis distinct_card length_map set_map)+
  then show "length (sources M) = length (sources L)" using s by simp
qed

lemma restore_rows_of_snapshot:
  assumes inv: "ledger_inv L"
  shows "\<exists>M. restore_rows (new_ledger cap hist) (snapshot L) = Inr M \<and> episodes M = episodes L
           \<and> ledger_inv M"
proof -
  have mem: "map_of (episodes L) i = Some e" if "(i, e) \<in> set (episodes L)" for i e
    using ledger_inv_keys(1)[OF inv] that by simp
  have "\<exists>N. restore_rows (new_ledger cap hist) (map (\<lambda>p. row_of (snd p)) (episodes L)) = Inr N
          \<and> episodes N = episodes (new_ledger cap hist) @ episodes L
          \<and> capacity N = capacity (new_ledger cap hist)
          \<and> history_limit N = history_limit (new_ledger cap hist)"
  proof (rule restore_rows_snapshot)
    show "i = j" if "(i, e) \<in> set (episodes (new_ledger cap hist) @ episodes L)"
      "(j, f) \<in> set (episodes (new_ledger cap hist) @ episodes L)" "owns e k" "owns f k" for i e j f k
      using that mem inv_source[OF inv, of k]
      by (simp add: new_ledger_def) (metis option.inject)
  qed (use ledger_inv_keys[OF inv] mem inv_episode[OF inv] in
       \<open>auto simp: new_ledger_def ledger_inv_new[unfolded new_ledger_def]\<close>)
  then show ?thesis
    using restore_rows_inv ledger_inv_new by (fastforce simp: snapshot_def new_ledger_def)
qed

end
