(* ===== verification/AdmissionSpec.thy ===== *)
theory AdmissionSpec
  imports AdmissionInv
begin

text \<open>
  What the admission component promises: the ledger as a transition system with one label per
  operation, at most one broker submission per episode in any run (restarts included), the
  capacity, cooldown and one-position-per-symbol rules of \<open>claim\<close>, the exactness of the
  restart snapshot, and the bounds of the entry price.
\<close>

section \<open>The ledger as a transition system\<close>

datatype ledger_label =
    LClaim signal string bool
  | LSubmit string route
  | LCancel string
  | LReconcile string
  | LRestart

text \<open>
  One step per operation that changes the ledger. A restart replaces the ledger by the one
  restored from its snapshot rows. The hypothesis on \<open>uuid5\<close> is that a new episode's identity is
  not one of the ledger's.
\<close>

inductive ledger_step :: "(string \<Rightarrow> string) \<Rightarrow> ledger \<Rightarrow> ledger_label \<Rightarrow> ledger \<Rightarrow> bool"
  for uuid5 where
  st_claim: "claim uuid5 L s now foreign = Inr (L', i, fresh) \<Longrightarrow> fresh \<longrightarrow> uuid_fresh uuid5 L s
    \<Longrightarrow> ledger_step uuid5 L (LClaim s i fresh) L'"
| st_submit: "begin_submit L i rt now = Inr L' \<Longrightarrow> ledger_step uuid5 L (LSubmit i rt) L'"
| st_cancel: "cancel_due L i now = Inr (L', b) \<Longrightarrow> ledger_step uuid5 L (LCancel i) L'"
| st_reconcile: "reconcile L i cf cx now t x f = Inr L' \<Longrightarrow> ledger_step uuid5 L (LReconcile i) L'"
| st_restart: "restore (snapshot L) cap hist = Inr L' \<Longrightarrow> ledger_step uuid5 L LRestart L'"

inductive_cases ledger_stepE [elim]: "ledger_step uuid5 L l L'"

fun submits :: "ledger_label \<Rightarrow> string option" where
  "submits (LSubmit i _) = Some i"
| "submits _ = None"

definition submitted :: "ledger \<Rightarrow> string \<Rightarrow> bool" where
  "submitted L i \<longleftrightarrow> (\<exists>e. map_of (episodes L) i = Some e \<and> ep_first_submit_ns e \<noteq> None)"

definition empty_ledger :: "ledger \<Rightarrow> bool" where
  "empty_ledger L \<longleftrightarrow> (\<exists>cap hist. restore [] cap hist = Inr L)"

lemma restart_same:
  assumes inv: "ledger_inv L" and r: "restore (snapshot L) cap hist = Inr L'"
  shows "episodes L' = episodes L" "ledger_inv L'" "ready L'"
proof -
  obtain M where M: "restore_rows (new_ledger cap hist) (snapshot L) = Inr M" "L' = M\<lparr>ready := True\<rparr>"
    using restore_Inr[OF r] by blast
  moreover obtain N where N: "restore_rows (new_ledger cap hist) (snapshot L) = Inr N"
      "episodes N = episodes L" "ledger_inv N"
    using restore_rows_of_snapshot[OF inv] by blast
  ultimately have "M = N" by simp
  with M N show "episodes L' = episodes L" "ledger_inv L'" "ready L'"
    by (simp_all add: ledger_inv_ready)
qed

text \<open>How one step changes a known episode: its identity and key stay, its sources, quantities and
  first submission only grow.\<close>

definition grows :: "episode \<Rightarrow> episode \<Rightarrow> bool" where
  "grows e f \<longleftrightarrow>
     ep_id f = ep_id e \<and> ep_date f = ep_date e \<and> ep_symbol f = ep_symbol e
     \<and> ep_sources e \<subseteq> ep_sources f \<and> ep_filled e \<le> ep_filled f \<and> ep_exited e \<le> ep_exited f
     \<and> (ep_first_submit_ns e \<noteq> None \<longrightarrow> ep_first_submit_ns f = ep_first_submit_ns e)"

lemma grows_refl [simp]: "grows e e"
  by (simp add: grows_def)

lemma grows_trans: "grows e f \<Longrightarrow> grows f g \<Longrightarrow> grows e g"
  by (auto simp: grows_def)

lemma claim_grows:
  assumes inv: "ledger_inv L" and c: "claim uuid5 L s now foreign = Inr (L', i, fresh)"
    and u: "fresh \<longrightarrow> uuid_fresh uuid5 L s" and e: "map_of (episodes L) j = Some e"
  shows "\<exists>f. map_of (episodes L') j = Some f \<and> grows e f"
  using inv c
proof (cases rule: claim_cases)
  case known
  with e show ?thesis by simp
next
  case (merge p)
  with e show ?thesis by (auto simp: ledger_simps map_of_update grows_def)
next
  case new
  with u have "map_of (episodes L) i = None" by (auto simp: uuid_fresh_def admit_new_eq)
  with new e show ?thesis by (auto simp: admit_new_eq ledger_simps map_of_update)
qed

lemma ledger_step_grows:
  assumes inv: "ledger_inv L" and st: "ledger_step uuid5 L l L'"
    and e: "map_of (episodes L) j = Some e"
  shows "\<exists>f. map_of (episodes L') j = Some f \<and> grows e f"
  using st
proof cases
  case st_claim
  then show ?thesis using claim_grows[OF inv _ _ e] by blast
next
  case st_submit
  with e show ?thesis by (auto simp: begin_submit_Inr ledger_simps map_of_update grows_def)
next
  case st_cancel
  with e show ?thesis
    by (auto dest!: cancel_due_Inr simp: ledger_simps map_of_update grows_def)
next
  case st_reconcile
  with e show ?thesis
    by (auto dest!: reconcile_Inr simp: ledger_simps map_of_update grows_def)
next
  case st_restart
  with e show ?thesis using restart_same(1)[OF inv] by simp
qed

lemma ledger_step_inv: "ledger_inv L \<Longrightarrow> ledger_step uuid5 L l L' \<Longrightarrow> ledger_inv L'"
  by (auto intro: claim_inv begin_submit_inv cancel_due_inv reconcile_inv restart_same)

interpretation admission: one_shot_system empty_ledger "ledger_step uuid5" ledger_inv submits submitted
  for uuid5
proof
  show "ledger_inv L" if "empty_ledger L" for L
    using that restore_inv by (auto simp: empty_ledger_def)
  show "ledger_inv L'" if "ledger_inv L" "ledger_step uuid5 L l L'" for L l L'
    using that by (rule ledger_step_inv)
  show "\<not> submitted L i \<and> submitted L' i"
    if "ledger_inv L" "ledger_step uuid5 L l L'" "submits l = Some i" for L l L' i
    using that(2,1,3)
    by cases (auto simp: begin_submit_Inr submitted_def ledger_simps map_of_update)
  show "submitted L' i" if "ledger_inv L" "ledger_step uuid5 L l L'" "submitted L i" for L l L' i
    using that ledger_step_grows unfolding submitted_def grows_def by metis
qed

lemma run_grows:
  "run (ledger_step uuid5) L ls L' \<Longrightarrow> ledger_inv L \<Longrightarrow> map_of (episodes L) j = Some e
   \<Longrightarrow> \<exists>f. map_of (episodes L') j = Some f \<and> grows e f"
proof (induction rule: run.induct)
  case (run_snoc L ls L' l L'')
  then obtain f where f: "map_of (episodes L') j = Some f" "grows e f" by blast
  have "ledger_inv L'" using run_snoc admission.run_preserves by blast
  then show ?case using ledger_step_grows[OF _ run_snoc(2) f(1)] f(2) grows_trans by blast
qed simp


section \<open>Concrete ledgers for the witnesses\<close>

definition demo_signal :: signal where
  "demo_signal =
     \<lparr>sig_session_date = ''2026-10-01'', sig_symbol = ''ABC'', sig_source_id = ''s1'',
      sig_interval_start_ms = 1000, sig_interval_end_ms = 2000, sig_price = Fin 5,
      sig_observed_ns = 2000000000, sig_day_volume = Some 60000, sig_country_route = None,
      sig_country_category = None, sig_country_evidence = None\<rparr>"

definition demo_ledger :: ledger where
  "demo_ledger = (new_ledger 2 4096)\<lparr>ready := True\<rparr>"

definition demo_claimed :: ledger where
  "demo_claimed =
     \<lparr>capacity = 2, history_limit = 4096, episodes = [(''e1'', new_episode ''e1'' demo_signal)],
      latest = [((''2026-10-01'', ''ABC''), ''e1'')],
      sources = [((''2026-10-01'', ''ABC'', ''s1''), ''e1'')],
      active_by_symbol = [(''ABC'', {''e1''})], active_count = 1, ready = True\<rparr>"

lemma demo_restore: "restore [] 2 4096 = Inr demo_ledger"
  by (simp add: restore_def demo_ledger_def new_ledger_def)

lemma demo_empty: "empty_ledger demo_ledger"
  using demo_restore unfolding empty_ledger_def by blast

lemma demo_inv: "ledger_inv demo_ledger"
  by (rule restore_inv[OF demo_restore])

lemma demo_validate: "validate demo_signal = Inr ()"
  by (simp add: validate_def demo_signal_def is_upper_symbol_def py_upper_def char_upper_def
      less_eq_char_def)

lemma demo_claim: "claim (\<lambda>_. ''e1'') demo_ledger demo_signal 5 False = Inr (demo_claimed, ''e1'', True)"
  by (simp add: claim_def demo_validate claim_owned_def admit_new_def Let_def demo_ledger_def
      new_ledger_def active_ids_def put_episode_def insert_active_def demo_claimed_def
      sig_source_key_def sig_key_def)
     (simp add: demo_signal_def)

lemma demo_fresh: "uuid_fresh (\<lambda>_. ''e1'') demo_ledger demo_signal"
  by (simp add: uuid_fresh_def demo_ledger_def new_ledger_def)

lemma demo_step: "ledger_step (\<lambda>_. ''e1'') demo_ledger (LClaim demo_signal ''e1'' True) demo_claimed"
  by (rule st_claim[OF demo_claim]) (simp add: demo_fresh)

lemma demo_claimed_inv: "ledger_inv demo_claimed"
  using demo_inv demo_step by (rule ledger_step_inv)

definition demo_submitted :: ledger where
  "demo_submitted = (case begin_submit demo_claimed ''e1'' WEBULL 7 of Inr L \<Rightarrow> L | Inl _ \<Rightarrow> demo_claimed)"

lemma demo_submit: "begin_submit demo_claimed ''e1'' WEBULL 7 = Inr demo_submitted"
  by (simp add: demo_submitted_def begin_submit_def lookup_episode_def demo_claimed_def
      new_episode_def)

lemma demo_run:
  "run (ledger_step (\<lambda>_. ''e1'')) demo_ledger
     [LClaim demo_signal ''e1'' True, LSubmit ''e1'' WEBULL] demo_submitted"
  by (rule run_Cons[where step = "ledger_step _", OF demo_step run_one[where step = "ledger_step _", OF st_submit[OF demo_submit]]])

section \<open>Properties\<close>

text \<open>
  C3: every operation of the ledger (claim, submission, cancellation, reconciliation and a
  restart from the snapshot) keeps its indexes exact: each source is registered to the one episode
  that holds it, the index by symbol holds exactly the active episodes, the counter counts
  them, and every episode has exited at most what it filled.
\<close>

theorem ledger_step_keeps_inv:
  assumes "ledger_inv L" and "ledger_step uuid5 L l L'"
  shows "ledger_inv L'"
  using assms by (rule ledger_step_inv)

theorem ledger_step_keeps_inv_witness:
  "ledger_inv demo_ledger \<and> active_count demo_ledger = 0 \<and> ledger_inv demo_claimed
   \<and> active_count demo_claimed = 1"
  using ledger_step_keeps_inv[OF demo_inv demo_step] demo_inv
  by (simp add: demo_ledger_def new_ledger_def demo_claimed_def)

text \<open>
  C1: an entry is submitted to the broker at most once per episode: in every run of ledger
  operations from a restored empty ledger, with any number of restarts from the snapshot in
  between, \<open>begin_submit\<close> succeeds at most once for each episode.
\<close>

theorem submit_at_most_once:
  assumes "empty_ledger L" and "run (ledger_step uuid5) L ls L'"
  shows "length (filter (\<lambda>l. submits l = Some i) ls) \<le> 1"
  using assms admission.at_most_one_act admission.inv_init by blast

theorem submit_at_most_once_witness:
  "length (filter (\<lambda>l. submits l = Some ''e1'')
      [LClaim demo_signal ''e1'' True, LSubmit ''e1'' WEBULL]) \<le> 1
   \<and> submits (LSubmit ''e1'' WEBULL) = Some ''e1''"
  using submit_at_most_once[OF demo_empty demo_run, of "''e1''"] by simp

text \<open>
  A claim that admits a new episode found a validated signal (50,000 shares of day volume at
  least), a restored ledger, no foreign owner, no active episode of the symbol, a free
  reservation and room in the history, and, where the day's latest episode of the symbol is
  closed, at least 30 seconds since it closed; afterwards exactly one more reservation is in
  use, within the capacity, and the symbol has this one active episode.
\<close>

theorem claim_new_episode:
  assumes inv: "ledger_inv L" and u: "uuid_fresh uuid5 L s"
    and c: "claim uuid5 L s now foreign = Inr (L', i, True)"
  shows "ready L \<and> \<not> foreign \<and> (\<exists>v. sig_day_volume s = Some v \<and> 50000 \<le> v)
    \<and> active_count L' = active_count L + 1 \<and> active_count L' \<le> capacity L'
    \<and> active_set (episodes L) (sig_symbol s) = {}
    \<and> active_set (episodes L') (sig_symbol s) = {i}
    \<and> (\<forall>j p t. map_of (latest L) (sig_session_date s, sig_symbol s) = Some j
         \<and> map_of (episodes L) j = Some p \<and> ep_closed_ns p = Some t \<longrightarrow> 30000000000 \<le> now - t)"
  using inv c
proof (cases rule: claim_cases)
  case new
  then have i: "i = uuid5 (identity_text s)" and n: "map_of (episodes L) i = None"
    using u by (simp_all add: admit_new_eq uuid_fresh_def)
  have "active_set (AList.update i (new_episode i s) (episodes L)) (sig_symbol s)
        = insert i (active_set (episodes L) (sig_symbol s))"
    by (subst active_set_update) (use n in auto)
  with new(3,6) have "active_set (episodes L') (sig_symbol s) = {i}"
    by (simp add: admit_new_eq ledger_simps)
  moreover have "\<exists>v. sig_day_volume s = Some v \<and> 50000 \<le> v"
    using new(7) by (auto simp: validate_def split: if_splits option.splits)
  ultimately show ?thesis
    using new(3,4,6,8,9) new(10)[unfolded sig_key_def]
    by (auto simp: admit_new_eq ledger_simps)
qed simp_all

theorem claim_new_episode_witness:
  "active_count demo_claimed = active_count demo_ledger + 1
   \<and> active_set (episodes demo_claimed) ''ABC'' = {''e1''}"
  using claim_new_episode[OF demo_inv demo_fresh demo_claim] by (simp add: demo_signal_def)

text \<open>
  Claims are idempotent: a signal whose claim succeeded is claimed again, at any later time,
  as the same episode, not fresh, and the ledger does not change.
\<close>

theorem claim_idempotent:
  assumes inv: "ledger_inv L" and c: "claim uuid5 L s now False = Inr (L', i, fresh)"
  shows "claim uuid5 L' s later_now False = Inr (L', i, False)"
proof -
  have v: "validate s = Inr ()" and r: "ready L"
    using c by (auto simp: claim_def split: sum.splits if_splits)
  have "map_of (sources L') (sig_source_key s) = Some i \<and> ready L'"
    using inv c
    by (cases rule: claim_cases) (use r in \<open>auto simp: ledger_simps map_of_update admit_new_eq\<close>)
  with v show ?thesis by (simp add: claim_def)
qed

theorem claim_idempotent_witness:
  "claim (\<lambda>_. ''e1'') demo_claimed demo_signal 99 False = Inr (demo_claimed, ''e1'', False)"
  using claim_idempotent[OF demo_inv demo_claim] .

text \<open>
  C25: a restart is exact: restoring the snapshot of a well-formed ledger within its bounds
  succeeds, the restored ledger is ready and well-formed, and it holds the same episodes in the
  same order, the same source registrations, the same index by symbol and the same count.
\<close>

theorem restore_snapshot_exact:
  assumes inv: "ledger_inv L" and "int (length (sources L)) \<le> hist" and "active_count L \<le> cap"
  shows "\<exists>L'. restore (snapshot L) cap hist = Inr L' \<and> ready L' \<and> ledger_inv L'
    \<and> episodes L' = episodes L \<and> map_of (sources L') = map_of (sources L)
    \<and> map_of (active_by_symbol L') = map_of (active_by_symbol L)
    \<and> active_count L' = active_count L"
proof -
  obtain M where M: "restore_rows (new_ledger cap hist) (snapshot L) = Inr M"
      "episodes M = episodes L" "ledger_inv M"
    using restore_rows_of_snapshot[OF inv] by blast
  note same = count_sources_determined[OF inv M(3,2)]
  have "restore (snapshot L) cap hist = Inr (M\<lparr>ready := True\<rparr>)"
    using M(1) same assms(2,3) by (simp add: restore_def)
  with M same show ?thesis by (auto simp: ledger_inv_ready)
qed

theorem restore_snapshot_exact_witness:
  "\<exists>L'. restore (snapshot demo_claimed) 2 4096 = Inr L' \<and> episodes L' = episodes demo_claimed"
proof -
  have "int (length (sources demo_claimed)) \<le> 4096" "active_count demo_claimed \<le> 2"
    by (simp_all add: demo_claimed_def)
  from restore_snapshot_exact[OF demo_claimed_inv this] show ?thesis by blast
qed

text \<open>
  a reconciliation never hides exposure and frees a reservation only on proof: after it the
  episode carries the broker's cumulative quantities, it is active whenever shares remain or
  the entry is not terminal, it is inactive when the entry is terminal, nothing remains and no
  exit is outstanding, and neither quantity ever decreases.
\<close>

theorem reconcile_exposure:
  assumes "ledger_inv L" and "reconcile L i (Fin cf) (Fin cx) now t x f = Inr L'"
    and "map_of (episodes L) i = Some e"
  shows "\<exists>e'. map_of (episodes L') i = Some e' \<and> ep_filled e' = cf \<and> ep_exited e' = cx
    \<and> ep_filled e \<le> cf \<and> ep_exited e \<le> cx \<and> cx \<le> cf
    \<and> (cx < cf \<or> \<not> t \<longrightarrow> ep_active e') \<and> (t \<and> cx = cf \<and> \<not> x \<longrightarrow> \<not> ep_active e')
    \<and> active_count L' = active_count L + (if ep_active e' then 1 else 0)
                                       - (if ep_active e then 1 else 0)"
proof -
  let ?e' = "reconciled_episode e cf cx now t x f"
  have b: "ep_filled e \<le> cf" "ep_exited e \<le> cx" "cx \<le> cf" and L': "L' = reindex i e ?e' L"
    using reconcile_Inr[OF assms(2)] assms(3) by auto
  have "cx < cf \<or> \<not> t \<longrightarrow> ep_active ?e'" "t \<and> cx = cf \<and> \<not> x \<longrightarrow> \<not> ep_active ?e'"
    using b by (auto simp: reconciled_episode_def Let_def ep_remaining_def split: option.split)
  with b show ?thesis by (auto simp: L' reindex_simps map_of_update)
qed

theorem reconcile_exposure_witness:
  "\<exists>L' e'. reconcile demo_submitted ''e1'' (Fin 20) (Fin 5) 9 True False (Some 8) = Inr L'
     \<and> map_of (episodes L') ''e1'' = Some e' \<and> ep_active e' \<and> active_count L' = 1"
proof -
  have inv: "ledger_inv demo_submitted"
    using demo_claimed_inv demo_submit by (rule begin_submit_inv)
  define e where "e = (new_episode ''e1'' demo_signal)
    \<lparr>ep_route := Some WEBULL, ep_first_submit_ns := Some 7, ep_state := Submitting\<rparr>"
  have e: "map_of (episodes demo_submitted) ''e1'' = Some e" and n: "active_count demo_submitted = 1"
    by (simp_all add: demo_submitted_def begin_submit_def lookup_episode_def demo_claimed_def
        put_episode_def e_def new_episode_def)
  then obtain L' where L': "reconcile demo_submitted ''e1'' (Fin 20) (Fin 5) 9 True False (Some 8) = Inr L'"
    by (simp add: reconcile_def lookup_episode_def e_def)
  from reconcile_exposure[OF inv L' e] L' n show ?thesis by (auto simp: e_def)
qed

text \<open>
  the life of an episode is monotone across a run of operations and restarts: it keeps its
  identity, day and symbol, and its sources, its filled and exited quantities and its first
  submission time are never lost or reduced.
\<close>

theorem episode_monotone:
  assumes "run (ledger_step uuid5) L ls L'" and "ledger_inv L" and "map_of (episodes L) j = Some e"
  shows "\<exists>f. map_of (episodes L') j = Some f \<and> grows e f"
  using assms by (rule run_grows)

theorem episode_monotone_witness:
  "\<exists>f. map_of (episodes demo_submitted) ''e1'' = Some f \<and> grows (new_episode ''e1'' demo_signal) f"
  by (rule episode_monotone[OF run_one[where step = "ledger_step (\<lambda>_. ''e1'')", OF st_submit[OF demo_submit]] demo_claimed_inv])
     (simp add: demo_claimed_def)

text \<open>
  The entry price: when \<open>price_entry\<close> returns, the quote was at most two seconds old, the
  limit is the ask rounded up to the tick grid (at least the ask, less than one tick above it),
  at most 1.5 per cent above the signal price, and the quantity is the largest whole number of
  shares whose value at the limit is within 100, or one share.
\<close>

theorem price_entry_bounds:
  assumes "price_entry (Fin sp) (Some (Fin a)) (Some q) now rt (Fin tk) = Inr p"
  shows "a \<le> ep_limit p \<and> ep_limit p < a + tk \<and> (\<exists>n. ep_limit p = of_int n * tk)
    \<and> ep_limit p \<le> sp * (1015 / 1000) \<and> now - q \<le> 2000000000 \<and> q \<le> now
    \<and> 1 \<le> ep_quantity p
    \<and> (ep_quantity p = 1 \<or> of_int (ep_quantity p) * ep_limit p \<le> 100)
    \<and> 100 < of_int (ep_quantity p + 1) * ep_limit p
    \<and> (rt = WEBULL \<and> ep_limit p < 1 \<longrightarrow> 100 \<le> ep_quantity p)"
proof -
  have a: "0 < a" and t: "0 < tk" and cap: "ceil_to tk a \<le> sp * (1015 / 1000)"
    and q: "now - q \<le> 2000000000" "q \<le> now"
    and w: "rt = WEBULL \<and> ceil_to tk a < 1 \<longrightarrow> 100 \<le> whole_shares 100 (ceil_to tk a)"
    and p: "ep_limit p = ceil_to tk a" "ep_quantity p = whole_shares 100 (ceil_to tk a)"
    using assms by (auto simp: price_entry_def Let_def not_le not_less split: if_splits)
  have "\<exists>n. ceil_to tk a = of_int n * tk" by (auto simp: ceil_to_def)
  with whole_shares_bounds[OF ceil_to_pos[OF t a], of 100] show ?thesis
    using ceil_to_ge[OF t, of a] ceil_to_less[OF t, of a] cap q w p by simp
qed

theorem price_entry_bounds_witness:
  "\<exists>p. price_entry (Fin 5) (Some (Fin 5)) (Some 10) 20 SCHWAB (Fin (1/100)) = Inr p
     \<and> ep_limit p \<le> 5 * (1015 / 1000) \<and> 1 \<le> ep_quantity p"
proof -
  have "\<exists>p. price_entry (Fin 5) (Some (Fin 5)) (Some 10) 20 SCHWAB (Fin (1/100)) = Inr p"
    by (simp add: price_entry_def Let_def ceil_to_def whole_shares_def)
  then obtain p where p: "price_entry (Fin 5) (Some (Fin 5)) (Some 10) 20 SCHWAB (Fin (1/100)) = Inr p"
    by blast
  from price_entry_bounds[OF p] p show ?thesis by blast
qed

end
