(* ===== verification/Lifecycle.thy ===== *)
theory Lifecycle
  imports Admission
begin

text \<open>
  \<open>momentum_live/exit_policy.py\<close> and \<open>momentum_live/lifecycle.py\<close>: the owned position with its
  exit decision, its exit reservation and its release from protection, and the coalescing work
  queue that serves at most one worker per episode.
\<close>

section \<open>Exit policy\<close>

definition STOP_LOSS_MULTIPLIER :: rat where
  "STOP_LOSS_MULTIPLIER = 90 / 100"

definition stop_loss_level :: "rat \<Rightarrow> rat" where
  "stop_loss_level entry_price = entry_price * STOP_LOSS_MULTIPLIER"

section \<open>Owned positions\<close>

text \<open>Python's \<open>a or b\<close> on optional texts: the empty text is false.\<close>

definition str_or :: "string option \<Rightarrow> string option \<Rightarrow> string option" where
  "str_or a b = (case a of None \<Rightarrow> b | Some t \<Rightarrow> if t = [] then b else Some t)"

record owned_position =
  op_episode_id :: string
  op_account :: string
  op_symbol :: string
  op_entry_coid :: string
  op_entry_order_id :: string
  op_quantity :: rat
  op_entry_price :: rat
  op_first_fill_ns :: "int option"
  op_exited :: rat
  op_reserved :: rat
  op_child_ids :: "string list"
  op_native_confirmed :: bool
  op_release_unknown :: bool
  op_strategy :: string
  op_entry_send_ns :: "int option"
  op_pending_exit :: "string option"
  op_protection_session :: "string option"
  op_target_state :: string
  op_market_session :: "string option"

definition exit_clock_source :: "owned_position \<Rightarrow> string" where
  "exit_clock_source p =
     (if op_first_fill_ns p \<noteq> None then ''first_execution''
      else if op_entry_send_ns p \<noteq> None then ''send'' else ''UNKNOWN'')"

definition exit_clock_ns :: "owned_position \<Rightarrow> int option" where
  "exit_clock_ns p = (if op_first_fill_ns p \<noteq> None then op_first_fill_ns p else op_entry_send_ns p)"

definition op_remaining :: "owned_position \<Rightarrow> rat" where
  "op_remaining p = max 0 (op_quantity p - op_exited p)"

definition policy_session :: "owned_position \<Rightarrow> string option" where
  "policy_session p = str_or (op_market_session p) (op_protection_session p)"

definition software_target_allowed :: "owned_position \<Rightarrow> bool" where
  "software_target_allowed p =
     (if policy_session p = Some ''AM''
      then op_target_state p = ''terminal_zero_fill'' \<and> op_exited p = 0 \<and> op_reserved p = 0
           \<and> \<not> op_release_unknown p
      else policy_session p = Some ''NORMAL'' \<or> policy_session p = Some ''PM'')"

definition exit_reason ::
  "owned_position \<Rightarrow> decimal option \<Rightarrow> int option \<Rightarrow> int \<Rightarrow> string option" where
  "exit_reason p bid quote_ns now_ns =
     (case (bid, quote_ns) of
        (Some (Fin b), Some q) \<Rightarrow>
          if b \<le> 0 \<or> \<not> (0 \<le> now_ns - q \<and> now_ns - q \<le> 2000000000) \<or> op_remaining p \<le> 0
          then None
          else if op_pending_exit p \<noteq> None
                  \<and> (op_pending_exit p \<noteq> Some ''target_5pct'' \<or> software_target_allowed p)
          then op_pending_exit p
          else if (case exit_clock_ns p of None \<Rightarrow> False | Some t \<Rightarrow> now_ns - t \<ge> 300000000000)
          then Some ''time_300s''
          else if \<not> op_native_confirmed p
          then (if software_target_allowed p \<and> b \<ge> op_entry_price p * (105 / 100)
                then Some ''target_5pct''
                else if b \<le> stop_loss_level (op_entry_price p) then Some ''hard_stop_15pct''
                else None)
          else None
      | _ \<Rightarrow> None)"

definition claim_exit_quantity ::
  "owned_position \<Rightarrow> decimal option \<Rightarrow> decimal option \<Rightarrow> (rat \<times> owned_position) result" where
  "claim_exit_quantity p broker_available foreign_reserved =
     (case (broker_available, foreign_reserved) of
        (Some (Fin av), Some (Fin fr)) \<Rightarrow>
          if op_strategy p \<noteq> STRATEGY_CODE \<or> op_entry_order_id p = [] \<or> op_entry_coid p = []
             \<or> op_release_unknown p \<or> fr < 0 \<or> op_reserved p < 0
          then Inl (Refusal ''owned_exit_quantity_unknown'')
          else let quantity = max 0 (min (op_remaining p - op_reserved p) (av - fr))
               in Inr (quantity, p\<lparr>op_reserved := op_reserved p + quantity\<rparr>)
      | _ \<Rightarrow> Inl (Refusal ''owned_exit_quantity_unknown''))"

definition release_confirmation ::
  "owned_position \<Rightarrow> string \<Rightarrow> string \<Rightarrow> string list \<Rightarrow> bool \<Rightarrow> rat \<Rightarrow> owned_position result" where
  "release_confirmation p episode_id entry_order_id requested_child_ids terminal cumulative_own_exit =
     (if episode_id \<noteq> op_episode_id p \<or> entry_order_id \<noteq> op_entry_order_id p
         \<or> requested_child_ids \<noteq> op_child_ids p \<or> cumulative_own_exit < op_exited p
         \<or> cumulative_own_exit > op_quantity p
      then Inl (Refusal ''protection_release_owner_mismatch'')
      else let p1 = p\<lparr>op_exited := cumulative_own_exit, op_release_unknown := \<not> terminal\<rparr>;
               p2 = (if policy_session p1 = Some ''AM''
                     then p1\<lparr>op_target_state :=
                       (if terminal then (if cumulative_own_exit = 0 then ''terminal_zero_fill''
                                          else ''terminal_with_fills'') else ''unknown'')\<rparr>
                     else p1)
           in Inr (if terminal then p2\<lparr>op_native_confirmed := False, op_child_ids := []\<rparr> else p2))"

section \<open>The episode work queue\<close>

record work_queue =
  wq_queue :: "string list"
  wq_owners :: "string set"
  wq_pending :: "string set"
  wq_running :: "string set"
  wq_dirty :: "string set"
  wq_high_water :: int
  wq_offers :: int

definition new_queue :: work_queue where
  "new_queue = \<lparr>wq_queue = [], wq_owners = {}, wq_pending = {}, wq_running = {}, wq_dirty = {},
                wq_high_water = 0, wq_offers = 0\<rparr>"

definition add_owner :: "work_queue \<Rightarrow> string \<Rightarrow> work_queue result" where
  "add_owner q i =
     (if i \<notin> wq_owners q \<and> card (wq_owners q) \<ge> 2
      then Inl (Refusal ''episode_worker_capacity'')
      else Inr (q\<lparr>wq_owners := insert i (wq_owners q)\<rparr>))"

definition offer :: "string \<Rightarrow> work_queue \<Rightarrow> bool \<times> work_queue" where
  "offer i q =
     (if i \<notin> wq_owners q then (False, q)
      else let q1 = q\<lparr>wq_offers := wq_offers q + 1\<rparr>
           in if i \<in> wq_running q1 then (True, q1\<lparr>wq_dirty := insert i (wq_dirty q1)\<rparr>)
              else if i \<notin> wq_pending q1
              then (if length (wq_queue q1) \<ge> 2 then (False, q1)
                    else (True, q1\<lparr>wq_queue := wq_queue q1 @ [i],
                                   wq_pending := insert i (wq_pending q1),
                                   wq_high_water := max (wq_high_water q1)
                                                        (int (length (wq_queue q1) + 1))\<rparr>))
              else (True, q1))"

text \<open>
  One iteration of \<open>run\<close> is two atomic steps around the awaited worker: taking the head of the
  queue, and the \<open>finally\<close> block.
\<close>

definition take_work :: "work_queue \<Rightarrow> (string \<times> work_queue) option" where
  "take_work q =
     (case wq_queue q of
        [] \<Rightarrow> None
      | i # rest \<Rightarrow> Some (i, q\<lparr>wq_queue := rest, wq_pending := wq_pending q - {i},
                              wq_running := insert i (wq_running q)\<rparr>))"

definition finish_work :: "string \<Rightarrow> work_queue \<Rightarrow> work_queue" where
  "finish_work i q =
     (let q1 = q\<lparr>wq_running := wq_running q - {i}\<rparr>
      in if i \<in> wq_dirty q1 then snd (offer i (q1\<lparr>wq_dirty := wq_dirty q1 - {i}\<rparr>)) else q1)"

text \<open>\<open>LiveActor._refresh_owners\<close> replaces the owners and forgets the others' dirty marks.\<close>

definition set_owners :: "string set \<Rightarrow> work_queue \<Rightarrow> work_queue" where
  "set_owners A q = q\<lparr>wq_owners := A, wq_dirty := wq_dirty q \<inter> A\<rparr>"

section \<open>Quote dispatch\<close>

record quote_dispatch =
  qd_work :: work_queue
  qd_by_symbol :: "(string, string list) dict"
  qd_waiters :: "(string, bool) dict"

definition on_quote :: "string \<Rightarrow> quote_dispatch \<Rightarrow> quote_dispatch" where
  "on_quote y d =
     (let d1 = (if map_of (qd_waiters d) y \<noteq> None
                then d\<lparr>qd_waiters := AList.update y True (qd_waiters d)\<rparr> else d)
      in d1\<lparr>qd_work := fold (\<lambda>i q. snd (offer i q))
                         (case map_of (qd_by_symbol d1) y of None \<Rightarrow> [] | Some is \<Rightarrow> is)
                         (qd_work d1)\<rparr>)"

section \<open>Properties of owned positions\<close>

text \<open>
  an exit is never decided on missing evidence: a reason is returned only for a finite
  positive bid that is at most two seconds old and not from the future, while shares remain; the
  software target needs the session's permission and a bid 5 per cent above the entry, the stop
  a bid at most 90 per cent of it, and both need that no native protection is confirmed.
\<close>

theorem exit_reason_evidence:
  assumes "exit_reason p bid quote_ns now = Some r"
  shows "\<exists>b q. bid = Some (Fin b) \<and> 0 < b \<and> quote_ns = Some q \<and> q \<le> now
    \<and> now - q \<le> 2000000000 \<and> 0 < op_remaining p
    \<and> (op_pending_exit p \<noteq> None \<and> op_pending_exit p \<noteq> Some ''target_5pct''
         \<longrightarrow> op_pending_exit p = Some r)
    \<and> (r = ''target_5pct'' \<longrightarrow> software_target_allowed p)
    \<and> (op_pending_exit p = None \<longrightarrow>
         r = ''time_300s'' \<and> (\<exists>t. exit_clock_ns p = Some t \<and> 300000000000 \<le> now - t)
         \<or> r = ''target_5pct'' \<and> \<not> op_native_confirmed p \<and> op_entry_price p * (105 / 100) \<le> b
         \<or> r = ''hard_stop_15pct'' \<and> \<not> op_native_confirmed p \<and> b \<le> op_entry_price p * (90 / 100))"
  using assms
  by (auto simp: exit_reason_def stop_loss_level_def STOP_LOSS_MULTIPLIER_def
      split: option.splits decimal.splits if_splits)

definition demo_position :: owned_position where
  "demo_position =
     \<lparr>op_episode_id = ''e1'', op_account = ''live:w'', op_symbol = ''ABC'', op_entry_coid = ''c1'',
      op_entry_order_id = ''o1'', op_quantity = 20, op_entry_price = 5, op_first_fill_ns = Some 100,
      op_exited = 0, op_reserved = 0, op_child_ids = [], op_native_confirmed = False,
      op_release_unknown = False, op_strategy = STRATEGY_CODE, op_entry_send_ns = Some 50,
      op_pending_exit = None, op_protection_session = Some ''NORMAL'', op_target_state = ''unknown'',
      op_market_session = None\<rparr>"

theorem exit_reason_evidence_witness:
  "exit_reason demo_position (Some (Fin 4)) (Some 900) 1000 = Some ''hard_stop_15pct''
   \<and> (4::rat) \<le> op_entry_price demo_position * (90 / 100)"
proof -
  have r: "exit_reason demo_position (Some (Fin 4)) (Some 900) 1000 = Some ''hard_stop_15pct''"
    by (simp add: exit_reason_def demo_position_def op_remaining_def exit_clock_ns_def
        software_target_allowed_def policy_session_def str_or_def stop_loss_level_def
        STOP_LOSS_MULTIPLIER_def)
  from exit_reason_evidence[OF r] r show ?thesis by (auto simp: demo_position_def)
qed

text \<open>
  The decision is complete: with a fresh positive bid, shares remaining, no pending exit and
  no confirmed native protection, a bid at or below the stop level, or five minutes since the
  entry clock, always yields an exit, and a confirmed native protection suppresses only the
  price exits, never the time exit.
\<close>

theorem exit_reason_complete:
  assumes "0 < b" and "q \<le> now" and "now - q \<le> 2000000000" and "0 < op_remaining p"
    and "op_pending_exit p = None"
  shows "((\<exists>t. exit_clock_ns p = Some t \<and> 300000000000 \<le> now - t)
           \<longrightarrow> exit_reason p (Some (Fin b)) (Some q) now = Some ''time_300s'')
    \<and> (\<not> op_native_confirmed p \<and> b \<le> stop_loss_level (op_entry_price p)
           \<longrightarrow> exit_reason p (Some (Fin b)) (Some q) now \<noteq> None)"
  using assms by (auto simp: exit_reason_def split: option.splits)

theorem exit_reason_complete_witness:
  "exit_reason demo_position (Some (Fin 5)) (Some 300000000050) 300000000100 = Some ''time_300s''
   \<and> exit_reason demo_position (Some (Fin 5)) (Some 300000000050) 300000000060 = None"
proof -
  have "0 < op_remaining demo_position" "op_pending_exit demo_position = None"
    by (simp_all add: demo_position_def op_remaining_def)
  from exit_reason_complete[of 5 300000000050 300000000100, OF _ _ _ this] show ?thesis
    by (simp add: exit_reason_def demo_position_def exit_clock_ns_def op_remaining_def
        software_target_allowed_def policy_session_def str_or_def stop_loss_level_def
        STOP_LOSS_MULTIPLIER_def)
qed

text \<open>
  C5: an exit reservation never oversells: what \<open>claim_exit_quantity\<close> grants is not negative, is
  added to the reservation, keeps the reservation within the remaining shares, and together
  with the shares reserved by others stays within what the broker holds.
\<close>

theorem claim_exit_never_oversells:
  assumes "claim_exit_quantity p (Some (Fin av)) (Some (Fin fr)) = Inr (n, p')"
  shows "0 \<le> n \<and> p' = p\<lparr>op_reserved := op_reserved p + n\<rparr>
    \<and> (op_reserved p \<le> op_remaining p \<longrightarrow> op_reserved p' \<le> op_remaining p')
    \<and> (0 < n \<longrightarrow> n + fr \<le> av) \<and> \<not> op_release_unknown p \<and> op_strategy p = STRATEGY_CODE"
  using assms
  by (auto simp: claim_exit_quantity_def Let_def op_remaining_def max_def min_def split: if_splits)

theorem claim_exit_never_oversells_witness:
  "\<exists>p'. claim_exit_quantity demo_position (Some (Fin 30)) (Some (Fin 15)) = Inr (15, p')
     \<and> op_reserved p' \<le> op_remaining p'"
proof -
  have c: "claim_exit_quantity demo_position (Some (Fin 30)) (Some (Fin 15))
           = Inr (15, demo_position\<lparr>op_reserved := 15\<rparr>)"
    by (simp add: claim_exit_quantity_def Let_def demo_position_def op_remaining_def)
  have "op_reserved demo_position \<le> op_remaining demo_position"
    by (simp add: demo_position_def op_remaining_def)
  then show ?thesis using claim_exit_never_oversells[OF c] c by blast
qed

text \<open>
  A confirmed release keeps the exited quantity within the position and monotone, forgets the
  children and the native confirmation only on a terminal report, and a non-terminal report
  leaves the release unknown.
\<close>

lemma release_confirmation_bounds:
  "release_confirmation p ep oid cids terminal x = Inr p' \<Longrightarrow>
     op_exited p \<le> x \<and> x \<le> op_quantity p \<and> op_exited p' = x \<and> op_quantity p' = op_quantity p
     \<and> op_release_unknown p' = (\<not> terminal)
     \<and> (terminal \<longrightarrow> op_child_ids p' = [] \<and> \<not> op_native_confirmed p')
     \<and> (\<not> terminal \<longrightarrow> op_child_ids p' = op_child_ids p
                       \<and> op_native_confirmed p' = op_native_confirmed p)"
  by (auto simp: release_confirmation_def Let_def split: if_splits)

section \<open>The work queue with its workers\<close>

text \<open>
  Any number of worker tasks run the queue's loop; \<open>ws_serving\<close> says which episode each is
  serving. Callbacks offer episodes, the actor adds and replaces owners.
\<close>

record work_system =
  ws_q :: work_queue
  ws_serving :: "nat \<Rightarrow> string option"

datatype work_label =
    WOffer string bool
  | WAdd string
  | WOwners "string set"
  | WTake nat string
  | WFinish nat string

inductive work_step :: "work_system \<Rightarrow> work_label \<Rightarrow> work_system \<Rightarrow> bool" where
  ws_offer: "offer i (ws_q s) = (b, q) \<Longrightarrow> work_step s (WOffer i b) (s\<lparr>ws_q := q\<rparr>)"
| ws_add: "add_owner (ws_q s) i = Inr q \<Longrightarrow> work_step s (WAdd i) (s\<lparr>ws_q := q\<rparr>)"
| ws_owners: "work_step s (WOwners A) (s\<lparr>ws_q := set_owners A (ws_q s)\<rparr>)"
| ws_take: "ws_serving s w = None \<Longrightarrow> take_work (ws_q s) = Some (i, q) \<Longrightarrow>
    work_step s (WTake w i) (s\<lparr>ws_q := q, ws_serving := (ws_serving s)(w := Some i)\<rparr>)"
| ws_finish: "ws_serving s w = Some i \<Longrightarrow>
    work_step s (WFinish w i) (s\<lparr>ws_q := finish_work i (ws_q s),
                                ws_serving := (ws_serving s)(w := None)\<rparr>)"

inductive_cases work_stepE: "work_step s l t"

definition start_system :: "work_system \<Rightarrow> bool" where
  "start_system s \<longleftrightarrow> s = \<lparr>ws_q = new_queue, ws_serving = (\<lambda>_. None)\<rparr>"

definition queue_inv :: "work_queue \<Rightarrow> bool" where
  "queue_inv q \<longleftrightarrow>
     distinct (wq_queue q) \<and> set (wq_queue q) = wq_pending q \<and> length (wq_queue q) \<le> 2
     \<and> wq_pending q \<inter> wq_running q = {} \<and> wq_dirty q \<subseteq> wq_running q \<inter> wq_owners q"

definition work_inv :: "work_system \<Rightarrow> bool" where
  "work_inv s \<longleftrightarrow>
     queue_inv (ws_q s) \<and> wq_running (ws_q s) = ran (ws_serving s)
     \<and> (\<forall>w v i. ws_serving s w = Some i \<and> ws_serving s v = Some i \<longrightarrow> w = v)"

lemma offer_queue_inv: "queue_inv q \<Longrightarrow> offer i q = (b, q') \<Longrightarrow>
    queue_inv q' \<and> wq_running q' = wq_running q \<and> wq_owners q' = wq_owners q"
  by (auto simp: queue_inv_def offer_def Let_def split: if_splits)

lemma finish_queue_inv:
  assumes "queue_inv q"
  shows "queue_inv (finish_work i q) \<and> wq_running (finish_work i q) = wq_running q - {i}"
proof -
  have k: "queue_inv (q\<lparr>wq_running := wq_running q - {i}, wq_dirty := wq_dirty q - {i}\<rparr>)"
    using assms by (auto simp: queue_inv_def)
  obtain b q' where "offer i (q\<lparr>wq_running := wq_running q - {i}, wq_dirty := wq_dirty q - {i}\<rparr>)
                     = (b, q')"
    by force
  from offer_queue_inv[OF k this] this show ?thesis
    using assms by (auto simp: finish_work_def Let_def queue_inv_def)
qed

lemma take_queue_inv: "queue_inv q \<Longrightarrow> take_work q = Some (i, q') \<Longrightarrow>
    queue_inv q' \<and> i \<notin> wq_running q \<and> wq_running q' = insert i (wq_running q)"
  by (auto simp: queue_inv_def take_work_def split: list.splits)

lemma ran_clear: "f w = Some i \<Longrightarrow> (\<And>v. v \<noteq> w \<Longrightarrow> f v \<noteq> Some i) \<Longrightarrow> ran (f(w := None)) = ran f - {i}"
  by (auto simp: ran_def) (metis option.inject)

lemma work_step_inv:
  assumes "work_inv s" "work_step s l t"
  shows "work_inv t"
  using assms(2)
proof cases
  case (ws_offer i b q)
  then show ?thesis using assms(1) offer_queue_inv[of "ws_q s" i b q] by (simp add: work_inv_def)
next
  case (ws_add q i)
  then show ?thesis using assms(1)
    by (auto simp: work_inv_def queue_inv_def add_owner_def split: if_splits)
next
  case (ws_owners A)
  then show ?thesis using assms(1) by (auto simp: work_inv_def queue_inv_def set_owners_def)
next
  case (ws_take w i q)
  then have q: "queue_inv q" "i \<notin> wq_running (ws_q s)" "wq_running q = insert i (wq_running (ws_q s))"
    using assms(1) take_queue_inv[of "ws_q s" i q] by (auto simp: work_inv_def)
  have inj: "ws_serving s v \<noteq> Some i" for v
    using q assms(1) by (auto simp: work_inv_def ran_def)
  show ?thesis using assms(1) ws_take q inj
    by (simp add: work_inv_def)
next
  case (ws_finish w i)
  have inj: "ws_serving s v \<noteq> Some i" if "v \<noteq> w" for v
    using assms(1) ws_finish(3) that by (auto simp: work_inv_def)
  have "ran ((ws_serving s)(w := None)) = ran (ws_serving s) - {i}"
    using ws_finish(3) inj ran_clear[of "ws_serving s" w i] by simp
  then show ?thesis using assms(1) ws_finish finish_queue_inv[of "ws_q s" i]
    by (simp add: work_inv_def)
qed

interpretation worker: invariant_system start_system work_step work_inv
proof
  show "work_inv s" if "start_system s" for s
    using that by (simp add: start_system_def work_inv_def queue_inv_def new_queue_def)
qed (rule work_step_inv)

text \<open>An episode whose state change has been signalled and not yet taken by a worker.\<close>

definition owed :: "work_queue \<Rightarrow> string \<Rightarrow> bool" where
  "owed q i \<longleftrightarrow> i \<in> wq_pending q \<or> i \<in> wq_dirty q"

lemma offer_True: "offer i q = (True, q') \<Longrightarrow> owed q' i"
  by (auto simp: offer_def owed_def Let_def split: if_splits)

lemma offer_keeps_owed: "owed q j \<Longrightarrow> offer i q = (b, q') \<Longrightarrow> owed q' j"
  by (auto simp: offer_def owed_def Let_def split: if_splits)

text \<open>
  The queue has room for a re-offer whenever it holds only current owners: at most two owners
  exist, and the one being served is not queued.
\<close>

lemma finish_has_room:
  assumes inv: "queue_inv q" and own: "wq_pending q \<subseteq> wq_owners q" "card (wq_owners q) \<le> 2"
    "finite (wq_owners q)" and i: "i \<in> wq_dirty q"
  shows "length (wq_queue q) < 2"
proof -
  have "i \<in> wq_owners q" "i \<notin> wq_pending q" "distinct (wq_queue q)" "set (wq_queue q) = wq_pending q"
    using inv i by (auto simp: queue_inv_def)
  then have "length (wq_queue q) = card (wq_pending q)" by (metis distinct_card)
  also have "\<dots> \<le> card (wq_owners q - {i})"
    by (rule card_mono) (use own \<open>i \<notin> wq_pending q\<close> in auto)
  also have "\<dots> < card (wq_owners q)"
    by (rule card_Diff1_less) (use own \<open>i \<in> wq_owners q\<close> in auto)
  finally show ?thesis using own by simp
qed

lemma finish_keeps_owed:
  assumes "queue_inv q" "owed q j" "length (wq_queue q) < 2 \<or> i \<noteq> j"
  shows "owed (finish_work i q) j"
proof (cases "i = j")
  case True
  then show ?thesis
    using assms by (auto simp: queue_inv_def owed_def finish_work_def offer_def Let_def)
next
  case False
  let ?q = "q\<lparr>wq_running := wq_running q - {i}\<rparr>"
  obtain b q' where o: "offer i (?q\<lparr>wq_dirty := wq_dirty ?q - {i}\<rparr>) = (b, q')" by force
  have "owed (?q\<lparr>wq_dirty := wq_dirty ?q - {i}\<rparr>) j"
    using assms(2) False by (auto simp: owed_def)
  from offer_keeps_owed[OF this o] o show ?thesis
    using assms(2) False by (auto simp: finish_work_def Let_def owed_def)
qed

text \<open>
  in every state the workers can reach, no two workers serve the same episode, the queue
  holds at most two episodes, none twice and none that is being served, and the marks for
  another pass belong to episodes that are owned and being served.
\<close>

theorem one_worker_per_episode:
  assumes "start_system s" and "run work_step s ls t"
  shows "(\<forall>w v i. ws_serving t w = Some i \<and> ws_serving t v = Some i \<longrightarrow> w = v)
    \<and> distinct (wq_queue (ws_q t)) \<and> length (wq_queue (ws_q t)) \<le> 2
    \<and> (\<forall>w i. ws_serving t w = Some i \<longrightarrow> i \<notin> set (wq_queue (ws_q t)))
    \<and> wq_dirty (ws_q t) \<subseteq> {i. \<exists>w. ws_serving t w = Some i} \<inter> wq_owners (ws_q t)"
  using worker.run_from_init[OF assms(2,1)] by (auto simp: work_inv_def queue_inv_def ran_def)

lemma demo_worker_run:
  "\<exists>t. run work_step \<lparr>ws_q = new_queue, ws_serving = (\<lambda>_. None)\<rparr>
         [WAdd ''e1'', WOffer ''e1'' True, WTake 0 ''e1''] t \<and> ws_serving t 0 = Some ''e1''"
proof -
  let ?s = "\<lparr>ws_q = new_queue, ws_serving = (\<lambda>_. None)\<rparr>"
  let ?q1 = "new_queue\<lparr>wq_owners := {''e1''}\<rparr>"
  let ?q2 = "?q1\<lparr>wq_offers := 1, wq_queue := [''e1''], wq_pending := {''e1''}, wq_high_water := 1\<rparr>"
  let ?q3 = "?q2\<lparr>wq_queue := [], wq_pending := {}, wq_running := {''e1''}\<rparr>"
  have a: "work_step ?s (WAdd ''e1'') (?s\<lparr>ws_q := ?q1\<rparr>)"
    by (rule ws_add) (simp add: add_owner_def new_queue_def)
  have b: "work_step (?s\<lparr>ws_q := ?q1\<rparr>) (WOffer ''e1'' True) (?s\<lparr>ws_q := ?q1\<rparr>\<lparr>ws_q := ?q2\<rparr>)"
    by (rule ws_offer) (simp add: offer_def new_queue_def)
  have c: "work_step (?s\<lparr>ws_q := ?q1\<rparr>\<lparr>ws_q := ?q2\<rparr>) (WTake 0 ''e1'')
     (?s\<lparr>ws_q := ?q1\<rparr>\<lparr>ws_q := ?q2\<rparr>\<lparr>ws_q := ?q3,
        ws_serving := (ws_serving (?s\<lparr>ws_q := ?q1\<rparr>\<lparr>ws_q := ?q2\<rparr>))(0 := Some ''e1'')\<rparr>)"
    by (rule ws_take) (simp_all add: take_work_def new_queue_def)
  show ?thesis
    by (rule exI, rule conjI, rule run_Cons[where step = work_step, OF a
          run_Cons[where step = work_step, OF b run_one[where step = work_step, OF c]]]) simp
qed

theorem one_worker_per_episode_witness:
  "\<exists>t :: work_system. ws_serving t 0 = Some ''e1'' \<and> ''e1'' \<notin> set (wq_queue (ws_q t))"
proof -
  obtain t where t: "run work_step \<lparr>ws_q = new_queue, ws_serving = (\<lambda>_. None)\<rparr>
         [WAdd ''e1'', WOffer ''e1'' True, WTake 0 ''e1''] t" "ws_serving t 0 = Some ''e1''"
    using demo_worker_run by blast
  have "start_system \<lparr>ws_q = new_queue, ws_serving = (\<lambda>_. None)\<rparr>"
    by (simp add: start_system_def)
  from one_worker_per_episode[OF this t(1)] t(2) show ?thesis by (intro exI[of _ t]) simp
qed

text \<open>
  C26: no accepted wake-up is lost: an accepted offer leaves the episode owed a pass, and no step
  of any worker or callback clears the debt except the worker that takes that episode, the
  actor dropping the owner, and a worker that finishes the episode itself while the queue is
  full; and the queue is never full then while it holds current owners only.
\<close>

theorem no_lost_wakeup:
  assumes inv: "work_inv s" and st: "work_step s l t"
  shows "(\<forall>i. l = WOffer i True \<longrightarrow> owed (ws_q t) i)
    \<and> (\<forall>j. owed (ws_q s) j \<and> (\<forall>w. l \<noteq> WTake w j) \<and> (\<forall>A. l = WOwners A \<longrightarrow> j \<in> A)
           \<and> (\<forall>w. l = WFinish w j \<longrightarrow>
                length (wq_queue (ws_q s)) < 2
                \<or> wq_pending (ws_q s) \<subseteq> wq_owners (ws_q s) \<and> finite (wq_owners (ws_q s))
                  \<and> card (wq_owners (ws_q s)) \<le> 2)
           \<longrightarrow> owed (ws_q t) j)"
  using st
proof cases
  case (ws_offer i b q)
  then show ?thesis using offer_True offer_keeps_owed by auto
next
  case (ws_add q i)
  then show ?thesis by (auto simp: add_owner_def owed_def split: if_splits)
next
  case (ws_owners A)
  then show ?thesis by (auto simp: set_owners_def owed_def)
next
  case (ws_take w i q)
  then show ?thesis by (auto simp: take_work_def owed_def split: list.splits)
next
  case (ws_finish w i)
  have q: "queue_inv (ws_q s)" using inv by (simp add: work_inv_def)
  have i: "i \<notin> wq_pending (ws_q s)"
    using inv ws_finish by (auto simp: work_inv_def queue_inv_def ran_def)
  have "owed (finish_work i (ws_q s)) j"
    if "owed (ws_q s) j" and "i = j \<longrightarrow> length (wq_queue (ws_q s)) < 2
          \<or> wq_pending (ws_q s) \<subseteq> wq_owners (ws_q s) \<and> finite (wq_owners (ws_q s))
            \<and> card (wq_owners (ws_q s)) \<le> 2" for j
    using finish_keeps_owed[OF q that(1), of i] finish_has_room[OF q, of i] that i
    by (auto simp: owed_def)
  then show ?thesis using ws_finish by auto
qed

theorem no_lost_wakeup_witness:
  "owed (ws_q (\<lparr>ws_q = new_queue\<lparr>wq_owners := {''e1''}\<rparr>, ws_serving = (\<lambda>_. None)\<rparr>
     \<lparr>ws_q := snd (offer ''e1'' (new_queue\<lparr>wq_owners := {''e1''}\<rparr>))\<rparr>)) ''e1''"
proof -
  let ?q = "new_queue\<lparr>wq_owners := {''e1''}\<rparr>"
  let ?s = "\<lparr>ws_q = ?q, ws_serving = (\<lambda>_. None)\<rparr>"
  have i: "work_inv ?s" by (simp add: work_inv_def queue_inv_def new_queue_def)
  have "work_step ?s (WOffer ''e1'' True) (?s\<lparr>ws_q := snd (offer ''e1'' ?q)\<rparr>)"
    by (rule ws_offer) (simp add: offer_def new_queue_def)
  from no_lost_wakeup[OF i this] show ?thesis by blast
qed

end
