(* ===== verification/Orders.thy ===== *)
theory Orders
  imports Prelude
begin

text \<open>
  The broker order of \<open>broker_adapters/protocols.py\<close> and its metadata. A metadata value is a
  text; the texts the program writes with \<open>str(Decimal)\<close> and reads back with \<open>Decimal(...)\<close> are
  kept as the decimal they spell (\<open>MDec\<close>), every other text as itself (\<open>MText\<close>).
\<close>

datatype meta = MText string | MDec decimal

type_synonym metadata = "(string, meta) dict"

record order_request =
  or_coid :: string
  or_account :: string
  or_strategy :: string
  or_symbol :: string
  or_side :: string
  or_intent :: string
  or_quantity :: rat
  or_reason :: string
  or_metadata :: metadata
  or_order_type :: string
  or_tif :: string

record execution_report =
  er_event :: string
  er_origin :: string

text \<open>\<open>Decimal(metadata[key])\<close>: a missing key and an unparsable text raise.\<close>

definition meta_decimal :: "metadata \<Rightarrow> string \<Rightarrow> decimal result" where
  "meta_decimal m k =
     (case map_of m k of
        None \<Rightarrow> Inl KeyError
      | Some (MText _) \<Rightarrow> Inl ArithmeticError
      | Some (MDec d) \<Rightarrow> Inr d)"

text \<open>Decimal digits of a number, for the generation suffix of a protection order's identity.\<close>

fun digits_rev :: "nat \<Rightarrow> nat \<Rightarrow> string" where
  "digits_rev 0 n = []"
| "digits_rev (Suc fuel) n =
     char_of (48 + n mod 10) # (if n < 10 then [] else digits_rev fuel (n div 10))"

definition show_nat :: "nat \<Rightarrow> string" where
  "show_nat n = rev (digits_rev (Suc n) n)"

definition show_int :: "int \<Rightarrow> string" where
  "show_int i = (if i < 0 then ''-'' @ show_nat (nat (- i)) else show_nat (nat i))"

text \<open>The fuel of \<open>show_nat\<close> is never exhausted: more of it changes nothing.\<close>

lemma digits_rev_enough: "n < fuel \<Longrightarrow> digits_rev (Suc fuel) n = digits_rev fuel n"
proof (induction fuel arbitrary: n)
  case (Suc fuel)
  show ?case
  proof (cases "n < 10")
    case False
    then have "n div 10 < fuel" using Suc.prems by auto
    from Suc.IH[OF this] show ?thesis using False by simp
  qed simp
qed simp

text \<open>
  Reading the digits back gives the number, so \<open>show_nat\<close> is injective and two generations never
  share an order identity.
\<close>

fun value_rev :: "string \<Rightarrow> nat" where
  "value_rev [] = 0"
| "value_rev (c # cs) = (of_char c - 48) + 10 * value_rev cs"

lemma value_digits_rev: "n < fuel \<Longrightarrow> value_rev (digits_rev fuel n) = n"
proof (induction fuel arbitrary: n)
  case (Suc fuel)
  have c: "of_char (char_of (48 + n mod 10) :: char) = (48 + n mod 10 :: nat)"
  proof -
    have "48 + n mod 10 < 256" using mod_less_divisor[of 10 n] by linarith
    then show ?thesis by simp
  qed
  show ?case
  proof (cases "n < 10")
    case True
    then show ?thesis using c by simp
  next
    case False
    then have "n div 10 < fuel" using Suc.prems by auto
    then have "value_rev (digits_rev fuel (n div 10)) = n div 10" by (rule Suc.IH)
    then show ?thesis using False c by simp
  qed
qed simp

lemma show_nat_inj: "show_nat m = show_nat n \<Longrightarrow> m = n"
  unfolding show_nat_def using value_digits_rev[of m "Suc m"] value_digits_rev[of n "Suc n"] by auto

text \<open>The rendered numbers hold digits and a sign only, so a joined name is taken apart at its colons.\<close>

lemma split_first:
  "xs @ c # ys = xs' @ c # ys' \<Longrightarrow> c \<notin> set xs \<Longrightarrow> c \<notin> set xs' \<Longrightarrow> xs = xs' \<and> ys = ys'"
proof (induction xs arbitrary: xs')
  case Nil
  then show ?case by (cases xs') auto
next
  case (Cons x xs)
  then show ?case by (cases xs') auto
qed

lemma split_last:
  assumes "xs @ c # ys = xs' @ c # ys'" "c \<notin> set ys" "c \<notin> set ys'"
  shows "xs = xs' \<and> ys = ys'"
proof -
  have "rev ys @ c # rev xs = rev ys' @ c # rev xs'"
    using arg_cong[OF assms(1), of rev] by simp
  from split_first[OF this] show ?thesis using assms(2,3) by simp
qed

lemma digits_rev_chars: "c \<in> set (digits_rev fuel n) \<Longrightarrow> \<exists>d<10. c = char_of (48 + d :: nat)"
proof (induction fuel arbitrary: n)
  case (Suc fuel)
  then consider "c = char_of (48 + n mod 10)" | "c \<in> set (digits_rev fuel (n div 10))"
    by (auto split: if_splits)
  then show ?case
  proof cases
    case 1
    then show ?thesis by (intro exI[of _ "n mod 10"]) simp
  next
    case 2
    then show ?thesis by (rule Suc.IH)
  qed
qed simp

lemma show_nat_chars: "c \<in> set (show_nat n) \<Longrightarrow> \<exists>d<10. c = char_of (48 + d :: nat)"
  using digits_rev_chars[of c "Suc n" n] by (simp add: show_nat_def del: digits_rev.simps)

lemma digit_code: "d < 10 \<Longrightarrow> of_char (char_of (48 + d :: nat) :: char) = (48 + d :: nat)"
  by simp

lemma show_nat_plain: "CHR '':'' \<notin> set (show_nat n)" "CHR ''-'' \<notin> set (show_nat n)"
proof -
  have "of_char (CHR '':'') = (58 :: nat)" "of_char (CHR ''-'') = (45 :: nat)" by simp_all
  then show "CHR '':'' \<notin> set (show_nat n)" "CHR ''-'' \<notin> set (show_nat n)"
    using show_nat_chars[of _ n] digit_code by fastforce+
qed

lemma show_int_plain: "CHR '':'' \<notin> set (show_int n)"
  using show_nat_plain by (auto simp: show_int_def)

lemma show_int_inj: "show_int m = show_int n \<Longrightarrow> m = n"
proof -
  assume eq: "show_int m = show_int n"
  have no: "''-'' @ show_nat a \<noteq> show_nat b" for a b
    using show_nat_plain(2)[of b] by (metis append_Cons list.set_intros(1))
  show "m = n"
    using eq no no[symmetric] show_nat_inj[of "nat (- m)" "nat (- n)"]
      show_nat_inj[of "nat m" "nat n"]
    by (auto simp: show_int_def split: if_splits)
qed

end
