(* ===== verification/Protection.thy ===== *)
theory Protection
  imports Lifecycle Orders
begin

text \<open>
  \<open>momentum_live/protection.py\<close>: the native protection of one owned position. The broker and the
  durable store are ports: each call is logged in order, and its outcome is given by the
  environment as a function of the position in the log, so that every theorem holds for
  every sequence of broker answers and failures.
\<close>

section \<open>Handles, reads and ports\<close>

record handle =
  h_episode_id :: string
  h_account :: string
  h_symbol :: string
  h_entry_order_id :: string
  h_base_coid :: string
  h_quantity :: rat
  h_session :: string
  h_child_ids :: "string list"
  h_status :: string
  h_cumulative_exited :: rat
  h_target_state :: string

record protection_read =
  pr_episode_id :: string
  pr_account :: string
  pr_entry_order_id :: string
  pr_base_coid :: string
  pr_child_ids :: "string list"
  pr_working :: bool
  pr_terminal :: bool
  pr_cumulative_exited :: decimal

datatype port_call =
    PSave handle
  | PPrepare order_request
  | PSubmit order_request
  | PRead handle
  | PCancel handle

text \<open>The outcome of the \<open>n\<close>-th port call: a read's report, and whether any other call raises.\<close>

record port_env =
  pe_read :: "nat \<Rightarrow> protection_read result"
  pe_call :: "nat \<Rightarrow> unit result"

record protection =
  ps_pos :: owned_position
  ps_handles :: "(string, handle) dict"
  ps_generations :: "(string, int) dict"
  ps_log :: "port_call list"

definition the_handle :: "protection \<Rightarrow> handle option" where
  "the_handle s = map_of (ps_handles s) (op_episode_id (ps_pos s))"

definition put_handle :: "handle \<Rightarrow> protection \<Rightarrow> protection" where
  "put_handle h s = s\<lparr>ps_handles := AList.update (op_episode_id (ps_pos s)) h (ps_handles s)\<rparr>"

definition map_handle :: "(handle \<Rightarrow> handle) \<Rightarrow> protection \<Rightarrow> protection" where
  "map_handle f s = (case the_handle s of None \<Rightarrow> s | Some h \<Rightarrow> put_handle (f h) s)"

definition map_pos :: "(owned_position \<Rightarrow> owned_position) \<Rightarrow> protection \<Rightarrow> protection" where
  "map_pos f s = s\<lparr>ps_pos := f (ps_pos s)\<rparr>"

definition log_call :: "port_call \<Rightarrow> protection \<Rightarrow> protection" where
  "log_call c s = s\<lparr>ps_log := ps_log s @ [c]\<rparr>"

definition call_port :: "port_call \<Rightarrow> (nat \<Rightarrow> 'a result) \<Rightarrow> (protection, 'a) eff" where
  "call_port c outcome = (\<lambda>s. (outcome (length (ps_log s)), log_call c s))"

definition with_handle :: "(handle \<Rightarrow> (protection, 'a) eff) \<Rightarrow> (protection, 'a) eff" where
  "with_handle f =
     bindE (getE the_handle) (\<lambda>ho. case ho of None \<Rightarrow> raiseE KeyError | Some h \<Rightarrow> f h)"

definition call_read :: "port_env \<Rightarrow> (protection, protection_read) eff" where
  "call_read E = with_handle (\<lambda>h. call_port (PRead h) (pe_read E))"

definition call_save :: "port_env \<Rightarrow> (protection, unit) eff" where
  "call_save E = with_handle (\<lambda>h. call_port (PSave h) (pe_call E))"

definition call_cancel :: "port_env \<Rightarrow> (protection, unit) eff" where
  "call_cancel E = with_handle (\<lambda>h. call_port (PCancel h) (pe_call E))"

section \<open>Observing the broker's protection\<close>

text \<open>\<open>NativeProtection._check\<close>.\<close>

definition check_owner :: "owned_position \<Rightarrow> handle \<Rightarrow> bool" where
  "check_owner p h \<longleftrightarrow>
     op_strategy p = STRATEGY_CODE \<and> h_episode_id h = op_episode_id p
     \<and> h_account h = op_account p \<and> h_symbol h = op_symbol p
     \<and> h_entry_order_id h = op_entry_order_id p \<and> op_entry_order_id p \<noteq> []
     \<and> op_entry_coid p \<noteq> [] \<and> h_quantity h > 0"

definition session_for :: "owned_position \<Rightarrow> string \<Rightarrow> string option" where
  "session_for p session = str_or (op_market_session p) (Some session)"

definition begin_observation :: "handle \<Rightarrow> protection \<Rightarrow> protection" where
  "begin_observation h s =
     (let s1 = map_pos (\<lambda>p. p\<lparr>op_protection_session := Some (h_session h)\<rparr>) s
      in if session_for (ps_pos s) (h_session h) = Some ''AM''
         then map_pos (\<lambda>p. p\<lparr>op_target_state := ''unknown'',
                            op_reserved := min (h_quantity h) (op_remaining p),
                            op_release_unknown := True\<rparr>)
                (map_handle (\<lambda>h. h\<lparr>h_target_state := ''unknown''\<rparr>) s1)
         else s1)"

definition read_unknown :: "owned_position \<Rightarrow> handle \<Rightarrow> protection_read \<Rightarrow> bool" where
  "read_unknown p h r \<longleftrightarrow>
     pr_episode_id r \<noteq> h_episode_id h \<or> pr_account r \<noteq> h_account h
     \<or> pr_entry_order_id r \<noteq> h_entry_order_id h \<or> pr_base_coid r \<noteq> h_base_coid h
     \<or> \<not> distinct (pr_child_ids r)
     \<or> (case pr_cumulative_exited r of
          Fin x \<Rightarrow> x < h_cumulative_exited h \<or> x > op_quantity p
        | _ \<Rightarrow> True)
     \<or> (pr_working r \<and> pr_terminal r)
     \<or> (pr_working r \<and> pr_child_ids r = [])
     \<or> (session_for p (h_session h) = Some ''AM'' \<and> h_session h \<noteq> ''NORMAL''
          \<and> (pr_child_ids r \<noteq> [] \<and> pr_child_ids r \<noteq> [h_base_coid h]
             \<or> pr_terminal r \<and> pr_child_ids r = []))"

fun dec_value :: "decimal \<Rightarrow> rat" where
  "dec_value (Fin x) = x"
| "dec_value _ = 0"

definition target_state_after :: "bool \<Rightarrow> owned_position \<Rightarrow> protection_read \<Rightarrow> string" where
  "target_state_after am p r =
     (if am
      then (if pr_terminal r
            then (if op_exited p = 0 then ''terminal_zero_fill'' else ''terminal_with_fills'')
            else if pr_working r then ''working'' else ''unknown'')
      else ''not_applicable'')"

definition observed_position :: "handle \<Rightarrow> protection_read \<Rightarrow> owned_position \<Rightarrow> owned_position" where
  "observed_position h r p =
     (let am = (session_for p (h_session h) = Some ''AM'');
          x = dec_value (pr_cumulative_exited r);
          p1 = p\<lparr>op_exited := max (op_exited p) x, op_child_ids := pr_child_ids r\<rparr>;
          previously_working = (h_status h = ''working'' \<or> h_status h = ''cancel_requested'');
          native_possibly_working = (pr_working r \<or> \<not> pr_terminal r \<and> previously_working);
          possibly_working = (native_possibly_working \<or> \<not> pr_terminal r \<and> am)
      in p1\<lparr>op_native_confirmed := (native_possibly_working \<and> h_session h = ''NORMAL''),
            op_target_state := target_state_after am p1 r,
            op_reserved := (if possibly_working then min (h_quantity h) (op_remaining p1) else 0),
            op_release_unknown := \<not> (pr_working r \<or> pr_terminal r)\<rparr>)"

definition observed_handle :: "owned_position \<Rightarrow> protection_read \<Rightarrow> handle \<Rightarrow> handle" where
  "observed_handle p r h =
     (let am = (session_for p (h_session h) = Some ''AM'');
          x = dec_value (pr_cumulative_exited r);
          p1 = p\<lparr>op_exited := max (op_exited p) x\<rparr>
      in h\<lparr>h_child_ids := pr_child_ids r, h_cumulative_exited := x,
           h_target_state := target_state_after am p1 r,
           h_status := (if pr_terminal r then ''terminal''
                        else if pr_working r \<and> h_status h \<noteq> ''cancel_requested'' then ''working''
                        else h_status h)\<rparr>)"

definition apply_read :: "handle \<Rightarrow> protection_read \<Rightarrow> protection \<Rightarrow> protection" where
  "apply_read h r s =
     map_pos (observed_position h r) (map_handle (observed_handle (ps_pos s) r) s)"

definition observe :: "port_env \<Rightarrow> (protection, protection_read) eff" where
  "observe E =
     with_handle (\<lambda>h. bindE (getE ps_pos) (\<lambda>p.
       thenE (raise_if (\<not> check_owner p h) (Refusal ''native_protection_owner_mismatch''))
      (thenE (modifyE (begin_observation h))
      (bindE (call_read E) (\<lambda>r.
       thenE (raise_if (read_unknown p h r) (Refusal ''native_protection_read_unknown''))
      (thenE (raise_if (h_child_ids h \<noteq> [] \<and> pr_child_ids r \<noteq> h_child_ids h)
                       (Refusal ''native_protection_child_identity_changed''))
      (thenE (modifyE (apply_read h r))
      (thenE (call_save E) (returnE r)))))))))"

section \<open>Release\<close>

definition freed :: "owned_position \<Rightarrow> owned_position" where
  "freed p = p\<lparr>op_native_confirmed := False, op_child_ids := [], op_reserved := 0,
               op_release_unknown := False\<rparr>"

definition mandatory_exit :: "string option \<Rightarrow> bool" where
  "mandatory_exit r \<longleftrightarrow>
     r = Some ''hard_stop_15pct'' \<or> r = Some ''time_300s'' \<or> r = Some ''KILLSW1_STOP''"

text \<open>Cancel once: the durable mark precedes the cancel call and is never sent again.\<close>

definition request_cancel :: "port_env \<Rightarrow> (protection, unit) eff" where
  "request_cancel E =
     with_handle (\<lambda>h.
       if h_status h \<noteq> ''cancel_requested''
       then thenE (modifyE (map_handle (\<lambda>h. h\<lparr>h_status := ''cancel_requested''\<rparr>)))
           (thenE (call_save E) (call_cancel E))
       else returnE ())"

definition doubt_release :: "(protection, bool) eff" where
  "doubt_release =
     thenE (modifyE (map_pos (\<lambda>p. p\<lparr>op_release_unknown := True\<rparr>))) (returnE False)"

definition grant_release :: "(protection, bool) eff" where
  "grant_release = thenE (modifyE (map_pos freed)) (returnE True)"

definition cancel_and_confirm :: "port_env \<Rightarrow> (protection, bool) eff" where
  "cancel_and_confirm E =
     thenE (request_cancel E)
    (bindE (observe E) (\<lambda>r. if \<not> pr_terminal r then doubt_release else grant_release))"

definition release_observed :: "port_env \<Rightarrow> protection_read \<Rightarrow> (protection, bool) eff" where
  "release_observed E r =
     (if pr_terminal r then grant_release
      else bindE (getE ps_pos) (\<lambda>p.
        if \<not> pr_working r \<and> \<not> mandatory_exit (op_pending_exit p) then doubt_release
        else cancel_and_confirm E))"

definition release_for_exit :: "port_env \<Rightarrow> (protection, bool) eff" where
  "release_for_exit E =
     bindE (getE id) (\<lambda>s0. case the_handle s0 of
       None \<Rightarrow>
         (if op_child_ids (ps_pos s0) \<noteq> [] \<or> op_reserved (ps_pos s0) \<noteq> 0
             \<or> op_release_unknown (ps_pos s0)
          then raiseE (Refusal ''native_protection_handle_unknown'') else returnE True)
     | Some _ \<Rightarrow> bindE (observe E) (release_observed E))"

section \<open>Ensuring a protection\<close>

definition protection_base :: "owned_position \<Rightarrow> int \<Rightarrow> string" where
  "protection_base p generation =
     ''ml1-'' @ op_symbol p @ ''-p-''
     @ take 20 (filter (\<lambda>c. c \<noteq> CHR ''-'') (op_episode_id p)) @ ''-'' @ show_int generation"

definition protection_tick :: "owned_position \<Rightarrow> rat" where
  "protection_tick p = (if op_entry_price p < 1 then 1 / 10000 else 1 / 100)"

definition protection_target :: "owned_position \<Rightarrow> rat" where
  "protection_target p = ceil_to (protection_tick p) (op_entry_price p * (105 / 100))"

definition protection_stop :: "owned_position \<Rightarrow> rat" where
  "protection_stop p = floor_to (protection_tick p) (stop_loss_level (op_entry_price p))"

definition protection_metadata :: "owned_position \<Rightarrow> string \<Rightarrow> string \<Rightarrow> metadata" where
  "protection_metadata p broker session =
     [(''episode_id'', MText (op_episode_id p)), (''momlive_strategy'', MText STRATEGY_CODE),
      (''momlive_one_shot'', MText ''true''),
      (''entry_broker_order_id'', MText (op_entry_order_id p)),
      (''limit_price'', MDec (Fin (protection_target p))),
      (''reference_price'', MDec (Fin (protection_target p))),
      (''session'', MText session),
      (''extended_hours'', MText (if session = ''NORMAL'' then ''false'' else ''true'')),
      (''market_session'', MText (if session = ''NORMAL'' then ''RTH''
                                  else if session = ''AM'' then ''PRE'' else ''POST''))]
     @ (if session = ''NORMAL''
        then [(''bracket_target_price'', MDec (Fin (protection_target p))),
              (''bracket_stop_price'', MDec (Fin (protection_stop p))),
              (if broker = ''schwab'' then ''exit_only_oco'' else ''webull_exit_only_pair'',
               MText ''true'')]
        else [])"

definition protection_request :: "owned_position \<Rightarrow> string \<Rightarrow> string \<Rightarrow> string \<Rightarrow> order_request" where
  "protection_request p base broker session =
     \<lparr>or_coid = base, or_account = op_account p, or_strategy = STRATEGY_CODE,
      or_symbol = op_symbol p, or_side = ''sell'', or_intent = ''close'',
      or_quantity = op_remaining p, or_reason = ''MOMLIVE1_OWNED_PROTECTION'',
      or_metadata = protection_metadata p broker session, or_order_type = ''limit'',
      or_tif = ''day''\<rparr>"

definition new_handle :: "owned_position \<Rightarrow> string \<Rightarrow> string \<Rightarrow> handle" where
  "new_handle p base session =
     \<lparr>h_episode_id = op_episode_id p, h_account = op_account p, h_symbol = op_symbol p,
      h_entry_order_id = op_entry_order_id p, h_base_coid = base, h_quantity = op_remaining p,
      h_session = session, h_child_ids = [], h_status = ''unsent'', h_cumulative_exited = 0,
      h_target_state = ''unknown''\<rparr>"

text \<open>\<open>ensure\<close> from \<open>quantity = position.remaining\<close> on: one new generation, sent once.\<close>

definition next_generation :: "protection \<Rightarrow> int" where
  "next_generation s =
     (case map_of (ps_generations s) (op_episode_id (ps_pos s)) of None \<Rightarrow> 1 | Some g \<Rightarrow> g + 1)"

definition send_protection :: "port_env \<Rightarrow> string \<Rightarrow> string \<Rightarrow> (protection, unit) eff" where
  "send_protection E broker session =
     bindE (getE id) (\<lambda>s.
       let p = ps_pos s; g = next_generation s; base = protection_base p g;
           req = protection_request p base broker session
       in thenE (modifyE (\<lambda>s. s\<lparr>ps_generations :=
                                  AList.update (op_episode_id p) g (ps_generations s)\<rparr>))
         (thenE (raise_if (length base > 38) (Refusal ''native_protection_identity_capacity''))
         (thenE (raise_if (protection_stop p \<le> 0) (Refusal ''native_stop_tick_unrepresentable''))
         (thenE (modifyE (put_handle (new_handle p base session)))
         (thenE (call_port (PPrepare req) (pe_call E))
         (thenE (modifyE (map_handle (\<lambda>h. h\<lparr>h_status := ''submitted_unknown''\<rparr>)))
         (thenE (call_save E)
         (thenE (modifyE (map_pos (\<lambda>q. q\<lparr>op_release_unknown := True\<rparr>)))
         (thenE (modifyE (map_pos (\<lambda>q. if session_for p session = Some ''AM''
                                       then q\<lparr>op_reserved := min (op_remaining p) (op_remaining q)\<rparr>
                                       else q)))
         (thenE (call_port (PSubmit req) (pe_call E))
         (bindE (observe E) (\<lambda>_. returnE ()))))))))))))"

definition begin_ensure :: "string \<Rightarrow> protection \<Rightarrow> protection" where
  "begin_ensure session =
     map_pos (\<lambda>p. p\<lparr>op_protection_session := Some session,
                    op_target_state := (if session_for p session = Some ''AM'' then ''unknown''
                                        else ''not_applicable'')\<rparr>)"

text \<open>
  What \<open>ensure\<close> does with an existing handle: \<open>True\<close> when it may go on to a new generation.
\<close>

definition renew :: "string \<Rightarrow> handle \<Rightarrow> (protection, bool) eff" where
  "renew session h =
     bindE (getE ps_pos) (\<lambda>p.
       returnE (\<not> op_remaining p \<le> 0 \<and> \<not> (h_quantity h = op_remaining p \<and> h_session h = session)))"

definition release_then_renew :: "port_env \<Rightarrow> string \<Rightarrow> handle \<Rightarrow> (protection, bool) eff" where
  "release_then_renew E session h =
     bindE (release_for_exit E) (\<lambda>ok. if \<not> ok then returnE False else renew session h)"

definition retire_observed ::
  "port_env \<Rightarrow> string \<Rightarrow> protection_read \<Rightarrow> (protection, bool) eff" where
  "retire_observed E session r =
     with_handle (\<lambda>h. bindE (getE ps_pos) (\<lambda>p.
       if \<not> pr_terminal r
       then (if \<not> pr_working r \<or> (h_quantity h = op_remaining p \<and> h_session h = session)
             then returnE False else release_then_renew E session h)
       else renew session h))"

definition retire_existing :: "port_env \<Rightarrow> string \<Rightarrow> (protection, bool) eff" where
  "retire_existing E session =
     with_handle (\<lambda>_. bindE (observe E) (retire_observed E session))"

definition ensure :: "port_env \<Rightarrow> string \<Rightarrow> string \<Rightarrow> (protection, unit) eff" where
  "ensure E broker session =
     bindE (getE id) (\<lambda>s.
       if op_remaining (ps_pos s) \<le> 0
       then (if the_handle s \<noteq> None then bindE (release_for_exit E) (\<lambda>_. returnE ())
             else returnE ())
       else thenE (raise_if (broker \<noteq> ''schwab'' \<and> broker \<noteq> ''webull''
                             \<or> session \<noteq> ''NORMAL'' \<and> session \<noteq> ''AM'' \<and> session \<noteq> ''PM'')
                            (Refusal ''native_session_or_provider_unknown''))
           (thenE (modifyE (begin_ensure session))
           (if the_handle s = None then send_protection E broker session
            else bindE (retire_existing E session)
                   (\<lambda>go. if go then send_protection E broker session else returnE ()))))"

end
