(* ===== verification/ProtectionSpec.thy ===== *)
theory ProtectionSpec
  imports Protection
begin

text \<open>
  What the native protection promises for every sequence of broker answers and port failures:
  the exited quantity stays within the position, every wire call is preceded by its durable
  latch, a new protection is sent only where no earlier one can still be working, and a
  release is reported only on a terminal read.
\<close>

named_theorems prot_simps "projections of the protection state's update functions"

lemma map_pos_simps [prot_simps]:
  "ps_pos (map_pos f s) = f (ps_pos s)"
  "ps_handles (map_pos f s) = ps_handles s"
  "ps_generations (map_pos f s) = ps_generations s"
  "ps_log (map_pos f s) = ps_log s"
  by (simp_all add: map_pos_def)

lemma put_handle_simps [prot_simps]:
  "ps_pos (put_handle h s) = ps_pos s"
  "ps_generations (put_handle h s) = ps_generations s"
  "ps_log (put_handle h s) = ps_log s"
  "the_handle (put_handle h s) = Some h"
  by (simp_all add: put_handle_def the_handle_def map_of_update)

lemma map_handle_simps [prot_simps]:
  "ps_pos (map_handle f s) = ps_pos s"
  "ps_generations (map_handle f s) = ps_generations s"
  "ps_log (map_handle f s) = ps_log s"
  "the_handle (map_handle f s) = map_option f (the_handle s)"
  by (simp_all add: map_handle_def prot_simps split: option.split)

lemma the_handle_map_pos [prot_simps]:
  "op_episode_id (f (ps_pos s)) = op_episode_id (ps_pos s) \<Longrightarrow> the_handle (map_pos f s) = the_handle s"
  by (simp add: the_handle_def map_pos_def)

lemma log_update_simps [prot_simps]:
  "ps_pos (log_call c s) = ps_pos s"
  "the_handle (log_call c s) = the_handle s"
  "ps_log (log_call c s) = ps_log s @ [c]"
  "ps_generations (log_call c s) = ps_generations s"
  "the_handle (s\<lparr>ps_generations := g\<rparr>) = the_handle s"
  by (simp_all add: the_handle_def log_call_def)

lemma observed_position_simps [prot_simps]:
  "op_quantity (observed_position h r p) = op_quantity p"
  "op_exited (observed_position h r p) = max (op_exited p) (dec_value (pr_cumulative_exited r))"
  "op_episode_id (observed_position h r p) = op_episode_id p"
  "op_pending_exit (observed_position h r p) = op_pending_exit p"
  "op_child_ids (observed_position h r p) = pr_child_ids r"
  "op_release_unknown (observed_position h r p) = (\<not> (pr_working r \<or> pr_terminal r))"
  by (simp_all add: observed_position_def Let_def)

lemma begin_observation_simps [prot_simps]:
  "op_quantity (ps_pos (begin_observation h s)) = op_quantity (ps_pos s)"
  "op_exited (ps_pos (begin_observation h s)) = op_exited (ps_pos s)"
  "op_episode_id (ps_pos (begin_observation h s)) = op_episode_id (ps_pos s)"
  "op_pending_exit (ps_pos (begin_observation h s)) = op_pending_exit (ps_pos s)"
  "op_market_session (ps_pos (begin_observation h s)) = op_market_session (ps_pos s)"
  "ps_log (begin_observation h s) = ps_log s"
  "ps_generations (begin_observation h s) = ps_generations s"
  by (simp_all add: begin_observation_def Let_def prot_simps)

lemma the_handle_begin_observation [prot_simps]:
  "\<exists>f. (\<forall>h. h_status (f h) = h_status h \<and> h_base_coid (f h) = h_base_coid h
          \<and> h_quantity (f h) = h_quantity h \<and> h_session (f h) = h_session h)
     \<and> the_handle (begin_observation k s) = map_option f (the_handle s)"
proof (cases "session_for (ps_pos s) (h_session k) = Some ''AM''")
  case True
  then show ?thesis
    by (intro exI[of _ "\<lambda>h. h\<lparr>h_target_state := ''unknown''\<rparr>"])
       (simp add: begin_observation_def Let_def prot_simps)
next
  case False
  then show ?thesis
    by (intro exI[of _ "\<lambda>h. h"]) (simp add: begin_observation_def Let_def prot_simps option.map_ident)
qed

lemma freed_simps [prot_simps]:
  "op_quantity (freed p) = op_quantity p" "op_exited (freed p) = op_exited p"
  "op_episode_id (freed p) = op_episode_id p" "op_remaining (freed p) = op_remaining p"
  by (simp_all add: freed_def op_remaining_def)

section \<open>Exited quantity\<close>

definition exit_within :: "rat \<Rightarrow> rat \<Rightarrow> protection \<Rightarrow> bool" where
  "exit_within q x s \<longleftrightarrow>
     op_quantity (ps_pos s) = q \<and> x \<le> op_exited (ps_pos s) \<and> op_exited (ps_pos s) \<le> q"

lemma keeps_with_handle: "(\<And>h. keeps P (f h)) \<Longrightarrow> keeps P (with_handle f)"
  unfolding with_handle_def by (rule keeps_get_bind) (auto split: option.split)

lemma keeps_port:
  assumes "\<And>s l. P s \<Longrightarrow> P (log_call l s)"
  shows "keeps P (call_read E)" "keeps P (call_save E)" "keeps P (call_cancel E)"
    "keeps P (call_port c g)"
  using assms
  by (auto simp: call_read_def call_save_def call_cancel_def call_port_def intro!: keepsI
      keeps_with_handle)

lemma exit_within_log: "exit_within q x s \<Longrightarrow> exit_within q x (log_call c s)"
  by (simp add: exit_within_def prot_simps)

lemma observe_exit_within: "keeps (exit_within q x) (observe E)"
  unfolding observe_def
proof (intro keeps_with_handle keeps_get_bind)
  fix h s
  assume P: "exit_within q x s"
  have ap: "exit_within q x (apply_read h r t)"
    if "exit_within q x t" "\<not> read_unknown (ps_pos s) h r" for r t
    using that P
    by (auto simp: exit_within_def apply_read_def prot_simps read_unknown_def
        split: decimal.splits)
  show "keeps (exit_within q x) (thenE (raise_if (\<not> check_owner (ps_pos s) h)
         (Refusal ''native_protection_owner_mismatch''))
      (thenE (modifyE (begin_observation h))
      (bindE (call_read E) (\<lambda>r.
       thenE (raise_if (read_unknown (ps_pos s) h r) (Refusal ''native_protection_read_unknown''))
      (thenE (raise_if (h_child_ids h \<noteq> [] \<and> pr_child_ids r \<noteq> h_child_ids h)
                       (Refusal ''native_protection_child_identity_changed''))
      (thenE (modifyE (apply_read h r))
      (thenE (call_save E) (returnE r))))))))"
    by (intro keeps_guard keeps_then keeps_bind keeps_modify keeps_return keeps_port
        exit_within_log ap) (auto simp: exit_within_def prot_simps)
qed

lemmas release_defs = release_for_exit_def release_observed_def cancel_and_confirm_def
  doubt_release_def grant_release_def
lemmas retire_defs = retire_existing_def retire_observed_def release_then_renew_def renew_def

lemma release_exit_within: "keeps (exit_within q x) (release_for_exit E)"
  unfolding release_defs request_cancel_def
  by (intro keeps_get_bind)
     (auto split: option.split intro!: keeps_bind keeps_then keeps_if keeps_return keeps_raise
       keeps_modify keeps_with_handle observe_exit_within keeps_port exit_within_log keeps_get_bind
       simp: exit_within_def prot_simps)

lemma send_exit_within: "keeps (exit_within q x) (send_protection E b ss)"
  unfolding send_protection_def Let_def
  by (intro keeps_get_bind)
     (auto intro!: keeps_bind keeps_then keeps_return keeps_raise_if keeps_modify keeps_port
       observe_exit_within exit_within_log simp: exit_within_def prot_simps)

lemma ensure_exit_within: "keeps (exit_within q x) (ensure E b ss)"
  unfolding ensure_def retire_defs Let_def
  by (intro keeps_get_bind)
     (auto intro!: keeps_bind keeps_then keeps_if keeps_return keeps_raise_if keeps_modify
       keeps_with_handle keeps_get_bind observe_exit_within release_exit_within send_exit_within
       simp: exit_within_def prot_simps begin_ensure_def)

text \<open>
  C18: Whatever the broker answers and whichever port call fails, a release and an ensure keep the
  owned position's quantity, never lower its exited quantity and never raise it above the
  position's quantity: \<open>remaining\<close> stays between zero and what it was.
\<close>

theorem protection_exit_bounds:
  assumes "op_exited (ps_pos s) \<le> op_quantity (ps_pos s)"
    and "release_for_exit E s = (r, t) \<or> ensure E broker session s = (r', t)"
  shows "op_quantity (ps_pos t) = op_quantity (ps_pos s)
    \<and> op_exited (ps_pos s) \<le> op_exited (ps_pos t) \<and> op_exited (ps_pos t) \<le> op_quantity (ps_pos t)"
proof -
  have "exit_within (op_quantity (ps_pos s)) (op_exited (ps_pos s)) s"
    using assms(1) by (simp add: exit_within_def)
  with assms(2) have "exit_within (op_quantity (ps_pos s)) (op_exited (ps_pos s)) t"
    by (auto dest: keepsD[OF release_exit_within] keepsD[OF ensure_exit_within])
  then show ?thesis by (auto simp: exit_within_def)
qed

section \<open>Port calls and their order\<close>

lemma wp_with_handle [wp_simps]:
  "wp (with_handle f) Q R s =
     (case the_handle s of None \<Rightarrow> R KeyError s | Some h \<Rightarrow> wp (f h) Q R s)"
  by (simp add: with_handle_def wp_simps split: option.split)

lemma wp_call_port [wp_simps]:
  "wp (call_port c g) Q R s =
     (case g (length (ps_log s)) of
        Inl e \<Rightarrow> R e (log_call c s)
      | Inr a \<Rightarrow> Q a (log_call c s))"
  by (simp add: wp_def call_port_def split: sum.split)

text \<open>
  The durable latch: a submit directly follows the save of its handle in status
  \<open>submitted_unknown\<close>, a cancel the save of its handle in status \<open>cancel_requested\<close>.
\<close>

fun latched :: "port_call option \<Rightarrow> port_call \<Rightarrow> bool" where
  "latched p (PSubmit req) \<longleftrightarrow>
     (case p of Some (PSave h) \<Rightarrow>
        h_status h = ''submitted_unknown'' \<and> h_base_coid h = or_coid req
        \<and> h_quantity h = or_quantity req \<and> h_account h = or_account req
        \<and> h_symbol h = or_symbol req
      | _ \<Rightarrow> False)"
| "latched p (PCancel h) \<longleftrightarrow>
     (case p of Some (PSave k) \<Rightarrow> k = h \<and> h_status h = ''cancel_requested'' | _ \<Rightarrow> False)"
| "latched p _ \<longleftrightarrow> True"

fun all_latched :: "port_call option \<Rightarrow> port_call list \<Rightarrow> bool" where
  "all_latched p [] \<longleftrightarrow> True"
| "all_latched p (c # cs) \<longleftrightarrow> latched p c \<and> all_latched (Some c) cs"

definition log_latched :: "protection \<Rightarrow> bool" where
  "log_latched s \<longleftrightarrow> all_latched None (ps_log s)"

lemma all_latched_snoc:
  "all_latched p (cs @ [c]) \<longleftrightarrow>
     all_latched p cs \<and> latched (if cs = [] then p else Some (last cs)) c"
  by (induction cs arbitrary: p) auto

lemma log_latched_simps [prot_simps]:
  "log_latched (map_pos f s) = log_latched s"
  "log_latched (map_handle g s) = log_latched s"
  "log_latched (put_handle h s) = log_latched s"
  "log_latched (begin_observation h s) = log_latched s"
  "log_latched (apply_read h r s) = log_latched s"
  "log_latched (s\<lparr>ps_generations := gs\<rparr>) = log_latched s"
  by (simp_all add: log_latched_def prot_simps apply_read_def)

lemma log_latched_snoc:
  "log_latched (log_call c s) \<longleftrightarrow>
     log_latched s \<and> latched (if ps_log s = [] then None else Some (last (ps_log s))) c"
  by (simp add: log_latched_def all_latched_snoc prot_simps)

lemma observe_latched: "keeps log_latched (observe E)"
  unfolding observe_def call_read_def call_save_def
  by (rule keeps_wp)
     (simp add: wp_simps prot_simps log_latched_snoc split: option.split sum.split)

lemma request_cancel_latched: "keeps log_latched (request_cancel E)"
  unfolding request_cancel_def call_cancel_def call_save_def
  by (rule keeps_wp)
     (simp add: wp_simps prot_simps log_latched_snoc split: option.split sum.split)

lemma release_latched: "keeps log_latched (release_for_exit E)"
  unfolding release_defs
  by (intro keeps_get_bind)
     (auto split: option.split intro!: keeps_bind keeps_then keeps_if keeps_return keeps_raise
       keeps_modify observe_latched request_cancel_latched keeps_get_bind simp: prot_simps)

lemma send_latched: "keeps log_latched (send_protection E broker session)"
proof (rule keeps_wp)
  fix s assume L: "log_latched s"
  have obs: "wp (observe E) (\<lambda>_. log_latched) (\<lambda>_. log_latched) u" if "log_latched u" for u
    using wp_keeps[OF observe_latched that] .
  show "wp (send_protection E broker session) (\<lambda>_. log_latched) (\<lambda>_. log_latched) s"
    unfolding send_protection_def Let_def call_save_def wp_bind wp_get id_apply
    by (simp add: wp_simps prot_simps log_latched_snoc L new_handle_def protection_request_def
        split: sum.split) (auto intro!: obs simp: log_latched_snoc prot_simps L)
qed

lemma retire_latched: "keeps log_latched (retire_existing E session)"
  unfolding retire_defs
  by (auto intro!: keeps_bind keeps_if keeps_return keeps_with_handle keeps_get
      observe_latched release_latched)

lemma ensure_latched: "keeps log_latched (ensure E broker session)"
  unfolding ensure_def
  by (intro keeps_get_bind)
     (auto intro!: keeps_bind keeps_then keeps_if keeps_return keeps_raise_if keeps_modify
       retire_latched release_latched send_latched simp: prot_simps begin_ensure_def)


section \<open>Where a new protection may be sent\<close>

fun is_submit :: "port_call \<Rightarrow> bool" where
  "is_submit (PSubmit req) \<longleftrightarrow> True"
| "is_submit _ \<longleftrightarrow> False"

definition wire_submits :: "protection \<Rightarrow> nat" where
  "wire_submits s = length (filter is_submit (ps_log s))"

text \<open>A read after the first \<open>n\<close> port calls reported every native order terminal.\<close>

definition terminal_read :: "port_env \<Rightarrow> nat \<Rightarrow> protection \<Rightarrow> bool" where
  "terminal_read E n s \<longleftrightarrow>
     (\<exists>i h r. n \<le> i \<and> i < length (ps_log s) \<and> ps_log s ! i = PRead h
            \<and> pe_read E i = Inr r \<and> pr_terminal r)"

lemma submits_simps [prot_simps]:
  "wire_submits (map_pos f s) = wire_submits s" "wire_submits (map_handle g s) = wire_submits s"
  "wire_submits (put_handle h s) = wire_submits s" "wire_submits (begin_observation h s) = wire_submits s"
  "wire_submits (apply_read h r s) = wire_submits s" "wire_submits (s\<lparr>ps_generations := gs\<rparr>) = wire_submits s"
  "wire_submits (log_call c s) = wire_submits s + (if is_submit c then 1 else 0)"
  by (simp_all add: wire_submits_def prot_simps apply_read_def)

lemma terminal_read_same [prot_simps]:
  "terminal_read E n (map_pos f s) = terminal_read E n s"
  "terminal_read E n (map_handle g s) = terminal_read E n s"
  "terminal_read E n (put_handle h s) = terminal_read E n s"
  "terminal_read E n (begin_observation h s) = terminal_read E n s"
  "terminal_read E n (apply_read h r s) = terminal_read E n s"
  "terminal_read E n (s\<lparr>ps_generations := gs\<rparr>) = terminal_read E n s"
  by (simp_all add: terminal_read_def prot_simps apply_read_def)

lemma terminal_read_snoc:
  "terminal_read E n (log_call c s) \<longleftrightarrow>
     terminal_read E n s
     \<or> n \<le> length (ps_log s) \<and> (\<exists>h r. c = PRead h \<and> pe_read E (length (ps_log s)) = Inr r \<and> pr_terminal r)"
  unfolding terminal_read_def prot_simps by (force simp: nth_append less_Suc_eq)

text \<open>No submit beyond the \<open>k\<close> so far, and at least \<open>n\<close> port calls made.\<close>

definition quiet :: "nat \<Rightarrow> nat \<Rightarrow> protection \<Rightarrow> bool" where
  "quiet n k s \<longleftrightarrow> n \<le> length (ps_log s) \<and> wire_submits s = k"

lemma quiet_simps [prot_simps]:
  "quiet n k (map_pos f s) = quiet n k s" "quiet n k (map_handle g s) = quiet n k s"
  "quiet n k (put_handle h s) = quiet n k s" "quiet n k (begin_observation h s) = quiet n k s"
  "quiet n k (apply_read h r s) = quiet n k s" "quiet n k (s\<lparr>ps_generations := gs\<rparr>) = quiet n k s"
  by (simp_all add: quiet_def prot_simps apply_read_def)

lemma quiet_log: "quiet n k s \<Longrightarrow> \<not> is_submit c \<Longrightarrow> quiet n k (log_call c s)"
  by (simp add: quiet_def prot_simps)

lemma observe_quiet:
  "quiet n k s \<Longrightarrow>
   wp (observe E) (\<lambda>r t. quiet n k t \<and> (pr_terminal r \<longrightarrow> terminal_read E n t)) (\<lambda>_. quiet n k) s"
  unfolding observe_def call_read_def call_save_def
  by (auto simp: wp_simps prot_simps quiet_log split: option.split sum.split)
     (simp_all add: terminal_read_snoc prot_simps quiet_def)

lemma request_cancel_quiet: "quiet n k s \<Longrightarrow> wp (request_cancel E) (\<lambda>_. quiet n k) (\<lambda>_. quiet n k) s"
  unfolding request_cancel_def call_cancel_def call_save_def
  by (auto simp: wp_simps prot_simps quiet_log split: option.split sum.split)

abbreviation quiet_yes :: "port_env \<Rightarrow> nat \<Rightarrow> nat \<Rightarrow> bool \<Rightarrow> protection \<Rightarrow> bool" where
  "quiet_yes E n k \<equiv> \<lambda>ok t. quiet n k t \<and> (ok \<longrightarrow> terminal_read E n t)"

lemma cancel_and_confirm_quiet:
  "quiet n k s \<Longrightarrow> wp (cancel_and_confirm E) (quiet_yes E n k) (\<lambda>_. quiet n k) s"
  unfolding cancel_and_confirm_def
  by (rule wp_thenI[OF request_cancel_quiet], assumption, rule wp_bindI[OF observe_quiet], assumption)
     (simp add: wp_simps prot_simps doubt_release_def grant_release_def)

lemma release_observed_quiet:
  assumes "quiet n k s" "pr_terminal r \<longrightarrow> terminal_read E n s"
  shows "wp (release_observed E r) (quiet_yes E n k) (\<lambda>_. quiet n k) s"
  using assms cancel_and_confirm_quiet[OF assms(1)]
  by (simp add: release_observed_def wp_simps prot_simps doubt_release_def grant_release_def)

lemma release_quiet:
  assumes "quiet n k s"
  shows "wp (release_for_exit E)
    (\<lambda>ok t. quiet n k t \<and> (ok \<and> the_handle s \<noteq> None \<longrightarrow> terminal_read E n t)) (\<lambda>_. quiet n k) s"
proof (cases "the_handle s")
  case None
  then show ?thesis using assms by (simp add: release_for_exit_def wp_simps)
next
  case (Some h)
  then show ?thesis
    using wp_bindI[OF observe_quiet[OF assms] release_observed_quiet]
    by (simp add: release_for_exit_def wp_bind[of "getE id"] wp_get)
qed

text \<open>After a release that says yes nothing of the position is reserved by a native order.\<close>

definition all_free :: "owned_position \<Rightarrow> bool" where
  "all_free p \<longleftrightarrow> op_reserved p = 0 \<and> op_child_ids p = [] \<and> \<not> op_release_unknown p"

lemma release_observed_frees:
  "wp (release_observed E r) (\<lambda>ok t. ok \<longrightarrow> all_free (ps_pos t)) (\<lambda>_ _. True) s"
proof -
  have grant: "wp grant_release (\<lambda>ok t. ok \<longrightarrow> all_free (ps_pos t)) (\<lambda>_ _. True) u" for u
    by (simp add: grant_release_def wp_simps prot_simps all_free_def freed_def)
  have doubt: "wp doubt_release (\<lambda>ok t. ok \<longrightarrow> all_free (ps_pos t)) (\<lambda>_ _. True) u" for u
    by (simp add: doubt_release_def wp_simps)
  have "wp (cancel_and_confirm E) (\<lambda>ok t. ok \<longrightarrow> all_free (ps_pos t)) (\<lambda>_ _. True) u" for u
    unfolding cancel_and_confirm_def
    by (rule wp_thenI[OF wp_top], rule wp_bindI[OF wp_top]) (simp add: wp_if grant doubt)
  then show ?thesis
    by (simp add: release_observed_def wp_if wp_bind[of "getE f" for f] wp_get grant doubt)
qed

lemma release_frees:
  "wp (release_for_exit E) (\<lambda>ok t. ok \<longrightarrow> all_free (ps_pos t)) (\<lambda>_ _. True) s"
proof (cases "the_handle s")
  case None
  then show ?thesis by (simp add: release_for_exit_def wp_simps all_free_def)
next
  case (Some h)
  then show ?thesis
    using wp_bindI[OF wp_top release_observed_frees]
    by (simp add: release_for_exit_def wp_bind[of "getE id"] wp_get)
qed

text \<open>
  C21: An honest release: \<open>release_for_exit\<close> answers yes only with nothing reserved, no
  native child and no open doubt left on the position, and, where a handle existed, only after a
  broker read made during this call that reported every native order terminal. So the software
  exit that follows cannot compete with a native order for the same shares.
\<close>

theorem release_yes_terminal:
  assumes "release_for_exit E s = (Inr True, t)"
  shows "op_reserved (ps_pos t) = 0 \<and> op_child_ids (ps_pos t) = [] \<and> \<not> op_release_unknown (ps_pos t)
    \<and> (the_handle s = None \<or> terminal_read E (length (ps_log s)) t)"
proof -
  have "quiet (length (ps_log s)) (wire_submits s) s" by (simp add: quiet_def)
  from wpD_Inr[OF release_quiet[OF this] assms]
  have "the_handle s = None \<or> terminal_read E (length (ps_log s)) t" by auto
  moreover have "all_free (ps_pos t)" using wpD_Inr[OF release_frees assms] by simp
  ultimately show ?thesis by (simp add: all_free_def)
qed

lemma renew_quiet:
  "quiet n k s \<Longrightarrow> terminal_read E n s \<Longrightarrow> wp (renew session h) (quiet_yes E n k) (\<lambda>_. quiet n k) s"
  by (simp add: renew_def wp_simps)

lemma release_then_renew_quiet:
  assumes "quiet n k s" "the_handle s \<noteq> None"
  shows "wp (release_then_renew E session h) (quiet_yes E n k) (\<lambda>_. quiet n k) s"
  unfolding release_then_renew_def
  by (rule wp_bindI[OF release_quiet[OF assms(1)]])
     (use assms(2) in \<open>auto simp: wp_if wp_return intro!: renew_quiet\<close>)

lemma retire_observed_quiet:
  assumes "quiet n k s" "pr_terminal r \<longrightarrow> terminal_read E n s"
  shows "wp (retire_observed E session r) (quiet_yes E n k) (\<lambda>_. quiet n k) s"
  unfolding retire_observed_def
  using assms
  by (auto simp: wp_with_handle wp_if wp_bind[of "getE f" for f] wp_get wp_return
      split: option.split intro!: release_then_renew_quiet renew_quiet)

lemma retire_quiet:
  assumes "quiet n k s"
  shows "wp (retire_existing E session) (quiet_yes E n k) (\<lambda>_. quiet n k) s"
  unfolding retire_existing_def
  by (auto simp: wp_with_handle split: option.split
      intro!: wp_bindI[OF observe_quiet[OF assms]] retire_observed_quiet assms)

text \<open>At most one submit beyond the \<open>k\<close> so far, and one only with \<open>P\<close>.\<close>

definition one_more :: "bool \<Rightarrow> port_env \<Rightarrow> nat \<Rightarrow> nat \<Rightarrow> protection \<Rightarrow> bool" where
  "one_more fresh E n k s \<longleftrightarrow>
     wire_submits s = k \<or> wire_submits s = Suc k \<and> (fresh \<or> terminal_read E n s)"

lemma quiet_one_more: "quiet n k s \<Longrightarrow> one_more fresh E n k s"
  by (simp add: quiet_def one_more_def)

lemma observe_one_more: "keeps (one_more fresh E n k) (observe E)"
  unfolding observe_def call_read_def call_save_def
  by (rule keeps_wp)
     (auto simp: wp_simps prot_simps one_more_def terminal_read_snoc split: option.split sum.split)

lemma observe_one_more_wp:
  "one_more fresh E n k u \<Longrightarrow>
   wp (observe E) (\<lambda>_. one_more fresh E n k) (\<lambda>_. one_more fresh E n k) u"
  by (rule wp_keeps[OF observe_one_more])

lemma send_one_more:
  assumes "quiet n k s" "fresh \<or> terminal_read E n s"
  shows "wp (send_protection E broker session) (\<lambda>_. one_more fresh E n k) (\<lambda>_. one_more fresh E n k) s"
  unfolding send_protection_def Let_def call_save_def wp_bind wp_get id_apply
  using assms
  by (auto simp: wp_simps prot_simps quiet_def terminal_read_snoc
      split: sum.split intro!: observe_one_more_wp)
     (auto simp: one_more_def prot_simps terminal_read_snoc)

lemma ensure_one_more:
  assumes "quiet n k s"
  shows "wp (ensure E broker session) (\<lambda>_. one_more (the_handle s = None) E n k)
           (\<lambda>_. one_more (the_handle s = None) E n k) s"
proof -
  let ?R = "one_more (the_handle s = None) E n k"
  let ?b = "begin_ensure session s"
  have b: "quiet n k ?b" using assms by (simp add: begin_ensure_def prot_simps)
  have release: "wp (bindE (release_for_exit E) (\<lambda>_. returnE ())) (\<lambda>_. ?R) (\<lambda>_. ?R) s"
    by (rule wp_mono[OF wp_bindI[OF release_quiet[OF assms]], where Q = "\<lambda>_. quiet n k"])
       (auto simp: wp_simps intro: quiet_one_more)
  have send: "wp (if go then send_protection E broker session else returnE ()) (\<lambda>_. ?R) (\<lambda>_. ?R) u"
    if "quiet n k u" "go \<longrightarrow> the_handle s = None \<or> terminal_read E n u" for go u
    using that by (auto simp: wp_if wp_return intro: send_one_more quiet_one_more)
  have retire: "wp (bindE (retire_existing E session)
      (\<lambda>go. if go then send_protection E broker session else returnE ())) (\<lambda>_. ?R) (\<lambda>_. ?R) ?b"
    unfolding wp_bind
    by (rule wp_mono[OF retire_quiet[OF b]]) (blast intro: send quiet_one_more)+
  show ?thesis
    unfolding ensure_def
    using release retire send[OF b, of True] quiet_one_more[OF assms]
    by (cases "the_handle s") (simp_all add: wp_bind[of "getE id"] wp_get wp_if wp_then wp_raise_if wp_modify wp_return)
qed

text \<open>
  One protection at a time: an ensure submits at most one order however the ports answer or
  fail, and where the episode already had a protection it submits only after a read made in
  this call that reported the earlier orders terminal.
\<close>

theorem ensure_submits_once:
  assumes "ensure E broker session s = (r, t)"
  shows "wire_submits t \<le> wire_submits s + 1
    \<and> (wire_submits t = wire_submits s \<or> the_handle s = None \<or> terminal_read E (length (ps_log s)) t)"
proof -
  have "quiet (length (ps_log s)) (wire_submits s) s" by (simp add: quiet_def)
  from wpD_both[OF ensure_one_more[OF this] assms] show ?thesis by (auto simp: one_more_def)
qed

section \<open>Identities and prices\<close>

text \<open>
  Each protection order has an identity of its own: two generations of one position never
  share a client order id.
\<close>

theorem protection_identity_fresh:
  assumes "0 \<le> g" "0 \<le> g'" "protection_base p g = protection_base p g'"
  shows "g = g'"
  using assms by (auto simp: protection_base_def dest: show_int_inj)

text \<open>
  The bracket encloses the entry: for a positive entry price the stop is on the tick grid,
  at most ninety percent of the entry and within one tick of it, and the
  target is on the grid, above the entry and within one tick of 105 percent of it; both are what
  the submitted metadata carries in a regular session.
\<close>

theorem protection_bracket:
  assumes "0 < op_entry_price p"
  shows "protection_stop p \<le> op_entry_price p * (90 / 100)
    \<and> op_entry_price p * (90 / 100) - protection_tick p < protection_stop p
    \<and> op_entry_price p * (105 / 100) \<le> protection_target p
    \<and> protection_target p < op_entry_price p * (105 / 100) + protection_tick p
    \<and> protection_stop p < op_entry_price p \<and> op_entry_price p < protection_target p
    \<and> (\<exists>i. protection_stop p = of_int i * protection_tick p)
    \<and> (\<exists>i. protection_target p = of_int i * protection_tick p)
    \<and> meta_decimal (protection_metadata p b ''NORMAL'') ''bracket_stop_price''
        = Inr (Fin (protection_stop p))
    \<and> meta_decimal (protection_metadata p b ''NORMAL'') ''bracket_target_price''
        = Inr (Fin (protection_target p))"
proof -
  have t: "0 < protection_tick p" by (simp add: protection_tick_def)
  have stop: "protection_stop p = floor_to (protection_tick p) (op_entry_price p * (90 / 100))"
    by (simp only: protection_stop_def stop_loss_level_def STOP_LOSS_MULTIPLIER_def)
  have grid: "(\<exists>i. protection_stop p = of_int i * protection_tick p)
      \<and> (\<exists>i. protection_target p = of_int i * protection_tick p)"
    by (auto simp only: protection_stop_def protection_target_def ceil_to_def floor_to_def)
  have meta: "meta_decimal (protection_metadata p b ''NORMAL'') ''bracket_stop_price''
        = Inr (Fin (protection_stop p))
      \<and> meta_decimal (protection_metadata p b ''NORMAL'') ''bracket_target_price''
        = Inr (Fin (protection_target p))"
    by (simp add: meta_decimal_def protection_metadata_def)
  show ?thesis
    using floor_to_le[OF t, of "op_entry_price p * (90 / 100)"]
      floor_to_greater[OF t, of "op_entry_price p * (90 / 100)"]
      ceil_to_ge[OF t, of "op_entry_price p * (105 / 100)"]
      ceil_to_less[OF t, of "op_entry_price p * (105 / 100)"] grid meta assms
    unfolding stop protection_target_def by (intro conjI) (assumption | linarith | blast)+
qed

section \<open>The contracts on a concrete run\<close>

definition demo_read :: "bool \<Rightarrow> protection_read" where
  "demo_read terminal =
     \<lparr>pr_episode_id = ''e1'', pr_account = ''live:w'', pr_entry_order_id = ''o1'',
      pr_base_coid = ''ml1-ABC-p-e1-1'', pr_child_ids = [''c''], pr_working = \<not> terminal,
      pr_terminal = terminal, pr_cumulative_exited = Fin 5\<rparr>"

definition demo_env :: "bool \<Rightarrow> port_env" where
  "demo_env terminal = \<lparr>pe_read = (\<lambda>_. Inr (demo_read terminal)), pe_call = (\<lambda>_. Inr ())\<rparr>"

definition demo_unprotected :: protection where
  "demo_unprotected = \<lparr>ps_pos = demo_position, ps_handles = [], ps_generations = [], ps_log = []\<rparr>"

definition demo_protected :: protection where
  "demo_protected = demo_unprotected
     \<lparr>ps_handles := [(''e1'', (new_handle demo_position ''ml1-ABC-p-e1-1'' ''NORMAL'')
                               \<lparr>h_status := ''working''\<rparr>)]\<rparr>"

lemma demo_ensure_run:
  "fst (ensure (demo_env False) ''schwab'' ''NORMAL'' demo_unprotected) = Inr ()"
  "wire_submits (snd (ensure (demo_env False) ''schwab'' ''NORMAL'' demo_unprotected)) = 1"
  by code_simp+

lemma demo_release_run:
  "fst (release_for_exit (demo_env True) demo_protected) = Inr True"
  "op_exited (ps_pos (snd (release_for_exit (demo_env True) demo_protected))) = 5"
  by code_simp+

lemma demo_start:
  "op_exited (ps_pos demo_unprotected) \<le> op_quantity (ps_pos demo_unprotected)"
  "ps_log demo_unprotected = []" "wire_submits demo_unprotected = 0"
  "ps_log demo_protected = []" "the_handle demo_protected \<noteq> None"
  by code_simp+

theorem protection_exit_bounds_witness:
  "op_exited (ps_pos (snd (ensure (demo_env False) ''schwab'' ''NORMAL'' demo_unprotected)))
   \<le> op_quantity (ps_pos (snd (ensure (demo_env False) ''schwab'' ''NORMAL'' demo_unprotected)))"
  using protection_exit_bounds[OF demo_start(1) disjI2[OF surjective_pairing]] by blast


theorem release_yes_terminal_witness:
  "op_reserved (ps_pos (snd (release_for_exit (demo_env True) demo_protected))) = 0
   \<and> terminal_read (demo_env True) 0 (snd (release_for_exit (demo_env True) demo_protected))"
proof -
  have "release_for_exit (demo_env True) demo_protected
        = (Inr True, snd (release_for_exit (demo_env True) demo_protected))"
    by (simp add: prod_eq_iff demo_release_run)
  from release_yes_terminal[OF this] show ?thesis by (simp add: demo_start)
qed

theorem ensure_submits_once_witness:
  "wire_submits (snd (ensure (demo_env False) ''schwab'' ''NORMAL'' demo_unprotected)) \<le> 1
   \<and> wire_submits (snd (ensure (demo_env False) ''schwab'' ''NORMAL'' demo_unprotected)) \<noteq> 0"
  using ensure_submits_once[OF surjective_pairing, of "demo_env False" "''schwab''" "''NORMAL''" demo_unprotected]
  by (simp add: demo_start demo_ensure_run)

theorem protection_identity_fresh_witness:
  "protection_base demo_position 1 \<noteq> protection_base demo_position 2"
  using protection_identity_fresh[of 1 2 demo_position] by auto

theorem protection_bracket_witness:
  "protection_stop demo_position \<le> 9 / 2 \<and> 21 / 4 \<le> protection_target demo_position"
  using protection_bracket[of demo_position "''schwab''"] by (simp add: demo_position_def)

end
