(* ===== verification/EntryGuards.thy ===== *)
theory EntryGuards
  imports Orders Admission
begin

text \<open>
  The pure guards around a live entry order: \<open>buy_price_floor.py\<close> (the one-dollar floor),
  \<open>momentum_live/entry_reprice.py\<close> (what may change in a sealed unsent order) and
  \<open>momentum_live/entry_wire.py\<close> (the capability that decides, at the transport, whether an entry
  may still be sent, and the proof that it was not).
\<close>

section \<open>Price floor\<close>

definition MINIMUM_BUY_PRICE :: rat where
  "MINIMUM_BUY_PRICE = 1"

text \<open>The price as given: a decimal, a text that spells none, or nothing.\<close>

definition buy_price_allowed :: "meta option \<Rightarrow> string \<Rightarrow> bool" where
  "buy_price_allowed price side \<longleftrightarrow>
     side \<noteq> ''buy''
     \<or> (case price of Some (MDec (Fin v)) \<Rightarrow> v \<ge> MINIMUM_BUY_PRICE | _ \<Rightarrow> False)"

abbreviation price_allowed :: "decimal \<Rightarrow> bool" where
  "price_allowed d \<equiv> buy_price_allowed (Some (MDec d)) ''buy''"

lemma price_allowed_iff [simp]: "price_allowed d \<longleftrightarrow> (\<exists>v. d = Fin v \<and> 1 \<le> v)"
  by (cases d) (simp_all add: buy_price_allowed_def MINIMUM_BUY_PRICE_def)

section \<open>Repricing an unsent entry\<close>

definition PRICE_FIELDS :: "string list" where
  "PRICE_FIELDS = [''limit_price'', ''reference_price'']"

definition MAX_PRICE_UPDATES :: nat where
  "MAX_PRICE_UPDATES = 2"

text \<open>Equality of Python dictionaries ignores their order.\<close>

definition dict_eq :: "('k, 'v) dict \<Rightarrow> ('k, 'v) dict \<Rightarrow> bool" where
  "dict_eq d e \<longleftrightarrow> (\<forall>k \<in> set (map fst d @ map fst e). map_of d k = map_of e k)"

definition request_eq :: "order_request \<Rightarrow> order_request \<Rightarrow> bool" where
  "request_eq a b \<longleftrightarrow>
     a\<lparr>or_metadata := []\<rparr> = b\<lparr>or_metadata := []\<rparr> \<and> dict_eq (or_metadata a) (or_metadata b)"

text \<open>The last condition of \<open>_validate_entry_shape\<close>, negated: the order may be sent as it is.\<close>

definition wire_invariants :: "order_request \<Rightarrow> order_request \<Rightarrow> route \<Rightarrow> bool" where
  "wire_invariants prev cur rt \<longleftrightarrow>
     (case (meta_decimal (or_metadata cur) ''limit_price'', meta_decimal (or_metadata cur) ''cap_price'',
            meta_decimal (or_metadata cur) ''signal_price'') of
        (Inr (Fin limit), Inr (Fin cap), Inr (Fin sig)) \<Rightarrow>
          or_side cur = ''buy'' \<and> or_intent cur = ''open'' \<and> or_order_type cur = ''limit''
          \<and> or_tif cur = ''day'' \<and> map_of (or_metadata cur) ''momlive_one_shot'' = Some (MText ''true'')
          \<and> 0 < limit \<and> limit \<le> cap \<and> cap = sig * (1015 / 1000)
          \<and> floor_to (if limit \<le> 1 then 1 / 10000 else 1 / 100) limit = limit
          \<and> meta_decimal (or_metadata cur) ''reference_price'' = Inr (Fin limit)
          \<and> or_quantity cur = of_int (whole_shares 100 limit)
          \<and> \<not> (rt = WEBULL \<and> limit < 1 \<and> or_quantity cur < 100)
          \<and> map_of (or_metadata prev) ''bot_control_permit'' = None
          \<and> map_of (or_metadata cur) ''bot_control_permit'' = None
      | _ \<Rightarrow> False)"

definition validate_entry_shape :: "order_request \<Rightarrow> order_request \<Rightarrow> route \<Rightarrow> unit result" where
  "validate_entry_shape prev cur rt =
     (case (map_of (or_metadata cur) ''limit_price'', map_of (or_metadata cur) ''reference_price'') of
        (Some l, Some r) \<Rightarrow>
          if \<not> request_eq (prev\<lparr>or_quantity := or_quantity cur,
                                or_metadata := AList.update ''reference_price'' r
                                                 (AList.update ''limit_price'' l (or_metadata prev))\<rparr>) cur
          then Inl (Refusal ''mombuffer1_sealed_entry_changed'')
          else if \<not> wire_invariants prev cur rt
          then Inl (Refusal ''mombuffer1_wire_invariants_invalid'')
          else Inr ()
      | _ \<Rightarrow> Inl (Refusal ''mombuffer1_wire_invariants_invalid''))"

definition limit_of :: "order_request \<Rightarrow> rat result" where
  "limit_of r =
     (case meta_decimal (or_metadata r) ''limit_price'' of
        Inl e \<Rightarrow> Inl e | Inr (Fin x) \<Rightarrow> Inr x | Inr _ \<Rightarrow> Inl ArithmeticError)"

definition both_limits ::
  "order_request \<Rightarrow> order_request \<Rightarrow> route \<Rightarrow> (rat \<Rightarrow> rat \<Rightarrow> 'a result) \<Rightarrow> 'a result" where
  "both_limits prev cur rt f =
     (case validate_entry_shape prev prev rt of
        Inl e \<Rightarrow> Inl e
      | Inr _ \<Rightarrow>
          (case validate_entry_shape prev cur rt of
             Inl e \<Rightarrow> Inl e
           | Inr _ \<Rightarrow>
               (case limit_of cur of
                  Inl e \<Rightarrow> Inl e
                | Inr c \<Rightarrow> (case limit_of prev of Inl e \<Rightarrow> Inl e | Inr p \<Rightarrow> f p c))))"

definition validate_entry_reprice :: "order_request \<Rightarrow> order_request \<Rightarrow> route \<Rightarrow> unit result" where
  "validate_entry_reprice prev cur rt =
     both_limits prev cur rt (\<lambda>p c.
       if c < p then Inl (Refusal ''mombuffer1_downward_reprice_not_allowed'') else Inr ())"

definition marketable_entry :: "order_request \<Rightarrow> order_request \<Rightarrow> route \<Rightarrow> order_request result" where
  "marketable_entry prev fresh rt =
     both_limits prev fresh rt (\<lambda>p c. if c \<le> p then Inr prev else Inr fresh)"

definition price_changed :: "order_request \<Rightarrow> order_request \<Rightarrow> bool" where
  "price_changed prev cur \<longleftrightarrow>
     or_quantity prev \<noteq> or_quantity cur
     \<or> list_ex (\<lambda>k. map_of (or_metadata prev) k \<noteq> map_of (or_metadata cur) k) PRICE_FIELDS"

section \<open>The wire capability\<close>

text \<open>
  A wire attempt binds one request object to the task that created it. The proofs it has issued
  are kept in order: only the last is the attempt's current one. Object identity and the running
  task are numbers.
\<close>

record no_dispatch_proof =
  np_reason :: string
  np_permit :: "meta option"
  np_used :: bool

record wire_attempt =
  wa_object :: nat
  wa_request :: order_request
  wa_sealed :: order_request
  wa_task :: nat
  wa_dispatched :: bool
  wa_proofs :: "no_dispatch_proof list"

definition new_attempt :: "nat \<Rightarrow> order_request \<Rightarrow> nat \<Rightarrow> wire_attempt" where
  "new_attempt obj req task =
     \<lparr>wa_object = obj, wa_request = req, wa_sealed = req, wa_task = task, wa_dispatched = False,
      wa_proofs = []\<rparr>"

definition wa_proof :: "wire_attempt \<Rightarrow> no_dispatch_proof option" where
  "wa_proof a = (if wa_proofs a = [] then None else Some (last (wa_proofs a)))"

definition without_permit :: "order_request \<Rightarrow> order_request" where
  "without_permit r = r\<lparr>or_metadata := AList.delete ''bot_control_permit'' (or_metadata r)\<rparr>"

text \<open>
  \<open>_WireAttempt.check\<close> after \<open>validate()\<close>: the serialized quantity, limit and symbol against the
  bound request, \<open>None\<close> being a value no decimal can be read from.
\<close>

definition wire_matches :: "wire_attempt \<Rightarrow> rat option \<Rightarrow> rat option \<Rightarrow> string \<Rightarrow> bool" where
  "wire_matches a quantity limit y \<longleftrightarrow>
     quantity = Some (or_quantity (wa_request a))
     \<and> (case limit_of (wa_request a) of Inr l \<Rightarrow> limit = Some l | Inl _ \<Rightarrow> False)
     \<and> y = or_symbol (wa_request a)"

definition wire_refuse :: "wire_attempt \<Rightarrow> py_error \<Rightarrow> unit result \<times> wire_attempt" where
  "wire_refuse a e =
     (if wa_dispatched a then (Inl e, a)
      else (Inl (LocalEntryNoDispatch (error_text e)),
            a\<lparr>wa_proofs := wa_proofs a @ [\<lparr>np_reason = error_text e,
                  np_permit = map_of (or_metadata (wa_request a)) ''bot_control_permit'',
                  np_used = False\<rparr>]\<rparr>))"

definition wire_check ::
  "unit result \<Rightarrow> rat option \<Rightarrow> rat option \<Rightarrow> string \<Rightarrow> wire_attempt \<Rightarrow> unit result \<times> wire_attempt" where
  "wire_check validated quantity limit y a =
     (case validated of
        Inl e \<Rightarrow> if is_runtime_error e then wire_refuse a e else (Inl e, a)
      | Inr _ \<Rightarrow>
          if wire_matches a quantity limit y then (Inr (), a)
          else wire_refuse a (RuntimeError ''mombuffer1_serialized_wire_changed_no_dispatch''))"

definition before_transport :: "wire_attempt \<Rightarrow> unit result \<times> wire_attempt" where
  "before_transport a =
     (if wa_proof a \<noteq> None then (Inl (RuntimeError ''mombuffer1_refused_attempt_cannot_dispatch''), a)
      else (Inr (), a\<lparr>wa_dispatched := True\<rparr>))"

text \<open>\<open>_NoDispatchProof.consume\<close> of the attempt's \<open>k\<close>-th proof, by a task, with a request object.\<close>

definition consume_proof ::
  "nat \<Rightarrow> nat \<Rightarrow> nat \<Rightarrow> order_request \<Rightarrow> wire_attempt \<Rightarrow> meta option result \<times> wire_attempt" where
  "consume_proof k task obj req a =
     (if k < length (wa_proofs a)
      then let p = wa_proofs a ! k
           in if np_used p \<or> wa_dispatched a \<or> Suc k \<noteq> length (wa_proofs a) \<or> task \<noteq> wa_task a
                 \<or> obj \<noteq> wa_object a
                 \<or> map_of (or_metadata req) ''bot_control_permit'' \<noteq> np_permit p
                 \<or> \<not> request_eq (without_permit req) (wa_sealed a)
              then (Inl (RuntimeError ''mombuffer1_no_dispatch_proof_invalid''), a)
              else (Inr (np_permit p), a\<lparr>wa_proofs := (wa_proofs a)[k := p\<lparr>np_used := True\<rparr>]\<rparr>)
      else (Inl TypeError, a))"

text \<open>\<open>entry_wire_guard\<close>: the bound attempt of this context for this request; \<open>task\<close> is \<open>None\<close>
  outside an event loop.\<close>

definition entry_wire_guard ::
  "wire_attempt option \<Rightarrow> nat option \<Rightarrow> nat \<Rightarrow> order_request \<Rightarrow> wire_attempt option result" where
  "entry_wire_guard bound task obj req =
     (case (task, bound) of
        (Some tk, Some a) \<Rightarrow>
          if wa_object a \<noteq> obj then
            (if or_coid req = or_coid (wa_request a) \<and> or_account req = or_account (wa_request a)
                \<and> or_strategy req = or_strategy (wa_request a)
             then Inl (RuntimeError ''mombuffer1_bound_entry_object_changed'') else Inr None)
          else if wa_task a \<noteq> tk then Inl (RuntimeError ''mombuffer1_bound_entry_task_changed'')
          else if or_strategy req \<noteq> STRATEGY_CODE \<or> or_side req \<noteq> ''buy'' \<or> or_intent req \<noteq> ''open''
                  \<or> map_of (or_metadata req) ''momlive_one_shot'' \<noteq> Some (MText ''true'')
          then Inr None
          else Inr (Some a)
      | _ \<Rightarrow> Inr None)"

definition entry_wire_active :: "wire_attempt option \<Rightarrow> nat option \<Rightarrow> bool result" where
  "entry_wire_active bound task =
     (case bound of
        None \<Rightarrow> Inr False
      | Some a \<Rightarrow>
          (case entry_wire_guard bound task (wa_object a) (wa_request a) of
             Inl e \<Rightarrow> Inl e | Inr g \<Rightarrow> Inr (g \<noteq> None)))"

definition validate_entry_wire ::
  "wire_attempt option \<Rightarrow> nat option \<Rightarrow> unit result \<Rightarrow> rat option \<Rightarrow> rat option \<Rightarrow> string
   \<Rightarrow> unit result \<times> wire_attempt option" where
  "validate_entry_wire bound task validated quantity limit y =
     (case bound of
        None \<Rightarrow> (Inr (), None)
      | Some a \<Rightarrow>
          (case entry_wire_guard bound task (wa_object a) (wa_request a) of
             Inl e \<Rightarrow> (Inl e, bound)
           | Inr None \<Rightarrow> (Inr (), bound)
           | Inr (Some _) \<Rightarrow>
               (case wire_check validated quantity limit y a of (r, a') \<Rightarrow> (r, Some a'))))"

end
