(* ===== verification/Execution.thy ===== *)
theory Execution
  imports EntryGuards
begin

text \<open>
  \<open>momentum_live/execution.py\<close>: the entry worker. The ports are calls in a log whose outcomes the
  environment chooses by position, as in the native protection; the broker adapter behind
  \<open>submit\<close> may call the wire capability in any order before it answers.
\<close>

section \<open>Ports\<close>

record clock_reading =
  ck_ns :: int
  ck_date :: string
  ck_weekday :: int
  ck_hour :: int
  ck_minute :: int

text \<open>A cached quote: the ask as it was stored, and the time stamp when it is an aware datetime.\<close>

record live_quote =
  lq_ask :: "meta option"
  lq_received_ns :: "int option"

datatype exec_call =
    XClock
  | XQuote string
  | XRouteFor string
  | XForeignOwner string string
  | XDurableClaim row string string
  | XSaveEpisode row
  | XQuoteOwner
  | XWaitQuote string
  | XDurableOrder string order_request string
  | XReprice order_request order_request "row option"
  | XMarkRefused order_request string
  | XRefuseUnsent order_request string
  | XSubmit order_request
  | XRefuseLocal order_request string
  | XRecord order_request
  | XRecordRoute string string string

text \<open>What the adapter does to the bound attempt inside \<open>submit\<close>.\<close>

datatype wire_op =
    WPermit meta
  | WCheck "rat option" "rat option" string
  | WDispatch

record exec_env =
  xe_clock :: "nat \<Rightarrow> clock_reading"
  xe_quote :: "nat \<Rightarrow> live_quote"
  xe_route :: "nat \<Rightarrow> (string option \<times> string) result"
  xe_call :: "nat \<Rightarrow> unit result"
  xe_flag :: "nat \<Rightarrow> bool result"
  xe_wire :: "nat \<Rightarrow> wire_op list"
  xe_reports :: "nat \<Rightarrow> execution_report list result"
  xe_attempt_id :: "nat \<Rightarrow> string"

definition entry_coid :: "signal \<Rightarrow> string \<Rightarrow> string" where
  "entry_coid sig i =
     ''ml1-'' @ sig_symbol sig @ ''-e-'' @ take 20 (filter (\<lambda>c. c \<noteq> CHR ''-'') i)"

record exec_config =
  xc_schwab_account :: string
  xc_webull_account :: string
  xc_quote_owner :: bool
  xc_wait_quote :: bool
  xc_refuse_unsent :: bool
  xc_reprice :: bool
  xc_refuse_local :: bool
  xc_mark_refused :: bool
  xc_metadata :: "signal \<Rightarrow> metadata"

record exec_state =
  xs_book :: ledger
  xs_log :: "exec_call list"
  xs_request :: order_request
  xs_price_updates :: nat
  xs_attempt :: "wire_attempt option"
  xs_schwab_refusals :: int

definition xlog :: "exec_call \<Rightarrow> exec_state \<Rightarrow> exec_state" where
  "xlog c s = s\<lparr>xs_log := xs_log s @ [c]\<rparr>"

definition xcall :: "exec_call \<Rightarrow> (nat \<Rightarrow> 'a) \<Rightarrow> (exec_state, 'a) eff" where
  "xcall c outcome =
     (\<lambda>s. (Inr (outcome (length (xs_log s))), xlog c s))"

definition xtry :: "exec_call \<Rightarrow> (nat \<Rightarrow> 'a result) \<Rightarrow> (exec_state, 'a) eff" where
  "xtry c outcome =
     (\<lambda>s. (outcome (length (xs_log s)), xlog c s))"

text \<open>A ledger operation that may refuse.\<close>

definition on_book :: "(ledger \<Rightarrow> ledger result) \<Rightarrow> (exec_state, unit) eff" where
  "on_book f =
     (\<lambda>s. case f (xs_book s) of Inl e \<Rightarrow> (Inl e, s) | Inr L \<Rightarrow> (Inr (), s\<lparr>xs_book := L\<rparr>))"

text \<open>\<open>_snapshot\<close>: the row of one episode, \<open>StopIteration\<close> when there is none.\<close>

definition row_for :: "string \<Rightarrow> (exec_state, row) eff" where
  "row_for i =
     bindE (getE xs_book) (\<lambda>L.
       case find (\<lambda>r. r_id r = i) (snapshot L) of
         None \<Rightarrow> raiseE (OtherError ''StopIteration'') | Some r \<Rightarrow> returnE r)"

definition save_row :: "exec_env \<Rightarrow> string \<Rightarrow> (exec_state, unit) eff" where
  "save_row E i = bindE (row_for i) (\<lambda>r. xtry (XSaveEpisode r) (xe_call E))"

section \<open>Building the order\<close>

definition account_for :: "exec_config \<Rightarrow> route \<Rightarrow> string" where
  "account_for X rt = (if rt = SCHWAB then xc_schwab_account X else xc_webull_account X)"

definition entry_session :: "clock_reading \<Rightarrow> string" where
  "entry_session ck =
     (if (ck_hour ck > 9 \<or> ck_hour ck = 9 \<and> ck_minute ck \<ge> 30) \<and> ck_hour ck < 16
      then ''NORMAL'' else ''AM'')"

definition entry_metadata :: "string \<Rightarrow> decimal \<Rightarrow> entry_price \<Rightarrow> string \<Rightarrow> metadata" where
  "entry_metadata i signal_price priced session =
     [(''episode_id'', MText i), (''momlive_one_shot'', MText ''true''),
      (''momlive_strategy'', MText STRATEGY_CODE), (''order_type'', MText ''limit''),
      (''time_in_force'', MText ''day''),
      (''limit_price'', MDec (Fin (ep_limit priced))),
      (''reference_price'', MDec (Fin (ep_limit priced))),
      (''cap_price'', MDec (Fin (ep_cap priced))), (''signal_price'', MDec signal_price),
      (''session'', MText session),
      (''extended_hours'', MText (if session = ''NORMAL'' then ''false'' else ''true''))]"

definition dict_update :: "('k, 'v) dict \<Rightarrow> ('k, 'v) dict \<Rightarrow> ('k, 'v) dict" where
  "dict_update d e = fold (\<lambda>(k, v). AList.update k v) e d"

definition entry_request ::
  "exec_config \<Rightarrow> signal \<Rightarrow> string \<Rightarrow> route \<Rightarrow> entry_price \<Rightarrow> string \<Rightarrow> order_request" where
  "entry_request X sig i rt priced session =
     \<lparr>or_coid = entry_coid sig i,
      or_account = account_for X rt, or_strategy = STRATEGY_CODE, or_symbol = sig_symbol sig,
      or_side = ''buy'', or_intent = ''open'', or_quantity = of_int (ep_quantity priced),
      or_reason = ''MOMLIVE1_DETECTED'',
      or_metadata = dict_update (entry_metadata i (sig_price sig) priced session) (xc_metadata X sig),
      or_order_type = ''limit'', or_tif = ''day''\<rparr>"

text \<open>The part of \<open>_request\<close> after the clock and the quote were read.\<close>

definition quote_ask :: "live_quote \<Rightarrow> decimal option result" where
  "quote_ask q =
     (case lq_ask q of
        None \<Rightarrow> Inr None | Some (MText _) \<Rightarrow> Inl ArithmeticError | Some (MDec d) \<Rightarrow> Inr (Some d))"

definition entry_tick :: "decimal option \<Rightarrow> rat result" where
  "entry_tick ask =
     (case ask of
        None \<Rightarrow> Inr (1 / 100)
      | Some (Fin a) \<Rightarrow> Inr (if a \<le> 1 then 1 / 10000 else 1 / 100)
      | Some Infinite \<Rightarrow> Inr (1 / 100)
      | Some NaN \<Rightarrow> Inl ArithmeticError)"

definition price_request ::
  "exec_config \<Rightarrow> signal \<Rightarrow> string \<Rightarrow> route \<Rightarrow> clock_reading \<Rightarrow> live_quote \<Rightarrow> order_request result" where
  "price_request X sig i rt ck q =
     (case quote_ask q of
        Inl e \<Rightarrow> Inl e
      | Inr ask \<Rightarrow>
     (case entry_tick ask of
        Inl e \<Rightarrow> Inl e
      | Inr tick \<Rightarrow>
          if (case ask of None \<Rightarrow> False | Some a \<Rightarrow> \<not> price_allowed a)
          then Inl (Refusal ''PRICE1-REFUSED'')
          else (case price_entry (sig_price sig) ask (lq_received_ns q) (ck_ns ck) rt (Fin tick) of
            Inl e \<Rightarrow> Inl e
          | Inr priced \<Rightarrow>
              if \<not> price_allowed (Fin (ep_limit priced)) then Inl (Refusal ''PRICE1-REFUSED'')
              else if account_for X rt = [] \<or> \<not> py_startswith (account_for X rt) ''live:''
              then Inl (Refusal ''live_account_binding_missing'')
              else Inr (entry_request X sig i rt priced (entry_session ck)))))"

definition build_request ::
  "exec_config \<Rightarrow> exec_env \<Rightarrow> signal \<Rightarrow> string \<Rightarrow> route \<Rightarrow> (exec_state, order_request) eff" where
  "build_request X E sig i rt =
     thenE (raise_if (\<not> price_allowed (sig_price sig)) (Refusal ''PRICE1-REFUSED''))
    (bindE (xcall XClock (xe_clock E)) (\<lambda>ck.
     thenE (raise_if (\<not> (0 \<le> ck_ns ck - sig_observed_ns sig
                          \<and> ck_ns ck - sig_observed_ns sig \<le> 2000000000))
              (Refusal ''signal_expired_before_dispatch''))
    (thenE (raise_if (ck_weekday ck \<ge> 5
                      \<or> \<not> ((if rt = SCHWAB then 7 else 4) \<le> ck_hour ck \<and> ck_hour ck < 16))
              (Refusal ''entry_window_closed''))
    (bindE (xcall (XQuote (sig_symbol sig)) (xe_quote E)) (\<lambda>q.
     liftE (price_request X sig i rt ck q))))))"

section \<open>Refreshing a prepared order\<close>

text \<open>The submit-attempt keys of the prepared order are carried over to the fresh one.\<close>

definition carry_attempt :: "order_request \<Rightarrow> order_request \<Rightarrow> order_request" where
  "carry_attempt prev r =
     r\<lparr>or_metadata := dict_update (or_metadata r)
         (filter (\<lambda>p. fst p = ''momlive_submit_attempt_id'' \<or> fst p = ''momlive_submit_attempt_count'')
            (or_metadata prev))\<rparr>"

text \<open>
  One turn of the loop of \<open>_refresh_prepared\<close>: \<open>True\<close> when the loop goes on. \<open>epi\<close> is the
  snapshot still to be made durable.
\<close>

definition fresh_entry ::
  "exec_config \<Rightarrow> exec_env \<Rightarrow> signal \<Rightarrow> route \<Rightarrow> (exec_state, order_request \<times> bool) eff" where
  "fresh_entry X E sig rt =
     bindE (getE xs_request) (\<lambda>prev.
       case map_of (or_metadata prev) ''episode_id'' of
         Some (MText i) \<Rightarrow>
           bindE (build_request X E sig i rt) (\<lambda>r.
           bindE (liftE (marketable_entry prev (carry_attempt prev r) rt)) (\<lambda>checked.
           returnE (checked, price_changed prev checked)))
       | _ \<Rightarrow> raiseE KeyError)"

definition store_reprice ::
  "exec_config \<Rightarrow> exec_env \<Rightarrow> row option \<Rightarrow> order_request \<Rightarrow> bool \<Rightarrow> (exec_state, unit) eff" where
  "store_reprice X E epi checked changed =
     (if \<not> xc_reprice X
      then thenE (raise_if changed (Refusal ''mombuffer1_unsent_reprice_unavailable''))
          (case epi of None \<Rightarrow> returnE () | Some r \<Rightarrow> xtry (XSaveEpisode r) (xe_call E))
      else bindE (getE xs_request) (\<lambda>prev.
           thenE (xtry (XReprice prev checked epi) (xe_call E))
                 (modifyE (\<lambda>s. s\<lparr>xs_request := checked\<rparr>))))"

definition take_turn ::
  "exec_config \<Rightarrow> exec_env \<Rightarrow> row option \<Rightarrow> order_request \<Rightarrow> bool \<Rightarrow> (exec_state, bool) eff" where
  "take_turn X E epi checked changed =
     (if \<not> changed \<and> epi = None then returnE False
      else bindE (getE xs_price_updates) (\<lambda>n.
        thenE (raise_if (changed \<and> n \<ge> MAX_PRICE_UPDATES)
                 (Refusal ''mombuffer1_price_update_budget_exhausted_no_dispatch''))
       (thenE (store_reprice X E epi checked changed)
       (thenE (modifyE (\<lambda>s. s\<lparr>xs_price_updates := n + (if changed then 1 else 0)\<rparr>))
              (returnE True)))))"

definition refresh_turn ::
  "exec_config \<Rightarrow> exec_env \<Rightarrow> signal \<Rightarrow> route \<Rightarrow> row option \<Rightarrow> (exec_state, bool) eff" where
  "refresh_turn X E sig rt epi =
     bindE (fresh_entry X E sig rt) (\<lambda>c. take_turn X E epi (fst c) (snd c))"

fun refresh_prepared ::
  "nat \<Rightarrow> exec_config \<Rightarrow> exec_env \<Rightarrow> signal \<Rightarrow> route \<Rightarrow> row option \<Rightarrow> (exec_state, unit) eff" where
  "refresh_prepared 0 X E sig rt epi = raiseE (OtherError ''fuel'')"
| "refresh_prepared (Suc fuel) X E sig rt epi =
     bindE (refresh_turn X E sig rt epi) (\<lambda>again.
       if again then refresh_prepared fuel X E sig rt None else returnE ())"

text \<open>One durable snapshot, two price updates and a last check: four turns always suffice.\<close>

definition REFRESH_FUEL :: nat where
  "REFRESH_FUEL = 4"

section \<open>Admission\<close>

definition settle_unsent :: "exec_env \<Rightarrow> string \<Rightarrow> (exec_state, unit) eff" where
  "settle_unsent E i =
     bindE (xcall XClock (xe_clock E)) (\<lambda>ck.
     thenE (on_book (\<lambda>L. reconcile L i (Fin 0) (Fin 0) (ck_ns ck) True False None))
           (save_row E i))"

text \<open>The bounded wait for a fresh quote before anything is prepared.\<close>

definition quote_phase ::
  "exec_config \<Rightarrow> exec_env \<Rightarrow> signal \<Rightarrow> string \<Rightarrow> route \<Rightarrow> (exec_state, unit) eff" where
  "quote_phase X E sig i rt =
     (if xc_quote_owner X
      then bindE (xcall XClock (xe_clock E)) (\<lambda>_.
           catchE
             (thenE (xtry XQuoteOwner (xe_call E))
               (catchE (bindE (build_request X E sig i rt) (\<lambda>_. returnE ()))
                 (\<lambda>e. if \<not> is_refusal e then raiseE e
                      else if error_text e \<noteq> ''quote_missing_future_or_stale'' \<or> \<not> xc_wait_quote X
                      then raiseE e
                      else thenE (xtry (XWaitQuote (sig_symbol sig)) (xe_call E))
                                 (bindE (build_request X E sig i rt) (\<lambda>_. returnE ())))))
             (\<lambda>e. if is_refusal e \<or> e = TimeoutError
                  then thenE (settle_unsent E i)
                      (thenE (xtry XQuoteOwner (xe_call E))
                             (raiseE (Refusal ''quote_wait_expired_or_refused_no_wire'')))
                  else raiseE e))
      else returnE ())"

definition prepare_phase ::
  "exec_config \<Rightarrow> exec_env \<Rightarrow> signal \<Rightarrow> string \<Rightarrow> route \<Rightarrow> (exec_state, unit) eff" where
  "prepare_phase X E sig i rt =
     bindE (build_request X E sig i rt) (\<lambda>r.
     bindE (getE (\<lambda>s. xe_attempt_id E (length (xs_log s)))) (\<lambda>attempt.
       let req = r\<lparr>or_metadata := dict_update (or_metadata r)
                     [(''momlive_submit_attempt_id'', MText attempt),
                      (''momlive_submit_attempt_count'', MText ''1'')]\<rparr>
       in thenE (xtry (XDurableOrder i req (route_value rt)) (xe_call E))
                (modifyE (\<lambda>s. s\<lparr>xs_request := req, xs_price_updates := 0\<rparr>))))"

text \<open>The rechecks around \<open>begin_submit\<close>, with the settlement of an entry refused before the wire.\<close>

definition latch_phase ::
  "exec_config \<Rightarrow> exec_env \<Rightarrow> signal \<Rightarrow> string \<Rightarrow> route \<Rightarrow> (exec_state, unit) eff" where
  "latch_phase X E sig i rt =
     thenE (refresh_prepared REFRESH_FUEL X E sig rt None)
    (bindE (xcall XClock (xe_clock E)) (\<lambda>ck.
     thenE (on_book (\<lambda>L. begin_submit L i rt (ck_ns ck)))
    (bindE (row_for i) (\<lambda>r.
     refresh_prepared REFRESH_FUEL X E sig rt (Some r)))))"

definition refused_before_wire ::
  "exec_config \<Rightarrow> exec_env \<Rightarrow> string \<Rightarrow> py_error \<Rightarrow> (exec_state, unit) eff" where
  "refused_before_wire X E i e =
     bindE (getE xs_request) (\<lambda>req.
     case e of
       UnsentEntryConflict m \<Rightarrow>
         thenE (if xc_mark_refused X
                then catchE (xtry (XMarkRefused req m) (xe_call E)) (\<lambda>_. returnE ())
                else returnE ())
               (raiseE e)
     | Refusal m \<Rightarrow>
         if \<not> xc_refuse_unsent X then raiseE (Refusal ''prewire_refusal_settlement_unavailable'')
         else thenE (xtry (XRefuseUnsent req m) (xe_call E))
             (thenE (settle_unsent E i)
             (thenE (if xc_quote_owner X then xtry XQuoteOwner (xe_call E) else returnE ())
                    (raiseE e)))
     | _ \<Rightarrow> raiseE e)"

section \<open>Submission\<close>

text \<open>\<open>validate_wire\<close>: the last quote check, a \<open>RuntimeError\<close> for each refusal.\<close>

definition validate_wire ::
  "exec_config \<Rightarrow> exec_env \<Rightarrow> signal \<Rightarrow> string \<Rightarrow> route \<Rightarrow> (exec_state, unit) eff" where
  "validate_wire X E sig i rt =
     bindE (getE xs_request) (\<lambda>req.
     catchE
       (bindE (build_request X E sig i rt) (\<lambda>r.
        bindE (liftE (marketable_entry (without_permit req) (carry_attempt req r) rt)) (\<lambda>checked.
        raise_if (price_changed (without_permit req) checked)
          (Refusal ''mombuffer1_quote_changed_after_permit_no_dispatch''))))
       (\<lambda>e. if is_refusal e then raiseE (RuntimeError (error_text e)) else raiseE e))"

definition on_attempt :: "(wire_attempt \<Rightarrow> unit result \<times> wire_attempt) \<Rightarrow> (exec_state, unit) eff" where
  "on_attempt f =
     (\<lambda>s. case xs_attempt s of
        None \<Rightarrow> (Inr (), s)
      | Some a \<Rightarrow> (case f a of (r, a') \<Rightarrow> (r, s\<lparr>xs_attempt := Some a'\<rparr>)))"

text \<open>Adding the permit mutates the request object the attempt is bound to.\<close>

definition add_permit :: "meta \<Rightarrow> exec_state \<Rightarrow> exec_state" where
  "add_permit m s =
     (let req = (xs_request s)
            \<lparr>or_metadata := AList.update ''bot_control_permit'' m (or_metadata (xs_request s))\<rparr>
      in s\<lparr>xs_request := req,
           xs_attempt := map_option (\<lambda>a. a\<lparr>wa_request := req\<rparr>) (xs_attempt s)\<rparr>)"

text \<open>One action of the adapter; its exception is the adapter's, which may act on.\<close>

definition wire_action ::
  "exec_config \<Rightarrow> exec_env \<Rightarrow> signal \<Rightarrow> string \<Rightarrow> route \<Rightarrow> wire_op \<Rightarrow> (exec_state, unit) eff" where
  "wire_action X E sig i rt w =
     (case w of
        WPermit m \<Rightarrow> modifyE (add_permit m)
      | WCheck quantity limit y \<Rightarrow>
          catchE
            (bindE (catchE (bindE (validate_wire X E sig i rt) (\<lambda>u. returnE (Inr u)))
                           (\<lambda>e. returnE (Inl e))) (\<lambda>validated.
             on_attempt (wire_check validated quantity limit y)))
            (\<lambda>_. returnE ())
      | WDispatch \<Rightarrow> catchE (on_attempt before_transport) (\<lambda>_. returnE ()))"

fun wire_script ::
  "exec_config \<Rightarrow> exec_env \<Rightarrow> signal \<Rightarrow> string \<Rightarrow> route \<Rightarrow> wire_op list \<Rightarrow> (exec_state, unit) eff" where
  "wire_script X E sig i rt [] = returnE ()"
| "wire_script X E sig i rt (w # ws) =
     thenE (wire_action X E sig i rt w) (wire_script X E sig i rt ws)"

definition refused_locally :: "exec_state \<Rightarrow> no_dispatch_proof option" where
  "refused_locally s = (case xs_attempt s of None \<Rightarrow> None | Some a \<Rightarrow> wa_proof a)"

definition dispatched :: "exec_state \<Rightarrow> bool" where
  "dispatched s \<longleftrightarrow> (case xs_attempt s of None \<Rightarrow> False | Some a \<Rightarrow> wa_dispatched a)"

text \<open>
  \<open>ports.submit\<close> inside the wire check: the adapter's actions, then its reports or exception.
\<close>

definition submit_call ::
  "exec_config \<Rightarrow> exec_env \<Rightarrow> signal \<Rightarrow> string \<Rightarrow> route \<Rightarrow> (exec_state, execution_report list option) eff"
where
  "submit_call X E sig i rt =
     bindE (getE id) (\<lambda>s0.
     thenE (modifyE (\<lambda>s. xlog (XSubmit (xs_request s))
                           (s\<lparr>xs_attempt := Some (new_attempt 0 (xs_request s) 0)\<rparr>)))
    (thenE (wire_script X E sig i rt (xe_wire E (length (xs_log s0))))
    (bindE (getE id) (\<lambda>s.
       case xe_reports E (length (xs_log s0)) of
         Inr reports \<Rightarrow> returnE (Some reports)
       | Inl (LocalEntryNoDispatch m) \<Rightarrow>
           if refused_locally s = None \<or> dispatched s then raiseE (LocalEntryNoDispatch m)
           else returnE None
       | Inl e \<Rightarrow> raiseE e))))"

definition settle_local ::
  "exec_config \<Rightarrow> exec_env \<Rightarrow> string \<Rightarrow> (exec_state, unit) eff" where
  "settle_local X E i =
     bindE (getE id) (\<lambda>s.
       case refused_locally s of
         None \<Rightarrow> returnE ()
       | Some p \<Rightarrow>
           thenE (raise_if (\<not> xc_refuse_local X)
                    (Refusal ''mombuffer1_local_no_dispatch_settlement_unavailable''))
          (thenE (xtry (XRefuseLocal (xs_request s) (np_reason p)) (xe_call E))
          (thenE (settle_unsent E i) (raiseE (Refusal (np_reason p))))))"

definition submit_phase ::
  "exec_config \<Rightarrow> exec_env \<Rightarrow> signal \<Rightarrow> string \<Rightarrow> route \<Rightarrow> string \<Rightarrow> (exec_state, unit) eff" where
  "submit_phase X E sig i rt category =
     bindE (submit_call X E sig i rt) (\<lambda>reports.
     thenE (settle_local X E i)
    (bindE (getE xs_request) (\<lambda>req.
     thenE (xtry (XRecord req) (xe_call E))
    (case reports of
       None \<Rightarrow> raiseE TypeError
     | Some rs \<Rightarrow>
         thenE (modifyE (\<lambda>s. if rt = SCHWAB \<and> list_ex (\<lambda>r. er_event r = ''rejected'' \<and> er_origin r = ''broker'') rs
                             then s\<lparr>xs_schwab_refusals := xs_schwab_refusals s + 1\<rparr> else s))
               (xtry (XRecordRoute i (sig_session_date sig) category) (xe_call E))))))"

text \<open>The routing decision of a signal: sealed in the signal, or asked of the routing port.\<close>

definition routing ::
  "exec_env \<Rightarrow> signal \<Rightarrow> (exec_state, route \<times> string) eff" where
  "routing E sig =
     bindE (case sig_country_route sig of
              Some b \<Rightarrow> returnE (Some b, sig_country_category sig)
            | None \<Rightarrow> bindE (xtry (XRouteFor (sig_symbol sig)) (xe_route E))
                           (\<lambda>(b, reason). returnE (b, Some reason))) (\<lambda>(broker, category).
     case broker of
       None \<Rightarrow> raiseE (Refusal ''entry_window_closed'')
     | Some b \<Rightarrow>
         (case category of
            None \<Rightarrow> raiseE (Refusal ''sealed_country_decision_invalid'')
          | Some c \<Rightarrow>
              thenE (raise_if (c = []) (Refusal ''sealed_country_decision_invalid''))
             (bindE (liftE (route_of b)) (\<lambda>rt. returnE (rt, c)))))"

definition check_cached_ask :: "live_quote \<Rightarrow> bool" where
  "check_cached_ask q \<longleftrightarrow> (lq_ask q = None \<or> buy_price_allowed (lq_ask q) ''buy'')"

text \<open>From the fresh claim on.\<close>

definition admit_owned ::
  "exec_config \<Rightarrow> exec_env \<Rightarrow> signal \<Rightarrow> string \<Rightarrow> route \<Rightarrow> string \<Rightarrow> (exec_state, unit) eff" where
  "admit_owned X E sig i rt category =
     bindE (row_for i) (\<lambda>r.
     bindE (xtry (XDurableClaim r (account_for X rt) (route_value rt)) (xe_flag E)) (\<lambda>claimed.
     thenE (raise_if (\<not> claimed) (Refusal ''episode_already_durable_no_resubmit''))
    (thenE (quote_phase X E sig i rt)
    (thenE (prepare_phase X E sig i rt)
    (thenE (catchE (latch_phase X E sig i rt) (refused_before_wire X E i))
           (submit_phase X E sig i rt category))))))"

definition admit ::
  "(string \<Rightarrow> string) \<Rightarrow> exec_config \<Rightarrow> exec_env \<Rightarrow> signal \<Rightarrow> (exec_state, string \<times> bool) eff" where
  "admit uuid5 X E sig =
     thenE (liftE (validate sig))
    (thenE (raise_if (\<not> price_allowed (sig_price sig)) (Refusal ''PRICE1-REFUSED''))
    (bindE (xcall (XQuote (sig_symbol sig)) (xe_quote E)) (\<lambda>q.
     thenE (raise_if (\<not> check_cached_ask q) (Refusal ''PRICE1-REFUSED''))
    (bindE (xcall XClock (xe_clock E)) (\<lambda>ck.
     thenE (raise_if (sig_session_date sig \<noteq> ck_date ck) (Refusal ''signal_session_date_mismatch''))
    (bindE (routing E sig) (\<lambda>(rt, category).
     bindE (xtry (XForeignOwner (account_for X rt) (sig_symbol sig)) (xe_flag E)) (\<lambda>foreign.
     thenE (raise_if foreign (Refusal ''foreign_account_symbol_owner''))
    (bindE (\<lambda>s. case claim uuid5 (xs_book s) sig (ck_ns ck) False of
              Inl e \<Rightarrow> (Inl e, s)
            | Inr (L, i, fresh) \<Rightarrow> (Inr (i, fresh), s\<lparr>xs_book := L\<rparr>)) (\<lambda>(i, fresh).
     if \<not> fresh then thenE (save_row E i) (returnE (i, False))
     else thenE (admit_owned X E sig i rt category) (returnE (i, True))))))))))))"

end
