(* ===== verification/ExecutionSpec.thy ===== *)
theory ExecutionSpec
  imports Execution AdmissionSpec
begin

text \<open>
  What the entry worker promises: a sealed order is only repriced upwards within its cap, the
  repricing loop ends, a transport and a proof of no dispatch exclude each other, and an
  admission puts at most one order on the wire, after its episode was durably latched.
\<close>

section \<open>Repricing\<close>

lemma validate_entry_shape_Inr:
  "validate_entry_shape prev cur rt = Inr () \<Longrightarrow> wire_invariants prev cur rt"
  by (auto simp: validate_entry_shape_def split: option.splits if_splits)

lemma both_limits_Inr:
  "both_limits prev cur rt f = Inr x \<Longrightarrow>
   wire_invariants prev prev rt \<and> wire_invariants prev cur rt
   \<and> (\<exists>p c. limit_of prev = Inr p \<and> limit_of cur = Inr c \<and> f p c = Inr x)"
  by (auto simp: both_limits_def dest!: validate_entry_shape_Inr split: sum.splits)

lemma validate_same: "wire_invariants r r rt \<Longrightarrow> validate_entry_shape r r rt = Inr ()"
proof -
  assume w: "wire_invariants r r rt"
  have keep: "AList.update k v d = d" if "map_of d k = Some v" for k v and d :: metadata
    using that by (induction d) (auto split: if_splits)
  obtain l x where m: "map_of (or_metadata r) ''limit_price'' = Some l"
    "map_of (or_metadata r) ''reference_price'' = Some x"
    using w by (auto simp: wire_invariants_def meta_decimal_def split: option.splits meta.splits
        sum.splits decimal.splits)
  then show ?thesis using w by (simp add: validate_entry_shape_def keep request_eq_def dict_eq_def)
qed

lemma wire_invariants_limit:
  "wire_invariants prev cur rt \<Longrightarrow> limit_of cur = Inr l \<Longrightarrow>
   \<exists>cap sig. meta_decimal (or_metadata cur) ''cap_price'' = Inr (Fin cap)
     \<and> meta_decimal (or_metadata cur) ''signal_price'' = Inr (Fin sig) \<and> cap = sig * (1015 / 1000)
     \<and> 0 < l \<and> l \<le> cap \<and> or_quantity cur = of_int (whole_shares 100 l)"
  unfolding wire_invariants_def limit_of_def
  by (cases "meta_decimal (or_metadata cur) ''cap_price''";
      cases "meta_decimal (or_metadata cur) ''signal_price''")
     (auto split: sum.splits decimal.splits)

text \<open>
  C24: A fresh price never cheapens a sealed entry: \<open>marketable_entry\<close> answers the saved order or the
  fresh one, whichever has the higher limit, and only where both are well-formed one-shot limit
  buys, on the tick grid, for the whole shares of one hundred dollars, at most one and a half
  percent over the signal price.
\<close>

theorem marketable_entry_upward:
  assumes "marketable_entry prev fresh rt = Inr r"
  shows "(r = prev \<or> r = fresh)
    \<and> (\<exists>l p c sig. limit_of r = Inr l \<and> limit_of prev = Inr p \<and> limit_of fresh = Inr c
         \<and> l = max p c \<and> 0 < l
         \<and> meta_decimal (or_metadata r) ''signal_price'' = Inr (Fin sig) \<and> l \<le> sig * (1015 / 1000)
         \<and> or_quantity r = of_int (whole_shares 100 l))"
proof -
  from both_limits_Inr[OF assms[unfolded marketable_entry_def]] obtain p c
    where w: "wire_invariants prev prev rt" "wire_invariants prev fresh rt"
      and l: "limit_of prev = Inr p" "limit_of fresh = Inr c"
      and r: "(if c \<le> p then Inr prev else Inr fresh) = (Inr r :: order_request result)"
    by blast
  show ?thesis
    using wire_invariants_limit[OF w(1) l(1)] wire_invariants_limit[OF w(2) l(2)] r l
    by (cases "c \<le> p") (auto simp: max_def)
qed

section \<open>The repricing loop ends\<close>

definition turns_left :: "row option \<Rightarrow> exec_state \<Rightarrow> nat" where
  "turns_left epi s =
     1 + (if epi = None then 0 else 1) + (MAX_PRICE_UPDATES - xs_price_updates s)"

lemma wp_xcall [wp_simps]: "wp (xcall c g) Q R s = Q (g (length (xs_log s))) (xlog c s)"
  by (simp add: wp_def xcall_def)

lemma wp_xtry [wp_simps]:
  "wp (xtry c g) Q R s =
     (case g (length (xs_log s)) of Inl e \<Rightarrow> R e (xlog c s) | Inr a \<Rightarrow> Q a (xlog c s))"
  by (simp add: wp_def xtry_def split: sum.split)

lemma wp_on_book [wp_simps]:
  "wp (on_book f) Q R s =
     (case f (xs_book s) of Inl e \<Rightarrow> R e s | Inr L \<Rightarrow> Q () (s\<lparr>xs_book := L\<rparr>))"
  by (simp add: wp_def on_book_def split: sum.split)

lemma xlog_simps [simp]:
  "xs_book (xlog c s) = xs_book s" "xs_request (xlog c s) = xs_request s"
  "xs_price_updates (xlog c s) = xs_price_updates s" "xs_attempt (xlog c s) = xs_attempt s"
  "xs_log (xlog c s) = xs_log s @ [c]"
  by (simp_all add: xlog_def)

text \<open>Building a request only reads: whatever the clock and quote calls keep, it keeps.\<close>

definition stable :: "(exec_state \<Rightarrow> bool) \<Rightarrow> bool" where
  "stable P \<longleftrightarrow> (\<forall>s. P s \<longrightarrow> P (xlog XClock s) \<and> (\<forall>y. P (xlog (XQuote y) s)))"

lemma build_request_stable:
  "stable P \<Longrightarrow> P s \<Longrightarrow>
   wp (build_request X E sig i rt) (\<lambda>r t. P t \<and> or_coid r = entry_coid sig i) (\<lambda>_. P) s"
  unfolding build_request_def
  by (auto simp: wp_simps stable_def price_request_def entry_request_def Let_def
      split: sum.splits)

lemma marketable_entry_keeps:
  assumes "marketable_entry prev fresh rt = Inr r"
  shows "wire_invariants prev prev rt \<and> or_coid r = or_coid prev"
proof -
  from assms obtain p c where v: "validate_entry_shape prev fresh rt = Inr ()"
    "validate_entry_shape prev prev rt = Inr ()" "r = prev \<or> r = fresh"
    by (auto simp: marketable_entry_def both_limits_def split: sum.splits if_splits)
  have "or_coid fresh = or_coid prev"
    using v(1) unfolding validate_entry_shape_def request_eq_def
    by (auto split: option.splits if_splits dest!: arg_cong[where f = or_coid])
  then show ?thesis using v validate_entry_shape_Inr by auto
qed

definition checked_ok :: "route \<Rightarrow> exec_state \<Rightarrow> order_request \<times> bool \<Rightarrow> bool" where
  "checked_ok rt s c \<longleftrightarrow>
     wire_invariants (xs_request s) (xs_request s) rt \<and> or_coid (fst c) = or_coid (xs_request s)"

lemma fresh_entry_stable:
  assumes "stable P" "P s"
  shows "wp (fresh_entry X E sig rt) (\<lambda>c t. P t \<and> checked_ok rt s c) (\<lambda>_. P) s"
proof -
  have "wp (bindE (build_request X E sig i rt) (\<lambda>r.
          bindE (liftE (marketable_entry (xs_request s) (carry_attempt (xs_request s) r) rt))
            (\<lambda>checked. returnE (checked, price_changed (xs_request s) checked))))
      (\<lambda>c t. P t \<and> checked_ok rt s c) (\<lambda>_. P) s" for i
    by (rule wp_bindI[OF build_request_stable[OF assms]])
       (auto simp: wp_simps checked_ok_def split: sum.split dest: marketable_entry_keeps)
  then show ?thesis
    using assms(2)
    by (auto simp: fresh_entry_def wp_bind[of "getE f" for f] wp_get wp_raise
        split: option.split meta.split)
qed

text \<open>The state a repricing turn starts from and what it leaves.\<close>

definition turn_from :: "nat \<Rightarrow> order_request \<Rightarrow> exec_state \<Rightarrow> bool" where
  "turn_from n req s \<longleftrightarrow> xs_price_updates s = n \<and> xs_request s = req"

lemma stable_turn_from: "stable (turn_from n req)"
  by (simp add: stable_def turn_from_def)

lemma store_reprice_updates:
  "xs_price_updates s = n \<Longrightarrow>
   wp (store_reprice X E epi checked changed) (\<lambda>_ t. xs_price_updates t = n) (\<lambda>_ _. True) s"
  unfolding store_reprice_def by (auto simp: wp_simps split: option.split sum.split)

lemma take_turn_decreases:
  "wp (take_turn X E epi checked changed)
     (\<lambda>again t. again \<longrightarrow> turns_left None t < turns_left epi s) (\<lambda>_ _. True) s"
proof (cases "changed \<and> xs_price_updates s \<ge> MAX_PRICE_UPDATES \<or> \<not> changed \<and> epi = None")
  case True
  then show ?thesis by (auto simp: take_turn_def wp_simps)
next
  case False
  let ?n = "xs_price_updates s"
  have less: "1 + (MAX_PRICE_UPDATES - (?n + (if changed then 1 else 0))) < turns_left epi s"
    using False by (auto simp: turns_left_def)
  have "wp (thenE (store_reprice X E epi checked changed)
      (thenE (modifyE (\<lambda>s. s\<lparr>xs_price_updates := ?n + (if changed then 1 else 0)\<rparr>)) (returnE True)))
      (\<lambda>again t. again \<longrightarrow> turns_left None t < turns_left epi s) (\<lambda>_ _. True) s"
    by (rule wp_thenI[OF store_reprice_updates[OF refl]])
       (use less in \<open>simp add: wp_simps turns_left_def\<close>)
  moreover have "\<not> (changed \<and> ?n \<ge> MAX_PRICE_UPDATES)" "\<not> (\<not> changed \<and> epi = None)"
    using False by auto
  ultimately show ?thesis
    by (simp only: take_turn_def if_False wp_bind[of "getE f" for f] wp_get
        wp_then[of "raise_if b e" for b e] wp_raise_if)
qed

lemma refresh_turn_decreases:
  "wp (refresh_turn X E sig rt epi)
     (\<lambda>again t. again \<longrightarrow> turns_left None t < turns_left epi s) (\<lambda>_ _. True) s"
  unfolding refresh_turn_def
proof (rule wp_bindI)
  show "wp (fresh_entry X E sig rt)
      (\<lambda>c t. turn_from (xs_price_updates s) (xs_request s) t \<and> checked_ok rt s c) (\<lambda>_ _. True) s"
    by (rule wp_mono[OF fresh_entry_stable[OF stable_turn_from]]) (simp_all add: turn_from_def)
  fix c t assume "turn_from (xs_price_updates s) (xs_request s) t \<and> checked_ok rt s c"
  then have "turns_left epi t = turns_left epi s" by (simp add: turn_from_def turns_left_def)
  then show "wp (take_turn X E epi (fst c) (snd c))
      (\<lambda>again t. again \<longrightarrow> turns_left None t < turns_left epi s) (\<lambda>_ _. True) t"
    using take_turn_decreases[of X E epi "fst c" "snd c" t] by simp
qed

lemma refresh_fuel_step:
  "turns_left epi s \<le> n \<Longrightarrow>
   refresh_prepared (Suc n) X E sig rt epi s = refresh_prepared n X E sig rt epi s"
proof (induction n arbitrary: epi s)
  case 0
  then show ?case by (simp add: turns_left_def)
next
  case (Suc n)
  obtain r t where turn: "refresh_turn X E sig rt epi s = (r, t)" by fastforce
  show ?case
  proof (cases r)
    case (Inl e)
    then show ?thesis using turn by (simp add: bindE_apply)
  next
    case (Inr again)
    show ?thesis
    proof (cases again)
      case True
      have "again \<longrightarrow> turns_left None t < turns_left epi s"
        using wpD_Inr[OF refresh_turn_decreases] turn Inr by blast
      then have "turns_left None t \<le> n" using Suc.prems True by simp
      from Suc.IH[OF this] show ?thesis using turn Inr True by (simp add: bindE_apply)
    next
      case False
      then show ?thesis using turn Inr by (simp add: bindE_apply)
    qed
  qed
qed

text \<open>
  C28: The repricing loop ends: with at most two price updates and one pending snapshot, four
  turns are enough, whatever the clock, the quotes and the store answer; more fuel than
  \<open>REFRESH_FUEL\<close> gives the same result and the same final state, so the loop of
  \<open>_refresh_prepared\<close> always returns or raises by itself.
\<close>

theorem refresh_terminates:
  assumes "REFRESH_FUEL \<le> n"
  shows "refresh_prepared n X E sig rt epi s = refresh_prepared REFRESH_FUEL X E sig rt epi s"
  using assms
proof (induction n rule: dec_induct)
  case (step m)
  have "turns_left epi s \<le> m"
    using step.hyps by (auto simp: turns_left_def REFRESH_FUEL_def MAX_PRICE_UPDATES_def)
  then show ?case using refresh_fuel_step step.IH by simp
qed simp

section \<open>One order per admission\<close>

fun is_xsubmit :: "exec_call \<Rightarrow> bool" where
  "is_xsubmit (XSubmit _) = True"
| "is_xsubmit _ = False"

text \<open>The call that makes a snapshot row durable.\<close>

fun latches :: "exec_call \<Rightarrow> row \<Rightarrow> bool" where
  "latches (XSaveEpisode q) r = (q = r)"
| "latches (XReprice _ _ (Some q)) r = (q = r)"
| "latches _ _ = False"

abbreviation no_submit :: "exec_state \<Rightarrow> bool" where
  "no_submit s \<equiv> \<forall>c \<in> set (xs_log s). \<not> is_xsubmit c"

definition waiting :: "exec_state \<Rightarrow> bool" where
  "waiting s \<longleftrightarrow> no_submit s \<and> ledger_inv (xs_book s)"

definition prepared :: "signal \<Rightarrow> string \<Rightarrow> row set \<Rightarrow> exec_state \<Rightarrow> bool" where
  "prepared sig i A s \<longleftrightarrow>
     waiting s \<and> or_coid (xs_request s) = entry_coid sig i
     \<and> (\<forall>r \<in> A. \<exists>c \<in> set (xs_log s). latches c r)"

lemma waiting_log: "\<not> is_xsubmit c \<Longrightarrow> waiting s \<Longrightarrow> waiting (xlog c s)"
  by (simp add: waiting_def)

lemma prepared_log: "\<not> is_xsubmit c \<Longrightarrow> prepared sig i A s \<Longrightarrow> prepared sig i A (xlog c s)"
  by (auto simp: prepared_def waiting_log)

lemma prepared_waiting: "prepared sig i A s \<Longrightarrow> waiting s"
  by (simp add: prepared_def)

lemma stable_waiting: "stable waiting"
  by (simp add: stable_def waiting_log)

lemma stable_prepared: "stable (\<lambda>t. prepared sig i A t \<and> xs_request t = req)"
  by (simp add: stable_def prepared_log)

lemma row_for_wp:
  "P s \<Longrightarrow> (\<And>r. find (\<lambda>r. r_id r = i) (snapshot (xs_book s)) = Some r \<Longrightarrow> Q r s) \<Longrightarrow>
   wp (row_for i) Q (\<lambda>_. P) s"
  by (auto simp: row_for_def wp_simps split: option.split)

lemma keeps_xcalls:
  assumes "\<And>s. P s \<Longrightarrow> P (xlog c s)"
  shows "keeps P (xtry c f)" and "keeps P (xcall c g)"
  using assms by (auto simp: keeps_def xtry_def xcall_def)

lemma keeps_row_for: "keeps P (row_for i)"
  by (auto simp: keeps_def row_for_def eff_simps split: option.split)

lemma keeps_build_request: "stable P \<Longrightarrow> keeps P (build_request X E sig i rt)"
  by (rule keeps_wp) (rule wp_mono[OF build_request_stable], auto)

lemma save_row_waiting: "keeps waiting (save_row E i)"
  unfolding save_row_def by (intro keeps_bind keeps_row_for keeps_xcalls) (simp add: waiting_log)

lemma settle_waiting: "keeps waiting (settle_unsent E i)"
proof -
  have "keeps waiting (on_book (\<lambda>L. reconcile L i (Fin 0) (Fin 0) now True False None))" for now
    by (auto simp: keeps_def on_book_def waiting_def dest: reconcile_inv split: sum.splits)
  then show ?thesis
    unfolding settle_unsent_def
    by (intro keeps_bind keeps_then save_row_waiting keeps_xcalls) (simp_all add: waiting_log)
qed

lemma quote_phase_waiting: "keeps waiting (quote_phase X E sig i rt)"
  unfolding quote_phase_def
  by (intro keeps_if keeps_bind keeps_then keeps_catch keeps_return keeps_raise settle_waiting
      keeps_build_request stable_waiting keeps_xcalls) (simp_all add: waiting_log)

lemma refused_before_wire_waiting: "keeps waiting (refused_before_wire X E i e)"
  unfolding refused_before_wire_def
  by (intro keeps_bind keeps_get; cases e; simp)
     (intro keeps_if keeps_bind keeps_then keeps_catch keeps_return keeps_raise settle_waiting
       keeps_xcalls impI conjI; simp add: waiting_log)+

lemma prepare_phase_wp:
  assumes "waiting s"
  shows "wp (prepare_phase X E sig i rt) (\<lambda>_. prepared sig i {}) (\<lambda>_. waiting) s"
  unfolding prepare_phase_def
  by (rule wp_bindI[OF build_request_stable[OF stable_waiting assms]])
     (auto simp: wp_simps Let_def prepared_def waiting_def split: sum.split)

lemma store_reprice_wp:
  assumes "prepared sig i A s" "or_coid checked = entry_coid sig i"
  shows "wp (store_reprice X E epi checked changed) (\<lambda>_. prepared sig i (A \<union> set_option epi))
           (\<lambda>_. waiting) s"
  using assms unfolding store_reprice_def
  by (auto simp: wp_simps prepared_def waiting_def split: option.split sum.split)

lemma take_turn_wp:
  assumes "prepared sig i A s" "or_coid checked = entry_coid sig i" "xs_request s = req"
  shows "wp (take_turn X E epi checked changed)
    (\<lambda>again t. prepared sig i (A \<union> set_option epi) t \<and> (\<not> again \<longrightarrow> xs_request t = req))
    (\<lambda>_. waiting) s"
proof (cases "\<not> changed \<and> epi = None")
  case True
  then show ?thesis using assms by (simp add: take_turn_def wp_simps)
next
  case False
  have "wp (thenE (store_reprice X E epi checked changed)
      (thenE (modifyE (\<lambda>s. s\<lparr>xs_price_updates := n\<rparr>)) (returnE True)))
      (\<lambda>again t. prepared sig i (A \<union> set_option epi) t \<and> (\<not> again \<longrightarrow> xs_request t = req))
      (\<lambda>_. waiting) s" for n
    by (rule wp_thenI[OF store_reprice_wp[OF assms(1,2)]])
       (simp add: wp_simps prepared_def waiting_def)
  then show ?thesis
    using False prepared_waiting[OF assms(1)]
    by (auto simp only: take_turn_def if_False wp_bind[of "getE f" for f] wp_get
        wp_then[of "raise_if b e" for b e] wp_raise_if split: if_split)
qed

lemma refresh_prepared_wp:
  "prepared sig i A s \<Longrightarrow>
   wp (refresh_prepared n X E sig rt epi)
     (\<lambda>_ t. prepared sig i (A \<union> set_option epi) t \<and> wire_invariants (xs_request t) (xs_request t) rt)
     (\<lambda>_. waiting) s"
proof (induction n arbitrary: A epi s)
  case 0
  then show ?case by (simp add: wp_simps prepared_waiting)
next
  case (Suc n)
  have turn: "wp (refresh_turn X E sig rt epi)
      (\<lambda>again t. prepared sig i (A \<union> set_option epi) t
          \<and> (\<not> again \<longrightarrow> wire_invariants (xs_request t) (xs_request t) rt)) (\<lambda>_. waiting) s"
    unfolding refresh_turn_def
  proof (rule wp_bindI)
    show "wp (fresh_entry X E sig rt)
        (\<lambda>c t. (prepared sig i A t \<and> xs_request t = xs_request s) \<and> checked_ok rt s c) (\<lambda>_. waiting) s"
      by (rule wp_mono[OF fresh_entry_stable[OF stable_prepared]])
         (use Suc.prems in \<open>auto dest: prepared_waiting\<close>)
    fix c t
    assume c: "(prepared sig i A t \<and> xs_request t = xs_request s) \<and> checked_ok rt s c"
    then have "or_coid (fst c) = entry_coid sig i"
      using Suc.prems by (simp add: checked_ok_def prepared_def)
    note w = take_turn_wp[OF conjunct1[OF conjunct1[OF c]] this conjunct2[OF conjunct1[OF c]]]
    show "wp (take_turn X E epi (fst c) (snd c))
        (\<lambda>again t. prepared sig i (A \<union> set_option epi) t
          \<and> (\<not> again \<longrightarrow> wire_invariants (xs_request t) (xs_request t) rt)) (\<lambda>_. waiting) t"
      by (rule wp_mono[OF w]) (use c in \<open>auto simp: checked_ok_def\<close>)
  qed
  show ?case
    by simp (rule wp_bindI[OF turn], auto simp: wp_return intro: wp_mono[OF Suc.IH])
qed

text \<open>A snapshot row of an episode that has been marked as submitting.\<close>

definition submitting_row :: "string \<Rightarrow> row \<Rightarrow> bool" where
  "submitting_row i r \<longleftrightarrow>
     r_id r = i \<and> r_state r = ''submitting'' \<and> r_first_submit_ns r \<noteq> None"

lemma begin_submit_row:
  assumes "ledger_inv L" "begin_submit L i rt now = Inr L'"
    and "find (\<lambda>r. r_id r = i) (snapshot L') = Some r"
  shows "submitting_row i r"
proof -
  have inv: "ledger_inv L'" using begin_submit_inv[OF assms(1,2)] .
  from assms(3) have "r \<in> set (snapshot L')" "r_id r = i" by (auto simp: find_Some_iff)
  then obtain k e where e: "(k, e) \<in> set (episodes L')" "r = row_of e" "ep_id e = i"
    by (auto simp: snapshot_def row_of_def)
  have "map_of (episodes L') k = Some e" using inv e(1) by (simp add: ledger_inv_def)
  moreover from this have "k = i" using inv e(3) by (auto simp: ledger_inv_def episode_ok_def)
  moreover obtain e0 where "map_of (episodes L') i = Some e0" "ep_state e0 = Submitting"
      "ep_first_submit_ns e0 \<noteq> None"
    using assms(2) by (auto simp: begin_submit_def put_episode_def dict_simps split: sum.splits if_splits)
  ultimately show ?thesis using e by (auto simp: submitting_row_def row_of_def)
qed

lemma latch_phase_wp:
  assumes "prepared sig i {} s"
  shows "wp (latch_phase X E sig i rt)
    (\<lambda>_ t. \<exists>r. submitting_row i r \<and> prepared sig i {r} t
        \<and> wire_invariants (xs_request t) (xs_request t) rt) (\<lambda>_. waiting) s"
  unfolding latch_phase_def
proof (rule wp_thenI)
  show "wp (refresh_prepared REFRESH_FUEL X E sig rt None) (\<lambda>_. prepared sig i {}) (\<lambda>_. waiting) s"
    by (rule wp_mono[OF refresh_prepared_wp[OF assms]]) simp_all
  fix t assume t: "prepared sig i {} t"
  have last: "wp (refresh_prepared REFRESH_FUEL X E sig rt (Some r))
      (\<lambda>_ t. \<exists>r. submitting_row i r \<and> prepared sig i {r} t
        \<and> wire_invariants (xs_request t) (xs_request t) rt) (\<lambda>_. waiting) u"
    if "prepared sig i {} u" "submitting_row i r" for r u
    by (rule wp_mono[OF refresh_prepared_wp[OF that(1)]]) (use that(2) in auto)
  have begun: "wp (bindE (row_for i) (\<lambda>r. refresh_prepared REFRESH_FUEL X E sig rt (Some r)))
      (\<lambda>_ t. \<exists>r. submitting_row i r \<and> prepared sig i {r} t
        \<and> wire_invariants (xs_request t) (xs_request t) rt) (\<lambda>_. waiting) (u\<lparr>xs_book := L'\<rparr>)"
    if u: "prepared sig i {} u" "begin_submit (xs_book u) i rt now = Inr L'" for u L' now
  proof (rule wp_bindI[OF row_for_wp])
    have inv: "ledger_inv (xs_book u)" using u(1) by (simp add: prepared_def waiting_def)
    have p: "prepared sig i {} (u\<lparr>xs_book := L'\<rparr>)"
      using u begin_submit_inv[OF inv u(2)] by (simp add: prepared_def waiting_def)
    show "waiting (u\<lparr>xs_book := L'\<rparr>)" using p by (rule prepared_waiting)
    fix r assume "find (\<lambda>r. r_id r = i) (snapshot (xs_book (u\<lparr>xs_book := L'\<rparr>))) = Some r"
    then show "prepared sig i {} (u\<lparr>xs_book := L'\<rparr>) \<and> submitting_row i r"
      using begin_submit_row[OF inv u(2)] p by simp
  next
    fix a t assume "prepared sig i {} t \<and> submitting_row i a"
    then show "wp (refresh_prepared REFRESH_FUEL X E sig rt (Some a))
      (\<lambda>_ t. \<exists>r. submitting_row i r \<and> prepared sig i {r} t
        \<and> wire_invariants (xs_request t) (xs_request t) rt) (\<lambda>_. waiting) t"
      using last by blast
  qed
  show "wp (bindE (xcall XClock (xe_clock E)) (\<lambda>ck.
     thenE (on_book (\<lambda>L. begin_submit L i rt (ck_ns ck)))
    (bindE (row_for i) (\<lambda>r. refresh_prepared REFRESH_FUEL X E sig rt (Some r)))))
      (\<lambda>_ t. \<exists>r. submitting_row i r \<and> prepared sig i {r} t
        \<and> wire_invariants (xs_request t) (xs_request t) rt) (\<lambda>_. waiting) t"
    using t begun[OF prepared_log[OF _ t, of XClock]] prepared_waiting[OF prepared_log[OF _ t, of XClock]]
    by (simp add: wp_bind[of "xcall c g" for c g] wp_xcall wp_then[of "on_book f" for f] wp_on_book
        split: sum.split)
qed

text \<open>
  The log of an admission: no order on the wire, or one, well-formed and with its submitting
  episode durable before it.
\<close>

definition one_safe_submit :: "signal \<Rightarrow> exec_call list \<Rightarrow> bool" where
  "one_safe_submit sig l \<longleftrightarrow>
     (\<forall>c \<in> set l. \<not> is_xsubmit c)
     \<or> (\<exists>pre req post rt i r c.
          l = pre @ XSubmit req # post \<and> (\<forall>c \<in> set (pre @ post). \<not> is_xsubmit c)
          \<and> wire_invariants req req rt \<and> or_coid req = entry_coid sig i
          \<and> c \<in> set pre \<and> latches c r \<and> submitting_row i r)"

lemma one_safe_submit_log:
  assumes "one_safe_submit sig l" "\<not> is_xsubmit c"
  shows "one_safe_submit sig (l @ [c])"
  using assms(1) unfolding one_safe_submit_def
proof (elim disjE exE conjE)
  fix pre req post rt i r d
  assume "l = pre @ XSubmit req # post" "\<forall>c \<in> set (pre @ post). \<not> is_xsubmit c"
    "wire_invariants req req rt" "or_coid req = entry_coid sig i" "d \<in> set pre" "latches d r"
    "submitting_row i r"
  then show "(\<forall>c \<in> set (l @ [c]). \<not> is_xsubmit c) \<or> (\<exists>pre req post rt i r c'.
          l @ [c] = pre @ XSubmit req # post \<and> (\<forall>c \<in> set (pre @ post). \<not> is_xsubmit c)
          \<and> wire_invariants req req rt \<and> or_coid req = entry_coid sig i
          \<and> c' \<in> set pre \<and> latches c' r \<and> submitting_row i r)"
    using assms(2)
    by (intro disjI2 exI[of _ pre] exI[of _ req] exI[of _ "post @ [c]"] exI[of _ rt] exI[of _ i]
        exI[of _ r] exI[of _ d]) auto
qed (use assms(2) in auto)

definition safe_log :: "signal \<Rightarrow> exec_state \<Rightarrow> bool" where
  "safe_log sig s \<longleftrightarrow> one_safe_submit sig (xs_log s)"

lemma safe_log_log: "\<not> is_xsubmit c \<Longrightarrow> safe_log sig s \<Longrightarrow> safe_log sig (xlog c s)"
  by (simp add: safe_log_def one_safe_submit_log)

lemma stable_safe_log: "stable (safe_log sig)"
  by (simp add: stable_def safe_log_log)

lemma waiting_safe_log: "waiting s \<Longrightarrow> safe_log sig s"
  by (simp add: waiting_def safe_log_def one_safe_submit_def)

lemma safe_log_same:
  "safe_log sig (add_permit m s) = safe_log sig s"
  "safe_log sig (s\<lparr>xs_attempt := a\<rparr>) = safe_log sig s"
  "safe_log sig (s\<lparr>xs_schwab_refusals := n\<rparr>) = safe_log sig s"
  "safe_log sig (s\<lparr>xs_book := L\<rparr>) = safe_log sig s"
  by (simp_all add: safe_log_def add_permit_def Let_def)

lemma on_attempt_safe: "keeps (safe_log sig) (on_attempt f)"
  by (auto simp: keeps_def on_attempt_def safe_log_same split: option.split prod.split)

lemma validate_wire_safe: "keeps (safe_log sig) (validate_wire X E sg i rt)"
  unfolding validate_wire_def
  by (intro keeps_bind keeps_get keeps_catch keeps_lift keeps_raise_if keeps_raise keeps_if
      keeps_build_request stable_safe_log)

lemma wire_script_safe: "keeps (safe_log sig) (wire_script X E sg i rt ws)"
proof (induction ws)
  case (Cons w ws)
  have "keeps (safe_log sig) (wire_action X E sg i rt w)"
    unfolding wire_action_def
    by (cases w; simp)
       (intro keeps_bind keeps_catch keeps_modify keeps_return keeps_raise validate_wire_safe on_attempt_safe;
        simp add: safe_log_same)+
  then show ?case using Cons by (simp add: keeps_then)
qed (simp add: keeps_return)

lemma settle_safe: "keeps (safe_log sig) (settle_unsent E i)"
proof -
  have "keeps (safe_log sig) (on_book f)" for f
    by (auto simp: keeps_def on_book_def safe_log_same split: sum.split)
  then show ?thesis
    unfolding settle_unsent_def save_row_def
    by (intro keeps_bind keeps_then keeps_row_for keeps_xcalls) (simp_all add: safe_log_log)
qed

lemma settle_local_safe: "keeps (safe_log sig) (settle_local X E i)"
  unfolding settle_local_def
  by (intro keeps_bind keeps_get)
     (auto split: option.split intro!: keeps_then keeps_return keeps_raise keeps_raise_if settle_safe
       keeps_xcalls safe_log_log)

lemma after_submit_safe:
  "keeps (safe_log sig) (thenE (settle_local X E i)
    (bindE (getE xs_request) (\<lambda>req.
     thenE (xtry (XRecord req) (xe_call E))
    (case reports of
       None \<Rightarrow> raiseE TypeError
     | Some rs \<Rightarrow>
         thenE (modifyE (\<lambda>s. if rt = SCHWAB \<and> list_ex (\<lambda>r. er_event r = ''rejected'' \<and> er_origin r = ''broker'') rs
                             then s\<lparr>xs_schwab_refusals := xs_schwab_refusals s + 1\<rparr> else s))
               (xtry (XRecordRoute i (sig_session_date sg) category) (xe_call E))))))"
  by (intro keeps_then keeps_bind keeps_get settle_local_safe)
     (auto split: option.split intro!: keeps_then keeps_raise keeps_modify keeps_xcalls safe_log_log
       simp: safe_log_same)

lemma submit_call_safe:
  assumes "prepared sig i {r} s" "submitting_row i r"
    and "wire_invariants (xs_request s) (xs_request s) rt"
  shows "wp (submit_call X E sg i' rt') (\<lambda>_. safe_log sig) (\<lambda>_. safe_log sig) s"
proof -
  let ?s = "xlog (XSubmit (xs_request s)) (s\<lparr>xs_attempt := Some (new_attempt 0 (xs_request s) 0)\<rparr>)"
  obtain c where c: "c \<in> set (xs_log s)" "latches c r" using assms(1) by (auto simp: prepared_def)
  have "safe_log sig ?s"
    unfolding safe_log_def one_safe_submit_def
    using assms c
    by (intro disjI2 exI[of _ "xs_log s"] exI[of _ "xs_request s"] exI[of _ "[]"] exI[of _ rt]
        exI[of _ i] exI[of _ r] exI[of _ c]) (auto simp: prepared_def waiting_def)
  then show ?thesis
    unfolding submit_call_def wp_bind[of "getE f" for f] wp_get id_apply
      wp_then[of "modifyE f" for f] wp_modify
    by (rule wp_thenI[OF wp_keeps[OF wire_script_safe]])
       (auto simp: wp_simps split: sum.split py_error.split)
qed

lemma admit_owned_safe:
  "waiting s \<Longrightarrow> wp (admit_owned X E sig i rt category) (\<lambda>_. safe_log sig) (\<lambda>_. safe_log sig) s"
proof -
  assume w: "waiting s"
  have submit: "wp (submit_phase X E sig i rt category) (\<lambda>_. safe_log sig) (\<lambda>_. safe_log sig) u"
    if u: "\<exists>r. submitting_row i r \<and> prepared sig i {r} u
        \<and> wire_invariants (xs_request u) (xs_request u) rt" for u
  proof -
    obtain r where r: "submitting_row i r" "prepared sig i {r} u"
      "wire_invariants (xs_request u) (xs_request u) rt" using u by blast
    show ?thesis
      unfolding submit_phase_def
      by (rule wp_bindI[OF submit_call_safe[OF r(2,1,3)]]) (rule wp_keeps[OF after_submit_safe])
  qed
  have latch: "wp (catchE (latch_phase X E sig i rt) (refused_before_wire X E i))
      (\<lambda>_ t. \<exists>r. submitting_row i r \<and> prepared sig i {r} t
        \<and> wire_invariants (xs_request t) (xs_request t) rt) (\<lambda>_. waiting) u"
    if "prepared sig i {} u" for u
  proof -
    have refused: "wp (refused_before_wire X E i e) (\<lambda>_ _. False) (\<lambda>_. waiting) v" if "waiting v" for e v
    proof -
      have never: "wp (refused_before_wire X E i e) (\<lambda>_ _. False) (\<lambda>_ _. True) v"
      proof -
        have T: "wp m (\<lambda>_ _. True) (\<lambda>_ _. True) w" for m :: "(exec_state, unit) eff" and w
          by (rule wp_top)
        show ?thesis
          unfolding refused_before_wire_def wp_bind[of "getE f" for f] wp_get
          by (cases e; simp add: wp_raise)
             (auto simp: wp_if wp_raise intro!: wp_thenI[OF T])
      qed
      show ?thesis
        by (rule wp_mono[OF wp_conj[OF never wp_keeps[OF refused_before_wire_waiting that]]]) auto
    qed
    show ?thesis
      unfolding wp_catch
      by (rule wp_mono[OF latch_phase_wp[OF that]]) (auto intro: wp_mono[OF refused])
  qed
  have weak: "wp m Q (\<lambda>_. safe_log sig) v" if "wp m Q (\<lambda>_. waiting) v" for m :: "(exec_state, 'b) eff" and Q v
    by (rule wp_mono[OF that]) (auto intro: waiting_safe_log)
  show ?thesis
    unfolding admit_owned_def
  proof (rule wp_bindI[OF weak[OF row_for_wp[where P = waiting, OF w]]])
    fix r t assume "waiting t"
    then show "wp (bindE (xtry (XDurableClaim r (account_for X rt) (route_value rt)) (xe_flag E)) (\<lambda>claimed.
     thenE (raise_if (\<not> claimed) (Refusal ''episode_already_durable_no_resubmit''))
    (thenE (quote_phase X E sig i rt)
    (thenE (prepare_phase X E sig i rt)
    (thenE (catchE (latch_phase X E sig i rt) (refused_before_wire X E i))
           (submit_phase X E sig i rt category)))))) (\<lambda>_. safe_log sig) (\<lambda>_. safe_log sig) t"
      by (intro wp_bindI[OF weak[OF wp_keeps[OF keeps_xcalls(1)]]]
          wp_thenI[OF weak[OF wp_keeps[OF keeps_raise_if]]]
          wp_thenI[OF weak[OF wp_keeps[OF quote_phase_waiting]]]
          wp_thenI[OF weak[OF prepare_phase_wp]] wp_thenI[OF weak[OF latch]] submit)
         (auto simp: waiting_log)
  qed (rule w)
qed


definition demo_exec_config :: exec_config where
  "demo_exec_config =
     \<lparr>xc_schwab_account = ''live:s'', xc_webull_account = ''live:w'', xc_quote_owner = False,
      xc_wait_quote = True, xc_refuse_unsent = True, xc_reprice = True, xc_refuse_local = True,
      xc_mark_refused = True, xc_metadata = (\<lambda>_. [])\<rparr>"

definition demo_exec_env :: exec_env where
  "demo_exec_env =
     \<lparr>xe_clock = (\<lambda>_. \<lparr>ck_ns = 2000000100, ck_date = ''2026-10-01'', ck_weekday = 3, ck_hour = 10,
                      ck_minute = 0\<rparr>),
      xe_quote = (\<lambda>_. \<lparr>lq_ask = Some (MDec (Fin 5)), lq_received_ns = Some 2000000000\<rparr>),
      xe_route = (\<lambda>_. Inr (Some ''webull'', ''sec_non_us'')), xe_call = (\<lambda>_. Inr ()),
      xe_flag = (\<lambda>n. Inr (n \<noteq> 3)),
      xe_wire = (\<lambda>_. [WDispatch]),
      xe_reports = (\<lambda>_. Inr []), xe_attempt_id = (\<lambda>_. ''a1'')\<rparr>"

definition demo_exec_state :: exec_state where
  "demo_exec_state =
     \<lparr>xs_book = demo_ledger, xs_log = [],
      xs_request = \<lparr>or_coid = [], or_account = [], or_strategy = [], or_symbol = [], or_side = [],
                    or_intent = [], or_quantity = 0, or_reason = [], or_metadata = [],
                    or_order_type = [], or_tif = []\<rparr>,
      xs_price_updates = 0, xs_attempt = None, xs_schwab_refusals = 0\<rparr>"

abbreviation demo_admission :: "(string \<times> bool) result \<times> exec_state" where
  "demo_admission \<equiv> admit (\<lambda>_. ''e1'') demo_exec_config demo_exec_env demo_signal demo_exec_state"

lemma demo_admission_run:
  "case demo_admission of (r, t) \<Rightarrow> r = Inr (''e1'', True)
     \<and> length (filter is_xsubmit (xs_log t)) = 1 \<and> dispatched t"
  by code_simp


theorem refresh_terminates_witness:
  "refresh_prepared 9 demo_exec_config demo_exec_env demo_signal WEBULL None demo_exec_state
   = refresh_prepared REFRESH_FUEL demo_exec_config demo_exec_env demo_signal WEBULL None demo_exec_state"
  by (rule refresh_terminates) (simp add: REFRESH_FUEL_def)

definition demo_order :: "rat \<Rightarrow> rat \<Rightarrow> order_request" where
  "demo_order limit quantity =
     \<lparr>or_coid = ''c'', or_account = ''live:w'', or_strategy = STRATEGY_CODE, or_symbol = ''ABC'',
      or_side = ''buy'', or_intent = ''open'', or_quantity = quantity, or_reason = ''r'',
      or_metadata = [(''limit_price'', MDec (Fin limit)), (''reference_price'', MDec (Fin limit)),
        (''cap_price'', MDec (Fin (203 / 40))), (''signal_price'', MDec (Fin 5)),
        (''momlive_one_shot'', MText ''true'')],
      or_order_type = ''limit'', or_tif = ''day''\<rparr>"

lemma demo_marketable:
  "marketable_entry (demo_order 5 20) (demo_order (251/50) 19) WEBULL = Inr (demo_order (251/50) 19)"
  by code_simp

theorem marketable_entry_upward_witness:
  "limit_of (demo_order (251/50) 19) = Inr (251/50) \<and> (251/50 :: rat) \<le> 5 * (1015 / 1000)"
  using marketable_entry_upward[OF demo_marketable]
  by (auto simp: demo_order_def limit_of_def meta_decimal_def)

section \<open>Dispatch or proof\<close>

text \<open>
  Everything that can happen to a bound attempt: checks with any outcome, dispatches, attempts to
  consume a proof, and changes of the bound request's metadata.
\<close>

datatype wire_label =
    LCheck "unit result"
  | LDispatch "unit result"
  | LConsume nat "meta option result"
  | LMutate order_request

inductive wire_step :: "wire_attempt \<Rightarrow> wire_label \<Rightarrow> wire_attempt \<Rightarrow> bool" where
  ws_check: "wire_check v q l y a = (r, a') \<Longrightarrow> wire_step a (LCheck r) a'"
| ws_dispatch: "before_transport a = (r, a') \<Longrightarrow> wire_step a (LDispatch r) a'"
| ws_consume: "consume_proof k task obj req a = (r, a') \<Longrightarrow> wire_step a (LConsume k r) a'"
| ws_mutate: "wire_step a (LMutate req) (a\<lparr>wa_request := req\<rparr>)"

inductive_cases wire_stepE: "wire_step a l a'"

definition wire_exclusive :: "wire_attempt \<Rightarrow> bool" where
  "wire_exclusive a \<longleftrightarrow> \<not> wa_dispatched a \<or> wa_proofs a = []"

fun wire_acts :: "wire_label \<Rightarrow> nat option" where
  "wire_acts (LConsume k (Inr _)) = Some k"
| "wire_acts _ = None"

definition proof_used :: "wire_attempt \<Rightarrow> nat \<Rightarrow> bool" where
  "proof_used a k \<longleftrightarrow> k < length (wa_proofs a) \<and> np_used (wa_proofs a ! k)"

lemma wire_step_exclusive:
  assumes "wire_exclusive a" "wire_step a l a'"
  shows "wire_exclusive a'"
  using assms(2,1)
  by (cases rule: wire_step.cases)
     (auto simp: wire_exclusive_def wire_check_def wire_refuse_def before_transport_def wa_proof_def
       consume_proof_def Let_def split: sum.splits if_splits)

lemma wire_step_used:
  assumes "wire_step a l a'"
  shows "proof_used a k \<Longrightarrow> proof_used a' k"
    and "wire_acts l = Some k \<Longrightarrow> \<not> proof_used a k \<and> proof_used a' k"
  using assms
  by (cases rule: wire_step.cases;
      auto simp: proof_used_def wire_check_def wire_refuse_def before_transport_def
       consume_proof_def Let_def nth_append nth_list_update split: sum.splits if_splits)+

interpretation wire: one_shot_system "\<lambda>a. \<exists>obj req task. a = new_attempt obj req task"
  wire_step wire_exclusive wire_acts proof_used
proof unfold_locales
  show "wire_exclusive s" if "\<exists>obj req task. s = new_attempt obj req task" for s
    using that by (auto simp: new_attempt_def wire_exclusive_def)
qed (rule wire_step_exclusive, assumption+, rule wire_step_used(2), assumption+,
     rule wire_step_used(1))

lemma dispatched_stays: "wire_step a l a' \<Longrightarrow> wa_dispatched a \<Longrightarrow> wa_dispatched a'"
  by (erule wire_step.cases)
     (auto simp: wire_check_def wire_refuse_def before_transport_def consume_proof_def Let_def
       split: sum.splits if_splits)

lemma proofs_stay: "wire_step a l a' \<Longrightarrow> wa_proofs a \<noteq> [] \<Longrightarrow> wa_proofs a' \<noteq> []"
  by (erule wire_step.cases)
     (auto simp: wire_check_def wire_refuse_def before_transport_def consume_proof_def Let_def
       split: sum.splits if_splits)

lemma wire_marks:
  "run wire_step a ls b \<Longrightarrow>
   (LDispatch (Inr ()) \<in> set ls \<longrightarrow> wa_dispatched b)
   \<and> ((\<exists>k m. LConsume k (Inr m) \<in> set ls) \<longrightarrow> wa_proofs b \<noteq> [])"
proof (induction rule: run.induct)
  case (run_snoc a ls b l c)
  have "l = LDispatch (Inr ()) \<Longrightarrow> wa_dispatched c" "l = LConsume k (Inr m) \<Longrightarrow> wa_proofs c \<noteq> []" for k m
    using run_snoc.hyps(2)
    by (auto elim!: wire_stepE simp: before_transport_def consume_proof_def Let_def split: if_splits)
  then show ?case
    using run_snoc.IH dispatched_stays[OF run_snoc.hyps(2)] proofs_stay[OF run_snoc.hyps(2)] by auto
qed simp

text \<open>
  C22: Sent or provably unsent, never both: in any history of one bound attempt (checks with any
  outcome, changed metadata, transports, proofs presented by any task with any request), a
  successful transport and an accepted proof of no dispatch exclude each other, and each proof
  is accepted at most once.
\<close>

theorem dispatch_xor_proof:
  assumes "run wire_step (new_attempt obj req task) ls b"
  shows "\<not> (LDispatch (Inr ()) \<in> set ls \<and> LConsume k (Inr m) \<in> set ls)
    \<and> length (filter (\<lambda>l. wire_acts l = Some j) ls) \<le> 1"
proof -
  have i: "wire_exclusive (new_attempt obj req task)"
    by (simp add: wire_exclusive_def new_attempt_def)
  have "wire_exclusive b" using wire.run_preserves[OF assms i] .
  then show ?thesis
    using wire_marks[OF assms] wire.at_most_one_act[OF assms i] by (auto simp: wire_exclusive_def)
qed

theorem dispatch_xor_proof_witness:
  "\<exists>ls b. run wire_step (new_attempt 0 (demo_order 5 20) 0) ls b
     \<and> (\<exists>m. LConsume 0 (Inr m) \<in> set ls) \<and> LDispatch (Inr ()) \<notin> set ls"
proof -
  let ?a = "new_attempt 0 (demo_order 5 20) 0"
  obtain r b where 1: "wire_check (Inr ()) None None ''ABC'' ?a = (r, b)" by fastforce
  then have b: "b = ?a\<lparr>wa_proofs := [\<lparr>np_reason = ''mombuffer1_serialized_wire_changed_no_dispatch'',
      np_permit = None, np_used = False\<rparr>]\<rparr>"
    by (simp add: wire_check_def wire_matches_def wire_refuse_def new_attempt_def demo_order_def)
  obtain m c where 2: "consume_proof 0 0 0 (demo_order 5 20) b = (m, c)" by fastforce
  have m: "m = Inr None"
    using 2 by (simp add: b consume_proof_def Let_def new_attempt_def demo_order_def
        without_permit_def request_eq_def dict_eq_def)
  have r: "run wire_step ?a [LCheck r, LConsume 0 m] c"
    by (rule run_Cons[where step = wire_step, OF ws_check[OF 1] run_one[where step = wire_step, OF ws_consume[OF 2]]])
  have "LConsume 0 (Inr None) \<in> set [LCheck r, LConsume 0 m]" using m by simp
  with dispatch_xor_proof[OF r, of 0 None 0] r show ?thesis by blast
qed

end
