(* ===== verification/ExitLogic.thy ===== *)
theory ExitLogic
  imports Prelude
begin

text \<open>
  The exit engine of the ladder strategies: \<open>exit_logic/position.py\<close> (the open position with its
  profit peak, tier, ratcheting floor and scale-outs), \<open>exit_logic/engine.py\<close> (the intrabar and
  bar-close exit rules) and \<open>exit_logic/cw_exit.py\<close> (the confirmed-window exit decision shared by
  live and backtest). Floats are modelled as exact rationals.
\<close>

section \<open>Positions\<close>

text \<open>The fields of \<open>TradingConfig\<close> the exit rules read.\<close>

record exit_config =
  scale_degraded1_pct :: rat
  scale_degraded1_sell_pct :: rat
  scale_degraded2_pct :: rat
  scale_degraded2_sell_pct :: rat
  scale_fast4_pct :: rat
  scale_fast4_sell_pct :: rat
  scale_normal2_pct :: rat
  scale_normal2_sell_pct :: rat
  scale_4after2_pct :: rat
  scale_4after2_sell_pct :: rat
  stop_loss_pct :: rat
  exit_stoch_health_filter_enabled :: bool
  exit_stoch_min_slope :: rat
  exit_stoch_overbought_level :: rat

record position =
  p_ticker :: string
  p_entry_price :: rat
  p_quantity :: int
  p_original_quantity :: int
  p_entry_time :: string
  p_entry_path :: string
  p_scale_profile :: string
  p_peak_profit_pct :: rat
  p_current_profit_pct :: rat
  p_current_price :: rat
  p_lock1 :: rat
  p_lock2 :: rat
  p_lock3 :: rat
  p_trail_buffer :: rat
  p_tier :: int
  p_floor_pct :: rat
  p_floor_price :: rat
  p_scales_done :: "string list"
  p_scale_pnl :: rat
  p_last_exit_bar :: int
  p_bars_since_entry :: int

text \<open>\<open>Position.__init__\<close>; \<open>now\<close> is the clock text used when no entry time is given.\<close>

definition new_position ::
  "string \<Rightarrow> string \<Rightarrow> rat \<Rightarrow> int \<Rightarrow> string \<Rightarrow> string \<Rightarrow> string \<Rightarrow> rat \<Rightarrow> rat \<Rightarrow> rat \<Rightarrow> rat \<Rightarrow> position" where
  "new_position now ticker entry quantity entry_time path profile l1 l2 l3 buffer =
     \<lparr>p_ticker = ticker, p_entry_price = entry, p_quantity = quantity,
      p_original_quantity = quantity,
      p_entry_time = (if entry_time = [] then now else entry_time), p_entry_path = path,
      p_scale_profile = py_upper (if profile = [] then ''NORMAL'' else profile),
      p_peak_profit_pct = 0, p_current_profit_pct = 0, p_current_price = entry,
      p_lock1 = l1, p_lock2 = l2, p_lock3 = l3, p_trail_buffer = buffer,
      p_tier = 1, p_floor_pct = -999, p_floor_price = 0, p_scales_done = [], p_scale_pnl = 0,
      p_last_exit_bar = -999, p_bars_since_entry = 0\<rparr>"

definition calculate_floor_pct :: "position \<Rightarrow> rat" where
  "calculate_floor_pct p =
     (let peak = p_peak_profit_pct p
      in if peak \<ge> 4 then peak - p_trail_buffer p
         else if peak \<ge> 3 then p_lock3 p
         else if peak \<ge> 2 then p_lock2 p
         else if peak \<ge> 1 then p_lock1 p
         else -999)"

definition raise_tier :: "position \<Rightarrow> position" where
  "raise_tier p =
     (if p_peak_profit_pct p \<ge> 3 then p\<lparr>p_tier := 3\<rparr>
      else if p_peak_profit_pct p \<ge> 1 then p\<lparr>p_tier := max (p_tier p) 2\<rparr>
      else p)"

definition raise_floor :: "position \<Rightarrow> position" where
  "raise_floor p =
     (let new_floor = calculate_floor_pct p
      in if new_floor > p_floor_pct p
         then p\<lparr>p_floor_pct := new_floor, p_floor_price := p_entry_price p * (1 + new_floor / 100)\<rparr>
         else p)"

definition update_price :: "rat \<Rightarrow> position \<Rightarrow> position" where
  "update_price price p =
     (let p1 = p\<lparr>p_current_price := price\<rparr>
      in if p_entry_price p \<le> 0 then p1
         else let profit = (price - p_entry_price p) / p_entry_price p * 100;
                  p2 = p1\<lparr>p_current_profit_pct := profit,
                          p_peak_profit_pct := (if profit > p_peak_profit_pct p then profit
                                                else p_peak_profit_pct p)\<rparr>
              in raise_floor (raise_tier p2))"

definition increment_bars :: "int \<Rightarrow> position \<Rightarrow> position" where
  "increment_bars count p = p\<lparr>p_bars_since_entry := p_bars_since_entry p + count\<rparr>"

definition is_floor_breached :: "position \<Rightarrow> bool" where
  "is_floor_breached p \<longleftrightarrow> \<not> p_floor_price p \<le> 0 \<and> p_current_price p \<le> p_floor_price p"

definition sell_quantity :: "int \<Rightarrow> rat \<Rightarrow> int" where
  "sell_quantity qty pct = max 1 (py_int (of_int qty * pct / 100))"

record scale_action =
  sa_level :: string
  sa_sell_pct :: rat
  sa_sell_qty :: int

definition scale_step :: "int \<Rightarrow> string \<Rightarrow> rat \<Rightarrow> scale_action" where
  "scale_step qty level pct = \<lparr>sa_level = level, sa_sell_pct = pct, sa_sell_qty = sell_quantity qty pct\<rparr>"

definition get_scale_action :: "exit_config \<Rightarrow> position \<Rightarrow> scale_action option" where
  "get_scale_action c p =
     (let profit = p_current_profit_pct p; qty = p_quantity p;
          done_levels = set (p_scales_done p)
      in if qty \<le> 0 then None
         else if p_scale_profile p = ''DEGRADED'' then
           (if profit \<ge> scale_degraded1_pct c \<and> ''PCT1'' \<notin> done_levels
            then Some (scale_step qty ''PCT1'' (scale_degraded1_sell_pct c))
            else if profit \<ge> scale_degraded2_pct c \<and> ''PCT2'' \<notin> done_levels
            then Some (scale_step qty ''PCT2'' (scale_degraded2_sell_pct c))
            else if profit \<ge> scale_fast4_pct c \<and> ''FAST4'' \<notin> done_levels
            then Some (scale_step qty ''FAST4'' (scale_fast4_sell_pct c))
            else None)
         else if profit \<ge> scale_fast4_pct c \<and> ''FAST4'' \<notin> done_levels \<and> ''PCT2'' \<notin> done_levels
         then Some (scale_step qty ''FAST4'' (scale_fast4_sell_pct c))
         else if profit \<ge> scale_normal2_pct c \<and> ''PCT2'' \<notin> done_levels \<and> ''FAST4'' \<notin> done_levels
         then Some (scale_step qty ''PCT2'' (scale_normal2_sell_pct c))
         else if profit \<ge> scale_4after2_pct c \<and> ''PCT2'' \<in> done_levels \<and> ''PCT4_AFTER2'' \<notin> done_levels
         then Some (scale_step qty ''PCT4_AFTER2'' (scale_4after2_sell_pct c))
         else None)"

definition apply_scale :: "string \<Rightarrow> int \<Rightarrow> rat \<Rightarrow> position \<Rightarrow> position" where
  "apply_scale level sell_qty exit_price p =
     (let q = p_quantity p - sell_qty
      in p\<lparr>p_scales_done := p_scales_done p @ [level],
           p_scale_pnl := (if exit_price > 0
                           then p_scale_pnl p + (exit_price - p_entry_price p) * of_int sell_qty
                           else p_scale_pnl p),
           p_quantity := (if q < 0 then 0 else q)\<rparr>)"

section \<open>Exit engine\<close>

datatype exit_action = CLOSE | SCALE

record exit_signal =
  xs_action :: exit_action
  xs_ticker :: string
  xs_reason :: string
  xs_price :: rat
  xs_profit_pct :: rat
  xs_tier :: "int option"
  xs_scale :: "scale_action option"

definition close_signal :: "position \<Rightarrow> string \<Rightarrow> rat \<Rightarrow> exit_signal" where
  "close_signal p reason price =
     \<lparr>xs_action = CLOSE, xs_ticker = p_ticker p, xs_reason = reason, xs_price = price,
      xs_profit_pct = p_current_profit_pct p, xs_tier = Some (p_tier p), xs_scale = None\<rparr>"

definition check_intrabar_exit :: "exit_config \<Rightarrow> position option \<Rightarrow> exit_signal option" where
  "check_intrabar_exit c po =
     (case po of None \<Rightarrow> None
      | Some p \<Rightarrow>
          if is_floor_breached p then Some (close_signal p ''FLOOR_BREACH'' (p_current_price p))
          else map_option
                 (\<lambda>a. \<lparr>xs_action = SCALE, xs_ticker = p_ticker p, xs_reason = ''SCALE_'' @ sa_level a,
                       xs_price = p_current_price p, xs_profit_pct = p_current_profit_pct p,
                       xs_tier = None, xs_scale = Some a\<rparr>)
                 (get_scale_action c p))"

text \<open>
  The bar indicators the bar-close rules read; a key missing from the source's dictionary reads
  as \<open>False\<close> or \<open>0\<close>, as \<open>bool(None)\<close> and \<open>float(x or 0.0)\<close> give.
\<close>

record bar_indicators =
  bi_stoch_k_below_exit :: bool
  bi_stoch_k_falling :: bool
  bi_macd_cross_below :: bool
  bi_price_above_ema9 :: bool
  bi_stoch_k :: rat
  bi_stoch_k_prev :: rat
  bi_stoch_k_prev2 :: rat
  bi_stoch_d :: rat

definition stoch_momentum_healthy :: "exit_config \<Rightarrow> bar_indicators \<Rightarrow> bool" where
  "stoch_momentum_healthy c i \<longleftrightarrow>
     (bi_stoch_k i > bi_stoch_k_prev i \<and> bi_stoch_k_prev i > bi_stoch_k_prev2 i)
     \<and> bi_stoch_k i > bi_stoch_d i
     \<and> bi_stoch_k i - bi_stoch_k_prev i \<ge> exit_stoch_min_slope c
     \<and> \<not> (bi_stoch_k_prev i \<ge> exit_stoch_overbought_level c \<and> bi_stoch_k i < bi_stoch_k_prev i)"

definition should_take_stoch_exit :: "exit_config \<Rightarrow> bar_indicators \<Rightarrow> bool" where
  "should_take_stoch_exit c i \<longleftrightarrow>
     (if \<not> bi_stoch_k_below_exit i \<or> \<not> bi_stoch_k_falling i then False
      else if \<not> exit_stoch_health_filter_enabled c then True
      else \<not> stoch_momentum_healthy c i)"

definition bar_exit_reason :: "exit_config \<Rightarrow> int \<Rightarrow> bar_indicators \<Rightarrow> string option" where
  "bar_exit_reason c tier i =
     (if tier = 1 then
        (if should_take_stoch_exit c i then Some ''STOCHK_TIER1''
         else if bi_macd_cross_below i then Some ''MACD_BEAR_T1'' else None)
      else if tier = 2 then
        (if should_take_stoch_exit c i \<and> \<not> bi_price_above_ema9 i then Some ''STOCHK_TIER2''
         else if bi_macd_cross_below i then Some ''MACD_BEAR_T2'' else None)
      else if tier = 3 then
        (if bi_macd_cross_below i then Some ''MACD_BEAR_T3'' else None)
      else None)"

text \<open>\<open>check_exit\<close>; no indicators at all are \<open>None\<close>.\<close>

definition check_exit ::
  "exit_config \<Rightarrow> position option \<Rightarrow> bar_indicators option \<Rightarrow> exit_signal option" where
  "check_exit c po io =
     (case (io, po) of
        (Some i, Some p) \<Rightarrow>
          (case check_intrabar_exit c (Some p) of
             Some x \<Rightarrow> Some x
           | None \<Rightarrow>
               map_option (\<lambda>reason. close_signal p reason (p_current_price p))
                 (bar_exit_reason c (p_tier p) i))
      | _ \<Rightarrow> None)"

definition check_hard_stop :: "exit_config \<Rightarrow> position \<Rightarrow> rat \<Rightarrow> exit_signal option" where
  "check_hard_stop c p price =
     (if price \<le> p_entry_price p * (1 - stop_loss_pct c / 100)
      then Some (close_signal p ''HARD_STOP'' price) else None)"

definition check_full_target :: "position option \<Rightarrow> rat \<Rightarrow> rat \<Rightarrow> exit_signal option" where
  "check_full_target po price target_pct =
     (case po of None \<Rightarrow> None
      | Some p \<Rightarrow>
          if target_pct \<le> 0 then None
          else if price \<ge> p_entry_price p * (1 + target_pct / 100)
          then Some (close_signal p ''CW_TARGET'' price) else None)"

definition check_hard_stop_pct :: "position option \<Rightarrow> rat \<Rightarrow> rat \<Rightarrow> exit_signal option" where
  "check_hard_stop_pct po price stop_pct =
     (case po of None \<Rightarrow> None
      | Some p \<Rightarrow>
          if stop_pct \<le> 0 then None
          else if price \<le> p_entry_price p * (1 - stop_pct / 100)
          then Some (close_signal p ''CW_HARD_STOP'' price) else None)"

section \<open>Confirmed-window exits\<close>

datatype cw_action = Hold | Target | Floor | Stop | Flip | Arm

definition cw_effective_floor :: "rat \<Rightarrow> rat \<Rightarrow> rat option \<Rightarrow> rat" where
  "cw_effective_floor entry floor_pct ratcheted =
     max (entry * (1 + floor_pct / 100)) (case ratcheted of None \<Rightarrow> 0 | Some r \<Rightarrow> r)"

record cw_params =
  cw_target_pct :: rat
  cw_stop_pct :: rat
  cw_floor_pct :: rat
  cw_floor_enabled :: bool

definition cw_exit_decision ::
  "cw_params \<Rightarrow> rat \<Rightarrow> rat \<Rightarrow> bool \<Rightarrow> bool \<Rightarrow> rat option \<Rightarrow> cw_action \<times> bool" where
  "cw_exit_decision c entry bid armed flip_pending ratcheted =
     (let tp = entry * (1 + cw_target_pct c / 100);
          hs = entry * (1 - cw_stop_pct c / 100)
      in if \<not> cw_floor_enabled c then
           (if bid \<ge> tp then (Target, armed)
            else if bid \<le> hs then (Stop, armed)
            else if flip_pending then (Flip, armed)
            else (Hold, armed))
         else if \<not> armed then
           (if bid \<ge> tp then (Arm, True)
            else if bid \<le> hs then (Stop, False)
            else if flip_pending then (Flip, False)
            else (Hold, False))
         else
           (if bid \<le> cw_effective_floor entry (cw_floor_pct c) ratcheted then (Floor, False)
            else if flip_pending then (Flip, False)
            else (Hold, True)))"

end
