(* ===== verification/ExitSpec.thy ===== *)
theory ExitSpec
  imports ExitLogic
begin

text \<open>
  What the exit engine promises: the ladder state is a closed form of the best price seen, a run
  of scale-outs sells each level once and never more than the position, and the confirmed-window
  decision agrees with the engine's own legs and never loosens an armed floor.
\<close>

section \<open>The ratcheting floor\<close>

definition profit_pct :: "rat \<Rightarrow> rat \<Rightarrow> rat" where
  "profit_pct entry price = (price - entry) / entry * 100"

definition tier_of :: "rat \<Rightarrow> int" where
  "tier_of peak = (if peak \<ge> 3 then 3 else if peak \<ge> 1 then 2 else 1)"

definition floor_pct_of :: "rat \<Rightarrow> rat \<Rightarrow> rat \<Rightarrow> rat \<Rightarrow> rat \<Rightarrow> rat" where
  "floor_pct_of l1 l2 l3 buffer peak =
     (if peak \<ge> 4 then peak - buffer else if peak \<ge> 3 then l3 else if peak \<ge> 2 then l2
      else if peak \<ge> 1 then l1 else -999)"

definition ordered_locks :: "rat \<Rightarrow> rat \<Rightarrow> rat \<Rightarrow> rat \<Rightarrow> bool" where
  "ordered_locks l1 l2 l3 buffer \<longleftrightarrow> -999 < l1 \<and> l1 \<le> l2 \<and> l2 \<le> l3 \<and> l3 \<le> 4 - buffer"

definition best_profit :: "rat \<Rightarrow> rat list \<Rightarrow> rat" where
  "best_profit entry prices = fold (\<lambda>x m. max m (profit_pct entry x)) prices 0"

lemma floor_pct_of_mono:
  "ordered_locks l1 l2 l3 b \<Longrightarrow> x \<le> y \<Longrightarrow> floor_pct_of l1 l2 l3 b x \<le> floor_pct_of l1 l2 l3 b y"
  unfolding floor_pct_of_def ordered_locks_def by auto

lemma floor_pct_of_above: "ordered_locks l1 l2 l3 b \<Longrightarrow> 1 \<le> x \<Longrightarrow> -999 < floor_pct_of l1 l2 l3 b x"
  unfolding floor_pct_of_def ordered_locks_def by auto

text \<open>The ladder state determined by a peak.\<close>

definition ladder :: "rat \<Rightarrow> rat \<Rightarrow> rat \<Rightarrow> rat \<Rightarrow> rat \<Rightarrow> rat \<Rightarrow> position \<Rightarrow> bool" where
  "ladder entry l1 l2 l3 b peak p \<longleftrightarrow>
     p_entry_price p = entry \<and> p_lock1 p = l1 \<and> p_lock2 p = l2 \<and> p_lock3 p = l3
     \<and> p_trail_buffer p = b \<and> p_peak_profit_pct p = peak \<and> p_tier p = tier_of peak
     \<and> p_floor_pct p = floor_pct_of l1 l2 l3 b peak
     \<and> p_floor_price p = (if 1 \<le> peak then entry * (1 + floor_pct_of l1 l2 l3 b peak / 100) else 0)"

lemma update_price_ladder:
  assumes e: "0 < entry" and l: "ordered_locks l1 l2 l3 b" and p: "ladder entry l1 l2 l3 b peak p"
  shows "ladder entry l1 l2 l3 b (max peak (profit_pct entry price)) (update_price price p)"
proof -
  define top where "top = max peak (profit_pct entry price)"
  let ?peak = top
  have m: "floor_pct_of l1 l2 l3 b peak \<le> floor_pct_of l1 l2 l3 b ?peak"
    using l by (rule floor_pct_of_mono) (simp add: top_def)
  have same: "1 \<le> peak" if "floor_pct_of l1 l2 l3 b ?peak = floor_pct_of l1 l2 l3 b peak" "1 \<le> ?peak"
    using floor_pct_of_above[OF l that(2)] that(1) by (auto simp: floor_pct_of_def split: if_splits)
  define p2 where "p2 = p\<lparr>p_current_price := price, p_current_profit_pct := profit_pct entry price,
      p_peak_profit_pct := ?peak\<rparr>"
  have u: "update_price price p = raise_floor (raise_tier p2)"
    using e p by (simp add: update_price_def Let_def ladder_def p2_def profit_pct_def top_def max_def)
  have t: "raise_tier p2 = p2\<lparr>p_tier := tier_of ?peak\<rparr>"
  proof -
    have "p_tier p2 = tier_of peak" "p_peak_profit_pct p2 = ?peak"
      using p by (simp_all add: p2_def ladder_def)
    moreover have "peak \<le> ?peak" by (simp add: top_def)
    ultimately show ?thesis by (auto simp: raise_tier_def tier_of_def)
  qed
  have c: "calculate_floor_pct (p2\<lparr>p_tier := tier_of ?peak\<rparr>) = floor_pct_of l1 l2 l3 b ?peak"
    using p by (simp add: calculate_floor_pct_def p2_def ladder_def floor_pct_of_def Let_def)
  have low: "floor_pct_of l1 l2 l3 b ?peak = -999" "floor_pct_of l1 l2 l3 b peak = -999"
    if "\<not> 1 \<le> ?peak"
  proof -
    have "peak \<le> ?peak" by (simp add: top_def)
    then have "\<not> 1 \<le> peak" "\<not> 2 \<le> peak" "\<not> 3 \<le> peak" "\<not> 4 \<le> peak"
      "\<not> 2 \<le> ?peak" "\<not> 3 \<le> ?peak" "\<not> 4 \<le> ?peak" using that by linarith+
    then show "floor_pct_of l1 l2 l3 b ?peak = -999" "floor_pct_of l1 l2 l3 b peak = -999"
      using that by (simp_all add: floor_pct_of_def)
  qed
  have le: "peak \<le> ?peak" by (simp add: top_def)
  have "ladder entry l1 l2 l3 b ?peak (update_price price p)"
  proof (cases "floor_pct_of l1 l2 l3 b ?peak > p_floor_pct p")
    case True
    then have "1 \<le> ?peak" using low p unfolding ladder_def by fastforce
    then show ?thesis
      using True p by (simp add: u t raise_floor_def c Let_def) (simp add: p2_def ladder_def)
  next
    case False
    then have eq: "floor_pct_of l1 l2 l3 b ?peak = floor_pct_of l1 l2 l3 b peak"
      using m p by (simp add: ladder_def)
    show ?thesis
      using False p same[OF eq] eq order_trans[OF _ le]
      by (auto simp: u t raise_floor_def c Let_def) (auto simp: p2_def ladder_def)
  qed  then show ?thesis by (simp add: top_def)
qed

lemma new_position_ladder:
  "ladder entry l1 l2 l3 b 0 (new_position now tk entry q et path profile l1 l2 l3 b)"
  by (simp add: ladder_def new_position_def tier_of_def floor_pct_of_def)

lemma updates_ladder:
  assumes "0 < entry" "ordered_locks l1 l2 l3 b"
  shows "ladder entry l1 l2 l3 b peak p \<Longrightarrow>
    ladder entry l1 l2 l3 b (fold (\<lambda>x m. max m (profit_pct entry x)) prices peak) (fold update_price prices p)"
  by (induction prices arbitrary: peak p) (simp_all add: update_price_ladder[OF assms])

text \<open>
  C29: The ladder is a ratchet of the best price: with locks in ascending order (as configured),
  after any sequence of prices the position's peak is the best profit seen, its tier and its
  floor percentage are those of that peak, and the floor price is the one that locks that
  percentage in; so no later price loosens the floor.
\<close>

theorem floor_is_ratchet:
  assumes "0 < entry" "ordered_locks l1 l2 l3 b"
  shows "ladder entry l1 l2 l3 b (best_profit entry prices)
           (fold update_price prices (new_position now tk entry q et path profile l1 l2 l3 b))
    \<and> p_floor_pct (fold update_price prices (new_position now tk entry q et path profile l1 l2 l3 b))
        \<le> p_floor_pct (fold update_price (prices @ later_prices)
                         (new_position now tk entry q et path profile l1 l2 l3 b))"
proof -
  let ?p = "new_position now tk entry q et path profile l1 l2 l3 b"
  have L: "ladder entry l1 l2 l3 b (best_profit entry xs) (fold update_price xs ?p)" for xs
    unfolding best_profit_def by (rule updates_ladder[OF assms new_position_ladder])
  have mono: "m \<le> fold (\<lambda>x m. max m (profit_pct entry x)) xs m" for m xs
    by (induction xs arbitrary: m) (auto intro: order_trans[OF max.cobounded1])
  have "best_profit entry prices \<le> best_profit entry (prices @ later_prices)"
    by (simp add: best_profit_def mono)
  then show ?thesis
    using L[of prices] L[of "prices @ later_prices"] floor_pct_of_mono[OF assms(2)]
    by (simp add: ladder_def)
qed

theorem floor_is_ratchet_witness:
  "p_floor_price (fold update_price [103, 106, 104]
     (new_position ''t'' ''ABC'' 100 10 ''e'' ''P1'' ''NORMAL'' 0 (1/2) (3/2) (3/2))) = 209 / 2"
proof -
  have "ordered_locks 0 (1/2) (3/2) (3/2)" by (simp add: ordered_locks_def)
  from floor_is_ratchet[OF _ this, of 100 "[103, 106, 104]" "''t''" "''ABC''" 10 "''e''" "''P1''"
      "''NORMAL''" "[]"]
  show ?thesis
    by (simp add: ladder_def best_profit_def profit_pct_def floor_pct_of_def)
qed

section \<open>Scale-outs\<close>

datatype position_label = Price rat | Scaled scale_action rat

text \<open>A position's life between its opening and its close: prices, and the scale-outs offered.\<close>

inductive position_step :: "exit_config \<Rightarrow> position \<Rightarrow> position_label \<Rightarrow> position \<Rightarrow> bool" for c where
  step_price: "position_step c p (Price x) (update_price x p)"
| step_scale: "get_scale_action c p = Some a \<Longrightarrow>
    position_step c p (Scaled a x) (apply_scale (sa_level a) (sa_sell_qty a) x p)"

inductive_simps position_step_Scaled: "position_step c p (Scaled a x) q"
inductive_simps position_step_Price: "position_step c p (Price x) q"

definition percentages_sane :: "exit_config \<Rightarrow> bool" where
  "percentages_sane c \<longleftrightarrow>
     (\<forall>x \<in> {scale_degraded1_sell_pct c, scale_degraded2_sell_pct c, scale_fast4_sell_pct c,
            scale_normal2_sell_pct c, scale_4after2_sell_pct c}. 0 \<le> x \<and> x \<le> 100)"

definition scale_levels :: "string set" where
  "scale_levels = {''PCT1'', ''PCT2'', ''FAST4'', ''PCT4_AFTER2''}"

text \<open>\<open>sold\<close> of the labels so far is the difference to the quantity the position started with.\<close>

definition scales_ok :: "position \<Rightarrow> bool" where
  "scales_ok p \<longleftrightarrow>
     0 \<le> p_quantity p \<and> distinct (p_scales_done p) \<and> set (p_scales_done p) \<subseteq> scale_levels
     \<and> (p_scale_profile p \<noteq> ''DEGRADED'' \<longrightarrow>
          ''PCT1'' \<notin> set (p_scales_done p)
          \<and> \<not> (''FAST4'' \<in> set (p_scales_done p) \<and> ''PCT2'' \<in> set (p_scales_done p))
          \<and> (''PCT4_AFTER2'' \<in> set (p_scales_done p) \<longrightarrow> ''PCT2'' \<in> set (p_scales_done p)))"

fun sold :: "position_label \<Rightarrow> int" where
  "sold (Price _) = 0"
| "sold (Scaled a _) = sa_sell_qty a"

lemma update_price_frame [simp]:
  "p_quantity (update_price x p) = p_quantity p"
  "p_scales_done (update_price x p) = p_scales_done p"
  "p_scale_profile (update_price x p) = p_scale_profile p"
  by (simp_all add: update_price_def Let_def raise_floor_def raise_tier_def)

lemma sell_quantity_bounds:
  assumes "0 < q" "0 \<le> pct" "pct \<le> 100"
  shows "1 \<le> sell_quantity q pct \<and> sell_quantity q pct \<le> q"
proof -
  have n: "0 \<le> (of_int q :: rat) * pct / 100" using assms by simp
  have "(of_int q :: rat) * pct \<le> of_int q * 100"
    using assms by (intro mult_left_mono) simp_all
  then have "(of_int q :: rat) * pct / 100 \<le> of_int q" by simp
  then have "\<lfloor>(of_int q :: rat) * pct / 100\<rfloor> \<le> q" by (simp add: floor_le_iff)
  moreover have "\<not> (of_int q :: rat) * pct / 100 < 0" using n by simp
  ultimately show ?thesis using assms(1) by (simp only: sell_quantity_def py_int_def if_False) simp
qed

lemma scale_action_facts:
  assumes "get_scale_action c p = Some a" "percentages_sane c"
  shows "1 \<le> sa_sell_qty a" "sa_sell_qty a \<le> p_quantity p" "sa_level a \<in> scale_levels"
    "sa_level a \<notin> set (p_scales_done p)"
    "p_scale_profile p \<noteq> ''DEGRADED'' \<Longrightarrow>
       sa_level a \<in> {''FAST4'', ''PCT2''} \<and> ''FAST4'' \<notin> set (p_scales_done p) \<and> ''PCT2'' \<notin> set (p_scales_done p)
       \<or> sa_level a = ''PCT4_AFTER2'' \<and> ''PCT2'' \<in> set (p_scales_done p)"
  using assms sell_quantity_bounds[of "p_quantity p"]
  by (auto simp: get_scale_action_def Let_def scale_step_def percentages_sane_def scale_levels_def
      split: if_splits)

lemma step_scales_ok:
  assumes "percentages_sane c" "scales_ok p" "position_step c p l q"
  shows "scales_ok q \<and> 0 \<le> sold l \<and> p_quantity q = p_quantity p - sold l"
  using assms(3)
proof (cases rule: position_step.cases)
  case (step_price x)
  then show ?thesis using assms(2) by (simp add: scales_ok_def)
next
  case (step_scale a x)
  note f = scale_action_facts[OF step_scale(3) assms(1)]
  have q: "p_scales_done q = p_scales_done p @ [sa_level a]" "p_scale_profile q = p_scale_profile p"
    "p_quantity q = p_quantity p - sa_sell_qty a"
    using step_scale f by (simp_all add: apply_scale_def Let_def)
  have base: "0 \<le> p_quantity q" "distinct (p_scales_done q)" "set (p_scales_done q) \<subseteq> scale_levels"
    using f assms(2) by (simp_all add: q scales_ok_def)
  have "scales_ok q"
  proof (cases "p_scale_profile p = ''DEGRADED''")
    case True
    then show ?thesis using base by (simp add: scales_ok_def q(2))
  next
    case False
    then have old: "''PCT1'' \<notin> set (p_scales_done p)"
      "''PCT4_AFTER2'' \<in> set (p_scales_done p) \<longrightarrow> ''PCT2'' \<in> set (p_scales_done p)"
      "\<not> (''FAST4'' \<in> set (p_scales_done p) \<and> ''PCT2'' \<in> set (p_scales_done p))"
      using assms(2) by (simp_all add: scales_ok_def)
    consider "sa_level a = ''FAST4''" "''FAST4'' \<notin> set (p_scales_done p)" "''PCT2'' \<notin> set (p_scales_done p)"
      | "sa_level a = ''PCT2''" "''FAST4'' \<notin> set (p_scales_done p)" "''PCT2'' \<notin> set (p_scales_done p)"
      | "sa_level a = ''PCT4_AFTER2''" "''PCT2'' \<in> set (p_scales_done p)"
      using f(5)[OF False] by blast
    then show ?thesis using base old by cases (simp_all add: scales_ok_def q)
  qed
  then show ?thesis using q(3) f(1) step_scale(1) by simp
qed

interpretation scaling: invariant_system "\<lambda>p. scales_ok p \<and> percentages_sane c"
  "position_step c" "\<lambda>p. scales_ok p \<and> percentages_sane c" for c
  by unfold_locales (auto dest: step_scales_ok)

lemma scaled_run:
  assumes "run (position_step c) p ls q" "scales_ok p" "percentages_sane c"
  shows "p_quantity q + sum_list (map sold ls) = p_quantity p"
  using assms
proof (induction rule: run.induct)
  case (run_snoc s ls t l u)
  have "scales_ok t" using scaling.run_preserves[OF run_snoc.hyps(1)] run_snoc.prems by blast
  from step_scales_ok[OF run_snoc.prems(2) this run_snoc.hyps(2)] show ?case
    using run_snoc.IH run_snoc.prems by simp
qed simp

text \<open>
  Scale-outs conserve shares: whatever the prices, the shares sold in scale-outs and the
  shares left add up to the shares opened, the rest is never negative, no level is sold twice,
  and a position outside the degraded profile never combines the fast level with the
  two-percent level, so it scales out at most twice.
\<close>

theorem scale_outs_conserve:
  assumes "run (position_step c) (new_position now tk entry q et path profile l1 l2 l3 b) ls p"
    and "0 \<le> q" and "percentages_sane c"
  shows "p_quantity p + sum_list (map sold ls) = q \<and> 0 \<le> p_quantity p
    \<and> distinct (p_scales_done p)
    \<and> (p_scale_profile p = ''DEGRADED'' \<or> length (p_scales_done p) \<le> 2)"
proof -
  let ?p = "new_position now tk entry q et path profile l1 l2 l3 b"
  have s: "scales_ok ?p" using assms(2) by (simp add: scales_ok_def new_position_def)
  have t: "scales_ok p" using scaling.run_preserves[OF assms(1)] s assms(3) by blast
  have two: "length (p_scales_done p) \<le> 2" if n: "p_scale_profile p \<noteq> ''DEGRADED''"
  proof -
    have d: "distinct (p_scales_done p)" using t by (simp add: scales_ok_def)
    have "set (p_scales_done p) \<subseteq> {''FAST4''} \<or> set (p_scales_done p) \<subseteq> {''PCT2'', ''PCT4_AFTER2''}"
      using t n by (auto simp: scales_ok_def scale_levels_def)
    then have "card (set (p_scales_done p)) \<le> 2"
      by (elim disjE; drule_tac card_mono[rotated]) simp_all
    then show ?thesis using distinct_card[OF d] by simp
  qed
  have "p_quantity ?p = q" by (simp add: new_position_def)
  then show ?thesis using scaled_run[OF assms(1) s assms(3)] t two by (auto simp: scales_ok_def)
qed

definition demo_exit_config :: exit_config where
  "demo_exit_config =
     \<lparr>scale_degraded1_pct = 1, scale_degraded1_sell_pct = 25, scale_degraded2_pct = 2,
      scale_degraded2_sell_pct = 25, scale_fast4_pct = 4, scale_fast4_sell_pct = 75,
      scale_normal2_pct = 2, scale_normal2_sell_pct = 50, scale_4after2_pct = 4,
      scale_4after2_sell_pct = 25, stop_loss_pct = 3 / 2,
      exit_stoch_health_filter_enabled = True, exit_stoch_min_slope = 0,
      exit_stoch_overbought_level = 80\<rparr>"

definition demo_open :: position where
  "demo_open = new_position ''t'' ''ABC'' 100 10 ''e'' ''P1'' ''NORMAL'' 0 (1/2) (3/2) (3/2)"

theorem scale_outs_conserve_witness:
  "\<exists>p. run (position_step demo_exit_config) demo_open
         [Price 102, Scaled (scale_step 10 ''PCT2'' 50) 102] p
     \<and> p_quantity p + 5 = 10"
proof -
  have "get_scale_action demo_exit_config (update_price 102 demo_open)
        = Some (scale_step 10 ''PCT2'' 50)"
    by code_simp
  then obtain p where r: "run (position_step demo_exit_config) demo_open
      [Price 102, Scaled (scale_step 10 ''PCT2'' 50) 102] p"
    using run_Cons[where step = "position_step demo_exit_config", OF step_price
        run_one[where step = "position_step demo_exit_config", OF step_scale]]
    by (metis)
  have "sa_sell_qty (scale_step 10 ''PCT2'' 50) = 5" by code_simp
  moreover have "percentages_sane demo_exit_config"
    by (simp add: percentages_sane_def demo_exit_config_def)
  ultimately show ?thesis
    using scale_outs_conserve[OF r[unfolded demo_open_def], of] r by (intro exI[of _ p]) simp
qed

section \<open>The confirmed-window decision\<close>

text \<open>
  One build for live and backtest: with the floor off, the shared decision is the
  engine's own legs in their order, first the full target, then the hard stop, then a pending flip.
\<close>

theorem cw_decision_is_engine_legs:
  assumes "\<not> cw_floor_enabled c" "0 < cw_target_pct c" "0 < cw_stop_pct c"
  shows "fst (cw_exit_decision c (p_entry_price p) bid armed flip ratcheted) =
    (if check_full_target (Some p) bid (cw_target_pct c) \<noteq> None then Target
     else if check_hard_stop_pct (Some p) bid (cw_stop_pct c) \<noteq> None then Stop
     else if flip then Flip else Hold)"
  using assms by (simp add: cw_exit_decision_def Let_def check_full_target_def check_hard_stop_pct_def)

text \<open>A holding period: quotes (bid, pending flip, durable ratchet) until an exit.\<close>

fun cw_ride ::
  "cw_params \<Rightarrow> rat \<Rightarrow> bool \<Rightarrow> (rat \<times> bool \<times> rat option) list \<Rightarrow> (cw_action \<times> rat) option \<times> bool" where
  "cw_ride c entry armed [] = (None, armed)"
| "cw_ride c entry armed ((bid, flip, ratchet) # qs) =
     (case cw_exit_decision c entry bid armed flip ratchet of
        (a, armed') \<Rightarrow>
          if a = Hold \<or> a = Arm then cw_ride c entry armed' qs else (Some (a, bid), armed'))"

lemma cw_armed_ride:
  assumes "cw_floor_enabled c"
  shows "cw_ride c entry True qs = (out, armed) \<Longrightarrow>
    (case out of
       None \<Rightarrow> armed \<and> (\<forall>(bid, _) \<in> set qs. entry * (1 + cw_floor_pct c / 100) < bid)
     | Some (a, bid) \<Rightarrow>
         a = Flip \<and> entry * (1 + cw_floor_pct c / 100) < bid
         \<or> a = Floor \<and> (\<exists>flip ratchet. (bid, flip, ratchet) \<in> set qs
                            \<and> bid \<le> cw_effective_floor entry (cw_floor_pct c) ratchet))"
proof (induction qs)
  case (Cons q qs)
  obtain bid flip ratchet where q: "q = (bid, flip, ratchet)" by (cases q) auto
  have "entry * (1 + cw_floor_pct c / 100) \<le> cw_effective_floor entry (cw_floor_pct c) ratchet"
    by (simp add: cw_effective_floor_def)
  then show ?case
    using Cons assms
    by (auto simp: q cw_exit_decision_def Let_def split: if_splits option.splits prod.splits)
qed simp

text \<open>
  Floor mode from entry: a position that has not reached its target exits at the stop or on a
  flip; it exits at the floor only after a bid reached the target, and then never at the
  stop: once armed it is held only while the bid is above the fixed lock, and each floor exit is
  at or below the effective floor in force.
\<close>

theorem cw_floor_mode_exit:
  assumes "cw_floor_enabled c" and "cw_ride c entry False qs = (Some (a, bid), armed)"
  shows "(a = Stop \<or> a = Flip \<or> a = Floor)
    \<and> (a = Floor \<longrightarrow> (\<exists>q \<in> set qs. entry * (1 + cw_target_pct c / 100) \<le> fst q)
                   \<and> (\<exists>flip ratchet. (bid, flip, ratchet) \<in> set qs
                        \<and> bid \<le> cw_effective_floor entry (cw_floor_pct c) ratchet))
    \<and> (a = Stop \<longrightarrow> bid \<le> entry * (1 - cw_stop_pct c / 100)
                  \<and> (\<exists>qs1 q qs2. qs = qs1 @ q # qs2 \<and> fst q = bid
                        \<and> (\<forall>q' \<in> set (qs1 @ [q]). fst q' < entry * (1 + cw_target_pct c / 100))))"
  using assms(2)
proof (induction qs)
  case (Cons q qs)
  obtain x flip ratchet where q: "q = (x, flip, ratchet)" by (cases q) auto
  let ?tp = "entry * (1 + cw_target_pct c / 100)"
  show ?case
  proof (cases "?tp \<le> x")
    case True
    then have "cw_ride c entry True qs = (Some (a, bid), armed)"
      using Cons.prems assms(1) by (simp add: q cw_exit_decision_def Let_def)
    from cw_armed_ride[OF assms(1) this] show ?thesis
      using True by (auto simp: q)
  next
    case below: False
    show ?thesis
    proof (cases "x \<le> entry * (1 - cw_stop_pct c / 100) \<or> flip")
      case True
      then have "a = Stop \<and> x \<le> entry * (1 - cw_stop_pct c / 100) \<or> a = Flip" "bid = x"
        using Cons.prems assms(1) below
        by (auto simp: q cw_exit_decision_def Let_def split: if_splits)
      then show ?thesis using below by (auto simp: q intro!: exI[of _ "[]"])
    next
      case False
      then have "cw_ride c entry False qs = (Some (a, bid), armed)"
        using Cons.prems assms(1) below by (simp add: q cw_exit_decision_def Let_def)
      from Cons.IH[OF this] below show ?thesis
        by (auto simp: q) (metis append_Cons fst_conv not_le set_ConsD)+
    qed
  qed
qed simp

definition demo_cw :: "bool \<Rightarrow> cw_params" where
  "demo_cw on = \<lparr>cw_target_pct = 5, cw_stop_pct = 5, cw_floor_pct = 2, cw_floor_enabled = on\<rparr>"

theorem cw_decision_is_engine_legs_witness:
  "fst (cw_exit_decision (demo_cw False) 100 105 False True None) = Target"
  using cw_decision_is_engine_legs[of "demo_cw False" demo_open 105 False True None]
  by (simp add: demo_cw_def check_full_target_def demo_open_def new_position_def)

theorem cw_floor_mode_exit_witness:
  "\<exists>q \<in> set [(106, False, None), (101, False, None)]. (105 :: rat) \<le> fst (q :: rat \<times> bool \<times> rat option)"
proof -
  have "cw_floor_enabled (demo_cw True)" by (simp add: demo_cw_def)
  moreover have "cw_ride (demo_cw True) 100 False [(106, False, None), (101, False, None)]
      = (Some (Floor, 101), False)"
    by code_simp
  ultimately show ?thesis
    using cw_floor_mode_exit[of "demo_cw True" 100 "[(106, False, None), (101, False, None)]" Floor 101 False]
    by (simp add: demo_cw_def)
qed

end
