(* ===== verification/FeedRetention.thy ===== *)
theory FeedRetention
  imports Prelude
begin

text \<open>
  \<open>strategy_core/feed_retention.py\<close>: whether a promoted symbol keeps its market-data feed. A
  symbol is active, cools down, probes a resume or is dropped; a degraded overlay with
  hysteresis runs beside. Times are seconds; the floats of prices, volumes and ranges are exact
  rationals.
\<close>

section \<open>Configuration, metrics and state\<close>

record feed_config =
  fc_structure_bars :: int
  fc_no_activity_minutes :: rat
  fc_cooldown_volume_ratio :: rat
  fc_cooldown_max_5m_range_pct :: rat
  fc_resume_hold_bars :: int
  fc_resume_min_5m_range_pct :: rat
  fc_resume_min_5m_volume_ratio :: rat
  fc_resume_min_5m_volume_abs :: rat
  fc_drop_cooldown_minutes :: rat
  fc_drop_max_5m_range_pct :: rat
  fc_drop_max_5m_volume_abs :: rat
  fc_degraded_enabled :: bool
  fc_degraded_warmup_bars :: int
  fc_degraded_enter_score :: int
  fc_degraded_enter_hold_bars :: int
  fc_degraded_exit_score :: int
  fc_degraded_exit_hold_bars :: int
  fc_degraded_volume_fade_ratio :: rat
  fc_degraded_breakdown_volume_ratio :: rat

definition default_feed_config :: feed_config where
  "default_feed_config =
     \<lparr>fc_structure_bars = 10, fc_no_activity_minutes = 20, fc_cooldown_volume_ratio = 4 / 10,
      fc_cooldown_max_5m_range_pct = 15 / 10, fc_resume_hold_bars = 3,
      fc_resume_min_5m_range_pct = 25 / 10, fc_resume_min_5m_volume_ratio = 15 / 10,
      fc_resume_min_5m_volume_abs = 150000, fc_drop_cooldown_minutes = 30,
      fc_drop_max_5m_range_pct = 1, fc_drop_max_5m_volume_abs = 75000,
      fc_degraded_enabled = False, fc_degraded_warmup_bars = 20, fc_degraded_enter_score = 4,
      fc_degraded_enter_hold_bars = 4, fc_degraded_exit_score = 3, fc_degraded_exit_hold_bars = 4,
      fc_degraded_volume_fade_ratio = 8 / 10, fc_degraded_breakdown_volume_ratio = 15 / 10\<rparr>"

record feed_metrics =
  fm_price :: "rat option"
  fm_ema9 :: "rat option"
  fm_vwap :: "rat option"
  fm_ema20 :: "rat option"
  fm_rolling_5m_volume :: "rat option"
  fm_rolling_5m_range_pct :: "rat option"
  fm_avg_bar_volume_5 :: "rat option"
  fm_avg_bar_volume_20 :: "rat option"
  fm_latest_bar_volume :: "rat option"
  fm_latest_bar_red :: bool
  fm_ema9_falling :: bool
  fm_ema9_rising :: bool
  fm_lower_highs_or_closes :: bool
  fm_higher_highs_or_closes :: bool
  fm_total_bars :: int
  fm_bar_timestamp :: "rat option"

datatype feed_phase = Active | Cooldown | ResumeProbe | Dropped

record retained =
  rs_symbol :: string
  rs_state :: feed_phase
  rs_promoted_at :: rat
  rs_state_changed_at :: rat
  rs_last_confirmed_at :: rat
  rs_last_activity_at :: rat
  rs_reference_5m_volume :: rat
  rs_cooldown_started_at :: "rat option"
  rs_below_bars :: int
  rs_above_bars :: int
  rs_last_bar_timestamp :: "rat option"
  rs_degraded_mode :: bool
  rs_degraded_since :: "rat option"
  rs_degraded_score :: int
  rs_recovery_score :: int
  rs_enter_streak :: int
  rs_exit_streak :: int

definition blocks_entries :: "retained \<Rightarrow> bool" where
  "blocks_entries s \<longleftrightarrow> rs_state s = Cooldown \<or> rs_state s = ResumeProbe"

definition keeps_feed :: "retained \<Rightarrow> bool" where
  "keeps_feed s \<longleftrightarrow> rs_state s \<noteq> Dropped"

definition minutes_since :: "rat \<Rightarrow> rat \<Rightarrow> rat" where
  "minutes_since start now = max 0 ((now - start) / 60)"

section \<open>Structure and volume\<close>

definition is_above_structure :: "feed_metrics \<Rightarrow> bool" where
  "is_above_structure m \<longleftrightarrow>
     (case (fm_price m, fm_ema20 m) of
        (Some p, Some e) \<Rightarrow>
          \<not> p < e \<and> (case fm_vwap m of None \<Rightarrow> True | Some v \<Rightarrow> \<not> p < v)
      | _ \<Rightarrow> False)"

definition is_below_structure :: "feed_metrics \<Rightarrow> bool" where
  "is_below_structure m \<longleftrightarrow>
     (case (fm_price m, fm_ema20 m, fm_vwap m) of
        (Some p, Some e, Some v) \<Rightarrow> p < e \<and> p < v | _ \<Rightarrow> False)"

definition has_resume_energy :: "feed_config \<Rightarrow> feed_metrics \<Rightarrow> retained \<Rightarrow> bool" where
  "has_resume_energy c m s \<longleftrightarrow>
     is_above_structure m
     \<and> or_zero (fm_rolling_5m_range_pct m) \<ge> fc_resume_min_5m_range_pct c
     \<and> or_zero (fm_rolling_5m_volume m) \<ge>
         max (fc_resume_min_5m_volume_abs c)
             (rs_reference_5m_volume s * fc_resume_min_5m_volume_ratio c)"

definition is_cooldown_volume :: "feed_config \<Rightarrow> feed_metrics \<Rightarrow> retained \<Rightarrow> bool" where
  "is_cooldown_volume c m s \<longleftrightarrow>
     \<not> rs_reference_5m_volume s \<le> 0
     \<and> or_zero (fm_rolling_5m_volume m) \<le> rs_reference_5m_volume s * fc_cooldown_volume_ratio c"

definition should_drop :: "feed_config \<Rightarrow> retained \<Rightarrow> rat \<Rightarrow> feed_metrics \<Rightarrow> bool \<Rightarrow> bool" where
  "should_drop c s now m up \<longleftrightarrow>
     (case rs_cooldown_started_at s of
        None \<Rightarrow> False
      | Some t \<Rightarrow>
          minutes_since t now \<ge> fc_drop_cooldown_minutes c \<and> \<not> up
          \<and> or_zero (fm_rolling_5m_range_pct m) \<le> fc_drop_max_5m_range_pct c
          \<and> or_zero (fm_rolling_5m_volume m) \<le> fc_drop_max_5m_volume_abs c)"

text \<open>\<open>hour\<close> is the clock hour of \<open>now\<close>.\<close>

definition looks_dead_tape :: "feed_config \<Rightarrow> feed_metrics \<Rightarrow> int \<Rightarrow> bool" where
  "looks_dead_tape c m hour \<longleftrightarrow>
     (case (fm_vwap m, fm_price m, fm_ema20 m) of
        (None, Some p, Some e) \<Rightarrow>
          hour \<ge> 16 \<and> e > 0
          \<and> or_zero (fm_rolling_5m_volume m) \<le> fc_drop_max_5m_volume_abs c
          \<and> or_zero (fm_rolling_5m_range_pct m) \<le> max (fc_drop_max_5m_range_pct c) (125 / 100)
          \<and> \<bar>p - e\<bar> / e * 100 \<le> 1 / 2
      | _ \<Rightarrow> False)"

definition refresh_reference :: "feed_metrics option \<Rightarrow> retained \<Rightarrow> retained" where
  "refresh_reference mo s =
     (case mo of
        None \<Rightarrow> s
      | Some m \<Rightarrow>
          (case fm_rolling_5m_volume m of
             None \<Rightarrow> s
           | Some v \<Rightarrow>
               if v \<le> 0 then s
               else if rs_reference_5m_volume s \<le> 0 then s\<lparr>rs_reference_5m_volume := v\<rparr>
               else s\<lparr>rs_reference_5m_volume :=
                        rs_reference_5m_volume s * (8 / 10) + v * (2 / 10)\<rparr>))"

definition feed_transition :: "feed_phase \<Rightarrow> rat \<Rightarrow> retained \<Rightarrow> retained" where
  "feed_transition next_state now s =
     (if rs_state s = next_state then s
      else s\<lparr>rs_state := next_state, rs_state_changed_at := now\<rparr>)"

section \<open>Degraded overlay\<close>

definition score :: "bool \<Rightarrow> int" where
  "score b = (if b then 1 else 0)"

definition less_opt :: "rat \<Rightarrow> rat option \<Rightarrow> bool" where
  "less_opt p x \<longleftrightarrow> (case x of None \<Rightarrow> False | Some v \<Rightarrow> p < v)"

definition greater_opt :: "rat \<Rightarrow> rat option \<Rightarrow> bool" where
  "greater_opt p x \<longleftrightarrow> (case x of None \<Rightarrow> False | Some v \<Rightarrow> p > v)"

definition degraded_volume_condition :: "feed_config \<Rightarrow> feed_metrics \<Rightarrow> bool" where
  "degraded_volume_condition c m \<longleftrightarrow>
     (let avg5 = or_zero (fm_avg_bar_volume_5 m); avg20 = or_zero (fm_avg_bar_volume_20 m)
      in (avg20 > 0 \<and> avg5 \<le> avg20 * fc_degraded_volume_fade_ratio c)
         \<or> (fm_latest_bar_red m \<and> avg20 > 0
            \<and> or_zero (fm_latest_bar_volume m) \<ge> avg20 * fc_degraded_breakdown_volume_ratio c))"

definition recovery_volume_condition :: "feed_metrics \<Rightarrow> bool" where
  "recovery_volume_condition m \<longleftrightarrow>
     (let avg5 = or_zero (fm_avg_bar_volume_5 m); avg20 = or_zero (fm_avg_bar_volume_20 m)
      in avg20 > 0 \<and> avg5 \<ge> avg20)"

definition degraded_score :: "feed_config \<Rightarrow> feed_metrics \<Rightarrow> int" where
  "degraded_score c m =
     (case fm_price m of
        None \<Rightarrow> 0
      | Some p \<Rightarrow>
          score (less_opt p (fm_ema9 m)) + score (less_opt p (fm_ema20 m))
          + score (less_opt p (fm_vwap m)) + score (fm_ema9_falling m)
          + score (degraded_volume_condition c m) + score (fm_lower_highs_or_closes m))"

definition recovery_score :: "feed_metrics \<Rightarrow> int" where
  "recovery_score m =
     (case fm_price m of
        None \<Rightarrow> 0
      | Some p \<Rightarrow>
          score (greater_opt p (fm_ema9 m)) + score (greater_opt p (fm_ema20 m))
          + score (greater_opt p (fm_vwap m)) + score (fm_ema9_rising m)
          + score (recovery_volume_condition m) + score (fm_higher_highs_or_closes m))"

definition is_recovery_ready :: "feed_metrics \<Rightarrow> bool" where
  "is_recovery_ready m \<longleftrightarrow>
     (case (fm_price m, fm_ema9 m) of
        (Some p, Some e) \<Rightarrow>
          \<not> p \<le> e \<and> (case fm_vwap m of None \<Rightarrow> True | Some v \<Rightarrow> \<not> p \<le> v)
      | _ \<Rightarrow> False)"

definition update_degraded :: "feed_config \<Rightarrow> feed_metrics \<Rightarrow> rat \<Rightarrow> retained \<Rightarrow> retained" where
  "update_degraded c m now s =
     (if \<not> fc_degraded_enabled c
      then s\<lparr>rs_degraded_mode := False, rs_degraded_since := None, rs_degraded_score := 0,
             rs_recovery_score := 0, rs_enter_streak := 0, rs_exit_streak := 0\<rparr>
      else let s1 = s\<lparr>rs_degraded_score := degraded_score c m, rs_recovery_score := recovery_score m\<rparr>
           in if rs_degraded_mode s1
              then let streak = (if is_recovery_ready m \<and> rs_recovery_score s1 \<ge> fc_degraded_exit_score c
                                 then rs_exit_streak s1 + 1 else 0);
                       s2 = s1\<lparr>rs_exit_streak := streak\<rparr>
                   in if rs_exit_streak s2 \<ge> fc_degraded_exit_hold_bars c
                      then s2\<lparr>rs_degraded_mode := False, rs_degraded_since := None,
                              rs_enter_streak := 0, rs_exit_streak := 0\<rparr>
                      else s2
              else if fm_total_bars m < fc_degraded_warmup_bars c then s1\<lparr>rs_enter_streak := 0\<rparr>
              else let streak = (if rs_degraded_score s1 \<ge> fc_degraded_enter_score c
                                 then rs_enter_streak s1 + 1 else 0);
                       s2 = s1\<lparr>rs_enter_streak := streak\<rparr>
                   in if rs_enter_streak s2 \<ge> fc_degraded_enter_hold_bars c
                      then s2\<lparr>rs_degraded_mode := True, rs_degraded_since := Some now,
                              rs_exit_streak := 0\<rparr>
                      else s2)"

section \<open>Evaluation\<close>

definition promote :: "string \<Rightarrow> rat \<Rightarrow> feed_metrics option \<Rightarrow> retained" where
  "promote symbol now mo =
     \<lparr>rs_symbol = py_upper symbol, rs_state = Active, rs_promoted_at = now,
      rs_state_changed_at = now, rs_last_confirmed_at = now, rs_last_activity_at = now,
      rs_reference_5m_volume = (case mo of None \<Rightarrow> 0 | Some m \<Rightarrow> or_zero (fm_rolling_5m_volume m)),
      rs_cooldown_started_at = None, rs_below_bars = 0, rs_above_bars = 0,
      rs_last_bar_timestamp = (case mo of None \<Rightarrow> None | Some m \<Rightarrow> fm_bar_timestamp m),
      rs_degraded_mode = False, rs_degraded_since = None, rs_degraded_score = 0,
      rs_recovery_score = 0, rs_enter_streak = 0, rs_exit_streak = 0\<rparr>"

definition on_confirmed :: "rat \<Rightarrow> feed_metrics option \<Rightarrow> retained \<Rightarrow> retained" where
  "on_confirmed now mo s =
     refresh_reference mo
       ((feed_transition Active now s)
          \<lparr>rs_last_confirmed_at := now, rs_last_activity_at := now, rs_cooldown_started_at := None,
           rs_below_bars := 0, rs_above_bars := 0\<rparr>)"

definition enter_cooldown :: "rat \<Rightarrow> retained \<Rightarrow> retained" where
  "enter_cooldown now s =
     (feed_transition Cooldown now s)\<lparr>rs_cooldown_started_at := Some now, rs_above_bars := 0\<rparr>"

definition without_metrics :: "feed_config \<Rightarrow> rat \<Rightarrow> retained \<Rightarrow> retained" where
  "without_metrics c now s =
     (case rs_state s of
        Active \<Rightarrow>
          if minutes_since (rs_last_activity_at s) now \<ge> fc_no_activity_minutes c
          then (enter_cooldown now s)\<lparr>rs_below_bars := 0\<rparr> else s
      | Cooldown \<Rightarrow>
          (case rs_cooldown_started_at s of
             None \<Rightarrow> s
           | Some t \<Rightarrow> if minutes_since t now \<ge> fc_drop_cooldown_minutes c
                       then feed_transition Dropped now s else s)
      | _ \<Rightarrow> s)"

definition count_structure :: "feed_metrics \<Rightarrow> retained \<Rightarrow> retained" where
  "count_structure m s =
     (if fm_bar_timestamp m \<noteq> None \<and> fm_bar_timestamp m \<noteq> rs_last_bar_timestamp s
      then let s1 = s\<lparr>rs_last_bar_timestamp := fm_bar_timestamp m\<rparr>
           in if is_above_structure m
              then s1\<lparr>rs_above_bars := rs_above_bars s1 + 1, rs_below_bars := 0\<rparr>
              else if is_below_structure m
              then s1\<lparr>rs_below_bars := rs_below_bars s1 + 1, rs_above_bars := 0\<rparr>
              else s1\<lparr>rs_above_bars := 0, rs_below_bars := 0\<rparr>
      else s)"

definition evaluate_active ::
  "feed_config \<Rightarrow> rat \<Rightarrow> int \<Rightarrow> feed_metrics \<Rightarrow> bool \<Rightarrow> bool \<Rightarrow> retained \<Rightarrow> retained" where
  "evaluate_active c now hour m up strong s =
     (let s1 = (if up \<or> strong then refresh_reference (Some m) s else s);
          s2 = (if strong then s1\<lparr>rs_last_activity_at := now\<rparr> else s1);
          idle = minutes_since (rs_last_activity_at s2) now;
          low_volume = is_cooldown_volume c m s2;
          low_range = (or_zero (fm_rolling_5m_range_pct m) \<le> fc_cooldown_max_5m_range_pct c)
      in if looks_dead_tape c m hour then enter_cooldown now s2
         else if rs_reference_5m_volume s2 > 0 \<and> fm_bar_timestamp m = None
                 \<and> idle \<ge> fc_no_activity_minutes c \<and> or_zero (fm_rolling_5m_volume m) \<le> 0
                 \<and> low_range
         then enter_cooldown now s2
         else if rs_below_bars s2 \<ge> fc_structure_bars c \<and> idle \<ge> fc_no_activity_minutes c
                 \<and> low_volume \<and> low_range
         then enter_cooldown now s2
         else s2)"

definition evaluate_cooldown ::
  "feed_config \<Rightarrow> rat \<Rightarrow> feed_metrics \<Rightarrow> bool \<Rightarrow> bool \<Rightarrow> retained \<Rightarrow> retained" where
  "evaluate_cooldown c now m up strong s =
     (if strong \<and> up
      then (feed_transition ResumeProbe now s)\<lparr>rs_above_bars := max 1 (rs_above_bars s)\<rparr>
      else if should_drop c s now m up then feed_transition Dropped now s
      else s)"

definition keep_or_start :: "rat \<Rightarrow> retained \<Rightarrow> retained" where
  "keep_or_start now s =
     (feed_transition Cooldown now s)
        \<lparr>rs_cooldown_started_at :=
           Some (case rs_cooldown_started_at s of None \<Rightarrow> now | Some t \<Rightarrow> t)\<rparr>"

definition evaluate_resume ::
  "feed_config \<Rightarrow> rat \<Rightarrow> feed_metrics \<Rightarrow> bool \<Rightarrow> bool \<Rightarrow> retained \<Rightarrow> retained" where
  "evaluate_resume c now m up strong s =
     (if \<not> up then (keep_or_start now s)\<lparr>rs_above_bars := 0\<rparr>
      else if strong \<and> rs_above_bars s \<ge> fc_resume_hold_bars c
      then refresh_reference (Some m)
             ((feed_transition Active now s)
                \<lparr>rs_last_activity_at := now, rs_cooldown_started_at := None\<rparr>)
      else if \<not> strong then keep_or_start now s
      else s)"

text \<open>
  \<open>evaluate\<close> of an existing state. The last branch of the source, a dropped and confirmed symbol, is
  never taken: a confirmation returns before it.
\<close>

definition evaluate_state ::
  "feed_config \<Rightarrow> string \<Rightarrow> rat \<Rightarrow> int \<Rightarrow> bool \<Rightarrow> feed_metrics option \<Rightarrow> retained \<Rightarrow> retained" where
  "evaluate_state c symbol now hour confirmed mo s0 =
     (let s = s0\<lparr>rs_symbol := py_upper symbol\<rparr>
      in if confirmed then on_confirmed now mo s
         else case mo of
           None \<Rightarrow> without_metrics c now s
         | Some m \<Rightarrow>
             if fm_price m = None then without_metrics c now s
             else let s1 = update_degraded c m now s;
                      up = is_above_structure m;
                      strong = has_resume_energy c m s1;
                      s2 = count_structure m s1
                  in case rs_state s2 of
                       Active \<Rightarrow> evaluate_active c now hour m up strong s2
                     | Cooldown \<Rightarrow> evaluate_cooldown c now m up strong s2
                     | ResumeProbe \<Rightarrow> evaluate_resume c now m up strong s2
                     | Dropped \<Rightarrow> s2)"

definition evaluate ::
  "feed_config \<Rightarrow> string \<Rightarrow> rat \<Rightarrow> int \<Rightarrow> bool \<Rightarrow> feed_metrics option \<Rightarrow> retained option \<Rightarrow> retained option"
where
  "evaluate c symbol now hour confirmed mo so =
     (case so of
        None \<Rightarrow> if \<not> confirmed then None else Some (promote (py_upper symbol) now mo)
      | Some s \<Rightarrow> Some (evaluate_state c symbol now hour confirmed mo s))"

end
