(* ===== verification/FeedRetentionSpec.thy ===== *)
theory FeedRetentionSpec
  imports FeedRetention
begin

text \<open>
  What the feed retention promises: its phases change only along the intended edges, a drop needs
  a cooldown of the configured length, a symbol returns to active without a new confirmation
  only from a probe that held, and the degraded overlay has hysteresis.
\<close>

section \<open>Phases\<close>

fun phase_edge :: "feed_phase \<Rightarrow> feed_phase \<Rightarrow> bool" where
  "phase_edge Active q \<longleftrightarrow> q = Active \<or> q = Cooldown"
| "phase_edge Cooldown q \<longleftrightarrow> q = Cooldown \<or> q = ResumeProbe \<or> q = Dropped"
| "phase_edge ResumeProbe q \<longleftrightarrow> q = ResumeProbe \<or> q = Active \<or> q = Cooldown"
| "phase_edge Dropped q \<longleftrightarrow> q = Dropped"

named_theorems feed_simps "phases and clocks of the retained state's updates"

lemma transition_simps [feed_simps]:
  "rs_state (feed_transition q now s) = q"
  "rs_cooldown_started_at (feed_transition q now s) = rs_cooldown_started_at s"
  "rs_above_bars (feed_transition q now s) = rs_above_bars s"
  "rs_last_activity_at (feed_transition q now s) = rs_last_activity_at s"
  "rs_reference_5m_volume (feed_transition q now s) = rs_reference_5m_volume s"
  by (auto simp: feed_transition_def)

lemma refresh_simps [feed_simps]:
  "rs_state (refresh_reference mo s) = rs_state s"
  "rs_cooldown_started_at (refresh_reference mo s) = rs_cooldown_started_at s"
  "rs_above_bars (refresh_reference mo s) = rs_above_bars s"
  by (auto simp: refresh_reference_def split: option.split)

lemma degraded_frame [feed_simps]:
  "rs_state (update_degraded c m now s) = rs_state s"
  "rs_cooldown_started_at (update_degraded c m now s) = rs_cooldown_started_at s"
  "rs_above_bars (update_degraded c m now s) = rs_above_bars s"
  "rs_reference_5m_volume (update_degraded c m now s) = rs_reference_5m_volume s"
  "rs_last_bar_timestamp (update_degraded c m now s) = rs_last_bar_timestamp s"
  by (auto simp: update_degraded_def Let_def)

lemma count_simps [feed_simps]:
  "rs_state (count_structure m s) = rs_state s"
  "rs_cooldown_started_at (count_structure m s) = rs_cooldown_started_at s"
  "rs_reference_5m_volume (count_structure m s) = rs_reference_5m_volume s"
  by (auto simp: count_structure_def Let_def)

lemma phase_simps [feed_simps]:
  "rs_state (enter_cooldown now s) = Cooldown"
  "rs_cooldown_started_at (enter_cooldown now s) = Some now"
  "rs_state (keep_or_start now s) = Cooldown"
  "rs_cooldown_started_at (keep_or_start now s) \<noteq> None"
  by (simp_all add: enter_cooldown_def keep_or_start_def feed_simps)

lemma strong_is_up: "has_resume_energy c m s \<Longrightarrow> is_above_structure m"
  by (simp add: has_resume_energy_def)

lemma count_above_degraded [feed_simps]:
  "rs_above_bars (count_structure m (update_degraded c m now s)) = rs_above_bars (count_structure m s)"
  by (simp add: count_structure_def Let_def feed_simps)

lemma without_metrics_phase: "phase_edge (rs_state s) (rs_state (without_metrics c now s))"
  by (auto simp: without_metrics_def feed_simps split: feed_phase.splits option.splits)

lemma active_phase: "rs_state s = Active \<Longrightarrow>
    phase_edge Active (rs_state (evaluate_active c now hour m up strong s))"
  by (auto simp: evaluate_active_def Let_def feed_simps)

lemma cooldown_phase: "rs_state s = Cooldown \<Longrightarrow>
    phase_edge Cooldown (rs_state (evaluate_cooldown c now m up strong s))"
  by (auto simp: evaluate_cooldown_def feed_simps)

lemma resume_phase: "rs_state s = ResumeProbe \<Longrightarrow>
    phase_edge ResumeProbe (rs_state (evaluate_resume c now m up strong s))"
  by (auto simp: evaluate_resume_def feed_simps)

lemma resume_completed: "rs_state s = ResumeProbe \<Longrightarrow>
    rs_state (evaluate_resume c now m up strong s) = Active \<Longrightarrow>
    up \<and> strong \<and> rs_above_bars s \<ge> fc_resume_hold_bars c"
  by (auto simp: evaluate_resume_def feed_simps split: if_splits)

text \<open>The unconfirmed evaluation with a price, by phase.\<close>

definition evaluate_priced ::
  "feed_config \<Rightarrow> rat \<Rightarrow> int \<Rightarrow> feed_metrics \<Rightarrow> retained \<Rightarrow> retained" where
  "evaluate_priced c now hour m s =
     (let s1 = update_degraded c m now s; up = is_above_structure m;
          strong = has_resume_energy c m s1; s2 = count_structure m s1
      in case rs_state s of
           Active \<Rightarrow> evaluate_active c now hour m up strong s2
         | Cooldown \<Rightarrow> evaluate_cooldown c now m up strong s2
         | ResumeProbe \<Rightarrow> evaluate_resume c now m up strong s2
         | Dropped \<Rightarrow> s2)"

lemma evaluate_state_cases:
  "evaluate_state c symbol now hour confirmed mo s =
     (let s' = s\<lparr>rs_symbol := py_upper symbol\<rparr>
      in if confirmed then on_confirmed now mo s'
         else case mo of
           Some m \<Rightarrow> if fm_price m = None then without_metrics c now s' else evaluate_priced c now hour m s'
         | None \<Rightarrow> without_metrics c now s')"
  by (simp add: evaluate_state_def evaluate_priced_def Let_def feed_simps split: option.split)

lemma evaluate_priced_phase: "phase_edge (rs_state s) (rs_state (evaluate_priced c now hour m s))"
  by (cases "rs_state s")
     (simp_all add: evaluate_priced_def Let_def feed_simps active_phase[unfolded phase_edge.simps]
       cooldown_phase[unfolded phase_edge.simps] resume_phase[unfolded phase_edge.simps])

lemma confirmed_active: "confirmed \<Longrightarrow> rs_state (evaluate_state c symbol now hour confirmed mo s) = Active"
  by (simp add: evaluate_state_cases on_confirmed_def feed_simps)

lemma unconfirmed_edge:
  "\<not> confirmed \<Longrightarrow> phase_edge (rs_state s) (rs_state (evaluate_state c symbol now hour confirmed mo s))"
  using evaluate_priced_phase[of "s\<lparr>rs_symbol := py_upper symbol\<rparr>"]
    without_metrics_phase[of "s\<lparr>rs_symbol := py_upper symbol\<rparr>"]
  by (simp add: evaluate_state_cases Let_def split: option.split)

lemma edge_open:
  "phase_edge p q \<Longrightarrow> p = Cooldown \<or> p = ResumeProbe \<Longrightarrow> q \<noteq> Cooldown \<Longrightarrow> q \<noteq> ResumeProbe \<Longrightarrow> q \<noteq> Dropped
   \<Longrightarrow> p = ResumeProbe \<and> q = Active"
  by (cases p; cases q) auto

text \<open>
  The phase graph: an evaluation without confirmation moves a symbol only from active to
  cooldown, from cooldown to the resume probe or to dropped, and from the probe to active or back
  to cooldown; a dropped symbol stays dropped; a confirmation always makes it active. Entries
  are never unblocked by an evaluation without confirmation except by a completed probe.
\<close>

theorem feed_phase_graph:
  "(confirmed \<longrightarrow> rs_state (evaluate_state c symbol now hour confirmed mo s) = Active)
   \<and> (\<not> confirmed \<longrightarrow> phase_edge (rs_state s) (rs_state (evaluate_state c symbol now hour confirmed mo s)))
   \<and> (blocks_entries s \<and> \<not> confirmed
       \<and> \<not> blocks_entries (evaluate_state c symbol now hour confirmed mo s)
       \<and> keeps_feed (evaluate_state c symbol now hour confirmed mo s)
      \<longrightarrow> rs_state s = ResumeProbe \<and> (\<exists>m. mo = Some m \<and> is_above_structure m
            \<and> rs_above_bars (count_structure m (s\<lparr>rs_symbol := py_upper symbol\<rparr>)) \<ge> fc_resume_hold_bars c))"
proof (intro conjI impI)
  let ?t = "evaluate_state c symbol now hour confirmed mo s" and ?s = "s\<lparr>rs_symbol := py_upper symbol\<rparr>"
  show "rs_state ?t = Active" if confirmed using that by (rule confirmed_active)
  show edge: "phase_edge (rs_state s) (rs_state ?t)" if "\<not> confirmed" using that by (rule unconfirmed_edge)
  assume open': "blocks_entries s \<and> \<not> confirmed \<and> \<not> blocks_entries ?t \<and> keeps_feed ?t"
  then have pq: "rs_state s = ResumeProbe" "rs_state ?t = Active"
    using edge edge_open[of "rs_state s" "rs_state ?t"] by (auto simp: blocks_entries_def keeps_feed_def)
  then show "rs_state s = ResumeProbe" by simp
  obtain m where m: "mo = Some m" "fm_price m \<noteq> None"
    using pq open' by (cases mo) (auto simp: evaluate_state_cases Let_def without_metrics_def split: if_splits)
  moreover have "\<not> confirmed" using open' by blast
  ultimately have "rs_state (evaluate_priced c now hour m ?s) = Active"
    using pq(2) by (auto simp: evaluate_state_cases Let_def)
  then have "is_above_structure m \<and> rs_above_bars (count_structure m ?s) \<ge> fc_resume_hold_bars c"
    using pq(1) resume_completed[of "count_structure m (update_degraded c m now ?s)" c now m
        "is_above_structure m" "has_resume_energy c m (update_degraded c m now ?s)"]
    by (simp add: evaluate_priced_def Let_def feed_simps)
  with m(1) show "\<exists>m. mo = Some m \<and> is_above_structure m
      \<and> rs_above_bars (count_structure m ?s) \<ge> fc_resume_hold_bars c"
    by blast
qed

definition demo_metrics :: "rat \<Rightarrow> feed_metrics" where
  "demo_metrics ts =
     \<lparr>fm_price = Some 5, fm_ema9 = Some 4, fm_vwap = Some 4, fm_ema20 = Some 4,
      fm_rolling_5m_volume = Some 200000, fm_rolling_5m_range_pct = Some 3,
      fm_avg_bar_volume_5 = Some 1, fm_avg_bar_volume_20 = Some 1, fm_latest_bar_volume = Some 1,
      fm_latest_bar_red = True, fm_ema9_falling = False, fm_ema9_rising = False,
      fm_lower_highs_or_closes = False, fm_higher_highs_or_closes = False, fm_total_bars = 50,
      fm_bar_timestamp = Some ts\<rparr>"

definition demo_retained :: "feed_phase \<Rightarrow> int \<Rightarrow> retained" where
  "demo_retained q bars =
     (promote ''ABC'' 0 None)\<lparr>rs_state := q, rs_above_bars := bars, rs_cooldown_started_at := Some 0\<rparr>"

lemma demo_resumed:
  "rs_state (evaluate_state default_feed_config ''ABC'' 600 10 False (Some (demo_metrics 540))
     (demo_retained ResumeProbe 2)) = Active"
  by code_simp

theorem feed_phase_graph_witness:
  "rs_above_bars (count_structure (demo_metrics 540)
      ((demo_retained ResumeProbe 2)\<lparr>rs_symbol := py_upper ''ABC''\<rparr>)) \<ge> 3"
  using feed_phase_graph[of False default_feed_config "''ABC''" 600 10 "Some (demo_metrics 540)"
      "demo_retained ResumeProbe 2"] demo_resumed
  by (simp add: blocks_entries_def keeps_feed_def demo_retained_def default_feed_config_def)

section \<open>Cooldown clocks\<close>

text \<open>Evaluations of one promoted symbol, at any times, with any metrics.\<close>

datatype feed_label = Evaluated rat bool

inductive feed_step :: "feed_config \<Rightarrow> retained \<Rightarrow> feed_label \<Rightarrow> retained \<Rightarrow> bool" for c where
  feed_eval: "feed_step c s (Evaluated now confirmed) (evaluate_state c symbol now hour confirmed mo s)"

definition clock_inv :: "retained \<Rightarrow> bool" where
  "clock_inv s \<longleftrightarrow>
     (rs_state s = Active \<longrightarrow> rs_cooldown_started_at s = None)
     \<and> (rs_state s = Cooldown \<or> rs_state s = ResumeProbe \<longrightarrow> rs_cooldown_started_at s \<noteq> None)"

lemma clock_inv_symbol [simp]: "clock_inv (s\<lparr>rs_symbol := y\<rparr>) = clock_inv s"
  by (simp add: clock_inv_def)

lemma clock_inv_simps [feed_simps]:
  "clock_inv (update_degraded c m now s) = clock_inv s"
  "clock_inv (count_structure m s) = clock_inv s"
  "clock_inv (refresh_reference mo s) = clock_inv s"
  "clock_inv (s\<lparr>rs_last_activity_at := a\<rparr>) = clock_inv s"
  by (simp_all add: clock_inv_def feed_simps)

lemma clock_inv_phases [feed_simps]:
  "clock_inv (enter_cooldown now s)" "clock_inv ((enter_cooldown now s)\<lparr>rs_below_bars := b\<rparr>)"
  "clock_inv (keep_or_start now s)" "clock_inv ((keep_or_start now s)\<lparr>rs_above_bars := b\<rparr>)"
  "clock_inv (feed_transition Dropped now s)" "clock_inv (on_confirmed now mo s)"
  by (simp_all add: clock_inv_def feed_simps on_confirmed_def)

lemma evaluate_priced_clock: "clock_inv s \<Longrightarrow> clock_inv (evaluate_priced c now hour m s)"
proof (cases "rs_state s")
  case Active
  assume "clock_inv s"
  then show ?thesis
    using Active by (simp add: evaluate_priced_def Let_def evaluate_active_def feed_simps)
next
  case Cooldown
  assume "clock_inv s"
  then show ?thesis
    using Cooldown by (simp add: evaluate_priced_def Let_def evaluate_cooldown_def feed_simps)
      (simp add: clock_inv_def feed_simps)
next
  case ResumeProbe
  assume "clock_inv s"
  then show ?thesis
    using ResumeProbe by (simp add: evaluate_priced_def Let_def evaluate_resume_def feed_simps)
      (simp add: clock_inv_def feed_simps)
qed (simp add: evaluate_priced_def Let_def feed_simps)

lemma evaluate_state_clock: "clock_inv s \<Longrightarrow> clock_inv (evaluate_state c symbol now hour confirmed mo s)"
  by (auto simp: evaluate_state_cases Let_def without_metrics_def feed_simps evaluate_priced_clock
      split: option.split feed_phase.split)

interpretation feed: invariant_system "\<lambda>s. \<exists>y now mo. s = promote y now mo" "feed_step c" clock_inv for c
proof unfold_locales
  show "clock_inv s" if "\<exists>y now mo. s = promote y now mo" for s
    using that by (auto simp: clock_inv_def promote_def)
qed (auto elim!: feed_step.cases intro: evaluate_state_clock)

lemma drop_needs_clock:
  assumes "rs_state s \<noteq> Dropped" "rs_state (evaluate_state c symbol now hour confirmed mo s) = Dropped"
  shows "rs_state s = Cooldown
    \<and> (\<exists>t. rs_cooldown_started_at s = Some t \<and> fc_drop_cooldown_minutes c \<le> minutes_since t now)"
proof -
  have "\<not> confirmed" using assms(2) confirmed_active[of confirmed c symbol now hour mo s] by auto
  then have e: "phase_edge (rs_state s) Dropped"
    using assms(2) unconfirmed_edge[of confirmed s c symbol now hour mo] by simp
  then have q: "rs_state s = Cooldown" using assms(1) by (cases "rs_state s") auto
  then show ?thesis
    using assms(2) \<open>\<not> confirmed\<close>
    by (auto simp: evaluate_state_cases Let_def without_metrics_def evaluate_priced_def
        evaluate_cooldown_def should_drop_def feed_simps split: option.splits if_splits)
qed

text \<open>
  No early drop: along any run of evaluations from a promotion, an active symbol has no
  cooldown clock and a cooling or probing one always has; and the evaluation that drops a symbol
  finds it cooling down, with a clock at least the configured cooldown old.
\<close>

theorem feed_drop_after_cooldown:
  assumes "run (feed_step c) (promote y start mo) ls s"
  shows "(rs_state s = Active \<longrightarrow> rs_cooldown_started_at s = None)
    \<and> (rs_state s = Cooldown \<or> rs_state s = ResumeProbe \<longrightarrow> rs_cooldown_started_at s \<noteq> None)
    \<and> (rs_state s \<noteq> Dropped \<and> rs_state (evaluate_state c symbol now hour confirmed mo' s) = Dropped
        \<longrightarrow> rs_state s = Cooldown
          \<and> (\<exists>t. rs_cooldown_started_at s = Some t
                \<and> fc_drop_cooldown_minutes c \<le> minutes_since t now))"
proof -
  have "clock_inv s" using feed.run_from_init[OF assms] by blast
  then show ?thesis using drop_needs_clock[of s c symbol now hour confirmed mo'] by (auto simp: clock_inv_def)
qed

theorem feed_drop_after_cooldown_witness:
  "\<exists>s :: retained. run (feed_step default_feed_config) (promote ''ABC'' 0 None) [Evaluated 1300 False] s
     \<and> rs_state s = Cooldown \<and> rs_cooldown_started_at s \<noteq> None"
proof -
  let ?s = "evaluate_state default_feed_config ''ABC'' 1300 10 False None (promote ''ABC'' 0 None)"
  have r: "run (feed_step default_feed_config) (promote ''ABC'' 0 None) [Evaluated 1300 False] ?s"
    by (rule run_one[where step = "feed_step default_feed_config", OF feed_eval])
  have "rs_state ?s = Cooldown" by code_simp
  with feed_drop_after_cooldown[OF r] r show ?thesis by (intro exI[of _ ?s]) blast
qed

section \<open>Hysteresis of the degraded overlay\<close>

definition bad_bar :: "feed_config \<Rightarrow> feed_metrics \<times> rat \<Rightarrow> bool" where
  "bad_bar c x \<longleftrightarrow> fc_degraded_enter_score c \<le> degraded_score c (fst x)"

definition update_all :: "feed_config \<Rightarrow> (feed_metrics \<times> rat) list \<Rightarrow> retained \<Rightarrow> retained" where
  "update_all c xs s = fold (\<lambda>(m, now). update_degraded c m now) xs s"

text \<open>\<open>k\<close> consecutive bad evaluations somewhere in the list, and at its end.\<close>

definition bad_window :: "feed_config \<Rightarrow> int \<Rightarrow> (feed_metrics \<times> rat) list \<Rightarrow> bool" where
  "bad_window c k xs \<longleftrightarrow>
     (\<exists>pre mid post. xs = pre @ mid @ post \<and> int (length mid) \<ge> k \<and> list_all (bad_bar c) mid)"

definition bad_tail :: "feed_config \<Rightarrow> int \<Rightarrow> (feed_metrics \<times> rat) list \<Rightarrow> bool" where
  "bad_tail c k xs \<longleftrightarrow> (\<exists>pre mid. xs = pre @ mid \<and> int (length mid) = k \<and> list_all (bad_bar c) mid)"

lemma bad_tail_zero: "bad_tail c 0 xs"
  by (simp add: bad_tail_def)

lemma bad_tail_snoc: "bad_tail c k xs \<Longrightarrow> bad_bar c x \<Longrightarrow> bad_tail c (k + 1) (xs @ [x])"
  unfolding bad_tail_def
  by (elim exE conjE, rule_tac x = pre in exI, rule_tac x = "mid @ [x]" in exI) auto

lemma bad_window_snoc: "bad_window c k xs \<Longrightarrow> bad_window c k (xs @ [x])"
  unfolding bad_window_def
  by (elim exE conjE, rule_tac x = pre in exI, rule_tac x = mid in exI, rule_tac x = "post @ [x]" in exI) auto

lemma bad_tail_window: "bad_tail c k xs \<Longrightarrow> j \<le> k \<Longrightarrow> bad_window c j xs"
  unfolding bad_tail_def bad_window_def
  by (elim exE conjE, rule_tac x = pre in exI, rule_tac x = mid in exI, rule_tac x = "[]" in exI) auto

lemma degraded_invariant:
  assumes "\<not> rs_degraded_mode s" "rs_enter_streak s = 0"
  shows "(rs_degraded_mode (update_all c xs s) \<longrightarrow> bad_window c (fc_degraded_enter_hold_bars c) xs)
    \<and> (\<not> rs_degraded_mode (update_all c xs s) \<longrightarrow> bad_tail c (rs_enter_streak (update_all c xs s)) xs)"
proof (induction xs rule: rev_induct)
  case Nil
  then show ?case using assms by (simp add: update_all_def bad_tail_zero)
next
  case (snoc x xs)
  obtain m now where x: "x = (m, now)" by (cases x)
  let ?s = "update_all c xs s"
  have u: "update_all c (xs @ [(m, now)]) s = update_degraded c m now ?s"
    by (simp add: update_all_def)
  show ?case
  proof (cases "rs_degraded_mode ?s")
    case True
    then show ?thesis
      using snoc.IH by (auto simp: u x update_degraded_def Let_def bad_window_snoc bad_tail_zero)
  next
    case False
    then have t: "bad_tail c (rs_enter_streak ?s) xs" using snoc.IH by simp
    have grow: "bad_bar c x \<Longrightarrow> bad_tail c (rs_enter_streak ?s + 1) (xs @ [x])"
      using bad_tail_snoc[OF t] .
    show ?thesis
      using False grow bad_tail_window[OF grow]
      by (auto simp: u update_degraded_def Let_def bad_tail_zero bad_bar_def x
          intro: bad_tail_window[OF bad_tail_zero])
  qed
qed

text \<open>
  No flapping into the degraded mode: from a promotion, the overlay is on only if at some time
  as many consecutive evaluations as the entry hold asks for all scored at least the entry score.
\<close>

theorem degraded_needs_hold:
  assumes "rs_degraded_mode (update_all c xs (promote y start mo))"
  shows "\<exists>pre mid post. xs = pre @ mid @ post \<and> int (length mid) \<ge> fc_degraded_enter_hold_bars c
           \<and> (\<forall>(m, now) \<in> set mid. fc_degraded_enter_score c \<le> degraded_score c m)"
proof -
  have "bad_window c (fc_degraded_enter_hold_bars c) xs"
    using degraded_invariant[of "promote y start mo" c xs] assms by (simp add: promote_def)
  then show ?thesis
    by (auto simp: bad_window_def list_all_iff bad_bar_def case_prod_unfold)
qed

definition demo_weak :: feed_metrics where
  "demo_weak = (demo_metrics 60)\<lparr>fm_price := Some 3, fm_ema9_falling := True\<rparr>"

theorem degraded_needs_hold_witness:
  "\<exists>mid :: (feed_metrics \<times> rat) list. int (length mid) \<ge> 4
     \<and> (\<forall>(m, now) \<in> set mid. 4 \<le> degraded_score (default_feed_config\<lparr>fc_degraded_enabled := True\<rparr>) m)"
proof -
  let ?c = "default_feed_config\<lparr>fc_degraded_enabled := True\<rparr>"
  have "rs_degraded_mode (update_all ?c [(demo_weak, 60), (demo_weak, 120), (demo_weak, 180), (demo_weak, 240)]
      (promote ''ABC'' 0 None))"
    by code_simp
  from degraded_needs_hold[OF this] show ?thesis by (auto simp: default_feed_config_def)
qed

end
