(* ===== verification/BarBuilder.thy ===== *)
theory BarBuilder
  imports Prelude
begin

text \<open>
  \<open>strategy_core/bar_builder.py\<close> with the bar of \<open>strategy_core/models.py\<close>: OHLCV bars built from
  trades and from sub-bar aggregates, closed by a later event or by the clock, revised by a late
  component. Prices and times are exact rationals; the completion callback and the log lines
  have no effect on the builder and are left out.
\<close>

section \<open>Bars\<close>

record bar =
  b_open :: rat
  b_high :: rat
  b_low :: rat
  b_close :: rat
  b_volume :: int
  b_timestamp :: rat
  b_trade_count :: int

definition bar_from_trade :: "rat \<Rightarrow> int \<Rightarrow> rat \<Rightarrow> bar" where
  "bar_from_trade price sz ts =
     \<lparr>b_open = price, b_high = price, b_low = price, b_close = price, b_volume = sz,
      b_timestamp = ts, b_trade_count = 1\<rparr>"

definition bar_from_bar :: "bar \<Rightarrow> rat option \<Rightarrow> bar" where
  "bar_from_bar b ts =
     \<lparr>b_open = b_open b, b_high = b_high b, b_low = b_low b, b_close = b_close b,
      b_volume = b_volume b,
      b_timestamp = (case ts of None \<Rightarrow> b_timestamp b | Some t \<Rightarrow> t),
      b_trade_count = b_trade_count b\<rparr>"

definition flat_fill :: "rat \<Rightarrow> rat \<Rightarrow> bar" where
  "flat_fill price ts =
     \<lparr>b_open = price, b_high = price, b_low = price, b_close = price, b_volume = 0,
      b_timestamp = ts, b_trade_count = 0\<rparr>"

definition bar_update :: "rat \<Rightarrow> int \<Rightarrow> bar \<Rightarrow> bar" where
  "bar_update price sz b =
     b\<lparr>b_high := (if price > b_high b then price else b_high b),
       b_low := (if price < b_low b then price else b_low b),
       b_close := price, b_volume := b_volume b + sz, b_trade_count := b_trade_count b + 1\<rparr>"

definition merge_bar :: "bar \<Rightarrow> bar \<Rightarrow> bar" where
  "merge_bar x b =
     b\<lparr>b_high := (if b_high x > b_high b then b_high x else b_high b),
       b_low := (if b_low x < b_low b then b_low x else b_low b),
       b_close := b_close x, b_volume := b_volume b + b_volume x,
       b_trade_count := b_trade_count b + b_trade_count x\<rparr>"

section \<open>The builder\<close>

type_synonym components = "(rat, bar) dict"

record builder =
  bb_interval :: rat
  bb_max_bars :: nat
  bb_bars :: "bar list"
  bb_current :: "bar option"
  bb_current_start :: rat
  bb_bar_count :: nat
  bb_components :: components
  bb_last_components :: components
  bb_revised :: "bar option"

definition new_builder :: "rat \<Rightarrow> nat \<Rightarrow> builder" where
  "new_builder interval max_bars =
     \<lparr>bb_interval = interval, bb_max_bars = max_bars, bb_bars = [], bb_current = None,
      bb_current_start = 0, bb_bar_count = 0, bb_components = [], bb_last_components = [],
      bb_revised = None\<rparr>"

definition bar_start_of :: "rat \<Rightarrow> rat \<Rightarrow> rat" where
  "bar_start_of interval now = of_int \<lfloor>now / interval\<rfloor> * interval"

definition trim_history :: "nat \<Rightarrow> bar list \<Rightarrow> bar list" where
  "trim_history max_bars bars =
     (if length bars > max_bars \<and> max_bars > 0 then drop (length bars - max_bars) bars else bars)"

definition resolve_timestamp :: "rat \<Rightarrow> int \<Rightarrow> rat" where
  "resolve_timestamp clock ns =
     (if ns > 1000000000000000000 then of_int ns / 1000000000
      else if ns > 1000000000000 then of_int ns / 1000
      else clock)"

definition close_current_bar :: "builder \<Rightarrow> bar option \<times> builder" where
  "close_current_bar s =
     (case bb_current s of
        None \<Rightarrow> (None, s)
      | Some b \<Rightarrow>
          (Some b,
           s\<lparr>bb_last_components :=
               map (\<lambda>(t, x). (t, bar_from_bar x (Some (b_timestamp x)))) (bb_components s),
             bb_bars := trim_history (bb_max_bars s) (bb_bars s @ [b]),
             bb_bar_count := bb_bar_count s + 1, bb_components := []\<rparr>))"

definition option_list :: "'a option \<Rightarrow> 'a list" where
  "option_list x = (case x of None \<Rightarrow> [] | Some v \<Rightarrow> [v])"

definition start_trade_bar :: "rat \<Rightarrow> int \<Rightarrow> rat \<Rightarrow> builder \<Rightarrow> builder" where
  "start_trade_bar price sz start s =
     s\<lparr>bb_current := Some (bar_from_trade price sz start), bb_current_start := start\<rparr>"

definition on_trade :: "rat \<Rightarrow> rat \<Rightarrow> int \<Rightarrow> int \<Rightarrow> builder \<Rightarrow> bar list \<times> builder" where
  "on_trade clock price sz ns s =
     (if price \<le> 0 then ([], s)
      else let start = bar_start_of (bb_interval s) (resolve_timestamp clock ns)
      in case bb_current s of
           None \<Rightarrow>
             if bb_bars s \<noteq> [] \<and> start \<le> b_timestamp (last (bb_bars s)) then ([], s)
             else ([], start_trade_bar price sz start s)
         | Some b \<Rightarrow>
             if start < bb_current_start s then ([], s)
             else if start > bb_current_start s
             then (case close_current_bar s of
                     (done_bar, s1) \<Rightarrow> (option_list done_bar, start_trade_bar price sz start s1))
             else ([], s\<lparr>bb_current := Some (bar_update price sz b)\<rparr>))"

definition build_from_components :: "rat \<Rightarrow> components \<Rightarrow> bar" where
  "build_from_components start cs =
     (let ordered = map (\<lambda>t. the (map_of cs t)) (sort (map fst cs))
      in \<lparr>b_open = b_open (hd ordered), b_high = Max (set (map b_high ordered)),
          b_low = Min (set (map b_low ordered)), b_close = b_close (last ordered),
          b_volume = sum_list (map b_volume ordered), b_timestamp = start,
          b_trade_count = sum_list (map b_trade_count ordered)\<rparr>)"

definition revise_last_closed :: "rat \<Rightarrow> bar \<Rightarrow> builder \<Rightarrow> bool \<times> builder" where
  "revise_last_closed ts x s =
     (if bb_bars s = [] then (False, s)
      else let l = last (bb_bars s)
      in if bar_start_of (bb_interval s) ts \<noteq> b_timestamp l then (False, s)
         else let cs = AList.update ts (bar_from_bar x (Some ts)) (bb_last_components s);
                  r = build_from_components (b_timestamp l) cs
              in (True,
                  s\<lparr>bb_last_components := cs,
                    bb_bars := butlast (bb_bars s) @
                      [l\<lparr>b_open := b_open r, b_high := b_high r, b_low := b_low r,
                         b_close := b_close r, b_volume := b_volume r,
                         b_trade_count := b_trade_count r\<rparr>],
                    bb_revised := Some (bar_from_bar r (Some (b_timestamp r)))\<rparr>))"

definition start_component_bar :: "rat \<Rightarrow> rat \<Rightarrow> bar \<Rightarrow> builder \<Rightarrow> builder" where
  "start_component_bar start ts x s =
     (let cs = [(ts, x)]
      in s\<lparr>bb_components := cs, bb_current := Some (build_from_components start cs),
           bb_current_start := start\<rparr>)"

definition on_bar :: "bar \<Rightarrow> builder \<Rightarrow> bar list \<times> builder" where
  "on_bar x s0 =
     (if b_close x \<le> 0 then ([], s0)
      else let s = s0\<lparr>bb_revised := None\<rparr>; ts = b_timestamp x;
               start = bar_start_of (bb_interval s) ts;
               component = bar_from_bar x (Some ts)
      in case bb_current s of
           None \<Rightarrow>
             if bb_bars s \<noteq> [] \<and> start \<le> b_timestamp (last (bb_bars s))
             then ([], snd (revise_last_closed ts x s))
             else ([], start_component_bar start ts component s)
         | Some b \<Rightarrow>
             if start < bb_current_start s then ([], snd (revise_last_closed ts x s))
             else if start > bb_current_start s
             then (case close_current_bar s of
                     (done_bar, s1) \<Rightarrow> (option_list done_bar, start_component_bar start ts component s1))
             else let cs = AList.update ts component (bb_components s)
                  in ([], s\<lparr>bb_components := cs,
                            bb_current := Some (build_from_components start cs)\<rparr>))"

definition check_bar_close :: "rat \<Rightarrow> builder \<Rightarrow> bar option \<times> builder" where
  "check_bar_close now s =
     (case bb_current s of
        None \<Rightarrow> (None, s)
      | Some _ \<Rightarrow>
          if now \<ge> bb_current_start s + bb_interval s
          then (case close_current_bar s of (done_bar, s1) \<Rightarrow> (done_bar, s1\<lparr>bb_current := None\<rparr>))
          else (None, s))"

definition get_current_price :: "builder \<Rightarrow> rat option" where
  "get_current_price s =
     (case bb_current s of
        Some b \<Rightarrow> Some (b_close b)
      | None \<Rightarrow> if bb_bars s \<noteq> [] then Some (b_close (last (bb_bars s))) else None)"

definition bars_with_current :: "builder \<Rightarrow> bar list" where
  "bars_with_current s = bb_bars s @ option_list (bb_current s)"

definition reset_builder :: "builder \<Rightarrow> builder" where
  "reset_builder s =
     s\<lparr>bb_bars := [], bb_current := None, bb_current_start := 0, bb_bar_count := 0,
       bb_components := [], bb_last_components := [], bb_revised := None\<rparr>"

definition consume_revised :: "builder \<Rightarrow> bar option \<times> builder" where
  "consume_revised s = (bb_revised s, s\<lparr>bb_revised := None\<rparr>)"

section \<open>The manager\<close>

record bar_manager =
  bm_interval :: rat
  bm_builders :: "(string, builder) dict"

text \<open>A builder the manager creates keeps the constructor's default of 2000 bars.\<close>

definition get_or_create :: "string \<Rightarrow> bar_manager \<Rightarrow> builder \<times> bar_manager" where
  "get_or_create ticker m =
     (case map_of (bm_builders m) ticker of
        Some b \<Rightarrow> (b, m)
      | None \<Rightarrow> let b = new_builder (bm_interval m) 2000
                in (b, m\<lparr>bm_builders := AList.update ticker b (bm_builders m)\<rparr>))"

definition put_builder :: "string \<Rightarrow> builder \<Rightarrow> bar_manager \<Rightarrow> bar_manager" where
  "put_builder ticker b m = m\<lparr>bm_builders := AList.update ticker b (bm_builders m)\<rparr>"

definition manager_on_trade ::
  "rat \<Rightarrow> string \<Rightarrow> rat \<Rightarrow> int \<Rightarrow> int \<Rightarrow> bar_manager \<Rightarrow> bar list \<times> bar_manager" where
  "manager_on_trade clock ticker price sz ns m =
     (case get_or_create ticker m of
        (b, m1) \<Rightarrow> (case on_trade clock price sz ns b of (out, b') \<Rightarrow> (out, put_builder ticker b' m1)))"

definition manager_on_bar :: "string \<Rightarrow> bar \<Rightarrow> bar_manager \<Rightarrow> bar list \<times> bar_manager" where
  "manager_on_bar ticker x m =
     (case get_or_create ticker m of
        (b, m1) \<Rightarrow> (case on_bar x b of (out, b') \<Rightarrow> (out, put_builder ticker b' m1)))"

definition manager_bars :: "string \<Rightarrow> bar_manager \<Rightarrow> bar list" where
  "manager_bars ticker m =
     (case map_of (bm_builders m) ticker of None \<Rightarrow> [] | Some b \<Rightarrow> bb_bars b)"

definition manager_consume_revised :: "string \<Rightarrow> bar_manager \<Rightarrow> bar option \<times> bar_manager" where
  "manager_consume_revised ticker m =
     (case map_of (bm_builders m) ticker of
        None \<Rightarrow> (None, m)
      | Some b \<Rightarrow> (case consume_revised b of (r, b') \<Rightarrow> (r, put_builder ticker b' m)))"

fun close_builders ::
  "rat \<Rightarrow> (string, builder) dict \<Rightarrow> (string \<times> bar) list \<times> (string, builder) dict" where
  "close_builders now [] = ([], [])"
| "close_builders now ((ticker, b) # bs) =
     (case check_bar_close now b of
        (done_bar, b') \<Rightarrow>
          (case close_builders now bs of
             (out, bs') \<Rightarrow> (map (\<lambda>x. (ticker, x)) (option_list done_bar) @ out, (ticker, b') # bs')))"

definition check_all_bar_closes :: "rat \<Rightarrow> bar_manager \<Rightarrow> (string \<times> bar) list \<times> bar_manager" where
  "check_all_bar_closes now m =
     (case close_builders now (bm_builders m) of (out, bs) \<Rightarrow> (out, m\<lparr>bm_builders := bs\<rparr>))"

definition remove_tickers :: "string list \<Rightarrow> bar_manager \<Rightarrow> bar_manager" where
  "remove_tickers tickers m = m\<lparr>bm_builders := fold AList.delete tickers (bm_builders m)\<rparr>"

end
