(* ===== verification/BarBuilderSpec.thy ===== *)
theory BarBuilderSpec
  imports BarBuilder
begin

text \<open>
  What the bar builder promises: a history of well-formed bars on the interval grid in strictly
  increasing order, every traded share counted exactly once, and aggregates whose redelivery
  changes nothing.
\<close>

section \<open>Well-formed histories\<close>

definition wf_bar :: "bar \<Rightarrow> bool" where
  "wf_bar b \<longleftrightarrow> b_low b \<le> b_open b \<and> b_open b \<le> b_high b \<and> b_low b \<le> b_close b \<and> b_close b \<le> b_high b"

definition on_grid :: "rat \<Rightarrow> rat \<Rightarrow> bool" where
  "on_grid interval t \<longleftrightarrow> (\<exists>k. t = of_int k * interval)"

definition wf_components :: "components \<Rightarrow> bool" where
  "wf_components cs \<longleftrightarrow> (\<forall>x \<in> set cs. wf_bar (snd x))"

definition builder_inv :: "builder \<Rightarrow> bool" where
  "builder_inv s \<longleftrightarrow>
     0 < bb_interval s \<and> 0 < bb_max_bars s \<and> length (bb_bars s) \<le> bb_max_bars s
     \<and> sorted_wrt (<) (map b_timestamp (bb_bars s))
     \<and> (\<forall>b \<in> set (bb_bars s). wf_bar b \<and> on_grid (bb_interval s) (b_timestamp b))
     \<and> (\<forall>b. bb_current s = Some b \<longrightarrow>
           wf_bar b \<and> on_grid (bb_interval s) (b_timestamp b) \<and> b_timestamp b = bb_current_start s
           \<and> (\<forall>x \<in> set (bb_bars s). b_timestamp x < bb_current_start s))
     \<and> wf_components (bb_components s) \<and> wf_components (bb_last_components s)"

lemma wf_bar_simps [simp]:
  "wf_bar (bar_from_trade p q t)" "wf_bar (bar_from_bar b ts) = wf_bar b"
  "wf_bar b \<Longrightarrow> wf_bar (bar_update p q b)" "wf_bar (flat_fill p t)"
  by (auto simp: wf_bar_def bar_from_trade_def bar_from_bar_def bar_update_def flat_fill_def)

lemma timestamp_simps [simp]:
  "b_timestamp (bar_from_trade p q t) = t" "b_timestamp (bar_update p q b) = b_timestamp b"
  "b_timestamp (build_from_components t cs) = t"
  "b_timestamp (bar_from_bar b ts) = (case ts of None \<Rightarrow> b_timestamp b | Some t \<Rightarrow> t)"
  by (simp_all add: bar_from_trade_def bar_update_def build_from_components_def bar_from_bar_def Let_def)

lemma on_grid_start [simp]: "on_grid i (bar_start_of i t)"
  by (auto simp: on_grid_def bar_start_of_def)

lemma wf_build:
  assumes "wf_components cs" "cs \<noteq> []"
  shows "wf_bar (build_from_components t cs)"
proof -
  define ordered where "ordered = map (\<lambda>t. the (map_of cs t)) (sort (map fst cs))"
  have "length ordered = length cs" by (simp add: ordered_def)
  then have ne: "ordered \<noteq> []" using assms(2) by force
  have wf: "wf_bar b" if "b \<in> set ordered" for b
  proof -
    from that obtain k where "k \<in> set (map fst cs)" "b = the (map_of cs k)"
      by (auto simp: ordered_def)
    then obtain v where "map_of cs k = Some v" "b = v" by (metis map_of_eq_None_iff option.exhaust_sel list.set_map option.sel)
    then show ?thesis using assms(1) map_of_SomeD by (fastforce simp: wf_components_def)
  qed
  have hi: "b_high b \<le> Max (set (map b_high ordered))" and lo: "Min (set (map b_low ordered)) \<le> b_low b"
    if "b \<in> set ordered" for b using that by simp_all
  have "hd ordered \<in> set ordered" "last ordered \<in> set ordered" using ne by simp_all
  with hi lo wf show ?thesis
    unfolding wf_bar_def build_from_components_def Let_def ordered_def[symmetric]
    by (simp only: bar.simps) (meson order_trans)
qed

lemma sorted_drop: "sorted_wrt (<) xs \<Longrightarrow> sorted_wrt (<) (drop n xs)"
  by (metis append_take_drop_id sorted_wrt_append)

lemma trim_simps:
  "set (trim_history n xs) \<subseteq> set xs" "0 < n \<Longrightarrow> length (trim_history n xs) \<le> n"
  "sorted_wrt (<) (map b_timestamp xs) \<Longrightarrow> sorted_wrt (<) (map b_timestamp (trim_history n xs))"
  by (auto simp: trim_history_def sorted_drop drop_map[symmetric] dest: in_set_dropD)

lemma close_current_inv:
  assumes "builder_inv s" "bb_current s = Some b"
  shows "builder_inv ((snd (close_current_bar s))\<lparr>bb_current := None\<rparr>)
    \<and> (\<forall>x \<in> set (bb_bars (snd (close_current_bar s))). b_timestamp x \<le> bb_current_start s)"
proof -
  have srt: "sorted_wrt (<) (map b_timestamp (bb_bars s @ [b]))"
    using assms by (auto simp: builder_inv_def sorted_wrt_append)
  have sub: "set (trim_history (bb_max_bars s) (bb_bars s @ [b])) \<subseteq> set (bb_bars s @ [b])"
    by (rule trim_simps)
  have "wf_components (map (\<lambda>(t, x). (t, bar_from_bar x (Some (b_timestamp x)))) (bb_components s))"
    using assms(1) by (auto simp: builder_inv_def wf_components_def)
  moreover have "wf_components []" by (simp add: wf_components_def)
  moreover have "\<forall>x \<in> set (trim_history (bb_max_bars s) (bb_bars s @ [b])).
      wf_bar x \<and> on_grid (bb_interval s) (b_timestamp x) \<and> b_timestamp x \<le> bb_current_start s"
    using assms sub by (fastforce simp: builder_inv_def)
  ultimately show ?thesis
    using assms trim_simps(2)[of "bb_max_bars s" "bb_bars s @ [b]"]
      trim_simps(3)[OF srt, of "bb_max_bars s"]
    by (simp add: builder_inv_def close_current_bar_def)
qed

text \<open>A fresh current bar after the history.\<close>

lemma start_bar_inv:
  assumes "builder_inv (s\<lparr>bb_current := None\<rparr>)" "\<forall>x \<in> set (bb_bars s). b_timestamp x < t"
    and "wf_bar b" "b_timestamp b = t" "on_grid (bb_interval s) t" "wf_components cs"
  shows "builder_inv (s\<lparr>bb_current := Some b, bb_current_start := t, bb_components := cs\<rparr>)"
  using assms by (simp add: builder_inv_def)

lemma last_is_latest:
  "builder_inv s \<Longrightarrow> x \<in> set (bb_bars s) \<Longrightarrow> b_timestamp x \<le> b_timestamp (last (bb_bars s))"
proof -
  assume "builder_inv s" "x \<in> set (bb_bars s)"
  then obtain ys where ys: "bb_bars s = ys @ [last (bb_bars s)]"
    by (metis append_butlast_last_id empty_iff list.set(1))
  have "sorted_wrt (<) (map b_timestamp (ys @ [last (bb_bars s)]))"
    using \<open>builder_inv s\<close> ys by (simp add: builder_inv_def)
  moreover have "x \<in> set (ys @ [last (bb_bars s)])" using ys \<open>x \<in> set (bb_bars s)\<close> by metis
  ultimately show ?thesis by (auto simp: sorted_wrt_append)
qed

lemma on_trade_inv:
  assumes "builder_inv s"
  shows "builder_inv (snd (on_trade clock price sz ns s))"
proof -
  let ?t = "bar_start_of (bb_interval s) (resolve_timestamp clock ns)"
  show ?thesis
  proof (cases "bb_current s")
    case None
    have "builder_inv (start_trade_bar price sz ?t s)"
      if "\<not> (bb_bars s \<noteq> [] \<and> ?t \<le> b_timestamp (last (bb_bars s)))"
    proof -
      have before: "\<forall>x \<in> set (bb_bars s). b_timestamp x < ?t"
        using that last_is_latest[OF assms] by fastforce
      have "builder_inv (s\<lparr>bb_current := None\<rparr>)" using assms None by (simp add: builder_inv_def)
      from start_bar_inv[OF this before, of "bar_from_trade price sz ?t" "bb_components s"] show ?thesis
        using assms by (simp add: start_trade_bar_def builder_inv_def)
    qed
    then show ?thesis using None assms by (auto simp: on_trade_def Let_def)
  next
    case (Some b)
    have "builder_inv (start_trade_bar price sz ?t (snd (close_current_bar s)))"
      if "?t > bb_current_start s"
    proof -
      let ?c = "snd (close_current_bar s)"
      have c: "bb_interval ?c = bb_interval s" "bb_components ?c = []"
        using Some by (simp_all add: close_current_bar_def)
      have "\<forall>x \<in> set (bb_bars ?c). b_timestamp x < ?t"
        using conjunct2[OF close_current_inv[OF assms Some]] that by fastforce
      from start_bar_inv[OF conjunct1[OF close_current_inv[OF assms Some]] this,
          of "bar_from_trade price sz ?t" "[]"]
      show ?thesis using c by (simp add: start_trade_bar_def wf_components_def builder_inv_def)
    qed
    moreover have "builder_inv (s\<lparr>bb_current := Some (bar_update price sz b)\<rparr>)"
      using assms Some by (auto simp: builder_inv_def)
    ultimately show ?thesis
      using Some assms by (auto simp: on_trade_def Let_def split: prod.split)
  qed
qed

lemma wf_components_update: "wf_components cs \<Longrightarrow> wf_bar b \<Longrightarrow> wf_components (AList.update t b cs)"
proof -
  assume c: "wf_components cs" and b: "wf_bar b"
  have "set (AList.update t b cs) \<subseteq> insert (t, b) (set cs)"
    by (induction cs) auto
  then show ?thesis using c b by (auto simp: wf_components_def)
qed

lemma update_not_Nil: "AList.update t b cs \<noteq> []"
  by (cases cs) auto

lemma revise_inv:
  assumes "builder_inv s" "wf_bar x"
  shows "builder_inv (snd (revise_last_closed ts x s))"
proof (cases "bb_bars s = [] \<or> bar_start_of (bb_interval s) ts \<noteq> b_timestamp (last (bb_bars s))")
  case True
  then show ?thesis using assms by (auto simp: revise_last_closed_def Let_def)
next
  case False
  then obtain ys l where bars: "bb_bars s = ys @ [l]" by (metis rev_exhaust)
  let ?cs = "AList.update ts (bar_from_bar x (Some ts)) (bb_last_components s)"
  have cs: "wf_components ?cs"
    using assms by (simp add: wf_components_update builder_inv_def)
  have r: "wf_bar (build_from_components (b_timestamp l) ?cs)"
    using wf_build[OF cs update_not_Nil] .
  have lt: "\<forall>x \<in> set ys. b_timestamp x < b_timestamp l" "sorted_wrt (<) (map b_timestamp ys)"
    using assms(1) bars by (auto simp: builder_inv_def sorted_wrt_append)
  let ?r = "build_from_components (b_timestamp l) ?cs"
  let ?l = "l\<lparr>b_open := b_open ?r, b_high := b_high ?r, b_low := b_low ?r, b_close := b_close ?r,
      b_volume := b_volume ?r, b_trade_count := b_trade_count ?r\<rparr>"
  have l: "wf_bar ?l" using r by (simp add: wf_bar_def)
  have e: "snd (revise_last_closed ts x s) =
      s\<lparr>bb_last_components := ?cs, bb_bars := ys @ [?l],
        bb_revised := Some (bar_from_bar ?r (Some (b_timestamp ?r)))\<rparr>"
    using False bars by (simp add: revise_last_closed_def Let_def)
  show ?thesis
    unfolding e using assms(1) cs l lt bars by (auto simp: builder_inv_def sorted_wrt_append)
qed

lemma builder_inv_revised [simp]: "builder_inv (s\<lparr>bb_revised := x\<rparr>) = builder_inv s"
  by (simp add: builder_inv_def)

lemma start_component_inv:
  assumes "builder_inv (s\<lparr>bb_current := None\<rparr>)" "\<forall>x \<in> set (bb_bars s). b_timestamp x < t" "wf_bar b"
    and "on_grid (bb_interval s) t"
  shows "builder_inv (start_component_bar t ts b s)"
proof -
  have c: "wf_components [(ts, b)]" using assms(3) by (simp add: wf_components_def)
  have "wf_bar (build_from_components t [(ts, b)])" using wf_build[OF c] by simp
  from start_bar_inv[OF assms(1,2) this _ assms(4) c] show ?thesis
    by (simp add: start_component_bar_def Let_def builder_inv_def)
qed

lemma on_bar_inv:
  assumes "builder_inv s" "wf_bar x"
  shows "builder_inv (snd (on_bar x s))"
proof -
  let ?t = "bar_start_of (bb_interval s) (b_timestamp x)" and ?s = "s\<lparr>bb_revised := None\<rparr>"
  let ?x = "bar_from_bar x (Some (b_timestamp x))"
  have s: "builder_inv ?s" using assms(1) by simp
  show ?thesis
  proof (cases "bb_current s")
    case None
    have "builder_inv (start_component_bar ?t (b_timestamp x) ?x ?s)"
      if "\<not> (bb_bars s \<noteq> [] \<and> ?t \<le> b_timestamp (last (bb_bars s)))"
      using that last_is_latest[OF assms(1)] assms None
      by (intro start_component_inv) (fastforce simp: builder_inv_def)+
    then show ?thesis using None revise_inv[OF s assms(2)] assms by (auto simp: on_bar_def Let_def)
  next
    case (Some b)
    have c: "bb_current ?s = Some b" using Some by simp
    note closed = close_current_inv[OF s c]
    have i: "bb_interval (snd (close_current_bar ?s)) = bb_interval s"
      using Some by (simp add: close_current_bar_def)
    have new: "builder_inv (start_component_bar ?t (b_timestamp x) ?x (snd (close_current_bar ?s)))"
      if "?t > bb_current_start s"
      using that closed assms(2) i by (intro start_component_inv) fastforce+
    let ?cs = "AList.update (b_timestamp x) ?x (bb_components s)"
    have cs: "wf_components ?cs" using assms by (simp add: wf_components_update builder_inv_def)
    have same: "builder_inv (?s\<lparr>bb_components := ?cs, bb_current := Some (build_from_components ?t ?cs)\<rparr>)"
      if "?t = bb_current_start s"
      using s Some cs wf_build[OF cs update_not_Nil, of ?t] that
      by (simp add: builder_inv_def) (metis on_grid_start)
    show ?thesis
      using Some new same revise_inv[OF s assms(2)] assms(1)
      by (auto simp: on_bar_def Let_def split: prod.split)
  qed
qed

lemma check_bar_close_inv:
  assumes "builder_inv s"
  shows "builder_inv (snd (check_bar_close now s))"
proof (cases "bb_current s")
  case (Some b)
  then show ?thesis
    using close_current_inv[OF assms Some] assms by (auto simp: check_bar_close_def split: prod.split)
qed (simp add: check_bar_close_def assms)

datatype builder_label = Trade rat rat int int | Aggregate bar | Clock rat

inductive builder_step :: "builder \<Rightarrow> builder_label \<Rightarrow> builder \<Rightarrow> bool" where
  bs_trade: "builder_step s (Trade clock price sz ns) (snd (on_trade clock price sz ns s))"
| bs_bar: "wf_bar x \<Longrightarrow> builder_step s (Aggregate x) (snd (on_bar x s))"
| bs_clock: "builder_step s (Clock now) (snd (check_bar_close now s))"

inductive_cases builder_stepE [elim]: "builder_step s l t"

interpretation bars: invariant_system
  "\<lambda>s. \<exists>i m. 0 < i \<and> 0 < m \<and> s = new_builder i m" builder_step builder_inv
proof unfold_locales
  show "builder_inv s" if "\<exists>i m. 0 < i \<and> 0 < m \<and> s = new_builder i m" for s
    using that by (auto simp: new_builder_def builder_inv_def wf_components_def)
qed (auto intro: on_trade_inv on_bar_inv check_bar_close_inv)

text \<open>
  C40: The bar history is always well-formed: whatever trades arrive, in whatever order and with
  whatever times, mixed with well-formed aggregates and clock closes, the closed bars lie on the
  interval grid in strictly increasing order, each between its low and its high, the open bar
  comes after all of them, and no more bars are kept than configured.
\<close>

theorem bar_history_wellformed:
  assumes "run builder_step (new_builder interval max_bars) ls s" "0 < interval" "0 < max_bars"
  shows "sorted_wrt (<) (map b_timestamp (bars_with_current s)) \<and> length (bb_bars s) \<le> bb_max_bars s
    \<and> (\<forall>b \<in> set (bars_with_current s).
          b_low b \<le> b_open b \<and> b_open b \<le> b_high b \<and> b_low b \<le> b_close b \<and> b_close b \<le> b_high b
          \<and> (\<exists>k. b_timestamp b = of_int k * bb_interval s))"
proof -
  have inv: "builder_inv s" using bars.run_from_init[OF assms(1)] assms(2,3) by blast
  show ?thesis
    using inv
    by (cases "bb_current s")
       (auto simp: builder_inv_def bars_with_current_def option_list_def sorted_wrt_append wf_bar_def on_grid_def)
qed

section \<open>Redelivery\<close>

lemma revise_again:
  "snd (revise_last_closed ts x ((snd (revise_last_closed ts x s))\<lparr>bb_revised := None\<rparr>))
   = snd (revise_last_closed ts x s)" if "bb_revised s = None"
  using that
  by (auto simp: revise_last_closed_def Let_def build_from_components_def update_Some_unfold)

lemma revise_frame:
  "bb_interval (snd (revise_last_closed ts x s)) = bb_interval s"
  "bb_current (snd (revise_last_closed ts x s)) = bb_current s"
  "bb_current_start (snd (revise_last_closed ts x s)) = bb_current_start s"
  "bb_bars (snd (revise_last_closed ts x s)) = [] \<longleftrightarrow> bb_bars s = []"
  "b_timestamp (last (bb_bars (snd (revise_last_closed ts x s)))) = b_timestamp (last (bb_bars s))"
  by (auto simp: revise_last_closed_def Let_def)

lemma update_again: "AList.update k v (AList.update k v d) = AList.update k v d"
  by (induction d) auto

text \<open>
  Redelivery is harmless: an aggregate delivered twice in a row leaves the builder as the
  single delivery does, whether it opens a bar, joins one, closes one or revises the last closed
  one.
\<close>

theorem aggregate_idempotent:
  "snd (on_bar x (snd (on_bar x s))) = snd (on_bar x s)"
proof (cases "b_close x \<le> 0")
  case True
  then show ?thesis by (simp add: on_bar_def)
next
  case False
  let ?t = "bar_start_of (bb_interval s) (b_timestamp x)" and ?s = "s\<lparr>bb_revised := None\<rparr>"
  let ?r = "revise_last_closed (b_timestamp x) x ?s"
  show ?thesis
  proof (cases "bb_current s")
    case None
    then show ?thesis
      using False revise_again[of ?s "b_timestamp x" x] revise_frame[of "b_timestamp x" x ?s]
      by (auto simp: on_bar_def Let_def start_component_bar_def update_again)
  next
    case (Some b)
    then show ?thesis
      using False revise_again[of ?s "b_timestamp x" x] revise_frame[of "b_timestamp x" x ?s]
      by (auto simp: on_bar_def Let_def start_component_bar_def update_again close_current_bar_def)
  qed
qed

section \<open>Conservation\<close>

text \<open>Trades (time, price, shares) stamped by the clock, in the order they arrive.\<close>

type_synonym timed_trade = "rat \<times> rat \<times> int"

definition trade_all :: "timed_trade list \<Rightarrow> builder \<Rightarrow> builder" where
  "trade_all = fold (\<lambda>(now, price, sz) s. snd (on_trade now price sz 0 s))"

definition total_volume :: "builder \<Rightarrow> int" where
  "total_volume s = sum_list (map b_volume (bars_with_current s))"

definition total_trades :: "builder \<Rightarrow> int" where
  "total_trades s = sum_list (map b_trade_count (bars_with_current s))"

definition in_order :: "rat \<Rightarrow> timed_trade list \<Rightarrow> bool" where
  "in_order i ts \<longleftrightarrow>
     (\<forall>(now, price, sz) \<in> set ts. 0 < price)
     \<and> sorted_wrt (\<lambda>x y. bar_start_of i (fst x) \<le> bar_start_of i (fst y)) ts"

lemma trade_all_state:
  assumes "in_order i ts" "length ts \<le> m"
  shows "bb_interval (trade_all ts (new_builder i m)) = i
    \<and> bb_max_bars (trade_all ts (new_builder i m)) = m
    \<and> length (bb_bars (trade_all ts (new_builder i m))) \<le> length ts
    \<and> (ts = [] \<longrightarrow> bb_current (trade_all ts (new_builder i m)) = None
                 \<and> bb_bars (trade_all ts (new_builder i m)) = [])
    \<and> (ts \<noteq> [] \<longrightarrow> bb_current (trade_all ts (new_builder i m)) \<noteq> None
                 \<and> bb_current_start (trade_all ts (new_builder i m)) = bar_start_of i (fst (last ts))
                 \<and> length (bb_bars (trade_all ts (new_builder i m))) < length ts)
    \<and> total_volume (trade_all ts (new_builder i m)) = sum_list (map (\<lambda>x. snd (snd x)) ts)
    \<and> total_trades (trade_all ts (new_builder i m)) = int (length ts)"
  using assms
proof (induction ts rule: rev_induct)
  case Nil
  then show ?case
    by (simp add: trade_all_def new_builder_def total_volume_def total_trades_def
        bars_with_current_def option_list_def)
next
  case (snoc x ts)
  obtain now price sz where x: "x = (now, price, sz)" by (cases x)
  let ?s = "trade_all ts (new_builder i m)"
  have IH: "bb_interval ?s = i" "bb_max_bars ?s = m" "length (bb_bars ?s) \<le> length ts"
    "ts = [] \<longrightarrow> bb_current ?s = None \<and> bb_bars ?s = []"
    "ts \<noteq> [] \<longrightarrow> bb_current ?s \<noteq> None \<and> bb_current_start ?s = bar_start_of i (fst (last ts))
       \<and> length (bb_bars ?s) < length ts"
    "total_volume ?s = sum_list (map (\<lambda>x. snd (snd x)) ts)" "total_trades ?s = int (length ts)"
    using snoc by (auto simp: in_order_def sorted_wrt_append)
  have p: "0 < price" and later: "ts \<noteq> [] \<Longrightarrow> bar_start_of i (fst (last ts)) \<le> bar_start_of i now"
    using snoc.prems by (auto simp: in_order_def sorted_wrt_append x)
  have step: "trade_all (ts @ [x]) (new_builder i m) = snd (on_trade now price sz 0 ?s)"
    by (simp add: trade_all_def x)
  have time: "resolve_timestamp now 0 = now" by (simp add: resolve_timestamp_def)
  show ?case
  proof (cases "bb_current ?s")
    case None
    then have "ts = []" using IH(5) by blast
    then show ?thesis
      unfolding step using IH None p
      by (simp add: on_trade_def Let_def time start_trade_bar_def total_volume_def
          total_trades_def bars_with_current_def option_list_def bar_from_trade_def)
         (simp add: x)
  next
    case (Some b)
    then have ne: "ts \<noteq> []" using IH(4) by auto
    have room: "length (bb_bars ?s) < m" using IH(5) ne snoc.prems(2) by auto
    have start: "bb_current_start ?s \<le> bar_start_of i now" using IH(5) ne later by simp
    show ?thesis
      unfolding step using IH Some p ne room start
      by (auto simp: on_trade_def Let_def time start_trade_bar_def total_volume_def
          total_trades_def bars_with_current_def option_list_def bar_from_trade_def
          close_current_bar_def trim_history_def bar_update_def x)
  qed
qed

text \<open>
  Shares are counted once: for trades with positive prices arriving in bar order, and a history
  long enough to keep them, the closed bars and the open bar together hold exactly the traded
  shares and the number of trades.
\<close>

theorem trades_conserved:
  assumes "in_order interval ts" "length ts \<le> max_bars"
  shows "total_volume (trade_all ts (new_builder interval max_bars)) = sum_list (map (\<lambda>x. snd (snd x)) ts)
    \<and> total_trades (trade_all ts (new_builder interval max_bars)) = int (length ts)"
  using trade_all_state[OF assms] by blast

theorem trades_conserved_witness:
  "total_volume (trade_all [(3, 10, 100), (20, 11, 50), (31, 12, 7)] (new_builder 30 10)) = 157"
proof -
  have "in_order 30 [(3, 10, 100), (20, 11, 50), (31, 12, 7)]" by code_simp
  from trades_conserved[OF this, of 10] show ?thesis by simp
qed

theorem bar_history_wellformed_witness:
  "\<exists>s. run builder_step (new_builder 30 10) [Trade 3 10 100 0, Trade 31 12 7 0] s
     \<and> map b_timestamp (bars_with_current s) = [0, 30] \<and> length (bb_bars s) \<le> bb_max_bars s"
proof -
  let ?s = "snd (on_trade 31 12 7 0 (snd (on_trade 3 10 100 0 (new_builder 30 10))))"
  have r: "run builder_step (new_builder 30 10) [Trade 3 10 100 0, Trade 31 12 7 0] ?s"
    by (rule run_Cons[where step = builder_step, OF bs_trade run_one[where step = builder_step, OF bs_trade]])
  have "map b_timestamp (bars_with_current ?s) = [0, 30]" by code_simp
  with bar_history_wellformed[OF r] r show ?thesis by (intro exI[of _ ?s]) simp
qed

end
