(* ===== verification/PositionTracker.thy ===== *)
theory PositionTracker
  imports ExitLogic
begin

text \<open>
  \<open>strategy_core/position_tracker.py\<close>: the open positions of a strategy with its daily loss limit,
  per-symbol entry cap and pauses after losses, and the position file across a restart. Times
  are seconds; the files' texts are the rows they hold, and the CSV history is not modelled.
\<close>

record tracker_config =
  tc_default_quantity :: int
  tc_lock1 :: rat
  tc_lock2 :: rat
  tc_lock3 :: rat
  tc_trail_buffer :: rat
  tc_max_positions :: int
  tc_max_daily_loss :: rat
  tc_hard_stop_limit :: int
  tc_hard_stop_minutes :: rat
  tc_loss_limit :: int
  tc_loss_minutes :: rat
  tc_only_cold :: bool
  tc_cold_peak :: rat
  tc_max_entries :: int

record closed_trade =
  ct_ticker :: string
  ct_entry_price :: rat
  ct_exit_price :: rat
  ct_quantity :: int
  ct_pnl :: rat
  ct_pnl_pct :: rat
  ct_scale_pnl :: rat
  ct_reason :: string
  ct_entry_time :: string
  ct_exit_time :: string
  ct_peak_profit_pct :: rat
  ct_tier :: int
  ct_scales_done :: "string list"
  ct_path :: string
  ct_scale_profile :: string

record tracker =
  tr_positions :: "(string, position) dict"
  tr_daily_pnl :: rat
  tr_closed :: "closed_trade list"
  tr_loss_streaks :: "(string, int) dict"
  tr_pause_until :: "(string, rat) dict"
  tr_entry_counts :: "(string, int) dict"
  tr_hard_stop_streaks :: "(string, int) dict"
  tr_hard_stop_pause :: "(string, rat) dict"

definition new_tracker :: tracker where
  "new_tracker =
     \<lparr>tr_positions = [], tr_daily_pnl = 0, tr_closed = [], tr_loss_streaks = [],
      tr_pause_until = [], tr_entry_counts = [], tr_hard_stop_streaks = [],
      tr_hard_stop_pause = []\<rparr>"

definition get_count :: "(string, int) dict \<Rightarrow> string \<Rightarrow> int" where
  "get_count d k = (case map_of d k of None \<Rightarrow> 0 | Some n \<Rightarrow> n)"

definition has_position :: "string \<Rightarrow> tracker \<Rightarrow> bool" where
  "has_position ticker s \<longleftrightarrow> map_of (tr_positions s) ticker \<noteq> None"

definition drop_position :: "string \<Rightarrow> tracker \<Rightarrow> position option \<times> tracker" where
  "drop_position ticker s =
     (map_of (tr_positions s) ticker, s\<lparr>tr_positions := AList.delete ticker (tr_positions s)\<rparr>)"

section \<open>Opening\<close>

definition opened_position ::
  "tracker_config \<Rightarrow> string \<Rightarrow> string \<Rightarrow> rat \<Rightarrow> int \<Rightarrow> string \<Rightarrow> string \<Rightarrow> position" where
  "opened_position c now ticker price quantity path profile =
     new_position now ticker price (if quantity = 0 then tc_default_quantity c else quantity) []
       path profile (tc_lock1 c) (tc_lock2 c) (tc_lock3 c) (tc_trail_buffer c)"

definition open_position ::
  "tracker_config \<Rightarrow> string \<Rightarrow> string \<Rightarrow> rat \<Rightarrow> int \<Rightarrow> string \<Rightarrow> string \<Rightarrow> tracker \<Rightarrow> tracker" where
  "open_position c now ticker price quantity path profile s =
     (let s1 = s\<lparr>tr_positions := AList.update ticker
                  (opened_position c now ticker price quantity path profile) (tr_positions s)\<rparr>;
          symbol = py_upper ticker
      in if symbol \<noteq> []
         then s1\<lparr>tr_entry_counts := AList.update symbol (get_count (tr_entry_counts s1) symbol + 1)
                                     (tr_entry_counts s1)\<rparr>
         else s1)"

section \<open>Outcomes and pauses\<close>

definition py_contains :: "string \<Rightarrow> string \<Rightarrow> bool" where
  "py_contains part whole \<longleftrightarrow> list_ex (\<lambda>n. py_startswith (drop n whole) part) [0 ..< Suc (length whole)]"

definition clear_pauses :: "string \<Rightarrow> tracker \<Rightarrow> tracker" where
  "clear_pauses symbol s =
     s\<lparr>tr_loss_streaks := AList.update symbol 0 (tr_loss_streaks s),
       tr_pause_until := AList.delete symbol (tr_pause_until s),
       tr_hard_stop_streaks := AList.update symbol 0 (tr_hard_stop_streaks s),
       tr_hard_stop_pause := AList.delete symbol (tr_hard_stop_pause s)\<rparr>"

definition record_hard_stop :: "tracker_config \<Rightarrow> rat \<Rightarrow> string \<Rightarrow> string \<Rightarrow> tracker \<Rightarrow> tracker" where
  "record_hard_stop c now symbol reason s =
     (if tc_hard_stop_limit c > 0
      then if py_contains ''HARD_STOP'' (py_upper reason)
           then let streak = get_count (tr_hard_stop_streaks s) symbol + 1;
                    s1 = s\<lparr>tr_hard_stop_streaks := AList.update symbol streak (tr_hard_stop_streaks s)\<rparr>
                in if streak \<ge> tc_hard_stop_limit c
                   then s1\<lparr>tr_hard_stop_pause :=
                            AList.update symbol (now + tc_hard_stop_minutes c * 60) (tr_hard_stop_pause s1)\<rparr>
                   else s1
           else s\<lparr>tr_hard_stop_streaks := AList.update symbol 0 (tr_hard_stop_streaks s),
                  tr_hard_stop_pause := AList.delete symbol (tr_hard_stop_pause s)\<rparr>
      else s)"

definition record_loss :: "tracker_config \<Rightarrow> rat \<Rightarrow> string \<Rightarrow> rat \<Rightarrow> tracker \<Rightarrow> tracker" where
  "record_loss c now symbol peak s =
     (if tc_loss_limit c \<le> 0 then s
      else if tc_only_cold c \<and> peak \<ge> tc_cold_peak c
      then s\<lparr>tr_loss_streaks := AList.update symbol 0 (tr_loss_streaks s),
             tr_pause_until := AList.delete symbol (tr_pause_until s)\<rparr>
      else let streak = get_count (tr_loss_streaks s) symbol + 1;
               s1 = s\<lparr>tr_loss_streaks := AList.update symbol streak (tr_loss_streaks s)\<rparr>
           in if streak \<ge> tc_loss_limit c
              then s1\<lparr>tr_pause_until :=
                       AList.update symbol (now + tc_loss_minutes c * 60) (tr_pause_until s1)\<rparr>
              else s1)"

definition record_outcome ::
  "tracker_config \<Rightarrow> rat \<Rightarrow> string \<Rightarrow> rat \<Rightarrow> rat \<Rightarrow> string \<Rightarrow> tracker \<Rightarrow> tracker" where
  "record_outcome c now ticker pnl peak reason s =
     (let symbol = py_upper ticker
      in if symbol = [] then s
         else if pnl \<ge> 0 then clear_pauses symbol s
         else record_loss c now symbol peak (record_hard_stop c now symbol reason s))"

section \<open>Closing\<close>

definition total_pnl :: "position \<Rightarrow> rat \<Rightarrow> rat" where
  "total_pnl p exit_price =
     (exit_price - p_entry_price p) * of_int (p_quantity p) + p_scale_pnl p"

definition pnl_pct :: "position \<Rightarrow> rat \<Rightarrow> rat" where
  "pnl_pct p exit_price =
     (if p_entry_price p > 0
      then total_pnl p exit_price / (p_entry_price p * of_int (p_original_quantity p)) * 100 else 0)"

definition closed_row :: "string \<Rightarrow> position \<Rightarrow> rat \<Rightarrow> string \<Rightarrow> string \<Rightarrow> closed_trade" where
  "closed_row ticker p exit_price reason exit_time =
     \<lparr>ct_ticker = ticker, ct_entry_price = p_entry_price p, ct_exit_price = exit_price,
      ct_quantity = p_quantity p, ct_pnl = py_round (total_pnl p exit_price) 2,
      ct_pnl_pct = py_round (pnl_pct p exit_price) 2,
      ct_scale_pnl = py_round (p_scale_pnl p) 2, ct_reason = reason,
      ct_entry_time = p_entry_time p, ct_exit_time = exit_time,
      ct_peak_profit_pct = py_round (p_peak_profit_pct p) 2, ct_tier = p_tier p,
      ct_scales_done = p_scales_done p, ct_path = p_entry_path p,
      ct_scale_profile = p_scale_profile p\<rparr>"

text \<open>
  \<open>close_position\<close>; a position whose original quantity is zero would divide by zero in the
  source, after it was removed, so the exception is a result.
\<close>

definition close_position ::
  "tracker_config \<Rightarrow> rat \<Rightarrow> string \<Rightarrow> string \<Rightarrow> rat \<Rightarrow> string \<Rightarrow> (tracker, closed_trade option) eff" where
  "close_position c now exit_time ticker exit_price reason =
     (\<lambda>s. case map_of (tr_positions s) ticker of
        None \<Rightarrow> (Inr None, s)
      | Some p \<Rightarrow>
          let s1 = s\<lparr>tr_positions := AList.delete ticker (tr_positions s)\<rparr>;
              pnl = total_pnl p exit_price;
              row = closed_row ticker p exit_price reason exit_time
          in if p_entry_price p > 0 \<and> p_original_quantity p = 0 then (Inl ArithmeticError, s1)
             else (Inr (Some row),
                   record_outcome c now ticker pnl (p_peak_profit_pct p) reason
                     (s1\<lparr>tr_daily_pnl := tr_daily_pnl s1 + pnl, tr_closed := tr_closed s1 @ [row]\<rparr>)))"

section \<open>Admission of entries\<close>

text \<open>Why an entry is refused, with the numbers the source formats into its text.\<close>

datatype block_reason =
    MaxPositions int
  | DailyLoss rat
  | EntryCap string int int
  | LossPause string int int
  | HardStopPause string int int

definition entry_limit_reason :: "tracker_config \<Rightarrow> string \<Rightarrow> tracker \<Rightarrow> block_reason option" where
  "entry_limit_reason c ticker s =
     (let symbol = py_upper ticker; limit = max 0 (tc_max_entries c)
      in if symbol = [] \<or> limit \<le> 0 then None
         else let count = get_count (tr_entry_counts s) symbol
              in if count < limit then None else Some (EntryCap symbol count limit))"

definition minutes_left :: "rat \<Rightarrow> rat \<Rightarrow> int" where
  "minutes_left until now = max 1 \<lfloor>(until - now) / 60\<rfloor>"

definition pause_reason :: "tracker_config \<Rightarrow> rat \<Rightarrow> string \<Rightarrow> tracker \<Rightarrow> block_reason option \<times> tracker" where
  "pause_reason c now ticker s =
     (let symbol = py_upper ticker
      in if symbol = [] \<or> tc_loss_limit c \<le> 0 then (None, s)
         else (case map_of (tr_pause_until s) symbol of
           None \<Rightarrow> (None, s)
         | Some t \<Rightarrow>
             if t \<le> now
             then (None, s\<lparr>tr_pause_until := AList.delete symbol (tr_pause_until s),
                           tr_loss_streaks := AList.update symbol 0 (tr_loss_streaks s)\<rparr>)
             else (Some (LossPause symbol (minutes_left t now) (get_count (tr_loss_streaks s) symbol)), s)))"

definition hard_stop_reason :: "tracker_config \<Rightarrow> rat \<Rightarrow> string \<Rightarrow> tracker \<Rightarrow> block_reason option \<times> tracker" where
  "hard_stop_reason c now ticker s =
     (let symbol = py_upper ticker
      in if symbol = [] \<or> tc_hard_stop_limit c \<le> 0 then (None, s)
         else (case map_of (tr_hard_stop_pause s) symbol of
           None \<Rightarrow> (None, s)
         | Some t \<Rightarrow>
             if t \<le> now
             then (None, s\<lparr>tr_hard_stop_pause := AList.delete symbol (tr_hard_stop_pause s),
                           tr_hard_stop_streaks := AList.update symbol 0 (tr_hard_stop_streaks s)\<rparr>)
             else (Some (HardStopPause symbol (minutes_left t now)
                           (get_count (tr_hard_stop_streaks s) symbol)), s)))"

text \<open>\<open>can_open_position\<close>: \<open>None\<close> is an admission; expired pauses are dropped on the way.\<close>

definition can_open_position ::
  "tracker_config \<Rightarrow> rat \<Rightarrow> string option \<Rightarrow> tracker \<Rightarrow> block_reason option \<times> tracker" where
  "can_open_position c now ticker s =
     (if int (length (tr_positions s)) \<ge> tc_max_positions c
      then (Some (MaxPositions (tc_max_positions c)), s)
      else if tr_daily_pnl s \<le> tc_max_daily_loss c then (Some (DailyLoss (tr_daily_pnl s)), s)
      else (case ticker of
        None \<Rightarrow> (None, s)
      | Some t \<Rightarrow>
          if t = [] then (None, s)
          else (case entry_limit_reason c t s of
            Some r \<Rightarrow> (Some r, s)
          | None \<Rightarrow>
              (case pause_reason c now t s of
                 (Some r, s1) \<Rightarrow> (Some r, s1)
               | (None, s1) \<Rightarrow> hard_stop_reason c now t s1))))"

section \<open>Prices, bars, reset\<close>

definition map_position :: "string \<Rightarrow> (position \<Rightarrow> position) \<Rightarrow> tracker \<Rightarrow> tracker" where
  "map_position ticker f s =
     (case map_of (tr_positions s) ticker of
        None \<Rightarrow> s | Some p \<Rightarrow> s\<lparr>tr_positions := AList.update ticker (f p) (tr_positions s)\<rparr>)"

definition update_all_prices :: "(string, rat) dict \<Rightarrow> tracker \<Rightarrow> tracker" where
  "update_all_prices prices = fold (\<lambda>(ticker, price). map_position ticker (update_price price)) prices"

definition tracker_increment_bars :: "string \<Rightarrow> int \<Rightarrow> tracker \<Rightarrow> tracker" where
  "tracker_increment_bars ticker count = map_position ticker (increment_bars count)"

definition reset_tracker :: "tracker \<Rightarrow> tracker" where
  "reset_tracker s =
     s\<lparr>tr_daily_pnl := 0, tr_closed := [], tr_loss_streaks := [], tr_pause_until := [],
       tr_entry_counts := [], tr_hard_stop_streaks := [], tr_hard_stop_pause := []\<rparr>"

section \<open>The position file\<close>

record saved_position =
  sp_entry_price :: rat
  sp_entry_time :: string
  sp_quantity :: int
  sp_original_quantity :: int
  sp_peak_profit_pct :: rat
  sp_tier :: int
  sp_floor_pct :: rat
  sp_floor_price :: rat
  sp_scales_done :: "string list"
  sp_bars_since_entry :: int
  sp_last_exit_bar :: int
  sp_entry_path :: string
  sp_scale_profile :: string

record position_file =
  pf_date :: string
  pf_positions :: "(string, saved_position) dict"

definition saved_of :: "position \<Rightarrow> saved_position" where
  "saved_of p =
     \<lparr>sp_entry_price = p_entry_price p, sp_entry_time = p_entry_time p, sp_quantity = p_quantity p,
      sp_original_quantity = p_original_quantity p, sp_peak_profit_pct = p_peak_profit_pct p,
      sp_tier = p_tier p, sp_floor_pct = p_floor_pct p, sp_floor_price = p_floor_price p,
      sp_scales_done = p_scales_done p, sp_bars_since_entry = p_bars_since_entry p,
      sp_last_exit_bar = p_last_exit_bar p, sp_entry_path = p_entry_path p,
      sp_scale_profile = p_scale_profile p\<rparr>"

definition save_positions :: "string \<Rightarrow> tracker \<Rightarrow> position_file" where
  "save_positions session_day s =
     \<lparr>pf_date = session_day, pf_positions = map (\<lambda>(t, p). (t, saved_of p)) (tr_positions s)\<rparr>"

definition loaded_position :: "tracker_config \<Rightarrow> string \<Rightarrow> string \<Rightarrow> saved_position \<Rightarrow> position" where
  "loaded_position c now ticker r =
     (new_position now ticker (sp_entry_price r) (sp_quantity r) (sp_entry_time r) (sp_entry_path r)
        (sp_scale_profile r) (tc_lock1 c) (tc_lock2 c) (tc_lock3 c) (tc_trail_buffer c))
     \<lparr>p_original_quantity := sp_original_quantity r, p_peak_profit_pct := sp_peak_profit_pct r,
      p_tier := sp_tier r, p_floor_pct := sp_floor_pct r, p_floor_price := sp_floor_price r,
      p_scales_done := sp_scales_done r, p_bars_since_entry := sp_bars_since_entry r,
      p_last_exit_bar := sp_last_exit_bar r\<rparr>"

definition active_day_keys :: "string \<Rightarrow> string \<Rightarrow> string list" where
  "active_day_keys session_key today_key =
     (if today_key = session_key then [session_key] else [session_key, today_key])"

definition load_positions ::
  "tracker_config \<Rightarrow> string \<Rightarrow> string list \<Rightarrow> position_file option \<Rightarrow> tracker \<Rightarrow> tracker" where
  "load_positions c now days file s =
     (case file of
        None \<Rightarrow> s
      | Some f \<Rightarrow>
          if pf_date f \<notin> set days then s
          else fold (\<lambda>(t, r) s. s\<lparr>tr_positions := AList.update t (loaded_position c now t r)
                                                   (tr_positions s)\<rparr>) (pf_positions f) s)"

end
