(* ===== verification/PositionTrackerSpec.thy ===== *)
theory PositionTrackerSpec
  imports PositionTracker
begin

text \<open>
  What the position tracker promises: guarded openings never exceed the position limit or a
  symbol's session cap, and the position file restores each position up to the fields it does not
  hold.
\<close>

section \<open>Guarded openings\<close>

datatype tracker_label = TOpen string | TClose string | TPrices | TBars

inductive tracker_step :: "tracker_config \<Rightarrow> tracker \<Rightarrow> tracker_label \<Rightarrow> tracker \<Rightarrow> bool" for c where
  ts_open: "can_open_position c now (Some ticker) s = (None, s1) \<Longrightarrow> ticker \<noteq> [] \<Longrightarrow>
    tracker_step c s (TOpen ticker) (open_position c nowt ticker price q path profile s1)"
| ts_close: "close_position c now exit_time ticker price reason s = (r, s') \<Longrightarrow>
    tracker_step c s (TClose ticker) s'"
| ts_prices: "tracker_step c s TPrices (update_all_prices ps s)"
| ts_bars: "tracker_step c s TBars (tracker_increment_bars ticker n s)"

definition within_limits :: "tracker_config \<Rightarrow> tracker \<Rightarrow> bool" where
  "within_limits c s \<longleftrightarrow>
     int (length (tr_positions s)) \<le> max 0 (tc_max_positions c)
     \<and> (0 < tc_max_entries c \<longrightarrow> (\<forall>y. get_count (tr_entry_counts s) y \<le> tc_max_entries c))"

lemma get_count_update [simp]:
  "get_count (AList.update k n d) j = (if j = k then n else get_count d j)"
  by (simp add: get_count_def map_of_update)

lemma length_delete_le: "length (AList.delete k d) \<le> length d"
  by (induction d) auto

lemma length_update_le: "length (AList.update k v d) \<le> Suc (length d)"
  by (induction d) auto

lemma length_map_position [simp]: "length (tr_positions (map_position t f s)) = length (tr_positions s)"
  by (simp add: map_position_def length_update_old split: option.split)

lemma counts_map_position [simp]: "tr_entry_counts (map_position t f s) = tr_entry_counts s"
  by (simp add: map_position_def split: option.split)

lemma update_all_prices_limits:
  "length (tr_positions (update_all_prices ps s)) = length (tr_positions s)
   \<and> tr_entry_counts (update_all_prices ps s) = tr_entry_counts s"
  unfolding update_all_prices_def by (induction ps arbitrary: s) auto

lemma record_outcome_frame [simp]:
  "tr_positions (record_outcome c now t pnl peak r s) = tr_positions s"
  "tr_entry_counts (record_outcome c now t pnl peak r s) = tr_entry_counts s"
  by (simp_all add: record_outcome_def Let_def clear_pauses_def record_loss_def record_hard_stop_def)

lemma pause_frame:
  "tr_positions (snd (pause_reason c now t s)) = tr_positions s"
  "tr_entry_counts (snd (pause_reason c now t s)) = tr_entry_counts s"
  "tr_positions (snd (hard_stop_reason c now t s)) = tr_positions s"
  "tr_entry_counts (snd (hard_stop_reason c now t s)) = tr_entry_counts s"
  by (simp_all add: pause_reason_def hard_stop_reason_def Let_def split: option.split)

lemma can_open_admits:
  assumes "can_open_position c now (Some t) s = (None, s1)" "t \<noteq> []"
  shows "tr_positions s1 = tr_positions s \<and> tr_entry_counts s1 = tr_entry_counts s
    \<and> int (length (tr_positions s)) < tc_max_positions c \<and> tc_max_daily_loss c < tr_daily_pnl s
    \<and> (0 < tc_max_entries c \<longrightarrow> get_count (tr_entry_counts s) (py_upper t) < tc_max_entries c)"
  using assms pause_frame[of c now t s]
    pause_frame(3,4)[of c now t "snd (pause_reason c now t s)"]
  by (auto simp: can_open_position_def entry_limit_reason_def Let_def not_le
      split: if_splits option.splits prod.splits)

lemma close_limits:
  assumes "close_position c now e t x r s = (res, s')"
  shows "length (tr_positions s') \<le> length (tr_positions s) \<and> tr_entry_counts s' = tr_entry_counts s"
  using assms length_delete_le[of t "tr_positions s"]
  by (auto simp: close_position_def Let_def split: option.splits if_splits)

lemma tracker_step_limits:
  assumes "within_limits c s" "tracker_step c s l s'"
  shows "within_limits c s'"
  using assms(2)
proof (cases rule: tracker_step.cases)
  case (ts_open now ticker s1 nowt price q path profile)
  note a = can_open_admits[OF ts_open(3,4)]
  have "int (length (AList.update ticker p (tr_positions s))) \<le> tc_max_positions c" for p
    using a length_update_le[of ticker p "tr_positions s"] by simp
  then show ?thesis
    using ts_open a assms(1) by (auto simp: within_limits_def open_position_def Let_def)
next
  case (ts_close now e t x r res)
  then show ?thesis using close_limits[OF ts_close(2)] assms(1) by (auto simp: within_limits_def)
next
  case (ts_prices ps)
  then show ?thesis using update_all_prices_limits[of ps s] assms(1) by (simp add: within_limits_def)
next
  case (ts_bars t n)
  then show ?thesis using assms(1) by (simp add: within_limits_def tracker_increment_bars_def)
qed

interpretation tracking: invariant_system "\<lambda>s. s = new_tracker" "tracker_step c" "within_limits c" for c
proof unfold_locales
  show "within_limits c s" if "s = new_tracker" for s
    using that by (simp add: within_limits_def new_tracker_def get_count_def)
qed (rule tracker_step_limits)

text \<open>
  Entry limits hold in every session: as long as each opening was admitted by
  \<open>can_open_position\<close>, in any interleaving with closes, price updates and bars, the tracker
  never holds more positions than configured, and no symbol is entered more often than its
  session cap.
\<close>

theorem entries_within_limits:
  assumes "run (tracker_step c) new_tracker ls s"
  shows "int (length (tr_positions s)) \<le> max 0 (tc_max_positions c)
    \<and> (0 < tc_max_entries c \<longrightarrow> (\<forall>y. get_count (tr_entry_counts s) y \<le> tc_max_entries c))"
  using tracking.run_from_init[OF assms] by (simp add: within_limits_def)

section \<open>Restart\<close>

text \<open>What a running tracker's positions look like: keyed by ticker, with the configured locks.\<close>

definition saveable :: "tracker_config \<Rightarrow> string \<Rightarrow> position \<Rightarrow> bool" where
  "saveable c t p \<longleftrightarrow>
     p_ticker p = t \<and> p_entry_time p \<noteq> [] \<and> p_scale_profile p \<noteq> []
     \<and> py_upper (p_scale_profile p) = p_scale_profile p
     \<and> p_lock1 p = tc_lock1 c \<and> p_lock2 p = tc_lock2 c \<and> p_lock3 p = tc_lock3 c
     \<and> p_trail_buffer p = tc_trail_buffer c"

definition reopened :: "position \<Rightarrow> position" where
  "reopened p = p\<lparr>p_current_price := p_entry_price p, p_current_profit_pct := 0, p_scale_pnl := 0\<rparr>"

lemma loaded_saved: "saveable c t p \<Longrightarrow> loaded_position c now t (saved_of p) = reopened p"
  by (simp add: saveable_def loaded_position_def saved_of_def new_position_def reopened_def)

lemma load_fold:
  "keys_distinct (d @ tr_positions s) \<Longrightarrow> (\<And>t p. (t, p) \<in> set d \<Longrightarrow> saveable c t p) \<Longrightarrow>
   fold (\<lambda>(t, r) s. s\<lparr>tr_positions := AList.update t (loaded_position c now t r) (tr_positions s)\<rparr>)
     (map (\<lambda>(t, p). (t, saved_of p)) d) s
   = s\<lparr>tr_positions := tr_positions s @ map (\<lambda>(t, p). (t, reopened p)) d\<rparr>"
proof (induction d arbitrary: s)
  case (Cons x d)
  obtain t p where x: "x = (t, p)" by (cases x)
  have "map_of (tr_positions s) t = None"
    using Cons.prems(1) by (auto simp: x map_of_eq_None_iff)
  then have u: "AList.update t (reopened p) (tr_positions s) = tr_positions s @ [(t, reopened p)]"
    by (rule map_of_append_new)
  have l: "loaded_position c now t (saved_of p) = reopened p"
    using Cons.prems(2)[of t p] by (simp add: x loaded_saved)
  let ?s = "s\<lparr>tr_positions := tr_positions s @ [(t, reopened p)]\<rparr>"
  have "keys_distinct (d @ tr_positions ?s)" using Cons.prems(1) by (auto simp: x)
  from Cons.IH[OF this] Cons.prems(2) show ?case by (simp add: x l u)
qed simp

text \<open>
  Restart fidelity: on the same session day, loading the saved file into an empty tracker gives
  back every position in order with its entry, quantities, peak, tier, floor, completed scales and
  bar count; what it does not give back are the current price, the current profit and the
  realised profit of the scale-outs, which restart at the entry price and at zero.
\<close>

theorem restart_restores_positions:
  assumes "keys_distinct (tr_positions s)"
    and "\<And>t p. (t, p) \<in> set (tr_positions s) \<Longrightarrow> saveable c t p"
    and "day \<in> set days"
  shows "tr_positions (load_positions c now days (Some (save_positions day s)) new_tracker)
         = map (\<lambda>(t, p). (t, p\<lparr>p_current_price := p_entry_price p, p_current_profit_pct := 0,
                                p_scale_pnl := 0\<rparr>)) (tr_positions s)"
proof -
  have "keys_distinct (tr_positions s @ tr_positions new_tracker)"
    using assms(1) by (simp add: new_tracker_def)
  from load_fold[OF this assms(2), of now] show ?thesis
    using assms(3) by (simp add: load_positions_def save_positions_def reopened_def new_tracker_def)
qed

definition demo_tracker_config :: tracker_config where
  "demo_tracker_config =
     \<lparr>tc_default_quantity = 10, tc_lock1 = 0, tc_lock2 = 1 / 2, tc_lock3 = 3 / 2,
      tc_trail_buffer = 3 / 2, tc_max_positions = 1, tc_max_daily_loss = -500,
      tc_hard_stop_limit = 2, tc_hard_stop_minutes = 30, tc_loss_limit = 3, tc_loss_minutes = 30,
      tc_only_cold = False, tc_cold_peak = 1, tc_max_entries = 2\<rparr>"

definition demo_tracker :: tracker where
  "demo_tracker = open_position demo_tracker_config ''t'' ''ABC'' 100 10 ''P1'' ''NORMAL'' new_tracker"

theorem entries_within_limits_witness:
  "\<exists>s. run (tracker_step demo_tracker_config) new_tracker [TOpen ''ABC''] s
     \<and> length (tr_positions s) = 1 \<and> get_count (tr_entry_counts s) ''ABC'' \<le> 2"
proof -
  have "can_open_position demo_tracker_config 0 (Some ''ABC'') new_tracker = (None, new_tracker)"
    by code_simp
  then have r: "run (tracker_step demo_tracker_config) new_tracker [TOpen ''ABC''] demo_tracker"
    unfolding demo_tracker_def
    by (intro run_one[where step = "tracker_step demo_tracker_config"] ts_open) simp_all
  have "length (tr_positions demo_tracker) = 1" by code_simp
  with entries_within_limits[OF r] r show ?thesis
    by (intro exI[of _ demo_tracker]) (simp add: demo_tracker_config_def)
qed

theorem restart_restores_positions_witness:
  "map (\<lambda>(t, p). (p_quantity p, p_scale_pnl p))
     (tr_positions (load_positions demo_tracker_config ''t2'' [''d''] (Some (save_positions ''d''
        (map_position ''ABC'' (apply_scale ''PCT2'' 5 102) demo_tracker))) new_tracker))
   = [(5, 0)]"
proof -
  let ?s = "map_position ''ABC'' (apply_scale ''PCT2'' 5 102) demo_tracker"
  have e: "tr_positions ?s = [(''ABC'', apply_scale ''PCT2'' 5 102
      (opened_position demo_tracker_config ''t'' ''ABC'' 100 10 ''P1'' ''NORMAL''))]"
    by (simp add: map_position_def demo_tracker_def open_position_def Let_def new_tracker_def)
  have q: "saveable demo_tracker_config ''ABC'' (apply_scale ''PCT2'' 5 102
      (opened_position demo_tracker_config ''t'' ''ABC'' 100 10 ''P1'' ''NORMAL''))"
    by code_simp
  from restart_restores_positions[of ?s demo_tracker_config "''d''" "[''d'']" "''t2''"]
  show ?thesis using q by (simp add: e apply_scale_def Let_def opened_position_def new_position_def)
qed

end
