(* ===== verification/PaperEngine.thy ===== *)
theory PaperEngine
  imports Orders "HOL-Library.Product_Lexorder"
begin

text \<open>
  \<open>momentum_paper/engine.py\<close> with the prints of \<open>momentum_paper/models.py\<close>: the forward evaluator
  of the paper strategies. It detects moves on prints, on snapshots and on aggregate buckets,
  follows each detected event through its fill and its exit, and writes tape records. A
  record keeps the event it was written for instead of the rendered payload; prices are exact
  rationals (a print with a price that is not positive is refused before the engine); the New York
  clock is a parameter.
\<close>

section \<open>Prints, events, records\<close>

record trade_print =
  tp_symbol :: string
  tp_sip_ms :: int
  tp_price :: rat
  tp_size :: int
  tp_trade_id :: string
  tp_exchange :: "int option"
  tp_trf_id :: "int option"
  tp_participant_ms :: "int option"
  tp_conditions :: "int list"
  tp_eligible :: bool
  tp_exclusion :: string

record bucket_evidence =
  be_reference_price :: rat
  be_reference_start :: int
  be_reference_end :: int
  be_signal_price :: rat
  be_signal_start :: int
  be_signal_end :: int
  be_decision_ns :: int
  be_lineage :: string

record paper_event =
  pv_id :: string
  pv_strategy :: string
  pv_window :: int
  pv_date :: string
  pv_symbol :: string
  pv_prior_close :: rat
  pv_reference :: "trade_print option"
  pv_detection :: "trade_print option"
  pv_window_prints :: nat
  pv_window_shares :: int
  pv_warrant_like :: bool
  pv_excluded :: int
  pv_sequence :: nat
  pv_path :: "trade_print list"
  pv_fill :: "trade_print option"
  pv_quantity :: "int option"
  pv_exit :: "trade_print option"
  pv_exit_reason :: string
  pv_pending :: "trade_print option"
  pv_mfe :: rat
  pv_mae :: rat
  pv_largest_gap :: int
  pv_last_path_ms :: "int option"
  pv_feed_gap :: bool
  pv_decision_ns :: "int option"
  pv_evidence :: "bucket_evidence option"
  pv_received_ns :: "int option"
  pv_published_ns :: "int option"

datatype record_type =
    DETECTED | FILLED | EXITED | NO_FILL | FINAL | UNANSWERABLE | FEED_GAP | PATH_PRINT

fun type_text :: "record_type \<Rightarrow> string" where
  "type_text DETECTED = ''DETECTED''"
| "type_text FILLED = ''FILLED''"
| "type_text EXITED = ''EXITED''"
| "type_text NO_FILL = ''NO_FILL''"
| "type_text FINAL = ''FINAL''"
| "type_text UNANSWERABLE = ''UNANSWERABLE''"
| "type_text FEED_GAP = ''FEED_GAP''"
| "type_text PATH_PRINT = ''PATH_PRINT''"

record tape_record =
  mt_key :: string
  mt_logical_id :: string
  mt_strategy :: string
  mt_type :: record_type
  mt_date :: string
  mt_symbol :: string
  mt_observed_ms :: int
  mt_event :: "paper_event option"
  mt_print :: "trade_print option"
  mt_reason :: string

text \<open>
  The engine's configuration: the frozen prior closes and strategy windows, the start of coverage,
  the detection clock (\<open>detection_time_is_eligible\<close>) and the New York date of an instant.
\<close>

record engine_config =
  ec_prior_closes :: "(string, rat) dict"
  ec_coverage_ms :: int
  ec_windows :: "(string, int) dict"
  ec_clock_ok :: "int \<Rightarrow> bool"
  ec_date :: "int \<Rightarrow> string"
  ec_identity :: "trade_print \<Rightarrow> string"
  ec_fingerprint :: "trade_print \<Rightarrow> string"

record paper_engine =
  en_history :: "(string, trade_print list) dict"
  en_snapshots :: "(string, trade_print list) dict"
  en_excluded :: "(string, trade_print list) dict"
  en_boundary :: "(string \<times> string, int) dict"
  en_active :: "(string, paper_event) dict"
  en_completed :: "(paper_event \<times> record_type \<times> string) list"
  en_session_excluded :: int
  en_collisions :: int
  en_seen :: "(string, int \<times> string) dict"
  en_seen_order :: "(int \<times> string \<times> string) list"

definition new_engine :: paper_engine where
  "new_engine =
     \<lparr>en_history = [], en_snapshots = [], en_excluded = [], en_boundary = [], en_active = [],
      en_completed = [], en_session_excluded = 0, en_collisions = 0, en_seen = [],
      en_seen_order = []\<rparr>"

definition FILL_WINDOW_MS :: int where "FILL_WINDOW_MS = 10000"
definition PATH_WINDOW_MS :: int where "PATH_WINDOW_MS = 600000"
definition SNAPSHOT_MAX_AGE_MS :: int where "SNAPSHOT_MAX_AGE_MS = 10000"
definition DETECTION_MULTIPLIER :: rat where "DETECTION_MULTIPLIER = 120 / 100"
definition TARGET_MULTIPLIER :: rat where "TARGET_MULTIPLIER = 105 / 100"
definition STOP_MULTIPLIER :: rat where "STOP_MULTIPLIER = 85 / 100"
definition PAPER_NOTIONAL :: rat where "PAPER_NOTIONAL = 500"
definition MAX_SOURCE_END_AGE_MS :: int where "MAX_SOURCE_END_AGE_MS = 7601"

section \<open>Symbols and clocks\<close>

definition is_space :: "char \<Rightarrow> bool" where
  "is_space c \<longleftrightarrow> (let n = (of_char c :: nat) in 9 \<le> n \<and> n \<le> 13 \<or> 28 \<le> n \<and> n \<le> 32)"

definition symbol_is_eligible :: "string \<Rightarrow> bool" where
  "symbol_is_eligible y \<longleftrightarrow>
     is_upper_symbol y \<and> \<not> is_space (hd y) \<and> \<not> is_space (last y)
     \<and> CHR ''.'' \<notin> set y \<and> length y \<le> 5"

definition py_endswith :: "string \<Rightarrow> string \<Rightarrow> bool" where
  "py_endswith s e \<longleftrightarrow> length e \<le> length s \<and> drop (length s - length e) s = e"

definition is_warrant_like :: "string \<Rightarrow> bool" where
  "is_warrant_like y \<longleftrightarrow>
     list_ex (py_endswith (py_upper y)) [''W'', ''WS'', ''WT'', ''U'', ''R'']"

text \<open>\<open>normalize_ts_ns\<close> of \<open>market_data/tick_time.py\<close>, for an integer or a missing value.\<close>

definition normalize_ts_ns :: "int option \<Rightarrow> int option" where
  "normalize_ts_ns value =
     (case value of None \<Rightarrow> None
      | Some v \<Rightarrow>
          if v \<le> 0 then None
          else if v \<ge> 1000000000000000000 then Some v
          else if v \<ge> 1000000000000000 then Some (v * 1000)
          else if v \<ge> 1000000000000 then Some (v * 1000000)
          else if v \<ge> 1000000000 then Some (v * 1000000000)
          else None)"

text \<open>\<open>aggregate_source_age_reason\<close> of \<open>momentum_paper/warning_source_age.py\<close>.\<close>

definition source_age_reason :: "int \<Rightarrow> int \<Rightarrow> string option" where
  "source_age_reason end_ms observed_ms =
     (let age = observed_ms - end_ms
      in if age < 0 then Some ''aggregate_bucket_incomplete''
         else if age > MAX_SOURCE_END_AGE_MS then Some ''aggregate_source_end_stale''
         else None)"

definition detection_ms :: "paper_event \<Rightarrow> int" where
  "detection_ms e =
     (case pv_detection e of
        Some p \<Rightarrow> tp_sip_ms p
      | None \<Rightarrow> (case pv_decision_ns e of Some n \<Rightarrow> n div 1000000 | None \<Rightarrow> 0))"

definition fill_after_ms :: "paper_event \<Rightarrow> int" where
  "fill_after_ms e =
     max (detection_ms e) ((case pv_decision_ns e of None \<Rightarrow> 0 | Some n \<Rightarrow> n) div 1000000)"

definition path_deadline_ms :: "paper_event \<Rightarrow> int" where
  "path_deadline_ms e =
     (case pv_fill e of
        None \<Rightarrow> detection_ms e + FILL_WINDOW_MS
      | Some f \<Rightarrow> tp_sip_ms f + PATH_WINDOW_MS)"

definition event_status :: "paper_event \<Rightarrow> string" where
  "event_status e =
     (if pv_exit e \<noteq> None then pv_exit_reason e
      else if pv_fill e \<noteq> None then ''OPEN'' else ''WAITING_FILL'')"

definition event_key :: "paper_event \<Rightarrow> string \<times> string" where
  "event_key e = (pv_strategy e, pv_symbol e)"

section \<open>Active events and their records\<close>

definition put_event :: "paper_event \<Rightarrow> paper_engine \<Rightarrow> paper_engine" where
  "put_event e s = s\<lparr>en_active := AList.update (pv_id e) e (en_active s)\<rparr>"

definition boundary :: "paper_engine \<Rightarrow> string \<times> string \<Rightarrow> int" where
  "boundary s k = (case map_of (en_boundary s) k of None \<Rightarrow> 0 | Some t \<Rightarrow> t)"

definition raise_boundary :: "string \<times> string \<Rightarrow> int \<Rightarrow> paper_engine \<Rightarrow> paper_engine" where
  "raise_boundary k t s =
     s\<lparr>en_boundary := AList.update k (max t (boundary s k)) (en_boundary s)\<rparr>"

definition has_unresolved :: "paper_engine \<Rightarrow> string \<times> string \<Rightarrow> bool" where
  "has_unresolved s k \<longleftrightarrow>
     list_ex (\<lambda>p. event_key (snd p) = k \<and> pv_exit (snd p) = None) (en_active s)"

text \<open>\<open>f"{sequence:08d}"\<close>.\<close>

definition pad8 :: "nat \<Rightarrow> string" where
  "pad8 n = (let t = show_nat n in replicate (8 - length t) (CHR ''0'') @ t)"

text \<open>\<open>_record\<close>: the event's sequence number is advanced and names the record.\<close>

definition emit ::
  "record_type \<Rightarrow> int \<Rightarrow> string \<Rightarrow> paper_event \<Rightarrow> tape_record \<times> paper_event" where
  "emit ty ms reason e =
     (let e1 = e\<lparr>pv_sequence := pv_sequence e + 1\<rparr>
      in (\<lparr>mt_key = pv_id e @ '':'' @ pad8 (pv_sequence e1) @ '':'' @ type_text ty,
           mt_logical_id = pv_id e, mt_strategy = pv_strategy e, mt_type = ty, mt_date = pv_date e,
           mt_symbol = pv_symbol e, mt_observed_ms = ms, mt_event = Some e1, mt_print = None,
           mt_reason = reason\<rparr>, e1))"

text \<open>The new event enters the active dictionary, then its record is written.\<close>

definition activate :: "int \<Rightarrow> paper_event \<Rightarrow> paper_engine \<Rightarrow> tape_record list \<times> paper_engine" where
  "activate ms e s = (case emit DETECTED ms '''' e of (r, e1) \<Rightarrow> ([r], put_event e1 s))"

section \<open>Exits and ends\<close>

definition set_exit ::
  "paper_event \<Rightarrow> trade_print \<Rightarrow> string \<Rightarrow> paper_engine \<Rightarrow> tape_record list \<times> paper_engine" where
  "set_exit e trade reason s =
     (if pv_exit e \<noteq> None then ([], s)
      else let e1 = e\<lparr>pv_exit := Some trade, pv_exit_reason := reason, pv_pending := None\<rparr>
           in (case emit EXITED (tp_sip_ms trade) reason e1 of
                 (r, e2) \<Rightarrow> ([r], put_event e2 (raise_boundary (event_key e) (tp_sip_ms trade) s))))"

definition resolve_pending ::
  "paper_event \<Rightarrow> int \<Rightarrow> paper_engine \<Rightarrow> tape_record list \<times> paper_engine" where
  "resolve_pending e now_ms s =
     (case pv_pending e of
        None \<Rightarrow> ([], s)
      | Some t \<Rightarrow>
          if pv_exit e \<noteq> None \<or> now_ms div 1000 \<le> tp_sip_ms t div 1000 then ([], s)
          else set_exit e t ''TARGET'' s)"

definition terminal_boundary_ms :: "paper_event \<Rightarrow> record_type \<Rightarrow> int \<Rightarrow> int" where
  "terminal_boundary_ms e ty now_ms =
     (if ty = NO_FILL then detection_ms e + FILL_WINDOW_MS
      else if ty = UNANSWERABLE then path_deadline_ms e
      else case pv_exit e of Some x \<Rightarrow> tp_sip_ms x | None \<Rightarrow> now_ms)"

definition finish_event ::
  "paper_event \<Rightarrow> record_type \<Rightarrow> int \<Rightarrow> string \<Rightarrow> paper_engine \<Rightarrow> tape_record list \<times> paper_engine" where
  "finish_event e ty now_ms reason s =
     (let s1 = (if pv_exit e = None
                then raise_boundary (event_key e) (terminal_boundary_ms e ty now_ms) s else s)
      in (case emit ty now_ms reason e of
            (r, e1) \<Rightarrow> ([r], s1\<lparr>en_completed := en_completed s1 @ [(e1, ty, reason)],
                              en_active := AList.delete (pv_id e) (en_active s1)\<rparr>)))"

definition finalize_event ::
  "paper_event \<Rightarrow> int \<Rightarrow> paper_engine \<Rightarrow> tape_record list \<times> paper_engine" where
  "finalize_event e now_ms s =
     (if pv_feed_gap e then finish_event e UNANSWERABLE now_ms ''feed_gap'' s
      else if pv_exit e = None then finish_event e UNANSWERABLE now_ms ''missing_exit_print'' s
      else finish_event e FINAL now_ms ''path_complete'' s)"

section \<open>Following one event\<close>

definition append_path :: "trade_print \<Rightarrow> paper_event \<Rightarrow> paper_event" where
  "append_path trade e =
     (let e1 = (if tp_eligible trade
                then e\<lparr>pv_largest_gap := (case pv_last_path_ms e of
                         None \<Rightarrow> pv_largest_gap e
                       | Some t \<Rightarrow> max (pv_largest_gap e) (tp_sip_ms trade - t)),
                       pv_last_path_ms := Some (tp_sip_ms trade)\<rparr>
                else e)
      in e1\<lparr>pv_path := pv_path e1 @ [trade]\<rparr>)"

definition fill_event :: "trade_print \<Rightarrow> paper_event \<Rightarrow> paper_event" where
  "fill_event trade e =
     e\<lparr>pv_fill := Some trade, pv_quantity := Some (whole_shares PAPER_NOTIONAL (tp_price trade))\<rparr>"

definition move_pct :: "trade_print \<Rightarrow> trade_print \<Rightarrow> rat" where
  "move_pct fill trade = (tp_price trade / tp_price fill - 1) * 100"

definition track_move :: "trade_print \<Rightarrow> trade_print \<Rightarrow> paper_event \<Rightarrow> paper_event" where
  "track_move fill trade e =
     e\<lparr>pv_mfe := max (pv_mfe e) (move_pct fill trade), pv_mae := min (pv_mae e) (move_pct fill trade)\<rparr>"

text \<open>An eligible print after the fill, while no exit is known: stop, target, or the target of an
  earlier second that is now confirmed.\<close>

definition decide_exit ::
  "trade_print \<Rightarrow> trade_print \<Rightarrow> paper_event \<Rightarrow> paper_engine \<Rightarrow> tape_record list \<times> paper_engine" where
  "decide_exit fill trade e s =
     (if tp_price trade \<le> tp_price fill * STOP_MULTIPLIER
      then set_exit (e\<lparr>pv_pending := None\<rparr>) trade ''STOP'' s
      else let e1 = (if tp_price trade \<ge> tp_price fill * TARGET_MULTIPLIER \<and> pv_pending e = None
                     then e\<lparr>pv_pending := Some trade\<rparr> else e)
           in (case pv_pending e1 of
                 Some t \<Rightarrow>
                   if tp_sip_ms t div 1000 < tp_sip_ms trade div 1000
                   then set_exit e1 t ''TARGET'' s else ([], put_event e1 s)
               | None \<Rightarrow> ([], put_event e1 s)))"

text \<open>
  One print within the path window of one event: the path grows, then the fill or the exit is
  decided.
\<close>

definition within_path ::
  "trade_print \<Rightarrow> paper_event \<Rightarrow> paper_engine \<Rightarrow> tape_record list \<times> paper_engine" where
  "within_path trade e0 s =
     (let e = append_path trade e0
      in if \<not> tp_eligible trade then ([], put_event (e\<lparr>pv_excluded := pv_excluded e + 1\<rparr>) s)
         else (case pv_fill e of
           None \<Rightarrow>
             if tp_sip_ms trade \<le> fill_after_ms e then ([], put_event e s)
             else (case emit FILLED (tp_sip_ms trade) '''' (fill_event trade e) of
                     (r, e1) \<Rightarrow> ([r], put_event e1 s))
         | Some fill \<Rightarrow>
             if tp_sip_ms trade \<le> tp_sip_ms fill then ([], put_event e s)
             else let e1 = track_move fill trade e
                  in if pv_exit e1 \<noteq> None then ([], put_event e1 s)
                     else decide_exit fill trade e1 s))"

definition past_deadline ::
  "trade_print \<Rightarrow> paper_event \<Rightarrow> paper_engine \<Rightarrow> tape_record list \<times> paper_engine" where
  "past_deadline trade e s =
     (if pv_fill e = None
      then finish_event e NO_FILL (tp_sip_ms trade) ''no_eligible_print_within_10s'' s
      else if pv_exit e \<noteq> None then finalize_event e (tp_sip_ms trade) s
      else if \<not> tp_eligible trade then ([], s)
      else (case set_exit e trade ''TIME'' s of
        (rs, s1) \<Rightarrow>
          (case map_of (en_active s1) (pv_id e) of
             None \<Rightarrow> (rs, s1)
           | Some e1 \<Rightarrow> (case finalize_event e1 (tp_sip_ms trade) s1 of (rs', s2) \<Rightarrow> (rs @ rs', s2)))))"

text \<open>The records, whether the print joined the event's path, and the engine after one event.\<close>

definition advance_event ::
  "trade_print \<Rightarrow> string \<Rightarrow> paper_engine \<Rightarrow> tape_record list \<times> string list \<times> paper_engine" where
  "advance_event trade i s =
     (case map_of (en_active s) i of
        None \<Rightarrow> ([], [], s)
      | Some e0 \<Rightarrow>
          (case resolve_pending e0 (tp_sip_ms trade) s of
            (rs, s1) \<Rightarrow>
              (case map_of (en_active s1) i of
                 None \<Rightarrow> (rs, [], s1)
               | Some e \<Rightarrow>
                   if tp_sip_ms trade > path_deadline_ms e
                   then (case past_deadline trade e s1 of (rs', s2) \<Rightarrow> (rs @ rs', [], s2))
                   else if tp_sip_ms trade < detection_ms e then (rs, [], s1)
                   else (case within_path trade e s1 of
                           (rs', s2) \<Rightarrow> (rs @ rs', [pv_strategy e], s2)))))"

fun advance_all ::
  "trade_print \<Rightarrow> string list \<Rightarrow> paper_engine \<Rightarrow> tape_record list \<times> string list \<times> paper_engine" where
  "advance_all trade [] s = ([], [], s)"
| "advance_all trade (i # is) s =
     (case advance_event trade i s of
        (rs, ys, s1) \<Rightarrow> (case advance_all trade is s1 of (rs', ys', s2) \<Rightarrow> (rs @ rs', ys @ ys', s2)))"

definition events_of :: "string \<Rightarrow> paper_engine \<Rightarrow> string list" where
  "events_of y s = map fst (filter (\<lambda>p. pv_symbol (snd p) = y) (en_active s))"

definition advance_symbol_events ::
  "trade_print \<Rightarrow> paper_engine \<Rightarrow> tape_record list \<times> string list \<times> paper_engine" where
  "advance_symbol_events trade s = advance_all trade (events_of (tp_symbol trade) s) s"

section \<open>The shared tape\<close>

definition tape_logical_id :: "engine_config \<Rightarrow> string \<Rightarrow> trade_print \<Rightarrow> string" where
  "tape_logical_id C strategy trade =
     ''momentum-tape:'' @ ec_date C (tp_sip_ms trade) @ '':'' @ strategy @ '':'' @ tp_symbol trade"

fun forget_old ::
  "int \<Rightarrow> (int \<times> string \<times> string) list \<Rightarrow> (string, int \<times> string) dict
   \<Rightarrow> (int \<times> string \<times> string) list \<times> (string, int \<times> string) dict" where
  "forget_old cutoff [] d = ([], d)"
| "forget_old cutoff ((t, k, f) # xs) d =
     (if t < cutoff
      then forget_old cutoff xs (if map_of d k = Some (t, f) then AList.delete k d else d)
      else ((t, k, f) # xs, d))"

definition path_key :: "engine_config \<Rightarrow> string \<Rightarrow> trade_print \<Rightarrow> string" where
  "path_key C strategy trade =
     tape_logical_id C strategy trade @ '':'' @ ec_identity C trade @ '':PATH_PRINT''"

definition shared_path_record ::
  "engine_config \<Rightarrow> string \<Rightarrow> trade_print \<Rightarrow> paper_engine \<Rightarrow> tape_record option \<times> paper_engine" where
  "shared_path_record C strategy trade s =
     (let base = path_key C strategy trade;
          fp = ec_fingerprint C trade;
          (order, seen) = forget_old (tp_sip_ms trade - PATH_WINDOW_MS) (en_seen_order s) (en_seen s);
          old = map_of seen base
      in if (case old of None \<Rightarrow> False | Some (t, f) \<Rightarrow> f = fp)
         then (None, s\<lparr>en_seen_order := order, en_seen := seen\<rparr>)
         else let k = (if old = None then base else base @ '':COLLISION:'' @ fp)
              in (Some \<lparr>mt_key = k, mt_logical_id = tape_logical_id C strategy trade,
                        mt_strategy = strategy, mt_type = PATH_PRINT,
                        mt_date = ec_date C (tp_sip_ms trade), mt_symbol = tp_symbol trade,
                        mt_observed_ms = tp_sip_ms trade, mt_event = None,
                        mt_print = Some trade, mt_reason = ''''\<rparr>,
                  s\<lparr>en_seen := AList.update k (tp_sip_ms trade, fp) seen,
                    en_seen_order := order @ [(tp_sip_ms trade, k, fp)],
                    en_collisions := (if old = None then en_collisions s else en_collisions s + 1)\<rparr>))"

fun path_records ::
  "engine_config \<Rightarrow> trade_print \<Rightarrow> string list \<Rightarrow> paper_engine \<Rightarrow> tape_record list \<times> paper_engine" where
  "path_records C trade [] s = ([], s)"
| "path_records C trade (y # ys) s =
     (case shared_path_record C y trade s of
        (r, s1) \<Rightarrow>
          (case path_records C trade ys s1 of
             (rs, s2) \<Rightarrow> ((case r of None \<Rightarrow> rs | Some x \<Rightarrow> x # rs), s2)))"

section \<open>Detection\<close>

definition can_detect :: "engine_config \<Rightarrow> trade_print \<Rightarrow> bool" where
  "can_detect C trade \<longleftrightarrow>
     ec_clock_ok C (tp_sip_ms trade) \<and> symbol_is_eligible (tp_symbol trade)
     \<and> (case map_of (ec_prior_closes C) (tp_symbol trade) of None \<Rightarrow> False | Some c \<Rightarrow> c \<ge> 1)
     \<and> tp_sip_ms trade - ec_coverage_ms C \<ge> 60000"

text \<open>\<open>min(pool, key=price)\<close>: the first of the cheapest.\<close>

fun cheapest :: "trade_print \<Rightarrow> trade_print list \<Rightarrow> trade_print" where
  "cheapest best [] = best"
| "cheapest best (x # xs) = cheapest (if tp_price x < tp_price best then x else best) xs"

definition reference_pool ::
  "string \<Rightarrow> int \<Rightarrow> int \<Rightarrow> int \<Rightarrow> trade_print list \<Rightarrow> trade_print list" where
  "reference_pool y sip_ms window bound =
     filter (\<lambda>p. tp_symbol p = y \<and> sip_ms - window * 1000 \<le> tp_sip_ms p \<and> tp_sip_ms p < sip_ms
                \<and> tp_sip_ms p > bound)"

definition new_event ::
  "engine_config \<Rightarrow> string \<Rightarrow> int \<Rightarrow> trade_print \<Rightarrow> trade_print \<Rightarrow> trade_print list \<Rightarrow> int \<Rightarrow> int option
   \<Rightarrow> paper_event" where
  "new_event C strategy window reference detection pool excluded decision =
     \<lparr>pv_id = strategy @ '':'' @ tp_symbol detection @ '':'' @ show_int (tp_sip_ms detection),
      pv_strategy = strategy, pv_window = window, pv_date = ec_date C (tp_sip_ms detection),
      pv_symbol = tp_symbol detection,
      pv_prior_close = the (map_of (ec_prior_closes C) (tp_symbol detection)),
      pv_reference = Some reference, pv_detection = Some detection,
      pv_window_prints = length pool, pv_window_shares = sum_list (map tp_size pool),
      pv_warrant_like = is_warrant_like (tp_symbol detection), pv_excluded = excluded,
      pv_sequence = 0, pv_path = [detection], pv_fill = None, pv_quantity = None, pv_exit = None,
      pv_exit_reason = '''', pv_pending = None, pv_mfe = 0, pv_mae = 0, pv_largest_gap = 0,
      pv_last_path_ms = Some (tp_sip_ms detection), pv_feed_gap = False, pv_decision_ns = decision,
      pv_evidence = None, pv_received_ns = None, pv_published_ns = None\<rparr>"

definition detect_one ::
  "engine_config \<Rightarrow> trade_print \<Rightarrow> trade_print list \<Rightarrow> trade_print list \<Rightarrow> int option \<Rightarrow> string \<times> int
   \<Rightarrow> paper_engine \<Rightarrow> tape_record list \<times> paper_engine" where
  "detect_one C trade history excluded decision w s =
     (case w of (strategy, window) \<Rightarrow>
        if has_unresolved s (strategy, tp_symbol trade) then ([], s)
        else (case reference_pool (tp_symbol trade) (tp_sip_ms trade) window
                     (boundary s (strategy, tp_symbol trade)) history of
          [] \<Rightarrow> ([], s)
        | p # ps \<Rightarrow>
            let reference = cheapest p ps
            in if tp_price trade < tp_price reference * DETECTION_MULTIPLIER then ([], s)
               else let n = length (filter (\<lambda>x. tp_sip_ms trade - window * 1000 \<le> tp_sip_ms x
                                               \<and> tp_sip_ms x < tp_sip_ms trade) excluded)
                    in activate (tp_sip_ms trade)
                         (new_event C strategy window reference trade (p # ps) (int n) decision) s))"

fun detect_all ::
  "engine_config \<Rightarrow> trade_print \<Rightarrow> trade_print list \<Rightarrow> trade_print list \<Rightarrow> int option
   \<Rightarrow> (string \<times> int) list \<Rightarrow> paper_engine \<Rightarrow> tape_record list \<times> paper_engine" where
  "detect_all C trade history excluded decision [] s = ([], s)"
| "detect_all C trade history excluded decision (w # ws) s =
     (case detect_one C trade history excluded decision w s of
        (rs, s1) \<Rightarrow> (case detect_all C trade history excluded decision ws s1 of
                       (rs', s2) \<Rightarrow> (rs @ rs', s2)))"

definition prints_of :: "(string, trade_print list) dict \<Rightarrow> string \<Rightarrow> trade_print list" where
  "prints_of d y = (case map_of d y of None \<Rightarrow> [] | Some ps \<Rightarrow> ps)"

text \<open>\<open>sorted(set(...))\<close> of the strategies whose path the print joined.\<close>

definition sorted_strategies :: "string list \<Rightarrow> string list" where
  "sorted_strategies ys = sorted_list_of_set (set ys)"

definition ingest ::
  "engine_config \<Rightarrow> trade_print \<Rightarrow> bool \<Rightarrow> int option \<Rightarrow> paper_engine \<Rightarrow> tape_record list \<times> paper_engine"
where
  "ingest C trade allow_detection decision s =
     (let y = tp_symbol trade; cutoff = tp_sip_ms trade - 60000
      in if \<not> symbol_is_eligible y then ([], s)
         else (case advance_symbol_events trade s of (rs, paths, s1) \<Rightarrow>
           let history = dropWhile (\<lambda>p. tp_sip_ms p < cutoff) (prints_of (en_history s1) y);
               excluded = dropWhile (\<lambda>p. tp_sip_ms p < cutoff) (prints_of (en_excluded s1) y);
               s2 = s1\<lparr>en_history := AList.update y history (en_history s1),
                       en_excluded := AList.update y excluded (en_excluded s1)\<rparr>
           in if \<not> tp_eligible trade
              then (let s3 = s2\<lparr>en_session_excluded := en_session_excluded s2 + 1,
                                en_excluded := AList.update y (excluded @ [trade]) (en_excluded s2)\<rparr>
                    in (case path_records C trade (sorted_strategies paths) s3 of
                          (ps, s4) \<Rightarrow> (rs @ ps, s4)))
              else (case (if allow_detection \<and> can_detect C trade
                          then detect_all C trade history excluded decision (ec_windows C) s2
                          else ([], s2)) of
                (ds, s3) \<Rightarrow>
                  let s4 = s3\<lparr>en_history := AList.update y (history @ [trade]) (en_history s3)\<rparr>
                  in (case path_records C trade (sorted_strategies (paths @ map mt_strategy ds)) s4 of
                        (ps, s5) \<Rightarrow> (rs @ ds @ ps, s5)))))"

section \<open>Clock, gaps and the end of the session\<close>

definition clock_event :: "int \<Rightarrow> string \<Rightarrow> paper_engine \<Rightarrow> tape_record list \<times> paper_engine" where
  "clock_event now_ms i s =
     (case map_of (en_active s) i of
        None \<Rightarrow> ([], s)
      | Some e0 \<Rightarrow>
          (case resolve_pending e0 now_ms s of
            (rs, s1) \<Rightarrow>
              (case map_of (en_active s1) i of
                 None \<Rightarrow> (rs, s1)
               | Some e \<Rightarrow>
                   if pv_fill e = None \<and> now_ms > path_deadline_ms e
                   then (case finish_event e NO_FILL now_ms ''no_eligible_print_within_10s'' s1 of
                           (rs', s2) \<Rightarrow> (rs @ rs', s2))
                   else if pv_exit e \<noteq> None \<and> now_ms > path_deadline_ms e
                   then (case finalize_event e now_ms s1 of (rs', s2) \<Rightarrow> (rs @ rs', s2))
                   else (rs, s1))))"

fun for_events ::
  "(string \<Rightarrow> paper_engine \<Rightarrow> tape_record list \<times> paper_engine) \<Rightarrow> string list \<Rightarrow> paper_engine
   \<Rightarrow> tape_record list \<times> paper_engine" where
  "for_events f [] s = ([], s)"
| "for_events f (i # is) s =
     (case f i s of (rs, s1) \<Rightarrow> (case for_events f is s1 of (rs', s2) \<Rightarrow> (rs @ rs', s2)))"

definition advance_clock :: "int \<Rightarrow> paper_engine \<Rightarrow> tape_record list \<times> paper_engine" where
  "advance_clock now_ms s = for_events (clock_event now_ms) (map fst (en_active s)) s"

definition gap_event ::
  "int \<Rightarrow> int \<Rightarrow> string option \<Rightarrow> string \<Rightarrow> paper_engine \<Rightarrow> tape_record list \<times> paper_engine" where
  "gap_event started ended y i s =
     (case map_of (en_active s) i of
        None \<Rightarrow> ([], s)
      | Some e \<Rightarrow>
          if y \<noteq> None \<and> y \<noteq> Some (pv_symbol e)
             \<or> pv_feed_gap e \<or> ended < detection_ms e \<or> started > path_deadline_ms e
          then ([], s)
          else (case emit FEED_GAP ended '''' (e\<lparr>pv_feed_gap := True\<rparr>) of
                  (r, e1) \<Rightarrow> ([r], put_event e1 s)))"

definition mark_feed_gap ::
  "int \<Rightarrow> int \<Rightarrow> string option \<Rightarrow> paper_engine \<Rightarrow> tape_record list \<times> paper_engine" where
  "mark_feed_gap started ended y s = for_events (gap_event started ended y) (map fst (en_active s)) s"

definition close_event :: "int \<Rightarrow> string \<Rightarrow> paper_engine \<Rightarrow> tape_record list \<times> paper_engine" where
  "close_event now_ms i s =
     (case map_of (en_active s) i of
        None \<Rightarrow> ([], s)
      | Some e \<Rightarrow>
          if pv_fill e = None \<and> now_ms > detection_ms e + FILL_WINDOW_MS
          then finish_event e NO_FILL now_ms ''no_eligible_print_within_10s'' s
          else finish_event e UNANSWERABLE now_ms
                 (if pv_feed_gap e then ''feed_gap'' else ''session_tail_closed_before_complete_path'') s)"

definition close_session :: "int \<Rightarrow> paper_engine \<Rightarrow> tape_record list \<times> paper_engine" where
  "close_session now_ms s =
     (case advance_clock now_ms s of
        (rs, s1) \<Rightarrow> (case for_events (close_event now_ms) (map fst (en_active s1)) s1 of
                       (rs', s2) \<Rightarrow> (rs @ rs', s2)))"

section \<open>Detection from snapshots\<close>

text \<open>The fields \<open>detect_from_snapshots\<close> reads of a market snapshot.\<close>

record market_snapshot =
  sn_symbol :: string
  sn_trade_ns :: "int option"
  sn_price :: "rat option"

text \<open>A usable snapshot becomes a sample: known symbol, fresh, priced, newer than the last one.\<close>

definition snapshot_sample ::
  "engine_config \<Rightarrow> int \<Rightarrow> market_snapshot \<Rightarrow> paper_engine \<Rightarrow> trade_print option" where
  "snapshot_sample C completed_ms n s =
     (let y = sn_symbol n
      in if map_of (ec_prior_closes C) y = None \<or> \<not> symbol_is_eligible y then None
         else (case (normalize_ts_ns (sn_trade_ns n), sn_price n) of
           (Some raw, Some price) \<Rightarrow>
             let ms = raw div 1000000; history = prints_of (en_snapshots s) y
             in if \<not> (0 \<le> completed_ms - ms \<and> completed_ms - ms \<le> SNAPSHOT_MAX_AGE_MS)
                   \<or> price \<le> 0 \<or> history \<noteq> [] \<and> ms \<le> tp_sip_ms (last history)
                then None
                else Some \<lparr>tp_symbol = y, tp_sip_ms = ms, tp_price = price, tp_size = 0,
                           tp_trade_id = ''snapshot:'' @ y @ '':'' @ show_int ms,
                           tp_exchange = None, tp_trf_id = None, tp_participant_ms = None,
                           tp_conditions = [], tp_eligible = True,
                           tp_exclusion = ''snapshot_candidate''\<rparr>
         | _ \<Rightarrow> None))"

record proposal =
  pr_score :: rat
  pr_strategy :: string
  pr_window :: int
  pr_reference :: trade_print
  pr_sample :: trade_print
  pr_pool :: "trade_print list"

definition proposal_key :: "proposal \<Rightarrow> rat \<times> string \<times> string" where
  "proposal_key p = (- pr_score p, tp_symbol (pr_sample p), pr_strategy p)"

definition propose_one ::
  "trade_print \<Rightarrow> trade_print list \<Rightarrow> paper_engine \<Rightarrow> string \<times> int \<Rightarrow> proposal option" where
  "propose_one sample history s w =
     (case w of (strategy, window) \<Rightarrow>
        if has_unresolved s (strategy, tp_symbol sample) then None
        else (case reference_pool (tp_symbol sample) (tp_sip_ms sample) window
                     (boundary s (strategy, tp_symbol sample)) history of
          [] \<Rightarrow> None
        | p # ps \<Rightarrow>
            let reference = cheapest p ps
            in if tp_price sample \<ge> tp_price reference * DETECTION_MULTIPLIER
               then Some \<lparr>pr_score = tp_price sample / tp_price reference, pr_strategy = strategy,
                          pr_window = window, pr_reference = reference, pr_sample = sample,
                          pr_pool = p # ps\<rparr>
               else None))"

fun propose ::
  "trade_print \<Rightarrow> trade_print list \<Rightarrow> paper_engine \<Rightarrow> (string \<times> int) list \<Rightarrow> proposal list" where
  "propose sample history s [] = []"
| "propose sample history s (w # ws) =
     (case propose_one sample history s w of
        None \<Rightarrow> propose sample history s ws
      | Some p \<Rightarrow> p # propose sample history s ws)"

definition snapshot_step ::
  "engine_config \<Rightarrow> int \<Rightarrow> market_snapshot \<Rightarrow> paper_engine \<Rightarrow> proposal list \<times> paper_engine" where
  "snapshot_step C completed_ms n s =
     (case snapshot_sample C completed_ms n s of
        None \<Rightarrow> ([], s)
      | Some sample \<Rightarrow>
          let y = tp_symbol sample;
              history = dropWhile (\<lambda>p. tp_sip_ms p < tp_sip_ms sample - 60000)
                          (prints_of (en_snapshots s) y)
          in (if can_detect C sample then propose sample history s (ec_windows C) else [],
              s\<lparr>en_snapshots := AList.update y (history @ [sample]) (en_snapshots s)\<rparr>))"

fun snapshot_proposals ::
  "engine_config \<Rightarrow> int \<Rightarrow> market_snapshot list \<Rightarrow> paper_engine \<Rightarrow> proposal list \<times> paper_engine" where
  "snapshot_proposals C completed_ms [] s = ([], s)"
| "snapshot_proposals C completed_ms (n # ns) s =
     (case snapshot_step C completed_ms n s of
        (ps, s1) \<Rightarrow> (case snapshot_proposals C completed_ms ns s1 of (ps', s2) \<Rightarrow> (ps @ ps', s2)))"

definition active_symbols :: "paper_engine \<Rightarrow> string list" where
  "active_symbols s = remdups (map (pv_symbol \<circ> snd) (en_active s))"

text \<open>Best move first; a symbol without an active event is admitted only below the cap.\<close>

fun admit_proposals ::
  "engine_config \<Rightarrow> nat \<Rightarrow> string list \<Rightarrow> proposal list \<Rightarrow> paper_engine
   \<Rightarrow> tape_record list \<times> nat \<times> paper_engine" where
  "admit_proposals C cap active [] s = ([], 0, s)"
| "admit_proposals C cap active (p # ps) s =
     (let y = tp_symbol (pr_sample p)
      in if y \<notin> set active \<and> length active \<ge> cap
         then (case admit_proposals C cap active ps s of (rs, n, s1) \<Rightarrow> (rs, n + 1, s1))
         else (case activate (tp_sip_ms (pr_sample p))
                      (new_event C (pr_strategy p) (pr_window p) (pr_reference p) (pr_sample p)
                         (pr_pool p) 0 None) s of
           (rs, s1) \<Rightarrow>
             (case admit_proposals C cap (List.insert y active) ps s1 of
                (rs', n, s2) \<Rightarrow> (rs @ rs', n, s2))))"

definition detect_from_snapshots ::
  "engine_config \<Rightarrow> market_snapshot list \<Rightarrow> int \<Rightarrow> nat \<Rightarrow> paper_engine
   \<Rightarrow> tape_record list \<times> nat \<times> paper_engine" where
  "detect_from_snapshots C ns completed_ms cap s =
     (case snapshot_proposals C completed_ms ns s of
        (ps, s1) \<Rightarrow> admit_proposals C cap (active_symbols s1) (sort_key proposal_key ps) s1)"

section \<open>Warning ledger: detection from aggregate buckets\<close>

definition WARNING_STRATEGIES :: "(string, int) dict" where
  "WARNING_STRATEGIES = [(''momentum_30s_warn'', 30), (''momentum_60s_warn'', 60)]"

record bucket_signal =
  bk_strategy :: string
  bk_symbol :: string
  bk_reference_price :: rat
  bk_reference_start :: int
  bk_reference_end :: int
  bk_signal_price :: rat
  bk_signal_start :: int
  bk_signal_end :: int
  bk_decision_ns :: int
  bk_trade :: "trade_print option"
  bk_received_ns :: "int option"
  bk_published_ns :: "int option"

text \<open>Receipt and publication of the aggregate relative to the decision.\<close>

definition aggregate_timely :: "int option \<Rightarrow> int option \<Rightarrow> int \<Rightarrow> bool" where
  "aggregate_timely received published decision \<longleftrightarrow>
     (case (received, published) of
        (Some r, Some p) \<Rightarrow> 0 \<le> decision - r \<and> decision - r \<le> 1000000000 \<and> decision \<ge> p
      | _ \<Rightarrow> False)"

definition bucket_refused :: "engine_config \<Rightarrow> int \<Rightarrow> bucket_signal \<Rightarrow> paper_engine \<Rightarrow> bool" where
  "bucket_refused C window b s \<longleftrightarrow>
     (let now_ms = bk_decision_ns b div 1000000;
          at_ms = (case bk_trade b of Some t \<Rightarrow> tp_sip_ms t | None \<Rightarrow> now_ms)
      in \<not> ec_clock_ok C now_ms \<or> \<not> symbol_is_eligible (bk_symbol b)
         \<or> map_of (ec_prior_closes C) (bk_symbol b) = None \<or> bk_signal_price b < 1
         \<or> bk_reference_price b \<le> 0
         \<or> bk_signal_price b < bk_reference_price b * DETECTION_MULTIPLIER
         \<or> \<not> (at_ms - window * 1000 \<le> bk_reference_start b
              \<and> bk_reference_start b < bk_reference_end b \<and> bk_reference_end b \<le> at_ms)
         \<or> bk_reference_start b \<le> boundary s (bk_strategy b, bk_symbol b)
         \<or> has_unresolved s (bk_strategy b, bk_symbol b)
         \<or> (case bk_trade b of
              None \<Rightarrow>
                \<not> (bk_reference_end b \<le> bk_signal_start b
                   \<or> (bk_reference_start b, bk_reference_end b) = (bk_signal_start b, bk_signal_end b))
                \<or> \<not> bk_signal_start b < bk_signal_end b
                \<or> source_age_reason (bk_signal_end b) now_ms \<noteq> None
                \<or> \<not> aggregate_timely (bk_received_ns b) (bk_published_ns b) (bk_decision_ns b)
            | Some t \<Rightarrow>
                bk_signal_start b \<noteq> bk_signal_end b
                \<or> \<not> (bk_signal_end b \<le> now_ms \<and> now_ms \<le> bk_signal_end b + 1000)
                \<or> \<not> tp_eligible t \<or> tp_symbol t \<noteq> bk_symbol b \<or> tp_price t \<noteq> bk_signal_price b
                \<or> tp_sip_ms t > now_ms))"

definition bucket_lineage :: "bucket_signal \<Rightarrow> string" where
  "bucket_lineage b =
     (if bk_trade b \<noteq> None then ''observed_raw_bucket_reference'' else ''observed_aggregate'')"

definition bucket_event :: "engine_config \<Rightarrow> int \<Rightarrow> bucket_signal \<Rightarrow> paper_event" where
  "bucket_event C window b =
     \<lparr>pv_id = bk_strategy b @ '':'' @ bk_symbol b @ '':'' @ bucket_lineage b @ '':''
               @ show_int (bk_decision_ns b),
      pv_strategy = bk_strategy b, pv_window = window,
      pv_date = ec_date C (bk_decision_ns b div 1000000), pv_symbol = bk_symbol b,
      pv_prior_close = the (map_of (ec_prior_closes C) (bk_symbol b)),
      pv_reference = None, pv_detection = bk_trade b, pv_window_prints = 0, pv_window_shares = 0,
      pv_warrant_like = is_warrant_like (bk_symbol b), pv_excluded = 0, pv_sequence = 0,
      pv_path = [], pv_fill = None, pv_quantity = None, pv_exit = None, pv_exit_reason = '''',
      pv_pending = None, pv_mfe = 0, pv_mae = 0, pv_largest_gap = 0, pv_last_path_ms = None,
      pv_feed_gap = False, pv_decision_ns = Some (bk_decision_ns b),
      pv_evidence = Some \<lparr>be_reference_price = bk_reference_price b,
                          be_reference_start = bk_reference_start b,
                          be_reference_end = bk_reference_end b,
                          be_signal_price = bk_signal_price b, be_signal_start = bk_signal_start b,
                          be_signal_end = bk_signal_end b, be_decision_ns = bk_decision_ns b,
                          be_lineage = bucket_lineage b\<rparr>,
      pv_received_ns = bk_received_ns b, pv_published_ns = bk_published_ns b\<rparr>"

definition detect_from_bucket ::
  "engine_config \<Rightarrow> bucket_signal \<Rightarrow> paper_engine \<Rightarrow> tape_record list result \<times> paper_engine" where
  "detect_from_bucket C b s =
     (case map_of (ec_windows C) (bk_strategy b) of
        None \<Rightarrow> (Inl (ValueError ''bucket_detection_requires_warning_ledger''), s)
      | Some window \<Rightarrow>
          if map_of WARNING_STRATEGIES (bk_strategy b) = None
          then (Inl (ValueError ''bucket_detection_requires_warning_ledger''), s)
          else if bucket_refused C window b s then (Inr [], s)
          else (case activate (bk_decision_ns b div 1000000) (bucket_event C window b) s of
                  (rs, s1) \<Rightarrow> (Inr rs, s1)))"

section \<open>Sealing the decisions of the warning ledger\<close>

text \<open>
  \<open>seal_warning_decisions\<close>: at the end of an evaluation a fresh detection either carries the
  final decision instant or is withdrawn. An active event without a print and without an
  aggregate end is the \<open>KeyError\<close> of the source.
\<close>

definition signal_end_ms :: "paper_event \<Rightarrow> int option" where
  "signal_end_ms e =
     (case pv_detection e of
        Some t \<Rightarrow> Some (tp_sip_ms t)
      | None \<Rightarrow> (case pv_evidence e of Some b \<Rightarrow> Some (be_signal_end b) | None \<Rightarrow> None))"

definition seal_expired :: "int \<Rightarrow> int \<Rightarrow> paper_event \<Rightarrow> bool" where
  "seal_expired decision signal_end e \<longleftrightarrow>
     (let now_ms = decision div 1000000
      in if pv_detection e \<noteq> None then now_ms > signal_end + 1000
         else source_age_reason signal_end now_ms \<noteq> None
              \<or> \<not> aggregate_timely (pv_received_ns e) (pv_published_ns e) decision
              \<or> (case pv_evidence e of None \<Rightarrow> False
                 | Some b \<Rightarrow> be_reference_start b < now_ms - pv_window e * 1000))"

definition sealed_event :: "int \<Rightarrow> paper_event \<Rightarrow> paper_event" where
  "sealed_event decision e =
     e\<lparr>pv_decision_ns := Some decision,
       pv_evidence := map_option (\<lambda>b. b\<lparr>be_decision_ns := decision\<rparr>) (pv_evidence e)\<rparr>"

definition seal_one ::
  "int \<Rightarrow> tape_record \<Rightarrow> paper_engine \<Rightarrow> tape_record list result \<times> paper_engine" where
  "seal_one decision r s =
     (if mt_type r \<noteq> DETECTED \<or> map_of WARNING_STRATEGIES (mt_strategy r) = None then (Inr [r], s)
      else (case map_of (en_active s) (mt_logical_id r) of
        None \<Rightarrow> (Inl KeyError, s)
      | Some e \<Rightarrow>
          (case signal_end_ms e of
             None \<Rightarrow> (Inl KeyError, s)
           | Some t \<Rightarrow>
               if seal_expired decision t e
               then (Inr [], s\<lparr>en_active := AList.delete (pv_id e) (en_active s)\<rparr>)
               else (Inr [r\<lparr>mt_event := Some (sealed_event decision e)\<rparr>],
                     put_event (sealed_event decision e) s))))"

fun seal_warning_decisions ::
  "tape_record list \<Rightarrow> int \<Rightarrow> paper_engine \<Rightarrow> tape_record list result \<times> paper_engine" where
  "seal_warning_decisions [] decision s = (Inr [], s)"
| "seal_warning_decisions (r # rs) decision s =
     (case seal_one decision r s of
        (Inl x, s1) \<Rightarrow> (Inl x, s1)
      | (Inr ks, s1) \<Rightarrow>
          (case seal_warning_decisions rs decision s1 of
             (Inl x, s2) \<Rightarrow> (Inl x, s2)
           | (Inr ks', s2) \<Rightarrow> (Inr (ks @ ks'), s2)))"

section \<open>Boundaries after a restart\<close>

text \<open>
  What \<open>seed_reentry_boundaries\<close> reads of a stored record: its kind, the exit time and the
  terminal boundary of the payload (0 when absent) and the time of observation.
\<close>

record stored_row =
  sr_symbol :: string
  sr_strategy :: string
  sr_type :: record_type
  sr_exit_ms :: int
  sr_terminal_ms :: int
  sr_observed_ms :: int

definition row_boundary :: "stored_row \<Rightarrow> int" where
  "row_boundary r =
     (if sr_exit_ms r \<noteq> 0 then sr_exit_ms r
      else if sr_terminal_ms r \<noteq> 0 then sr_terminal_ms r else sr_observed_ms r)"

definition seeds :: "engine_config \<Rightarrow> stored_row \<Rightarrow> bool" where
  "seeds C r \<longleftrightarrow>
     symbol_is_eligible (sr_symbol r) \<and> map_of (ec_windows C) (sr_strategy r) \<noteq> None
     \<and> sr_type r \<in> {FINAL, NO_FILL, UNANSWERABLE}"

fun seed_reentry_boundaries :: "engine_config \<Rightarrow> stored_row list \<Rightarrow> paper_engine \<Rightarrow> paper_engine" where
  "seed_reentry_boundaries C [] s = s"
| "seed_reentry_boundaries C (r # rs) s =
     seed_reentry_boundaries C rs
       (if seeds C r then raise_boundary (sr_strategy r, sr_symbol r) (row_boundary r) s else s)"

end
