(* ===== verification/PaperEngineInv.thy ===== *)
theory PaperEngineInv
  imports PaperEngine
begin

text \<open>
  The moves of the paper engine and their invariant. Every operation of \<open>PaperEngine\<close> is a sequence
  of six moves on the active events (follow, exit, finish, open, withdraw, tape); the invariant is
  proved for the moves and reaches the operations in \<open>PaperEngineSpec\<close>.
\<close>

section \<open>Names of events\<close>

text \<open>The strategies' codes hold no colon, as the codes of \<open>momentum_paper/models.py\<close>.\<close>

definition names_plain :: "engine_config \<Rightarrow> bool" where
  "names_plain C \<longleftrightarrow> (\<forall>p \<in> set (ec_windows C). CHR '':'' \<notin> set (fst p))"

text \<open>
  The identity of an event names its strategy, its symbol and an instant of its detection: the
  print's time, or the decision time behind the lineage of a bucket.
\<close>

definition event_name :: "string \<Rightarrow> string \<Rightarrow> int \<Rightarrow> string" where
  "event_name strategy y n = strategy @ '':'' @ y @ '':'' @ show_int n"

definition bucket_name :: "string \<Rightarrow> string \<Rightarrow> string \<Rightarrow> int \<Rightarrow> string" where
  "bucket_name strategy y lineage n = strategy @ '':'' @ y @ '':'' @ lineage @ '':'' @ show_int n"

definition lineages :: "string set" where
  "lineages = {''observed_raw_bucket_reference'', ''observed_aggregate''}"

lemma event_name_inj:
  assumes "event_name a y m = event_name b z n" "CHR '':'' \<notin> set a" "CHR '':'' \<notin> set b"
  shows "a = b \<and> y = z \<and> m = n"
proof -
  from split_first[of a "CHR '':''" "y @ '':'' @ show_int m" b "z @ '':'' @ show_int n"] assms
  have "a = b" "y @ CHR '':'' # show_int m = z @ CHR '':'' # show_int n"
    by (simp_all add: event_name_def)
  with split_last[OF this(2) show_int_plain show_int_plain] show_int_inj show ?thesis by blast
qed

lemma bucket_name_split:
  assumes "bucket_name a y l m = bucket_name b z k n" "CHR '':'' \<notin> set a" "CHR '':'' \<notin> set b"
    and "l \<in> lineages" "k \<in> lineages"
  shows "a = b \<and> y = z \<and> m = n"
proof -
  from split_first[of a "CHR '':''" "y @ '':'' @ l @ '':'' @ show_int m" b
      "z @ '':'' @ k @ '':'' @ show_int n"] assms
  have ab: "a = b"
    and r: "(y @ CHR '':'' # l) @ CHR '':'' # show_int m = (z @ CHR '':'' # k) @ CHR '':'' # show_int n"
    by (simp_all add: bucket_name_def)
  note e = split_last[OF r show_int_plain show_int_plain]
  have l: "CHR '':'' \<notin> set l" "CHR '':'' \<notin> set k" using assms(4,5) by (auto simp: lineages_def)
  have "y = z" using split_last[OF conjunct1[OF e] l] by simp
  with ab show_int_inj[OF conjunct2[OF e]] show ?thesis by simp
qed

lemma names_apart:
  assumes "event_name a y m = bucket_name b z l n" "CHR '':'' \<notin> set a" "CHR '':'' \<notin> set b"
    and "l \<in> lineages"
  shows "5 < length y"
proof -
  from split_first[of a "CHR '':''" "y @ '':'' @ show_int m" b "z @ '':'' @ l @ '':'' @ show_int n"]
    assms
  have r: "y @ CHR '':'' # show_int m = (z @ CHR '':'' # l) @ CHR '':'' # show_int n"
    by (simp add: event_name_def bucket_name_def)
  from split_last[OF r show_int_plain show_int_plain] have "y = z @ CHR '':'' # l" by simp
  then show ?thesis using assms(4) by (auto simp: lineages_def)
qed

section \<open>A well-formed event\<close>

definition named :: "paper_event \<Rightarrow> bool" where
  "named e \<longleftrightarrow>
     (\<exists>n. pv_id e = event_name (pv_strategy e) (pv_symbol e) n \<and> n \<le> fill_after_ms e)
     \<or> (\<exists>l n. l \<in> lineages \<and> pv_id e = bucket_name (pv_strategy e) (pv_symbol e) l n
              \<and> n div 1000000 \<le> fill_after_ms e)"

text \<open>
  An exit print: eligible, of the symbol, after the fill; a stop at 85 per cent of the fill or
  below, a target at 105 per cent or above, both within the path window and seen by the
  excursions; a time exit after the window.
\<close>

definition target_print :: "trade_print \<Rightarrow> trade_print \<Rightarrow> paper_event \<Rightarrow> bool" where
  "target_print f t e \<longleftrightarrow>
     tp_eligible t \<and> tp_symbol t = pv_symbol e \<and> tp_sip_ms f < tp_sip_ms t
     \<and> tp_sip_ms t \<le> tp_sip_ms f + PATH_WINDOW_MS \<and> tp_price f * TARGET_MULTIPLIER \<le> tp_price t
     \<and> move_pct f t \<le> pv_mfe e"

definition stop_print :: "trade_print \<Rightarrow> trade_print \<Rightarrow> paper_event \<Rightarrow> bool" where
  "stop_print f t e \<longleftrightarrow>
     tp_eligible t \<and> tp_symbol t = pv_symbol e \<and> tp_sip_ms f < tp_sip_ms t
     \<and> tp_sip_ms t \<le> tp_sip_ms f + PATH_WINDOW_MS \<and> tp_price t \<le> tp_price f * STOP_MULTIPLIER
     \<and> pv_mae e \<le> move_pct f t"

definition time_print :: "trade_print \<Rightarrow> trade_print \<Rightarrow> paper_event \<Rightarrow> bool" where
  "time_print f t e \<longleftrightarrow>
     tp_eligible t \<and> tp_symbol t = pv_symbol e \<and> tp_sip_ms f + PATH_WINDOW_MS < tp_sip_ms t"

definition exit_ok :: "trade_print \<Rightarrow> trade_print \<Rightarrow> paper_event \<Rightarrow> bool" where
  "exit_ok f x e \<longleftrightarrow>
     pv_exit_reason e = ''STOP'' \<and> stop_print f x e
     \<or> pv_exit_reason e = ''TARGET'' \<and> target_print f x e
     \<or> pv_exit_reason e = ''TIME'' \<and> time_print f x e"

definition fill_ok :: "trade_print \<Rightarrow> paper_event \<Rightarrow> bool" where
  "fill_ok f e \<longleftrightarrow>
     tp_eligible f \<and> tp_symbol f = pv_symbol e \<and> 0 < tp_price f \<and> fill_after_ms e < tp_sip_ms f
     \<and> tp_sip_ms f \<le> detection_ms e + FILL_WINDOW_MS
     \<and> pv_quantity e = Some (whole_shares PAPER_NOTIONAL (tp_price f))"

definition event_ok :: "engine_config \<Rightarrow> paper_event \<Rightarrow> bool" where
  "event_ok C e \<longleftrightarrow>
     named e \<and> symbol_is_eligible (pv_symbol e) \<and> map_of (ec_windows C) (pv_strategy e) \<noteq> None
     \<and> 0 < detection_ms e \<and> pv_mae e \<le> 0 \<and> 0 \<le> pv_mfe e
     \<and> (pv_detection e = None \<longrightarrow> (\<exists>b. pv_evidence e = Some b \<and> 0 < be_signal_end b))
     \<and> (case pv_fill e of
          None \<Rightarrow> pv_exit e = None \<and> pv_pending e = None
        | Some f \<Rightarrow>
            fill_ok f e
            \<and> (case pv_pending e of None \<Rightarrow> True | Some t \<Rightarrow> pv_exit e = None \<and> target_print f t e)
            \<and> (case pv_exit e of None \<Rightarrow> True | Some x \<Rightarrow> exit_ok f x e))"

lemmas event_parts =
  event_ok_def fill_ok_def exit_ok_def stop_print_def target_print_def time_print_def

lemma detection_fill_after: "detection_ms e \<le> fill_after_ms e"
  by (simp add: fill_after_ms_def)

lemma event_ok_exit_after:
  assumes "event_ok C e" "pv_exit e = Some x"
  shows "fill_after_ms e < tp_sip_ms x" "0 < tp_sip_ms x"
proof -
  from assms obtain f where f: "pv_fill e = Some f" "fill_ok f e" "exit_ok f x e" and d: "0 < detection_ms e"
    by (auto simp: event_ok_def split: option.splits)
  then have "tp_sip_ms f < tp_sip_ms x"
    by (auto simp: exit_ok_def stop_print_def target_print_def time_print_def PATH_WINDOW_MS_def)
  with f show "fill_after_ms e < tp_sip_ms x" by (simp add: fill_ok_def)
  with d detection_fill_after[of e] show "0 < tp_sip_ms x" by simp
qed

lemma event_ok_strategy_plain:
  "names_plain C \<Longrightarrow> event_ok C e \<Longrightarrow> CHR '':'' \<notin> set (pv_strategy e)"
  by (force simp: names_plain_def event_ok_def dest: map_of_SomeD)

lemma event_ok_symbol_short: "event_ok C e \<Longrightarrow> length (pv_symbol e) \<le> 5"
  by (simp add: event_ok_def symbol_is_eligible_def)

text \<open>Two well-formed events with one identity have one key, and their instants agree.\<close>

lemma same_id_same_key:
  assumes C: "names_plain C" and e: "event_ok C e" and f: "event_ok C f" and i: "pv_id e = pv_id f"
  shows "event_key e = event_key f"
proof -
  note pe = event_ok_strategy_plain[OF C e] and pf = event_ok_strategy_plain[OF C f]
  note se = event_ok_symbol_short[OF e] and sf = event_ok_symbol_short[OF f]
  have "named e" "named f" using e f by (auto simp: event_ok_def)
  then consider
      m n where "event_name (pv_strategy e) (pv_symbol e) m = event_name (pv_strategy f) (pv_symbol f) n"
    | m l n where "event_name (pv_strategy e) (pv_symbol e) m
                     = bucket_name (pv_strategy f) (pv_symbol f) l n" "l \<in> lineages"
    | m l n where "event_name (pv_strategy f) (pv_symbol f) m
                     = bucket_name (pv_strategy e) (pv_symbol e) l n" "l \<in> lineages"
    | l m k n where "bucket_name (pv_strategy e) (pv_symbol e) l m
                     = bucket_name (pv_strategy f) (pv_symbol f) k n" "l \<in> lineages" "k \<in> lineages"
    using i unfolding named_def by metis
  then show ?thesis
  proof cases
    case 1
    from event_name_inj[OF 1 pe pf] show ?thesis by (simp add: event_key_def)
  next
    case 2
    from names_apart[OF 2(1) pe pf 2(2)] se show ?thesis by simp
  next
    case 3
    from names_apart[OF 3(1) pf pe 3(2)] sf show ?thesis by simp
  next
    case 4
    from bucket_name_split[OF 4(1) pe pf 4(2,3)] show ?thesis by (simp add: event_key_def)
  qed
qed

text \<open>The instant in the identity of an event is no later than the start of its fills.\<close>

definition named_from :: "int \<Rightarrow> paper_event \<Rightarrow> bool" where
  "named_from t e \<longleftrightarrow>
     (\<exists>n. pv_id e = event_name (pv_strategy e) (pv_symbol e) n \<and> t \<le> n)
     \<or> (\<exists>l n. l \<in> lineages \<and> pv_id e = bucket_name (pv_strategy e) (pv_symbol e) l n
              \<and> t \<le> n div 1000000)"

lemma same_id_instant:
  assumes C: "names_plain C" and e: "event_ok C e" and f: "event_ok C f" and i: "pv_id e = pv_id f"
    and t: "named_from t e"
  shows "t \<le> fill_after_ms f"
proof -
  note pe = event_ok_strategy_plain[OF C e] and pf = event_ok_strategy_plain[OF C f]
  note se = event_ok_symbol_short[OF e] and sf = event_ok_symbol_short[OF f]
  have "named f" using f by (simp add: event_ok_def)
  then consider
      m n where "event_name (pv_strategy e) (pv_symbol e) m = event_name (pv_strategy f) (pv_symbol f) n"
        "t \<le> m" "n \<le> fill_after_ms f"
    | m l n where "event_name (pv_strategy e) (pv_symbol e) m
                     = bucket_name (pv_strategy f) (pv_symbol f) l n" "l \<in> lineages"
    | m l n where "event_name (pv_strategy f) (pv_symbol f) m
                     = bucket_name (pv_strategy e) (pv_symbol e) l n" "l \<in> lineages"
    | l m k n where "bucket_name (pv_strategy e) (pv_symbol e) l m
                     = bucket_name (pv_strategy f) (pv_symbol f) k n" "l \<in> lineages" "k \<in> lineages"
        "t \<le> m div 1000000" "n div 1000000 \<le> fill_after_ms f"
    using i t unfolding named_def named_from_def by metis
  then show ?thesis
  proof cases
    case 1
    from event_name_inj[OF 1(1) pe pf] 1(2,3) show ?thesis by simp
  next
    case 2
    from names_apart[OF 2(1) pe pf 2(2)] se show ?thesis by simp
  next
    case 3
    from names_apart[OF 3(1) pf pe 3(2)] sf show ?thesis by simp
  next
    case 4
    from bucket_name_split[OF 4(1) pe pf 4(2,3)] 4(4,5) show ?thesis by simp
  qed
qed

lemma emit_parts:
  "emit ty ms reason e = (r, e1) \<Longrightarrow>
   e1 = e\<lparr>pv_sequence := pv_sequence e + 1\<rparr> \<and> mt_type r = ty \<and> mt_event r = Some e1
   \<and> mt_strategy r = pv_strategy e \<and> mt_symbol r = pv_symbol e \<and> mt_logical_id r = pv_id e
   \<and> mt_observed_ms r = ms \<and> mt_reason r = reason"
  by (auto simp: emit_def Let_def)

lemma emit_ex: "\<exists>r. emit ty ms reason e = (r, e\<lparr>pv_sequence := pv_sequence e + 1\<rparr>)"
  by (simp add: emit_def Let_def)

text \<open>Nothing the invariant reads depends on the sequence number.\<close>

lemma sequence_irrelevant [simp]:
  "detection_ms (e\<lparr>pv_sequence := n\<rparr>) = detection_ms e"
  "fill_after_ms (e\<lparr>pv_sequence := n\<rparr>) = fill_after_ms e"
  "path_deadline_ms (e\<lparr>pv_sequence := n\<rparr>) = path_deadline_ms e"
  "event_key (e\<lparr>pv_sequence := n\<rparr>) = event_key e"
  "terminal_boundary_ms (e\<lparr>pv_sequence := n\<rparr>) ty now = terminal_boundary_ms e ty now"
  by (simp_all add: detection_ms_def fill_after_ms_def path_deadline_ms_def event_key_def
      terminal_boundary_ms_def split: option.split)

lemma event_ok_sequence [simp]: "event_ok C (e\<lparr>pv_sequence := n\<rparr>) = event_ok C e"
  unfolding event_parts named_def by (simp split: option.split)

section \<open>Moves\<close>

definition terminal_types :: "record_type set" where
  "terminal_types = {FINAL, NO_FILL, UNANSWERABLE}"

text \<open>The instant an event leaves behind: its exit, or the boundary of its kind of end.\<close>

definition end_of :: "paper_event \<Rightarrow> record_type \<Rightarrow> int" where
  "end_of e ty =
     (case pv_exit e of Some x \<Rightarrow> tp_sip_ms x | None \<Rightarrow> terminal_boundary_ms e ty 0)"

definition finished :: "paper_event \<times> record_type \<times> string \<Rightarrow> bool" where
  "finished c \<longleftrightarrow> fst (snd c) \<in> terminal_types \<and> (fst (snd c) = FINAL \<longrightarrow> pv_exit (fst c) \<noteq> None)"

text \<open>The flag says whether events may open; the loops over the active events only tend them.\<close>

inductive move :: "engine_config \<Rightarrow> bool \<Rightarrow> paper_engine \<Rightarrow> paper_engine \<Rightarrow> bool" for C g where
  follow: "map_of (en_active s) (pv_id e) = Some e0 \<Longrightarrow> event_key e = event_key e0
    \<Longrightarrow> pv_exit e = pv_exit e0 \<Longrightarrow> event_ok C e \<Longrightarrow> move C g s (put_event e s)"
| exit: "map_of (en_active s) (pv_id e) = Some e0 \<Longrightarrow> event_key e = event_key e0
    \<Longrightarrow> pv_exit e0 = None \<Longrightarrow> pv_exit e = Some x \<Longrightarrow> event_ok C e
    \<Longrightarrow> move C g s (put_event e (raise_boundary (event_key e) (tp_sip_ms x) s))"
| finish: "map_of (en_active s) (pv_id e) = Some e0 \<Longrightarrow> event_key e = event_key e0
    \<Longrightarrow> pv_exit e = pv_exit e0 \<Longrightarrow> event_ok C e \<Longrightarrow> finished (e, ty, reason)
    \<Longrightarrow> s1 = (if pv_exit e = None then raise_boundary (event_key e) (end_of e ty) s else s)
    \<Longrightarrow> move C g s (s1\<lparr>en_completed := en_completed s1 @ [(e, ty, reason)],
                     en_active := AList.delete (pv_id e) (en_active s1)\<rparr>)"
| opens: "g \<Longrightarrow> event_ok C e \<Longrightarrow> pv_exit e = None \<Longrightarrow> \<not> has_unresolved s (event_key e)
    \<Longrightarrow> named_from t e \<Longrightarrow> boundary s (event_key e) < t \<Longrightarrow> move C g s (put_event e s)"
| withdraw: "map_of (en_active s) i = Some e0 \<Longrightarrow> pv_exit e0 = None
    \<Longrightarrow> move C g s (s\<lparr>en_active := AList.delete i (en_active s)\<rparr>)"
| tape: "en_active t = en_active s \<Longrightarrow> en_boundary t = en_boundary s
    \<Longrightarrow> en_completed t = en_completed s \<Longrightarrow> move C g s t"

text \<open>The ends of a key: of its finished events and the exits of its active ones.\<close>

definition own_exit :: "paper_event \<Rightarrow> string \<times> string \<Rightarrow> int set" where
  "own_exit e k = {tp_sip_ms x | x. pv_exit e = Some x \<and> event_key e = k}"

definition exits_of :: "(string, paper_event) dict \<Rightarrow> string \<times> string \<Rightarrow> int set" where
  "exits_of d k = {t. \<exists>i e. map_of d i = Some e \<and> t \<in> own_exit e k}"

definition ended ::
  "(paper_event \<times> record_type \<times> string) list \<Rightarrow> string \<times> string \<Rightarrow> int set" where
  "ended cs k = {end_of (fst c) (fst (snd c)) | c. c \<in> set cs \<and> event_key (fst c) = k}"

definition ends :: "paper_engine \<Rightarrow> string \<times> string \<Rightarrow> int set" where
  "ends s k = ended (en_completed s) k \<union> exits_of (en_active s) k"

lemma exits_update: "exits_of (AList.update i e d) k = own_exit e k \<union> exits_of (AList.delete i d) k"
  by (auto simp: exits_of_def dict_simps split: if_splits)

lemma exits_delete:
  "map_of d i = Some e \<Longrightarrow> exits_of d k = own_exit e k \<union> exits_of (AList.delete i d) k"
  by (auto simp: exits_of_def dict_simps split: if_splits) (metis option.inject)

lemma exits_delete_None: "map_of d i = None \<Longrightarrow> exits_of (AList.delete i d) k = exits_of d k"
  by (auto simp: exits_of_def dict_simps) (metis option.distinct(1))

lemma ended_snoc:
  "ended (cs @ [(e, ty, r)]) k = (if event_key e = k then {end_of e ty} else {}) \<union> ended cs k"
  by (auto simp: ended_def)

text \<open>
  The invariant: identities are keys, events are well-formed, a strategy follows at most one
  unresolved event of a symbol, and the boundary of a key is the latest of its ends.
\<close>

definition one_open :: "paper_engine \<Rightarrow> bool" where
  "one_open s \<longleftrightarrow>
     (\<forall>i j e f. map_of (en_active s) i = Some e \<and> map_of (en_active s) j = Some f
        \<and> event_key e = event_key f \<and> pv_exit e = None \<and> pv_exit f = None \<longrightarrow> i = j)"

definition events_ok :: "engine_config \<Rightarrow> paper_engine \<Rightarrow> bool" where
  "events_ok C s \<longleftrightarrow>
     keys_distinct (en_active s)
     \<and> (\<forall>i e. map_of (en_active s) i = Some e \<longrightarrow> pv_id e = i \<and> event_ok C e)
     \<and> (\<forall>c \<in> set (en_completed s). event_ok C (fst c) \<and> finished c)"

definition boundary_ok :: "paper_engine \<Rightarrow> bool" where
  "boundary_ok s \<longleftrightarrow>
     (\<forall>k. boundary s k \<in> insert 0 (ends s k) \<and> (\<forall>t \<in> insert 0 (ends s k). t \<le> boundary s k))"

definition engine_inv :: "engine_config \<Rightarrow> paper_engine \<Rightarrow> bool" where
  "engine_inv C s \<longleftrightarrow> events_ok C s \<and> one_open s \<and> boundary_ok s"

lemma boundary_raise [simp]:
  "boundary (raise_boundary k t s) k' = (if k' = k then max t (boundary s k) else boundary s k')"
  by (simp add: boundary_def raise_boundary_def dict_simps)

lemma engine_parts [simp]:
  "en_active (raise_boundary k t s) = en_active s"
  "en_completed (raise_boundary k t s) = en_completed s"
  "en_completed (put_event e s) = en_completed s"
  "en_active (put_event e s) = AList.update (pv_id e) e (en_active s)"
  "boundary (put_event e s) k = boundary s k"
  "boundary (s\<lparr>en_active := a\<rparr>) k = boundary s k"
  "boundary (s\<lparr>en_completed := c\<rparr>) k = boundary s k"
  by (simp_all add: raise_boundary_def put_event_def boundary_def)

lemma has_unresolved_iff:
  "keys_distinct (en_active s) \<Longrightarrow>
   has_unresolved s k \<longleftrightarrow>
     (\<exists>i e. map_of (en_active s) i = Some e \<and> event_key e = k \<and> pv_exit e = None)"
  by (force simp: has_unresolved_def list_ex_iff)

lemma events_okD:
  "events_ok C s \<Longrightarrow> map_of (en_active s) i = Some e \<Longrightarrow> pv_id e = i \<and> event_ok C e"
  "events_ok C s \<Longrightarrow> keys_distinct (en_active s)"
  by (auto simp: events_ok_def)

lemma events_ok_update:
  "events_ok C s \<Longrightarrow> event_ok C e \<Longrightarrow> events_ok C (put_event e s)"
  by (auto simp: events_ok_def dict_simps)

lemma events_ok_raise [simp]: "events_ok C (raise_boundary k t s) = events_ok C s"
  by (simp add: events_ok_def)

lemma events_ok_delete:
  "events_ok C s \<Longrightarrow> events_ok C (s\<lparr>en_active := AList.delete i (en_active s)\<rparr>)"
  by (auto simp: events_ok_def dict_simps)

lemma one_open_update:
  assumes "one_open s" "map_of (en_active s) (pv_id e) = Some e0" "event_key e = event_key e0"
    and "pv_exit e = None \<Longrightarrow> pv_exit e0 = None"
  shows "one_open (put_event e s)"
  unfolding one_open_def
proof (intro allI impI, elim conjE)
  fix i j f g
  assume f: "map_of (en_active (put_event e s)) i = Some f"
    and g: "map_of (en_active (put_event e s)) j = Some g"
    and k: "event_key f = event_key g" and n: "pv_exit f = None" "pv_exit g = None"
  have "\<exists>f'. map_of (en_active s) i = Some f' \<and> event_key f' = event_key f \<and> pv_exit f' = None"
    "\<exists>g'. map_of (en_active s) j = Some g' \<and> event_key g' = event_key g \<and> pv_exit g' = None"
    using f g n assms(2-4) by (auto simp: dict_simps split: if_splits)
  with k assms(1) show "i = j" unfolding one_open_def by metis
qed

lemma one_open_delete:
  "one_open s \<Longrightarrow> one_open (s\<lparr>en_active := AList.delete i (en_active s)\<rparr>)"
  by (simp add: one_open_def dict_simps)

lemma one_open_raise [simp]: "one_open (raise_boundary k t s) = one_open s"
  by (simp add: one_open_def)

lemma boundary_okD:
  assumes "boundary_ok s"
  shows "t \<in> ends s k \<Longrightarrow> t \<le> boundary s k" "0 \<le> boundary s k"
    "boundary s k = 0 \<or> boundary s k \<in> ends s k"
  using assms unfolding boundary_ok_def by blast+

text \<open>An event that opens after the boundary has an identity no active event has.\<close>

lemma opens_fresh:
  assumes C: "names_plain C" and inv: "engine_inv C s" and e: "event_ok C e"
    and un: "\<not> has_unresolved s (event_key e)" and t: "named_from t e" "boundary s (event_key e) < t"
  shows "map_of (en_active s) (pv_id e) = None"
proof (rule ccontr)
  assume "map_of (en_active s) (pv_id e) \<noteq> None"
  then obtain f where f: "map_of (en_active s) (pv_id e) = Some f" by blast
  from inv have ok: "events_ok C s" and b: "boundary_ok s" by (auto simp: engine_inv_def)
  from events_okD(1)[OF ok f] have i: "pv_id e = pv_id f" and fok: "event_ok C f" by auto
  have key: "event_key f = event_key e" using same_id_same_key[OF C e fok i] by simp
  with un f has_unresolved_iff[OF events_okD(2)[OF ok]] obtain x where x: "pv_exit f = Some x"
    by fastforce
  then have "tp_sip_ms x \<in> ends s (event_key e)"
    using f key by (auto simp: ends_def exits_of_def own_exit_def)
  then have "tp_sip_ms x \<le> boundary s (event_key e)" by (rule boundary_okD(1)[OF b])
  moreover have "t \<le> fill_after_ms f" by (rule same_id_instant[OF C e fok i t(1)])
  moreover have "fill_after_ms f < tp_sip_ms x" by (rule event_ok_exit_after(1)[OF fok x])
  ultimately show False using t(2) by simp
qed

lemma boundary_okI:
  assumes "boundary_ok s" "\<And>k. ends t k = ends s k" "\<And>k. boundary t k = boundary s k"
  shows "boundary_ok t"
  using assms by (simp add: boundary_ok_def)

lemma boundary_ok_raise:
  assumes "boundary_ok s" "\<And>k'. ends t k' = (if k' = k then {u} else {}) \<union> ends s k'"
    and "\<And>k'. boundary t k' = (if k' = k then max u (boundary s k) else boundary s k')"
  shows "boundary_ok t"
  unfolding boundary_ok_def
proof (intro allI conjI ballI)
  fix k'
  note b = boundary_okD(1)[OF assms(1), of _ k'] boundary_okD(2,3)[OF assms(1), of k']
  show "boundary t k' \<in> insert 0 (ends t k')"
    using b(3) assms(2,3)[of k'] by (auto simp: max_def)
  show "v \<le> boundary t k'" if "v \<in> insert 0 (ends t k')" for v
    using b(1)[of v] b(2) that assms(2,3)[of k'] by (auto simp: max_def split: if_splits)
qed

lemma move_keeps_inv:
  assumes C: "names_plain C" and inv: "engine_inv C s" and m: "move C g s t"
  shows "engine_inv C t"
proof -
  from inv have ok: "events_ok C s" and one: "one_open s" and b: "boundary_ok s"
    by (auto simp: engine_inv_def)
  note ends_simps = ends_def exits_update own_exit_def
  from m show ?thesis
  proof cases
    case (follow e e0)
    have "boundary_ok t"
      by (rule boundary_okI[OF b])
        (use follow exits_delete[OF follow(2)] in \<open>auto simp: ends_simps\<close>)
    then show ?thesis
      using follow events_ok_update[OF ok] one_open_update[OF one follow(2,3)]
      by (simp add: engine_inv_def)
  next
    case (exit e e0 x)
    have "boundary_ok t"
      by (rule boundary_ok_raise[OF b, where k = "event_key e" and u = "tp_sip_ms x"])
        (use exit exits_delete[OF exit(2)] in \<open>auto simp: ends_simps\<close>)
    moreover have "one_open t"
      using exit one_open_update[of "raise_boundary (event_key e) (tp_sip_ms x) s" e e0] one by simp
    ultimately show ?thesis
      using exit events_ok_update[of C "raise_boundary (event_key e) (tp_sip_ms x) s"] ok
      by (simp add: engine_inv_def)
  next
    case (finish e e0 ty reason s1)
    have own: "own_exit e0 k = own_exit e k" for k using finish by (simp add: own_exit_def)
    have "boundary_ok t"
    proof (cases "pv_exit e")
      case None
      then show ?thesis
        by (intro boundary_ok_raise[OF b, where k = "event_key e" and u = "end_of e ty"])
          (use finish exits_delete[OF finish(2)] own in \<open>auto simp: ends_def ended_snoc own_exit_def\<close>)
    next
      case (Some x)
      then have "end_of e ty = tp_sip_ms x" by (simp add: end_of_def)
      with Some show ?thesis
        by (intro boundary_okI[OF b])
          (use finish exits_delete[OF finish(2)] own in \<open>auto simp: ends_def ended_snoc own_exit_def\<close>)
    qed
    moreover have "events_ok C t" "one_open t"
      using finish ok one by (auto simp: events_ok_def one_open_def dict_simps)
    ultimately show ?thesis by (simp add: engine_inv_def)
  next
    case (opens e t')
    have new: "map_of (en_active s) (pv_id e) = None"
      by (rule opens_fresh[OF C inv]) (use opens in auto)
    have "boundary_ok t"
      by (rule boundary_okI[OF b])
        (use opens exits_delete_None[OF new] in \<open>auto simp: ends_simps\<close>)
    moreover have "one_open t"
      using one opens has_unresolved_iff[OF events_okD(2)[OF ok], of "event_key e"]
      unfolding one_open_def by (auto simp: dict_simps)
    ultimately show ?thesis using opens events_ok_update[OF ok] by (simp add: engine_inv_def)
  next
    case (withdraw i e0)
    have "boundary_ok t"
      by (rule boundary_okI[OF b])
        (use withdraw exits_delete[OF withdraw(2)] in \<open>auto simp: ends_simps\<close>)
    then show ?thesis
      using withdraw events_ok_delete[OF ok] one_open_delete[OF one] by (simp add: engine_inv_def)
  next
    case tape
    then show ?thesis
      using inv by (simp add: engine_inv_def events_ok_def one_open_def boundary_ok_def ends_def
          boundary_def)
  qed
qed

lemma move_raises_boundary: "move C g s t \<Longrightarrow> boundary s k \<le> boundary t k"
proof (induction rule: move.induct)
  case (tape t s)
  then show ?case by (simp add: boundary_def)
qed auto

lemma moves_keep_inv:
  "(move C g)\<^sup>*\<^sup>* s t \<Longrightarrow> names_plain C \<Longrightarrow> engine_inv C s \<Longrightarrow> engine_inv C t"
  by (induction rule: rtranclp_induct) (auto intro: move_keeps_inv)

lemma moves_raise_boundary: "(move C g)\<^sup>*\<^sup>* s t \<Longrightarrow> boundary s k \<le> boundary t k"
  by (induction rule: rtranclp_induct) (auto intro: order_trans move_raises_boundary)

lemma move_mono: "move C False s t \<Longrightarrow> move C g s t"
  by (induction rule: move.induct) (blast intro: move.intros)+

lemma moves_mono: "(move C False)\<^sup>*\<^sup>* s t \<Longrightarrow> (move C g)\<^sup>*\<^sup>* s t"
  by (induction rule: rtranclp_induct) (auto intro: rtranclp.rtrancl_into_rtrancl move_mono)

text \<open>Tending events adds none and keeps their keys.\<close>

definition tends :: "paper_engine \<Rightarrow> paper_engine \<Rightarrow> bool" where
  "tends s t \<longleftrightarrow>
     (\<forall>i e. map_of (en_active t) i = Some e \<longrightarrow>
        (\<exists>e0. map_of (en_active s) i = Some e0 \<and> event_key e = event_key e0))"

lemma moves_tend: "(move C False)\<^sup>*\<^sup>* s t \<Longrightarrow> tends s t"
proof (induction rule: rtranclp_induct)
  case base
  show ?case by (simp add: tends_def)
next
  case (step t u)
  from step(2) have "tends t u"
    by (induction rule: move.induct) (auto simp: tends_def dict_simps)
  with step(3) show ?case unfolding tends_def by metis
qed

end
