(* ===== verification/PaperEngineSpec.thy ===== *)
theory PaperEngineSpec
  imports PaperEngineInv
begin

text \<open>
  Correctness of the paper engine: every operation is a sequence of moves and its records tell
  what it did (\<open>does\<close>); the runs of the engine; one open event per strategy and symbol, sound
  outcomes, no re-entry on the move that was just traded, and boundaries that survive a restart.
\<close>

section \<open>What a call and its records promise\<close>

definition rec_key :: "tape_record \<Rightarrow> string \<times> string" where
  "rec_key r = (mt_strategy r, mt_symbol r)"

text \<open>The reference of an event lies after this instant.\<close>

definition reference_ms :: "paper_event \<Rightarrow> int option" where
  "reference_ms e =
     (case pv_reference e of
        Some p \<Rightarrow> Some (tp_sip_ms p)
      | None \<Rightarrow> map_option be_reference_start (pv_evidence e))"

definition record_ok :: "paper_engine \<Rightarrow> paper_engine \<Rightarrow> tape_record \<Rightarrow> bool" where
  "record_ok s t r \<longleftrightarrow>
     (mt_type r = EXITED \<longrightarrow> mt_observed_ms r \<le> boundary t (rec_key r))
     \<and> (mt_type r \<in> terminal_types \<longrightarrow>
          (\<exists>e. mt_event r = Some e \<and> event_key e = rec_key r
               \<and> terminal_boundary_ms e (mt_type r) (mt_observed_ms r)
                   = terminal_boundary_ms e (mt_type r) 0))
     \<and> (mt_type r = DETECTED \<longrightarrow>
          (\<exists>e u. mt_event r = Some e \<and> event_key e = rec_key r \<and> reference_ms e = Some u
                 \<and> boundary s (rec_key r) < u))"

definition completed_of :: "tape_record \<Rightarrow> paper_event \<times> record_type \<times> string" where
  "completed_of r = (the (mt_event r), mt_type r, mt_reason r)"

definition terminal_records :: "tape_record list \<Rightarrow> tape_record list" where
  "terminal_records rs = filter (\<lambda>r. mt_type r \<in> terminal_types) rs"

definition does ::
  "engine_config \<Rightarrow> bool \<Rightarrow> paper_engine \<Rightarrow> tape_record list \<Rightarrow> paper_engine \<Rightarrow> bool" where
  "does C g s rs t \<longleftrightarrow>
     (move C g)\<^sup>*\<^sup>* s t \<and> (\<forall>r \<in> set rs. record_ok s t r)
     \<and> en_completed t = en_completed s @ map completed_of (terminal_records rs)"

lemma record_ok_widen:
  assumes "(move C g)\<^sup>*\<^sup>* s s'" "(move C g)\<^sup>*\<^sup>* t' t" "record_ok s' t' r"
  shows "record_ok s t r"
  using assms(3) moves_raise_boundary[OF assms(1), of "rec_key r"]
    moves_raise_boundary[OF assms(2), of "rec_key r"]
  unfolding record_ok_def by fastforce

lemma does_nil: "does C g s [] s"
  by (simp add: does_def terminal_records_def)

lemma does_append: "does C g s rs t \<Longrightarrow> does C g t rs' u \<Longrightarrow> does C g s (rs @ rs') u"
  unfolding does_def terminal_records_def
  by (auto intro: record_ok_widen[where t' = t] record_ok_widen[where s' = t])

lemma does_mono: "does C False s rs t \<Longrightarrow> does C g s rs t"
  by (auto simp: does_def intro: moves_mono)

lemma does_silent:
  "move C g s t \<Longrightarrow> en_completed t = en_completed s \<Longrightarrow> does C g s [] t"
  by (simp add: does_def terminal_records_def)

lemma does_one:
  "move C g s t \<Longrightarrow> record_ok s t r \<Longrightarrow> mt_type r \<notin> terminal_types
   \<Longrightarrow> en_completed t = en_completed s \<Longrightarrow> does C g s [r] t"
  by (simp add: does_def terminal_records_def)

lemma does_tends: "does C False s rs t \<Longrightarrow> tends s t"
  by (auto simp: does_def intro: moves_tend)

abbreviation sound :: "engine_config \<Rightarrow> paper_engine \<Rightarrow> bool" where
  "sound C s \<equiv> names_plain C \<and> engine_inv C s"

lemma does_sound: "sound C s \<Longrightarrow> does C g s rs t \<Longrightarrow> sound C t"
  by (auto simp: does_def intro: moves_keep_inv)

interpretation tape: recorder "sound C" "does C g"
  by unfold_locales (use does_nil does_append does_sound in blast)+

abbreviation (input) done_by ::
  "engine_config \<Rightarrow> bool \<Rightarrow> paper_engine \<Rightarrow> tape_record list \<times> paper_engine \<Rightarrow> bool" where
  "done_by C g s p \<equiv> does C g s (fst p) (snd p)"

lemma soundD:
  assumes "sound C s" "map_of (en_active s) i = Some e"
  shows "pv_id e = i" "event_ok C e"
  using assms events_okD(1)[of C s i e] by (auto simp: engine_inv_def)

section \<open>Operations on one event\<close>

lemma set_exit_does:
  assumes e0: "map_of (en_active s) (pv_id e) = Some e0" "event_key e = event_key e0" "pv_exit e0 = None"
    and ok: "event_ok C (e\<lparr>pv_exit := Some trade, pv_exit_reason := reason, pv_pending := None\<rparr>)"
  shows "done_by C g s (set_exit e trade reason s)"
proof (cases "pv_exit e = None")
  case True
  define e1 where "e1 = e\<lparr>pv_exit := Some trade, pv_exit_reason := reason, pv_pending := None,
                          pv_sequence := pv_sequence e + 1\<rparr>"
  obtain r where r: "emit EXITED (tp_sip_ms trade) reason
      (e\<lparr>pv_exit := Some trade, pv_exit_reason := reason, pv_pending := None\<rparr>) = (r, e1)"
    using emit_ex[of EXITED "tp_sip_ms trade" reason
        "e\<lparr>pv_exit := Some trade, pv_exit_reason := reason, pv_pending := None\<rparr>"]
    by (auto simp: e1_def)
  have key: "event_key e1 = event_key e" by (simp add: e1_def event_key_def)
  have "event_ok C e1"
    using ok by (simp add: e1_def)
  then have "move C g s (put_event e1 (raise_boundary (event_key e1) (tp_sip_ms trade) s))"
    by (intro move.exit[where ?e0.0 = e0]) (use e0 key in \<open>simp_all add: e1_def\<close>)
  moreover have "record_ok s (put_event e1 (raise_boundary (event_key e1) (tp_sip_ms trade) s)) r"
    using emit_parts[OF r] by (simp add: record_ok_def terminal_types_def rec_key_def event_key_def e1_def)
  moreover have "mt_type r = EXITED" using emit_parts[OF r] by simp
  ultimately show ?thesis
    using True r key by (simp add: set_exit_def does_one terminal_types_def)
qed (simp add: set_exit_def does_nil)

lemma finish_event_does:
  assumes e0: "map_of (en_active s) (pv_id e) = Some e0" "event_key e = event_key e0"
    and x: "pv_exit e = pv_exit e0" and ok: "event_ok C e" and fin: "finished (e, ty, reason)"
  shows "done_by C g s (finish_event e ty now reason s)"
proof -
  define e1 where "e1 = e\<lparr>pv_sequence := pv_sequence e + 1\<rparr>"
  obtain r where r: "emit ty now reason e = (r, e1)"
    using emit_ex[of ty now reason e] by (auto simp: e1_def)
  have key: "event_key e1 = event_key e" and id: "pv_id e1 = pv_id e" and x1: "pv_exit e1 = pv_exit e"
    by (simp_all add: e1_def)
  have tb: "terminal_boundary_ms e ty n = terminal_boundary_ms e ty 0" for n
    using fin by (auto simp: terminal_boundary_ms_def finished_def terminal_types_def split: option.split)
  have ends: "pv_exit e = None \<Longrightarrow> end_of e1 ty = terminal_boundary_ms e ty now"
    using tb[of now] by (simp add: end_of_def e1_def)
  define s1 where "s1 = (if pv_exit e1 = None then raise_boundary (event_key e1) (end_of e1 ty) s else s)"
  define t where "t = s1\<lparr>en_completed := en_completed s1 @ [(e1, ty, reason)],
                         en_active := AList.delete (pv_id e1) (en_active s1)\<rparr>"
  have "move C g s t"
    unfolding t_def
    by (rule move.finish[where ?e0.0 = e0])
      (use e0 key id x x1 fin ok s1_def in \<open>simp_all add: finished_def, simp add: e1_def\<close>)
  moreover have "record_ok s t r"
    using emit_parts[OF r] fin tb[of now] key
    by (auto simp: record_ok_def terminal_types_def finished_def rec_key_def event_key_def e1_def)
  moreover have "finish_event e ty now reason s = ([r], t)"
    using r ends key id x1
    by (simp add: finish_event_def t_def s1_def Let_def raise_boundary_def split: if_splits)
  ultimately show ?thesis
    using fin emit_parts[OF r]
    by (auto simp: does_def terminal_records_def completed_of_def finished_def t_def s1_def e1_def)
qed

lemma finalize_event_does:
  assumes "map_of (en_active s) (pv_id e) = Some e0" "event_key e = event_key e0"
    and "pv_exit e = pv_exit e0" "event_ok C e"
  shows "done_by C g s (finalize_event e now s)"
  unfolding finalize_event_def
  using assms by (auto intro!: finish_event_does simp: finished_def terminal_types_def)

lemma resolve_pending_does:
  assumes "map_of (en_active s) i = Some e" "pv_id e = i" "event_ok C e"
  shows "done_by C g s (resolve_pending e now s)"
proof (cases "pv_pending e = None \<or> pv_exit e \<noteq> None
    \<or> now div 1000 \<le> tp_sip_ms (the (pv_pending e)) div 1000")
  case True
  then show ?thesis by (auto simp: resolve_pending_def does_nil split: option.split)
next
  case False
  then obtain t where t: "pv_pending e = Some t" "pv_exit e = None" by auto
  have "event_ok C (e\<lparr>pv_exit := Some t, pv_exit_reason := ''TARGET'', pv_pending := None\<rparr>)"
    using assms(3) t
    by (auto simp: event_parts named_def detection_ms_def fill_after_ms_def split: option.splits)
  then have "done_by C g s (set_exit e t ''TARGET'' s)"
    by (intro set_exit_does) (use assms t in auto)
  with False t show ?thesis by (simp add: resolve_pending_def)
qed

section \<open>Following one event\<close>

lemmas event_fields = event_parts named_def detection_ms_def fill_after_ms_def

text \<open>The path, the counters and the gap mark of an event are no part of its soundness.\<close>

lemma event_ok_bookkeeping [simp]:
  "event_ok C (append_path trade e) = event_ok C e"
  "event_ok C (e\<lparr>pv_excluded := n\<rparr>) = event_ok C e"
  "event_ok C (e\<lparr>pv_feed_gap := b\<rparr>) = event_ok C e"
  unfolding event_fields append_path_def Let_def by (simp_all split: option.split)

lemma append_path_parts [simp]:
  "pv_id (append_path trade e) = pv_id e" "event_key (append_path trade e) = event_key e"
  "pv_exit (append_path trade e) = pv_exit e" "pv_fill (append_path trade e) = pv_fill e"
  "pv_symbol (append_path trade e) = pv_symbol e" "pv_pending (append_path trade e) = pv_pending e"
  "fill_after_ms (append_path trade e) = fill_after_ms e"
  "detection_ms (append_path trade e) = detection_ms e"
  by (simp_all add: append_path_def Let_def event_key_def fill_after_ms_def detection_ms_def
      split: option.split)

lemma put_event_does:
  assumes "map_of (en_active s) (pv_id e) = Some e0" "event_key e = event_key e0"
    and "pv_exit e = pv_exit e0" "event_ok C e"
  shows "does C g s [] (put_event e s)"
  by (rule does_silent) (use assms in \<open>auto intro: move.follow\<close>)

lemma emit_follow_does:
  assumes "map_of (en_active s) (pv_id e) = Some e0" "event_key e = event_key e0"
    and "pv_exit e = pv_exit e0" "event_ok C e" and ty: "ty \<in> {FILLED, FEED_GAP}"
    and r: "emit ty ms reason e = (r, e1)"
  shows "does C g s [r] (put_event e1 s)"
proof (rule does_one)
  note e1 = emit_parts[OF r]
  show "move C g s (put_event e1 s)"
    by (rule move.follow[where ?e0.0 = e0]) (use assms(1-4) e1 in auto)
  show "record_ok s (put_event e1 s) r" "mt_type r \<notin> terminal_types"
    using e1 ty by (auto simp: record_ok_def terminal_types_def)
qed simp

text \<open>What the current print must be for an event it may change.\<close>

definition live_print :: "trade_print \<Rightarrow> paper_event \<Rightarrow> bool" where
  "live_print trade e \<longleftrightarrow> 0 < tp_price trade \<and> tp_symbol trade = pv_symbol e"

lemma fill_event_ok:
  assumes "event_ok C e" "pv_fill e = None" "live_print trade e" "tp_eligible trade"
    and "fill_after_ms e < tp_sip_ms trade" "tp_sip_ms trade \<le> path_deadline_ms e"
  shows "event_ok C (fill_event trade e)"
  using assms unfolding event_fields live_print_def
  by (auto simp: fill_event_def path_deadline_ms_def detection_ms_def split: option.splits)

lemma track_move_ok:
  assumes "event_ok C e" "pv_fill e = Some f"
  shows "event_ok C (track_move f trade e)"
  using assms unfolding event_fields
  by (auto simp: track_move_def split: option.splits)

lemma track_move_parts [simp]:
  "pv_id (track_move f t e) = pv_id e" "event_key (track_move f t e) = event_key e"
  "pv_exit (track_move f t e) = pv_exit e" "pv_fill (track_move f t e) = pv_fill e"
  "pv_symbol (track_move f t e) = pv_symbol e" "pv_pending (track_move f t e) = pv_pending e"
  "move_pct f t \<le> pv_mfe (track_move f t e)" "pv_mae (track_move f t e) \<le> move_pct f t"
  by (simp_all add: track_move_def event_key_def)

lemma exit_by_print:
  assumes "event_ok C e" "pv_fill e = Some f"
    and "reason = ''STOP'' \<and> stop_print f x e \<or> reason = ''TARGET'' \<and> target_print f x e
         \<or> reason = ''TIME'' \<and> time_print f x e"
  shows "event_ok C (e\<lparr>pv_exit := Some x, pv_exit_reason := reason, pv_pending := None\<rparr>)"
  using assms unfolding event_fields by (auto split: option.splits)

lemma decide_exit_does:
  assumes e0: "map_of (en_active s) (pv_id e) = Some e0" "event_key e = event_key e0" "pv_exit e0 = None"
    and e: "event_ok C e" "pv_exit e = None" "pv_fill e = Some f" and live: "live_print trade e"
    and el: "tp_eligible trade" and after: "tp_sip_ms f < tp_sip_ms trade"
    and within: "tp_sip_ms trade \<le> tp_sip_ms f + PATH_WINDOW_MS"
    and seen: "move_pct f trade \<le> pv_mfe e" "pv_mae e \<le> move_pct f trade"
  shows "done_by C g s (decide_exit f trade e s)"
proof (cases "tp_price trade \<le> tp_price f * STOP_MULTIPLIER")
  case True
  have "event_ok C (e\<lparr>pv_exit := Some trade, pv_exit_reason := ''STOP'', pv_pending := None\<rparr>)"
    by (rule exit_by_print[OF e(1,3)])
      (use True live el after within seen in \<open>simp add: stop_print_def live_print_def\<close>)
  then have "done_by C g s (set_exit (e\<lparr>pv_pending := None\<rparr>) trade ''STOP'' s)"
    by (intro set_exit_does) (use e0 in \<open>simp_all add: event_key_def\<close>)
  with True show ?thesis by (simp add: decide_exit_def)
next
  case False
  define e1 where "e1 = (if tp_price trade \<ge> tp_price f * TARGET_MULTIPLIER \<and> pv_pending e = None
                         then e\<lparr>pv_pending := Some trade\<rparr> else e)"
  have e1: "event_ok C e1" "pv_exit e1 = None" "pv_fill e1 = Some f" "pv_id e1 = pv_id e"
    "event_key e1 = event_key e"
    using e live el after within seen
    by (auto simp: e1_def event_key_def event_fields live_print_def split: option.splits)
  have put: "does C g s [] (put_event e1 s)"
    by (rule put_event_does) (use e0 e1 in auto)
  show ?thesis
  proof (cases "pv_pending e1")
    case (Some t)
    then have "target_print f t e1" using e1 by (auto simp: event_ok_def)
    then have "event_ok C (e1\<lparr>pv_exit := Some t, pv_exit_reason := ''TARGET'', pv_pending := None\<rparr>)"
      by (intro exit_by_print[OF e1(1,3)]) simp
    then have "done_by C g s (set_exit e1 t ''TARGET'' s)"
      by (intro set_exit_does) (use e0 e1 in auto)
    with False Some put show ?thesis by (simp add: decide_exit_def flip: e1_def)
  qed (use False put in \<open>simp add: decide_exit_def flip: e1_def\<close>)
qed

lemma within_path_does:
  assumes e0: "map_of (en_active s) (pv_id e) = Some e" and ok: "event_ok C e"
    and live: "live_print trade e" and within: "tp_sip_ms trade \<le> path_deadline_ms e"
  shows "done_by C g s (within_path trade e s)"
proof -
  define e1 where "e1 = append_path trade e"
  have e1: "event_ok C e1" "pv_id e1 = pv_id e" "event_key e1 = event_key e" "pv_exit e1 = pv_exit e"
    "pv_fill e1 = pv_fill e" "live_print trade e1" "fill_after_ms e1 = fill_after_ms e"
    using ok live by (simp_all add: e1_def live_print_def)
  have put: "does C g s [] (put_event e1 s)"
    by (rule put_event_does[where ?e0.0 = e]) (use e0 e1 in auto)
  show ?thesis
  proof (cases "tp_eligible trade")
    case False
    have "does C g s [] (put_event (e1\<lparr>pv_excluded := pv_excluded e1 + 1\<rparr>) s)"
      by (rule put_event_does[where ?e0.0 = e]) (use e0 e1 in \<open>auto simp: event_key_def\<close>)
    with False show ?thesis by (simp add: within_path_def Let_def flip: e1_def)
  next
    case el: True
    show ?thesis
    proof (cases "pv_fill e1")
      case None
      obtain r e2 where r: "emit FILLED (tp_sip_ms trade) '''' (fill_event trade e1) = (r, e2)"
        by fastforce
      have "does C g s [r] (put_event e2 s)" if "fill_after_ms e1 < tp_sip_ms trade"
      proof (rule emit_follow_does[OF _ _ _ _ _ r])
        show "event_ok C (fill_event trade e1)"
          by (rule fill_event_ok)
            (use None e1 el that within in \<open>auto simp: path_deadline_ms_def e1_def\<close>)
        show "event_key (fill_event trade e1) = event_key e" "pv_exit (fill_event trade e1) = pv_exit e"
          "map_of (en_active s) (pv_id (fill_event trade e1)) = Some e"
          using e0 e1 by (simp_all add: fill_event_def event_key_def)
      qed simp
      with None el put r show ?thesis by (simp add: within_path_def Let_def flip: e1_def)
    next
      case (Some f)
      define e2 where "e2 = track_move f trade e1"
      have e2: "event_ok C e2" using track_move_ok[OF e1(1) Some] by (simp add: e2_def)
      have put2: "does C g s [] (put_event e2 s)"
        by (rule put_event_does[where ?e0.0 = e]) (use e0 e1 e2 in \<open>auto simp: e2_def\<close>)
      have "done_by C g s (decide_exit f trade e2 s)"
        if "tp_sip_ms f < tp_sip_ms trade" "pv_exit e2 = None"
        by (rule decide_exit_does[where ?e0.0 = e])
          (use e0 e1 e2 el Some that within in
            \<open>auto simp: e2_def live_print_def path_deadline_ms_def split: option.splits\<close>)
      with Some el put put2 show ?thesis by (simp add: within_path_def Let_def flip: e1_def e2_def)
    qed
  qed
qed

lemma past_deadline_does:
  assumes S: "sound C s" and e0: "map_of (en_active s) (pv_id e) = Some e"
    and live: "live_print trade e" and past: "path_deadline_ms e < tp_sip_ms trade"
  shows "done_by C g s (past_deadline trade e s)"
proof -
  note ok = soundD(2)[OF S e0]
  have fin: "done_by C g s (finalize_event e (tp_sip_ms trade) s)"
    by (rule finalize_event_does[where ?e0.0 = e]) (use e0 ok in auto)
  consider "pv_fill e = None" | "pv_exit e \<noteq> None" "pv_fill e \<noteq> None"
    | f where "pv_fill e = Some f" "pv_exit e = None" by fastforce
  then show ?thesis
  proof cases
    case 1
    then have "pv_exit e = None" using ok by (simp add: event_ok_def)
    then have "done_by C g s (finish_event e NO_FILL (tp_sip_ms trade) ''no_eligible_print_within_10s'' s)"
      by (intro finish_event_does[where ?e0.0 = e])
        (use e0 ok in \<open>auto simp: finished_def terminal_types_def\<close>)
    with 1 show ?thesis by (simp add: past_deadline_def)
  next
    case 2
    with fin show ?thesis by (auto simp: past_deadline_def)
  next
    case 3
    show ?thesis
    proof (cases "tp_eligible trade")
      case True
      have "event_ok C (e\<lparr>pv_exit := Some trade, pv_exit_reason := ''TIME'', pv_pending := None\<rparr>)"
        by (rule exit_by_print[OF ok 3(1)])
          (use True live past 3 in \<open>simp add: time_print_def live_print_def path_deadline_ms_def\<close>)
      then have set: "done_by C g s (set_exit e trade ''TIME'' s)"
        by (intro set_exit_does) (use e0 3 in auto)
      obtain rs s1 where p: "set_exit e trade ''TIME'' s = (rs, s1)" by fastforce
      with set have d: "does C g s rs s1" and S1: "sound C s1"
        using does_sound[OF S, of g rs s1] by auto
      have "does C g s1 (fst (finalize_event e1 n s1)) (snd (finalize_event e1 n s1))"
        if "map_of (en_active s1) (pv_id e) = Some e1" for e1 n
        by (rule finalize_event_does[where ?e0.0 = e1]) (use that soundD[OF S1 that] in auto)
      with 3 True p d does_append[OF d] show ?thesis
        by (cases "map_of (en_active s1) (pv_id e)") (auto simp: past_deadline_def case_prod_beta)
    qed (use 3 in \<open>simp add: past_deadline_def does_nil\<close>)
  qed
qed

lemma advance_event_does:
  assumes S: "sound C s" and live: "\<And>e. map_of (en_active s) i = Some e \<Longrightarrow> live_print trade e"
  shows "does C False s (fst (advance_event trade i s)) (snd (snd (advance_event trade i s)))"
proof (cases "map_of (en_active s) i")
  case None
  then show ?thesis by (simp add: advance_event_def does_nil)
next
  case (Some e0)
  note e0 = soundD[OF S Some]
  obtain rs s1 where p: "resolve_pending e0 (tp_sip_ms trade) s = (rs, s1)" by fastforce
  have d: "does C False s rs s1"
    using resolve_pending_does[OF Some e0, of False "tp_sip_ms trade"] p by simp
  note S1 = does_sound[OF S d]
  show ?thesis
  proof (cases "map_of (en_active s1) i")
    case None
    with Some p d show ?thesis by (simp add: advance_event_def)
  next
    case e: (Some e)
    note ok = soundD[OF S1 e]
    have e1: "map_of (en_active s1) (pv_id e) = Some e" using e ok by simp
    from does_tends[OF d] e Some have "event_key e = event_key e0" unfolding tends_def by force
    with live[OF Some] have le: "live_print trade e" by (simp add: live_print_def event_key_def)
    have "done_by C False s1 (past_deadline trade e s1)" if "path_deadline_ms e < tp_sip_ms trade"
      by (rule past_deadline_does[OF S1 e1 le that])
    moreover have "done_by C False s1 (within_path trade e s1)" if "\<not> path_deadline_ms e < tp_sip_ms trade"
      by (rule within_path_does[OF e1 ok(2) le]) (use that in simp)
    ultimately show ?thesis
      using Some p e d does_append[OF d]
      by (auto simp: advance_event_def split: prod.split)
  qed
qed

lemma advance_all_does:
  assumes "sound C s"
    and "\<And>i e. i \<in> set is \<Longrightarrow> map_of (en_active s) i = Some e \<Longrightarrow> live_print trade e"
  shows "does C False s (fst (advance_all trade is s)) (snd (snd (advance_all trade is s)))"
  using assms
proof (induction "is" arbitrary: s)
  case Nil
  then show ?case by (simp add: does_nil)
next
  case (Cons i "is")
  obtain rs ys s1 where p: "advance_event trade i s = (rs, ys, s1)" by (metis prod_cases3)
  have d: "does C False s rs s1" using advance_event_does[OF Cons.prems(1)] Cons.prems(2) p by fastforce
  have "live_print trade e" if "j \<in> set is" "map_of (en_active s1) j = Some e" for j e
  proof -
    from does_tends[OF d] that(2) obtain e0 where
      "map_of (en_active s) j = Some e0" "event_key e = event_key e0" unfolding tends_def by blast
    with Cons.prems(2)[of j e0] that(1) show ?thesis by (simp add: live_print_def event_key_def)
  qed
  with Cons.IH[OF does_sound[OF Cons.prems(1) d]] does_append[OF d] p show ?case
    by (simp add: case_prod_beta)
qed

lemma advance_symbol_events_does:
  assumes "sound C s" "0 < tp_price trade"
  shows "does C False s (fst (advance_symbol_events trade s)) (snd (snd (advance_symbol_events trade s)))"
  unfolding advance_symbol_events_def
proof (rule advance_all_does[OF assms(1)])
  fix i e
  assume i: "i \<in> set (events_of (tp_symbol trade) s)" and e: "map_of (en_active s) i = Some e"
  have "keys_distinct (en_active s)" using assms(1) by (simp add: engine_inv_def events_ok_def)
  moreover from i obtain f where f: "(i, f) \<in> set (en_active s)" "pv_symbol f = tp_symbol trade"
    by (auto simp: events_of_def)
  ultimately have "map_of (en_active s) i = Some f" by (simp add: map_of_is_SomeI)
  with e f(2) show "live_print trade e" using assms(2) by (simp add: live_print_def)
qed

section \<open>Clock, gaps and the end of the session\<close>

lemma clock_event_does:
  assumes S: "sound C s"
  shows "done_by C False s (clock_event now i s)"
proof (cases "map_of (en_active s) i")
  case None
  then show ?thesis by (simp add: clock_event_def does_nil)
next
  case (Some e0)
  obtain rs s1 where p: "resolve_pending e0 now s = (rs, s1)" by fastforce
  have d: "does C False s rs s1"
    using resolve_pending_does[OF Some soundD[OF S Some], of False now] p by simp
  note S1 = does_sound[OF S d]
  show ?thesis
  proof (cases "map_of (en_active s1) i")
    case None
    with Some p d show ?thesis by (simp add: clock_event_def)
  next
    case e: (Some e)
    note ok = soundD[OF S1 e]
    have e1: "map_of (en_active s1) (pv_id e) = Some e" using e ok by simp
    have "done_by C False s1 (finalize_event e now s1)"
      by (rule finalize_event_does[OF e1]) (use ok in auto)
    moreover have "done_by C False s1 (finish_event e NO_FILL now ''no_eligible_print_within_10s'' s1)"
      by (rule finish_event_does[OF e1]) (use ok in \<open>auto simp: finished_def terminal_types_def\<close>)
    ultimately show ?thesis
      using Some p e d does_append[OF d] by (auto simp: clock_event_def split: prod.split)
  qed
qed

lemma gap_event_does:
  assumes S: "sound C s"
  shows "done_by C False s (gap_event t0 t1 y i s)"
proof (cases "map_of (en_active s) i")
  case (Some e)
  obtain r e1 where r: "emit FEED_GAP t1 '''' (e\<lparr>pv_feed_gap := True\<rparr>) = (r, e1)" by fastforce
  have "does C False s [r] (put_event e1 s)"
    by (rule emit_follow_does[OF _ _ _ _ _ r])
      (use Some soundD[OF S Some] in \<open>auto simp: event_key_def\<close>)
  with Some r show ?thesis by (auto simp: gap_event_def does_nil)
qed (simp add: gap_event_def does_nil)

lemma close_event_does:
  assumes S: "sound C s"
  shows "done_by C False s (close_event now i s)"
proof (cases "map_of (en_active s) i")
  case (Some e)
  note ok = soundD[OF S Some]
  have e: "map_of (en_active s) (pv_id e) = Some e" using Some ok by simp
  show ?thesis
    unfolding close_event_def
    by (auto simp: Some does_nil ok finished_def terminal_types_def intro!: finish_event_does[OF e])
qed (simp add: close_event_def does_nil)

lemma advance_clock_does: "sound C s \<Longrightarrow> done_by C False s (advance_clock now s)"
  unfolding advance_clock_def
  by (rule tape.does_loop) (simp, simp, rule clock_event_does, assumption+)

lemma mark_feed_gap_does: "sound C s \<Longrightarrow> done_by C False s (mark_feed_gap t0 t1 y s)"
  unfolding mark_feed_gap_def
  by (rule tape.does_loop) (simp, simp, rule gap_event_does, assumption+)

lemma close_session_does:
  assumes "sound C s"
  shows "done_by C False s (close_session now s)"
proof -
  obtain rs s1 where p: "advance_clock now s = (rs, s1)" by fastforce
  with advance_clock_does[OF assms, of now] have d: "does C False s rs s1" by simp
  have "done_by C False s1 (for_events (close_event now) (map fst (en_active s1)) s1)"
    by (rule tape.does_loop[OF _ _ _ does_sound[OF assms d]])
      (simp, simp, rule close_event_does, assumption)
  with p does_append[OF d] show ?thesis by (simp add: close_session_def case_prod_beta)
qed

text \<open>Closing leaves no active event.\<close>

lemma close_event_drops:
  "map_of (en_active (snd (close_event now i s))) i = None \<or> (\<exists>e. map_of (en_active s) i = Some e \<and> pv_id e \<noteq> i)"
  "map_of (en_active s) j = None \<Longrightarrow> map_of (en_active (snd (close_event now i s))) j = None"
  by (auto simp: close_event_def finish_event_def Let_def dict_simps split: option.split prod.split)

lemma close_loop_empty:
  "sound C s \<Longrightarrow> (\<And>i. map_of (en_active s) i \<noteq> None \<Longrightarrow> i \<in> set is)
   \<Longrightarrow> en_active (snd (for_events (close_event now) is s)) = []"
proof (induction "is" arbitrary: s)
  case Nil
  then show ?case by (cases "en_active s") force+
next
  case (Cons i "is")
  define s1 where "s1 = snd (close_event now i s)"
  have S1: "sound C s1"
    using does_sound[OF Cons.prems(1) close_event_does[OF Cons.prems(1)]] by (simp add: s1_def)
  have "j \<in> set is" if "map_of (en_active s1) j \<noteq> None" for j
    using that Cons.prems(2)[of j] close_event_drops(1)[where now = now and i = i and s = s]
      close_event_drops(2)[where now = now and i = i and s = s and j = j]
      soundD(1)[OF Cons.prems(1)]
    unfolding s1_def by fastforce
  with Cons.IH[OF S1] show ?case by (simp add: s1_def case_prod_beta)
qed

lemma close_session_empty:
  assumes "sound C s"
  shows "en_active (snd (close_session now s)) = []"
proof -
  define s1 where "s1 = snd (advance_clock now s)"
  have S1: "sound C s1"
    using does_sound[OF assms advance_clock_does[OF assms]] by (simp add: s1_def)
  have "en_active (snd (for_events (close_event now) (map fst (en_active s1)) s1)) = []"
    by (rule close_loop_empty[OF S1]) (force dest: map_of_SomeD)
  then show ?thesis by (simp add: close_session_def case_prod_beta s1_def)
qed

section \<open>The tape\<close>

lemma tape_does:
  assumes "en_active t = en_active s" "en_boundary t = en_boundary s" "en_completed t = en_completed s"
    and "\<And>r. r \<in> set rs \<Longrightarrow> mt_type r = PATH_PRINT"
  shows "does C g s rs t"
  using assms(4) move.tape[OF assms(1-3), of C g] assms(3)
  by (auto simp: does_def record_ok_def terminal_types_def terminal_records_def filter_empty_conv)

lemma shared_path_record_keeps:
  assumes "shared_path_record C y trade s = (r, t)"
  shows "en_active t = en_active s" "en_boundary t = en_boundary s" "en_completed t = en_completed s"
    "r = Some x \<Longrightarrow> mt_type x = PATH_PRINT"
  using assms by (auto simp: shared_path_record_def Let_def split: prod.splits if_splits)

lemma path_records_keep:
  "path_records C trade ys s = (rs, t) \<Longrightarrow>
   en_active t = en_active s \<and> en_boundary t = en_boundary s \<and> en_completed t = en_completed s
   \<and> (\<forall>r \<in> set rs. mt_type r = PATH_PRINT)"
proof (induction ys arbitrary: s rs t)
  case (Cons y ys)
  obtain r s1 where a: "shared_path_record C y trade s = (r, s1)" by fastforce
  obtain rs' s2 where b: "path_records C trade ys s1 = (rs', s2)" by fastforce
  show ?case
    using Cons.prems a b Cons.IH[OF b] shared_path_record_keeps[OF a]
    by (auto split: option.splits)
qed simp

lemma path_records_does: "done_by C g s (path_records C trade ys s)"
proof -
  obtain rs t where "path_records C trade ys s = (rs, t)" by fastforce
  with path_records_keep[OF this] tape_does[of t s rs C g] show ?thesis by simp
qed

section \<open>Detection\<close>

lemma activate_does:
  assumes e: "event_ok C e" "pv_exit e = None" and un: "\<not> has_unresolved s (event_key e)"
    and t: "named_from t e" "boundary s (event_key e) < t"
    and u: "reference_ms e = Some u" "boundary s (event_key e) < u"
  shows "done_by C True s (activate ms e s)"
proof -
  obtain r e1 where r: "emit DETECTED ms '''' e = (r, e1)" by fastforce
  note e1 = emit_parts[OF r]
  then have key: "event_key e1 = event_key e" and ref: "reference_ms e1 = reference_ms e"
    by (auto simp: reference_ms_def split: option.split)
  have "does C True s [r] (put_event e1 s)"
  proof (rule does_one)
    show "move C True s (put_event e1 s)"
      by (rule move.opens[where t = t]) (use e un t e1 key in \<open>auto simp: named_from_def\<close>)
    show "record_ok s (put_event e1 s) r"
      using e1 key ref u by (auto simp: record_ok_def terminal_types_def rec_key_def event_key_def)
  qed (use e1 in \<open>simp_all add: terminal_types_def\<close>)
  with r show ?thesis by (simp add: activate_def)
qed

lemma cheapest_in: "cheapest p ps \<in> insert p (set ps)"
proof (induction ps arbitrary: p)
  case (Cons x ps)
  then show ?case using Cons.IH[of x] Cons.IH[of p] by auto
qed simp

lemma reference_pool_cheapest:
  assumes "reference_pool y sip window bound hist = p # ps"
  shows "bound < tp_sip_ms (cheapest p ps)" "tp_sip_ms (cheapest p ps) < sip"
proof -
  have "cheapest p ps \<in> set (reference_pool y sip window bound hist)"
    using cheapest_in[of p ps] assms by simp
  then show "bound < tp_sip_ms (cheapest p ps)" "tp_sip_ms (cheapest p ps) < sip"
    by (simp_all add: reference_pool_def)
qed

lemma new_event_ok:
  assumes "symbol_is_eligible (tp_symbol d)" "map_of (ec_windows C) y \<noteq> None" "0 < tp_sip_ms d"
  shows "event_ok C (new_event C y w ref d pool n dec)"
proof -
  have "named (new_event C y w ref d pool n dec)"
    unfolding named_def
    by (rule disjI1, rule exI[of _ "tp_sip_ms d"])
      (simp add: new_event_def event_name_def fill_after_ms_def detection_ms_def)
  then show ?thesis using assms by (simp add: event_ok_def new_event_def detection_ms_def)
qed

lemma new_event_parts [simp]:
  "event_key (new_event C y w ref d pool n dec) = (y, tp_symbol d)"
  "pv_exit (new_event C y w ref d pool n dec) = None"
  "reference_ms (new_event C y w ref d pool n dec) = Some (tp_sip_ms ref)"
  "named_from (tp_sip_ms d) (new_event C y w ref d pool n dec)"
  by (auto simp: new_event_def event_key_def reference_ms_def named_from_def event_name_def
      intro!: exI[of _ "tp_sip_ms d"])

lemma boundary_nonneg: "sound C s \<Longrightarrow> 0 \<le> boundary s k"
  by (auto simp: engine_inv_def intro: boundary_okD(2))

lemma activate_new_does:
  assumes S: "sound C s" and y: "map_of (ec_windows C) y \<noteq> None" and el: "symbol_is_eligible (tp_symbol d)"
    and un: "\<not> has_unresolved s (y, tp_symbol d)"
    and ref: "boundary s (y, tp_symbol d) < tp_sip_ms ref" "tp_sip_ms ref < tp_sip_ms d"
  shows "done_by C True s (activate ms (new_event C y w ref d pool n dec) s)"
proof (rule activate_does)
  have "0 < tp_sip_ms d" using boundary_nonneg[OF S, of "(y, tp_symbol d)"] ref by linarith
  then show "event_ok C (new_event C y w ref d pool n dec)" by (rule new_event_ok[OF el y])
  show "named_from (tp_sip_ms d) (new_event C y w ref d pool n dec)"
    "reference_ms (new_event C y w ref d pool n dec) = Some (tp_sip_ms ref)" by simp_all
qed (use un ref in simp_all)

lemma detect_one_does:
  assumes S: "sound C s" and w: "w \<in> set (ec_windows C)" and el: "symbol_is_eligible (tp_symbol trade)"
  shows "done_by C True s (detect_one C trade hist excl dec w s)"
proof -
  obtain y n where wy: "w = (y, n)" by fastforce
  with w have y: "map_of (ec_windows C) y \<noteq> None" by (auto dest: weak_map_of_SomeI)
  show ?thesis
  proof (cases "reference_pool (tp_symbol trade) (tp_sip_ms trade) n (boundary s (y, tp_symbol trade)) hist")
    case Nil
    then show ?thesis by (simp add: detect_one_def wy does_nil)
  next
    case (Cons p ps)
    show ?thesis
      using activate_new_does[OF S y el _ reference_pool_cheapest[OF Cons]]
      by (simp add: detect_one_def wy Cons does_nil Let_def)
  qed
qed

lemma detect_all_does:
  assumes "sound C s" "set ws \<subseteq> set (ec_windows C)" "symbol_is_eligible (tp_symbol trade)"
  shows "done_by C True s (detect_all C trade hist excl dec ws s)"
proof (rule tape.does_loop[where f = "detect_one C trade hist excl dec" and loop = "detect_all C trade hist excl dec"])
  show "does C True s (fst (detect_one C trade hist excl dec w s)) (snd (detect_one C trade hist excl dec w s))"
    if "w \<in> set ws" "sound C s" for w s
    by (rule detect_one_does) (use that assms in auto)
qed (use assms in simp_all)

lemma ingest_does:
  assumes S: "sound C s" and pos: "0 < tp_price trade"
  shows "done_by C True s (ingest C trade allow dec s)"
proof (cases "symbol_is_eligible (tp_symbol trade)")
  case False
  then show ?thesis by (simp add: ingest_def Let_def does_nil)
next
  case el: True
  obtain rs ys s1 where p: "advance_symbol_events trade s = (rs, ys, s1)" by (metis prod_cases3)
  have d1: "does C True s rs s1"
    using advance_symbol_events_does[OF S pos] p by (auto intro: does_mono)
  define y where "y = tp_symbol trade"
  define hist where "hist = dropWhile (\<lambda>p. tp_sip_ms p < tp_sip_ms trade - 60000) (prints_of (en_history s1) y)"
  define excl where "excl = dropWhile (\<lambda>p. tp_sip_ms p < tp_sip_ms trade - 60000) (prints_of (en_excluded s1) y)"
  define s2 where "s2 = s1\<lparr>en_history := AList.update y hist (en_history s1),
                           en_excluded := AList.update y excl (en_excluded s1)\<rparr>"
  have d2: "does C True s rs s2"
    using does_append[OF d1, of "[]" s2] tape_does[of s2 s1 "[]" C True] by (simp add: s2_def)
  note S2 = does_sound[OF S d2]
  show ?thesis
  proof (cases "tp_eligible trade")
    case False
    define s3 where "s3 = s2\<lparr>en_session_excluded := en_session_excluded s2 + 1,
                             en_excluded := AList.update y (excl @ [trade]) (en_excluded s2)\<rparr>"
    have "does C True s rs s3"
      using does_append[OF d2, of "[]" s3] tape_does[of s3 s2 "[]" C True] by (simp add: s3_def)
    from does_append[OF this path_records_does[of C True s3 trade "sorted_strategies ys"]]
    show ?thesis
      using el p False
      by (simp add: ingest_def Let_def case_prod_beta s2_def s3_def flip: y_def hist_def excl_def)
  next
    case True
    define q where "q = (if allow \<and> can_detect C trade
                         then detect_all C trade hist excl dec (ec_windows C) s2 else ([], s2))"
    have "done_by C True s2 q"
      using detect_all_does[OF S2 subset_refl el] by (auto simp: q_def does_nil)
    from does_append[OF d2 this] have d3: "does C True s (rs @ fst q) (snd q)" .
    define s4 where "s4 = (snd q)\<lparr>en_history := AList.update y (hist @ [trade]) (en_history (snd q))\<rparr>"
    have "does C True s (rs @ fst q) s4"
      using does_append[OF d3, of "[]" s4] tape_does[of s4 "snd q" "[]" C True] by (simp add: s4_def)
    from does_append[OF this
        path_records_does[of C True s4 trade "sorted_strategies (ys @ map mt_strategy (fst q))"]]
    show ?thesis
      using el p True
      by (cases "allow \<and> can_detect C trade")
        (auto simp: ingest_def Let_def case_prod_beta q_def s4_def y_def hist_def excl_def s2_def)
  qed
qed

section \<open>Detection from snapshots\<close>

definition prop_key :: "proposal \<Rightarrow> string \<times> string" where
  "prop_key p = (pr_strategy p, tp_symbol (pr_sample p))"

text \<open>A proposal that may still be admitted in a state.\<close>

definition admissible :: "engine_config \<Rightarrow> paper_engine \<Rightarrow> proposal \<Rightarrow> bool" where
  "admissible C s p \<longleftrightarrow>
     map_of (ec_windows C) (pr_strategy p) \<noteq> None \<and> symbol_is_eligible (tp_symbol (pr_sample p))
     \<and> \<not> has_unresolved s (prop_key p) \<and> boundary s (prop_key p) < tp_sip_ms (pr_reference p)
     \<and> tp_sip_ms (pr_reference p) < tp_sip_ms (pr_sample p)"

lemma propose_one_ok:
  assumes "propose_one sample hist s w = Some p" "w \<in> set (ec_windows C)"
    and "symbol_is_eligible (tp_symbol sample)"
  shows "admissible C s p" "prop_key p = (fst w, tp_symbol sample)"
proof -
  obtain y n where w: "w = (y, n)" by fastforce
  with assms(2) have y: "map_of (ec_windows C) y \<noteq> None" by (auto dest: weak_map_of_SomeI)
  show "prop_key p = (fst w, tp_symbol sample)"
    using assms(1) by (auto simp: propose_one_def prop_key_def Let_def w split: list.splits if_splits)
  show "admissible C s p"
    using assms(1,3) y
    by (auto simp: propose_one_def prop_key_def admissible_def Let_def w
        dest: reference_pool_cheapest split: list.splits if_splits)
qed

lemma propose_ok:
  assumes "symbol_is_eligible (tp_symbol sample)" "set ws \<subseteq> set (ec_windows C)" "keys_distinct ws"
  shows "(\<forall>p \<in> set (propose sample hist s ws). admissible C s p
            \<and> tp_symbol (pr_sample p) = tp_symbol sample \<and> pr_strategy p \<in> fst ` set ws)
         \<and> distinct (map prop_key (propose sample hist s ws))"
  using assms(2,3)
proof (induction ws)
  case (Cons w ws)
  then have IH: "\<forall>p \<in> set (propose sample hist s ws). admissible C s p
            \<and> tp_symbol (pr_sample p) = tp_symbol sample \<and> pr_strategy p \<in> fst ` set ws"
    "distinct (map prop_key (propose sample hist s ws))" by auto
  show ?case
  proof (cases "propose_one sample hist s w")
    case None
    with IH show ?thesis by auto
  next
    case (Some p)
    from Cons.prems(1) have w: "w \<in> set (ec_windows C)" by simp
    note p = propose_one_ok[OF Some w assms(1)]
    moreover have "prop_key p \<notin> prop_key ` set (propose sample hist s ws)"
      using p(2) IH(1) Cons.prems(2) by (force simp: prop_key_def)
    moreover have "tp_symbol (pr_sample p) = tp_symbol sample" "pr_strategy p = fst w"
      using p(2) by (simp_all add: prop_key_def)
    ultimately show ?thesis using IH Some by auto
  qed
qed simp

lemma snapshot_sample_symbol:
  "snapshot_sample C now n s = Some sample \<Longrightarrow>
   tp_symbol sample = sn_symbol n \<and> symbol_is_eligible (sn_symbol n)"
  by (auto simp: snapshot_sample_def Let_def split: if_splits option.splits)

text \<open>Collecting proposals touches no event and no boundary.\<close>

lemma snapshot_step_keeps:
  assumes "snapshot_step C now n s = (ps, t)"
  shows "en_active t = en_active s" "en_boundary t = en_boundary s" "en_completed t = en_completed s"
  using assms by (auto simp: snapshot_step_def Let_def split: option.splits)

lemma admissible_same:
  "en_active t = en_active s \<Longrightarrow> en_boundary t = en_boundary s \<Longrightarrow> admissible C t p = admissible C s p"
  by (simp add: admissible_def has_unresolved_def boundary_def)

lemma snapshot_step_ok:
  assumes "snapshot_step C now n s = (ps, t)" "keys_distinct (ec_windows C)"
  shows "(\<forall>p \<in> set ps. admissible C s p \<and> tp_symbol (pr_sample p) = sn_symbol n)
         \<and> distinct (map prop_key ps)"
proof (cases "snapshot_sample C now n s")
  case None
  with assms(1) show ?thesis by (simp add: snapshot_step_def)
next
  case (Some sample)
  note y = snapshot_sample_symbol[OF Some]
  then have "symbol_is_eligible (tp_symbol sample)" by simp
  from propose_ok[OF this subset_refl assms(2)] y show ?thesis
    using assms(1) Some by (auto simp: snapshot_step_def Let_def)
qed

lemma snapshot_proposals_ok:
  assumes "snapshot_proposals C now ns s = (ps, t)" "keys_distinct (ec_windows C)"
    and "distinct (map sn_symbol ns)"
  shows "(\<forall>p \<in> set ps. admissible C s p \<and> tp_symbol (pr_sample p) \<in> sn_symbol ` set ns)
         \<and> distinct (map prop_key ps) \<and> en_active t = en_active s \<and> en_boundary t = en_boundary s
         \<and> en_completed t = en_completed s"
  using assms
proof (induction ns arbitrary: s ps t)
  case (Cons n ns)
  obtain qs s1 where a: "snapshot_step C now n s = (qs, s1)" by fastforce
  obtain qs' s2 where b: "snapshot_proposals C now ns s1 = (qs', s2)" by fastforce
  note one = snapshot_step_ok[OF a Cons.prems(2)] and same = snapshot_step_keeps[OF a]
  from Cons.IH[OF b Cons.prems(2)] Cons.prems(3)
  have IH: "\<forall>p \<in> set qs'. admissible C s p \<and> tp_symbol (pr_sample p) \<in> sn_symbol ` set ns"
    "distinct (map prop_key qs')"
    "en_active s2 = en_active s \<and> en_boundary s2 = en_boundary s \<and> en_completed s2 = en_completed s"
    using same admissible_same[OF same(1,2)] by auto
  have "prop_key ` set qs \<inter> prop_key ` set qs' = {}"
    using one IH(1) Cons.prems(3) by (force simp: prop_key_def)
  with one IH show ?case using Cons.prems(1) a b by auto
qed simp

lemma activate_state:
  "snd (activate ms e s) = put_event (e\<lparr>pv_sequence := pv_sequence e + 1\<rparr>) s"
  by (simp add: activate_def emit_def Let_def)

lemma admissible_after:
  assumes S: "sound C s" and new: "map_of (en_active s) (pv_id e) = None"
    and p: "admissible C s p" and k: "prop_key p \<noteq> event_key e"
  shows "admissible C (put_event e s) p"
proof -
  have kd: "keys_distinct (en_active s)" using S by (simp add: engine_inv_def events_ok_def)
  then have "keys_distinct (en_active (put_event e s))" by (simp add: keys_distinct_update)
  with p k show ?thesis
    by (auto simp: admissible_def has_unresolved_iff[OF kd] has_unresolved_iff dict_simps
        split: if_splits)
qed

lemma admit_proposals_does:
  assumes "sound C s" "\<forall>p \<in> set ps. admissible C s p" "distinct (map prop_key ps)"
  shows "does C True s (fst (admit_proposals C cap act ps s)) (snd (snd (admit_proposals C cap act ps s)))"
  using assms
proof (induction ps arbitrary: s act)
  case Nil
  then show ?case by (simp add: does_nil)
next
  case (Cons p ps)
  show ?case
  proof (cases "tp_symbol (pr_sample p) \<notin> set act \<and> cap \<le> length act")
    case True
    with Cons.IH[OF Cons.prems(1)] Cons.prems show ?thesis by (simp add: Let_def case_prod_beta)
  next
    case False
    define e where "e = new_event C (pr_strategy p) (pr_window p) (pr_reference p) (pr_sample p) (pr_pool p) 0 None"
    from Cons.prems(2) have ad: "admissible C s p" by simp
    then have d: "done_by C True s (activate (tp_sip_ms (pr_sample p)) e s)"
      unfolding e_def by (intro activate_new_does[OF Cons.prems(1)]) (auto simp: admissible_def prop_key_def)
    define s1 where "s1 = snd (activate (tp_sip_ms (pr_sample p)) e s)"
    have S1: "sound C s1" using does_sound[OF Cons.prems(1) d] by (simp add: s1_def)
    have key: "event_key e = prop_key p" by (simp add: e_def prop_key_def)
    have ok: "event_ok C e"
      using ad boundary_nonneg[OF Cons.prems(1), of "prop_key p"] unfolding e_def
      by (intro new_event_ok) (auto simp: admissible_def)
    have "map_of (en_active s) (pv_id e) = None"
      using Cons.prems(1) ad key
      by (intro opens_fresh[where t = "tp_sip_ms (pr_sample p)", OF _ _ ok])
        (auto simp: admissible_def e_def prop_key_def)
    then have new: "map_of (en_active s) (pv_id (e\<lparr>pv_sequence := pv_sequence e + 1\<rparr>)) = None"
      by simp
    have "\<forall>q \<in> set ps. admissible C s1 q"
    proof
      fix q
      assume q: "q \<in> set ps"
      then have "prop_key q \<in> prop_key ` set ps" by blast
      with Cons.prems(3) key have "prop_key q \<noteq> event_key (e\<lparr>pv_sequence := pv_sequence e + 1\<rparr>)"
        by auto
      from admissible_after[OF Cons.prems(1) new _ this] Cons.prems(2) q show "admissible C s1 q"
        by (simp add: s1_def activate_state)
    qed
    note IH = Cons.IH[OF S1 this, of "List.insert (tp_symbol (pr_sample p)) act"]
    from Cons.prems(3) have "distinct (map prop_key ps)" by simp
    from does_append[OF d, folded s1_def, OF IH[OF this]] show ?thesis
      using False by (auto simp: Let_def case_prod_beta s1_def e_def)
  qed
qed

lemma detect_from_snapshots_does:
  assumes S: "sound C s" and w: "keys_distinct (ec_windows C)" and ns: "distinct (map sn_symbol ns)"
  shows "does C True s (fst (detect_from_snapshots C ns now cap s))
           (snd (snd (detect_from_snapshots C ns now cap s)))"
proof -
  obtain ps s1 where p: "snapshot_proposals C now ns s = (ps, s1)" by fastforce
  note ok = snapshot_proposals_ok[OF p w ns]
  have d: "does C True s [] s1" by (rule tape_does) (use ok in auto)
  have "\<forall>q \<in> set (sort_key proposal_key ps). admissible C s1 q"
    using ok admissible_same[of s1 s C] by auto
  moreover have "distinct (map prop_key (sort_key proposal_key ps))"
    using ok by (simp add: distinct_map)
  ultimately show ?thesis
    using does_append[OF d admit_proposals_does[OF does_sound[OF S d]]] p
    by (simp add: detect_from_snapshots_def)
qed

section \<open>The warning ledger\<close>

lemma bucket_accepted:
  assumes "\<not> bucket_refused C w b s" "sound C s"
  shows "symbol_is_eligible (bk_symbol b)" "\<not> has_unresolved s (bk_strategy b, bk_symbol b)"
    "boundary s (bk_strategy b, bk_symbol b) < bk_reference_start b"
    "bk_reference_start b < bk_decision_ns b div 1000000"
    "case bk_trade b of None \<Rightarrow> 0 < bk_signal_end b | Some t \<Rightarrow> 0 < tp_sip_ms t"
  using assms boundary_nonneg[OF assms(2), of "(bk_strategy b, bk_symbol b)"]
  by (auto simp: bucket_refused_def Let_def split: option.splits)

lemma bucket_event_ok:
  assumes "\<not> bucket_refused C w b s" "sound C s" "map_of (ec_windows C) (bk_strategy b) \<noteq> None"
  shows "event_ok C (bucket_event C w b)"
proof -
  note acc = bucket_accepted[OF assms(1,2)]
  have "named (bucket_event C w b)"
    unfolding named_def
    by (intro disjI2 exI[of _ "bucket_lineage b"] exI[of _ "bk_decision_ns b"])
      (simp add: bucket_event_def bucket_name_def bucket_lineage_def lineages_def fill_after_ms_def)
  moreover have "0 < detection_ms (bucket_event C w b)"
    using acc boundary_nonneg[OF assms(2), of "(bk_strategy b, bk_symbol b)"]
    by (auto simp: bucket_event_def detection_ms_def split: option.splits)
  ultimately show ?thesis
    using acc assms(3) by (auto simp: event_ok_def bucket_event_def split: option.splits)
qed

lemma detect_from_bucket_does:
  assumes S: "sound C s"
  shows "does C True s (case fst (detect_from_bucket C b s) of Inl _ \<Rightarrow> [] | Inr rs \<Rightarrow> rs)
           (snd (detect_from_bucket C b s))"
proof (cases "map_of (ec_windows C) (bk_strategy b) = None \<or> map_of WARNING_STRATEGIES (bk_strategy b) = None
    \<or> bucket_refused C (the (map_of (ec_windows C) (bk_strategy b))) b s")
  case True
  then show ?thesis by (auto simp: detect_from_bucket_def does_nil split: option.split)
next
  case False
  then obtain w where w: "map_of (ec_windows C) (bk_strategy b) = Some w" and nr: "\<not> bucket_refused C w b s"
    by auto
  note acc = bucket_accepted[OF nr S]
  define e where "e = bucket_event C w b"
  have parts: "event_key e = (bk_strategy b, bk_symbol b)" "pv_exit e = None"
    "reference_ms e = Some (bk_reference_start b)"
    by (simp_all add: e_def bucket_event_def event_key_def reference_ms_def)
  have name: "named_from (bk_decision_ns b div 1000000) e"
    unfolding named_from_def
    by (intro disjI2 exI[of _ "bucket_lineage b"] exI[of _ "bk_decision_ns b"])
      (simp add: e_def bucket_event_def bucket_name_def bucket_lineage_def lineages_def)
  have "done_by C True s (activate (bk_decision_ns b div 1000000) e s)"
  proof (rule activate_does[OF _ parts(2) _ name _ parts(3)])
    show "event_ok C e" unfolding e_def by (rule bucket_event_ok[OF nr S]) (simp add: w)
  qed (use acc parts in auto)
  then show ?thesis
    using False w by (auto simp: detect_from_bucket_def e_def case_prod_beta)
qed

lemma sealed_event_ok:
  assumes e: "event_ok C e" "pv_fill e = None" and n: "signal_end_ms e = Some t" "\<not> seal_expired d t e"
    and mono: "case pv_decision_ns e of None \<Rightarrow> True | Some n \<Rightarrow> n \<le> d"
  shows "event_ok C (sealed_event d e)"
proof -
  define e' where "e' = sealed_event d e"
  have same: "pv_id e' = pv_id e" "pv_strategy e' = pv_strategy e" "pv_symbol e' = pv_symbol e"
    "pv_detection e' = pv_detection e" "pv_fill e' = None" "pv_exit e' = pv_exit e"
    "pv_pending e' = pv_pending e" "pv_mfe e' = pv_mfe e" "pv_mae e' = pv_mae e"
    "pv_decision_ns e' = Some d"
    "pv_evidence e' = map_option (\<lambda>b. b\<lparr>be_decision_ns := d\<rparr>) (pv_evidence e)"
    using e(2) by (simp_all add: e'_def sealed_event_def)
  have later: "fill_after_ms e \<le> fill_after_ms e'"
  proof (cases "pv_decision_ns e")
    case None
    then show ?thesis
      using e(1) same by (auto simp: fill_after_ms_def detection_ms_def event_ok_def split: option.splits)
  next
    case (Some m)
    then have "m div 1000000 \<le> d div 1000000" using mono by (simp add: zdiv_mono1)
    with Some same show ?thesis
      by (auto simp: fill_after_ms_def detection_ms_def split: option.splits)
  qed
  have "named e'"
    using e(1) later unfolding event_ok_def named_def same by (meson order_trans)
  moreover have "0 < detection_ms e'"
  proof (cases "pv_detection e")
    case None
    with e(1) obtain b where b: "pv_evidence e = Some b" "0 < be_signal_end b"
      by (auto simp: event_ok_def)
    with None n have "0 \<le> d div 1000000 - be_signal_end b"
      by (auto simp: signal_end_ms_def seal_expired_def source_age_reason_def Let_def split: if_splits)
    with None b same show ?thesis by (simp add: detection_ms_def)
  next
    case (Some p)
    then show ?thesis using e(1) same by (simp add: detection_ms_def event_ok_def)
  qed
  ultimately have "event_ok C e'"
    using e same by (auto simp: event_ok_def)
  then show ?thesis by (simp add: e'_def)
qed

text \<open>Sealing concerns proposals of this evaluation: unfilled, and decided no earlier than detected.\<close>

definition sealable :: "int \<Rightarrow> tape_record list \<Rightarrow> paper_engine \<Rightarrow> bool" where
  "sealable d rs s \<longleftrightarrow>
     (\<forall>r \<in> set rs. \<forall>e. map_of (en_active s) (mt_logical_id r) = Some e \<longrightarrow>
        pv_fill e = None \<and> (case pv_decision_ns e of None \<Rightarrow> True | Some n \<Rightarrow> n \<le> d))"

lemma seal_one_does:
  assumes S: "sound C s" and ok: "sealable d [r] s"
  shows "does C False s [] (snd (seal_one d r s))" "sealable d rs s \<Longrightarrow> sealable d rs (snd (seal_one d r s))"
proof -
  have "does C False s [] (snd (seal_one d r s))
        \<and> (sealable d rs s \<longrightarrow> sealable d rs (snd (seal_one d r s)))"
  proof (cases "map_of (en_active s) (mt_logical_id r)")
    case None
    then show ?thesis by (auto simp: seal_one_def does_nil)
  next
    case (Some e)
    note e = soundD[OF S Some]
    from ok Some have fill: "pv_fill e = None"
      and mono: "case pv_decision_ns e of None \<Rightarrow> True | Some n \<Rightarrow> n \<le> d" by (auto simp: sealable_def)
    have x: "pv_exit e = None" using e fill by (simp add: event_ok_def)
    have drop: "does C False s [] (s\<lparr>en_active := AList.delete (pv_id e) (en_active s)\<rparr>)"
      by (rule does_silent) (use Some e x in \<open>auto intro: move.withdraw\<close>)
    have seal: "does C False s [] (put_event (sealed_event d e) s)"
      if "signal_end_ms e = Some t" "\<not> seal_expired d t e" for t
      by (rule put_event_does[where ?e0.0 = e])
        (use Some e sealed_event_ok[OF e(2) fill that mono] in
          \<open>auto simp: sealed_event_def event_key_def\<close>)
    show ?thesis
      using Some drop seal fill
      by (auto simp: seal_one_def does_nil sealable_def dict_simps sealed_event_def
          split: option.splits if_splits)
  qed
  then show "does C False s [] (snd (seal_one d r s))"
    "sealable d rs s \<Longrightarrow> sealable d rs (snd (seal_one d r s))" by auto
qed

lemma seal_does:
  "sound C s \<Longrightarrow> sealable d rs s \<Longrightarrow> does C False s [] (snd (seal_warning_decisions rs d s))"
proof (induction rs arbitrary: s)
  case Nil
  then show ?case by (simp add: does_nil)
next
  case (Cons r rs)
  have "sealable d [r] s" "sealable d rs s" using Cons.prems(2) by (auto simp: sealable_def)
  note one = seal_one_does(1)[OF Cons.prems(1) this(1)]
    and rest = seal_one_does(2)[OF Cons.prems(1) this(1) this(2)]
  from does_append[OF one Cons.IH[OF does_sound[OF Cons.prems(1) one] rest]] one
  show ?case by (simp add: case_prod_beta split: sum.split prod.split)
qed

section \<open>Runs of the engine\<close>

text \<open>
  A step is one call of the service, labelled with the records it emits. Prints have positive
  prices (\<open>services/momentum_paper_app.py\<close> refuses others), a batch of snapshots names each symbol
  once, and a sealing rewrites records of the same evaluation instead of emitting any.
\<close>

inductive engine_step :: "engine_config \<Rightarrow> paper_engine \<Rightarrow> tape_record list \<Rightarrow> paper_engine \<Rightarrow> bool"
  for C where
  at_print: "0 < tp_price p \<Longrightarrow> ingest C p allow dec s = (rs, t) \<Longrightarrow> engine_step C s rs t"
| at_snapshots: "distinct (map sn_symbol ns) \<Longrightarrow> detect_from_snapshots C ns now cap s = (rs, n, t)
    \<Longrightarrow> engine_step C s rs t"
| at_bucket: "detect_from_bucket C b s = (r, t)
    \<Longrightarrow> engine_step C s (case r of Inl _ \<Rightarrow> [] | Inr rs \<Rightarrow> rs) t"
| at_seal: "sealable d qs s \<Longrightarrow> seal_warning_decisions qs d s = (r, t) \<Longrightarrow> engine_step C s [] t"
| at_clock: "advance_clock now s = (rs, t) \<Longrightarrow> engine_step C s rs t"
| at_gap: "mark_feed_gap t0 t1 y s = (rs, t) \<Longrightarrow> engine_step C s rs t"
| at_close: "close_session now s = (rs, t) \<Longrightarrow> engine_step C s rs t"

inductive_cases engine_stepE: "engine_step C s rs t"

definition config_ok :: "engine_config \<Rightarrow> bool" where
  "config_ok C \<longleftrightarrow> names_plain C \<and> keys_distinct (ec_windows C)"

lemma engine_step_does:
  assumes "config_ok C" "sound C s" "engine_step C s rs t"
  shows "does C True s rs t"
  using assms(3)
proof cases
  case (at_print p allow dec)
  with ingest_does[OF assms(2), of p allow dec] show ?thesis by simp
next
  case (at_snapshots ns now cap n)
  with detect_from_snapshots_does[OF assms(2) _ at_snapshots(1), of now cap] assms(1) show ?thesis
    by (simp add: config_ok_def)
next
  case (at_bucket b r)
  with detect_from_bucket_does[OF assms(2), of b] show ?thesis by simp
next
  case (at_seal d qs r)
  with does_mono[OF seal_does[OF assms(2) at_seal(2)]] show ?thesis by simp
next
  case (at_clock now)
  with does_mono[OF advance_clock_does[OF assms(2), of now]] show ?thesis by simp
next
  case (at_gap t0 t1 y)
  with does_mono[OF mark_feed_gap_does[OF assms(2), of t0 t1 y]] show ?thesis by simp
next
  case (at_close now)
  with does_mono[OF close_session_does[OF assms(2), of now]] show ?thesis by simp
qed

lemma new_engine_sound: "config_ok C \<Longrightarrow> sound C new_engine"
  by (simp add: config_ok_def engine_inv_def events_ok_def one_open_def boundary_ok_def boundary_def
      new_engine_def ends_def ended_def exits_of_def)

interpretation paper: invariant_system
  "\<lambda>s. config_ok C \<and> s = new_engine" "engine_step C" "\<lambda>s. config_ok C \<and> sound C s"
proof
  show "config_ok C \<and> sound C s" if "config_ok C \<and> s = new_engine" for s
    using that new_engine_sound by auto
  show "config_ok C \<and> sound C t" if "config_ok C \<and> sound C s" "engine_step C s rs t" for s rs t
    using that engine_step_does does_sound by blast
qed

lemma engine_run_sound:
  "config_ok C \<Longrightarrow> run (engine_step C) new_engine ls s \<Longrightarrow> sound C s"
  using paper.run_from_init by blast

lemma engine_run_does:
  "run (engine_step C) s ls t \<Longrightarrow> config_ok C \<Longrightarrow> sound C s \<Longrightarrow> does C True s (concat ls) t"
proof (induction rule: run.induct)
  case (run_nil s)
  then show ?case by (simp add: does_nil)
next
  case (run_snoc s ls t rs u)
  then have d: "does C True s (concat ls) t" by simp
  from engine_step_does[OF run_snoc.prems(1) does_sound[OF run_snoc.prems(2) d] run_snoc.hyps(2)]
  show ?case using does_append[OF d] by simp
qed

section \<open>Properties\<close>



text \<open>The instant a record leaves behind for its strategy and symbol.\<close>

definition left_at :: "tape_record \<Rightarrow> int" where
  "left_at r = (if mt_type r = EXITED then mt_observed_ms r else end_of (the (mt_event r)) (mt_type r))"

lemma left_within_boundary:
  assumes S: "sound C s" and d: "does C True s rs t" and r: "r \<in> set rs"
    and ty: "mt_type r \<in> insert EXITED terminal_types"
  shows "left_at r \<le> boundary t (rec_key r)"
proof (cases "mt_type r = EXITED")
  case True
  with d r show ?thesis by (auto simp: does_def record_ok_def left_at_def)
next
  case False
  with ty have ty': "mt_type r \<in> terminal_types" by simp
  with d r obtain e where e: "mt_event r = Some e" "event_key e = rec_key r"
    by (auto simp: does_def record_ok_def)
  have "completed_of r \<in> set (en_completed t)"
    using d r ty' by (auto simp: does_def terminal_records_def)
  then have "end_of e (mt_type r) \<in> ends t (rec_key r)"
    using e by (force simp: ends_def ended_def completed_of_def)
  moreover have "boundary_ok t" using does_sound[OF S d] by (simp add: engine_inv_def)
  ultimately show ?thesis using False e by (simp add: left_at_def boundary_okD(1))
qed

text \<open>No re-entry on the traced move: when an event of a strategy and symbol has exited or ended,
  every later detection of the same strategy and symbol measures its move from a reference (a
  print, a snapshot or a bucket) strictly after that exit or end, across any run of the engine in
  between.\<close>
theorem reference_after_exit:
  assumes "config_ok C" "run (engine_step C) new_engine ls s" "engine_step C s rs t"
    and "run (engine_step C) t ms u" "engine_step C u qs v"
    and "r \<in> set rs" "mt_type r \<in> {EXITED, FINAL, NO_FILL, UNANSWERABLE}"
    and "q \<in> set qs" "mt_type q = DETECTED" "mt_strategy q = mt_strategy r" "mt_symbol q = mt_symbol r"
  shows "\<exists>e w. mt_event q = Some e \<and> reference_ms e = Some w \<and> left_at r < w"
proof -
  note S = engine_run_sound[OF assms(1,2)]
  note d1 = engine_step_does[OF assms(1) S assms(3)]
  note d2 = engine_run_does[OF assms(4,1) does_sound[OF S d1]]
  note d3 = engine_step_does[OF assms(1) does_sound[OF does_sound[OF S d1] d2] assms(5)]
  have "left_at r \<le> boundary t (rec_key r)"
    by (rule left_within_boundary[OF S d1 assms(6)]) (use assms(7) in \<open>simp add: terminal_types_def\<close>)
  also have "\<dots> \<le> boundary u (rec_key r)" using d2 by (auto simp: does_def intro: moves_raise_boundary)
  finally have b: "left_at r \<le> boundary u (rec_key q)" using assms(10,11) by (simp add: rec_key_def)
  from d3 assms(8,9) obtain e w where "mt_event q = Some e" "reference_ms e = Some w"
    "boundary u (rec_key q) < w" by (auto simp: does_def record_ok_def)
  with b show ?thesis by auto
qed

text \<open>What is left after forgetting is not older than the cutoff, so forgetting again changes nothing.\<close>

lemma forget_old_head: "forget_old c ys d = (xs, d') \<Longrightarrow> xs = [] \<or> c \<le> fst (hd xs)"
  by (induction c ys d rule: forget_old.induct) (auto split: if_splits)

lemma forget_old_fresh: "xs = [] \<or> c \<le> fst (hd xs) \<Longrightarrow> forget_old c xs d = (xs, d)"
  by (cases xs) auto

text \<open>A print goes to the tape once: offering a print that was just offered writes nothing new;
  only a print whose identity already stands for a different print is written again, and then as
  the same record under the same key.\<close>
theorem path_print_once:
  assumes "shared_path_record C y trade s = (r, t)" "shared_path_record C y trade t = (q, u)"
  shows "q = None \<or> q = r \<and> en_collisions t = en_collisions s + 1"
proof -
  define c where "c = tp_sip_ms trade - PATH_WINDOW_MS"
  obtain xs d where f: "forget_old c (en_seen_order s) (en_seen s) = (xs, d)" by fastforce
  note h = forget_old_head[OF f]
  have "c \<le> tp_sip_ms trade" by (simp add: c_def PATH_WINDOW_MS_def)
  then have again: "forget_old c xs d = (xs, d)"
    "forget_old c (xs @ [(tp_sip_ms trade, k, g)]) d' = (xs @ [(tp_sip_ms trade, k, g)], d')" for k g d'
    using h by (intro forget_old_fresh; cases xs; simp)+
  show ?thesis
    using assms f again
    by (auto simp: shared_path_record_def Let_def c_def[symmetric] dict_simps
        split: option.splits if_splits prod.splits)
qed

text \<open>What the service stores of a record and reads back at a restart.\<close>

definition stored_of :: "tape_record \<Rightarrow> stored_row" where
  "stored_of r =
     (let e = the (mt_event r)
      in \<lparr>sr_symbol = mt_symbol r, sr_strategy = mt_strategy r, sr_type = mt_type r,
          sr_exit_ms = (case pv_exit e of None \<Rightarrow> 0 | Some x \<Rightarrow> tp_sip_ms x),
          sr_terminal_ms = terminal_boundary_ms e (mt_type r) (mt_observed_ms r),
          sr_observed_ms = mt_observed_ms r\<rparr>)"

definition seed_ends :: "engine_config \<Rightarrow> stored_row list \<Rightarrow> string \<times> string \<Rightarrow> int set" where
  "seed_ends C rows k =
     row_boundary ` {r \<in> set rows. seeds C r \<and> (sr_strategy r, sr_symbol r) = k}"

lemma seed_ends_Cons:
  "seed_ends C (r # rows) k =
     (if seeds C r \<and> (sr_strategy r, sr_symbol r) = k then {row_boundary r} else {}) \<union> seed_ends C rows k"
  by (auto simp: seed_ends_def)

lemma seeded_boundary:
  "boundary (seed_reentry_boundaries C rows s) k \<in> insert (boundary s k) (seed_ends C rows k)
   \<and> (\<forall>t \<in> insert (boundary s k) (seed_ends C rows k).
        t \<le> boundary (seed_reentry_boundaries C rows s) k)"
proof (induction rows arbitrary: s)
  case Nil
  then show ?case by (simp add: seed_ends_def)
next
  case (Cons r rows)
  let ?s = "if seeds C r then raise_boundary (sr_strategy r, sr_symbol r) (row_boundary r) s else s"
  have b: "boundary ?s k = (if seeds C r \<and> (sr_strategy r, sr_symbol r) = k
                            then max (row_boundary r) (boundary s k) else boundary s k)" by auto
  show ?case
    using Cons.IH[of ?s] by (auto simp: seed_ends_Cons b max_def split: if_splits)
qed

text \<open>The row of an end record carries the end of its event.\<close>

lemma stored_row_end:
  assumes ok: "event_ok C e" "finished (e, ty, reason)" and r: "mt_event r = Some e" "mt_type r = ty"
    and key: "event_key e = rec_key r"
    and tb: "terminal_boundary_ms e ty (mt_observed_ms r) = terminal_boundary_ms e ty 0"
  shows "seeds C (stored_of r)" "(sr_strategy (stored_of r), sr_symbol (stored_of r)) = event_key e"
    "row_boundary (stored_of r) = end_of e ty"
proof -
  show "seeds C (stored_of r)" "(sr_strategy (stored_of r), sr_symbol (stored_of r)) = event_key e"
    using ok r key
    by (auto simp: seeds_def stored_of_def Let_def finished_def terminal_types_def event_ok_def
        event_key_def rec_key_def)
  show "row_boundary (stored_of r) = end_of e ty"
  proof (cases "pv_exit e")
    case (Some x)
    with event_ok_exit_after(2)[OF ok(1) Some] r show ?thesis
      by (simp add: row_boundary_def stored_of_def Let_def end_of_def)
  next
    case None
    then have "ty \<in> {NO_FILL, UNANSWERABLE}" using ok(2) by (auto simp: finished_def terminal_types_def)
    moreover have "0 < path_deadline_ms e" "0 < detection_ms e"
      using ok(1) detection_fill_after[of e]
      by (auto simp: path_deadline_ms_def event_ok_def fill_ok_def FILL_WINDOW_MS_def PATH_WINDOW_MS_def
          split: option.splits)
    ultimately have "0 < terminal_boundary_ms e ty 0"
      by (auto simp: terminal_boundary_ms_def FILL_WINDOW_MS_def)
    with None r tb show ?thesis by (simp add: row_boundary_def stored_of_def Let_def end_of_def)
  qed
qed

text \<open>Re-entry boundaries survive a restart: once no event is active (after the session is
  closed), seeding a new engine with the stored records of the run gives every strategy and
  symbol exactly the boundary the running engine had.\<close>
theorem boundaries_restart:
  assumes "config_ok C" "run (engine_step C) new_engine ls s" "en_active s = []"
  shows "boundary (seed_reentry_boundaries C (map stored_of (concat ls)) new_engine) k = boundary s k"
proof -
  define rs where "rs = concat ls"
  have S: "sound C s" by (rule engine_run_sound[OF assms(1,2)])
  have d: "does C True new_engine rs s"
    unfolding rs_def by (rule engine_run_does[OF assms(2,1) new_engine_sound[OF assms(1)]])
  then have compl: "en_completed s = map completed_of (terminal_records rs)"
    by (simp add: does_def new_engine_def)
  have row: "seeds C (stored_of r) \<and> (sr_strategy (stored_of r), sr_symbol (stored_of r)) = event_key (the (mt_event r))
      \<and> row_boundary (stored_of r) = end_of (the (mt_event r)) (mt_type r)"
    if r: "r \<in> set (terminal_records rs)" for r
  proof -
    from r d obtain e where e: "mt_event r = Some e" "event_key e = rec_key r"
      "terminal_boundary_ms e (mt_type r) (mt_observed_ms r) = terminal_boundary_ms e (mt_type r) 0"
      by (auto simp: does_def record_ok_def terminal_records_def)
    have "completed_of r \<in> set (en_completed s)" using compl r by simp
    with S e have "event_ok C e" "finished (e, mt_type r, mt_reason r)"
      by (auto simp: engine_inv_def events_ok_def completed_of_def)
    from stored_row_end[OF this e(1) refl e(2,3)] e show ?thesis by simp
  qed
  have other: "\<not> seeds C (stored_of r)" if "r \<in> set rs" "r \<notin> set (terminal_records rs)" for r
    using that by (auto simp: terminal_records_def terminal_types_def seeds_def stored_of_def Let_def)
  have eq: "seed_ends C (map stored_of rs) k = ends s k"
  proof (intro set_eqI iffI)
    fix n
    assume "n \<in> seed_ends C (map stored_of rs) k"
    then obtain r where r: "r \<in> set rs" "seeds C (stored_of r)"
      "(sr_strategy (stored_of r), sr_symbol (stored_of r)) = k" "n = row_boundary (stored_of r)"
      by (auto simp: seed_ends_def)
    with other have t: "r \<in> set (terminal_records rs)" by blast
    from row[OF t] r show "n \<in> ends s k"
      using compl t by (force simp: ends_def ended_def completed_of_def)
  next
    fix n
    assume "n \<in> ends s k"
    then obtain r where t: "r \<in> set (terminal_records rs)" "event_key (the (mt_event r)) = k"
      "n = end_of (the (mt_event r)) (mt_type r)"
      using compl assms(3) by (auto simp: ends_def ended_def exits_of_def completed_of_def)
    moreover have "r \<in> set rs" using t(1) by (simp add: terminal_records_def)
    ultimately show "n \<in> seed_ends C (map stored_of rs) k"
      using row[OF t(1)] unfolding seed_ends_def by (intro rev_image_eqI[of "stored_of r"]) auto
  qed
  have zero: "boundary new_engine k = 0" by (simp add: boundary_def new_engine_def)
  note b = boundary_okD[OF conjunct2[OF conjunct2[OF S[THEN conjunct2, unfolded engine_inv_def]]]]
  note m = seeded_boundary[where C = C and rows = "map stored_of rs" and s = new_engine and k = k,
      unfolded eq zero]
  show ?thesis
    unfolding rs_def[symmetric]
  proof (rule antisym)
    show "boundary (seed_reentry_boundaries C (map stored_of rs) new_engine) k \<le> boundary s k"
      using conjunct1[OF m] b(1)[of _ k] b(2)[of k] by auto
    show "boundary s k \<le> boundary (seed_reentry_boundaries C (map stored_of rs) new_engine) k"
      using conjunct2[OF m] b(3)[of k] by blast
  qed
qed

section \<open>A concrete session\<close>

definition demo_engine_config :: engine_config where
  "demo_engine_config =
     \<lparr>ec_prior_closes = [(''AB'', 2)], ec_coverage_ms = - 100000, ec_windows = [(''m30'', 30)],
      ec_clock_ok = (\<lambda>_. True), ec_date = (\<lambda>_. ''d''), ec_identity = tp_trade_id,
      ec_fingerprint = tp_exclusion\<rparr>"

definition demo_print :: "int \<Rightarrow> rat \<Rightarrow> trade_print" where
  "demo_print t price =
     \<lparr>tp_symbol = ''AB'', tp_sip_ms = t, tp_price = price, tp_size = 100, tp_trade_id = show_int t,
      tp_exchange = None, tp_trf_id = None, tp_participant_ms = None, tp_conditions = [],
      tp_eligible = True, tp_exclusion = ''''\<rparr>"

fun demo_session :: "trade_print list \<Rightarrow> paper_engine \<Rightarrow> tape_record list list \<times> paper_engine" where
  "demo_session [] s = ([], s)"
| "demo_session (p # ps) s =
     (case ingest demo_engine_config p True None s of
        (rs, t) \<Rightarrow> (case demo_session ps t of (rss, u) \<Rightarrow> (rs # rss, u)))"

lemma demo_session_run:
  "\<forall>p \<in> set ps. 0 < tp_price p \<Longrightarrow>
   run (engine_step demo_engine_config) s (fst (demo_session ps s)) (snd (demo_session ps s))"
proof (induction ps arbitrary: s)
  case Nil
  then show ?case by (simp add: run_nil)
next
  case (Cons p ps)
  then show ?case
    by (auto intro!: run_Cons[where step = "engine_step demo_engine_config"] at_print
        simp: case_prod_beta)
qed

lemma demo_config_ok: "config_ok demo_engine_config"
  by (simp add: config_ok_def names_plain_def demo_engine_config_def)

text \<open>A detection, its fill and its stop; then a new base and a second detection.\<close>

definition demo_first :: "trade_print list" where
  "demo_first = [demo_print 1 2, demo_print 2 3, demo_print 3 3]"

definition demo_stop :: trade_print where "demo_stop = demo_print 4 (24 / 10)"

definition demo_base :: "trade_print list" where "demo_base = [demo_print 5 2]"

definition demo_again :: trade_print where "demo_again = demo_print 6 3"

abbreviation demo_open :: paper_engine where
  "demo_open \<equiv> snd (demo_session demo_first new_engine)"

abbreviation demo_stopped :: "tape_record list \<times> paper_engine" where
  "demo_stopped \<equiv> ingest demo_engine_config demo_stop True None demo_open"

abbreviation demo_based :: "tape_record list list \<times> paper_engine" where
  "demo_based \<equiv> demo_session demo_base (snd demo_stopped)"

abbreviation demo_second :: "tape_record list \<times> paper_engine" where
  "demo_second \<equiv> ingest demo_engine_config demo_again True None (snd demo_based)"


abbreviation demo_closed :: "tape_record list \<times> paper_engine" where
  "demo_closed \<equiv> close_session 7 (snd demo_stopped)"

text \<open>What the session does, evaluated once.\<close>

definition demo_event :: "paper_engine \<Rightarrow> paper_event" where
  "demo_event s = snd (hd (en_active s))"

lemma demo_facts:
  "map_of (en_active demo_open) ''m30:AB:2'' = Some (demo_event demo_open)
   \<and> pv_exit (demo_event demo_open) = None
   \<and> demo_event (snd demo_stopped) \<in> snd ` set (en_active (snd demo_stopped))
   \<and> pv_exit (demo_event (snd demo_stopped)) = Some demo_stop
   \<and> pv_exit_reason (demo_event (snd demo_stopped)) = ''STOP''
   \<and> map mt_type (fst demo_stopped) = [EXITED, PATH_PRINT]
   \<and> map mt_strategy (fst demo_stopped) = [''m30'', ''m30'']
   \<and> map mt_symbol (fst demo_stopped) = [''AB'', ''AB'']
   \<and> map mt_type (fst demo_second) = [DETECTED, PATH_PRINT]
   \<and> map mt_strategy (fst demo_second) = [''m30'', ''m30'']
   \<and> map mt_symbol (fst demo_second) = [''AB'', ''AB'']
   \<and> map left_at (take 1 (fst demo_stopped)) = [4]
   \<and> en_active (snd demo_closed) = [] \<and> boundary (snd demo_closed) (''m30'', ''AB'') = 4"
  by code_simp

lemma demo_run_open:
  "run (engine_step demo_engine_config) new_engine (fst (demo_session demo_first new_engine)) demo_open"
  by (rule demo_session_run) (simp add: demo_first_def demo_print_def)

lemma demo_step_stop:
  "engine_step demo_engine_config demo_open (fst demo_stopped) (snd demo_stopped)"
  by (rule at_print) (simp_all add: demo_stop_def demo_print_def)

lemmas demo_run_stopped = run_snoc[OF demo_run_open demo_step_stop]

lemma demo_run_based:
  "run (engine_step demo_engine_config) (snd demo_stopped) (fst demo_based) (snd demo_based)"
  by (rule demo_session_run) (simp add: demo_base_def demo_print_def)

lemma demo_step_again:
  "engine_step demo_engine_config (snd demo_based) (fst demo_second) (snd demo_second)"
  by (rule at_print) (simp_all add: demo_again_def demo_print_def)



lemma hd_of_types: "map f xs = y # ys \<Longrightarrow> hd xs \<in> set xs \<and> f (hd xs) = y"
  by (cases xs) auto

lemma reference_after_exit_witness:
  "\<exists>e w. mt_event (hd (fst demo_second)) = Some e \<and> reference_ms e = Some w \<and> 4 < w"
proof -
  note f = demo_facts
  have r: "hd (fst demo_stopped) \<in> set (fst demo_stopped)" "mt_type (hd (fst demo_stopped)) = EXITED"
    "mt_strategy (hd (fst demo_stopped)) = ''m30''" "mt_symbol (hd (fst demo_stopped)) = ''AB''"
    using f by (auto dest!: hd_of_types)
  have q: "hd (fst demo_second) \<in> set (fst demo_second)" "mt_type (hd (fst demo_second)) = DETECTED"
    "mt_strategy (hd (fst demo_second)) = ''m30''" "mt_symbol (hd (fst demo_second)) = ''AB''"
    using f by (auto dest!: hd_of_types)
  have "left_at (hd (fst demo_stopped)) = 4"
    using f by (cases "fst demo_stopped") auto
  with reference_after_exit[OF demo_config_ok demo_run_open demo_step_stop demo_run_based demo_step_again
      r(1) _ q(1,2)] r q show ?thesis by auto
qed

lemma path_print_once_witness:
  "fst (shared_path_record demo_engine_config ''m30'' demo_stop
          (snd (shared_path_record demo_engine_config ''m30'' demo_stop new_engine))) = None"
proof -
  let ?one = "shared_path_record demo_engine_config ''m30'' demo_stop new_engine"
  let ?two = "shared_path_record demo_engine_config ''m30'' demo_stop (snd ?one)"
  have "en_collisions (snd ?one) = 0 \<and> en_collisions new_engine = 0" by code_simp
  with path_print_once[of demo_engine_config "''m30''" demo_stop new_engine "fst ?one" "snd ?one"
      "fst ?two" "snd ?two"] show ?thesis by simp
qed

lemma boundaries_restart_witness:
  "\<exists>rows. boundary (seed_reentry_boundaries demo_engine_config rows new_engine) (''m30'', ''AB'') = 4"
proof -
  have "engine_step demo_engine_config (snd demo_stopped) (fst demo_closed) (snd demo_closed)"
    by (rule at_close[of 7]) simp
  note boundaries_restart[OF demo_config_ok run_snoc[OF demo_run_stopped this], of "(''m30'', ''AB'')"]
  with demo_facts show ?thesis by auto
qed

end
