(* ===== verification/OmsBook.thy ===== *)
theory OmsBook
  imports Orders
begin

text \<open>
  \<open>oms/store.py\<close>: the order management's book of orders, fills, virtual positions (what each
  strategy owns), account positions (what the broker shows) and managed positions, and the parts
  of \<open>oms/service.py\<close> that settle a report and persist a position read. A table is a list or, where
  the schema declares a unique key, a dictionary on that key; instants are microseconds; a JSON
  payload is the metadata of \<open>Orders\<close>.
\<close>

section \<open>Tables\<close>

record broker_account =
  ba_id :: string
  ba_name :: string
  ba_provider :: string
  ba_active :: bool

record broker_order =
  bo_id :: string
  bo_intent :: string
  bo_strategy :: string
  bo_account :: string
  bo_client_id :: string
  bo_broker_id :: "string option"
  bo_symbol :: string
  bo_side :: string
  bo_type :: string
  bo_tif :: string
  bo_quantity :: rat
  bo_status :: string
  bo_payload :: metadata
  bo_submitted :: "int option"
  bo_updated :: int

record fill =
  fl_order :: string
  fl_strategy :: string
  fl_account :: string
  fl_broker_id :: "string option"
  fl_symbol :: string
  fl_side :: string
  fl_quantity :: rat
  fl_price :: rat
  fl_at :: int

record holding =
  hd_quantity :: rat
  hd_average :: rat

record virtual_position = holding +
  vp_realized :: rat
  vp_opened :: "int option"
  vp_updated :: "int option"

record account_position = holding +
  ap_market :: "rat option"
  ap_source_at :: "int option"

record managed_position =
  mg_id :: string
  mg_strategy :: string
  mg_account_name :: string
  mg_symbol :: string
  mg_entry_order :: "string option"
  mg_entry_client_id :: "string option"
  mg_entry_price :: rat
  mg_original :: int
  mg_current :: int
  mg_path :: string
  mg_entry_time :: int
  mg_peak :: rat
  mg_profit :: rat
  mg_tier :: int
  mg_floor_pct :: "rat option"
  mg_floor_price :: "rat option"
  mg_scales :: "string list"
  mg_scale_pnl :: rat
  mg_open :: bool

record ineligible =
  in_first_seen :: int
  in_reason :: string
  in_hits :: int

type_synonym virtual_key = "string \<times> string \<times> string"

record oms_book =
  ob_accounts :: "broker_account list"
  ob_strategies :: "(string, string) dict"
  ob_orders :: "broker_order list"
  ob_fills :: "fill list"
  ob_events :: "(string \<times> string \<times> string) list"
  ob_virtual :: "(virtual_key, virtual_position) dict"
  ob_positions :: "(string \<times> string, account_position) dict"
  ob_managed :: "managed_position list"
  ob_ineligible :: "(string \<times> string \<times> string, ineligible) dict"
  ob_rotation :: nat

text \<open>The execution report with the fields the book reads.\<close>

record broker_report = execution_report +
  br_broker_id :: "string option"
  br_fill_id :: "string option"
  br_filled :: rat
  br_price :: "rat option"
  br_reason :: string
  br_metadata :: metadata
  br_at :: int

text \<open>A numeric column rounds what is written to its scale, halves away from zero.\<close>

definition round_half_away :: "rat \<Rightarrow> int" where
  "round_half_away x = (if x \<ge> 0 then \<lfloor>x + 1 / 2\<rfloor> else \<lceil>x - 1 / 2\<rceil>)"

definition numeric_col :: "nat \<Rightarrow> rat \<Rightarrow> rat" where
  "numeric_col digits x = of_int (round_half_away (x * 10 ^ digits)) / 10 ^ digits"

definition OPEN_ORDER_STATUSES :: "string list" where
  "OPEN_ORDER_STATUSES = [''pending'', ''submitted'', ''accepted'', ''partially_filled'']"

definition INTENT_REFUSAL_ORIGINS :: "string list" where
  "INTENT_REFUSAL_ORIGINS =
     [''client_abort'', ''broker_reject'', ''skipped_before_submit'', ''could_not_tell'']"

definition TERMINAL_CANCEL_REFUSAL_REASONS :: "string list" where
  "TERMINAL_CANCEL_REFUSAL_REASONS =
     [''ORDER IN STATE CANCELED CANNOT BE CANCELED'', ''ORDER IN STATE FILLED CANNOT BE CANCELED'']"

definition DISPATCH_BINDING_KEYS :: "string list" where
  "DISPATCH_BINDING_KEYS = [''clearwait_dispatch_token'', ''fanout_segment_id'']"

definition order_open :: "broker_order \<Rightarrow> bool" where
  "order_open o' \<longleftrightarrow> bo_status o' \<in> set OPEN_ORDER_STATUSES"

section \<open>Open orders\<close>

text \<open>\<open>order_by(desc(updated_at))\<close>, rows of one instant in table order.\<close>

definition newest_first :: "broker_order list \<Rightarrow> broker_order list" where
  "newest_first = sort_key (\<lambda>o'. - bo_updated o')"

definition list_open_orders :: "string list \<Rightarrow> oms_book \<Rightarrow> broker_order list" where
  "list_open_orders accounts b =
     newest_first (filter (\<lambda>o'. order_open o' \<and> (accounts = [] \<or> bo_account o' \<in> set accounts))
       (ob_orders b))"

definition list_open_orders_for_sync ::
  "string list \<Rightarrow> oms_book \<Rightarrow> broker_order list \<times> oms_book" where
  "list_open_orders_for_sync accounts b =
     (let orders = list_open_orders accounts b
      in if length orders < 2 then (orders, b)
         else let offset = ob_rotation b mod length orders
              in (drop offset orders @ take offset orders,
                  b\<lparr>ob_rotation := (offset + 1) mod length orders\<rparr>))"

text \<open>\<open>str(payload.get(key, "")).strip().lower() == "true"\<close> for the texts the program writes.\<close>

definition meta_is :: "metadata \<Rightarrow> string \<Rightarrow> string \<Rightarrow> bool" where
  "meta_is m k v \<longleftrightarrow> map_of m k = Some (MText v)"

definition meta_text :: "metadata \<Rightarrow> string \<Rightarrow> string option" where
  "meta_text m k = (case map_of m k of Some (MText t) \<Rightarrow> Some t | _ \<Rightarrow> None)"

definition open_exits :: "bool \<Rightarrow> string \<Rightarrow> string \<Rightarrow> oms_book \<Rightarrow> broker_order list" where
  "open_exits include_guard account symbol b =
     filter (\<lambda>o'. bo_account o' = account \<and> bo_symbol o' = symbol \<and> bo_side o' = ''sell''
                 \<and> order_open o'
                 \<and> (include_guard \<or> \<not> meta_is (bo_payload o') ''native_stop_guard'' ''true''))
       (ob_orders b)"

definition get_open_exit_reserved_quantity :: "bool \<Rightarrow> string \<Rightarrow> string \<Rightarrow> oms_book \<Rightarrow> rat" where
  "get_open_exit_reserved_quantity include_guard account symbol b =
     sum_list (map bo_quantity (open_exits include_guard account symbol b))"

definition find_open_exit_order ::
  "bool \<Rightarrow> string \<Rightarrow> string \<Rightarrow> string \<Rightarrow> oms_book \<Rightarrow> broker_order option" where
  "find_open_exit_order include_guard strategy account symbol b =
     List.find (\<lambda>o'. bo_strategy o' = strategy) (newest_first (open_exits include_guard account symbol b))"

definition find_open_native_stop_guard_order ::
  "string \<Rightarrow> string \<Rightarrow> string \<Rightarrow> oms_book \<Rightarrow> broker_order option" where
  "find_open_native_stop_guard_order strategy account symbol b =
     List.find (\<lambda>o'. bo_strategy o' = strategy \<and> meta_is (bo_payload o') ''native_stop_guard'' ''true'')
       (newest_first (open_exits True account symbol b))"

section \<open>Order rows\<close>

definition account_of :: "string \<Rightarrow> oms_book \<Rightarrow> broker_account option" where
  "account_of i b = List.find (\<lambda>a. ba_id a = i) (ob_accounts b)"

definition order_of :: "string \<Rightarrow> oms_book \<Rightarrow> broker_order option" where
  "order_of i b = List.find (\<lambda>o'. bo_id o' = i) (ob_orders b)"

definition put_order :: "broker_order \<Rightarrow> oms_book \<Rightarrow> oms_book" where
  "put_order o' b = b\<lparr>ob_orders := map (\<lambda>x. if bo_id x = bo_id o' then o' else x) (ob_orders b)\<rparr>"

text \<open>\<open>onupdate=utcnow\<close>: a row that was changed is stamped when it is written.\<close>

definition touched :: "int \<Rightarrow> broker_order \<Rightarrow> broker_order \<Rightarrow> broker_order" where
  "touched now old new = (if new = old then old else new\<lparr>bo_updated := now\<rparr>)"

text \<open>\<open>replace_broker_order_payload\<close> of \<open>fanout_identity.py\<close>.\<close>

fun keep_bindings :: "string list \<Rightarrow> metadata \<Rightarrow> metadata \<Rightarrow> metadata" where
  "keep_bindings [] previous payload = payload"
| "keep_bindings (k # ks) previous payload =
     keep_bindings ks previous
       (case map_of previous k of
          Some v \<Rightarrow> AList.update k v payload
        | None \<Rightarrow> AList.delete k payload)"

definition replace_broker_order_payload :: "metadata \<Rightarrow> metadata \<Rightarrow> metadata" where
  "replace_broker_order_payload previous metadata = keep_bindings DISPATCH_BINDING_KEYS previous metadata"

text \<open>
  \<open>immutable_report_id\<close> of \<open>oms/webull_order_identity.py\<close>: the identity an order keeps. The incident
  it writes for a conflict is left out.
\<close>

definition truthy :: "string option \<Rightarrow> bool" where
  "truthy s \<longleftrightarrow> s \<noteq> None \<and> s \<noteq> Some ''''"

definition immutable_report_id :: "broker_order \<Rightarrow> string option \<Rightarrow> oms_book \<Rightarrow> string option" where
  "immutable_report_id o' incoming b =
     (if \<not> truthy incoming \<or> \<not> truthy (bo_broker_id o') \<or> incoming = bo_broker_id o'
      then (if truthy incoming then incoming else bo_broker_id o')
      else case account_of (bo_account o') b of
             Some a \<Rightarrow> if ba_provider a = ''webull'' then bo_broker_id o' else incoming
           | None \<Rightarrow> incoming)"

definition with_reason :: "string option \<Rightarrow> metadata \<Rightarrow> metadata" where
  "with_reason reason m =
     (if truthy reason then AList.update ''reject_reason'' (MText (the reason)) m else m)"

record new_order =
  no_id :: string
  no_intent :: string
  no_strategy :: string
  no_account :: string
  no_client_id :: string
  no_symbol :: string
  no_side :: string
  no_quantity :: rat
  no_metadata :: metadata
  no_broker_id :: "string option"
  no_status :: string
  no_type :: string
  no_tif :: string
  no_reject_reason :: "string option"

definition order_row :: "int \<Rightarrow> new_order \<Rightarrow> broker_order" where
  "order_row now n =
     \<lparr>bo_id = no_id n, bo_intent = no_intent n, bo_strategy = no_strategy n, bo_account = no_account n,
      bo_client_id = no_client_id n, bo_broker_id = no_broker_id n, bo_symbol = no_symbol n,
      bo_side = no_side n, bo_type = no_type n, bo_tif = no_tif n, bo_quantity = no_quantity n,
      bo_status = no_status n, bo_payload = with_reason (no_reject_reason n) (no_metadata n),
      bo_submitted = Some now, bo_updated = now\<rparr>"

definition get_or_create_order :: "int \<Rightarrow> new_order \<Rightarrow> oms_book \<Rightarrow> broker_order \<times> oms_book" where
  "get_or_create_order now n b =
     (case List.find (\<lambda>o'. bo_client_id o' = no_client_id n) (ob_orders b) of
        None \<Rightarrow> (order_row now n, b\<lparr>ob_orders := ob_orders b @ [order_row now n]\<rparr>)
      | Some o' \<Rightarrow>
          let o1 = o'\<lparr>bo_status := no_status n,
                      bo_broker_id := immutable_report_id o' (no_broker_id n) b,
                      bo_payload := replace_broker_order_payload (bo_payload o')
                        (with_reason (no_reject_reason n) (no_metadata n)),
                      bo_submitted := (case bo_submitted o' of None \<Rightarrow> Some now | Some t \<Rightarrow> Some t)\<rparr>
          in (touched now o' o1, put_order (touched now o' o1) b))"

definition update_order_from_report ::
  "int \<Rightarrow> broker_report \<Rightarrow> metadata \<Rightarrow> bool \<Rightarrow> broker_order \<Rightarrow> oms_book \<Rightarrow> broker_order \<times> oms_book" where
  "update_order_from_report now r metadata preserve_status o' b =
     (let o1 = o'\<lparr>bo_status := (if preserve_status then bo_status o' else er_event r),
                  bo_broker_id := immutable_report_id o' (br_broker_id r) b,
                  bo_payload := replace_broker_order_payload (bo_payload o')
                    (with_reason (if er_event r = ''rejected'' then Some (br_reason r) else None) metadata),
                  bo_submitted := (case bo_submitted o' of None \<Rightarrow> Some (br_at r) | Some t \<Rightarrow> Some t)\<rparr>
      in (touched now o' o1, put_order (touched now o' o1) b))"

text \<open>The target of a cancel request: by identity when it names one, else the newest open order.\<close>

definition cancellable :: "string \<Rightarrow> string \<Rightarrow> string \<Rightarrow> metadata \<Rightarrow> broker_order \<Rightarrow> bool" where
  "cancellable strategy account symbol m o' \<longleftrightarrow>
     bo_strategy o' = strategy \<and> bo_account o' = account \<and> bo_symbol o' = symbol
     \<and> (meta_is m ''clearwait_buy_only'' ''true'' \<longrightarrow>
          bo_side o' = ''buy''
          \<and> (truthy (meta_text m ''fanout_segment_id'') \<longrightarrow>
               meta_text (bo_payload o') ''fanout_segment_id'' = meta_text m ''fanout_segment_id''))
     \<and> order_open o'"

definition first_some :: "'a option list \<Rightarrow> 'a option" where
  "first_some xs = (case filter (\<lambda>x. x \<noteq> None) xs of [] \<Rightarrow> None | x # _ \<Rightarrow> x)"

definition named_target ::
  "(broker_order \<Rightarrow> string option) \<Rightarrow> string option \<Rightarrow> (broker_order \<Rightarrow> bool) \<Rightarrow> oms_book
   \<Rightarrow> broker_order option" where
  "named_target field name ok b =
     (if \<not> truthy name then None
      else case List.find (\<lambda>o'. field o' = name) (ob_orders b) of
             None \<Rightarrow> None
           | Some o' \<Rightarrow> (if ok o' then Some o' else None))"

definition find_open_order_for_cancel ::
  "string \<Rightarrow> string \<Rightarrow> string \<Rightarrow> metadata \<Rightarrow> oms_book \<Rightarrow> broker_order option" where
  "find_open_order_for_cancel strategy account symbol m b =
     (let ok = cancellable strategy account symbol m;
          target = (if truthy (meta_text m ''target_client_order_id'')
                    then meta_text m ''target_client_order_id'' else meta_text m ''client_order_id'')
      in first_some
           [named_target (\<lambda>o'. Some (bo_client_id o')) target ok b,
            named_target bo_broker_id (meta_text m ''broker_order_id'') ok b,
            List.find ok (newest_first (ob_orders b))])"

definition collapse_spaces :: "string \<Rightarrow> string" where
  "collapse_spaces s =
     (let ws = filter (\<lambda>w. w \<noteq> []) (foldr (\<lambda>c acc. if c = CHR '' '' then [] # acc
                                       else (c # hd acc) # tl acc) s [[]])
      in case ws of [] \<Rightarrow> [] | w # rest \<Rightarrow> w @ concat (map (\<lambda>v. CHR '' '' # v) rest))"

definition count_terminal_cancel_refusals :: "string \<Rightarrow> oms_book \<Rightarrow> nat" where
  "count_terminal_cancel_refusals order_id b =
     length (filter (\<lambda>(i, ty, reason). i = order_id \<and> ty = ''rejected''
                        \<and> collapse_spaces (py_upper reason) \<in> set TERMINAL_CANCEL_REFUSAL_REASONS)
               (ob_events b))"

definition append_order_event :: "broker_order \<Rightarrow> broker_report \<Rightarrow> oms_book \<Rightarrow> oms_book" where
  "append_order_event o' r b = b\<lparr>ob_events := ob_events b @ [(bo_id o', er_event r, br_reason r)]\<rparr>"

section \<open>Fills\<close>

definition already_recorded :: "string \<Rightarrow> oms_book \<Rightarrow> rat" where
  "already_recorded order_id b =
     sum_list (map fl_quantity (filter (\<lambda>f. fl_order f = order_id) (ob_fills b)))"

text \<open>
  A report that can carry an execution: a fill, or a terminal status of Webull that names itself as
  one with a partial fill.
\<close>

definition carries_fill :: "string \<Rightarrow> broker_report \<Rightarrow> oms_book \<Rightarrow> bool" where
  "carries_fill account r b \<longleftrightarrow>
     er_event r \<in> {''filled'', ''partially_filled''}
     \<or> er_event r \<in> {''cancelled'', ''rejected''} \<and> er_origin r = ''broker''
       \<and> meta_is (br_metadata r) ''webull_terminal_with_partial_fill'' (er_event r)
       \<and> (case account_of account b of None \<Rightarrow> False | Some a \<Rightarrow> ba_provider a = ''webull'')"

definition record_fill_if_needed ::
  "broker_order \<Rightarrow> string \<Rightarrow> string \<Rightarrow> broker_report \<Rightarrow> oms_book \<Rightarrow> fill option \<times> oms_book" where
  "record_fill_if_needed o' strategy account r b =
     (if \<not> carries_fill account r b then (None, b)
      else case br_price r of
        None \<Rightarrow> (None, b)
      | Some price \<Rightarrow>
          if br_filled r \<le> 0
             \<or> truthy (br_fill_id r) \<and> list_ex (\<lambda>f. fl_broker_id f = br_fill_id r) (ob_fills b)
          then (None, b)
          else let n = br_filled r - already_recorded (bo_id o') b
               in if n \<le> 0 then (None, b)
                  else let f = \<lparr>fl_order = bo_id o', fl_strategy = strategy, fl_account = account,
                                fl_broker_id = br_fill_id r, fl_symbol = bo_symbol o',
                                fl_side = bo_side o', fl_quantity = n, fl_price = price, fl_at = br_at r\<rparr>
                       in (Some f, b\<lparr>ob_fills := ob_fills b @ [f]\<rparr>))"

text \<open>\<open>_apply_position_fill\<close>: the part both kinds of position share, then each kind's own fields.\<close>

definition sold_of :: "rat \<Rightarrow> 'a holding_scheme \<Rightarrow> rat" where
  "sold_of q h = min (hd_quantity h) q"

definition fill_holding :: "string \<Rightarrow> rat \<Rightarrow> rat \<Rightarrow> 'a holding_scheme \<Rightarrow> 'a holding_scheme" where
  "fill_holding side q p h =
     (if side = ''buy''
      then let n = hd_quantity h + q
           in h\<lparr>hd_average := (if n > 0 then (hd_average h * hd_quantity h + p * q) / n else hd_average h),
                hd_quantity := n\<rparr>
      else let left = hd_quantity h - sold_of q h
           in if left \<le> 0 then h\<lparr>hd_quantity := 0, hd_average := 0\<rparr> else h\<lparr>hd_quantity := left\<rparr>)"

definition fill_virtual :: "string \<Rightarrow> rat \<Rightarrow> rat \<Rightarrow> int \<Rightarrow> virtual_position \<Rightarrow> virtual_position" where
  "fill_virtual side q p ts v =
     (if side = ''buy''
      then (fill_holding side q p v)
             \<lparr>vp_opened := (case vp_opened v of None \<Rightarrow> Some ts | Some t \<Rightarrow> Some t)\<rparr>
      else (fill_holding side q p v)
             \<lparr>vp_realized := (if sold_of q v > 0 then vp_realized v + (p - hd_average v) * sold_of q v
                             else vp_realized v),
              vp_opened := (if hd_quantity v - sold_of q v \<le> 0 then None else vp_opened v)\<rparr>)"

definition fill_account :: "string \<Rightarrow> rat \<Rightarrow> rat \<Rightarrow> int \<Rightarrow> account_position \<Rightarrow> account_position" where
  "fill_account side q p ts a = (fill_holding side q p a)\<lparr>ap_source_at := Some ts\<rparr>"

definition no_virtual :: "int \<Rightarrow> virtual_position" where
  "no_virtual now = \<lparr>hd_quantity = 0, hd_average = 0, vp_realized = 0, vp_opened = None, vp_updated = Some now\<rparr>"

definition no_account :: account_position where
  "no_account = \<lparr>hd_quantity = 0, hd_average = 0, ap_market = None, ap_source_at = None\<rparr>"

definition virtual_or_new :: "int \<Rightarrow> virtual_key \<Rightarrow> oms_book \<Rightarrow> virtual_position" where
  "virtual_or_new now k b = (case map_of (ob_virtual b) k of None \<Rightarrow> no_virtual now | Some v \<Rightarrow> v)"

definition account_or_new :: "string \<times> string \<Rightarrow> oms_book \<Rightarrow> account_position" where
  "account_or_new k b = (case map_of (ob_positions b) k of None \<Rightarrow> no_account | Some a \<Rightarrow> a)"

definition vp_touched :: "int \<Rightarrow> virtual_position \<Rightarrow> virtual_position \<Rightarrow> virtual_position" where
  "vp_touched now old new = (if new = old then old else new\<lparr>vp_updated := Some now\<rparr>)"

definition apply_fill_to_positions ::
  "int \<Rightarrow> virtual_key \<Rightarrow> string \<Rightarrow> rat \<Rightarrow> rat \<Rightarrow> int \<Rightarrow> oms_book \<Rightarrow> oms_book" where
  "apply_fill_to_positions now k side q p ts b =
     (case k of (strategy, account, symbol) \<Rightarrow>
        let v = virtual_or_new now k b; a = account_or_new (account, symbol) b
        in b\<lparr>ob_virtual := AList.update k (vp_touched now v (fill_virtual side q p ts v)) (ob_virtual b),
             ob_positions := AList.update (account, symbol) (fill_account side q p ts a) (ob_positions b)\<rparr>)"

section \<open>Intents\<close>

record intent =
  it_status :: string
  it_payload :: metadata

definition mark_intent_status :: "string \<Rightarrow> intent \<Rightarrow> intent" where
  "mark_intent_status status i = i\<lparr>it_status := status\<rparr>"

text \<open>The origins and codes the program passes carry no surrounding blanks.\<close>

definition mark_intent_refused :: "string \<Rightarrow> string \<Rightarrow> intent \<Rightarrow> intent result" where
  "mark_intent_refused origin code i =
     (if origin \<notin> set INTENT_REFUSAL_ORIGINS then Inl (ValueError ''unsupported intent refusal origin'')
      else Inr (i\<lparr>it_payload :=
                   AList.update ''refusal_code''
                     (MText (if code = '''' then ''UNSPECIFIED_REFUSAL'' else code))
                     (AList.update ''refusal_origin'' (MText origin) (it_payload i)),
                 it_status := ''rejected''\<rparr>))"

definition refusal_origin :: "string \<Rightarrow> string" where
  "refusal_origin origin =
     (if origin = ''client'' then ''client_abort''
      else if origin = ''broker'' then ''broker_reject'' else ''could_not_tell'')"

definition mark_intent_from_report :: "broker_report \<Rightarrow> string option \<Rightarrow> intent \<Rightarrow> intent result" where
  "mark_intent_from_report r status i =
     (let resolved = (if truthy status then the status
                      else if er_event r = ''accepted'' then ''submitted'' else er_event r)
      in if resolved \<noteq> ''rejected'' then Inr (mark_intent_status resolved i)
         else mark_intent_refused (refusal_origin (er_origin r))
                (if br_reason r = '''' then ''UNSPECIFIED_BROKER_REPORT_REJECTION'' else br_reason r) i)"

section \<open>Reads of the broker's positions\<close>

record position_snapshot =
  ps_symbol :: string
  ps_quantity :: rat
  ps_average :: rat
  ps_market :: "rat option"
  ps_as_of :: int

definition of_snapshot :: "position_snapshot \<Rightarrow> account_position" where
  "of_snapshot p =
     \<lparr>hd_quantity = ps_quantity p, hd_average = ps_average p, ap_market = ps_market p,
      ap_source_at = Some (ps_as_of p)\<rparr>"

text \<open>
  Each snapshot overwrites its row. A second snapshot of a symbol that had no row before the read
  violates the unique key of the table.
\<close>

fun write_snapshots ::
  "string \<Rightarrow> string list \<Rightarrow> position_snapshot list \<Rightarrow> (string \<times> string, account_position) dict
   \<Rightarrow> (string \<times> string, account_position) dict result" where
  "write_snapshots account known [] d = Inr d"
| "write_snapshots account known (p # ps) d =
     (if ps_symbol p \<notin> set known \<and> map_of d (account, ps_symbol p) \<noteq> None
      then Inl (OtherError ''IntegrityError'')
      else write_snapshots account known ps (AList.update (account, ps_symbol p) (of_snapshot p) d))"

definition zeroed_position :: "int \<Rightarrow> account_position \<Rightarrow> account_position" where
  "zeroed_position now a =
     a\<lparr>hd_quantity := 0, hd_average := 0, ap_market := Some 0, ap_source_at := Some now\<rparr>"

definition zero_unseen ::
  "int \<Rightarrow> string \<Rightarrow> string list \<Rightarrow> string list \<Rightarrow> (string \<times> string, account_position) dict
   \<Rightarrow> (string \<times> string, account_position) dict" where
  "zero_unseen now account known seen =
     map (\<lambda>((i, y), a). ((i, y), if i = account \<and> y \<in> set known \<and> y \<notin> set seen
                                 then zeroed_position now a else a))"

definition symbols_of :: "string \<Rightarrow> oms_book \<Rightarrow> string list" where
  "symbols_of account b = map (snd \<circ> fst) (filter (\<lambda>p. fst (fst p) = account) (ob_positions b))"

definition sync_account_positions ::
  "int \<Rightarrow> string \<Rightarrow> position_snapshot list \<Rightarrow> oms_book \<Rightarrow> (int \<times> oms_book) result" where
  "sync_account_positions now account ps b =
     (let known = symbols_of account b
      in case write_snapshots account known ps (ob_positions b) of
           Inl e \<Rightarrow> Inl e
         | Inr d \<Rightarrow> Inr (int (length ps),
                         b\<lparr>ob_positions := zero_unseen now account known (map ps_symbol ps) d\<rparr>))"

text \<open>The quantity the broker is known to show.\<close>

definition backing :: "oms_book \<Rightarrow> string \<Rightarrow> string \<Rightarrow> rat" where
  "backing b account symbol =
     (case map_of (ob_positions b) (account, symbol) of None \<Rightarrow> 0 | Some a \<Rightarrow> hd_quantity a)"

text \<open>
  \<open>retain_owned_routed_position\<close> of \<open>oms/orb_country.py\<close>: the latest buy was routed by country.
  A descending order puts the rows without a submission first.
\<close>

definition latest_buy :: "string \<Rightarrow> string \<Rightarrow> string \<Rightarrow> oms_book \<Rightarrow> broker_order option" where
  "latest_buy strategy account symbol b =
     (let buys = rev (sort_key bo_id
                   (filter (\<lambda>o'. bo_strategy o' = strategy \<and> bo_account o' = account
                                \<and> bo_symbol o' = symbol \<and> bo_side o' = ''buy'') (ob_orders b)))
      in case filter (\<lambda>o'. bo_submitted o' = None) buys
              @ sort_key (\<lambda>o'. - the (bo_submitted o')) (filter (\<lambda>o'. bo_submitted o' \<noteq> None) buys) of
           [] \<Rightarrow> None
         | o' # _ \<Rightarrow> Some o')"

definition retain_owned_routed_position :: "virtual_key \<Rightarrow> oms_book \<Rightarrow> bool" where
  "retain_owned_routed_position k b =
     (case k of (strategy, account, symbol) \<Rightarrow>
        (case latest_buy strategy account symbol b of
           None \<Rightarrow> False
         | Some o' \<Rightarrow> meta_is (bo_payload o') ''orb_country_route'' ''true''))"

text \<open>What \<open>clear_virtual_positions_without_account_backing\<close> does with one positive row.\<close>

datatype clear_verdict = Skipped | Backed | Deferred rat | Momentum | Retained | Cleared

definition row_age :: "int \<Rightarrow> virtual_position \<Rightarrow> rat" where
  "row_age now v =
     (case vp_updated v of None \<Rightarrow> 0 | Some t \<Rightarrow> max 0 (of_int (now - t) / 1000000))"

definition clear_verdict ::
  "string list \<Rightarrow> rat \<Rightarrow> int \<Rightarrow> oms_book \<Rightarrow> virtual_key \<Rightarrow> virtual_position \<Rightarrow> clear_verdict" where
  "clear_verdict accounts min_age now b k v =
     (case k of (strategy, account, symbol) \<Rightarrow>
        (case map_of (ob_strategies b) strategy of
           None \<Rightarrow> Skipped
         | Some code \<Rightarrow>
             if \<not> hd_quantity v > 0 \<or> accounts \<noteq> [] \<and> account \<notin> set accounts then Skipped
             else if backing b account symbol > 0 then Backed
             else if max 0 min_age > 0 \<and> row_age now v < max 0 min_age
             then Deferred (if vp_updated v = None then - 1 else row_age now v)
             else if code = ''momentum_warn_live'' then Momentum
             else if code = ''orb_schwab'' \<and> retain_owned_routed_position k b then Retained
             else Cleared))"

definition cleared_row :: "int \<Rightarrow> virtual_position \<Rightarrow> virtual_position" where
  "cleared_row now v = v\<lparr>hd_quantity := 0, hd_average := 0, vp_opened := None, vp_updated := Some now\<rparr>"

definition clear_virtual_positions_without_account_backing ::
  "string list \<Rightarrow> rat \<Rightarrow> int \<Rightarrow> oms_book \<Rightarrow> (virtual_key \<times> rat) list \<times> oms_book" where
  "clear_virtual_positions_without_account_backing accounts min_age now b =
     (let hit = (\<lambda>p. clear_verdict accounts min_age now b (fst p) (snd p) = Cleared)
      in (map (\<lambda>p. (fst p, hd_quantity (snd p))) (filter hit (ob_virtual b)),
          b\<lparr>ob_virtual := map (\<lambda>p. (fst p, if hit p then cleared_row now (snd p) else snd p))
                            (ob_virtual b)\<rparr>))"

section \<open>Restoring from the managed positions\<close>

definition account_named :: "string \<Rightarrow> oms_book \<Rightarrow> broker_account option" where
  "account_named name b = List.find (\<lambda>a. ba_name a = name) (rev (ob_accounts b))"

definition owned_key :: "managed_position \<Rightarrow> broker_account \<Rightarrow> oms_book \<Rightarrow> virtual_key option" where
  "owned_key m a b =
     (case List.find (\<lambda>p. snd p = mg_strategy m) (ob_strategies b) of
        None \<Rightarrow> None
      | Some (strategy, _) \<Rightarrow> Some (strategy, ba_id a, py_upper (mg_symbol m)))"

definition restorable ::
  "string list \<Rightarrow> managed_position \<Rightarrow> oms_book \<Rightarrow> (virtual_key \<times> virtual_position) option" where
  "restorable accounts m b =
     (case account_named (mg_account_name m) b of
        None \<Rightarrow> None
      | Some a \<Rightarrow>
          if accounts \<noteq> [] \<and> ba_id a \<notin> set accounts \<or> mg_symbol m = '''' \<or> mg_current m \<le> 0 then None
          else case owned_key m a b of
            None \<Rightarrow> None
          | Some k \<Rightarrow>
              (case map_of (ob_virtual b) k of
                 None \<Rightarrow> None
               | Some v \<Rightarrow>
                   if hd_quantity v > 0 \<or> backing b (ba_id a) (py_upper (mg_symbol m)) < of_int (mg_current m)
                   then None else Some (k, v)))"

definition restored_row :: "int \<Rightarrow> managed_position \<Rightarrow> virtual_position \<Rightarrow> virtual_position" where
  "restored_row now m v =
     v\<lparr>hd_quantity := of_int (mg_current m),
       hd_average := (if mg_entry_price m > 0 then mg_entry_price m else hd_average v),
       vp_updated := Some now\<rparr>"

fun restore_managed_rows ::
  "string list \<Rightarrow> int \<Rightarrow> managed_position list \<Rightarrow> oms_book \<Rightarrow> (virtual_key \<times> rat) list \<times> oms_book" where
  "restore_managed_rows accounts now [] b = ([], b)"
| "restore_managed_rows accounts now (m # ms) b =
     (case (if mg_open m then restorable accounts m b else None) of
        None \<Rightarrow> restore_managed_rows accounts now ms b
      | Some (k, v) \<Rightarrow>
          (case restore_managed_rows accounts now ms
                  (b\<lparr>ob_virtual := AList.update k (restored_row now m v) (ob_virtual b)\<rparr>) of
             (rs, b1) \<Rightarrow> ((k, of_int (mg_current m)) # rs, b1)))"

definition restore_virtual_positions_from_managed ::
  "string list \<Rightarrow> int \<Rightarrow> oms_book \<Rightarrow> (virtual_key \<times> rat) list \<times> oms_book" where
  "restore_virtual_positions_from_managed accounts now b = restore_managed_rows accounts now (ob_managed b) b"

text \<open>
  \<open>_persist\<close> of \<open>sync_broker_positions\<close>: the reads that succeeded are written, then unbacked rows
  are cleared and owned rows restored. Nothing is kept when a write raises.
\<close>

fun sync_fetched ::
  "int \<Rightarrow> (string \<times> position_snapshot list) list \<Rightarrow> oms_book \<Rightarrow> (int \<times> oms_book) result" where
  "sync_fetched now [] b = Inr (0, b)"
| "sync_fetched now ((account, ps) # rest) b =
     (case sync_account_positions now account ps b of
        Inl e \<Rightarrow> Inl e
      | Inr (n, b1) \<Rightarrow> (case sync_fetched now rest b1 of
                          Inl e \<Rightarrow> Inl e
                        | Inr (m, b2) \<Rightarrow> Inr (n + m, b2)))"

definition persist_positions ::
  "rat \<Rightarrow> int \<Rightarrow> (string \<times> position_snapshot list) list \<Rightarrow> oms_book \<Rightarrow> (int \<times> oms_book) result" where
  "persist_positions min_age now fetched b =
     (case sync_fetched now fetched b of
        Inl e \<Rightarrow> Inl e
      | Inr (n, b1) \<Rightarrow>
          let accounts = map fst fetched;
              b2 = snd (clear_virtual_positions_without_account_backing accounts (max 0 min_age) now b1)
          in Inr (n, snd (restore_virtual_positions_from_managed accounts now b2)))"

end
