(* ===== verification/OmsManaged.thy ===== *)
theory OmsManaged
  imports OmsBook ExitLogic
begin

text \<open>
  The managed positions of \<open>oms/store.py\<close>, written only by the order management: the exit ladder's
  state between two quotes and across restarts. With them the settlement of an execution report
  as \<open>sync_broker_orders\<close> of \<open>oms/service.py\<close> performs it on the book: fill, order row, positions,
  managed row. The numeric columns round to their scale, halves away from zero.
\<close>

section \<open>Managed rows\<close>

definition is_open_managed :: "string \<Rightarrow> string \<Rightarrow> managed_position \<Rightarrow> bool" where
  "is_open_managed account symbol m \<longleftrightarrow>
     mg_account_name m = account \<and> mg_symbol m = symbol \<and> mg_open m"

text \<open>Newest row first; the table keeps at most one open row per account and symbol.\<close>

definition get_open_managed_position :: "string \<Rightarrow> string \<Rightarrow> oms_book \<Rightarrow> managed_position option" where
  "get_open_managed_position account symbol b =
     List.find (is_open_managed account symbol) (rev (ob_managed b))"

definition put_managed :: "managed_position \<Rightarrow> oms_book \<Rightarrow> oms_book" where
  "put_managed m b =
     b\<lparr>ob_managed := map (\<lambda>x. if mg_id x = mg_id m then m else x) (ob_managed b)\<rparr>"

record entry_of_fill =
  ef_row_id :: string
  ef_strategy :: string
  ef_account_name :: string
  ef_symbol :: string
  ef_path :: string
  ef_order :: "string option"
  ef_client_id :: string
  ef_now :: int

definition new_managed :: "entry_of_fill \<Rightarrow> rat \<Rightarrow> int \<Rightarrow> managed_position" where
  "new_managed e price quantity =
     \<lparr>mg_id = ef_row_id e, mg_strategy = ef_strategy e, mg_account_name = ef_account_name e,
      mg_symbol = ef_symbol e, mg_entry_order = ef_order e,
      mg_entry_client_id = (if ef_client_id e = '''' then None else Some (ef_client_id e)),
      mg_entry_price = numeric_col 8 price, mg_original = quantity, mg_current = quantity,
      mg_path = ef_path e, mg_entry_time = ef_now e, mg_peak = 0, mg_profit = 0, mg_tier = 1,
      mg_floor_pct = None, mg_floor_price = None, mg_scales = [], mg_scale_pnl = 0, mg_open = True\<rparr>"

definition create_managed_position :: "entry_of_fill \<Rightarrow> rat \<Rightarrow> int \<Rightarrow> oms_book \<Rightarrow> oms_book result" where
  "create_managed_position e price quantity b =
     (if list_ex (is_open_managed (ef_account_name e) (ef_symbol e)) (ob_managed b)
      then Inl (OtherError ''IntegrityError'')
      else Inr (b\<lparr>ob_managed := ob_managed b @ [new_managed e price quantity]\<rparr>))"

definition update_managed_from_position :: "bool \<Rightarrow> position \<Rightarrow> managed_position \<Rightarrow> managed_position" where
  "update_managed_from_position write_quantity p m =
     m\<lparr>mg_current := (if write_quantity then p_quantity p else mg_current m),
       mg_peak := numeric_col 6 (p_peak_profit_pct p),
       mg_profit := numeric_col 6 (p_current_profit_pct p),
       mg_tier := p_tier p,
       mg_floor_pct := (if p_floor_pct p \<le> -999 then None else Some (numeric_col 6 (p_floor_pct p))),
       mg_floor_price := (if p_floor_price p \<le> 0 then None else Some (numeric_col 8 (p_floor_price p))),
       mg_scales := p_scales_done p,
       mg_scale_pnl := numeric_col 8 (p_scale_pnl p)\<rparr>"

definition close_managed :: "managed_position \<Rightarrow> managed_position" where
  "close_managed m = m\<lparr>mg_open := False, mg_current := 0\<rparr>"

definition list_open_managed_symbols :: "string \<Rightarrow> oms_book \<Rightarrow> string set" where
  "list_open_managed_symbols account b =
     mg_symbol ` {m \<in> set (ob_managed b). mg_account_name m = account \<and> mg_open m}"

definition persist_v2_price_state ::
  "string \<Rightarrow> string \<Rightarrow> position \<Rightarrow> bool \<Rightarrow> oms_book \<Rightarrow> oms_book" where
  "persist_v2_price_state account symbol p write_quantity b =
     (case get_open_managed_position account symbol b of
        None \<Rightarrow> b
      | Some m \<Rightarrow> put_managed (update_managed_from_position write_quantity p m) b)"

text \<open>
  \<open>_hydrate_v2_position\<close>: the ladder position of a row, with the four floor parameters of the exit
  configuration. A zero column reads as its default, which is the same number but for the tier.
\<close>

definition hydrate_v2_position :: "rat \<Rightarrow> rat \<Rightarrow> rat \<Rightarrow> rat \<Rightarrow> managed_position \<Rightarrow> position" where
  "hydrate_v2_position l1 l2 l3 buffer m =
     (new_position '''' (mg_symbol m) (mg_entry_price m) (mg_current m) (show_int (mg_entry_time m))
        (mg_path m) ''NORMAL'' l1 l2 l3 buffer)
       \<lparr>p_peak_profit_pct := mg_peak m,
        p_tier := (if mg_tier m = 0 then 1 else mg_tier m),
        p_floor_pct := (case mg_floor_pct m of None \<Rightarrow> -999 | Some x \<Rightarrow> x),
        p_floor_price := (case mg_floor_price m of None \<Rightarrow> 0 | Some x \<Rightarrow> x),
        p_scales_done := mg_scales m,
        p_scale_pnl := mg_scale_pnl m\<rparr>"

section \<open>The managed row after a fill\<close>

text \<open>
  \<open>_apply_managed_position_after_fill\<close>: the row a buy opens or a sell reduces, and the set of
  managed symbols. The notifications, probes and broker-side protection it also starts are not
  part of the book. \<open>int\<close> of a quantity truncates.
\<close>

record managed_guard =
  gd_enabled :: bool
  gd_close_on_fill :: bool

definition grows_same_entry :: "metadata \<Rightarrow> entry_of_fill \<Rightarrow> managed_position \<Rightarrow> bool" where
  "grows_same_entry md e m \<longleftrightarrow>
     meta_text md ''webull_terminal_with_partial_fill'' \<in> {Some ''cancelled'', Some ''rejected''}
     \<and> ef_order e \<noteq> None \<and> mg_entry_order m = ef_order e \<and> mg_entry_client_id m = Some (ef_client_id e)"

definition buy_managed ::
  "metadata \<Rightarrow> entry_of_fill \<Rightarrow> rat \<Rightarrow> rat \<Rightarrow> oms_book \<times> (string \<times> string) set
   \<Rightarrow> (oms_book \<times> (string \<times> string) set) result" where
  "buy_managed md e quantity price s =
     (case s of (b, watched) \<Rightarrow>
        (case get_open_managed_position (ef_account_name e) (ef_symbol e) b of
           Some m \<Rightarrow>
             Inr (if grows_same_entry md e m
                  then put_managed (m\<lparr>mg_original := mg_original m + py_int quantity,
                                      mg_current := mg_current m + py_int quantity\<rparr>) b
                  else b, watched)
         | None \<Rightarrow>
             (case create_managed_position e price (py_int quantity) b of
                Inl x \<Rightarrow> Inl x
              | Inr b1 \<Rightarrow> Inr (b1, insert (ef_account_name e, ef_symbol e) watched))))"

definition sell_managed ::
  "string \<Rightarrow> string \<Rightarrow> rat \<Rightarrow> oms_book \<times> (string \<times> string) set \<Rightarrow> oms_book \<times> (string \<times> string) set" where
  "sell_managed account symbol quantity s =
     (case s of (b, watched) \<Rightarrow>
        (case get_open_managed_position account symbol b of
           None \<Rightarrow> (b, watched)
         | Some m \<Rightarrow>
             let left = max 0 (mg_current m - py_int quantity)
             in if left \<le> 0 then (put_managed (close_managed m) b, watched - {(account, symbol)})
                else (put_managed (m\<lparr>mg_current := left\<rparr>) b, watched)))"

definition apply_managed_position_after_fill ::
  "managed_guard \<Rightarrow> string \<Rightarrow> string \<Rightarrow> metadata \<Rightarrow> entry_of_fill \<Rightarrow> rat \<Rightarrow> rat
   \<Rightarrow> oms_book \<times> (string \<times> string) set \<Rightarrow> (oms_book \<times> (string \<times> string) set) result" where
  "apply_managed_position_after_fill g side intent_type md e quantity price s =
     (if \<not> gd_enabled g \<or> ef_strategy e \<noteq> ''schwab_1m_v2'' then Inr s
      else if side = ''buy'' \<and> intent_type = ''open'' then buy_managed md e quantity price s
      else if side = ''sell''
      then (if meta_is md ''oms_v2_managed_exit'' ''true'' \<and> \<not> gd_close_on_fill g then Inr s
            else Inr (sell_managed (ef_account_name e) (ef_symbol e) quantity s))
      else Inr s)"

end
