(* ===== verification/OmsBookSpec.thy ===== *)
theory OmsBookSpec
  imports OmsManaged
begin

text \<open>
  Properties of the order management's book: executions are booked once whatever the order and
  repetition of reports, the books balance, a position read replaces exactly what was read, and
  clearing and restoring respect the broker's backing.
\<close>

section \<open>Executions\<close>

definition fill_reports ::
  "broker_order \<Rightarrow> string \<Rightarrow> string \<Rightarrow> broker_report list \<Rightarrow> oms_book \<Rightarrow> oms_book" where
  "fill_reports o' strategy account rs b =
     fold (\<lambda>r b. snd (record_fill_if_needed o' strategy account r b)) rs b"

definition fill_ids :: "oms_book \<Rightarrow> string set" where
  "fill_ids b = {i. \<exists>f \<in> set (ob_fills b). fl_broker_id f = Some i \<and> i \<noteq> ''''}"

definition report_id :: "broker_report \<Rightarrow> string set" where
  "report_id r = (case br_fill_id r of None \<Rightarrow> {} | Some i \<Rightarrow> {i} - {''''})"

definition executes :: "string \<Rightarrow> oms_book \<Rightarrow> broker_report \<Rightarrow> bool" where
  "executes account b r \<longleftrightarrow> carries_fill account r b \<and> br_price r \<noteq> None"

lemma fill_id_known:
  "truthy (br_fill_id r) \<and> list_ex (\<lambda>f. fl_broker_id f = br_fill_id r) (ob_fills b)
   \<longleftrightarrow> report_id r \<inter> fill_ids b \<noteq> {}"
  by (auto simp: truthy_def report_id_def fill_ids_def list_ex_iff split: option.splits)

lemma record_fill_cases:
  assumes "record_fill_if_needed o' st a r b = (f, b')"
  shows "b' = b \<and> (executes a b r \<longrightarrow> br_filled r \<le> 0 \<or> report_id r \<inter> fill_ids b \<noteq> {}
                    \<or> br_filled r \<le> already_recorded (bo_id o') b)
         \<or> executes a b r \<and> 0 < br_filled r \<and> already_recorded (bo_id o') b' = br_filled r
           \<and> already_recorded (bo_id o') b < br_filled r
           \<and> fill_ids b' = fill_ids b \<union> report_id r \<and> ob_accounts b' = ob_accounts b"
proof (cases "f")
  case None
  then show ?thesis using assms fill_id_known[of r b]
    by (auto simp: record_fill_if_needed_def executes_def Let_def split: if_splits option.splits)
next
  case (Some x)
  then obtain price where x: "executes a b r" "br_price r = Some price" "0 < br_filled r"
    "already_recorded (bo_id o') b < br_filled r" "fl_broker_id x = br_fill_id r"
    "fl_order x = bo_id o'" "fl_quantity x = br_filled r - already_recorded (bo_id o') b"
    "b' = b\<lparr>ob_fills := ob_fills b @ [x]\<rparr>"
    using assms
    by (auto simp: record_fill_if_needed_def executes_def Let_def split: if_splits option.splits)
  have "fill_ids b' = fill_ids b \<union> report_id r"
    using x(5,8) by (auto simp: fill_ids_def report_id_def split: option.splits)
  moreover have "already_recorded (bo_id o') b' = br_filled r"
    using x(6,7,8) by (simp add: already_recorded_def)
  ultimately show ?thesis using x by simp
qed

lemma fill_reports_snoc:
  "fill_reports o' st a (rs @ [r]) b = snd (record_fill_if_needed o' st a r (fill_reports o' st a rs b))"
  by (simp add: fill_reports_def)

lemma record_fill_accounts: "ob_accounts (snd (record_fill_if_needed o' st a r b)) = ob_accounts b"
  by (simp add: record_fill_if_needed_def Let_def split: option.split)

lemma fill_reports_accounts: "ob_accounts (fill_reports o' st a rs b) = ob_accounts b"
  by (induction rs rule: rev_induct) (simp_all add: fill_reports_snoc record_fill_accounts, simp add: fill_reports_def)

lemma executes_cong: "ob_accounts b = ob_accounts b' \<Longrightarrow> executes a b r = executes a b' r"
  by (simp add: executes_def carries_fill_def account_of_def)

text \<open>The book after some reports: what it owes them and which identities it knows.\<close>

definition high_water :: "broker_order \<Rightarrow> string \<Rightarrow> oms_book \<Rightarrow> broker_report list \<Rightarrow> oms_book \<Rightarrow> bool" where
  "high_water o' a b rs c \<longleftrightarrow>
     already_recorded (bo_id o') c = fold max (map br_filled (filter (executes a b) rs)) (already_recorded (bo_id o') b)
     \<and> 0 \<le> already_recorded (bo_id o') c
     \<and> (\<forall>i \<in> fill_ids c. i \<in> fill_ids b
          \<or> (\<exists>r \<in> set rs. i \<in> report_id r \<and> br_filled r \<le> already_recorded (bo_id o') c))"

lemma high_water_keep:
  assumes "high_water o' a b rs c" "executes a b r \<longrightarrow> br_filled r \<le> already_recorded (bo_id o') c"
  shows "high_water o' a b (rs @ [r]) c"
proof -
  have "executes a b r \<longrightarrow> max (br_filled r) (already_recorded (bo_id o') c) = already_recorded (bo_id o') c"
    using assms(2) by (simp add: max_absorb2)
  with assms(1) show ?thesis by (auto simp: high_water_def)
qed

lemma high_water_raise:
  assumes h: "high_water o' a b rs c" and r: "executes a b r" "0 < br_filled r"
    and d: "already_recorded (bo_id o') d = br_filled r" "already_recorded (bo_id o') c < br_filled r"
      "fill_ids d = fill_ids c \<union> report_id r"
  shows "high_water o' a b (rs @ [r]) d"
proof -
  have m: "max (br_filled r) (already_recorded (bo_id o') c) = br_filled r" using d(2) by (simp add: max_absorb1)
  have old: "\<exists>q \<in> set (rs @ [r]). i \<in> report_id q \<and> br_filled q \<le> br_filled r"
    if "q \<in> set rs" "i \<in> report_id q" "br_filled q \<le> already_recorded (bo_id o') c" for i q
    using that d(2) by (intro bexI[of _ q]) auto
  have "\<forall>i \<in> fill_ids d. i \<in> fill_ids b \<or> (\<exists>q \<in> set (rs @ [r]). i \<in> report_id q \<and> br_filled q \<le> br_filled r)"
    using h old unfolding high_water_def d(3) by fastforce
  with h r m show ?thesis by (simp add: high_water_def d(1))
qed

lemma high_water_step:
  assumes h: "high_water o' a b rs c" and acc: "ob_accounts c = ob_accounts b"
    and same: "\<And>q. q \<in> set rs \<Longrightarrow> report_id r \<inter> report_id q \<noteq> {} \<Longrightarrow> br_filled r = br_filled q"
    and new: "report_id r \<inter> fill_ids b = {}"
  shows "high_water o' a b (rs @ [r]) (snd (record_fill_if_needed o' st a r c))"
proof -
  obtain f d where step: "record_fill_if_needed o' st a r c = (f, d)" by fastforce
  have ex: "executes a c r = executes a b r" by (rule executes_cong) (rule acc)
  have known: "br_filled r \<le> already_recorded (bo_id o') c" if "report_id r \<inter> fill_ids c \<noteq> {}"
  proof -
    from that obtain i where i: "i \<in> report_id r" "i \<in> fill_ids c" by blast
    with new have "i \<notin> fill_ids b" by blast
    with i h obtain q where "q \<in> set rs" "i \<in> report_id q" "br_filled q \<le> already_recorded (bo_id o') c"
      unfolding high_water_def by blast
    moreover from this i have "br_filled r = br_filled q" by (intro same) auto
    ultimately show ?thesis by simp
  qed
  from record_fill_cases[OF step, unfolded ex] show ?thesis
  proof (elim disjE conjE)
    assume "d = c" and *: "executes a b r \<longrightarrow> br_filled r \<le> 0 \<or> report_id r \<inter> fill_ids c \<noteq> {}
      \<or> br_filled r \<le> already_recorded (bo_id o') c"
    then have "executes a b r \<longrightarrow> br_filled r \<le> already_recorded (bo_id o') c"
      using known h by (force simp: high_water_def)
    from high_water_keep[OF h this] show ?thesis by (simp add: step \<open>d = c\<close>)
  qed (use high_water_raise[OF h] step in simp)
qed

text \<open>C6: executions are booked once: when a fill identity names one cumulative quantity and none of
  the reports' identities was booked before, then after any list of reports, with repetitions and
  in any order, the fills of the order add up to the largest cumulative quantity any of the
  executing reports gave (or what was booked already).\<close>
theorem fills_high_water:
  assumes "\<And>r q. r \<in> set rs \<Longrightarrow> q \<in> set rs \<Longrightarrow> report_id r \<inter> report_id q \<noteq> {} \<Longrightarrow> br_filled r = br_filled q"
    and "\<And>r. r \<in> set rs \<Longrightarrow> report_id r \<inter> fill_ids b = {}"
    and "0 \<le> already_recorded (bo_id o') b"
  shows "already_recorded (bo_id o') (fill_reports o' st a rs b)
         = fold max (map br_filled (filter (executes a b) rs)) (already_recorded (bo_id o') b)"
proof -
  have "high_water o' a b rs (fill_reports o' st a rs b)"
    using assms
  proof (induction rs rule: rev_induct)
    case Nil
    then show ?case by (simp add: high_water_def fill_reports_def)
  next
    case (snoc r rs)
    have "high_water o' a b rs (fill_reports o' st a rs b)"
      by (rule snoc.IH[OF _ _ snoc.prems(3)]) (rule snoc.prems(1), simp_all, rule snoc.prems(2), simp)
    then show ?case
      unfolding fill_reports_snoc
      by (rule high_water_step[OF _ fill_reports_accounts])
        (rule snoc.prems(1), simp_all, rule snoc.prems(2), simp)
  qed
  then show ?thesis by (simp add: high_water_def)
qed

section \<open>Balances\<close>

text \<open>Fills of one position as sides, quantities and prices; a sell is covered when it is held.\<close>

type_synonym trade_of = "string \<times> rat \<times> rat \<times> int"

definition fill_position :: "trade_of \<Rightarrow> virtual_position \<Rightarrow> virtual_position" where
  "fill_position x v = (case x of (side, q, p, ts) \<Rightarrow> fill_virtual side q p ts v)"

definition bought :: "trade_of list \<Rightarrow> rat" where
  "bought xs = sum_list (map (\<lambda>(side, q, p, ts). if side = ''buy'' then q else 0) xs)"

definition sold :: "trade_of list \<Rightarrow> rat" where
  "sold xs = sum_list (map (\<lambda>(side, q, p, ts). if side = ''buy'' then 0 else q) xs)"

definition paid :: "trade_of list \<Rightarrow> rat" where
  "paid xs = sum_list (map (\<lambda>(side, q, p, ts). if side = ''buy'' then p * q else 0) xs)"

definition received :: "trade_of list \<Rightarrow> rat" where
  "received xs = sum_list (map (\<lambda>(side, q, p, ts). if side = ''buy'' then 0 else p * q) xs)"

fun covered :: "rat \<Rightarrow> trade_of list \<Rightarrow> bool" where
  "covered held [] = True"
| "covered held ((side, q, p, ts) # xs) =
     (0 < q \<and> (side = ''buy'' \<or> q \<le> held) \<and> covered (if side = ''buy'' then held + q else held - q) xs)"

lemmas balance_defs = bought_def sold_def paid_def received_def

definition cost_of :: "virtual_position \<Rightarrow> rat" where
  "cost_of v = hd_average v * hd_quantity v"

lemma fill_position_buy:
  assumes "0 \<le> hd_quantity v" "0 < q"
  shows "hd_quantity (fill_position (''buy'', q, p, ts) v) = hd_quantity v + q"
    "cost_of (fill_position (''buy'', q, p, ts) v) = cost_of v + p * q"
    "vp_realized (fill_position (''buy'', q, p, ts) v) = vp_realized v"
  using assms
  by (auto simp: fill_position_def fill_virtual_def fill_holding_def Let_def cost_of_def)

lemma fill_position_sell:
  assumes "side \<noteq> ''buy''" "0 < q" "q \<le> hd_quantity v"
  shows "hd_quantity (fill_position (side, q, p, ts) v) = hd_quantity v - q"
    "cost_of (fill_position (side, q, p, ts) v) = cost_of v - hd_average v * q"
    "vp_realized (fill_position (side, q, p, ts) v) = vp_realized v + (p - hd_average v) * q"
  using assms
  by (auto simp: fill_position_def fill_virtual_def fill_holding_def sold_of_def Let_def cost_of_def
      algebra_simps min_def)


section \<open>Position reads\<close>

definition last_snapshot :: "position_snapshot list \<Rightarrow> string \<Rightarrow> position_snapshot option" where
  "last_snapshot ps y = List.find (\<lambda>p. ps_symbol p = y) (rev ps)"

lemma last_snapshot_snoc:
  "last_snapshot (ps @ [p]) y = (if ps_symbol p = y then Some p else last_snapshot ps y)"
  by (simp add: last_snapshot_def)

lemma find_append:
  "List.find P (xs @ ys) = (case List.find P xs of None \<Rightarrow> List.find P ys | Some x \<Rightarrow> Some x)"
  by (induction xs) auto

lemma last_snapshot_Cons:
  "last_snapshot (p # ps) y =
     (case last_snapshot ps y of None \<Rightarrow> (if ps_symbol p = y then Some p else None) | Some q \<Rightarrow> Some q)"
  by (simp add: last_snapshot_def find_append split: option.split)

lemma write_snapshots_lookup:
  "write_snapshots a known ps d = Inr d' \<Longrightarrow>
   map_of d' k = (if fst k = a then case last_snapshot ps (snd k) of
                                      None \<Rightarrow> map_of d k | Some p \<Rightarrow> Some (of_snapshot p)
                  else map_of d k)"
proof (induction ps arbitrary: d)
  case Nil
  then show ?case by (simp add: last_snapshot_def)
next
  case (Cons p ps)
  from Cons.prems have "write_snapshots a known ps (AList.update (a, ps_symbol p) (of_snapshot p) d) = Inr d'"
    by (simp split: if_splits)
  from Cons.IH[OF this] show ?case
    by (cases k) (auto simp: last_snapshot_Cons dict_simps split: option.splits)
qed

lemma map_of_zero_unseen:
  "map_of (zero_unseen now a known seen d) k =
     (if fst k = a \<and> snd k \<in> set known \<and> snd k \<notin> set seen
      then map_option (zeroed_position now) (map_of d k) else map_of d k)"
  by (induction d) (auto simp: zero_unseen_def)

lemma symbols_of_iff: "y \<in> set (symbols_of a b) \<longleftrightarrow> map_of (ob_positions b) (a, y) \<noteq> None"
  by (force simp: symbols_of_def map_of_eq_None_iff)

lemma last_snapshot_None: "last_snapshot ps y = None \<longleftrightarrow> y \<notin> ps_symbol ` set ps"
  by (auto simp: last_snapshot_def find_None_iff)

text \<open>A read replaces the account: after a complete read every symbol of the account has exactly
  the quantity and average of its last snapshot, a symbol the read does not name has none, and no
  row of another account changes.\<close>
theorem sync_matches_broker:
  assumes "sync_account_positions now account ps b = Inr (n, b')"
  shows "backing b' account y = (case last_snapshot ps y of None \<Rightarrow> 0 | Some p \<Rightarrow> ps_quantity p)
    \<and> (other \<noteq> account \<longrightarrow> map_of (ob_positions b') (other, y) = map_of (ob_positions b) (other, y))"
proof
  from assms obtain d where d: "write_snapshots account (symbols_of account b) ps (ob_positions b) = Inr d"
    "ob_positions b' = zero_unseen now account (symbols_of account b) (map ps_symbol ps) d"
    by (auto simp: sync_account_positions_def Let_def split: sum.splits)
  note l = write_snapshots_lookup[OF d(1)]
  show "backing b' account y = (case last_snapshot ps y of None \<Rightarrow> 0 | Some p \<Rightarrow> ps_quantity p)"
    using last_snapshot_None[of ps y] symbols_of_iff[of y account b]
    by (auto simp: backing_def d(2) map_of_zero_unseen l of_snapshot_def zeroed_position_def
        split: option.splits)
  show "other \<noteq> account \<longrightarrow> map_of (ob_positions b') (other, y) = map_of (ob_positions b) (other, y)"
    by (simp add: d(2) map_of_zero_unseen l)
qed

lemma write_snapshots_error:
  "(\<exists>e. write_snapshots a known ps d = Inl e) \<longleftrightarrow>
        (\<exists>qs p rs. ps = qs @ p # rs \<and> ps_symbol p \<notin> set known
           \<and> (map_of d (a, ps_symbol p) \<noteq> None \<or> ps_symbol p \<in> ps_symbol ` set qs))"
proof (induction ps arbitrary: d)
  case (Cons x xs)
  let ?d = "AList.update (a, ps_symbol x) (of_snapshot x) d"
  have "(\<exists>qs p rs. x # xs = qs @ p # rs \<and> ps_symbol p \<notin> set known
          \<and> (map_of d (a, ps_symbol p) \<noteq> None \<or> ps_symbol p \<in> ps_symbol ` set qs))
        \<longleftrightarrow> ps_symbol x \<notin> set known \<and> map_of d (a, ps_symbol x) \<noteq> None
          \<or> (\<exists>qs p rs. xs = qs @ p # rs \<and> ps_symbol p \<notin> set known
                \<and> (map_of ?d (a, ps_symbol p) \<noteq> None \<or> ps_symbol p \<in> ps_symbol ` set qs))"
    (is "?l \<longleftrightarrow> ?r")
  proof
    assume ?l
    then obtain qs p rs where *: "x # xs = qs @ p # rs" "ps_symbol p \<notin> set known"
      "map_of d (a, ps_symbol p) \<noteq> None \<or> ps_symbol p \<in> ps_symbol ` set qs" by blast
    show ?r
    proof (cases qs)
      case Nil
      with * show ?thesis by auto
    next
      case (Cons q qs')
      with * have "xs = qs' @ p # rs" "ps_symbol p \<notin> set known"
        "map_of ?d (a, ps_symbol p) \<noteq> None \<or> ps_symbol p \<in> ps_symbol ` set qs'"
        by (auto simp: dict_simps)
      then show ?thesis by blast
    qed
  next
    assume ?r
    then show ?l
    proof
      assume "\<exists>qs p rs. xs = qs @ p # rs \<and> ps_symbol p \<notin> set known
                \<and> (map_of ?d (a, ps_symbol p) \<noteq> None \<or> ps_symbol p \<in> ps_symbol ` set qs)"
      then obtain qs p rs where *: "xs = qs @ p # rs" "ps_symbol p \<notin> set known"
        "map_of ?d (a, ps_symbol p) \<noteq> None \<or> ps_symbol p \<in> ps_symbol ` set qs" by blast
      then show ?l
        by (intro exI[of _ "x # qs"] exI[of _ p] exI[of _ rs]) (auto simp: dict_simps split: if_splits)
    qed (force intro: exI[of _ "[]"])
  qed
  then show ?case using Cons.IH[of ?d] by simp
qed simp

text \<open>A read fails only on a duplicate: persisting a read raises exactly when it names a symbol
  twice that the account had no row for, and then it raises the table's integrity error.\<close>
theorem sync_error_exact:
  "(\<exists>e. sync_account_positions now account ps b = Inl e)
     \<longleftrightarrow> (\<exists>qs p rs. ps = qs @ p # rs \<and> map_of (ob_positions b) (account, ps_symbol p) = None
                    \<and> ps_symbol p \<in> ps_symbol ` set qs)"
proof -
  have "(\<exists>e. sync_account_positions now account ps b = Inl e)
        \<longleftrightarrow> (\<exists>e. write_snapshots account (symbols_of account b) ps (ob_positions b) = Inl e)"
    by (auto simp: sync_account_positions_def Let_def split: sum.splits)
  also have "\<dots> \<longleftrightarrow> (\<exists>qs p rs. ps = qs @ p # rs \<and> map_of (ob_positions b) (account, ps_symbol p) = None
                    \<and> ps_symbol p \<in> ps_symbol ` set qs)"
    unfolding write_snapshots_error symbols_of_iff by (intro ex_cong1) auto
  finally show ?thesis .
qed

section \<open>Clearing and restoring\<close>

text \<open>A virtual row that may be zeroed by a read of some accounts.\<close>

definition unbacked :: "string list \<Rightarrow> rat \<Rightarrow> int \<Rightarrow> oms_book \<Rightarrow> virtual_key \<Rightarrow> virtual_position \<Rightarrow> bool" where
  "unbacked accounts min_age now b k v \<longleftrightarrow>
     (case k of (strategy, account, symbol) \<Rightarrow>
        0 < hd_quantity v \<and> backing b account symbol \<le> 0
        \<and> (accounts = [] \<or> account \<in> set accounts)
        \<and> map_of (ob_strategies b) strategy \<notin> {None, Some ''momentum_warn_live''}
        \<and> (0 < min_age \<longrightarrow> (\<exists>t. vp_updated v = Some t \<and> min_age \<le> of_int (now - t) / 1000000)))"

lemma clear_verdict_Cleared:
  "clear_verdict accounts min_age now b k v = Cleared \<Longrightarrow> unbacked accounts min_age now b k v"
  by (auto simp: clear_verdict_def unbacked_def row_age_def max_def
      split: prod.splits option.splits if_splits)

lemma map_of_clear:
  "map_of (ob_virtual (snd (clear_virtual_positions_without_account_backing as n now b))) k =
     map_option (\<lambda>v. if clear_verdict as n now b k v = Cleared then cleared_row now v else v)
       (map_of (ob_virtual b) k)"
proof -
  have "map_of (map (\<lambda>p. (fst p, g (fst p) (snd p))) d) k = map_option (g k) (map_of d k)" for g d
    by (induction d) auto
  from this[of "\<lambda>k v. if clear_verdict as n now b k v = Cleared then cleared_row now v else v"]
  show ?thesis by (simp add: clear_virtual_positions_without_account_backing_def Let_def)
qed

lemma clear_frame:
  "ob_positions (snd (clear_virtual_positions_without_account_backing as n now b)) = ob_positions b"
  "ob_managed (snd (clear_virtual_positions_without_account_backing as n now b)) = ob_managed b"
  "ob_strategies (snd (clear_virtual_positions_without_account_backing as n now b)) = ob_strategies b"
  "ob_accounts (snd (clear_virtual_positions_without_account_backing as n now b)) = ob_accounts b"
  by (simp_all add: clear_virtual_positions_without_account_backing_def Let_def)

text \<open>Only unbacked rows are cleared: a row the clearing changes was positive, its account had no
  shares of the symbol at the broker, it was not a row of the live momentum strategy, its age was
  known and at least the minimum, and the row is then exactly zeroed with its profit kept.\<close>
theorem clear_only_unbacked:
  assumes "clear_virtual_positions_without_account_backing accounts min_age now b = (cleared, b')"
    and "map_of (ob_virtual b) k = Some v" "map_of (ob_virtual b') k = Some w" "w \<noteq> v"
  shows "unbacked accounts min_age now b k v \<and> w = cleared_row now v"
proof -
  have "map_of (ob_virtual b') k =
      Some (if clear_verdict accounts min_age now b k v = Cleared then cleared_row now v else v)"
    using map_of_clear[of accounts min_age now b k] assms(1,2) by simp
  with assms(3,4) show ?thesis by (auto split: if_splits dest: clear_verdict_Cleared)
qed

text \<open>What a restore may do to a row: nothing, or fill an empty row from an open managed row.\<close>

definition restores :: "string list \<Rightarrow> oms_book \<Rightarrow> virtual_key \<Rightarrow> virtual_position \<Rightarrow> managed_position \<Rightarrow> bool" where
  "restores accounts b k v m \<longleftrightarrow>
     m \<in> set (ob_managed b) \<and> mg_open m \<and> hd_quantity v \<le> 0
     \<and> (\<exists>a. account_named (mg_account_name m) b = Some a \<and> owned_key m a b = Some k
          \<and> (accounts = [] \<or> ba_id a \<in> set accounts)
          \<and> of_int (mg_current m) \<le> backing b (ba_id a) (py_upper (mg_symbol m)))
     \<and> 0 < mg_current m"

lemma restorable_Some:
  "restorable accounts m b = Some (k, v) \<Longrightarrow>
   map_of (ob_virtual b) k = Some v \<and> hd_quantity v \<le> 0 \<and> 0 < mg_current m
   \<and> (\<exists>a. account_named (mg_account_name m) b = Some a \<and> owned_key m a b = Some k
        \<and> (accounts = [] \<or> ba_id a \<in> set accounts)
        \<and> of_int (mg_current m) \<le> backing b (ba_id a) (py_upper (mg_symbol m)))"
  by (auto simp: restorable_def split: option.splits if_splits)

lemma restore_managed_rows_row:
  assumes "restore_managed_rows accounts now ms b = (rs, b')" "map_of (ob_virtual b) k = Some v"
    and "set ms \<subseteq> set (ob_managed b0)"
    and "ob_managed b = ob_managed b0" "ob_positions b = ob_positions b0" "ob_accounts b = ob_accounts b0"
      "ob_strategies b = ob_strategies b0"
  shows "map_of (ob_virtual b') k = Some v
         \<or> (\<exists>m. restores accounts b0 k v m \<and> map_of (ob_virtual b') k = Some (restored_row now m v))"
  using assms
proof (induction accounts now ms b arbitrary: rs v rule: restore_managed_rows.induct)
  case (2 accounts now m ms b)
  show ?case
  proof (cases "if mg_open m then restorable accounts m b else None")
    case None
    with 2 show ?thesis by (auto split: if_splits)
  next
    case (Some kv)
    obtain k' v' where kv: "kv = (k', v')" by (cases kv)
    from Some kv have r: "mg_open m" "restorable accounts m b = Some (k', v')" by (auto split: if_splits)
    let ?b = "b\<lparr>ob_virtual := AList.update k' (restored_row now m v') (ob_virtual b)\<rparr>"
    obtain rs' where rec: "restore_managed_rows accounts now ms ?b = (rs', b')"
      using "2.prems"(1) Some kv by (auto split: prod.splits)
    have same: "ob_accounts ?b = ob_accounts b0" "ob_positions ?b = ob_positions b0"
      "ob_strategies ?b = ob_strategies b0" "ob_managed ?b = ob_managed b0" "set ms \<subseteq> set (ob_managed b0)"
      using "2.prems" by auto
    note IH = "2.IH"(2)[OF Some kv[symmetric] rec _ same(5,4,2,1,3)]
    show ?thesis
    proof (cases "k' = k")
      case False
      then show ?thesis using IH[of v] "2.prems"(2) by (simp add: dict_simps)
    next
      case True
      from restorable_Some[OF r(2)] True "2.prems"(2) have "v' = v" by simp
      have pos: "0 < hd_quantity (restored_row now m v)"
        using restorable_Some[OF r(2)] by (simp add: restored_row_def)
      have "restores accounts b0 k v m"
        using restorable_Some[OF r(2)] r(1) True \<open>v' = v\<close> "2.prems"
        by (auto simp: restores_def account_named_def owned_key_def backing_def)
      moreover have "map_of (ob_virtual b') k = Some (restored_row now m v)"
        using IH[of "restored_row now m v"] True \<open>v' = v\<close> pos by (auto simp: dict_simps restores_def)
      ultimately show ?thesis by blast
    qed
  qed
qed simp

text \<open>A restore stays within ownership and backing: a row the restore changes was empty, it is
  given exactly the current quantity of an open managed row of its strategy, account and symbol,
  and the broker shows at least that many shares; no positive row is overwritten.\<close>
theorem restore_owned_backed:
  assumes "restore_virtual_positions_from_managed accounts now b = (rs, b')"
    and "map_of (ob_virtual b) k = Some v" "map_of (ob_virtual b') k = Some w" "w \<noteq> v"
  shows "\<exists>m. restores accounts b k v m \<and> hd_quantity w = of_int (mg_current m)
             \<and> vp_realized w = vp_realized v"
proof -
  from assms(1) have "restore_managed_rows accounts now (ob_managed b) b = (rs, b')"
    by (simp add: restore_virtual_positions_from_managed_def)
  from restore_managed_rows_row[OF this assms(2), of b] assms(3,4)
  obtain m where "restores accounts b k v m" "w = restored_row now m v" by auto
  then show ?thesis by (auto simp: restored_row_def)
qed

section \<open>Persisting a round of reads\<close>

lemma sync_frame:
  assumes "sync_account_positions now a ps b = Inr (n, b')"
  shows "ob_virtual b' = ob_virtual b" "ob_managed b' = ob_managed b" "ob_accounts b' = ob_accounts b"
    "ob_strategies b' = ob_strategies b"
  using assms by (auto simp: sync_account_positions_def Let_def split: sum.splits)

lemma sync_fetched_frame:
  "sync_fetched now fs b = Inr (n, b') \<Longrightarrow>
   ob_virtual b' = ob_virtual b \<and> ob_managed b' = ob_managed b \<and> ob_accounts b' = ob_accounts b
   \<and> ob_strategies b' = ob_strategies b"
proof (induction now fs b arbitrary: n rule: sync_fetched.induct)
  case (2 now account ps rest b)
  from "2.prems" obtain m b1 where b1: "sync_account_positions now account ps b = Inr (m, b1)"
    by (auto split: sum.splits prod.splits)
  with "2.prems" obtain l where l: "sync_fetched now rest b1 = Inr (l, b')"
    by (auto split: sum.splits)
  from "2.IH"[OF b1 refl l] sync_frame[OF b1] show ?case by simp
qed simp

text \<open>An account that was not read keeps its rows: when at least one account was read, persisting
  the round changes no virtual position of an account outside the round.\<close>
theorem unread_accounts_untouched:
  assumes "persist_positions min_age now fetched b = Inr (n, b')" "fetched \<noteq> []"
    and "map_of (ob_virtual b) (strategy, account, symbol) = Some v" "account \<notin> fst ` set fetched"
  shows "map_of (ob_virtual b') (strategy, account, symbol) = Some v"
proof -
  let ?as = "map fst fetched" and ?k = "(strategy, account, symbol)"
  obtain m b1 where b1: "sync_fetched now fetched b = Inr (m, b1)"
    using assms(1) by (auto simp: persist_positions_def split: sum.splits)
  define b2 where "b2 = snd (clear_virtual_positions_without_account_backing ?as (max 0 min_age) now b1)"
  obtain rs where rs: "restore_virtual_positions_from_managed ?as now b2 = (rs, b')"
    using assms(1) b1 by (cases "restore_virtual_positions_from_managed ?as now b2")
      (auto simp: persist_positions_def Let_def b2_def)
  have v1: "map_of (ob_virtual b1) ?k = Some v" using sync_fetched_frame[OF b1] assms(3) by simp
  have "clear_verdict ?as (max 0 min_age) now b1 ?k v \<noteq> Cleared"
    using clear_verdict_Cleared[of ?as "max 0 min_age" now b1 ?k v] assms(2,4) by (auto simp: unbacked_def)
  then have v2: "map_of (ob_virtual b2) ?k = Some v" by (simp add: b2_def map_of_clear v1)
  have none: "\<not> restores ?as b2 ?k v x" for x
    using assms(2,4) by (auto simp: restores_def owned_key_def split: option.splits)
  then show ?thesis
    using restore_managed_rows_row[OF rs[unfolded restore_virtual_positions_from_managed_def] v2, of b2] by simp
qed

section \<open>The ladder of a managed row\<close>

lemma round_half_away_mono: "x \<le> y \<Longrightarrow> round_half_away x \<le> round_half_away y"
proof -
  assume xy: "x \<le> y"
  have "round_half_away x \<le> 0" if "x < 0" using that by (simp add: round_half_away_def)
  moreover have "0 \<le> round_half_away y" if "0 \<le> y" using that by (simp add: round_half_away_def)
  ultimately have "round_half_away x \<le> round_half_away y" if "x < 0" "0 \<le> y"
    using that by simp
  then show ?thesis
    using xy by (cases "x < 0"; cases "0 \<le> y")
      (auto simp: round_half_away_def intro: floor_mono ceiling_mono)
qed

lemma round_half_away_int: "round_half_away (of_int n) = n"
  by (simp add: round_half_away_def floor_eq_iff ceiling_eq_iff)

lemma numeric_col_mono: "x \<le> y \<Longrightarrow> numeric_col d x \<le> numeric_col d y"
  by (simp add: numeric_col_def divide_right_mono round_half_away_mono mult_right_mono)

lemma numeric_col_again: "numeric_col d (numeric_col d x) = numeric_col d x"
  by (simp add: numeric_col_def round_half_away_int)

lemma numeric_col_int: "numeric_col d (of_int n) = of_int n"
proof -
  have "of_int n * 10 ^ d = (of_int (n * 10 ^ d) :: rat)" by simp
  then show ?thesis unfolding numeric_col_def by (simp only: round_half_away_int) simp
qed

definition floor_of_row :: "managed_position \<Rightarrow> rat" where
  "floor_of_row m = (case mg_floor_pct m of None \<Rightarrow> -999 | Some x \<Rightarrow> x)"

definition on_grid :: "managed_position \<Rightarrow> bool" where
  "on_grid m \<longleftrightarrow> numeric_col 6 (mg_peak m) = mg_peak m
     \<and> numeric_col 6 (floor_of_row m) = floor_of_row m \<and> 1 \<le> mg_tier m \<and> mg_tier m \<le> 3"

text \<open>One quote on a managed row: hydrate, move the price, write the price state back.\<close>

definition quote_row :: "rat \<Rightarrow> rat \<Rightarrow> rat \<Rightarrow> rat \<Rightarrow> rat \<Rightarrow> managed_position \<Rightarrow> managed_position" where
  "quote_row l1 l2 l3 buffer bid m =
     update_managed_from_position False (update_price bid (hydrate_v2_position l1 l2 l3 buffer m)) m"

lemma update_price_raises:
  "p_peak_profit_pct p \<le> p_peak_profit_pct (update_price x p)"
  "p_floor_pct p \<le> p_floor_pct (update_price x p)"
  "p_tier p \<le> 3 \<Longrightarrow> p_tier p \<le> p_tier (update_price x p) \<and> p_tier (update_price x p) \<le> 3"
  by (auto simp: update_price_def raise_floor_def raise_tier_def Let_def)

lemma numeric_col_floor: "numeric_col 6 (-999) = -999"
  using numeric_col_int[of 6 "-999"] by simp

lemma quote_row_raises:
  assumes "on_grid m"
  shows "on_grid (quote_row l1 l2 l3 buf bid m) \<and> mg_peak m \<le> mg_peak (quote_row l1 l2 l3 buf bid m)
     \<and> floor_of_row m \<le> floor_of_row (quote_row l1 l2 l3 buf bid m)
     \<and> mg_tier m \<le> mg_tier (quote_row l1 l2 l3 buf bid m)
     \<and> mg_current (quote_row l1 l2 l3 buf bid m) = mg_current m
     \<and> mg_entry_price (quote_row l1 l2 l3 buf bid m) = mg_entry_price m"
proof -
  define p where "p = hydrate_v2_position l1 l2 l3 buf m"
  note u = update_price_raises[of p bid]
  have p: "p_peak_profit_pct p = mg_peak m" "p_floor_pct p = floor_of_row m" "p_tier p = mg_tier m"
    using assms by (auto simp: p_def hydrate_v2_position_def new_position_def floor_of_row_def on_grid_def)
  have fl: "floor_of_row (quote_row l1 l2 l3 buf bid m)
            = (if p_floor_pct (update_price bid p) \<le> -999 then -999
               else numeric_col 6 (p_floor_pct (update_price bid p)))"
    by (simp add: quote_row_def update_managed_from_position_def floor_of_row_def p_def)
  have "floor_of_row m \<le> floor_of_row (quote_row l1 l2 l3 buf bid m)"
    using u(2) numeric_col_mono[OF u(2), of 6] assms by (simp add: fl p on_grid_def)
  moreover have "mg_peak m \<le> mg_peak (quote_row l1 l2 l3 buf bid m)"
    using numeric_col_mono[OF u(1), of 6] assms
    by (simp add: p quote_row_def update_managed_from_position_def p_def[symmetric] on_grid_def)
  moreover have "on_grid (quote_row l1 l2 l3 buf bid m)"
    using u(3) assms unfolding on_grid_def fl
    by (simp add: quote_row_def update_managed_from_position_def p_def[symmetric] p numeric_col_again
        numeric_col_floor)
  ultimately show ?thesis
    using u(3) assms
    by (simp add: quote_row_def update_managed_from_position_def p_def[symmetric] p on_grid_def)
qed

lemma quotes_row_raise:
  "on_grid m \<Longrightarrow>
   on_grid (fold (quote_row l1 l2 l3 buf) bids m) \<and> mg_peak m \<le> mg_peak (fold (quote_row l1 l2 l3 buf) bids m)
     \<and> floor_of_row m \<le> floor_of_row (fold (quote_row l1 l2 l3 buf) bids m)
     \<and> mg_tier m \<le> mg_tier (fold (quote_row l1 l2 l3 buf) bids m)
     \<and> mg_current (fold (quote_row l1 l2 l3 buf) bids m) = mg_current m"
proof (induction bids arbitrary: m)
  case (Cons bid bids)
  from quote_row_raises[OF Cons.prems, of l1 l2 l3 buf bid]
    Cons.IH[of "quote_row l1 l2 l3 buf bid m"] show ?case by fastforce
qed simp

lemma new_managed_on_grid: "on_grid (new_managed e price q)"
  using numeric_col_int[of 6 0] numeric_col_floor
  by (simp add: on_grid_def new_managed_def floor_of_row_def)

text \<open>The stored ladder never loosens: from the fill that opens a managed row, through any quotes
  with the row rounded into its columns and read back at each of them (so at any restart in
  between), the stored peak, tier and floor percentage never decrease and the quantity held is not
  changed by a quote.\<close>
theorem stored_ladder_ratchets:
  "let m = fold (quote_row l1 l2 l3 buf) xs (new_managed e price q);
       m' = fold (quote_row l1 l2 l3 buf) (xs @ ys) (new_managed e price q)
   in mg_peak m \<le> mg_peak m' \<and> mg_tier m \<le> mg_tier m' \<and> floor_of_row m \<le> floor_of_row m'
      \<and> mg_current m' = q"
proof -
  note first = quotes_row_raise[OF new_managed_on_grid[of e price q], of l1 l2 l3 buf xs]
  then show ?thesis
    using quotes_row_raise[OF conjunct1[OF first], of l1 l2 l3 buf ys]
    by (simp add: Let_def new_managed_def)
qed

section \<open>The rotation of order reads\<close>

fun syncs :: "string list \<Rightarrow> nat \<Rightarrow> oms_book \<Rightarrow> broker_order list list \<times> oms_book" where
  "syncs accounts 0 b = ([], b)"
| "syncs accounts (Suc n) b =
     (case list_open_orders_for_sync accounts b of
        (os, b1) \<Rightarrow> (case syncs accounts n b1 of (oss, b2) \<Rightarrow> (os # oss, b2)))"

lemma open_orders_rotation: "list_open_orders as (b\<lparr>ob_rotation := k\<rparr>) = list_open_orders as b"
  by (simp add: list_open_orders_def)

lemma hd_rotated: "k < length xs \<Longrightarrow> hd (drop k xs @ take k xs) = xs ! k"
  by (simp add: hd_append hd_drop_conv_nth)

lemma syncs_heads:
  assumes "2 \<le> length (list_open_orders as b)"
  shows "map hd (fst (syncs as n b))
         = map (\<lambda>i. list_open_orders as b ! ((ob_rotation b + i) mod length (list_open_orders as b))) [0..<n]"
  using assms
proof (induction n arbitrary: b)
  case (Suc n)
  let ?os = "list_open_orders as b"
  let ?len = "length ?os"
  define k where "k = ob_rotation b mod ?len"
  have k: "k < ?len" unfolding k_def by (rule mod_less_divisor) (use Suc.prems in linarith)
  let ?b = "b\<lparr>ob_rotation := (k + 1) mod ?len\<rparr>"
  have step: "list_open_orders_for_sync as b = (drop k ?os @ take k ?os, ?b)"
    using Suc.prems by (simp add: list_open_orders_for_sync_def Let_def k_def)
  have "map hd (fst (syncs as n ?b)) = map (\<lambda>i. ?os ! (((k + 1) mod ?len + i) mod ?len)) [0..<n]"
    using Suc.IH[of ?b] Suc.prems by (simp add: open_orders_rotation)
  also have "\<dots> = map (\<lambda>i. ?os ! ((ob_rotation b + Suc i) mod ?len)) [0..<n]"
    by (simp add: k_def mod_simps ac_simps)
  finally show ?case
    using hd_rotated[OF k]
    by (simp add: step case_prod_beta k_def upt_conv_Cons map_Suc_upt[symmetric] comp_def del: upt_Suc)
qed simp

lemma shifted_mod_inj: "i \<le> j \<Longrightarrow> j < n \<Longrightarrow> (a + i) mod n = (a + j) mod (n :: nat) \<Longrightarrow> i = j"
  using mod_eq_dvd_iff_nat[of "a + i" "a + j" n] by (auto dest: dvd_imp_le)

text \<open>Every open order is read first in turn: while the open orders stay the same, as many
  consecutive order syncs as there are orders put each of them at the head of the pass exactly
  once, so no order keeps the tail of every pass.\<close>
theorem sync_rotation_fair:
  assumes "os = list_open_orders accounts b" "2 \<le> length os" "distinct os"
  shows "distinct (map hd (fst (syncs accounts (length os) b)))
         \<and> set (map hd (fst (syncs accounts (length os) b))) = set os"
proof -
  let ?n = "length os" and ?f = "\<lambda>i. (ob_rotation b + i) mod length os"
  have heads: "map hd (fst (syncs accounts ?n b)) = map (\<lambda>i. os ! ?f i) [0..<?n]"
    using syncs_heads[of accounts b ?n] assms by simp
  have inj: "inj_on ?f {0..<?n}"
    by (rule inj_onI) (metis shifted_mod_inj atLeastLessThan_iff nat_le_linear)
  have "?f ` {0..<?n} = {0..<?n}"
    by (rule endo_inj_surj) (use assms(2) inj in \<open>auto intro!: mod_less_divisor\<close>)
  then have "(!) os ` ?f ` {0..<?n} = (!) os ` {0..<?n}" by simp
  then have "set (map (\<lambda>i. os ! ?f i) [0..<?n]) = (!) os ` {0..<?n}" by (simp add: image_image)
  also have "\<dots> = set os" by (metis list.set_map map_nth set_upt)
  finally have s: "set (map hd (fst (syncs accounts ?n b))) = set os" by (simp only: heads)
  moreover have "distinct (map hd (fst (syncs accounts ?n b)))"
    by (rule card_distinct) (simp add: s heads distinct_card[OF assms(3)] del: set_map, metis s heads distinct_card assms(3))
  ultimately show ?thesis by blast
qed


section \<open>A concrete book\<close>

text \<open>
  One Webull account with one strategy that owns ten shares of \<open>AB\<close> the broker does not show, an
  open managed row of five shares of \<open>CD\<close> whose virtual row was erased, and a second account.
\<close>

definition demo_order :: "string \<Rightarrow> int \<Rightarrow> broker_order" where
  "demo_order i t =
     \<lparr>bo_id = i, bo_intent = ''i'', bo_strategy = ''S'', bo_account = ''A'', bo_client_id = i,
      bo_broker_id = None, bo_symbol = ''AB'', bo_side = ''buy'', bo_type = ''limit'', bo_tif = ''day'',
      bo_quantity = 9, bo_status = ''submitted'', bo_payload = [], bo_submitted = Some 0, bo_updated = t\<rparr>"

definition demo_virtual :: "rat \<Rightarrow> virtual_position" where
  "demo_virtual q = \<lparr>hd_quantity = q, hd_average = 2, vp_realized = 0, vp_opened = None, vp_updated = Some 0\<rparr>"

definition demo_held :: account_position where
  "demo_held = \<lparr>hd_quantity = 6, hd_average = 2, ap_market = None, ap_source_at = None\<rparr>"

definition demo_entry :: entry_of_fill where
  "demo_entry = \<lparr>ef_row_id = ''m'', ef_strategy = ''orb'', ef_account_name = ''acc'', ef_symbol = ''CD'',
     ef_path = '''', ef_order = None, ef_client_id = '''', ef_now = 0\<rparr>"

definition demo_book :: oms_book where
  "demo_book =
     \<lparr>ob_accounts = [\<lparr>ba_id = ''A'', ba_name = ''acc'', ba_provider = ''webull'', ba_active = True\<rparr>],
      ob_strategies = [(''S'', ''orb'')], ob_orders = [demo_order ''o1'' 1, demo_order ''o2'' 2],
      ob_fills = [], ob_events = [],
      ob_virtual = [((''S'', ''A'', ''AB''), demo_virtual 10), ((''S'', ''A'', ''CD''), demo_virtual 0),
                    ((''S'', ''B'', ''AB''), demo_virtual 3)],
      ob_positions = [((''A'', ''CD''), demo_held), ((''A'', ''AB''), demo_held)],
      ob_managed = [new_managed demo_entry 2 5], ob_ineligible = [], ob_rotation = 0\<rparr>"

definition demo_report :: "string \<Rightarrow> rat \<Rightarrow> broker_report" where
  "demo_report i q =
     \<lparr>er_event = ''partially_filled'', er_origin = ''broker'', br_broker_id = None, br_fill_id = Some i,
      br_filled = q, br_price = Some 2, br_reason = '''', br_metadata = [], br_at = 0\<rparr>"

definition demo_read :: "position_snapshot list" where
  "demo_read = [\<lparr>ps_symbol = ''CD'', ps_quantity = 6, ps_average = 2, ps_market = None, ps_as_of = 0\<rparr>]"

theorem fills_high_water_witness:
  "already_recorded ''o1'' (fill_reports (demo_order ''o1'' 1) ''S'' ''A''
     [demo_report ''f2'' 5, demo_report ''f1'' 3, demo_report ''f2'' 5] demo_book) = 5"
proof -
  let ?rs = "[demo_report ''f2'' 5, demo_report ''f1'' 3, demo_report ''f2'' 5]"
  have "already_recorded (bo_id (demo_order ''o1'' 1)) (fill_reports (demo_order ''o1'' 1) ''S'' ''A'' ?rs demo_book)
    = fold max (map br_filled (filter (executes ''A'' demo_book) ?rs))
        (already_recorded (bo_id (demo_order ''o1'' 1)) demo_book)"
    by (rule fills_high_water)
      (auto simp: demo_report_def report_id_def fill_ids_def demo_book_def already_recorded_def)
  then show ?thesis
    by (simp add: demo_order_def demo_report_def executes_def carries_fill_def already_recorded_def demo_book_def)
qed


theorem sync_matches_broker_witness:
  "\<exists>b. sync_account_positions 7 ''A'' demo_read demo_book = Inr (1, b)
     \<and> backing b ''A'' ''CD'' = 6 \<and> backing b ''A'' ''AB'' = 0"
proof -
  obtain b where b: "sync_account_positions 7 ''A'' demo_read demo_book = Inr (1, b)"
    by (simp add: sync_account_positions_def demo_read_def demo_book_def symbols_of_def)
  from sync_matches_broker[OF b, of "''CD''"] sync_matches_broker[OF b, of "''AB''"] b show ?thesis
    by (auto simp: last_snapshot_def demo_read_def)
qed

lemma demo_cleared:
  "clear_verdict [''B''] 5 6000000 demo_book (''S'', ''B'', ''AB'') (demo_virtual 3) = Cleared"
  "clear_verdict [] 5 6000000 demo_book (''S'', ''B'', ''AB'') (demo_virtual 3) = Cleared"
  by code_simp+

lemma demo_row: "map_of (ob_virtual demo_book) (''S'', ''B'', ''AB'') = Some (demo_virtual 3)"
  by (simp add: demo_book_def)

theorem clear_only_unbacked_witness:
  "\<exists>c b. clear_virtual_positions_without_account_backing [''B''] 5 6000000 demo_book = (c, b)
     \<and> map_of (ob_virtual b) (''S'', ''B'', ''AB'') = Some (cleared_row 6000000 (demo_virtual 3))
     \<and> unbacked [''B''] 5 6000000 demo_book (''S'', ''B'', ''AB'') (demo_virtual 3)"
proof -
  obtain c b where b: "clear_virtual_positions_without_account_backing [''B''] 5 6000000 demo_book = (c, b)"
    by fastforce
  note v = demo_row
  have w: "map_of (ob_virtual b) (''S'', ''B'', ''AB'') = Some (cleared_row 6000000 (demo_virtual 3))"
    using map_of_clear[of "[''B'']" 5 6000000 demo_book "(''S'', ''B'', ''AB'')"] b
    by (simp add: v demo_cleared)
  have n: "cleared_row 6000000 (demo_virtual 3) \<noteq> demo_virtual 3"
    by (simp add: cleared_row_def demo_virtual_def)
  from clear_only_unbacked[OF b v w n] b w show ?thesis by blast
qed

theorem restore_owned_backed_witness:
  "\<exists>rs b m. restore_virtual_positions_from_managed [''A''] 7 demo_book = (rs, b)
     \<and> restores [''A''] demo_book (''S'', ''A'', ''CD'') (demo_virtual 0) m \<and> mg_current m = 5"
proof -
  obtain rs b where b: "restore_virtual_positions_from_managed [''A''] 7 demo_book = (rs, b)" by fastforce
  have v: "map_of (ob_virtual demo_book) (''S'', ''A'', ''CD'') = Some (demo_virtual 0)"
    by (simp add: demo_book_def)
  have "map_option hd_quantity (map_of (ob_virtual (snd (restore_virtual_positions_from_managed [''A''] 7 demo_book)))
      (''S'', ''A'', ''CD'')) = Some 5" by code_simp
  then obtain w where w: "map_of (ob_virtual b) (''S'', ''A'', ''CD'') = Some w" "hd_quantity w = 5"
    using b by auto
  then have "w \<noteq> demo_virtual 0" by (auto simp: demo_virtual_def)
  from restore_owned_backed[OF b v w(1) this] w(2) b show ?thesis by auto
qed

theorem unread_accounts_untouched_witness:
  "\<exists>n b. persist_positions 5 6000000 [(''A'', demo_read)] demo_book = Inr (n, b)
     \<and> map_of (ob_virtual b) (''S'', ''B'', ''AB'') = Some (demo_virtual 3)"
proof -
  have "(case persist_positions 5 6000000 [(''A'', demo_read)] demo_book of Inr x \<Rightarrow> True | Inl e \<Rightarrow> False)"
    by code_simp
  then obtain n b where b: "persist_positions 5 6000000 [(''A'', demo_read)] demo_book = Inr (n, b)"
    by (auto split: sum.splits prod.splits)
  note v = demo_row
  from unread_accounts_untouched[OF b _ v] b show ?thesis by simp
qed

theorem sync_rotation_fair_witness:
  "set (map hd (fst (syncs [] 2 demo_book))) = {demo_order ''o1'' 1, demo_order ''o2'' 2}"
proof -
  have l: "list_open_orders [] demo_book = [demo_order ''o2'' 2, demo_order ''o1'' 1]"
    by (simp add: list_open_orders_def newest_first_def demo_book_def order_open_def demo_order_def
        OPEN_ORDER_STATUSES_def)
  have "distinct [demo_order ''o2'' 2, demo_order ''o1'' 1]" by (simp add: demo_order_def)
  with sync_rotation_fair[OF l[symmetric]] have "set (map hd (fst (syncs [] (length
      [demo_order ''o2'' 2, demo_order ''o1'' 1]) demo_book))) = {demo_order ''o2'' 2, demo_order ''o1'' 1}"
    by simp
  moreover have "length [demo_order ''o2'' 2, demo_order ''o1'' 1] = 2" by simp
  ultimately show ?thesis by (metis insert_commute)
qed

section \<open>What a round does not promise\<close>

text \<open>
  When every read of a round fails there is no account to restrict the clearing to, and an empty
  restriction is none: rows of accounts that were not read are cleared, which the log line of the
  failed read denies.
\<close>

lemma all_reads_failed_clears:
  "\<exists>b. persist_positions 5 6000000 [] demo_book = Inr (0, b)
     \<and> map_of (ob_virtual b) (''S'', ''B'', ''AB'') = Some (cleared_row 6000000 (demo_virtual 3))"
proof -
  have c: "map_of (ob_virtual (snd (clear_virtual_positions_without_account_backing [] 5 6000000 demo_book)))
      (''S'', ''B'', ''AB'') = Some (cleared_row 6000000 (demo_virtual 3))"
    unfolding map_of_clear by (simp add: demo_row demo_cleared)
  obtain rs b where r: "restore_virtual_positions_from_managed [] 6000000
      (snd (clear_virtual_positions_without_account_backing [] 5 6000000 demo_book)) = (rs, b)" by fastforce
  have none: "\<not> restores [] b' (''S'', ''B'', ''AB'') v m" if "ob_accounts b' = ob_accounts demo_book" for b' v m
    using that by (auto simp: restores_def owned_key_def account_named_def demo_book_def split: option.splits if_splits)
  have "map_of (ob_virtual b) (''S'', ''B'', ''AB'') = Some (cleared_row 6000000 (demo_virtual 3))"
    using restore_managed_rows_row[OF r[unfolded restore_virtual_positions_from_managed_def] c] none[OF clear_frame(4)] by blast
  then show ?thesis using r by (simp add: persist_positions_def)
qed

text \<open>
  The managed row of an entry that fills in parts keeps the quantity of its first part: a later part
  finds the row open and, unless it came with a terminal Webull status, leaves it as it is.
\<close>

lemma later_fill_not_managed:
  assumes "get_open_managed_position (ef_account_name e) (ef_symbol e) b = Some m"
    and "meta_text md ''webull_terminal_with_partial_fill'' \<notin> {Some ''cancelled'', Some ''rejected''}"
  shows "apply_managed_position_after_fill g ''buy'' it md e q p (b, w) = Inr (b, w)"
  using assms by (simp add: apply_managed_position_after_fill_def buy_managed_def grows_same_entry_def)

end
