(* ===== verification/ArmedStops.thy ===== *)
theory ArmedStops
  imports OmsBook
begin

text \<open>
  The armed hard stops of \<open>oms/service.py\<close>: the registry the order management keeps of the
  protective stops of its own fills, their ratchet and trigger on market events, the close they
  send, and the durable mirror of the registry that a restart reads back. A stop is a mutable
  object that the market loop still holds while fills replace it in the registry, so objects live
  in a store and the registry holds references. Every await of the market loop is a frame; between
  two frames fills, order statuses and flushes of other tasks may run. Floats are exact rationals,
  instants microseconds. The protected close of the Schwab strategies
  (\<open>_reserve1_trigger_schwab_hard_stop\<close>) is not modelled: the stops are those of the others.
\<close>

section \<open>Stops\<close>

record armed_stop =
  as_strategy :: string
  as_account :: string
  as_symbol :: string
  as_quantity :: rat
  as_entry :: rat
  as_loss_pct :: rat
  as_stop :: rat
  as_max_age_ms :: int
  as_buffer_pct :: rat
  as_in_flight :: bool
  as_last_try :: "int option"
  as_failures :: nat
  as_trail_pct :: rat
  as_high :: "rat option"
  as_armed_at :: "int option"

text \<open>The persisted fields of a stop (\<open>_armed_stop_row_kwargs\<close>).\<close>

record stop_row =
  sw_quantity :: rat
  sw_entry :: rat
  sw_loss_pct :: rat
  sw_stop :: rat
  sw_max_age_ms :: int
  sw_buffer_pct :: rat
  sw_trail_pct :: rat
  sw_high :: "rat option"
  sw_in_flight :: bool

type_synonym stop_key = "string \<times> string \<times> string"

datatype frame =
    Idle
  | Checking nat rat string "nat list"
  | Sending nat "nat list"
  | Reading nat "nat list"

record stop_book =
  sb_objects :: "(nat, armed_stop) dict"
  sb_fresh :: nat
  sb_armed :: "(stop_key, nat) dict"
  sb_dirty :: "stop_key list"
  sb_mirror :: "(stop_key, stop_row) dict"
  sb_flights :: "(stop_key \<times> stop_row option) list list"
  sb_quotes :: "(string, rat \<times> int) dict"
  sb_trades :: "(string, rat \<times> int) dict"
  sb_frame :: frame

record stop_config =
  sc_persist :: bool
  sc_ah_max_age_ms :: int
  sc_ah_buffer_pct :: rat
  sc_regular :: "int \<Rightarrow> bool"

definition no_stops :: stop_book where
  "no_stops =
     \<lparr>sb_objects = [], sb_fresh = 0, sb_armed = [], sb_dirty = [], sb_mirror = [], sb_flights = [],
      sb_quotes = [], sb_trades = [], sb_frame = Idle\<rparr>"

definition RECONCILE_AFTER_FAILURES :: nat where "RECONCILE_AFTER_FAILURES = 3"

definition NO_POSITION_REASONS :: "string list" where
  "NO_POSITION_REASONS =
     [''cannot be sold short'', ''insufficient qty'', ''no broker position available to sell'']"

definition hard_stop_key :: "string \<Rightarrow> string \<Rightarrow> string \<Rightarrow> stop_key" where
  "hard_stop_key strategy account symbol = (strategy, account, py_upper symbol)"

definition key_of :: "armed_stop \<Rightarrow> stop_key" where
  "key_of a = hard_stop_key (as_strategy a) (as_account a) (as_symbol a)"

text \<open>The object behind a reference; a reference is always to an object of the store.\<close>

definition stop_at :: "stop_book \<Rightarrow> nat \<Rightarrow> armed_stop" where
  "stop_at s r = the (map_of (sb_objects s) r)"

definition armed_stop_of :: "stop_book \<Rightarrow> stop_key \<Rightarrow> armed_stop option" where
  "armed_stop_of s k = map_option (stop_at s) (map_of (sb_armed s) k)"

definition set_stop :: "nat \<Rightarrow> armed_stop \<Rightarrow> stop_book \<Rightarrow> stop_book" where
  "set_stop r a s = s\<lparr>sb_objects := AList.update r a (sb_objects s)\<rparr>"

definition mark_dirty :: "stop_config \<Rightarrow> stop_key \<Rightarrow> stop_book \<Rightarrow> stop_book" where
  "mark_dirty C k s = (if sc_persist C then s\<lparr>sb_dirty := List.insert k (sb_dirty s)\<rparr> else s)"

definition drop_stop :: "stop_key \<Rightarrow> stop_book \<Rightarrow> stop_book" where
  "drop_stop k s = s\<lparr>sb_armed := AList.delete k (sb_armed s)\<rparr>"

section \<open>Fills\<close>

text \<open>
  \<open>float(metadata.get(key, d) or d)\<close> and \<open>int(...)\<close>: nothing and an empty text are the default, a
  text that is no number raises. The numbers of the metadata are finite.
\<close>

definition meta_float :: "metadata \<Rightarrow> string \<Rightarrow> rat \<Rightarrow> rat option" where
  "meta_float m k d =
     (case map_of m k of
        None \<Rightarrow> Some d
      | Some (MText t) \<Rightarrow> (if t = '''' then Some d else None)
      | Some (MDec (Fin x)) \<Rightarrow> Some x
      | Some (MDec _) \<Rightarrow> None)"

definition meta_int :: "metadata \<Rightarrow> string \<Rightarrow> int \<Rightarrow> int option" where
  "meta_int m k d =
     (case meta_float m k (of_int d) of
        None \<Rightarrow> None
      | Some x \<Rightarrow> (if x = of_int \<lfloor>x\<rfloor> then Some \<lfloor>x\<rfloor> else None))"

definition marks_extended_hours :: "metadata \<Rightarrow> bool" where
  "marks_extended_hours m \<longleftrightarrow>
     meta_text m ''session'' \<in> {Some ''AM'', Some ''PM''} \<or> meta_is m ''extended_hours'' ''true''"

record arm_terms =
  at_loss_pct :: rat
  at_max_age_ms :: int
  at_buffer_pct :: rat
  at_trail_pct :: rat

definition arm_terms_of :: "stop_config \<Rightarrow> metadata \<Rightarrow> rat \<Rightarrow> rat \<Rightarrow> arm_terms option" where
  "arm_terms_of C m quantity price =
     (if \<not> meta_is m ''stop_guard_enabled'' ''true'' then None
      else case meta_float m ''stop_loss_pct'' 0 of
        None \<Rightarrow> None
      | Some loss \<Rightarrow>
          if loss \<le> 0 \<or> quantity \<le> 0 \<or> price \<le> 0 then None
          else let age = (case meta_int m ''stop_guard_quote_max_age_ms'' 2000 of
                            None \<Rightarrow> 2000 | Some n \<Rightarrow> n);
                   buf = (case meta_float m ''stop_guard_initial_panic_buffer_pct'' (15 / 10) of
                            None \<Rightarrow> 15 / 10 | Some x \<Rightarrow> x);
                   ext = marks_extended_hours m
               in Some \<lparr>at_loss_pct = loss,
                        at_max_age_ms = (if ext then min (max 0 age) (max 0 (sc_ah_max_age_ms C)) else age),
                        at_buffer_pct = (if ext then max buf (sc_ah_buffer_pct C) else buf),
                        at_trail_pct = (case meta_float m ''trail_pct'' 0 of None \<Rightarrow> 0 | Some x \<Rightarrow> x)\<rparr>)"

text \<open>The stop armed by a guarded buy, over the stop it scales into.\<close>

definition weighted_entry :: "armed_stop option \<Rightarrow> rat \<Rightarrow> rat \<Rightarrow> rat" where
  "weighted_entry existing quantity price =
     (case existing of
        None \<Rightarrow> price
      | Some a \<Rightarrow>
          (let total = as_quantity a + quantity
           in if total > 0 then (as_entry a * as_quantity a + price * quantity) / total else price))"

definition trail_of :: "armed_stop option \<Rightarrow> rat \<Rightarrow> rat" where
  "trail_of existing trail =
     (case existing of Some a \<Rightarrow> (if trail \<le> 0 then as_trail_pct a else trail) | None \<Rightarrow> trail)"

definition armed_by ::
  "arm_terms \<Rightarrow> string \<Rightarrow> string \<Rightarrow> string \<Rightarrow> rat \<Rightarrow> rat \<Rightarrow> int \<Rightarrow> armed_stop option \<Rightarrow> armed_stop" where
  "armed_by t strategy account symbol quantity price now existing =
     (let entry = weighted_entry existing quantity price;
          fixed = entry * (1 - at_loss_pct t / 100);
          trail = trail_of existing (at_trail_pct t)
      in \<lparr>as_strategy = strategy, as_account = account, as_symbol = symbol,
          as_quantity = (case existing of None \<Rightarrow> quantity | Some a \<Rightarrow> as_quantity a + quantity),
          as_entry = entry, as_loss_pct = at_loss_pct t,
          as_stop = (case existing of
                       Some a \<Rightarrow> (if trail > 0 \<and> as_stop a > fixed then as_stop a else fixed)
                     | None \<Rightarrow> fixed),
          as_max_age_ms = max 0 (at_max_age_ms t), as_buffer_pct = at_buffer_pct t,
          as_in_flight = False, as_last_try = None, as_failures = 0, as_trail_pct = trail,
          as_high = (if trail > 0
                     then Some (max entry (case existing of
                                             Some a \<Rightarrow> (case as_high a of None \<Rightarrow> entry | Some h \<Rightarrow> h)
                                           | None \<Rightarrow> entry))
                     else None),
          as_armed_at = (case existing of
                           Some a \<Rightarrow> (case as_armed_at a of None \<Rightarrow> Some now | Some t \<Rightarrow> Some t)
                         | None \<Rightarrow> Some now)\<rparr>)"

text \<open>\<open>_update_hard_stop_registry_from_fill\<close>, for a side and an intent type in lower case.\<close>

definition registry_fill ::
  "stop_config \<Rightarrow> string \<Rightarrow> string \<Rightarrow> string \<Rightarrow> string \<Rightarrow> string \<Rightarrow> rat \<Rightarrow> rat \<Rightarrow> metadata \<Rightarrow> int
   \<Rightarrow> stop_book \<Rightarrow> stop_book" where
  "registry_fill C strategy account symbol side intent_type quantity price m now s0 =
     (let k = hard_stop_key strategy account symbol;
          s = mark_dirty C k s0
      in if side = ''buy'' \<and> intent_type = ''open''
         then (case arm_terms_of C m quantity price of
                 None \<Rightarrow> s
               | Some t \<Rightarrow>
                   let a = armed_by t strategy account (py_upper symbol) quantity price now (armed_stop_of s k)
                   in s\<lparr>sb_objects := AList.update (sb_fresh s) a (sb_objects s),
                        sb_armed := AList.update k (sb_fresh s) (sb_armed s),
                        sb_fresh := sb_fresh s + 1\<rparr>)
         else (case map_of (sb_armed s) k of
                 None \<Rightarrow> s
               | Some r \<Rightarrow>
                   if quantity \<le> 0 \<or> side \<noteq> ''sell'' then s
                   else let left = max 0 (as_quantity (stop_at s r) - quantity)
                        in if left \<le> 0 then drop_stop k s
                           else set_stop r ((stop_at s r)\<lparr>as_quantity := left\<rparr>) s))"

section \<open>Order statuses\<close>

definition has_sub :: "string \<Rightarrow> string \<Rightarrow> bool" where
  "has_sub needle hay \<longleftrightarrow>
     list_ex (\<lambda>n. take (length needle) (drop n hay) = needle) [0..<Suc (length hay)]"

text \<open>\<open>_update_hard_stop_registry_from_order_status\<close>, for a status and a reason in lower case.\<close>

definition registry_status ::
  "stop_config \<Rightarrow> string \<Rightarrow> string \<Rightarrow> string \<Rightarrow> metadata \<Rightarrow> string \<Rightarrow> string \<Rightarrow> stop_book \<Rightarrow> stop_book" where
  "registry_status C strategy account symbol m status reason s0 =
     (let k = hard_stop_key strategy account symbol;
          s = mark_dirty C k s0
      in case map_of (sb_armed s) k of
           None \<Rightarrow> s
         | Some r \<Rightarrow>
             if \<not> meta_is m ''stop_guard'' ''true'' then s
             else if status \<in> {''accepted'', ''submitted'', ''partially_filled''}
             then set_stop r ((stop_at s r)\<lparr>as_in_flight := True\<rparr>) s
             else if status = ''filled'' then drop_stop k s
             else if status \<in> {''cancelled'', ''rejected''}
             then (if list_ex (\<lambda>t. has_sub t reason) NO_POSITION_REASONS then drop_stop k s
                   else set_stop r ((stop_at s r)\<lparr>as_in_flight :=
                          has_sub ''duplicate_exit_in_flight'' reason
                          \<or> has_sub ''broker quantity already reserved for pending exits'' reason\<rparr>) s)
             else s)"

section \<open>Market events\<close>

definition fresh_price :: "int \<Rightarrow> int \<Rightarrow> (rat \<times> int) option \<Rightarrow> rat option" where
  "fresh_price now max_age_ms seen =
     (case seen of
        None \<Rightarrow> None
      | Some (p, t) \<Rightarrow> (if now - t \<le> max 0 max_age_ms * 1000 then Some p else None))"

text \<open>\<open>_resolve_hard_stop_trigger_price\<close>: the fresh bid, but a fresh last trade that breaches alone.\<close>

definition resolve_trigger_price :: "int \<Rightarrow> armed_stop \<Rightarrow> stop_book \<Rightarrow> (rat \<times> string) option" where
  "resolve_trigger_price now a s =
     (let bid = fresh_price now (as_max_age_ms a) (map_of (sb_quotes s) (as_symbol a));
          last = fresh_price now (as_max_age_ms a) (map_of (sb_trades s) (as_symbol a))
      in case (bid, last) of
           (Some b, Some l) \<Rightarrow>
             if b \<le> as_stop a then Some (b, ''bid'')
             else if l \<le> as_stop a then Some (l, ''last'') else Some (b, ''bid'')
         | (Some b, None) \<Rightarrow> Some (b, ''bid'')
         | (None, Some l) \<Rightarrow> Some (l, ''last'')
         | (None, None) \<Rightarrow> None)"

definition ratcheted_trailing_stop :: "rat \<Rightarrow> rat \<Rightarrow> rat \<Rightarrow> rat \<Rightarrow> rat \<times> rat" where
  "ratcheted_trailing_stop stop high observed trail =
     (if trail \<le> 0 \<or> observed \<le> high then (stop, high)
      else let candidate = observed * (1 - trail / 100)
           in (if candidate > stop then candidate else stop, observed))"

definition ratchet_trailing_stop :: "stop_config \<Rightarrow> int \<Rightarrow> nat \<Rightarrow> stop_book \<Rightarrow> stop_book" where
  "ratchet_trailing_stop C now r s =
     (let a = stop_at s r
      in if as_trail_pct a \<le> 0 then s
         else case fresh_price now (as_max_age_ms a) (map_of (sb_quotes s) (as_symbol a)) of
           None \<Rightarrow> s
         | Some bid \<Rightarrow>
             (case ratcheted_trailing_stop (as_stop a) (case as_high a of None \<Rightarrow> as_entry a | Some h \<Rightarrow> h)
                     bid (as_trail_pct a) of
                (stop, high) \<Rightarrow>
                  let s1 = set_stop r (a\<lparr>as_stop := stop, as_high := Some high\<rparr>) s
                  in if stop \<noteq> as_stop a \<or> Some high \<noteq> as_high a
                     then mark_dirty C (key_of a) s1 else s1))"

definition trigger_throttled :: "int \<Rightarrow> armed_stop \<Rightarrow> bool" where
  "trigger_throttled now a \<longleftrightarrow> (case as_last_try a of None \<Rightarrow> False | Some t \<Rightarrow> now - t < 250000)"

text \<open>One stop of the loop of \<open>_evaluate_hard_stop_market_event\<close>, up to its trigger.\<close>

definition decide_stop ::
  "stop_config \<Rightarrow> int \<Rightarrow> nat \<Rightarrow> stop_book \<Rightarrow> (rat \<times> string) option \<times> stop_book" where
  "decide_stop C now r s =
     (if as_in_flight (stop_at s r) then (None, s)
      else let s1 = ratchet_trailing_stop C now r s; a = stop_at s1 r
           in if trigger_throttled now a then (None, s1)
              else case resolve_trigger_price now a s1 of
                None \<Rightarrow> (None, s1)
              | Some (p, src) \<Rightarrow> (if p > as_stop a then (None, s1) else (Some (p, src), s1)))"

definition row_of_stop :: "armed_stop \<Rightarrow> stop_row" where
  "row_of_stop a =
     \<lparr>sw_quantity = as_quantity a, sw_entry = as_entry a, sw_loss_pct = as_loss_pct a,
      sw_stop = as_stop a, sw_max_age_ms = as_max_age_ms a, sw_buffer_pct = as_buffer_pct a,
      sw_trail_pct = as_trail_pct a, sw_high = as_high a, sw_in_flight = as_in_flight a\<rparr>"

text \<open>\<open>_flush_dirty_armed_stops\<close> up to its await: the dirty keys are taken and read.\<close>

definition begin_flush :: "stop_config \<Rightarrow> stop_book \<Rightarrow> stop_book" where
  "begin_flush C s =
     (if \<not> sc_persist C \<or> sb_dirty s = [] then s
      else s\<lparr>sb_dirty := [],
             sb_flights := sb_flights s @ [map (\<lambda>k. (k, map_option row_of_stop (armed_stop_of s k))) (sb_dirty s)]\<rparr>)"

text \<open>The close a trigger sends: the reference, its key, the quantity, the price and its source.\<close>

datatype stop_label = Quiet | Close nat stop_key rat rat string

definition send_close ::
  "int \<Rightarrow> nat \<Rightarrow> rat \<Rightarrow> string \<Rightarrow> nat list \<Rightarrow> stop_book \<Rightarrow> stop_label \<times> stop_book" where
  "send_close now r price source rest s =
     (let a = stop_at s r
      in (Close r (key_of a) (as_quantity a) price source,
          (set_stop r (a\<lparr>as_last_try := Some now, as_in_flight := True\<rparr>) s)\<lparr>sb_frame := Sending r rest\<rparr>))"

fun eval_loop :: "stop_config \<Rightarrow> int \<Rightarrow> nat list \<Rightarrow> stop_book \<Rightarrow> stop_label \<times> stop_book" where
  "eval_loop C now [] s = (Quiet, (begin_flush C s)\<lparr>sb_frame := Idle\<rparr>)"
| "eval_loop C now (r # rs) s =
     (case decide_stop C now r s of
        (None, s1) \<Rightarrow> eval_loop C now rs s1
      | (Some (p, src), s1) \<Rightarrow>
          if sc_regular C now then (Quiet, s1\<lparr>sb_frame := Checking r p src rs\<rparr>)
          else send_close now r p src rs s1)"

definition matching_stops :: "string \<Rightarrow> stop_book \<Rightarrow> nat list" where
  "matching_stops symbol s =
     filter (\<lambda>r. as_symbol (stop_at s r) = py_upper symbol \<and> as_quantity (stop_at s r) > 0)
       (map snd (sb_armed s))"

definition evaluate_market_event :: "stop_config \<Rightarrow> int \<Rightarrow> string \<Rightarrow> stop_book \<Rightarrow> stop_label \<times> stop_book" where
  "evaluate_market_event C now symbol s =
     (case matching_stops symbol s of
        [] \<Rightarrow> (Quiet, s)
      | r # rs \<Rightarrow> eval_loop C now (r # rs) s)"

definition quote_tick ::
  "stop_config \<Rightarrow> int \<Rightarrow> string \<Rightarrow> rat \<Rightarrow> int \<Rightarrow> stop_book \<Rightarrow> stop_label \<times> stop_book" where
  "quote_tick C now symbol bid t s =
     (let s1 = s\<lparr>sb_quotes := AList.update (py_upper symbol) (bid, t) (sb_quotes s)\<rparr>
      in if sb_armed s1 = [] then (Quiet, s1) else evaluate_market_event C now (py_upper symbol) s1)"

definition trade_tick ::
  "stop_config \<Rightarrow> int \<Rightarrow> string \<Rightarrow> rat \<Rightarrow> int \<Rightarrow> stop_book \<Rightarrow> stop_label \<times> stop_book" where
  "trade_tick C now symbol price t s =
     evaluate_market_event C now (py_upper symbol)
       (s\<lparr>sb_trades := AList.update (py_upper symbol) (price, t) (sb_trades s)\<rparr>)"

text \<open>The answer of the native-guard lookup; a lookup that raises counts as no guard.\<close>

definition guard_answer ::
  "stop_config \<Rightarrow> int \<Rightarrow> bool \<Rightarrow> nat \<Rightarrow> rat \<Rightarrow> string \<Rightarrow> nat list \<Rightarrow> stop_book \<Rightarrow> stop_label \<times> stop_book" where
  "guard_answer C now has_guard r price source rest s =
     (if has_guard
      then eval_loop C now rest (set_stop r ((stop_at s r)\<lparr>as_last_try := Some now\<rparr>) s)
      else send_close now r price source rest s)"

text \<open>
  \<open>process_trade_intent\<close> has returned the statuses and reasons of its order events, or raised. A
  raise leaves the loop: the stop stays in flight and nothing is flushed.
\<close>

definition close_answer ::
  "stop_config \<Rightarrow> int \<Rightarrow> (string \<times> string) list result \<Rightarrow> nat \<Rightarrow> nat list \<Rightarrow> stop_book
   \<Rightarrow> stop_label \<times> stop_book" where
  "close_answer C now answer r rest s =
     (case answer of
        Inl e \<Rightarrow> (Quiet, s\<lparr>sb_frame := Idle\<rparr>)
      | Inr events \<Rightarrow>
          let a = stop_at s r; k = key_of a
          in if list_ex (\<lambda>(st, _). st \<in> {''accepted'', ''submitted'', ''partially_filled'', ''filled''}) events
             then let s1 = set_stop r (a\<lparr>as_failures := 0\<rparr>) s
                  in eval_loop C now rest
                       (if list_ex (\<lambda>(st, _). st = ''filled'') events
                        then mark_dirty C k (drop_stop k s1) else s1)
             else let s1 = set_stop r (a\<lparr>as_in_flight := False\<rparr>) s
                  in if list_ex (\<lambda>(_, why). why \<in> set NO_POSITION_REASONS) events
                     then eval_loop C now rest (mark_dirty C k (drop_stop k s1))
                     else let n = as_failures a + 1;
                              s2 = set_stop r (a\<lparr>as_in_flight := False, as_failures := n\<rparr>) s
                          in if n \<ge> RECONCILE_AFTER_FAILURES
                             then (Quiet, s2\<lparr>sb_frame := Reading r rest\<rparr>)
                             else eval_loop C now rest s2)"

text \<open>The broker's positions were read: a confirmed flat clears the stop, anything else keeps it.\<close>

definition read_answer ::
  "stop_config \<Rightarrow> int \<Rightarrow> bool \<Rightarrow> nat \<Rightarrow> nat list \<Rightarrow> stop_book \<Rightarrow> stop_label \<times> stop_book" where
  "read_answer C now flat r rest s =
     (let a = stop_at s r; k = key_of a
      in eval_loop C now rest
           (if flat then mark_dirty C k (drop_stop k s) else set_stop r (a\<lparr>as_failures := 0\<rparr>) s))"

section \<open>The durable mirror\<close>

text \<open>The row as the table of armed stops keeps it.\<close>

definition stored_stop_row :: "stop_row \<Rightarrow> stop_row" where
  "stored_stop_row w =
     w\<lparr>sw_quantity := numeric_col 8 (sw_quantity w), sw_entry := numeric_col 8 (sw_entry w),
       sw_loss_pct := numeric_col 6 (sw_loss_pct w), sw_stop := numeric_col 8 (sw_stop w),
       sw_buffer_pct := numeric_col 6 (sw_buffer_pct w), sw_trail_pct := numeric_col 6 (sw_trail_pct w),
       sw_high := map_option (numeric_col 8) (sw_high w)\<rparr>"

fun write_mirror ::
  "(stop_key \<times> stop_row option) list \<Rightarrow> (stop_key, stop_row) dict \<Rightarrow> (stop_key, stop_row) dict" where
  "write_mirror [] d = d"
| "write_mirror ((k, None) # xs) d = write_mirror xs (AList.delete k d)"
| "write_mirror ((k, Some w) # xs) d = write_mirror xs (AList.update k (stored_stop_row w) d)"

text \<open>A flush in flight commits, or fails and its keys are dirty again.\<close>

definition commit_flush :: "nat \<Rightarrow> bool \<Rightarrow> stop_book \<Rightarrow> stop_book" where
  "commit_flush i ok s =
     (let snapshot = sb_flights s ! i;
          s1 = s\<lparr>sb_flights := take i (sb_flights s) @ drop (Suc i) (sb_flights s)\<rparr>
      in if ok then s1\<lparr>sb_mirror := write_mirror snapshot (sb_mirror s1)\<rparr>
         else s1\<lparr>sb_dirty := foldr List.insert (map fst snapshot) (sb_dirty s1)\<rparr>)"

definition stop_of_row :: "stop_key \<Rightarrow> stop_row \<Rightarrow> armed_stop" where
  "stop_of_row k w =
     (case k of (strategy, account, symbol) \<Rightarrow>
        \<lparr>as_strategy = strategy, as_account = account, as_symbol = py_upper symbol,
         as_quantity = sw_quantity w, as_entry = sw_entry w, as_loss_pct = sw_loss_pct w,
         as_stop = sw_stop w, as_max_age_ms = sw_max_age_ms w, as_buffer_pct = sw_buffer_pct w,
         as_in_flight = sw_in_flight w, as_last_try = None, as_failures = 0,
         as_trail_pct = sw_trail_pct w, as_high = sw_high w, as_armed_at = None\<rparr>)"

definition rearm_row :: "stop_key \<times> stop_row \<Rightarrow> stop_book \<Rightarrow> stop_book" where
  "rearm_row p s =
     (case p of (k, w) \<Rightarrow>
        s\<lparr>sb_objects := AList.update (sb_fresh s) (stop_of_row k w) (sb_objects s),
          sb_armed := AList.update (key_of (stop_of_row k w)) (sb_fresh s) (sb_armed s),
          sb_fresh := sb_fresh s + 1\<rparr>)"

text \<open>A restart: the process memory is gone, the rows of the mirror are armed again.\<close>

definition rehydrate :: "stop_book \<Rightarrow> stop_book" where
  "rehydrate s = fold rearm_row (sb_mirror s) (no_stops\<lparr>sb_mirror := sb_mirror s\<rparr>)"

section \<open>Steps\<close>

text \<open>
  What can happen next. The market loop has one frame, so a tick is taken only when it is idle;
  fills, statuses and flushes come at any moment. \<open>fifo\<close> says that flushes commit in the order
  they were taken.
\<close>

inductive market_step :: "stop_config \<Rightarrow> bool \<Rightarrow> stop_book \<Rightarrow> stop_label \<Rightarrow> stop_book \<Rightarrow> bool" for C fifo where
  on_quote: "sb_frame s = Idle \<Longrightarrow> quote_tick C now y bid ts s = (l, t) \<Longrightarrow> market_step C fifo s l t"
| on_trade: "sb_frame s = Idle \<Longrightarrow> trade_tick C now y p ts s = (l, t) \<Longrightarrow> market_step C fifo s l t"
| on_guard: "sb_frame s = Checking r p src rest \<Longrightarrow> guard_answer C now g r p src rest s = (l, t)
    \<Longrightarrow> market_step C fifo s l t"
| on_close: "sb_frame s = Sending r rest \<Longrightarrow> close_answer C now answer r rest s = (l, t)
    \<Longrightarrow> market_step C fifo s l t"
| on_read: "sb_frame s = Reading r rest \<Longrightarrow> read_answer C now flat r rest s = (l, t)
    \<Longrightarrow> market_step C fifo s l t"
| on_flush: "market_step C fifo s Quiet (begin_flush C s)"
| on_commit: "i < length (sb_flights s) \<Longrightarrow> fifo \<longrightarrow> i = 0
    \<Longrightarrow> market_step C fifo s Quiet (commit_flush i ok s)"

inductive stop_step :: "stop_config \<Rightarrow> bool \<Rightarrow> stop_book \<Rightarrow> stop_label \<Rightarrow> stop_book \<Rightarrow> bool" for C fifo where
  of_market: "market_step C fifo s l t \<Longrightarrow> stop_step C fifo s l t"
| of_fill: "stop_step C fifo s Quiet (registry_fill C st ac y side it q p m now s)"
| of_status: "stop_step C fifo s Quiet (registry_status C st ac y m status reason s)"

inductive_cases market_stepE: "market_step C fifo s l t"
inductive_cases stop_stepE: "stop_step C fifo s l t"

end
