(* ===== verification/ArmedStopsSpec.thy ===== *)
theory ArmedStopsSpec
  imports ArmedStops
begin

text \<open>
  What the registry of hard stops promises: a trailing stop never loosens, a close is sent only on a
  breach, and the mirror brings back every stop of a process whose flushes committed in order; and
  what it does not: a close that raises leaves its stop disarmed, and flushes that commit out of
  order lose a stop.
\<close>

declare split_paired_All [simp del] split_paired_Ex [simp del]

section \<open>Well-formed registries\<close>

definition refs :: "stop_book \<Rightarrow> nat set" where
  "refs s = dom (map_of (sb_objects s))"

definition frame_refs :: "frame \<Rightarrow> nat set" where
  "frame_refs f = (case f of Idle \<Rightarrow> {} | Checking r p src rs \<Rightarrow> insert r (set rs)
     | Sending r rs \<Rightarrow> insert r (set rs) | Reading r rs \<Rightarrow> insert r (set rs))"

definition frame_ok :: "stop_book \<Rightarrow> bool" where
  "frame_ok s \<longleftrightarrow> frame_refs (sb_frame s) \<subseteq> refs s
     \<and> (\<forall>r p src rs. sb_frame s = Checking r p src rs \<longrightarrow> p \<le> as_stop (stop_at s r))"

definition registry_ok :: "stop_book \<Rightarrow> bool" where
  "registry_ok s \<longleftrightarrow>
     keys_distinct (sb_armed s) \<and> (\<forall>r \<in> refs s. r < sb_fresh s)
     \<and> (\<forall>k r. map_of (sb_armed s) k = Some r \<longrightarrow> r \<in> refs s \<and> key_of (stop_at s r) = k)"

text \<open>A stop's durable face: its row but for the transient flag of a close in flight.\<close>

definition face :: "armed_stop \<Rightarrow> stop_row" where
  "face a = (row_of_stop a)\<lparr>sw_in_flight := False\<rparr>"

definition faces :: "stop_book \<Rightarrow> stop_key \<Rightarrow> stop_row option" where
  "faces s k = map_option face (armed_stop_of s k)"

text \<open>The mirror once the flushes in flight have committed in order.\<close>

definition view :: "stop_book \<Rightarrow> stop_key \<Rightarrow> stop_row option" where
  "view s k = map_of (fold write_mirror (sb_flights s) (sb_mirror s)) k"

definition mirrored :: "stop_book \<Rightarrow> bool" where
  "mirrored s \<longleftrightarrow> keys_distinct (sb_mirror s)
     \<and> (\<forall>k. k \<in> set (sb_dirty s) \<or> map_option (\<lambda>w. w\<lparr>sw_in_flight := False\<rparr>) (view s k) = map_option stored_stop_row (faces s k))"

text \<open>One stop only ever tightens while it stays armed.\<close>

definition tightens :: "stop_book \<Rightarrow> stop_book \<Rightarrow> bool" where
  "tightens s t \<longleftrightarrow>
     (\<forall>k b. armed_stop_of t k = Some b \<longrightarrow>
        (\<exists>a. armed_stop_of s k = Some a \<and> as_trail_pct b = as_trail_pct a \<and> as_stop a \<le> as_stop b))
     \<and> (\<forall>r \<in> refs s. r \<in> refs t \<and> as_stop (stop_at s r) \<le> as_stop (stop_at t r)
            \<and> key_of (stop_at t r) = key_of (stop_at s r))"

text \<open>What an operation of the market loop does.\<close>

definition evolves :: "stop_config \<Rightarrow> stop_book \<Rightarrow> stop_book \<Rightarrow> bool" where
  "evolves C s t \<longleftrightarrow> registry_ok t \<and> (sc_persist C \<and> mirrored s \<longrightarrow> mirrored t) \<and> tightens s t"

lemma tightens_armed:
  assumes "tightens s t" "armed_stop_of t k = Some b" "armed_stop_of s k = Some a"
  shows "as_trail_pct b = as_trail_pct a \<and> as_stop a \<le> as_stop b"
  using assms unfolding tightens_def by fastforce

lemma tightens_refl: "tightens s s"
  by (auto simp: tightens_def)

lemma tightens_trans: "tightens s u \<Longrightarrow> tightens u t \<Longrightarrow> tightens s t"
  unfolding tightens_def
proof (intro conjI allI impI ballI, goal_cases)
  case (1 k b)
  then obtain a where a: "armed_stop_of u k = Some a" "as_trail_pct b = as_trail_pct a" "as_stop a \<le> as_stop b"
    by blast
  from 1(1) a(1) obtain c where "armed_stop_of s k = Some c" "as_trail_pct a = as_trail_pct c"
    "as_stop c \<le> as_stop a" by blast
  with a show ?case by (intro exI[of _ c]) auto
qed (auto intro: order_trans)

lemma evolves_refl: "registry_ok s \<Longrightarrow> evolves C s s"
  by (simp add: evolves_def tightens_refl)

lemma evolves_trans: "evolves C s u \<Longrightarrow> evolves C u t \<Longrightarrow> evolves C s t"
  unfolding evolves_def using tightens_trans by blast

lemma evolves_ok: "evolves C s t \<Longrightarrow> registry_ok t"
  and evolves_refs: "evolves C s t \<Longrightarrow> refs s \<subseteq> refs t"
  by (auto simp: evolves_def tightens_def)

section \<open>Moves of the registry\<close>

lemma set_stop_parts:
  "sb_armed (set_stop r a s) = sb_armed s" "sb_dirty (set_stop r a s) = sb_dirty s"
  "sb_mirror (set_stop r a s) = sb_mirror s" "sb_flights (set_stop r a s) = sb_flights s"
  "sb_fresh (set_stop r a s) = sb_fresh s" "sb_frame (set_stop r a s) = sb_frame s"
  "sb_quotes (set_stop r a s) = sb_quotes s" "sb_trades (set_stop r a s) = sb_trades s"
  "stop_at (set_stop r a s) q = (if q = r then a else stop_at s q)"
  "r \<in> refs s \<Longrightarrow> refs (set_stop r a s) = refs s"
  by (auto simp: set_stop_def stop_at_def refs_def dict_simps dom_def)

lemma stop_at_fields [simp]:
  "stop_at (s\<lparr>sb_armed := x1\<rparr>) = stop_at s" "stop_at (s\<lparr>sb_dirty := x2\<rparr>) = stop_at s"
  "stop_at (s\<lparr>sb_flights := x3\<rparr>) = stop_at s" "stop_at (s\<lparr>sb_mirror := x4\<rparr>) = stop_at s"
  "stop_at (s\<lparr>sb_frame := x5\<rparr>) = stop_at s" "stop_at (s\<lparr>sb_quotes := x6\<rparr>) = stop_at s"
  "stop_at (s\<lparr>sb_trades := x7\<rparr>) = stop_at s" "stop_at (s\<lparr>sb_fresh := x8\<rparr>) = stop_at s"
  by (simp_all add: stop_at_def fun_eq_iff)

lemma refs_fields [simp]:
  "refs (s\<lparr>sb_armed := x1\<rparr>) = refs s" "refs (s\<lparr>sb_dirty := x2\<rparr>) = refs s"
  "refs (s\<lparr>sb_flights := x3\<rparr>) = refs s" "refs (s\<lparr>sb_mirror := x4\<rparr>) = refs s"
  "refs (s\<lparr>sb_frame := x5\<rparr>) = refs s" "refs (s\<lparr>sb_quotes := x6\<rparr>) = refs s"
  "refs (s\<lparr>sb_trades := x7\<rparr>) = refs s" "refs (s\<lparr>sb_fresh := x8\<rparr>) = refs s"
  by (simp_all add: refs_def)

lemma view_cong: "sb_flights t = sb_flights s \<Longrightarrow> sb_mirror t = sb_mirror s \<Longrightarrow> view t k = view s k"
  by (simp add: view_def)

lemma armed_lookup: "armed_stop_of s k = Some a \<longleftrightarrow> (\<exists>r. map_of (sb_armed s) k = Some r \<and> stop_at s r = a)"
  by (auto simp: armed_stop_of_def)

lemma evolves_write:
  assumes s: "registry_ok s" and r: "r \<in> refs s" and key: "key_of a = key_of (stop_at s r)"
    and trail: "as_trail_pct a = as_trail_pct (stop_at s r)" and stop: "as_stop (stop_at s r) \<le> as_stop a"
    and D: "set (sb_dirty s) \<subseteq> set D"
    and face: "face a = face (stop_at s r) \<or> key_of a \<in> set D \<or> \<not> sc_persist C"
  shows "evolves C s ((set_stop r a s)\<lparr>sb_dirty := D\<rparr>)"
proof -
  define t where "t = (set_stop r a s)\<lparr>sb_dirty := D\<rparr>"
  have parts: "sb_armed t = sb_armed s" "refs t = refs s" "sb_fresh t = sb_fresh s"
    "\<And>q. stop_at t q = (if q = r then a else stop_at s q)"
    "sb_flights t = sb_flights s" "sb_mirror t = sb_mirror s" "sb_dirty t = D"
    using r by (auto simp: t_def set_stop_parts)
  have same: "faces t k = faces s k" if "k \<notin> set D" "sc_persist C" for k
  proof (cases "map_of (sb_armed s) k = Some r")
    case True
    with s have "key_of (stop_at s r) = k" by (simp add: registry_ok_def)
    with that key face True show ?thesis by (auto simp: faces_def armed_stop_of_def parts)
  qed (auto simp: faces_def armed_stop_of_def parts option.map_comp comp_def map_option_case split: option.splits)
  have "registry_ok t" using s key by (auto simp: registry_ok_def parts)
  moreover have "mirrored t" if "mirrored s" "sc_persist C"
  proof -
    have "k \<in> set D \<or> map_option (\<lambda>w. w\<lparr>sw_in_flight := False\<rparr>) (view s k) = map_option stored_stop_row (faces t k)" for k
    proof (cases "k \<in> set D")
      case False
      with D that(1) have "map_option (\<lambda>w. w\<lparr>sw_in_flight := False\<rparr>) (view s k) = map_option stored_stop_row (faces s k)"
        unfolding mirrored_def by blast
      with same[OF False that(2)] show ?thesis by simp
    qed simp
    with that(1) show ?thesis unfolding mirrored_def view_cong[OF parts(5,6)] parts(6,7) by blast
  qed
  moreover have "tightens s t" using r trail stop key by (auto simp: tightens_def armed_lookup parts)
  ultimately show ?thesis by (simp add: evolves_def t_def)
qed

lemma evolves_set:
  assumes "registry_ok s" "r \<in> refs s" "key_of a = key_of (stop_at s r)"
    "as_trail_pct a = as_trail_pct (stop_at s r)" "as_stop (stop_at s r) \<le> as_stop a"
    "face a = face (stop_at s r)"
  shows "evolves C s (set_stop r a s)"
proof -
  have "(set_stop r a s)\<lparr>sb_dirty := sb_dirty s\<rparr> = set_stop r a s" by (simp add: set_stop_def)
  with evolves_write[OF assms(1-5), of "sb_dirty s" C] assms(6) show ?thesis by simp
qed

lemma evolves_mark_set:
  assumes "registry_ok s" "r \<in> refs s" "key_of a = key_of (stop_at s r)"
    "as_trail_pct a = as_trail_pct (stop_at s r)" "as_stop (stop_at s r) \<le> as_stop a"
  shows "evolves C s (mark_dirty C (key_of a) (set_stop r a s))"
proof (cases "sc_persist C")
  case True
  with evolves_write[OF assms, of "List.insert (key_of a) (sb_dirty s)" C] show ?thesis
    by (auto simp: mark_dirty_def set_stop_parts)
next
  case False
  have "(set_stop r a s)\<lparr>sb_dirty := sb_dirty s\<rparr> = set_stop r a s" by (simp add: set_stop_def)
  with evolves_write[OF assms, of "sb_dirty s" C] False show ?thesis by (simp add: mark_dirty_def)
qed

lemma drop_parts:
  "refs (mark_dirty C k (drop_stop k s)) = refs s" "stop_at (mark_dirty C k (drop_stop k s)) = stop_at s"
  "sb_fresh (mark_dirty C k (drop_stop k s)) = sb_fresh s" "sb_frame (mark_dirty C k (drop_stop k s)) = sb_frame s"
  by (auto simp: mark_dirty_def drop_stop_def refs_def stop_at_def fun_eq_iff)

lemma evolves_drop:
  assumes s: "registry_ok s"
  shows "evolves C s (mark_dirty C k (drop_stop k s))"
proof -
  let ?t = "mark_dirty C k (drop_stop k s)"
  have a: "map_of (sb_armed ?t) q = (if q = k then None else map_of (sb_armed s) q)" for q
    by (simp add: mark_dirty_def drop_stop_def dict_simps)
  have "keys_distinct (sb_armed ?t)"
    using s by (simp add: mark_dirty_def drop_stop_def registry_ok_def dict_simps)
  then have "registry_ok ?t" using s by (auto simp: registry_ok_def drop_parts a)
  moreover have "mirrored ?t" if "mirrored s" "sc_persist C"
    using that by (auto simp: mirrored_def mark_dirty_def drop_stop_def view_def faces_def armed_stop_of_def
        dict_simps)
  moreover have "tightens s ?t" by (auto simp: tightens_def armed_lookup drop_parts a split: if_splits)
  ultimately show ?thesis by (simp add: evolves_def)
qed

lemma evolves_frame:
  assumes "registry_ok s"
  shows "evolves C s (s\<lparr>sb_frame := f\<rparr>)" "evolves C s (s\<lparr>sb_quotes := q\<rparr>)" "evolves C s (s\<lparr>sb_trades := q\<rparr>)"
proof -
  have "evolves C s t"
    if "sb_armed t = sb_armed s" "refs t = refs s" "stop_at t = stop_at s" "sb_fresh t = sb_fresh s"
      "sb_dirty t = sb_dirty s" "sb_flights t = sb_flights s" "sb_mirror t = sb_mirror s" for t
  proof -
    have ar: "armed_stop_of t k = armed_stop_of s k" for k by (simp add: armed_stop_of_def that)
    show ?thesis
      using assms that(1-5) that(7)
      by (auto simp: evolves_def registry_ok_def mirrored_def view_cong[OF that(6,7)] faces_def ar tightens_def)
  qed
  then show "evolves C s (s\<lparr>sb_frame := f\<rparr>)" "evolves C s (s\<lparr>sb_quotes := q\<rparr>)" "evolves C s (s\<lparr>sb_trades := q\<rparr>)"
    by simp_all
qed

section \<open>Flushes\<close>

lemma write_mirror_other: "k \<notin> fst ` set xs \<Longrightarrow> map_of (write_mirror xs d) k = map_of d k"
  by (induction xs d rule: write_mirror.induct) (auto simp: dict_simps)

lemma write_mirror_cong:
  "map_of d k = map_of d' k \<Longrightarrow> map_of (write_mirror xs d) k = map_of (write_mirror xs d') k"
  by (induction xs d arbitrary: d' rule: write_mirror.induct) (auto simp: dict_simps)

lemma write_mirror_function:
  "map_of (write_mirror (map (\<lambda>k. (k, f k)) ks) d) k = (if k \<in> set ks then map_option stored_stop_row (f k) else map_of d k)"
proof (induction ks arbitrary: d)
  case (Cons q ks)
  then show ?case by (cases "f q") (auto simp: dict_simps)
qed simp

lemma fold_write_cong:
  "map_of d k = map_of d' k \<Longrightarrow> map_of (fold write_mirror xss d) k = map_of (fold write_mirror xss d') k"
proof (induction xss arbitrary: d d')
  case (Cons xs xss)
  show ?case unfolding fold_simps by (rule Cons.IH[OF write_mirror_cong[OF Cons.prems]])
qed simp

lemma evolves_begin_flush:
  assumes "registry_ok s"
  shows "evolves C s (begin_flush C s)" "sb_frame (begin_flush C s) = sb_frame s"
    "refs (begin_flush C s) = refs s" "stop_at (begin_flush C s) = stop_at s"
proof -
  have fc: "map_option (\<lambda>w. w\<lparr>sw_in_flight := False\<rparr>)
      (map_option stored_stop_row (map_option row_of_stop (armed_stop_of s k))) = map_option stored_stop_row (faces s k)" for k
    by (cases "armed_stop_of s k") (simp_all add: faces_def face_def stored_stop_row_def)
  show "evolves C s (begin_flush C s)"
    using assms fc
    by (auto simp: begin_flush_def evolves_def registry_ok_def tightens_def
        armed_stop_of_def mirrored_def view_def write_mirror_function faces_def)
qed (simp_all add: begin_flush_def)

lemma commit_parts:
  "sb_armed (commit_flush i ok s) = sb_armed s" "refs (commit_flush i ok s) = refs s"
  "stop_at (commit_flush i ok s) = stop_at s" "sb_fresh (commit_flush i ok s) = sb_fresh s"
  "sb_frame (commit_flush i ok s) = sb_frame s"
  by (auto simp: commit_flush_def Let_def refs_def stop_at_def fun_eq_iff)

lemma commit_registry:
  assumes "registry_ok s"
  shows "registry_ok (commit_flush i ok s)" "tightens s (commit_flush i ok s)"
  using assms by (auto simp: registry_ok_def tightens_def armed_lookup commit_parts)

lemma commit_first:
  assumes s: "registry_ok s" and n: "sb_flights s \<noteq> []"
  shows "evolves C s (commit_flush 0 ok s)"
proof -
  obtain xs xss where f: "sb_flights s = xs # xss" using n by (cases "sb_flights s") auto
  let ?t = "commit_flush 0 ok s"
  note parts = commit_parts[of 0 ok s]
  have v: "k \<in> set (sb_dirty ?t) \<or> k \<notin> set (sb_dirty s) \<and> view ?t k = view s k"
    if "k \<notin> set (sb_dirty s) \<or> k \<in> set (sb_dirty ?t)" for k
  proof (cases ok)
    case True
    then show ?thesis using that by (auto simp: commit_flush_def Let_def f view_def)
  next
    case False
    have d: "set (foldr List.insert (map fst xs) (sb_dirty s)) = fst ` set xs \<union> set (sb_dirty s)"
      by (induction xs) auto
    show ?thesis
    proof (cases "k \<in> fst ` set xs")
      case True
      then show ?thesis using False d by (simp add: commit_flush_def Let_def f)
    next
      case other: False
      have "map_of (write_mirror xs (sb_mirror s)) k = map_of (sb_mirror s) k"
        by (rule write_mirror_other[OF other])
      from fold_write_cong[OF this] show ?thesis
        using False that d other by (auto simp: commit_flush_def Let_def f view_def)
    qed
  qed
  have dm: "set (sb_dirty s) \<subseteq> set (sb_dirty ?t)"
  proof -
    have "set (foldr List.insert ks ds) = set ks \<union> set ds" for ks ds :: "stop_key list"
      by (induction ks) auto
    then show ?thesis by (auto simp: commit_flush_def Let_def)
  qed
  have "mirrored ?t" if m: "mirrored s"
    unfolding mirrored_def
  proof (intro conjI allI)
    have "keys_distinct d \<Longrightarrow> keys_distinct (write_mirror ys d)" for ys d
      by (induction ys d rule: write_mirror.induct) (auto simp: dict_simps)
    with m show "keys_distinct (sb_mirror ?t)" by (simp add: commit_flush_def Let_def mirrored_def)
    fix k
    have f: "faces ?t k = faces s k" by (simp add: faces_def armed_stop_of_def parts)
    show "k \<in> set (sb_dirty ?t) \<or> map_option (\<lambda>w. w\<lparr>sw_in_flight := False\<rparr>) (view ?t k) = map_option stored_stop_row (faces ?t k)"
    proof (cases "k \<in> set (sb_dirty ?t)")
      case False
      with dm have "k \<notin> set (sb_dirty s)" by blast
      with v[of k] m False show ?thesis unfolding f mirrored_def by auto
    qed simp
  qed
  then show ?thesis using commit_registry[OF s] by (simp add: evolves_def)
qed

section \<open>The market loop\<close>

lemma ratchet_cases:
  obtains "ratchet_trailing_stop C now r s = s"
  | stop high where "as_stop (stop_at s r) \<le> stop"
      "ratchet_trailing_stop C now r s =
         (let a = (stop_at s r)\<lparr>as_stop := stop, as_high := Some high\<rparr>
          in if stop \<noteq> as_stop (stop_at s r) \<or> Some high \<noteq> as_high (stop_at s r)
             then mark_dirty C (key_of a) (set_stop r a s) else set_stop r a s)"
proof -
  let ?a = "stop_at s r"
  consider "ratchet_trailing_stop C now r s = s"
    | bid where "\<not> as_trail_pct ?a \<le> 0"
        "fresh_price now (as_max_age_ms ?a) (map_of (sb_quotes s) (as_symbol ?a)) = Some bid"
  proof (cases "as_trail_pct ?a \<le> 0")
    case True
    then have "ratchet_trailing_stop C now r s = s" by (simp add: ratchet_trailing_stop_def Let_def)
    then show thesis by (rule that(1))
  next
    case False
    show thesis
    proof (cases "fresh_price now (as_max_age_ms ?a) (map_of (sb_quotes s) (as_symbol ?a))")
      case None
      then have "ratchet_trailing_stop C now r s = s" by (simp add: ratchet_trailing_stop_def Let_def)
      then show thesis by (rule that(1))
    qed (use False that(2) in blast)
  qed
  then show thesis
  proof cases
    case (2 bid)
    obtain stop high where sh: "ratcheted_trailing_stop (as_stop ?a)
        (case as_high ?a of None \<Rightarrow> as_entry ?a | Some h \<Rightarrow> h) bid (as_trail_pct ?a) = (stop, high)"
      by fastforce
    then have "as_stop ?a \<le> stop"
      by (auto simp: ratcheted_trailing_stop_def Let_def split: if_splits)
    moreover have "key_of (?a\<lparr>as_stop := stop, as_high := Some high\<rparr>) = key_of ?a" by (simp add: key_of_def)
    ultimately show thesis
      using that(2)[of stop high] 2 sh by (simp add: ratchet_trailing_stop_def Let_def)
  qed (rule that(1))
qed

lemma ratchet_evolves:
  assumes s: "registry_ok s" and r: "r \<in> refs s"
  shows "evolves C s (ratchet_trailing_stop C now r s)
    \<and> sb_frame (ratchet_trailing_stop C now r s) = sb_frame s
    \<and> as_in_flight (stop_at (ratchet_trailing_stop C now r s) q) = as_in_flight (stop_at s q)"
proof (cases rule: ratchet_cases[where C = C and now = now and r = r and s = s])
  case 1
  then show ?thesis using evolves_refl[OF s] by simp
next
  case (2 stop high)
  define a where "a = (stop_at s r)\<lparr>as_stop := stop, as_high := Some high\<rparr>"
  have k: "key_of a = key_of (stop_at s r)" "as_trail_pct a = as_trail_pct (stop_at s r)"
    "as_stop (stop_at s r) \<le> as_stop a" "as_in_flight a = as_in_flight (stop_at s r)"
    using 2(1) by (simp_all add: a_def key_of_def)
  have f: "face a = face (stop_at s r)" if "stop = as_stop (stop_at s r)" "Some high = as_high (stop_at s r)"
    using that by (simp add: a_def face_def row_of_stop_def)
  show ?thesis
    unfolding 2(2) Let_def a_def[symmetric]
    using evolves_set[OF s r k(1-3), of C] evolves_mark_set[OF s r k(1-3), of C] f k(4)
    by (auto simp: mark_dirty_def set_stop_parts)
qed

lemma decide_evolves:
  assumes "registry_ok s" "r \<in> refs s" "decide_stop C now r s = (v, t)"
  shows "evolves C s t \<and> sb_frame t = sb_frame s
     \<and> (\<forall>q. as_in_flight (stop_at t q) = as_in_flight (stop_at s q))
     \<and> (\<forall>p src. v = Some (p, src) \<longrightarrow> \<not> as_in_flight (stop_at s r) \<and> p \<le> as_stop (stop_at t r))"
proof (cases "as_in_flight (stop_at s r)")
  case True
  with assms(3) evolves_refl[OF assms(1), of C] show ?thesis by (auto simp: decide_stop_def)
next
  case False
  then have "t = ratchet_trailing_stop C now r s" "v = Some (p, src) \<longrightarrow> p \<le> as_stop (stop_at t r)" for p src
    using assms(3) by (auto simp: decide_stop_def Let_def split: if_splits option.splits)
  with ratchet_evolves[OF assms(1,2), of C now] False show ?thesis by blast
qed

text \<open>What a turn of the market loop guarantees.\<close>

definition close_ok :: "stop_book \<Rightarrow> stop_label \<Rightarrow> bool" where
  "close_ok t l \<longleftrightarrow>
     (\<forall>r k q p src. l = Close r k q p src \<longrightarrow>
        k = key_of (stop_at t r) \<and> q = as_quantity (stop_at t r) \<and> p \<le> as_stop (stop_at t r)
        \<and> as_in_flight (stop_at t r) \<and> r \<in> refs t)"

definition turns :: "stop_config \<Rightarrow> stop_book \<Rightarrow> stop_label \<times> stop_book \<Rightarrow> bool" where
  "turns C s x \<longleftrightarrow> evolves C s (snd x) \<and> frame_ok (snd x) \<and> close_ok (snd x) (fst x)"

lemma send_turns:
  assumes "registry_ok s" "r \<in> refs s" "set rest \<subseteq> refs s" "p \<le> as_stop (stop_at s r)"
  shows "turns C s (send_close now r p src rest s)"
proof -
  let ?a = "(stop_at s r)\<lparr>as_last_try := Some now, as_in_flight := True\<rparr>"
  have "evolves C s (set_stop r ?a s)"
    by (rule evolves_set[OF assms(1,2)]) (simp_all add: key_of_def face_def row_of_stop_def)
  from evolves_trans[OF this evolves_frame(1)[OF evolves_ok[OF this]]]
  have "evolves C s ((set_stop r ?a s)\<lparr>sb_frame := Sending r rest\<rparr>)" .
  then show ?thesis
    using assms
    by (simp add: turns_def send_close_def Let_def frame_ok_def frame_refs_def close_ok_def set_stop_parts
        key_of_def)
qed

lemma turns_after: "evolves C s u \<Longrightarrow> turns C u x \<Longrightarrow> turns C s x"
  unfolding turns_def using evolves_trans by blast

lemma eval_loop_turns:
  "registry_ok s \<Longrightarrow> set rs \<subseteq> refs s \<Longrightarrow> turns C s (eval_loop C now rs s)"
proof (induction C now rs s rule: eval_loop.induct)
  case (1 C now s)
  note f = evolves_begin_flush[OF 1(1), of C]
  from evolves_trans[OF f(1) evolves_frame(1)[OF evolves_ok[OF f(1)]]] show ?case
    by (simp add: turns_def frame_ok_def frame_refs_def close_ok_def)
next
  case (2 C now r rs s)
  obtain v t where d: "decide_stop C now r s = (v, t)" by fastforce
  from "2.prems"(2) have r: "r \<in> refs s" "set rs \<subseteq> refs s" by simp_all
  note e = decide_evolves[OF "2.prems"(1) r(1) d]
  then have t: "registry_ok t" "r \<in> refs t" "set rs \<subseteq> refs t" "evolves C s t"
    using r evolves_ok evolves_refs by blast+
  show ?case
  proof (cases v)
    case None
    with "2.IH"[OF d[symmetric] None t(1,3)] turns_after[OF t(4)] d show ?thesis by simp
  next
    case (Some x)
    obtain p src where x: "x = (p, src)" by (cases x)
    with e Some have p: "p \<le> as_stop (stop_at t r)" by simp
    show ?thesis
    proof (cases "sc_regular C now")
      case True
      from evolves_trans[OF t(4) evolves_frame(1)[OF t(1)]] show ?thesis
        using True t p by (simp add: d Some x turns_def frame_ok_def frame_refs_def close_ok_def)
    next
      case False
      with turns_after[OF t(4) send_turns[OF t(1,2,3) p]] show ?thesis by (simp add: d Some x)
    qed
  qed
qed

lemma turns_quiet: "evolves C s t \<Longrightarrow> frame_ok t \<Longrightarrow> turns C s (Quiet, t)"
  by (simp add: turns_def close_ok_def)

lemma frame_ok_Idle: "sb_frame s = Idle \<Longrightarrow> frame_ok s"
  by (simp add: frame_ok_def frame_refs_def)

lemma matching_subset: "registry_ok s \<Longrightarrow> set (matching_stops y s) \<subseteq> refs s"
  by (auto simp: registry_ok_def matching_stops_def dest: map_of_is_SomeI)

lemma evaluate_turns:
  assumes "registry_ok s" "sb_frame s = Idle"
  shows "turns C s (evaluate_market_event C now y s)"
proof (cases "matching_stops y s")
  case Nil
  with turns_quiet[OF evolves_refl[OF assms(1)] frame_ok_Idle[OF assms(2)]] show ?thesis
    by (simp add: evaluate_market_event_def)
next
  case (Cons r rs)
  with matching_subset[OF assms(1), of y] eval_loop_turns[OF assms(1), of "r # rs" C now] show ?thesis
    by (simp add: evaluate_market_event_def del: eval_loop.simps)
qed

lemma quote_turns:
  assumes "registry_ok s" "sb_frame s = Idle"
  shows "turns C s (quote_tick C now y bid ts s)"
proof -
  let ?s = "s\<lparr>sb_quotes := AList.update (py_upper y) (bid, ts) (sb_quotes s)\<rparr>"
  note e = evolves_frame(2)[OF assms(1), of C "AList.update (py_upper y) (bid, ts) (sb_quotes s)"]
  have "turns C ?s (evaluate_market_event C now (py_upper y) ?s)"
    by (rule evaluate_turns) (use assms evolves_ok[OF e] in simp_all)
  from turns_after[OF e this] turns_quiet[OF e] show ?thesis
    using assms(2) by (auto simp: quote_tick_def Let_def frame_ok_Idle)
qed

lemma trade_turns:
  assumes "registry_ok s" "sb_frame s = Idle"
  shows "turns C s (trade_tick C now y p ts s)"
proof -
  note e = evolves_frame(3)[OF assms(1), of C "AList.update (py_upper y) (p, ts) (sb_trades s)"]
  show ?thesis
    unfolding trade_tick_def
    by (rule turns_after[OF e], rule evaluate_turns) (use assms evolves_ok[OF e] in simp_all)
qed

lemma after_set_turns:
  assumes "registry_ok s" "evolves C s u" "set rest \<subseteq> refs s"
  shows "turns C s (eval_loop C now rest u)"
  using turns_after[OF assms(2) eval_loop_turns[OF evolves_ok[OF assms(2)]]] evolves_refs[OF assms(2)] assms(3)
  by blast

text \<open>Bookkeeping on a stop that its durable face does not show.\<close>

lemmas face_simps = key_of_def face_def row_of_stop_def

lemma guard_turns:
  assumes "registry_ok s" "frame_ok s" "sb_frame s = Checking r p src rest"
  shows "turns C s (guard_answer C now g r p src rest s)"
proof -
  have r: "r \<in> refs s" "set rest \<subseteq> refs s" "p \<le> as_stop (stop_at s r)"
    using assms(2,3) by (simp_all add: frame_ok_def frame_refs_def)
  have "evolves C s (set_stop r ((stop_at s r)\<lparr>as_last_try := Some now\<rparr>) s)"
    by (rule evolves_set[OF assms(1) r(1)]) (simp_all add: face_simps)
  from after_set_turns[OF assms(1) this r(2)] send_turns[OF assms(1) r] show ?thesis
    by (simp add: guard_answer_def)
qed

lemma close_turns:
  assumes s: "registry_ok s" "frame_ok s" "sb_frame s = Sending r rest"
  shows "turns C s (close_answer C now answer r rest s)"
proof (cases answer)
  case (Inl e)
  have "turns C s (Quiet, s\<lparr>sb_frame := Idle\<rparr>)"
    by (rule turns_quiet[OF evolves_frame(1)[OF s(1)]]) (simp add: frame_ok_Idle)
  then show ?thesis by (simp add: close_answer_def Inl)
next
  case (Inr events)
  have r: "r \<in> refs s" "set rest \<subseteq> refs s" using s(2,3) by (simp_all add: frame_ok_def frame_refs_def)
  have set: "evolves C s (set_stop r ((stop_at s r)\<lparr>as_failures := n\<rparr>) s)"
    "evolves C s (set_stop r ((stop_at s r)\<lparr>as_in_flight := False\<rparr>) s)"
    "evolves C s (set_stop r ((stop_at s r)\<lparr>as_in_flight := False, as_failures := n\<rparr>) s)" for n
    by (rule evolves_set[OF s(1) r(1)]; simp add: face_simps)+
  note turn = after_set_turns[OF s(1) _ r(2)]
  note popped = evolves_trans[OF _ evolves_drop[OF evolves_ok]]
  have reading: "turns C s (Quiet, (set_stop r ((stop_at s r)\<lparr>as_in_flight := False, as_failures := n\<rparr>) s)
      \<lparr>sb_frame := Reading r rest\<rparr>)" for n
    by (rule turns_quiet[OF evolves_trans[OF set(3) evolves_frame(1)[OF evolves_ok[OF set(3)]]]])
      (use r in \<open>simp add: frame_ok_def frame_refs_def set_stop_parts\<close>)
  show ?thesis
    unfolding close_answer_def Inr sum.case Let_def
    using turn[OF set(1)] turn[OF popped[OF set(1) set(1)]] turn[OF popped[OF set(2) set(2)]] reading
      turn[OF set(3)] by simp
qed

lemma read_turns:
  assumes "registry_ok s" "frame_ok s" "sb_frame s = Reading r rest"
  shows "turns C s (read_answer C now flat r rest s)"
proof -
  have r: "r \<in> refs s" "set rest \<subseteq> refs s" using assms(2,3) by (simp_all add: frame_ok_def frame_refs_def)
  have "evolves C s (set_stop r ((stop_at s r)\<lparr>as_failures := 0\<rparr>) s)"
    by (rule evolves_set[OF assms(1) r(1)]) (simp_all add: face_simps)
  from after_set_turns[OF assms(1) this r(2)] after_set_turns[OF assms(1) evolves_drop[OF assms(1)] r(2)]
  show ?thesis by (simp add: read_answer_def Let_def)
qed

lemma market_step_turns:
  assumes "registry_ok s" "frame_ok s" "market_step C True s l t"
  shows "turns C s (l, t)"
  using assms(3)
proof (cases rule: market_step.cases)
  case (on_commit i ok)
  then have i: "i = 0" "sb_flights s \<noteq> []" by auto
  have "frame_ok (commit_flush 0 ok s)" using assms(2) by (simp add: frame_ok_def commit_parts)
  with turns_quiet[OF commit_first[OF assms(1) i(2)]] on_commit i show ?thesis by simp
next
  case on_flush
  note f = evolves_begin_flush[OF assms(1), of C]
  have "frame_ok (begin_flush C s)" using assms(2) by (simp add: frame_ok_def f(2-4))
  with turns_quiet[OF f(1)] on_flush show ?thesis by simp
qed (use assms(1,2) quote_turns trade_turns guard_turns close_turns read_turns in metis)+

section \<open>Fills and statuses\<close>

lemma char_upper_again: "char_upper (char_upper c) = char_upper c"
proof -
  have "\<not> CHR ''a'' \<le> d" if "CHR ''a'' \<le> c" "c \<le> CHR ''z''" "d = char_of (of_char c - 32 :: nat)" for d
  proof -
    have "97 \<le> (of_char c :: nat)" "(of_char c :: nat) \<le> 122"
      using that(1,2) by (simp_all add: less_eq_char_def)
    then have "(of_char d :: nat) = of_char c - 32" using that(3) by simp
    then show ?thesis using \<open>of_char c \<le> 122\<close> by (simp add: less_eq_char_def)
  qed
  then show ?thesis by (auto simp: char_upper_def Let_def)
qed

lemma py_upper_again [simp]: "py_upper (py_upper s) = py_upper s"
  by (simp add: py_upper_def char_upper_again)

lemma frame_ok_evolves:
  assumes "evolves C s t" "sb_frame t = sb_frame s" "frame_ok s"
  shows "frame_ok t"
proof -
  have t: "r \<in> refs t \<and> as_stop (stop_at s r) \<le> as_stop (stop_at t r)" if "r \<in> refs s" for r
    using assms(1) that by (auto simp: evolves_def tightens_def)
  show ?thesis
    using assms(2,3) t unfolding frame_ok_def
    by (auto simp: frame_refs_def intro: order_trans split: frame.splits)
qed

lemma evolves_mark:
  assumes "registry_ok s"
  shows "evolves C s (mark_dirty C k s)"
  using assms
  by (auto simp: mark_dirty_def evolves_def registry_ok_def mirrored_def view_def faces_def armed_stop_of_def
      tightens_def)

lemma mark_commutes:
  "set_stop r a (mark_dirty C k s) = mark_dirty C k (set_stop r a s)"
  "drop_stop k' (mark_dirty C k s) = mark_dirty C k (drop_stop k' s)"
  "stop_at (mark_dirty C k s) = stop_at s" "sb_armed (mark_dirty C k s) = sb_armed s"
  "sb_frame (mark_dirty C k s) = sb_frame s" "refs (mark_dirty C k s) = refs s"
  by (simp_all add: mark_dirty_def set_stop_def drop_stop_def)

lemma status_evolves:
  assumes "registry_ok s"
  shows "evolves C s (registry_status C st ac y m status reason s)"
    "sb_frame (registry_status C st ac y m status reason s) = sb_frame s"
proof -
  let ?k = "hard_stop_key st ac y"
  have mark: "evolves C s (mark_dirty C ?k s)" by (rule evolves_mark[OF assms])
  have set: "evolves C s (mark_dirty C ?k (set_stop r ((stop_at s r)\<lparr>as_in_flight := f\<rparr>) s))"
    if "map_of (sb_armed s) ?k = Some r" for r f
  proof -
    have "r \<in> refs s" using assms that by (auto simp: registry_ok_def)
    then have e: "evolves C s (set_stop r ((stop_at s r)\<lparr>as_in_flight := f\<rparr>) s)"
      by (rule evolves_set[OF assms]) (simp_all add: face_simps)
    from evolves_trans[OF e evolves_mark[OF evolves_ok[OF e]]] show ?thesis .
  qed
  show "evolves C s (registry_status C st ac y m status reason s)"
    using mark set evolves_drop[OF assms, of C ?k]
    by (auto simp: registry_status_def Let_def mark_commutes split: option.split)
  show "sb_frame (registry_status C st ac y m status reason s) = sb_frame s"
    by (simp add: registry_status_def Let_def mark_commutes set_stop_parts drop_stop_def split: option.split)
qed

text \<open>A guarded buy arms a new object under its key.\<close>

definition arm :: "stop_key \<Rightarrow> armed_stop \<Rightarrow> stop_book \<Rightarrow> stop_book" where
  "arm k a s =
     s\<lparr>sb_objects := AList.update (sb_fresh s) a (sb_objects s),
       sb_armed := AList.update k (sb_fresh s) (sb_armed s), sb_fresh := sb_fresh s + 1\<rparr>"

lemma arm_parts:
  assumes "registry_ok s"
  shows "refs (arm k a s) = insert (sb_fresh s) (refs s)"
    "r \<in> refs s \<Longrightarrow> stop_at (arm k a s) r = stop_at s r" "stop_at (arm k a s) (sb_fresh s) = a"
    "map_of (sb_armed (arm k a s)) q = (if q = k then Some (sb_fresh s) else map_of (sb_armed s) q)"
    "sb_frame (arm k a s) = sb_frame s" "sb_fresh s \<notin> refs s"
  using assms by (auto simp: arm_def refs_def stop_at_def dict_simps dom_def registry_ok_def)

lemma arm_keeps:
  assumes s: "registry_ok s" and k: "key_of a = k" and d: "sc_persist C \<longrightarrow> k \<in> set (sb_dirty s)"
  shows "registry_ok (arm k a s)" "frame_ok s \<Longrightarrow> frame_ok (arm k a s)"
    "sc_persist C \<Longrightarrow> mirrored s \<Longrightarrow> mirrored (arm k a s)"
proof -
  note p = arm_parts[OF s]
  have old: "map_of (sb_armed s) q = Some r \<Longrightarrow> r \<in> refs s \<and> key_of (stop_at s r) = q" for q r
    using s by (simp add: registry_ok_def)
  show "registry_ok (arm k a s)"
    using s k old p by (auto simp: registry_ok_def arm_def dict_simps less_Suc_eq refs_def)
  show "frame_ok (arm k a s)" if "frame_ok s"
    using that p by (auto simp: frame_ok_def frame_refs_def split: frame.splits)
  have f: "faces (arm k a s) q = faces s q" if "q \<noteq> k" for q
  proof (cases "map_of (sb_armed s) q")
    case (Some r)
    with old[OF Some] that show ?thesis by (simp add: faces_def armed_stop_of_def p(2) p(4))
  qed (use that in \<open>simp add: faces_def armed_stop_of_def p(4)\<close>)
  show "mirrored (arm k a s)" if "sc_persist C" "mirrored s"
  proof -
    have "sb_dirty (arm k a s) = sb_dirty s" "sb_mirror (arm k a s) = sb_mirror s" "view (arm k a s) = view s"
      by (auto simp: arm_def view_def fun_eq_iff)
    with that d f show ?thesis unfolding mirrored_def by metis
  qed
qed


definition stops_sound :: "stop_config \<Rightarrow> stop_book \<Rightarrow> bool" where
  "stops_sound C s \<longleftrightarrow> registry_ok s \<and> frame_ok s \<and> (sc_persist C \<longrightarrow> mirrored s)"

lemma sound_evolves:
  assumes "evolves C s t" "sb_frame t = sb_frame s" "stops_sound C s"
  shows "stops_sound C t"
  using assms frame_ok_evolves[OF assms(1,2)] by (auto simp: stops_sound_def evolves_def)

lemma dirty_marked: "sc_persist C \<Longrightarrow> k \<in> set (sb_dirty (mark_dirty C k s))"
  by (simp add: mark_dirty_def)

text \<open>A fill either arms one stop or evolves the book.\<close>

lemma fill_cases:
  assumes "registry_ok s"
  obtains (arms) t where "registry_fill C st ac y side it q p m now s =
        arm (hard_stop_key st ac y)
          (armed_by t st ac (py_upper y) q p now (armed_stop_of s (hard_stop_key st ac y)))
          (mark_dirty C (hard_stop_key st ac y) s)"
  | (others) "evolves C s (registry_fill C st ac y side it q p m now s)"
      "sb_frame (registry_fill C st ac y side it q p m now s) = sb_frame s"
proof -
  let ?k = "hard_stop_key st ac y" let ?u = "registry_fill C st ac y side it q p m now s"
  note mark = evolves_mark[OF assms, of C ?k]
  have ar: "armed_stop_of (mark_dirty C ?k s) ?k = armed_stop_of s ?k"
    by (simp add: armed_stop_of_def mark_commutes)
  show thesis
  proof (cases "side = ''buy'' \<and> it = ''open''")
    case True
    show thesis
    proof (cases "arm_terms_of C m q p")
      case None
      with True have "?u = mark_dirty C ?k s" by (simp add: registry_fill_def Let_def)
      with others mark show thesis by (simp add: mark_commutes)
    next
      case (Some t)
      then show thesis
        by (intro arms[of t]) (use True ar in \<open>simp add: registry_fill_def arm_def Let_def\<close>)
    qed
  next
    case False
    show thesis
    proof (cases "map_of (sb_armed s) ?k")
      case None
      with False have "?u = mark_dirty C ?k s" by (auto simp: registry_fill_def Let_def mark_commutes)
      with others mark show thesis by (simp add: mark_commutes)
    next
      case (Some r)
      let ?a = "(stop_at s r)\<lparr>as_quantity := max 0 (as_quantity (stop_at s r) - q)\<rparr>"
      have r: "r \<in> refs s" "key_of ?a = ?k" "key_of ?a = key_of (stop_at s r)"
        using assms Some by (auto simp: registry_ok_def key_of_def)
      have e: "evolves C s (mark_dirty C ?k (set_stop r ?a s))"
        using evolves_mark_set[OF assms r(1,3), of C] r(2) by simp
      have u: "?u \<in> {mark_dirty C ?k s, mark_dirty C ?k (drop_stop ?k s), mark_dirty C ?k (set_stop r ?a s)}"
        using False Some by (auto simp: registry_fill_def mark_commutes Let_def)
      with mark e evolves_drop[OF assms, of C ?k] have "evolves C s ?u" by auto
      with u others show thesis by (auto simp: mark_commutes set_stop_parts drop_stop_def)
    qed
  qed
qed

lemma fill_keeps:
  assumes "stops_sound C s"
  shows "stops_sound C (registry_fill C st ac y side it q p m now s)"
proof -
  have s: "registry_ok s" using assms by (simp add: stops_sound_def)
  show ?thesis
  proof (cases rule: fill_cases[OF s, of C st ac y side it q p m now])
    case (1 t)
    let ?k = "hard_stop_key st ac y"
    have "stops_sound C (mark_dirty C ?k s)"
      by (rule sound_evolves[OF evolves_mark[OF s] _ assms]) (simp add: mark_commutes)
    then have u: "registry_ok (mark_dirty C ?k s)" "frame_ok (mark_dirty C ?k s)"
      "sc_persist C \<longrightarrow> mirrored (mark_dirty C ?k s)" by (simp_all add: stops_sound_def)
    have "key_of (armed_by t st ac (py_upper y) q p now b) = ?k" for b
      by (simp add: armed_by_def Let_def key_of_def hard_stop_key_def)
    from arm_keeps[OF u(1) this, of C] u(2,3) dirty_marked[of C ?k s] show ?thesis
      by (simp add: 1 stops_sound_def)
  qed (use sound_evolves[OF _ _ assms] in blast)
qed

lemma market_keeps:
  assumes "stops_sound C s" "market_step C True s l t"
  shows "stops_sound C t"
  using assms market_step_turns[of s C l t] by (auto simp: stops_sound_def turns_def evolves_def)

lemma stop_step_keeps:
  assumes "stops_sound C s" "stop_step C True s l t"
  shows "stops_sound C t"
  using assms(2)
proof (cases rule: stop_step.cases)
  case of_market
  then show ?thesis by (rule market_keeps[OF assms(1)])
next
  case of_fill
  then show ?thesis using fill_keeps[OF assms(1)] by simp
next
  case of_status
  have "registry_ok s" using assms(1) by (simp add: stops_sound_def)
  from sound_evolves[OF status_evolves[OF this] assms(1)] of_status show ?thesis by simp
qed

lemma no_stops_sound: "stops_sound C no_stops"
  by (simp add: stops_sound_def registry_ok_def frame_ok_def frame_refs_def mirrored_def view_def faces_def
      armed_stop_of_def no_stops_def refs_def)

interpretation registry: invariant_system "\<lambda>s. s = no_stops" "stop_step C True" "stops_sound C" for C
  by unfold_locales (use no_stops_sound stop_step_keeps in auto)


text \<open>Commits out of order still keep the registry itself well formed.\<close>

lemma market_step_fifo:
  assumes "market_step C fifo s l t"
  obtains "market_step C True s l t" | i ok where "l = Quiet" "t = commit_flush i ok s"
  using assms by (cases rule: market_step.cases) (blast intro: market_step.intros)+

lemma step_tightens:
  assumes "registry_ok s" "frame_ok s" "market_step C fifo s l t"
  shows "registry_ok t \<and> frame_ok t \<and> tightens s t \<and> close_ok t l"
proof (cases rule: market_step_fifo[OF assms(3)])
  case 1
  with market_step_turns[OF assms(1,2), of C l t] show ?thesis by (auto simp: turns_def evolves_def)
next
  case (2 i ok)
  have "frame_ok t" using assms(2) 2 by (simp add: frame_ok_def commit_parts)
  with commit_registry[OF assms(1), of i ok] 2 show ?thesis by (simp add: close_ok_def)
qed

lemma arm_well_formed:
  assumes "registry_ok s" "frame_ok s" "key_of a = k"
  shows "registry_ok (arm k a s)" "frame_ok (arm k a s)"
  using arm_keeps(1,2)[OF assms(1,3), of "\<lparr>sc_persist = False, sc_ah_max_age_ms = 0, sc_ah_buffer_pct = 0,
      sc_regular = (\<lambda>_. False)\<rparr>"] assms(2) by simp_all

lemma key_of_armed_by: "key_of (armed_by t st ac (py_upper y) q p now b) = hard_stop_key st ac y"
  by (simp add: armed_by_def Let_def key_of_def hard_stop_key_def)

lemma step_keeps_registry:
  assumes s: "registry_ok s \<and> frame_ok s" and step: "stop_step C fifo s l t"
  shows "registry_ok t \<and> frame_ok t"
proof -
  have r: "registry_ok s" "frame_ok s" using s by simp_all
  have keep: "registry_ok u \<and> frame_ok u" if "evolves C s u" "sb_frame u = sb_frame s" for u
    using evolves_ok[OF that(1)] frame_ok_evolves[OF that r(2)] by simp
  show ?thesis
    using step
  proof (cases rule: stop_step.cases)
    case of_market
    then show ?thesis using step_tightens r by blast
  next
    case (of_fill st ac y side it q p m now)
    show ?thesis
    proof (cases rule: fill_cases[OF r(1), of C st ac y side it q p m now])
      case (1 u)
      have "registry_ok (mark_dirty C k s) \<and> frame_ok (mark_dirty C k s)" for k
        by (rule keep[OF evolves_mark[OF r(1)]]) (simp add: mark_commutes)
      with arm_well_formed[OF _ _ key_of_armed_by] 1 of_fill show ?thesis by simp
    next
      case 2
      with keep of_fill show ?thesis by simp
    qed
  next
    case of_status
    then show ?thesis using keep[OF status_evolves[OF r(1)]] by simp
  qed
qed

interpretation stops: invariant_system "\<lambda>s. s = no_stops" "stop_step C fifo"
  "\<lambda>s. registry_ok s \<and> frame_ok s" for C fifo
proof (unfold_locales, goal_cases)
  case (1 s)
  then show ?case using no_stops_sound by (simp add: stops_sound_def)
qed (rule step_keeps_registry)

section \<open>A trailing stop never loosens\<close>

lemma armed_by_trails:
  assumes "0 < as_trail_pct a"
  shows "0 < as_trail_pct (armed_by t st ac y q p now (Some a))"
    "as_stop a \<le> as_stop (armed_by t st ac y q p now (Some a))"
  using assms by (auto simp: armed_by_def Let_def trail_of_def)

lemma fill_trails:
  assumes s: "registry_ok s" and a: "armed_stop_of s k = Some a" "0 < as_trail_pct a"
    and b: "armed_stop_of (registry_fill C st ac y side it q p m now s) k = Some b"
  shows "0 < as_trail_pct b \<and> as_stop a \<le> as_stop b"
proof (cases rule: fill_cases[OF s, of C st ac y side it q p m now])
  case (1 t)
  let ?k = "hard_stop_key st ac y"
  have u: "registry_ok (mark_dirty C ?k s)" by (rule evolves_ok[OF evolves_mark[OF s]])
  have same: "armed_stop_of (mark_dirty C ?k s) k = armed_stop_of s k"
    by (simp add: armed_stop_of_def mark_commutes)
  show ?thesis
  proof (cases "k = ?k")
    case True
    then have "b = armed_by t st ac (py_upper y) q p now (Some a)"
      using b a(1) by (auto simp: 1 armed_stop_of_def arm_parts[OF u])
    with armed_by_trails[OF a(2)] show ?thesis by simp
  next
    case False
    obtain r where r: "map_of (sb_armed s) k = Some r" "r \<in> refs (mark_dirty C ?k s)" "stop_at s r = a"
      using a(1) s by (auto simp: armed_stop_of_def registry_ok_def mark_commutes)
    then have "b = a"
      using b False by (simp add: 1 armed_stop_of_def arm_parts[OF u] mark_commutes)
    with a(2) show ?thesis by simp
  qed
next
  case 2
  then show ?thesis using tightens_armed[OF _ b a(1)] a(2) by (simp add: evolves_def)
qed

text \<open>
  C7: Whatever happens to the registry of hard stops (market events, fills, order statuses, flushes
  in any order), a trailing stop that is still armed under its key afterwards still trails and its
  level is not lower: also a scale-in, which averages the entry down, keeps the better level.
\<close>
theorem trailing_never_loosens:
  assumes "run (stop_step C fifo) no_stops ls s" "stop_step C fifo s l t"
    "armed_stop_of s k = Some a" "0 < as_trail_pct a" "armed_stop_of t k = Some b"
  shows "0 < as_trail_pct b \<and> as_stop a \<le> as_stop b"
proof -
  have s: "registry_ok s" "frame_ok s" using stops.run_from_init[OF assms(1)] by simp_all
  have by_tightens: ?thesis if "tightens s t"
    using tightens_armed[OF that assms(5,3)] assms(4) by simp
  show ?thesis
    using assms(2)
  proof (cases rule: stop_step.cases)
    case of_market
    then show ?thesis using step_tightens[OF s] by_tightens by blast
  next
    case of_fill
    then show ?thesis using fill_trails[OF s(1) assms(3,4)] assms(5) by simp
  next
    case of_status
    then show ?thesis using status_evolves(1)[OF s(1)] by_tightens by (simp add: evolves_def)
  qed
qed

section \<open>A close is sent on a breach\<close>

text \<open>
  A close is only sent for a stop object of the registry's own making: it names that stop's key and
  its whole quantity, its trigger price is at or below the stop level, and the stop is marked in flight.
\<close>
theorem close_only_on_breach:
  assumes "run (stop_step C fifo) no_stops ls s" "stop_step C fifo s (Close r k q p src) t"
  shows "\<exists>a. map_of (sb_objects t) r = Some a \<and> key_of a = k \<and> as_quantity a = q
    \<and> p \<le> as_stop a \<and> as_in_flight a"
proof -
  have s: "registry_ok s" "frame_ok s" using stops.run_from_init[OF assms(1)] by simp_all
  have "market_step C fifo s (Close r k q p src) t"
    using assms(2) by (cases rule: stop_step.cases) simp_all
  with step_tightens[OF s] have "close_ok t (Close r k q p src)" by blast
  then show ?thesis by (auto simp: close_ok_def refs_def stop_at_def)
qed


section \<open>The mirror brings every stop back\<close>

lemma armed_after_arm:
  assumes "registry_ok s"
  shows "armed_stop_of (arm k a s) q = (if q = k then Some a else armed_stop_of s q)"
proof (cases "q = k")
  case False
  show ?thesis
  proof (cases "map_of (sb_armed s) q")
    case (Some r)
    with assms have "r \<in> refs s" by (simp add: registry_ok_def)
    with Some False show ?thesis by (simp add: armed_stop_of_def arm_parts[OF assms])
  qed (use False in \<open>simp add: armed_stop_of_def arm_parts[OF assms]\<close>)
qed (simp add: armed_stop_of_def arm_parts[OF assms])

lemma rearm_is_arm: "rearm_row (k, w) s = arm (key_of (stop_of_row k w)) (stop_of_row k w) s"
  by (simp add: rearm_row_def arm_def)

lemma rearm_rows:
  assumes "\<And>k w. (k, w) \<in> set ps \<Longrightarrow> key_of (stop_of_row k w) = k" "keys_distinct ps"
    "registry_ok s" "frame_ok s"
  shows "armed_stop_of (fold rearm_row ps s) k
    = (case map_of ps k of Some w \<Rightarrow> Some (stop_of_row k w) | None \<Rightarrow> armed_stop_of s k)"
  using assms
proof (induction ps arbitrary: s)
  case (Cons p ps)
  obtain q w where p: "p = (q, w)" by (cases p)
  have q: "key_of (stop_of_row q w) = q" using Cons.prems(1)[of q w] p by simp
  have new: "q \<notin> fst ` set ps" "keys_distinct ps" using Cons.prems(2) p by simp_all
  have u: "registry_ok (rearm_row p s)" "frame_ok (rearm_row p s)"
    using arm_well_formed[OF Cons.prems(3,4), of "stop_of_row q w" q] q by (simp_all add: p rearm_is_arm)
  have "map_of ps q = None" using new(1) by (simp add: map_of_eq_None_iff)
  then show ?case
    using Cons.IH[OF _ new(2) u] Cons.prems(1) armed_after_arm[OF Cons.prems(3), of q "stop_of_row q w" k]
    by (auto simp: p rearm_is_arm q split: option.splits)
qed simp

text \<open>
  C8: When persistence is on and flushes commit in the order they were taken, a process that stops
  with nothing left to flush restarts with the stops it had: under every key the same quantity,
  entry, loss percentage, level, quote age, buffer, trail and high-water mark, rounded to the scale
  of their columns, and no others. Only
  the transient flag of a close in flight, the time of the last attempt and the count of failed
  closes may differ.
\<close>
theorem restart_keeps_stops:
  assumes run: "run (stop_step C True) no_stops ls s" and on: "sc_persist C"
    and flushed: "sb_dirty s = []" "sb_flights s = []"
  shows "faces (rehydrate s) k = map_option stored_stop_row (faces s k)"
proof -
  have s: "registry_ok s" "mirrored s"
    using registry.run_from_init[OF run] on by (simp_all add: stops_sound_def)
  have m: "map_option (\<lambda>w. w\<lparr>sw_in_flight := False\<rparr>) (map_of (sb_mirror s) q)
      = map_option stored_stop_row (faces s q)" for q
    using s(2) flushed by (simp add: mirrored_def view_def)
  have key: "key_of (stop_of_row q w) = q" if "(q, w) \<in> set (sb_mirror s)" for q w
  proof -
    have "map_of (sb_mirror s) q = Some w" using that s(2) by (simp add: mirrored_def)
    with m[of q] obtain r where r: "map_of (sb_armed s) q = Some r"
      by (cases "map_of (sb_armed s) q") (auto simp: faces_def armed_stop_of_def)
    with s(1) have "q = key_of (stop_at s r)" by (simp add: registry_ok_def)
    then show ?thesis by (simp add: key_of_def hard_stop_key_def stop_of_row_def)
  qed
  let ?n = "no_stops\<lparr>sb_mirror := sb_mirror s\<rparr>"
  have n: "registry_ok ?n" "frame_ok ?n" "armed_stop_of ?n k = None"
    by (simp_all add: registry_ok_def frame_ok_def frame_refs_def refs_def no_stops_def armed_stop_of_def)
  have "keys_distinct (sb_mirror s)" using s(2) by (simp add: mirrored_def)
  from rearm_rows[OF key this n(1,2)]
  have "armed_stop_of (rehydrate s) k = map_option (stop_of_row k) (map_of (sb_mirror s) k)"
    by (simp add: rehydrate_def n(3) split: option.split)
  moreover have "face (stop_of_row k w) = w\<lparr>sw_in_flight := False\<rparr>" for w
    by (cases k) (simp add: face_def row_of_stop_def stop_of_row_def)
  ultimately show ?thesis using m[of k] by (simp add: faces_def option.map_comp comp_def)
qed

section \<open>A close that raises disarms its stop\<close>

definition frame_head :: "frame \<Rightarrow> nat option" where
  "frame_head f = (case f of Idle \<Rightarrow> None | Checking r p src rs \<Rightarrow> Some r
     | Sending r rs \<Rightarrow> Some r | Reading r rs \<Rightarrow> Some r)"

definition latched :: "nat \<Rightarrow> stop_book \<Rightarrow> bool" where
  "latched r s \<longleftrightarrow> as_in_flight (stop_at s r) \<and> frame_head (sb_frame s) \<noteq> Some r"

definition closes :: "nat \<Rightarrow> stop_label \<Rightarrow> bool" where
  "closes r l \<longleftrightarrow> (\<exists>k q p src. l = Close r k q p src)"

lemma send_keeps_latch:
  "as_in_flight (stop_at s r) \<Longrightarrow> r' \<noteq> r \<Longrightarrow>
   latched r (snd (send_close now r' p src rest s)) \<and> \<not> closes r (fst (send_close now r' p src rest s))"
  by (simp add: send_close_def Let_def latched_def closes_def frame_head_def set_stop_parts)

lemma eval_loop_latched:
  "registry_ok s \<Longrightarrow> set rs \<subseteq> refs s \<Longrightarrow> as_in_flight (stop_at s r) \<Longrightarrow>
   latched r (snd (eval_loop C now rs s)) \<and> \<not> closes r (fst (eval_loop C now rs s))"
proof (induction C now rs s rule: eval_loop.induct)
  case (1 C now s)
  then show ?case
    by (simp add: latched_def closes_def frame_head_def evolves_begin_flush(4))
next
  case (2 C now q rs s)
  obtain v t where d: "decide_stop C now q s = (v, t)" by fastforce
  from "2.prems"(2) have q: "q \<in> refs s" "set rs \<subseteq> refs s" by simp_all
  note e = decide_evolves[OF "2.prems"(1) q(1) d]
  then have t: "registry_ok t" "set rs \<subseteq> refs t" "as_in_flight (stop_at t r)"
    using q evolves_ok evolves_refs "2.prems"(3) by blast+
  show ?case
  proof (cases v)
    case None
    with "2.IH"[OF d[symmetric] None t] d show ?thesis by simp
  next
    case (Some x)
    obtain p src where x: "x = (p, src)" by (cases x)
    with e Some "2.prems"(3) have n: "q \<noteq> r" by auto
    with t(3) have "latched r (t\<lparr>sb_frame := Checking q p src rs\<rparr>)"
      by (simp add: latched_def frame_head_def)
    with send_keeps_latch[OF t(3) n] show ?thesis by (simp add: d Some x closes_def)
  qed
qed

lemma evaluate_latched:
  assumes "registry_ok s" "as_in_flight (stop_at s r)" "sb_frame s = Idle"
  shows "latched r (snd (evaluate_market_event C now y s)) \<and> \<not> closes r (fst (evaluate_market_event C now y s))"
proof (cases "matching_stops y s")
  case Nil
  with assms show ?thesis by (simp add: evaluate_market_event_def latched_def closes_def frame_head_def)
next
  case (Cons q qs)
  with matching_subset[OF assms(1), of y] eval_loop_latched[OF assms(1) _ assms(2), of "q # qs" C now]
  show ?thesis by (simp add: evaluate_market_event_def del: eval_loop.simps)
qed

text \<open>The rest of a turn that has only written another stop's bookkeeping.\<close>

lemma rest_latched:
  assumes "registry_ok s" "evolves C s u" "set rest \<subseteq> refs s" "as_in_flight (stop_at u r)"
  shows "latched r (snd (eval_loop C now rest u)) \<and> \<not> closes r (fst (eval_loop C now rest u))"
  using eval_loop_latched[OF evolves_ok[OF assms(2)] _ assms(4)] evolves_refs[OF assms(2)] assms(3) by blast


lemma market_latched:
  assumes s: "registry_ok s" "frame_ok s" and r: "latched r s" and step: "market_step C fifo s l t"
  shows "latched r t \<and> \<not> closes r l"
proof -
  have fl: "as_in_flight (stop_at s r)" using r by (simp add: latched_def)
  note set = evolves_set[OF s(1)] and rest = rest_latched[OF s(1)]
  have refs: "q \<in> refs s \<and> set qs \<subseteq> refs s"
    if "sb_frame s \<in> {Checking q p src qs, Sending q qs, Reading q qs}" for q p src qs
    using that s(2) by (auto simp: frame_ok_def frame_refs_def)
  show ?thesis
    using step
  proof (cases rule: market_step.cases)
    case (on_quote now y bid ts)
    let ?s = "s\<lparr>sb_quotes := AList.update (py_upper y) (bid, ts) (sb_quotes s)\<rparr>"
    have "registry_ok ?s" by (rule evolves_ok[OF evolves_frame(2)[OF s(1)]])
    with evaluate_latched[of ?s r C now "py_upper y"] on_quote fl show ?thesis
      by (auto simp: quote_tick_def Let_def latched_def closes_def frame_head_def split: if_splits)
  next
    case (on_trade now y p ts)
    let ?s = "s\<lparr>sb_trades := AList.update (py_upper y) (p, ts) (sb_trades s)\<rparr>"
    have "registry_ok ?s" by (rule evolves_ok[OF evolves_frame(3)[OF s(1)]])
    with evaluate_latched[of ?s r C now "py_upper y"] on_trade fl show ?thesis
      by (simp add: trade_tick_def)
  next
    case (on_guard q p src qs now g)
    with refs r have q: "q \<in> refs s" "set qs \<subseteq> refs s" "q \<noteq> r"
      by (auto simp: latched_def frame_head_def)
    have "evolves C s (set_stop q ((stop_at s q)\<lparr>as_last_try := Some now\<rparr>) s)"
      by (rule set[OF q(1)]) (simp_all add: face_simps)
    from rest[OF this q(2), of r now] send_keeps_latch[OF fl q(3), of now p src qs] on_guard(2) fl q(3) show ?thesis
      by (simp add: guard_answer_def set_stop_parts split: if_splits)
  next
    case (on_read q qs now flat)
    with refs r have q: "q \<in> refs s" "set qs \<subseteq> refs s" "q \<noteq> r"
      by (auto simp: latched_def frame_head_def)
    have "evolves C s (set_stop q ((stop_at s q)\<lparr>as_failures := 0\<rparr>) s)"
      by (rule set[OF q(1)]) (simp_all add: face_simps)
    from rest[OF this q(2), of r now]
      rest[OF evolves_drop[OF s(1), of C "key_of (stop_at s q)"] q(2), of r now] on_read(2) fl q(3)
    show ?thesis by (cases flat) (simp_all add: read_answer_def Let_def set_stop_parts drop_parts)
  next
    case (on_close q qs now answer)
    with refs r have q: "q \<in> refs s" "set qs \<subseteq> refs s" "q \<noteq> r"
      by (auto simp: latched_def frame_head_def)
    show ?thesis
    proof (cases answer)
      case (Inl e)
      with on_close(2) fl show ?thesis
        by (auto simp: close_answer_def latched_def frame_head_def closes_def)
    next
      case (Inr events)
      have e: "evolves C s (set_stop q ((stop_at s q)\<lparr>as_failures := n\<rparr>) s)"
        "evolves C s (set_stop q ((stop_at s q)\<lparr>as_in_flight := False\<rparr>) s)"
        "evolves C s (set_stop q ((stop_at s q)\<lparr>as_in_flight := False, as_failures := n\<rparr>) s)" for n
        by (rule set[OF q(1)]; simp add: face_simps)+
      have fl': "as_in_flight (stop_at (set_stop q b s) r)" "as_in_flight (stop_at (mark_dirty C k (drop_stop k (set_stop q b s))) r)"
        for b k using fl q(3) by (simp_all add: set_stop_parts drop_parts)
      note popped = evolves_trans[OF _ evolves_drop[OF evolves_ok]]
      have reading: "latched r ((set_stop q b s)\<lparr>sb_frame := Reading q qs\<rparr>) \<and> \<not> closes r Quiet" for b
        using fl' q(3) by (simp add: latched_def frame_head_def closes_def)
      have "latched r (snd (close_answer C now answer q qs s)) \<and> \<not> closes r (fst (close_answer C now answer q qs s))"
        unfolding close_answer_def Inr sum.case Let_def
        using rest[OF e(1) q(2) fl'(1)] rest[OF popped[OF e(1) e(1)] q(2) fl'(2)]
          rest[OF popped[OF e(2) e(2)] q(2) fl'(2)] reading rest[OF e(3) q(2) fl'(1)] by simp
      with on_close(2) show ?thesis by simp
    qed
  next
    case on_flush
    with r show ?thesis using evolves_begin_flush(2,4)[OF s(1)] by (simp add: latched_def closes_def)
  next
    case on_commit
    with r show ?thesis by (simp add: latched_def closes_def commit_parts)
  qed
qed

lemma market_run_latched:
  "run (market_step C fifo) s ls t \<Longrightarrow> registry_ok s \<Longrightarrow> frame_ok s \<Longrightarrow> latched r s \<Longrightarrow>
   registry_ok t \<and> frame_ok t \<and> latched r t \<and> (\<forall>l \<in> set ls. \<not> closes r l)"
proof (induction rule: run.induct)
  case (run_snoc s ls t l u)
  then have t: "registry_ok t" "frame_ok t" "latched r t" "\<forall>l \<in> set ls. \<not> closes r l" by simp_all
  from step_tightens[OF t(1,2) run_snoc.hyps(2)] market_latched[OF t(1-3) run_snoc.hyps(2)] t(4)
  show ?case by simp
qed simp

text \<open>
  C9: When the close of a stop raises while its submission left the stop in flight, the stop is
  disarmed for good as far as the market goes: it stays marked in flight, and however many quotes,
  trades, lookups and flushes follow, no close is ever sent for it again, whatever the price. Only a
  fill or an order status of its key can free it.
\<close>
theorem raised_close_disarms:
  assumes "run (stop_step C fifo) no_stops ls s" "sb_frame s = Sending r rest" "as_in_flight (stop_at s r)"
    and "close_answer C now (Inl e) r rest s = (l, t)" and "run (market_step C fifo) t ks u"
  shows "as_in_flight (stop_at u r) \<and> Close r k q p src \<notin> set ks"
proof -
  have s: "registry_ok s" "frame_ok s" using stops.run_from_init[OF assms(1)] by simp_all
  have "market_step C fifo s l t" by (rule market_step.on_close[OF assms(2,4)])
  with step_tightens[OF s] have t: "registry_ok t" "frame_ok t" by simp_all
  have "latched r t" using assms(3,4) by (auto simp: close_answer_def latched_def frame_head_def)
  from market_run_latched[OF assms(5) t this] show ?thesis by (auto simp: latched_def closes_def)
qed


section \<open>A concrete day\<close>

text \<open>
  A guarded entry of ten shares at 100 trails by five per cent; a bid of 110 raises the level from 90
  to 104.5, the flush commits, and a bid of 100 sends the close.
\<close>

definition demo_stop_config :: "bool \<Rightarrow> stop_config" where
  "demo_stop_config regular = \<lparr>sc_persist = True, sc_ah_max_age_ms = 5, sc_ah_buffer_pct = 2, sc_regular = (\<lambda>_. regular)\<rparr>"

definition demo_guard :: metadata where
  "demo_guard = [(''stop_guard_enabled'', MText ''true''), (''stop_loss_pct'', MDec (Fin 10)),
     (''trail_pct'', MDec (Fin 5)), (''stop_guard_quote_max_age_ms'', MDec (Fin 5))]"

definition demo_armed :: "bool \<Rightarrow> stop_book" where
  "demo_armed regular =
     registry_fill (demo_stop_config regular) ''orb'' ''acc'' ''AB'' ''buy'' ''open'' 10 100 demo_guard 0 no_stops"

definition demo_raised :: stop_book where
  "demo_raised = snd (quote_tick (demo_stop_config False) 1 ''AB'' 110 1 (demo_armed False))"

definition demo_flushed :: stop_book where
  "demo_flushed = commit_flush 0 True demo_raised"

definition demo_closing :: stop_book where
  "demo_closing = snd (quote_tick (demo_stop_config False) 2 ''AB'' 100 2 demo_flushed)"

abbreviation demo_key :: stop_key where
  "demo_key \<equiv> (''orb'', ''acc'', ''AB'')"

lemma demo_values:
  "fst (quote_tick (demo_stop_config False) 1 ''AB'' 110 1 (demo_armed False)) = Quiet"
  "sb_frame (demo_armed False) = Idle" "sb_frame demo_flushed = Idle" "length (sb_flights demo_raised) = 1"
  "map_option as_stop (armed_stop_of (demo_armed False) demo_key) = Some 90"
  "map_option as_trail_pct (armed_stop_of (demo_armed False) demo_key) = Some 5"
  "map_option as_stop (armed_stop_of demo_raised demo_key) = Some (209 / 2)"
  "sb_dirty demo_flushed = []" "sb_flights demo_flushed = []"
  "faces demo_flushed demo_key \<noteq> None"
  "fst (quote_tick (demo_stop_config False) 2 ''AB'' 100 2 demo_flushed) = Close 0 demo_key 10 100 ''bid''"
  "sb_frame demo_closing = Sending 0 []" "as_in_flight (stop_at demo_closing 0)"
  by code_simp+

lemma demo_runs:
  "run (stop_step (demo_stop_config False) fifo) no_stops [Quiet] (demo_armed False)"
  "stop_step (demo_stop_config False) fifo (demo_armed False) Quiet demo_raised"
  "run (stop_step (demo_stop_config False) fifo) no_stops [Quiet, Quiet, Quiet] demo_flushed"
  "stop_step (demo_stop_config False) fifo demo_flushed (Close 0 demo_key 10 100 ''bid'') demo_closing"
proof -
  let ?step = "stop_step (demo_stop_config False) fifo"
  have quote: "?step s l (snd (quote_tick (demo_stop_config False) now y bid ts s))"
    if "sb_frame s = Idle" "fst (quote_tick (demo_stop_config False) now y bid ts s) = l" for s l now y bid ts
    by (rule stop_step.of_market, rule market_step.on_quote[OF that(1), of _ now y bid ts])
      (use that(2) in \<open>simp add: prod_eq_iff\<close>)
  show one: "run ?step no_stops [Quiet] (demo_armed False)"
    unfolding demo_armed_def by (rule run_one[where step = ?step], rule of_fill)
  show two: "?step (demo_armed False) Quiet demo_raised"
    unfolding demo_raised_def by (rule quote[OF demo_values(2,1)])
  have three: "?step demo_raised Quiet demo_flushed"
    unfolding demo_flushed_def by (rule of_market, rule on_commit) (simp_all add: demo_values)
  from run_snoc[where step = ?step, OF run_snoc[where step = ?step, OF one two] three]
  show "run ?step no_stops [Quiet, Quiet, Quiet] demo_flushed" by simp
  show "?step demo_flushed (Close 0 demo_key 10 100 ''bid'') demo_closing"
    unfolding demo_closing_def by (rule quote[OF demo_values(3,11)])
qed

theorem trailing_never_loosens_witness:
  "\<exists>a b. armed_stop_of (demo_armed False) demo_key = Some a \<and> armed_stop_of demo_raised demo_key = Some b
     \<and> 0 < as_trail_pct b \<and> as_stop a \<le> as_stop b \<and> as_stop a \<noteq> as_stop b"
proof -
  obtain a b where ab: "armed_stop_of (demo_armed False) demo_key = Some a" "as_stop a = 90" "as_trail_pct a = 5"
    "armed_stop_of demo_raised demo_key = Some b" "as_stop b = 209 / 2"
    using demo_values(5-7) by auto
  from trailing_never_loosens[OF demo_runs(1,2)[where fifo = True] ab(1) _ ab(4)] ab show ?thesis by auto
qed

theorem close_only_on_breach_witness:
  "\<exists>a. map_of (sb_objects demo_closing) 0 = Some a \<and> key_of a = demo_key \<and> as_quantity a = 10
     \<and> 100 \<le> as_stop a \<and> as_in_flight a"
  by (rule close_only_on_breach[OF demo_runs(3,4)[where fifo = True]])

theorem restart_keeps_stops_witness:
  "faces (rehydrate demo_flushed) demo_key = map_option stored_stop_row (faces demo_flushed demo_key) \<and> faces demo_flushed demo_key \<noteq> None"
  using restart_keeps_stops[OF demo_runs(3) _ demo_values(8,9), of demo_key] demo_values(10)
  by (simp add: demo_stop_config_def)

definition demo_stuck :: stop_book where
  "demo_stuck = snd (close_answer (demo_stop_config False) 3 (Inl (RuntimeError ''db'')) 0 [] demo_closing)"

theorem raised_close_disarms_witness:
  "\<exists>u. run (market_step (demo_stop_config False) True) demo_stuck [Quiet] u
     \<and> map_of (sb_quotes u) ''AB'' = Some (50, 400000) \<and> as_in_flight (stop_at u 0)"
proof -
  let ?C = "demo_stop_config False"
  have c: "fst (close_answer ?C 3 (Inl (RuntimeError ''db'')) 0 [] demo_closing) = Quiet" "sb_frame demo_stuck = Idle"
    "fst (quote_tick ?C 400000 ''AB'' 50 400000 demo_stuck) = Quiet" by code_simp+
  have m: "map_of (sb_quotes (snd (quote_tick ?C 400000 ''AB'' 50 400000 demo_stuck))) ''AB'' = Some (50, 400000)"
    by code_simp
  have ans: "close_answer ?C 3 (Inl (RuntimeError ''db'')) 0 [] demo_closing = (Quiet, demo_stuck)"
    using c(1) by (simp add: demo_stuck_def prod_eq_iff)
  have k: "run (market_step ?C True) demo_stuck [Quiet] (snd (quote_tick ?C 400000 ''AB'' 50 400000 demo_stuck))"
    by (rule run_one[where step = "market_step ?C True"], rule on_quote[OF c(2), of _ 400000 "''AB''" 50 400000])
      (simp add: prod_eq_iff c(3))
  have run: "run (stop_step ?C True) no_stops [Quiet, Quiet, Quiet, Close 0 demo_key 10 100 ''bid''] demo_closing"
    using run_snoc[where step = "stop_step ?C True", OF demo_runs(3,4)[where fifo = True]] by simp
  from raised_close_disarms[OF run demo_values(12,13) ans k] k m show ?thesis by blast
qed


section \<open>What the registry does not promise\<close>

text \<open>
  The flushes run on a thread pool. When the flush that saw a stop commits after the flush that saw it
  gone, the mirror keeps the row: a book with no stop and nothing left to flush, from which a restart
  arms a stop of the sold shares again.
\<close>

definition demo_sold :: "bool \<Rightarrow> stop_book \<Rightarrow> stop_book" where
  "demo_sold regular s =
     registry_fill (demo_stop_config regular) ''orb'' ''acc'' ''AB'' ''sell'' ''close'' 10 90 [] 3 s"

definition demo_late :: stop_book where
  "demo_late = commit_flush 0 True (commit_flush 1 True
     (begin_flush (demo_stop_config False) (demo_sold False
       (begin_flush (demo_stop_config False) (demo_armed False)))))"

lemma late_flush_resurrects:
  "\<exists>ls s. run (stop_step (demo_stop_config False) False) no_stops ls s \<and> sb_dirty s = [] \<and> sb_flights s = []
     \<and> sb_armed s = [] \<and> armed_stop_of (rehydrate s) demo_key \<noteq> None"
proof -
  let ?C = "demo_stop_config False" let ?step = "stop_step ?C False"
  define s1 where "s1 = begin_flush ?C (demo_armed False)"
  define s2 where "s2 = begin_flush ?C (demo_sold False s1)"
  define s3 where "s3 = commit_flush 1 True s2"
  have late: "demo_late = commit_flush 0 True s3" by (simp add: demo_late_def s1_def s2_def s3_def)
  have n: "length (sb_flights (begin_flush ?C (demo_sold False (begin_flush ?C (demo_armed False))))) = 2"
    "length (sb_flights (commit_flush 1 True
       (begin_flush ?C (demo_sold False (begin_flush ?C (demo_armed False)))))) = 1" by code_simp+
  have "sb_dirty demo_late = []" "sb_flights demo_late = []" "sb_armed demo_late = []"
    "armed_stop_of (rehydrate demo_late) demo_key \<noteq> None" by code_simp+
  moreover have "run ?step (demo_armed False) [Quiet, Quiet, Quiet, Quiet, Quiet] demo_late"
  proof (intro run_Cons[where step = ?step])
    show "?step (demo_armed False) Quiet s1" unfolding s1_def by (rule of_market, rule on_flush)
    show "?step s1 Quiet (demo_sold False s1)" unfolding demo_sold_def by (rule of_fill)
    show "?step (demo_sold False s1) Quiet s2" unfolding s2_def by (rule of_market, rule on_flush)
    show "?step s2 Quiet s3" unfolding s3_def
      by (rule of_market, rule on_commit) (use n(1) in \<open>simp_all add: s1_def s2_def\<close>)
    show "?step s3 Quiet demo_late" unfolding late
      by (rule of_market, rule on_commit) (use n(2) in \<open>simp_all add: s1_def s2_def s3_def\<close>)
  qed (rule run_nil)
  from run_append[where step = ?step, OF this demo_runs(1)]
  have "run ?step no_stops ([Quiet] @ [Quiet, Quiet, Quiet, Quiet, Quiet]) demo_late" .
  ultimately show ?thesis by blast
qed

text \<open>
  The market loop keeps the object it looked at across its awaits. When the shares are sold while the
  native-guard lookup of a trigger runs, the close is still sent, for the whole quantity of a stop
  that the registry no longer holds.
\<close>

lemma stale_stop_closes:
  "\<exists>ls s t. run (stop_step (demo_stop_config True) True) no_stops ls s \<and> sb_armed s = []
     \<and> stop_step (demo_stop_config True) True s (Close 0 demo_key 10 50 ''bid'') t"
proof -
  let ?C = "demo_stop_config True" let ?step = "stop_step ?C True"
  define s1 where "s1 = snd (quote_tick ?C 1 ''AB'' 50 1 (demo_armed True))"
  define s2 where "s2 = demo_sold True s1"
  have v: "sb_frame (demo_armed True) = Idle"
    "fst (quote_tick ?C 1 ''AB'' 50 1 (demo_armed True)) = Quiet"
    "sb_frame (demo_sold True (snd (quote_tick ?C 1 ''AB'' 50 1 (demo_armed True)))) = Checking 0 50 ''bid'' []"
    "sb_armed (demo_sold True (snd (quote_tick ?C 1 ''AB'' 50 1 (demo_armed True)))) = []"
    "fst (guard_answer ?C 4 False 0 50 ''bid'' []
       (demo_sold True (snd (quote_tick ?C 1 ''AB'' 50 1 (demo_armed True))))) = Close 0 demo_key 10 50 ''bid''"
    by code_simp+
  note v = v[folded s1_def, folded s2_def]
  have "run ?step no_stops [Quiet, Quiet, Quiet] s2"
  proof (intro run_Cons[where step = ?step])
    show "?step no_stops Quiet (demo_armed True)" unfolding demo_armed_def by (rule of_fill)
    show "?step (demo_armed True) Quiet s1"
      by (rule of_market, rule on_quote[OF v(1), of _ 1 "''AB''" 50 1]) (simp add: s1_def prod_eq_iff v(2)[unfolded s1_def])
    show "?step s1 Quiet s2" unfolding s2_def demo_sold_def by (rule of_fill)
  qed (rule run_nil)
  moreover have "?step s2 (Close 0 demo_key 10 50 ''bid'') (snd (guard_answer ?C 4 False 0 50 ''bid'' [] s2))"
    by (rule of_market, rule on_guard[OF v(3), of _ 4 False]) (simp add: prod_eq_iff v(5))
  ultimately show ?thesis using v(4) by blast
qed

end
