(* ===== verification/BotControl.thy ===== *)
theory BotControl
  imports OmsBook
begin

text \<open>
  \<open>oms/bot_control.py\<close> and \<open>oms/bot_control_scope.py\<close>: the durable STOP and ON commands of a bot,
  the lease of the executor that carries a STOP out, the single-wire permit of an entry order, and
  the in-memory latch. Every method is one transaction that locks the state row of its strategy, so
  it is a function on the database that either raises and changes nothing or returns the new
  database. The order, fill and account tables are those of \<open>OmsBook\<close>. \<open>ControlConflict\<close> is a
  subclass of \<open>ValueError\<close> and \<open>UnseededScope\<close> a subclass of it; both are \<open>ValueError\<close> with their
  message. The JSON rendering and the SHA-256 digests are parameters; the clock is read once per transaction.
\<close>

section \<open>Scopes\<close>

definition CONTROLLED_STRATEGY_CODES :: "string list" where
  "CONTROLLED_STRATEGY_CODES = [''schwab_1m_v2'', ''orb_schwab'', ''momentum_warn_live'']"

definition is_controlled_strategy :: "string \<Rightarrow> bool" where
  "is_controlled_strategy code \<longleftrightarrow> code \<in> set CONTROLLED_STRATEGY_CODES"

definition py_space :: "char \<Rightarrow> bool" where
  "py_space c \<longleftrightarrow> c \<in> {CHR '' '', CHR 0x09, CHR 0x0A, CHR 0x0B, CHR 0x0C, CHR 0x0D,
     CHR 0x1C, CHR 0x1D, CHR 0x1E, CHR 0x1F, CHR 0x85, CHR 0xA0}"

definition logical_account_mode :: "string \<Rightarrow> string" where
  "logical_account_mode name =
     (if name \<noteq> [] \<and> (py_space (hd name) \<or> py_space (last name)) then ''UNKNOWN''
      else let prefix = takeWhile (\<lambda>c. c \<noteq> CHR '':'') name; rest = dropWhile (\<lambda>c. c \<noteq> CHR '':'') name
           in if rest \<noteq> [] \<and> tl rest \<noteq> [] \<and> prefix \<in> {''live'', ''paper'', ''shadow''} then prefix
              else ''UNKNOWN'')"

definition live_scope :: "bool \<Rightarrow> string \<Rightarrow> bool" where
  "live_scope live account_name \<longleftrightarrow> live \<and> logical_account_mode account_name = ''live''"

definition controlled_live_scope :: "string \<Rightarrow> bool \<Rightarrow> string \<Rightarrow> bool" where
  "controlled_live_scope code live account_name \<longleftrightarrow>
     is_controlled_strategy code \<and> live_scope live account_name"

section \<open>Rows\<close>

text \<open>A datetime with or without a zone, as microseconds of UTC.\<close>

datatype instant = Aware int | Naive int

fun is_naive :: "instant \<Rightarrow> bool" where
  "is_naive (Naive _) = True"
| "is_naive (Aware _) = False"

fun utc_of :: "instant \<Rightarrow> int" where
  "utc_of (Aware t) = t"
| "utc_of (Naive t) = t"

record account_scope =
  sc_accounts :: "string list"
  sc_complete :: bool

record control_state =
  cs_generation :: int
  cs_revision :: int
  cs_desired :: string
  cs_active :: "string option"

text \<open>What one account's inventory census says; the quantities are \<open>None\<close> when they are no number.\<close>

record evidence =
  ev_complete :: bool
  ev_owned :: "rat option"
  ev_working :: "rat option"
  ev_in_flight :: "rat option"
  ev_hash :: "string option"
  ev_observed :: "instant option"

type_synonym census = "(string, evidence option) dict"

record control_command =
  cc_strategy :: string
  cc_generation :: int
  cc_expected :: int
  cc_revision :: int
  cc_action :: string
  cc_request :: string
  cc_request_hash :: string
  cc_scope :: account_scope
  cc_scope_hash :: string
  cc_actor :: string
  cc_reason :: string
  cc_phase :: string
  cc_active :: bool
  cc_census :: census
  cc_executor :: "string option"
  cc_fence :: "int option"
  cc_until :: "int option"
  cc_accepted :: int
  cc_completed :: "int option"

record control_intent =
  ci_strategy :: string
  ci_account :: string
  ci_symbol :: string
  ci_side :: string
  ci_payload :: metadata

text \<open>
  The tables a method reads and writes. \<open>cd_live\<close> are the strategies whose execution mode is live,
  \<open>cd_refused\<close> the orders whose payload says \<open>refused_pre_submit: true\<close>, \<open>cd_attempts\<close> the strategy
  and status of the control attempts.
\<close>

record control_db =
  cd_book :: oms_book
  cd_live :: "string list"
  cd_states :: "(string, control_state) dict"
  cd_commands :: "(string, control_command) dict"
  cd_intents :: "(string, control_intent) dict"
  cd_attempts :: "(string \<times> string) list"
  cd_refused :: "string list"

record request_terms =
  rq_command :: string
  rq_strategy :: string
  rq_request :: string
  rq_expected :: int
  rq_action :: string
  rq_accounts :: "string list"
  rq_actor :: string
  rq_reason :: string
  rq_complete :: bool

record entry_permit =
  pm_order :: string
  pm_strategy :: string
  pm_generation :: int
  pm_revision :: int
  pm_at :: int

record stop_lease =
  le_command :: string
  le_strategy :: string
  le_generation :: int
  le_executor :: string
  le_fence :: int
  le_accounts :: "string list"
  le_complete :: bool

record command_receipt =
  cr_command :: string
  cr_generation :: int
  cr_action :: string
  cr_phase :: string
  cr_replayed :: bool

text \<open>Digests and JSON texts; the request digest does not see the request's own identity.\<close>

record json_port =
  js_scope :: "account_scope \<Rightarrow> string"
  js_request :: "request_terms \<Rightarrow> account_scope \<Rightarrow> string"
  js_permit :: "entry_permit \<Rightarrow> string \<Rightarrow> string"
  js_unsent :: "int \<Rightarrow> string option \<Rightarrow> string"

section \<open>Validation and the state lock\<close>

definition strategy_row :: "string \<Rightarrow> control_db \<Rightarrow> string result" where
  "strategy_row sid db =
     (case map_of (ob_strategies (cd_book db)) sid of
        None \<Rightarrow> Inl (ValueError ''not_a_live_strategy'')
      | Some code \<Rightarrow>
          and_then (refuse_if (sid \<notin> set (cd_live db)) ''not_a_live_strategy'') (\<lambda>_.
          and_then (refuse_if (\<not> is_controlled_strategy code) ''not_a_controlled_live_strategy'') (\<lambda>_.
          Inr code)))"

definition command_in :: "string \<Rightarrow> int \<Rightarrow> control_db \<Rightarrow> (string \<times> control_command) option" where
  "command_in sid g db =
     List.find (\<lambda>(i, c). cc_strategy c = sid \<and> cc_generation c = g) (cd_commands db)"

definition validate_state :: "json_port \<Rightarrow> string \<Rightarrow> control_state \<Rightarrow> control_db \<Rightarrow> unit result" where
  "validate_state J sid st db =
     (if cs_generation st = 0
      then refuse_if (cs_desired st \<noteq> ''RUN'' \<or> cs_active st \<noteq> None) ''invalid_seeded_state''
      else case command_in sid (cs_generation st) db of
        None \<Rightarrow> Inl (ValueError ''control_history_inconsistent'')
      | Some (i, c) \<Rightarrow>
          and_then (refuse_if (cc_scope_hash c \<noteq> js_scope J (cc_scope c)
              \<or> cs_desired st \<noteq> (if cc_action c = ''STOP'' then ''STOP'' else ''RUN''))
            ''control_history_inconsistent'') (\<lambda>_.
          (case cs_active st of
             Some a \<Rightarrow> refuse_if (a \<noteq> i \<or> \<not> cc_active c \<or> cc_action c \<noteq> ''STOP'')
                        ''active_command_scope_inconsistent''
           | None \<Rightarrow> refuse_if (cc_active c \<or> cc_phase c \<noteq> ''SETTLED'') ''command_not_proven_settled'')))"

definition hydrate_state :: "json_port \<Rightarrow> string \<Rightarrow> control_db \<Rightarrow> control_state result" where
  "hydrate_state J sid db =
     and_then (strategy_row sid db) (\<lambda>_.
       case map_of (cd_states db) sid of
         None \<Rightarrow> Inl (ValueError ''scope_not_seeded'')
       | Some st \<Rightarrow> and_then (validate_state J sid st db) (\<lambda>_. Inr st))"

text \<open>\<open>_lock\<close> reads the same row for update; within the transaction nobody else writes it.\<close>

abbreviation lock_state :: "json_port \<Rightarrow> string \<Rightarrow> control_db \<Rightarrow> control_state result" where
  "lock_state \<equiv> hydrate_state"

definition admission_open :: "control_state \<Rightarrow> bool" where
  "admission_open st \<longleftrightarrow> cs_desired st = ''RUN'' \<and> cs_active st = None"

definition put_state :: "string \<Rightarrow> control_state \<Rightarrow> control_db \<Rightarrow> control_db" where
  "put_state sid st db = db\<lparr>cd_states := AList.update sid st (cd_states db)\<rparr>"

definition put_command :: "string \<Rightarrow> control_command \<Rightarrow> control_db \<Rightarrow> control_db" where
  "put_command i c db = db\<lparr>cd_commands := AList.update i c (cd_commands db)\<rparr>"

text \<open>The compare-and-set on the revision that guards every write of the state row.\<close>

definition cas_state :: "string \<Rightarrow> int \<Rightarrow> control_state \<Rightarrow> control_db \<Rightarrow> control_db result" where
  "cas_state sid revision st db =
     (case map_of (cd_states db) sid of
        None \<Rightarrow> Inl (ValueError ''concurrent_state_change'')
      | Some old \<Rightarrow> and_then (refuse_if (cs_revision old \<noteq> revision) ''concurrent_state_change'')
                     (\<lambda>_. Inr (put_state sid st db)))"

definition seed :: "json_port \<Rightarrow> string \<Rightarrow> control_db \<Rightarrow> (control_state \<times> control_db) result" where
  "seed J sid db =
     and_then (strategy_row sid db) (\<lambda>_.
       let db1 = (case map_of (cd_states db) sid of
                    None \<Rightarrow> put_state sid \<lparr>cs_generation = 0, cs_revision = 0, cs_desired = ''RUN'', cs_active = None\<rparr> db
                  | Some _ \<Rightarrow> db)
       in and_then (hydrate_state J sid db1) (\<lambda>st. Inr (st, db1)))"

definition describe :: "json_port \<Rightarrow> string \<Rightarrow> control_db \<Rightarrow> (control_state \<times> string) result" where
  "describe J sid db =
     and_then (hydrate_state J sid db) (\<lambda>st.
       if cs_generation st = 0 then Inr (st, ''RUN'')
       else case command_in sid (cs_generation st) db of
              None \<Rightarrow> Inl (OtherError ''AttributeError'')
            | Some (i, c) \<Rightarrow> Inr (st, cc_phase c))"


section \<open>The lease of the stop executor\<close>

definition LEASE_US :: int where "LEASE_US = 30000000"

definition command_row :: "string \<Rightarrow> control_db \<Rightarrow> control_command result" where
  "command_row i db =
     (case map_of (cd_commands db) i of None \<Rightarrow> Inl (ValueError ''unknown_command'') | Some c \<Rightarrow> Inr c)"

definition unexpired :: "int \<Rightarrow> control_command \<Rightarrow> bool" where
  "unexpired now c \<longleftrightarrow> (case cc_until c of None \<Rightarrow> False | Some t \<Rightarrow> t > now)"

definition next_fence :: "int \<Rightarrow> control_command \<Rightarrow> int" where
  "next_fence now c =
     (if unexpired now c then the (cc_fence c) else case cc_fence c of None \<Rightarrow> 1 | Some f \<Rightarrow> f + 1)"

definition claim_stop ::
  "json_port \<Rightarrow> string \<Rightarrow> string \<Rightarrow> instant \<Rightarrow> control_db \<Rightarrow> (stop_lease option \<times> control_db) result" where
  "claim_stop J i executor at' db =
     (let now = utc_of at'
      in and_then (refuse_if (is_naive at' \<or> executor = '''' \<or> length executor > 128) ''invalid_executor_lease'') (\<lambda>_.
         and_then (command_row i db) (\<lambda>c.
         and_then (lock_state J (cc_strategy c) db) (\<lambda>st.
         and_then (refuse_if (cs_desired st \<noteq> ''STOP'' \<or> cs_active st \<noteq> Some i
             \<or> cc_generation c \<noteq> cs_generation st \<or> \<not> cc_active c) ''not_an_active_stop'') (\<lambda>_.
         and_then (refuse_if (cc_fence c = None \<and> (cc_executor c \<noteq> None \<or> cc_until c \<noteq> None))
           ''lease_fence_unknown'') (\<lambda>_.
         if unexpired now c \<and> cc_executor c \<noteq> Some executor then Inr (None, db)
         else
           let fence = next_fence now c;
               c1 = c\<lparr>cc_executor := Some executor, cc_fence := Some fence,
                      cc_until := Some (now + LEASE_US), cc_revision := cc_revision c + 1\<rparr>
           in Inr (Some \<lparr>le_command = i, le_strategy = cc_strategy c, le_generation = cs_generation st,
                         le_executor = executor, le_fence = fence, le_accounts = sc_accounts (cc_scope c),
                         le_complete = sc_complete (cc_scope c)\<rparr>,
                   put_command i c1 db)))))))"

definition leased :: "json_port \<Rightarrow> stop_lease \<Rightarrow> instant \<Rightarrow> control_db \<Rightarrow> control_command result" where
  "leased J L at' db =
     and_then (refuse_if (is_naive at') ''lease_time_unknown'') (\<lambda>_.
     and_then (lock_state J (le_strategy L) db) (\<lambda>st.
       case map_of (cd_commands db) (le_command L) of
         None \<Rightarrow> Inl (ValueError ''stop_executor_fenced'')
       | Some c \<Rightarrow>
           and_then (refuse_if (\<not> cc_active c \<or> cs_active st \<noteq> Some (le_command L) \<or> cs_desired st \<noteq> ''STOP''
               \<or> cs_generation st \<noteq> le_generation L \<or> cc_generation c \<noteq> le_generation L
               \<or> cc_executor c \<noteq> Some (le_executor L) \<or> cc_fence c \<noteq> Some (le_fence L)
               \<or> \<not> unexpired (utc_of at') c) ''stop_executor_fenced'')
             (\<lambda>_. Inr c)))"

definition renew_stop :: "json_port \<Rightarrow> stop_lease \<Rightarrow> instant \<Rightarrow> control_db \<Rightarrow> control_db result" where
  "renew_stop J L at' db =
     and_then (leased J L at' db) (\<lambda>c.
       Inr (put_command (le_command L) (c\<lparr>cc_until := Some (utc_of at' + LEASE_US)\<rparr>) db))"

definition STOP_PHASES :: "string list" where
  "STOP_PHASES = [''PENDING_CENSUS'', ''CANCELLING_ENTRIES'', ''RECONCILING_PROTECTION'', ''EXIT_WORKING'',
     ''BLOCKED_UNKNOWN'', ''BLOCKED_SESSION'', ''BLOCKED_SCOPE'']"

definition set_stop_phase :: "json_port \<Rightarrow> stop_lease \<Rightarrow> string \<Rightarrow> instant \<Rightarrow> control_db \<Rightarrow> control_db result" where
  "set_stop_phase J L phase at' db =
     and_then (refuse_if (phase \<notin> set STOP_PHASES) ''invalid_stop_phase'') (\<lambda>_.
     and_then (leased J L at' db) (\<lambda>c.
       Inr (put_command (le_command L)
         (c\<lparr>cc_phase := phase, cc_revision := cc_revision c + (if cc_phase c \<noteq> phase then 1 else 0)\<rparr>) db)))"

section \<open>Entry orders\<close>

definition has_key :: "string \<Rightarrow> metadata \<Rightarrow> bool" where
  "has_key k m \<longleftrightarrow> map_of m k \<noteq> None"

definition has_fill :: "string \<Rightarrow> control_db \<Rightarrow> bool" where
  "has_fill oid db \<longleftrightarrow> list_ex (\<lambda>f. fl_order f = oid) (ob_fills (cd_book db))"

definition put_entry :: "broker_order \<Rightarrow> control_db \<Rightarrow> control_db" where
  "put_entry o' db = db\<lparr>cd_book := put_order o' (cd_book db)\<rparr>"

definition prove_unsent_entry ::
  "json_port \<Rightarrow> string \<Rightarrow> string \<Rightarrow> string \<Rightarrow> string \<Rightarrow> control_db \<Rightarrow> (bool \<times> control_db) result" where
  "prove_unsent_entry J oid sid account symbol db =
     and_then (lock_state J sid db) (\<lambda>st.
     and_then (refuse_if (cs_desired st \<noteq> ''STOP'') ''unsent_proof_requires_stop'') (\<lambda>_.
       Inr (case order_of oid (cd_book db) of
              None \<Rightarrow> (False, db)
            | Some o' \<Rightarrow>
                if bo_strategy o' \<noteq> sid \<or> bo_account o' \<noteq> account \<or> bo_symbol o' \<noteq> symbol \<or> bo_side o' \<noteq> ''buy''
                   \<or> bo_status o' \<noteq> ''pending'' \<or> bo_broker_id o' \<noteq> None \<or> bo_submitted o' \<noteq> None
                   \<or> \<not> has_key ''bot_control_generation'' (bo_payload o')
                   \<or> has_key ''bot_control_permit'' (bo_payload o') \<or> has_fill oid db
                then (False, db)
                else (True, put_entry (o'\<lparr>bo_status := ''aborted'',
                        bo_payload := AList.update ''bot_control_proven_not_sent''
                          (MText (js_unsent J (cs_generation st) (cs_active st))) (bo_payload o')\<rparr>) db))))"

text \<open>The strategy's row of the account; \<open>BrokerAccount\<close> rows by their identity.\<close>

definition control_account :: "string \<Rightarrow> control_db \<Rightarrow> broker_account option" where
  "control_account i db = account_of i (cd_book db)"

definition live_account :: "string \<Rightarrow> string \<Rightarrow> control_db \<Rightarrow> broker_account option \<Rightarrow> bool" where
  "live_account sid code db account \<longleftrightarrow>
     (case account of
        None \<Rightarrow> False
      | Some a \<Rightarrow> controlled_live_scope code (sid \<in> set (cd_live db)) (ba_name a)
          \<and> ba_active a \<and> ba_provider a \<in> {''webull'', ''schwab''})"

definition decided_since :: "int \<Rightarrow> int \<Rightarrow> instant option \<Rightarrow> bool" where
  "decided_since accepted clock decided \<longleftrightarrow>
     (case decided of
        None \<Rightarrow> False
      | Some d \<Rightarrow> \<not> is_naive d \<and> accepted \<le> utc_of d \<and> utc_of d \<le> clock)"

definition accepted_at :: "string \<Rightarrow> control_state \<Rightarrow> control_db \<Rightarrow> int result" where
  "accepted_at sid st db =
     (case command_in sid (cs_generation st) db of
        None \<Rightarrow> Inl (OtherError ''AttributeError'')
      | Some (i, c) \<Rightarrow> Inr (cc_accepted c))"

definition unsent_owned_buy ::
  "string \<Rightarrow> string option \<Rightarrow> string option \<Rightarrow> broker_order option \<Rightarrow> bool" where
  "unsent_owned_buy sid account symbol x \<longleftrightarrow>
     (case x of
        None \<Rightarrow> False
      | Some o' \<Rightarrow>
          bo_strategy o' = sid \<and> (account \<noteq> None \<longrightarrow> Some (bo_account o') = account)
          \<and> (symbol \<noteq> None \<longrightarrow> Some (bo_symbol o') = symbol) \<and> py_upper (bo_side o') = ''BUY''
          \<and> bo_quantity o' > 0 \<and> bo_status o' = ''pending'' \<and> bo_broker_id o' = None \<and> bo_submitted o' = None)"

definition authorize_entry ::
  "json_port \<Rightarrow> int \<Rightarrow> string \<Rightarrow> string \<Rightarrow> int \<Rightarrow> instant option \<Rightarrow> string option \<Rightarrow> string option
   \<Rightarrow> control_db \<Rightarrow> (entry_permit \<times> control_db) result" where
  "authorize_entry J clock oid sid generation decided account symbol db =
     and_then (lock_state J sid db) (\<lambda>st.
     and_then (refuse_if (cs_generation st \<noteq> generation \<or> \<not> admission_open st) ''entry_fenced'') (\<lambda>_.
     and_then (if cs_generation st > 0
               then and_then (accepted_at sid st db) (\<lambda>accepted.
                      refuse_if (\<not> decided_since accepted clock decided) ''entry_decision_predates_on'')
               else Inr ()) (\<lambda>_.
     let found = order_of oid (cd_book db); o' = the found
     in and_then (refuse_if (\<not> unsent_owned_buy sid account symbol found) ''entry_order_not_unsent_owned_buy'') (\<lambda>_.
        and_then (strategy_row sid db) (\<lambda>code.
        and_then (refuse_if (\<not> live_account sid code db (control_account (bo_account o') db))
          ''entry_account_not_live'') (\<lambda>_.
        and_then (refuse_if (code = ''momentum_warn_live'' \<and> oid \<in> set (cd_refused db))
          ''entry_refused_before_submit'') (\<lambda>_.
        and_then (refuse_if (has_key ''bot_control_permit'' (bo_payload o')) ''entry_dispatch_already_uncertain'') (\<lambda>_.
        let p = \<lparr>pm_order = oid, pm_strategy = sid, pm_generation = cs_generation st,
                 pm_revision = cs_revision st + 1, pm_at = clock\<rparr>
        in and_then (cas_state sid (cs_revision st) (st\<lparr>cs_revision := cs_revision st + 1\<rparr>) db) (\<lambda>db1.
             Inr (p, put_entry (o'\<lparr>bo_payload := AList.update ''bot_control_permit''
                               (MText (js_permit J p (bo_client_id o'))) (bo_payload o')\<rparr>) db1))))))))))"

text \<open>A replacement's permit is written on its intent.\<close>

definition replaces_owned_order ::
  "string \<Rightarrow> string \<Rightarrow> string \<Rightarrow> string \<Rightarrow> broker_order option \<Rightarrow> control_intent option \<Rightarrow> bool" where
  "replaces_owned_order sid account symbol old_id x y \<longleftrightarrow>
     (case (x, y) of
        (Some o', Some t) \<Rightarrow>
          bo_strategy o' = sid \<and> bo_account o' = account \<and> bo_symbol o' = symbol \<and> bo_side o' = ''buy''
          \<and> bo_quantity o' > 0 \<and> old_id \<noteq> '''' \<and> bo_broker_id o' = Some old_id
          \<and> bo_status o' \<in> {''accepted'', ''working'', ''open''}
          \<and> ci_strategy t = sid \<and> ci_account t = account \<and> ci_symbol t = symbol \<and> ci_side t = ''buy''
      | _ \<Rightarrow> False)"

definition authorize_replacement ::
  "json_port \<Rightarrow> int \<Rightarrow> string \<Rightarrow> string \<Rightarrow> string \<Rightarrow> string \<Rightarrow> string \<Rightarrow> string \<Rightarrow> int \<Rightarrow> instant
   \<Rightarrow> control_db \<Rightarrow> (entry_permit \<times> control_db) result" where
  "authorize_replacement J clock oid tid sid account symbol old_id generation decided db =
     and_then (lock_state J sid db) (\<lambda>st.
     and_then (refuse_if (cs_generation st \<noteq> generation \<or> \<not> admission_open st) ''replacement_fenced'') (\<lambda>_.
     and_then (refuse_if (is_naive decided \<or> utc_of decided > clock) ''replacement_decision_time_unknown'') (\<lambda>_.
     and_then (if cs_generation st > 0
               then and_then (accepted_at sid st db) (\<lambda>accepted.
                      refuse_if (utc_of decided < accepted) ''replacement_decision_predates_on'')
               else Inr ()) (\<lambda>_.
     let x = order_of oid (cd_book db); y = map_of (cd_intents db) tid; t = the y
     in and_then (refuse_if (\<not> replaces_owned_order sid account symbol old_id x y)
          ''replacement_owned_identity_unknown'') (\<lambda>_.
        and_then (strategy_row sid db) (\<lambda>code.
        and_then (refuse_if (\<not> live_account sid code db (control_account account db))
          ''replacement_account_not_live'') (\<lambda>_.
        and_then (refuse_if (has_fill oid db) ''replacement_parent_has_fill'') (\<lambda>_.
        and_then (refuse_if (has_key ''bot_control_permit'' (ci_payload t)) ''replacement_dispatch_already_uncertain'') (\<lambda>_.
        let p = \<lparr>pm_order = oid, pm_strategy = sid, pm_generation = cs_generation st,
                 pm_revision = cs_revision st + 1, pm_at = clock\<rparr>
        in and_then (cas_state sid (cs_revision st) (st\<lparr>cs_revision := cs_revision st + 1\<rparr>) db) (\<lambda>db1.
             Inr (p, db1\<lparr>cd_intents := AList.update tid
                      (t\<lparr>ci_payload := AList.update ''bot_control_permit''
                         (MText (js_permit J p (bo_client_id (the x)))) (ci_payload t)\<rparr>) (cd_intents db1)\<rparr>)))))))))))"


section \<open>Requests\<close>

definition MAX_GENERATION :: int where "MAX_GENERATION = 2 ^ 63 - 1"

definition request_scope :: "request_terms \<Rightarrow> account_scope" where
  "request_scope r = \<lparr>sc_accounts = sort (rq_accounts r), sc_complete = rq_complete r\<rparr>"

definition request_hash :: "json_port \<Rightarrow> request_terms \<Rightarrow> string" where
  "request_hash J r = js_request J (r\<lparr>rq_request := ''''\<rparr>) (request_scope r)"

definition check_request :: "request_terms \<Rightarrow> unit result" where
  "check_request r =
     and_then (refuse_if (rq_action r \<notin> {''STOP'', ''ON''} \<or> rq_expected r < 0 \<or> rq_expected r \<ge> MAX_GENERATION)
       ''invalid_action_or_generation'') (\<lambda>_.
     and_then (refuse_if (rq_actor r = '''' \<or> length (rq_actor r) > 128 \<or> rq_reason r = '''' \<or> length (rq_reason r) > 256)
       ''invalid_actor_or_reason'') (\<lambda>_.
     refuse_if ((rq_accounts r = [] \<and> rq_complete r) \<or> \<not> distinct (rq_accounts r)
         \<or> (rq_action r = ''ON'' \<and> \<not> rq_complete r))
       ''explicit_unique_account_scope_required''))"

definition request_replay :: "string \<Rightarrow> control_db \<Rightarrow> (string \<times> control_command) option" where
  "request_replay rid db = List.find (\<lambda>(i, c). cc_request c = rid) (cd_commands db)"

definition live_accounts :: "string \<Rightarrow> string \<Rightarrow> string list \<Rightarrow> control_db \<Rightarrow> bool" where
  "live_accounts sid code ids db \<longleftrightarrow>
     (let accounts = filter (\<lambda>a. ba_id a \<in> set ids) (ob_accounts (cd_book db))
      in length accounts = length ids
         \<and> list_all (\<lambda>a. controlled_live_scope code (sid \<in> set (cd_live db)) (ba_name a)
                        \<and> ba_provider a \<in> {''webull'', ''schwab''}) accounts)"

definition settled_scope :: "json_port \<Rightarrow> string \<Rightarrow> control_state \<Rightarrow> account_scope \<Rightarrow> control_db \<Rightarrow> bool" where
  "settled_scope J sid st sc db \<longleftrightarrow>
     (case command_in sid (cs_generation st) db of
        None \<Rightarrow> False
      | Some (i, c) \<Rightarrow> cc_action c = ''STOP'' \<and> cc_phase c = ''SETTLED'' \<and> \<not> cc_active c
          \<and> cc_scope_hash c = js_scope J sc)"

definition new_command :: "json_port \<Rightarrow> int \<Rightarrow> request_terms \<Rightarrow> int \<Rightarrow> control_command" where
  "new_command J clock r generation =
     (let stop = (rq_action r = ''STOP'')
      in \<lparr>cc_strategy = rq_strategy r, cc_generation = generation, cc_expected = rq_expected r, cc_revision = 0,
          cc_action = rq_action r, cc_request = rq_request r, cc_request_hash = request_hash J r,
          cc_scope = request_scope r, cc_scope_hash = js_scope J (request_scope r),
          cc_actor = rq_actor r, cc_reason = rq_reason r,
          cc_phase = (if stop then (if rq_complete r then ''PENDING_CENSUS'' else ''BLOCKED_SCOPE'') else ''SETTLED''),
          cc_active = stop, cc_census = [], cc_executor = None, cc_fence = None, cc_until = None,
          cc_accepted = clock, cc_completed = (if stop then None else Some clock)\<rparr>)"

text \<open>The unique keys of the command table: strategy and generation, and one active row per strategy.\<close>

definition insert_command :: "string \<Rightarrow> control_command \<Rightarrow> control_db \<Rightarrow> control_db result" where
  "insert_command i c db =
     (if list_ex (\<lambda>(j, d). j = i \<or> cc_request d = cc_request c
           \<or> cc_strategy d = cc_strategy c \<and> (cc_generation d = cc_generation c \<or> cc_active d \<and> cc_active c))
         (cd_commands db)
      then Inl (OtherError ''IntegrityError'')
      else Inr (db\<lparr>cd_commands := cd_commands db @ [(i, c)]\<rparr>))"

definition request ::
  "json_port \<Rightarrow> int \<Rightarrow> request_terms \<Rightarrow> control_db \<Rightarrow> (command_receipt \<times> control_db) result" where
  "request J clock r db =
     and_then (check_request r) (\<lambda>_.
     and_then (lock_state J (rq_strategy r) db) (\<lambda>st.
       case request_replay (rq_request r) db of
         Some (i, c) \<Rightarrow>
           and_then (refuse_if (cc_request_hash c \<noteq> request_hash J r) ''request_identity_conflict'') (\<lambda>_.
             Inr (\<lparr>cr_command = i, cr_generation = cc_generation c, cr_action = cc_action c,
                   cr_phase = cc_phase c, cr_replayed = True\<rparr>, db))
       | None \<Rightarrow>
           and_then (refuse_if (map_of (cd_commands db) (rq_command r) \<noteq> None) ''command_identity_conflict'') (\<lambda>_.
           and_then (refuse_if (cs_generation st \<noteq> rq_expected r) ''stale_generation'') (\<lambda>_.
           and_then (refuse_if (cs_active st \<noteq> None) ''command_unsettled'') (\<lambda>_.
           and_then (strategy_row (rq_strategy r) db) (\<lambda>code.
           and_then (refuse_if (\<not> live_accounts (rq_strategy r) code (rq_accounts r) db) ''account_scope_not_live'') (\<lambda>_.
           and_then (refuse_if (rq_action r = ''ON'' \<and> cs_desired st \<noteq> ''STOP'') ''on_requires_settled_stop'') (\<lambda>_.
           and_then (refuse_if (rq_action r = ''ON'' \<and> \<not> settled_scope J (rq_strategy r) st (request_scope r) db)
             ''on_requires_same_settled_scope'') (\<lambda>_.
           let generation = cs_generation st + 1; c = new_command J clock r generation;
               stop = (rq_action r = ''STOP'')
           in and_then (insert_command (rq_command r) c db) (\<lambda>db1.
              and_then (cas_state (rq_strategy r) (cs_revision st)
                 \<lparr>cs_generation = generation, cs_revision = cs_revision st + 1,
                  cs_desired = (if stop then ''STOP'' else ''RUN''),
                  cs_active = (if stop then Some (rq_command r) else None)\<rparr> db1) (\<lambda>db2.
              Inr (\<lparr>cr_command = rq_command r, cr_generation = generation, cr_action = rq_action r,
                    cr_phase = cc_phase c, cr_replayed = False\<rparr>, db2))))))))))))"

section \<open>Settlement\<close>

definition TERMINAL_ORDER_STATUSES :: "string list" where
  "TERMINAL_ORDER_STATUSES = [''filled'', ''cancelled'', ''canceled'', ''rejected'', ''aborted'', ''expired'']"

definition proves_flat :: "evidence option \<Rightarrow> bool" where
  "proves_flat x \<longleftrightarrow>
     (case x of
        None \<Rightarrow> False
      | Some e \<Rightarrow> ev_complete e \<and> ev_owned e = Some 0 \<and> ev_working e = Some 0 \<and> ev_in_flight e = Some 0
          \<and> (case ev_hash e of None \<Rightarrow> False | Some h \<Rightarrow> length h = 64))"

definition check_evidence :: "int \<Rightarrow> int \<Rightarrow> evidence option \<Rightarrow> unit result" where
  "check_evidence accepted clock x =
     and_then (refuse_if (\<not> proves_flat x) ''inventory_not_proven_settled'') (\<lambda>_.
       case ev_observed (the x) of
         None \<Rightarrow> Inl (ValueError ''inventory_observation_time_unknown'')
       | Some t \<Rightarrow> refuse_if (is_naive t \<or> utc_of t < accepted \<or> utc_of t > clock \<or> clock - utc_of t > 2000000)
                    ''inventory_observation_not_fresh'')"

fun check_census :: "int \<Rightarrow> int \<Rightarrow> evidence option list \<Rightarrow> unit result" where
  "check_census accepted clock [] = Inr ()"
| "check_census accepted clock (x # xs) =
     and_then (check_evidence accepted clock x) (\<lambda>_. check_census accepted clock xs)"

definition owned_order_pending :: "string \<Rightarrow> string list \<Rightarrow> control_db \<Rightarrow> bool" where
  "owned_order_pending sid accounts db \<longleftrightarrow>
     list_ex (\<lambda>o'. bo_strategy o' = sid \<and> bo_account o' \<in> set accounts
                 \<and> bo_status o' \<notin> set TERMINAL_ORDER_STATUSES) (ob_orders (cd_book db))"

definition attempt_unresolved :: "string \<Rightarrow> control_db \<Rightarrow> bool" where
  "attempt_unresolved sid db \<longleftrightarrow>
     list_ex (\<lambda>(s, status). s = sid \<and> status \<notin> {''TERMINAL'', ''PROVEN_NOT_SENT''}) (cd_attempts db)"

definition check_settler ::
  "json_port \<Rightarrow> int \<Rightarrow> string \<Rightarrow> stop_lease option \<Rightarrow> control_command \<Rightarrow> control_db \<Rightarrow> unit result" where
  "check_settler J clock i lease c db =
     (case lease of
        Some L \<Rightarrow> and_then (refuse_if (le_command L \<noteq> i) ''stop_executor_fenced'') (\<lambda>_.
                    and_then (leased J L (Aware clock) db) (\<lambda>_. Inr ()))
      | None \<Rightarrow> refuse_if (cc_executor c \<noteq> None) ''settlement_executor_unknown'')"

definition settle_stop ::
  "json_port \<Rightarrow> int \<Rightarrow> string \<Rightarrow> census \<Rightarrow> stop_lease option \<Rightarrow> control_db \<Rightarrow> (control_state \<times> control_db) result" where
  "settle_stop J clock i census lease db =
     and_then (command_row i db) (\<lambda>c.
     and_then (lock_state J (cc_strategy c) db) (\<lambda>st.
     and_then (check_settler J clock i lease c db) (\<lambda>_.
     and_then (refuse_if (cc_action c \<noteq> ''STOP'' \<or> \<not> cc_active c \<or> cs_active st \<noteq> Some i
         \<or> cs_generation st \<noteq> cc_generation c) ''command_not_active_stop'') (\<lambda>_.
     and_then (refuse_if (\<not> sc_complete (cc_scope c)) ''inventory_scope_unknown'') (\<lambda>_.
     and_then (refuse_if (set (map fst census) \<noteq> set (sc_accounts (cc_scope c))) ''incomplete_account_census'') (\<lambda>_.
     and_then (check_census (cc_accepted c) clock (map snd census)) (\<lambda>_.
     and_then (refuse_if (owned_order_pending (cc_strategy c) (sc_accounts (cc_scope c)) db)
       ''owned_order_not_terminal'') (\<lambda>_.
     and_then (refuse_if (attempt_unresolved (cc_strategy c) db) ''unresolved_attempt'') (\<lambda>_.
     let c1 = c\<lparr>cc_census := census, cc_phase := ''SETTLED'', cc_active := False,
                cc_revision := cc_revision c + 1, cc_completed := Some clock\<rparr>;
         st1 = st\<lparr>cs_active := None, cs_revision := cs_revision st + 1\<rparr>
     in Inr (st1, put_state (cc_strategy c) st1 (put_command i c1 db)))))))))))"

section \<open>The in-memory latch\<close>

text \<open>\<open>AdmissionLatch\<close>: the states a tick may read, by strategy.\<close>

type_synonym latch = "(string, control_state) dict"

definition version :: "control_state \<Rightarrow> int \<times> int" where
  "version st = (cs_generation st, cs_revision st)"

definition newer :: "control_state \<Rightarrow> control_state \<Rightarrow> bool" where
  "newer a b \<longleftrightarrow> fst (version a) > fst (version b)
     \<or> fst (version a) = fst (version b) \<and> snd (version a) > snd (version b)"

definition replace_latch :: "(string \<times> control_state) list \<Rightarrow> latch \<Rightarrow> latch" where
  "replace_latch states l =
     fold (\<lambda>(sid, st) updated.
             AList.update sid (case map_of l sid of
                                 Some previous \<Rightarrow> (if newer previous st then previous else st)
                               | None \<Rightarrow> st) updated) states []"

definition invalidate_latch :: "string \<Rightarrow> latch \<Rightarrow> latch" where
  "invalidate_latch sid l = AList.delete sid l"

definition latch_permits :: "string \<Rightarrow> int \<Rightarrow> latch \<Rightarrow> bool" where
  "latch_permits sid generation l \<longleftrightarrow>
     (case map_of l sid of None \<Rightarrow> False | Some st \<Rightarrow> cs_generation st = generation \<and> admission_open st)"

section \<open>Transactions\<close>

text \<open>
  One committed transaction of the control store, or of the rest of the program on the tables it
  shares: order rows are created and updated from reports as in \<open>OmsBook\<close>, a new order carries no
  permit, and no other part of the program writes the control tables.
\<close>

datatype control_label =
    Internal
  | Permitted string string int
  | Replaced string string int
  | Requested command_receipt string
  | Claimed stop_lease
  | Settled string

inductive control_step :: "json_port \<Rightarrow> control_db \<Rightarrow> control_label \<Rightarrow> control_db \<Rightarrow> bool" for J where
  by_seed: "seed J sid db = Inr (st, db1) \<Longrightarrow> control_step J db Internal db1"
| by_claim: "claim_stop J i ex now db = Inr (Some L, db1) \<Longrightarrow> control_step J db (Claimed L) db1"
| by_renew: "renew_stop J L now db = Inr db1 \<Longrightarrow> control_step J db Internal db1"
| by_phase: "set_stop_phase J L phase now db = Inr db1 \<Longrightarrow> control_step J db Internal db1"
| by_unsent: "prove_unsent_entry J oid sid ac y db = Inr (b, db1) \<Longrightarrow> control_step J db Internal db1"
| by_request: "request J clock r db = Inr (x, db1) \<Longrightarrow> control_step J db (Requested x (rq_strategy r)) db1"
| by_entry: "authorize_entry J clock oid sid g decided ac y db = Inr (p, db1)
    \<Longrightarrow> control_step J db (Permitted sid oid (pm_generation p)) db1"
| by_replacement: "authorize_replacement J clock oid tid sid ac y old g decided' db = Inr (p, db1)
    \<Longrightarrow> control_step J db (Replaced sid tid (pm_generation p)) db1"
| by_settle: "settle_stop J clock i census lease db = Inr (st, db1) \<Longrightarrow> control_step J db (Settled i) db1"
| by_report: "order_of oid (cd_book db) = Some o' \<Longrightarrow>
    update_order_from_report now' rep md keep o' (cd_book db) = (o1, b1)
    \<Longrightarrow> control_step J db Internal (db\<lparr>cd_book := b1\<rparr>)"
| by_create: "order_of (no_id n) (cd_book db) = None \<Longrightarrow> get_or_create_order now' n (cd_book db) = (o1, b1)
    \<Longrightarrow> control_step J db Internal (db\<lparr>cd_book := b1\<rparr>)"
| by_prepare: "order_of (bo_id o') (cd_book db) = None \<Longrightarrow> \<not> has_key ''bot_control_permit'' (bo_payload o')
    \<Longrightarrow> control_step J db Internal (db\<lparr>cd_book := (cd_book db)\<lparr>ob_orders := ob_orders (cd_book db) @ [o']\<rparr>\<rparr>)"
| by_fill: "record_fill_if_needed o' st' ac rep (cd_book db) = (f, b1)
    \<Longrightarrow> control_step J db Internal (db\<lparr>cd_book := b1\<rparr>)"
| by_attempts: "control_step J db Internal (db\<lparr>cd_attempts := xs\<rparr>)"
| by_accounts: "control_step J db Internal (db\<lparr>cd_book := (cd_book db)\<lparr>ob_accounts := acs\<rparr>\<rparr>)"

inductive_cases control_stepE: "control_step J db l db1"

end
