(* ===== verification/BotControlSpec.thy ===== *)
theory BotControlSpec
  imports BotControl
begin

text \<open>
  What the control store promises in every sequence of transactions: the command history stays
  consistent, a STOP fences every later entry until an ON, an ON needs a settled and proven flat
  STOP, an order gets at most one wire permit, a lease taken over is fenced for good, and a repeated
  request returns its first receipt.
\<close>

declare split_paired_All [simp del] split_paired_Ex [simp del]

section \<open>What a transaction changes\<close>

definition kept :: "control_command \<Rightarrow> control_command \<Rightarrow> bool" where
  "kept c d \<longleftrightarrow> cc_strategy d = cc_strategy c \<and> cc_generation d = cc_generation c \<and> cc_action d = cc_action c
     \<and> cc_request d = cc_request c \<and> cc_request_hash d = cc_request_hash c \<and> cc_scope d = cc_scope c
     \<and> cc_scope_hash d = cc_scope_hash c"

definition lease_grows :: "control_command \<Rightarrow> control_command \<Rightarrow> bool" where
  "lease_grows c d \<longleftrightarrow>
     (\<forall>f. cc_fence c = Some f \<longrightarrow>
        (\<exists>g. cc_fence d = Some g \<and> (f < g \<or> f = g \<and> cc_executor d = cc_executor c)))"

lemma lease_growsI:
  "cc_fence d = cc_fence c \<Longrightarrow> cc_executor d = cc_executor c \<Longrightarrow> lease_grows c d"
  by (auto simp: lease_grows_def)

lemma hydrate_Inr:
  "hydrate_state J sid db = Inr st \<longleftrightarrow>
   (\<exists>code. strategy_row sid db = Inr code) \<and> map_of (cd_states db) sid = Some st
   \<and> validate_state J sid st db = Inr ()"
  by (auto simp: hydrate_state_def res_simps split: option.splits)

lemma put_command_parts [simp]:
  "cd_states (put_command i c db) = cd_states db" "cd_commands (put_command i c db) = AList.update i c (cd_commands db)"
  "cd_book (put_command i c db) = cd_book db"
  by (simp_all add: put_command_def)

lemma put_state_parts [simp]:
  "cd_states (put_state sid st db) = AList.update sid st (cd_states db)"
  "cd_commands (put_state sid st db) = cd_commands db" "cd_book (put_state sid st db) = cd_book db"
  by (simp_all add: put_state_def)

lemma put_entry_parts [simp]:
  "cd_states (put_entry o' db) = cd_states db" "cd_commands (put_entry o' db) = cd_commands db"
  by (simp_all add: put_entry_def)

lemma claim_Inr:
  assumes "claim_stop J i ex at' db = Inr (Some L, db1)"
  obtains c d where "map_of (cd_commands db) i = Some c" "cc_active c" "db1 = put_command i d db" "kept c d"
    "cc_active d" "cc_phase d = cc_phase c" "cc_census d = cc_census c" "lease_grows c d"
    "le_command L = i" "le_executor L = ex" "cc_executor d = Some ex" "cc_fence d = Some (le_fence L)"
    "\<And>f. cc_fence c = Some f \<Longrightarrow> f < le_fence L \<or> f = le_fence L \<and> cc_executor c = Some ex"
proof -
  let ?now = "utc_of at'"
  let ?d = "\<lambda>c. c\<lparr>cc_executor := Some ex, cc_fence := Some (le_fence L),
              cc_until := Some (?now + LEASE_US), cc_revision := cc_revision c + 1\<rparr>"
  obtain c where c: "map_of (cd_commands db) i = Some c" "cc_active c"
      "unexpired ?now c \<longrightarrow> cc_executor c = Some ex"
      "le_command L = i" "le_executor L = ex" "le_fence L = next_fence ?now c" "db1 = put_command i (?d c) db"
    using assms by (auto simp: claim_stop_def command_row_def res_simps Let_def split: option.splits if_splits)
  have f: "f < le_fence L \<or> f = le_fence L \<and> cc_executor c = Some ex" if "cc_fence c = Some f" for f
    using c(3,6) that by (auto simp: next_fence_def split: if_splits)
  show thesis
    by (rule that[OF c(1,2,7)]) (use f c in \<open>auto simp: kept_def lease_grows_def\<close>)
qed

lemma leased_Inr:
  "leased J L at' db = Inr c \<longleftrightarrow>
   \<not> is_naive at' \<and> (\<exists>st. hydrate_state J (le_strategy L) db = Inr st \<and> cs_active st = Some (le_command L)
     \<and> cs_desired st = ''STOP'' \<and> cs_generation st = le_generation L)
   \<and> map_of (cd_commands db) (le_command L) = Some c \<and> cc_active c \<and> cc_generation c = le_generation L
   \<and> cc_executor c = Some (le_executor L) \<and> cc_fence c = Some (le_fence L) \<and> unexpired (utc_of at') c"
  by (auto simp: leased_def res_simps split: option.splits)

lemma authorize_Inr:
  assumes "authorize_entry J clock oid sid g decided ac y db = Inr (p, db1)"
  obtains st o' where "hydrate_state J sid db = Inr st" "admission_open st" "cs_generation st = g"
    "pm_generation p = g" "order_of oid (cd_book db) = Some o'" "bo_broker_id o' = None" "bo_submitted o' = None"
    "\<not> has_key ''bot_control_permit'' (bo_payload o')"
    "cd_states db1 = AList.update sid (st\<lparr>cs_revision := cs_revision st + 1\<rparr>) (cd_states db)"
    "cd_commands db1 = cd_commands db"
    "cd_book db1 = put_order (o'\<lparr>bo_payload := AList.update ''bot_control_permit''
       (MText (js_permit J p (bo_client_id o'))) (bo_payload o')\<rparr>) (cd_book db)"
  using assms
  by (auto simp: authorize_entry_def res_simps Let_def cas_state_def unsent_owned_buy_def put_entry_def
      split: option.splits if_splits)

lemma replacement_Inr:
  assumes "authorize_replacement J clock oid tid sid ac y old g decided db = Inr (p, db1)"
  obtains st where "hydrate_state J sid db = Inr st" "admission_open st" "cs_generation st = g"
    "pm_generation p = g" "cd_states db1 = AList.update sid (st\<lparr>cs_revision := cs_revision st + 1\<rparr>) (cd_states db)"
    "cd_commands db1 = cd_commands db" "cd_book db1 = cd_book db"
  using assms
  by (auto simp: authorize_replacement_def res_simps Let_def cas_state_def split: option.splits if_splits)

lemma insert_command_Inr:
  "insert_command i c db = Inr db1 \<longleftrightarrow>
   \<not> list_ex (\<lambda>(j, d). j = i \<or> cc_request d = cc_request c
       \<or> cc_strategy d = cc_strategy c \<and> (cc_generation d = cc_generation c \<or> cc_active d \<and> cc_active c))
     (cd_commands db)
   \<and> db1 = db\<lparr>cd_commands := cd_commands db @ [(i, c)]\<rparr>"
  by (auto simp: insert_command_def)


lemma cas_state_Inr:
  "cas_state sid revision st db = Inr db1 \<longleftrightarrow>
   (\<exists>old. map_of (cd_states db) sid = Some old \<and> cs_revision old = revision) \<and> db1 = put_state sid st db"
  by (auto simp: cas_state_def res_simps split: option.splits)

lemma command_row_Inr: "command_row i db = Inr c \<longleftrightarrow> map_of (cd_commands db) i = Some c"
  by (simp add: command_row_def split: option.split)

lemma request_Inr:
  assumes "request J clock r db = Inr (x, db1)"
  obtains (replayed) i c where "request_replay (rq_request r) db = Some (i, c)" "cc_request_hash c = request_hash J r"
      "x = \<lparr>cr_command = i, cr_generation = cc_generation c, cr_action = cc_action c,
            cr_phase = cc_phase c, cr_replayed = True\<rparr>" "db1 = db"
  | (asked) st c where "request_replay (rq_request r) db = None" "hydrate_state J (rq_strategy r) db = Inr st"
      "cs_active st = None" "rq_action r = ''ON'' \<Longrightarrow> cs_desired st = ''STOP'' \<and>
         settled_scope J (rq_strategy r) st (request_scope r) db"
      "rq_action r \<in> {''STOP'', ''ON''}" "c = new_command J clock r (cs_generation st + 1)"
      "insert_command (rq_command r) c db = Inr (db\<lparr>cd_commands := cd_commands db @ [(rq_command r, c)]\<rparr>)"
      "x = \<lparr>cr_command = rq_command r, cr_generation = cs_generation st + 1, cr_action = rq_action r,
            cr_phase = cc_phase c, cr_replayed = False\<rparr>"
      "cd_commands db1 = cd_commands db @ [(rq_command r, c)]"
      "cd_states db1 = AList.update (rq_strategy r) \<lparr>cs_generation = cs_generation st + 1,
         cs_revision = cs_revision st + 1, cs_desired = (if rq_action r = ''STOP'' then ''STOP'' else ''RUN''),
         cs_active = (if rq_action r = ''STOP'' then Some (rq_command r) else None)\<rparr> (cd_states db)"
      "cd_book db1 = cd_book db"
proof -
  from assms obtain st where st: "check_request r = Inr ()" "hydrate_state J (rq_strategy r) db = Inr st"
    by (auto simp: request_def res_simps)
  show thesis
  proof (cases "request_replay (rq_request r) db")
    case None
    let ?c = "new_command J clock r (cs_generation st + 1)"
    let ?st = "\<lparr>cs_generation = cs_generation st + 1, cs_revision = cs_revision st + 1,
       cs_desired = (if rq_action r = ''STOP'' then ''STOP'' else ''RUN''),
       cs_active = (if rq_action r = ''STOP'' then Some (rq_command r) else None)\<rparr>"
    obtain db2 where d: "cs_active st = None" "\<not> (rq_action r = ''ON'' \<and> cs_desired st \<noteq> ''STOP'')"
      "\<not> (rq_action r = ''ON'' \<and> \<not> settled_scope J (rq_strategy r) st (request_scope r) db)"
      "insert_command (rq_command r) ?c db = Inr db2" "cas_state (rq_strategy r) (cs_revision st) ?st db2 = Inr db1"
      "x = \<lparr>cr_command = rq_command r, cr_generation = cs_generation st + 1, cr_action = rq_action r,
            cr_phase = cc_phase ?c, cr_replayed = False\<rparr>"
      using assms st None unfolding request_def
      by (simp only: res_simps Let_def and_then_simps option.case) blast
    have a: "rq_action r \<in> {''STOP'', ''ON''}" using st(1) by (simp add: check_request_def res_simps)
    have e: "db2 = db\<lparr>cd_commands := cd_commands db @ [(rq_command r, ?c)]\<rparr>" using d(4) by (simp add: insert_command_Inr)
    have f: "db1 = put_state (rq_strategy r) ?st db2"
      using d(5) unfolding cas_state_Inr by blast
    show thesis
      by (rule asked[OF None st(2) d(1) _ a refl d(4)[unfolded e] d(6)]) (use d(2,3) in \<open>simp_all add: e f\<close>)
  next
    case (Some p)
    obtain i c where p: "p = (i, c)" by (cases p)
    show thesis
      by (rule replayed[OF Some[unfolded p]])
        (use assms st Some p in \<open>auto simp: request_def res_simps\<close>)
  qed
qed

lemma check_census_Inr:
  "check_census accepted clock xs = Inr u \<longleftrightarrow> (\<forall>x \<in> set xs. check_evidence accepted clock x = Inr ())"
  by (induction xs) (auto simp: res_simps)

lemma settle_Inr:
  assumes "settle_stop J clock i census lease db = Inr (st1, db1)"
  obtains c st where "map_of (cd_commands db) i = Some c" "hydrate_state J (cc_strategy c) db = Inr st"
    "cc_action c = ''STOP''" "cc_active c" "cs_active st = Some i" "cs_generation st = cc_generation c"
    "sc_complete (cc_scope c)" "set (map fst census) = set (sc_accounts (cc_scope c))"
    "\<forall>x \<in> set (map snd census). check_evidence (cc_accepted c) clock x = Inr ()"
    "\<not> owned_order_pending (cc_strategy c) (sc_accounts (cc_scope c)) db" "\<not> attempt_unresolved (cc_strategy c) db"
    "cd_states db1 = AList.update (cc_strategy c) (st\<lparr>cs_active := None, cs_revision := cs_revision st + 1\<rparr>) (cd_states db)"
    "cd_commands db1 = AList.update i (c\<lparr>cc_census := census, cc_phase := ''SETTLED'', cc_active := False,
       cc_revision := cc_revision c + 1, cc_completed := Some clock\<rparr>) (cd_commands db)"
    "cd_book db1 = cd_book db"
proof -
  from assms obtain c st where c: "map_of (cd_commands db) i = Some c" "hydrate_state J (cc_strategy c) db = Inr st"
    "\<not> (cc_action c \<noteq> ''STOP'' \<or> \<not> cc_active c \<or> cs_active st \<noteq> Some i \<or> cs_generation st \<noteq> cc_generation c)"
    "sc_complete (cc_scope c)" "set (map fst census) = set (sc_accounts (cc_scope c))"
    "\<forall>x \<in> set (map snd census). check_evidence (cc_accepted c) clock x = Inr ()"
    "\<not> owned_order_pending (cc_strategy c) (sc_accounts (cc_scope c)) db" "\<not> attempt_unresolved (cc_strategy c) db"
    "st1 = st\<lparr>cs_active := None, cs_revision := cs_revision st + 1\<rparr>"
    "db1 = put_state (cc_strategy c) st1 (put_command i (c\<lparr>cc_census := census, cc_phase := ''SETTLED'',
       cc_active := False, cc_revision := cc_revision c + 1, cc_completed := Some clock\<rparr>) db)"
    unfolding settle_stop_def
    by (simp only: res_simps Let_def command_row_Inr check_census_Inr sum.inject prod.inject not_not) blast
  show thesis
    by (rule that[OF c(1,2) _ _ _ _ c(4-8)]) (use c(3,9,10) in simp_all)
qed

lemma unsent_Inr:
  assumes "prove_unsent_entry J oid sid ac y db = Inr (b, db1)"
  shows "b \<and> (\<exists>o' o1. order_of oid (cd_book db) = Some o' \<and> bo_id o1 = bo_id o' \<and> bo_broker_id o1 = bo_broker_id o'
           \<and> bo_submitted o1 = bo_submitted o' \<and> \<not> has_key ''bot_control_permit'' (bo_payload o')
           \<and> db1 = put_entry o1 db)
    \<or> \<not> b \<and> db1 = db"
proof (cases "order_of oid (cd_book db)")
  case (Some o')
  let ?P = "bo_strategy o' \<noteq> sid \<or> bo_account o' \<noteq> ac \<or> bo_symbol o' \<noteq> y \<or> bo_side o' \<noteq> ''buy''
     \<or> bo_status o' \<noteq> ''pending'' \<or> bo_broker_id o' \<noteq> None \<or> bo_submitted o' \<noteq> None
     \<or> \<not> has_key ''bot_control_generation'' (bo_payload o')
     \<or> has_key ''bot_control_permit'' (bo_payload o') \<or> has_fill oid db"
  show ?thesis
  proof (cases ?P)
    case True
    with assms Some show ?thesis
      unfolding prove_unsent_entry_def by (simp only: res_simps option.case if_True sum.inject prod.inject) blast
  next
    case False
    obtain st :: control_state where "(True, put_entry (o'\<lparr>bo_status := ''aborted'',
        bo_payload := AList.update ''bot_control_proven_not_sent''
          (MText (js_unsent J (cs_generation st) (cs_active st))) (bo_payload o')\<rparr>) db) = (b, db1)"
      using assms Some False unfolding prove_unsent_entry_def
      by (simp only: res_simps option.case if_False sum.inject) blast
    moreover have "\<not> has_key ''bot_control_permit'' (bo_payload o')" using False by blast
    ultimately show ?thesis
      using Some by (intro disjI1 conjI exI[of _ o'] exI[of _ "o'\<lparr>bo_status := ''aborted'',
        bo_payload := AList.update ''bot_control_proven_not_sent''
          (MText (js_unsent J (cs_generation st) (cs_active st))) (bo_payload o')\<rparr>"]) auto
  qed
qed (use assms in \<open>auto simp: prove_unsent_entry_def res_simps\<close>)

lemma phase_Inr:
  assumes "set_stop_phase J L phase at' db = Inr db1"
  obtains c where "leased J L at' db = Inr c" "phase \<in> set STOP_PHASES" "db1 = put_command (le_command L)
     (c\<lparr>cc_phase := phase, cc_revision := cc_revision c + (if cc_phase c \<noteq> phase then 1 else 0)\<rparr>) db"
  using assms by (auto simp: set_stop_phase_def res_simps)

text \<open>Every transaction is one of six moves on the states and commands.\<close>

lemma control_cases [consumes 1, case_names quiet bump touch seeded asked settled]:
  assumes "control_step J db l db1"
  obtains "cd_states db1 = cd_states db" "cd_commands db1 = cd_commands db"
    "l = Internal \<or> (\<exists>x sid. l = Requested x sid \<and> cr_replayed x)"
  | sid st where "hydrate_state J sid db = Inr st" "admission_open st"
    "cd_states db1 = AList.update sid (st\<lparr>cs_revision := cs_revision st + 1\<rparr>) (cd_states db)"
    "cd_commands db1 = cd_commands db" "\<exists>i. l \<in> {Permitted sid i (cs_generation st), Replaced sid i (cs_generation st)}"
  | i c d where "map_of (cd_commands db) i = Some c" "kept c d" "cc_active c" "cc_active d" "lease_grows c d"
    "cd_states db1 = cd_states db" "cd_commands db1 = AList.update i d (cd_commands db)"
    "l = Internal \<or> (\<exists>L. l = Claimed L \<and> le_command L = i \<and> cc_executor d = Some (le_executor L)
        \<and> cc_fence d = Some (le_fence L)
        \<and> (\<forall>f. cc_fence c = Some f \<longrightarrow> f < le_fence L \<or> f = le_fence L \<and> cc_executor c = Some (le_executor L)))"
  | sid where "map_of (cd_states db) sid = None" "cd_commands db1 = cd_commands db" "l = Internal"
    "cd_states db1 = AList.update sid \<lparr>cs_generation = 0, cs_revision = 0, cs_desired = ''RUN'', cs_active = None\<rparr> (cd_states db)"
  | clock r x where "request J clock r db = Inr (x, db1)" "\<not> cr_replayed x" "l = Requested x (rq_strategy r)"
  | clock i census lease st where "settle_stop J clock i census lease db = Inr (st, db1)" "l = Settled i"
  using assms
proof (cases rule: control_step.cases)
  case (by_seed sid st)
  show thesis
  proof (cases "map_of (cd_states db) sid")
    case None
    with by_seed(2) have "db1 = put_state sid \<lparr>cs_generation = 0, cs_revision = 0, cs_desired = ''RUN'', cs_active = None\<rparr> db"
      unfolding seed_def by (simp add: res_simps Let_def)
    then show thesis by (intro that(4)[OF None]) (simp_all add: by_seed(1))
  next
    case (Some st0)
    with by_seed(2) have "db1 = db" unfolding seed_def by (simp add: res_simps Let_def)
    then show thesis by (intro that(1)) (simp_all add: by_seed(1))
  qed
next
  case (by_claim i ex now L)
  from by_claim(2) show thesis
    by (rule claim_Inr) (rule that(3), use by_claim(1) in auto)
next
  case (by_renew L now)
  then obtain c where c: "leased J L now db = Inr c" "db1 = put_command (le_command L)
      (c\<lparr>cc_until := Some (utc_of now + LEASE_US)\<rparr>) db" by (auto simp: renew_stop_def res_simps)
  then show thesis
    by (intro that(3)[of "le_command L" c]) (use by_renew(1) in \<open>auto simp: leased_Inr kept_def lease_grows_def\<close>)
next
  case (by_phase L phase now)
  from by_phase(2) show thesis
  proof (rule phase_Inr)
    fix c
    assume c: "leased J L now db = Inr c" "db1 = put_command (le_command L)
        (c\<lparr>cc_phase := phase, cc_revision := cc_revision c + (if cc_phase c \<noteq> phase then 1 else 0)\<rparr>) db"
    then show thesis
      by (intro that(3)[of "le_command L" c]) (use by_phase(1) in \<open>auto simp: leased_Inr kept_def lease_grows_def\<close>)
  qed
next
  case (by_request clock r x)
  from by_request(2) show thesis
    by (rule request_Inr) (use that(1,5) by_request in auto)
next
  case (by_entry clock oid sid g decided ac y p)
  from by_entry(2) show thesis
    by (rule authorize_Inr) (rule that(2), use by_entry(1) in auto)
next
  case (by_replacement clock oid tid sid ac y old g decided' p)
  from by_replacement(2) show thesis
    by (rule replacement_Inr) (rule that(2), use by_replacement(1) in auto)
next
  case by_unsent
  then have "cd_states db1 = cd_states db" "cd_commands db1 = cd_commands db"
    using unsent_Inr by fastforce+
  with by_unsent(1) that(1) show thesis by blast
qed (use that(1,6) in auto)


section \<open>A STOP fences every entry\<close>

definition fenced :: "string \<Rightarrow> int \<Rightarrow> control_db \<Rightarrow> bool" where
  "fenced sid G db \<longleftrightarrow>
     (\<exists>st. map_of (cd_states db) sid = Some st
        \<and> (G < cs_generation st \<or> G = cs_generation st \<and> cs_desired st = ''STOP''))"

definition stopped :: "string \<Rightarrow> control_db \<Rightarrow> bool" where
  "stopped sid db \<longleftrightarrow> (\<exists>st. map_of (cd_states db) sid = Some st \<and> cs_desired st = ''STOP'')"

definition permits :: "string \<Rightarrow> control_label \<Rightarrow> int option" where
  "permits sid l = (case l of
       Permitted s i g \<Rightarrow> if s = sid then Some g else None
     | Replaced s i g \<Rightarrow> if s = sid then Some g else None | _ \<Rightarrow> None)"

definition reopens :: "string \<Rightarrow> control_label \<Rightarrow> bool" where
  "reopens sid l \<longleftrightarrow> (\<exists>x. l = Requested x sid \<and> cr_action x = ''ON'')"

lemma fenced_step:
  assumes "control_step J db l db1" "fenced sid G db"
  shows "fenced sid G db1 \<and> (\<forall>g. permits sid l = Some g \<longrightarrow> G < g)"
  using assms(1)
proof (cases rule: control_cases)
  case quiet
  with assms(2) show ?thesis by (auto simp: fenced_def permits_def)
next
  case (bump s st)
  then have m: "map_of (cd_states db) s = Some st" "cs_desired st \<noteq> ''STOP''"
    by (auto simp: hydrate_Inr admission_open_def)
  with bump assms(2) show ?thesis by (auto simp: fenced_def permits_def dict_simps)
next
  case touch
  with assms(2) show ?thesis by (auto simp: fenced_def permits_def)
next
  case seeded
  with assms(2) show ?thesis by (auto simp: fenced_def permits_def dict_simps)
next
  case (asked clock r x)
  from asked(1) show ?thesis
  proof (cases rule: request_Inr)
    case (asked st c)
    then have "map_of (cd_states db) (rq_strategy r) = Some st" by (simp add: hydrate_Inr)
    with asked(10) assms(2) \<open>l = Requested x (rq_strategy r)\<close> show ?thesis
      by (auto simp: fenced_def permits_def dict_simps)
  qed (use asked in simp)
next
  case (settled clock i census lease st)
  from settled(1) show ?thesis
  proof (rule settle_Inr)
    fix c st0
    assume "hydrate_state J (cc_strategy c) db = Inr st0"
      "cd_states db1 = AList.update (cc_strategy c) (st0\<lparr>cs_active := None, cs_revision := cs_revision st0 + 1\<rparr>) (cd_states db)"
    with assms(2) settled(2) show ?thesis by (auto simp: fenced_def permits_def dict_simps hydrate_Inr)
  qed
qed

lemma stopped_step:
  assumes "control_step J db l db1" "stopped sid db" "\<not> reopens sid l"
  shows "stopped sid db1 \<and> permits sid l = None"
  using assms(1)
proof (cases rule: control_cases)
  case quiet
  with assms(2) show ?thesis by (auto simp: stopped_def permits_def)
next
  case (bump s st)
  then have m: "map_of (cd_states db) s = Some st" "cs_desired st \<noteq> ''STOP''"
    by (auto simp: hydrate_Inr admission_open_def)
  with bump assms(2) show ?thesis by (auto simp: stopped_def permits_def dict_simps)
next
  case touch
  with assms(2) show ?thesis by (auto simp: stopped_def permits_def)
next
  case seeded
  with assms(2) show ?thesis by (auto simp: stopped_def permits_def dict_simps)
next
  case (asked clock r x)
  from asked(1) show ?thesis
  proof (cases rule: request_Inr)
    case (asked st c)
    with assms(3) \<open>l = Requested x (rq_strategy r)\<close> have "rq_strategy r = sid \<longrightarrow> rq_action r = ''STOP''"
      by (auto simp: reopens_def)
    with asked(10) assms(2) \<open>l = Requested x (rq_strategy r)\<close> show ?thesis
      by (auto simp: stopped_def permits_def dict_simps)
  qed (use asked in simp)
next
  case (settled clock i census lease st)
  from settled(1) show ?thesis
  proof (rule settle_Inr)
    fix c st0
    assume "hydrate_state J (cc_strategy c) db = Inr st0"
      "cd_states db1 = AList.update (cc_strategy c) (st0\<lparr>cs_active := None, cs_revision := cs_revision st0 + 1\<rparr>) (cd_states db)"
    with assms(2) settled(2) show ?thesis by (auto simp: stopped_def permits_def dict_simps hydrate_Inr)
  qed
qed

lemma fenced_run:
  "run (control_step J) db ls db1 \<Longrightarrow> fenced sid G db \<Longrightarrow>
   fenced sid G db1 \<and> (\<forall>l \<in> set ls. \<forall>g. permits sid l = Some g \<longrightarrow> G < g)"
proof (induction rule: run.induct)
  case (run_snoc s ls t l u)
  with fenced_step[OF run_snoc.hyps(2), of sid G] show ?case by auto
qed simp

lemma stopped_run:
  "run (control_step J) db ls db1 \<Longrightarrow> stopped sid db \<Longrightarrow> (\<forall>l \<in> set ls. \<not> reopens sid l) \<Longrightarrow>
   stopped sid db1 \<and> (\<forall>l \<in> set ls. permits sid l = None)"
proof (induction rule: run.induct)
  case (run_snoc s ls t l u)
  with stopped_step[OF run_snoc.hyps(2), of sid] show ?case by auto
qed simp

text \<open>
  C10: Once a STOP of a strategy has committed, no transaction of any later run grants an entry or a
  replacement permit of its generation or an earlier one: every later permit is of a newer generation,
  and as long as nobody requests ON there is none at all and the strategy stays stopped (settling the
  STOP does not reopen it).
\<close>
theorem stop_blocks_entries:
  assumes "control_step J db (Requested x sid) db1" "cr_action x = ''STOP''" "\<not> cr_replayed x"
    and "run (control_step J) db1 ls db2"
  shows "(\<forall>l \<in> set ls. \<forall>g. permits sid l = Some g \<longrightarrow> cr_generation x < g)
    \<and> ((\<forall>l \<in> set ls. \<not> reopens sid l) \<longrightarrow> stopped sid db2 \<and> (\<forall>l \<in> set ls. permits sid l = None))"
proof -
  from assms(1) obtain clock r where r: "request J clock r db = Inr (x, db1)" "rq_strategy r = sid"
    using assms(3) by (cases rule: control_cases) auto
  from r(1) have "fenced sid (cr_generation x) db1 \<and> stopped sid db1"
    by (cases rule: request_Inr) (use r(2) assms(2,3) in \<open>auto simp: fenced_def stopped_def dict_simps\<close>)
  with fenced_run[OF assms(4)] stopped_run[OF assms(4)] show ?thesis by blast
qed


section \<open>One wire permit per order\<close>

definition spent :: "broker_order \<Rightarrow> bool" where
  "spent o' \<longleftrightarrow> has_key ''bot_control_permit'' (bo_payload o') \<or> bo_submitted o' \<noteq> None \<or> bo_broker_id o' \<noteq> None"

definition spent_id :: "control_db \<Rightarrow> string \<Rightarrow> bool" where
  "spent_id db i \<longleftrightarrow> (\<exists>o'. order_of i (cd_book db) = Some o' \<and> spent o')"

definition permitted_order :: "control_label \<Rightarrow> string option" where
  "permitted_order l = (case l of Permitted s i g \<Rightarrow> Some i | _ \<Rightarrow> None)"

lemma order_of_id: "order_of i b = Some o' \<Longrightarrow> bo_id o' = i"
  by (auto simp: order_of_def find_Some_iff)

lemma order_of_put:
  "order_of i (put_order o' b) = (if i = bo_id o' \<and> order_of i b \<noteq> None then Some o' else order_of i b)"
proof -
  have "List.find (\<lambda>x. bo_id x = i) (map (\<lambda>x. if bo_id x = bo_id o' then o' else x) xs)
      = (if i = bo_id o' \<and> List.find (\<lambda>x. bo_id x = i) xs \<noteq> None then Some o' else List.find (\<lambda>x. bo_id x = i) xs)" for xs
    by (induction xs) auto
  moreover have "ob_orders (put_order o' b) = map (\<lambda>x. if bo_id x = bo_id o' then o' else x) (ob_orders b)"
    by (simp add: put_order_def)
  ultimately show ?thesis by (simp only: order_of_def)
qed

lemma order_of_append:
  "order_of i (b\<lparr>ob_orders := ob_orders b @ [o']\<rparr>) =
     (case order_of i b of None \<Rightarrow> (if bo_id o' = i then Some o' else None) | Some x \<Rightarrow> Some x)"
proof -
  have "List.find P (xs @ [o']) = (case List.find P xs of None \<Rightarrow> (if P o' then Some o' else None) | Some x \<Rightarrow> Some x)"
    for P xs by (induction xs) auto
  then show ?thesis by (simp add: order_of_def)
qed

lemma touched_parts [simp]:
  "bo_id new = bo_id old \<Longrightarrow> bo_id (touched now old new) = bo_id old"
  "bo_submitted (touched now old new) = bo_submitted new"
  by (simp_all add: touched_def)

lemma report_book:
  assumes "update_order_from_report now r md keep o' b = (o1, b1)"
  shows "b1 = put_order o1 b \<and> bo_id o1 = bo_id o' \<and> bo_submitted o1 \<noteq> None"
  using assms by (auto simp: update_order_from_report_def Let_def split: option.split)

lemma create_book:
  assumes "get_or_create_order now n b = (o1, b1)"
  obtains "b1 = b\<lparr>ob_orders := ob_orders b @ [o1]\<rparr>" | "b1 = put_order o1 b" "bo_submitted o1 \<noteq> None"
proof (cases "List.find (\<lambda>o'. bo_client_id o' = no_client_id n) (ob_orders b)")
  case None
  with assms show thesis by (intro that(1)) (auto simp: get_or_create_order_def)
next
  case (Some o')
  with assms show thesis
    by (intro that(2)) (auto simp: get_or_create_order_def Let_def split: option.split)
qed

lemma fill_orders: "ob_orders (snd (record_fill_if_needed o' st a r b)) = ob_orders b"
  by (simp add: record_fill_if_needed_def Let_def split: option.split)

lemma order_of_cong: "ob_orders b1 = ob_orders b \<Longrightarrow> order_of i b1 = order_of i b"
  by (simp add: order_of_def)

text \<open>An order stays spent when another row is written, or its own with a submission or a permit.\<close>

lemma spent_put:
  assumes "spent_id db i" "bo_id o1 = i \<longrightarrow> spent o1"
  shows "spent_id (db1\<lparr>cd_book := put_order o1 (cd_book db)\<rparr>) i"
  using assms by (auto simp: spent_id_def order_of_put)

lemma spent_step:
  assumes "control_step J db l db1" "spent_id db i"
  shows "spent_id db1 i"
  using assms(1)
proof (cases rule: control_step.cases)
  case (by_unsent oid sid ac y b)
  from unsent_Inr[OF by_unsent(2)] show ?thesis
  proof (elim disjE exE conjE)
    fix o' o1
    assume *: "order_of oid (cd_book db) = Some o'" "bo_id o1 = bo_id o'" "bo_broker_id o1 = bo_broker_id o'"
      "bo_submitted o1 = bo_submitted o'" "\<not> has_key ''bot_control_permit'' (bo_payload o')" "db1 = put_entry o1 db"
    then have "bo_id o1 = i \<longrightarrow> spent o1"
      using assms(2) order_of_id[OF *(1)] by (auto simp: spent_id_def spent_def)
    from spent_put[OF assms(2) this, of db] show ?thesis by (simp add: * put_entry_def)
  qed (use assms(2) in simp)
next
  case (by_entry clock oid sid g decided ac y p)
  from by_entry(2) show ?thesis
    by (rule authorize_Inr)
      (use assms(2) in \<open>auto simp: spent_id_def order_of_put spent_def has_key_def dict_simps\<close>)
next
  case (by_report oid o' now' rep md keep o1 b1)
  note b = report_book[OF by_report(4)]
  then have "spent o1" by (simp add: spent_def)
  with spent_put[OF assms(2), of o1 db] b by_report(2) show ?thesis by simp
next
  case (by_create n now' o1 b1)
  from by_create(4) show ?thesis
  proof (cases rule: create_book)
    case 1
    with by_create(2) assms(2) show ?thesis by (auto simp: spent_id_def order_of_append)
  next
    case 2
    then have "spent o1" by (simp add: spent_def)
    with spent_put[OF assms(2), of o1 db] 2 by_create(2) show ?thesis by simp
  qed
next
  case (by_prepare o')
  with assms(2) show ?thesis by (auto simp: spent_id_def order_of_append)
next
  case (by_fill o' st' ac rep f b1)
  then have "ob_orders b1 = ob_orders (cd_book db)" using fill_orders[of o' st' ac rep "cd_book db"] by simp
  from order_of_cong[OF this] by_fill(2) assms(2) show ?thesis by (simp add: spent_id_def)
next
  case (by_accounts acs)
  have "ob_orders ((cd_book db)\<lparr>ob_accounts := acs\<rparr>) = ob_orders (cd_book db)" by simp
  from order_of_cong[OF this] by_accounts(2) assms(2) show ?thesis by (simp add: spent_id_def)
next
  case (by_seed sid st)
  then have "cd_book db1 = cd_book db"
    by (auto simp: seed_def res_simps Let_def split: option.splits)
  with assms(2) show ?thesis by (simp add: spent_id_def)
next
  case (by_claim i' ex now L)
  from by_claim(2) have "cd_book db1 = cd_book db" by (rule claim_Inr) simp
  with assms(2) show ?thesis by (simp add: spent_id_def)
next
  case (by_renew L now)
  then have "cd_book db1 = cd_book db" by (auto simp: renew_stop_def res_simps)
  with assms(2) show ?thesis by (simp add: spent_id_def)
next
  case (by_phase L phase now)
  from by_phase(2) have "cd_book db1 = cd_book db" by (rule phase_Inr) simp
  with assms(2) show ?thesis by (simp add: spent_id_def)
next
  case (by_request clock r x)
  from by_request(2) have "cd_book db1 = cd_book db" by (cases rule: request_Inr) simp_all
  with assms(2) show ?thesis by (simp add: spent_id_def)
next
  case (by_replacement clock oid tid sid ac y old g decided' p)
  from by_replacement(2) have "cd_book db1 = cd_book db" by (rule replacement_Inr)
  with assms(2) show ?thesis by (simp add: spent_id_def)
next
  case (by_settle clock i' census lease st)
  from by_settle(2) have "cd_book db1 = cd_book db" by (rule settle_Inr)
  with assms(2) show ?thesis by (simp add: spent_id_def)
next
  case by_attempts
  with assms(2) show ?thesis by (simp add: spent_id_def)
qed

lemma permit_spends:
  assumes "control_step J db l db1" "permitted_order l = Some i"
  shows "\<not> spent_id db i \<and> spent_id db1 i"
  using assms(1)
proof (cases rule: control_step.cases)
  case (by_entry clock oid sid g decided ac y p)
  then have i: "i = oid" using assms(2) by (simp add: permitted_order_def)
  from by_entry(2) show ?thesis
    by (rule authorize_Inr)
      (auto simp: i spent_id_def order_of_put order_of_id spent_def has_key_def dict_simps)
qed (use assms(2) in \<open>simp_all add: permitted_order_def\<close>)

interpretation wire: one_shot_system "\<lambda>_. True" "control_step J" "\<lambda>_. True" permitted_order spent_id for J
  by unfold_locales (use spent_step permit_spends in auto)

text \<open>
  C11: In any run of the control store and the order tables around it, an entry order is granted at
  most one wire permit, although the report of the broker overwrites the payload that holds it.
\<close>
theorem one_wire_permit:
  assumes "run (control_step J) db ls db1"
  shows "length (filter (\<lambda>l. permitted_order l = Some i) ls) \<le> 1"
  by (rule wire.at_most_one_act[OF assms]) simp

section \<open>A lease taken over is fenced\<close>

lemma map_of_snoc_old: "map_of xs i = Some c \<Longrightarrow> map_of (xs @ [p]) i = Some c"
  by (cases p) (auto simp: map_of_append map_add_def split: option.splits if_splits)

text \<open>A command keeps its identity and terms, and its lease only grows.\<close>

lemma command_stays:
  assumes "control_step J db l db1" "map_of (cd_commands db) i = Some c"
  shows "\<exists>d. map_of (cd_commands db1) i = Some d \<and> kept c d \<and> lease_grows c d"
  using assms(1)
proof (cases rule: control_cases)
  case (asked clock r x)
  from asked(1) show ?thesis
    by (cases rule: request_Inr)
      (use assms(2) in \<open>auto intro!: exI[of _ c] map_of_snoc_old simp: kept_def lease_growsI\<close>)
next
  case (settled clock i' census lease st)
  from settled(1) show ?thesis
    by (rule settle_Inr) (use assms(2) in \<open>auto simp: kept_def lease_growsI dict_simps\<close>)
qed (use assms(2) in \<open>auto simp: kept_def lease_growsI dict_simps\<close>)

lemma kept_refl [simp]: "kept c c" by (simp add: kept_def)
lemma lease_grows_refl [simp]: "lease_grows c c" by (auto simp: lease_grows_def)
lemma kept_trans: "kept c d \<Longrightarrow> kept d e \<Longrightarrow> kept c e" by (simp add: kept_def)
lemma lease_grows_trans: "lease_grows c d \<Longrightarrow> lease_grows d e \<Longrightarrow> lease_grows c e"
  unfolding lease_grows_def by fastforce

lemma command_stays_run:
  "run (control_step J) db ls db1 \<Longrightarrow> map_of (cd_commands db) i = Some c \<Longrightarrow>
   \<exists>d. map_of (cd_commands db1) i = Some d \<and> kept c d \<and> lease_grows c d"
proof (induction rule: run.induct)
  case (run_snoc s ls t l u)
  then obtain d where "map_of (cd_commands t) i = Some d" "kept c d" "lease_grows c d" by blast
  with command_stays[OF run_snoc.hyps(2) this(1)] show ?case
    using kept_trans lease_grows_trans by blast
qed auto

text \<open>
  C13: Once another executor has taken over the lease of a STOP command, the old lease is fenced for
  good: in no later state can it be renewed, report a phase or settle the command, whatever the clock.
\<close>
theorem lease_fenced:
  assumes "control_step J db (Claimed L1) db1" "run (control_step J) db1 ls db2"
    and "control_step J db2 (Claimed L2) db3" "run (control_step J) db3 ls' db4"
    and "le_command L2 = le_command L1" "le_executor L2 \<noteq> le_executor L1"
  shows "renew_stop J L1 t db4 \<noteq> Inr d \<and> set_stop_phase J L1 phase t db4 \<noteq> Inr d
    \<and> settle_stop J clock i census (Some L1) db4 \<noteq> Inr y"
proof -
  let ?i = "le_command L1"
  from assms(1) obtain c1 where c1: "map_of (cd_commands db1) ?i = Some c1" "cc_fence c1 = Some (le_fence L1)"
      "cc_executor c1 = Some (le_executor L1)"
    by (cases rule: control_cases) (auto simp: dict_simps)
  from command_stays_run[OF assms(2) c1(1)] obtain c2 where
    c2: "map_of (cd_commands db2) ?i = Some c2" "lease_grows c1 c2" by blast
  from assms(3) obtain c3 where c3: "map_of (cd_commands db3) ?i = Some c3" "cc_fence c3 = Some (le_fence L2)"
      "\<forall>f. cc_fence c2 = Some f \<longrightarrow> f < le_fence L2 \<or> f = le_fence L2 \<and> cc_executor c2 = Some (le_executor L2)"
    by (cases rule: control_cases) (use assms(5) c2(1) in \<open>auto simp: dict_simps\<close>)
  have less: "le_fence L1 < le_fence L2"
    using c1 c2(2) c3(3) assms(6) by (fastforce simp: lease_grows_def)
  from command_stays_run[OF assms(4) c3(1)] obtain c4 where
    "map_of (cd_commands db4) ?i = Some c4" "lease_grows c3 c4" by blast
  with c3(2) less have no: "leased J L1 at' db4 \<noteq> Inr c" for at' c
    by (auto simp: leased_Inr lease_grows_def)
  then show ?thesis
    by (auto simp: renew_stop_def set_stop_phase_def settle_stop_def check_settler_def res_simps)
qed

section \<open>The command history stays consistent\<close>

lemma find_unique:
  "(\<And>x y. x \<in> set xs \<Longrightarrow> y \<in> set xs \<Longrightarrow> P x \<Longrightarrow> P y \<Longrightarrow> x = y) \<Longrightarrow>
   List.find P xs = Some x \<longleftrightarrow> x \<in> set xs \<and> P x"
proof (induction xs)
  case (Cons a xs)
  then have "List.find P xs = Some x \<longleftrightarrow> x \<in> set xs \<and> P x" by (meson list.set_intros(2))
  with Cons.prems[of a x] show ?case by auto
qed simp

text \<open>
  The tables as the foreign keys and unique constraints of the schema describe them: no two commands
  share a request, or a strategy and generation; the state row of a strategy names its latest command.
\<close>

definition unique_commands :: "control_db \<Rightarrow> bool" where
  "unique_commands db \<longleftrightarrow> distinct (map fst (cd_commands db))
     \<and> (\<forall>i j c d. map_of (cd_commands db) i = Some c \<longrightarrow> map_of (cd_commands db) j = Some d \<longrightarrow>
          cc_request c = cc_request d \<or> cc_strategy c = cc_strategy d \<and> cc_generation c = cc_generation d
          \<longrightarrow> i = j)"

definition proven :: "control_command \<Rightarrow> bool" where
  "proven c \<longleftrightarrow> (\<exists>t. cc_completed c = Some t \<and> set (map fst (cc_census c)) = set (sc_accounts (cc_scope c))
     \<and> (\<forall>x \<in> set (map snd (cc_census c)). check_evidence (cc_accepted c) t x = Inr ()))"

definition command_ok :: "json_port \<Rightarrow> string \<Rightarrow> control_command \<Rightarrow> control_db \<Rightarrow> bool" where
  "command_ok J i c db \<longleftrightarrow> cc_scope_hash c = js_scope J (cc_scope c) \<and> 0 < cc_generation c
     \<and> (cc_action c = ''STOP'' \<longrightarrow> \<not> cc_active c \<longrightarrow> proven c)
     \<and> (\<exists>st. map_of (cd_states db) (cc_strategy c) = Some st \<and> cc_generation c \<le> cs_generation st
          \<and> (cc_active c \<longrightarrow> cs_active st = Some i))"

definition state_ok :: "string \<Rightarrow> control_state \<Rightarrow> control_db \<Rightarrow> bool" where
  "state_ok sid st db \<longleftrightarrow>
     (if cs_generation st = 0 then cs_desired st = ''RUN'' \<and> cs_active st = None
      else \<exists>i c. map_of (cd_commands db) i = Some c \<and> cc_strategy c = sid \<and> cc_generation c = cs_generation st
        \<and> cs_desired st = (if cc_action c = ''STOP'' then ''STOP'' else ''RUN'')
        \<and> (case cs_active st of
             Some a \<Rightarrow> a = i \<and> cc_active c \<and> cc_action c = ''STOP''
           | None \<Rightarrow> \<not> cc_active c \<and> cc_phase c = ''SETTLED''))"

definition history_ok :: "json_port \<Rightarrow> control_db \<Rightarrow> bool" where
  "history_ok J db \<longleftrightarrow> unique_commands db
     \<and> (\<forall>i c. map_of (cd_commands db) i = Some c \<longrightarrow> command_ok J i c db)
     \<and> (\<forall>sid st. map_of (cd_states db) sid = Some st \<longrightarrow> 0 \<le> cs_generation st \<and> state_ok sid st db)"

lemma find_command:
  assumes "unique_commands db"
    and "\<And>c d. P c \<Longrightarrow> P d \<Longrightarrow>
      cc_request c = cc_request d \<or> cc_strategy c = cc_strategy d \<and> cc_generation c = cc_generation d"
  shows "List.find (\<lambda>(i, c). P c) (cd_commands db) = Some (i, c) \<longleftrightarrow> map_of (cd_commands db) i = Some c \<and> P c"
proof -
  have in_set: "(j, d) \<in> set (cd_commands db) \<longleftrightarrow> map_of (cd_commands db) j = Some d" for j d
    using assms(1) by (simp add: unique_commands_def map_of_eq_Some_iff)
  have "x = y" if "x \<in> set (cd_commands db)" "y \<in> set (cd_commands db)" "P (snd x)" "P (snd y)" for x y
  proof -
    obtain j d k e where xy: "x = (j, d)" "y = (k, e)" by (cases x, cases y)
    with that have m: "map_of (cd_commands db) j = Some d" "map_of (cd_commands db) k = Some e" "P d" "P e"
      by (simp_all flip: in_set)
    have "j = k" using assms(1) m(1,2) assms(2)[OF m(3,4)] unfolding unique_commands_def by blast
    with m(1,2) xy show ?thesis by simp
  qed
  then show ?thesis by (subst find_unique) (auto simp: in_set)
qed

lemma request_replay_iff:
  "unique_commands db \<Longrightarrow>
   request_replay rid db = Some (i, c) \<longleftrightarrow> map_of (cd_commands db) i = Some c \<and> cc_request c = rid"
  unfolding request_replay_def by (rule find_command) auto

lemma command_in_iff:
  "unique_commands db \<Longrightarrow> command_in sid g db = Some (i, c) \<longleftrightarrow>
    map_of (cd_commands db) i = Some c \<and> cc_strategy c = sid \<and> cc_generation c = g"
  unfolding command_in_def by (rule find_command) auto

lemma state_ok_validates:
  assumes "history_ok J db" "map_of (cd_states db) sid = Some st"
  shows "validate_state J sid st db = Inr ()"
proof (cases "cs_generation st = 0")
  case True
  with assms show ?thesis by (auto simp: history_ok_def state_ok_def validate_state_def refuse_if_Inr)
next
  case False
  have u: "unique_commands db" using assms(1) by (simp add: history_ok_def)
  have "state_ok sid st db" using assms by (simp add: history_ok_def)
  with False obtain i and c :: control_command where c: "map_of (cd_commands db) i = Some c" "cc_strategy c = sid"
      "cc_generation c = cs_generation st" "cs_desired st = (if cc_action c = ''STOP'' then ''STOP'' else ''RUN'')"
      "case cs_active st of Some a \<Rightarrow> a = i \<and> cc_active c \<and> cc_action c = ''STOP''
           | None \<Rightarrow> \<not> cc_active c \<and> cc_phase c = ''SETTLED''"
    unfolding state_ok_def by (simp only: if_False) blast
  from c have "command_in sid (cs_generation st) db = Some (i, c)" by (simp add: command_in_iff[OF u])
  moreover have "cc_scope_hash c = js_scope J (cc_scope c)"
    using assms(1) c(1) by (auto simp: history_ok_def command_ok_def)
  ultimately show ?thesis
    using False c(4,5) by (auto simp: validate_state_def res_simps split: option.splits)
qed

text \<open>Rewriting one command that keeps its identity.\<close>

lemma unique_update:
  assumes "unique_commands db" "map_of (cd_commands db) i = Some c" "kept c d"
    "cd_commands db1 = AList.update i d (cd_commands db)"
  shows "unique_commands db1"
  using assms by (auto simp: unique_commands_def kept_def dict_simps distinct_update split: if_splits)

lemma unique_snoc:
  assumes "unique_commands db" "insert_command i c db = Inr db1"
  shows "unique_commands db1"
proof -
  have n: "j \<noteq> i \<and> cc_request d \<noteq> cc_request c
      \<and> \<not> (cc_strategy d = cc_strategy c \<and> cc_generation d = cc_generation c)"
    if "map_of (cd_commands db) j = Some d" for j d
    using assms(2) map_of_SomeD[OF that] by (auto simp: insert_command_Inr list_ex_iff)
  then have "map_of (cd_commands db) i = None" by (cases "map_of (cd_commands db) i") auto
  moreover have "cd_commands db1 = cd_commands db @ [(i, c)]" using assms(2) by (simp add: insert_command_Inr)
  moreover from calculation(1) have "i \<notin> fst ` set (cd_commands db)" by (simp add: map_of_eq_None_iff)
  ultimately show ?thesis
    using assms(1) n by (fastforce simp: unique_commands_def map_of_append map_add_def split: option.splits if_splits)
qed

lemma history_snoc_lookup:
  "insert_command i c db = Inr db1 \<Longrightarrow>
   map_of (cd_commands db1) j = (if j = i then Some c else map_of (cd_commands db) j)"
  by (auto simp: insert_command_Inr map_of_append map_add_def list_ex_iff split: option.splits dest!: map_of_SomeD)

text \<open>The invariant after a transaction, by the six moves.\<close>

lemma history_okI:
  assumes "unique_commands db" "\<And>i c. map_of (cd_commands db) i = Some c \<Longrightarrow> command_ok J i c db"
    and "\<And>sid st. map_of (cd_states db) sid = Some st \<Longrightarrow> 0 \<le> cs_generation st \<and> state_ok sid st db"
  shows "history_ok J db"
  using assms unfolding history_ok_def by blast

lemma history_okD:
  assumes "history_ok J db"
  shows "unique_commands db" "map_of (cd_commands db) i = Some c \<Longrightarrow> command_ok J i c db"
    "map_of (cd_states db) sid = Some st \<Longrightarrow> 0 \<le> cs_generation st"
    "map_of (cd_states db) sid = Some st \<Longrightarrow> state_ok sid st db"
  using assms unfolding history_ok_def by blast+

lemma state_ok_cong:
  "cs_generation st = cs_generation st1 \<Longrightarrow> cs_desired st = cs_desired st1 \<Longrightarrow> cs_active st = cs_active st1 \<Longrightarrow>
   cd_commands db = cd_commands db1 \<Longrightarrow> state_ok sid st db = state_ok sid st1 db1"
  by (simp add: state_ok_def)

lemma state_ok_mono:
  assumes "state_ok sid st db"
    and moved: "\<And>i c. map_of (cd_commands db) i = Some c \<Longrightarrow> cc_strategy c = sid \<Longrightarrow>
      \<exists>d. map_of (cd_commands db1) i = Some d \<and> kept c d \<and> cc_active d = cc_active c \<and> (\<not> cc_active c \<longrightarrow> d = c)"
  shows "state_ok sid st db1"
proof (cases "cs_generation st = 0")
  case False
  with assms(1) obtain i and c :: control_command where c: "map_of (cd_commands db) i = Some c" "cc_strategy c = sid"
      "cc_generation c = cs_generation st" "cs_desired st = (if cc_action c = ''STOP'' then ''STOP'' else ''RUN'')"
      "case cs_active st of Some a \<Rightarrow> a = i \<and> cc_active c \<and> cc_action c = ''STOP''
         | None \<Rightarrow> \<not> cc_active c \<and> cc_phase c = ''SETTLED''"
    unfolding state_ok_def by (simp only: if_False) blast
  from moved[OF c(1,2)] obtain d where d: "map_of (cd_commands db1) i = Some d" "kept c d"
      "cc_active d = cc_active c" "\<not> cc_active c \<longrightarrow> d = c" by blast
  with c False show ?thesis
    by (auto simp: state_ok_def kept_def intro!: exI[of _ i] exI[of _ d] split: option.splits)
qed (use assms(1) in \<open>simp add: state_ok_def\<close>)

lemma history_same:
  assumes "history_ok J db" "cd_commands db1 = cd_commands db" "cd_states db1 = cd_states db"
  shows "history_ok J db1"
  using assms(1) unfolding history_ok_def unique_commands_def command_ok_def state_ok_def assms(2,3) .

lemma history_bump:
  assumes h: "history_ok J db" "map_of (cd_states db) sid = Some st"
    and "cd_states db1 = AList.update sid (st\<lparr>cs_revision := n\<rparr>) (cd_states db)" "cd_commands db1 = cd_commands db"
  shows "history_ok J db1"
proof (rule history_okI)
  show "unique_commands db1" using history_okD(1)[OF h(1)] assms(4) by (simp add: unique_commands_def)
next
  fix i c assume "map_of (cd_commands db1) i = Some c"
  then have "command_ok J i c db" using history_okD(2)[OF h(1)] assms(4) by simp
  with h(2) assms(3) show "command_ok J i c db1" by (auto simp: command_ok_def dict_simps)
next
  fix s x assume x: "map_of (cd_states db1) s = Some x"
  show "0 \<le> cs_generation x \<and> state_ok s x db1"
  proof (cases "s = sid")
    case True
    with x assms(3) have "x = st\<lparr>cs_revision := n\<rparr>" by (simp add: dict_simps)
    with True show ?thesis
      using history_okD(3,4)[OF h] state_ok_cong[of x st db1 db sid] assms(4) by simp
  next
    case False
    with x assms(3) have "map_of (cd_states db) s = Some x" by (simp add: dict_simps)
    then show ?thesis
      using history_okD(3,4)[OF h(1), of s x] state_ok_cong[of x x db1 db s] assms(4) by simp
  qed
qed

lemma history_seeded:
  assumes h: "history_ok J db" "map_of (cd_states db) sid = None" "cd_commands db1 = cd_commands db"
    and "cd_states db1 = AList.update sid \<lparr>cs_generation = 0, cs_revision = 0, cs_desired = ''RUN'', cs_active = None\<rparr>
      (cd_states db)"
  shows "history_ok J db1"
proof (rule history_okI)
  show "unique_commands db1" using history_okD(1)[OF h(1)] assms(3) by (simp add: unique_commands_def)
next
  fix i c assume "map_of (cd_commands db1) i = Some c"
  then have "command_ok J i c db" using history_okD(2)[OF h(1)] assms(3) by simp
  with h(2) assms(4) show "command_ok J i c db1" by (auto simp: command_ok_def dict_simps)
next
  fix s x assume x: "map_of (cd_states db1) s = Some x"
  show "0 \<le> cs_generation x \<and> state_ok s x db1"
  proof (cases "s = sid")
    case True
    with x assms(4) show ?thesis by (auto simp: dict_simps state_ok_def)
  next
    case False
    with x assms(4) have "map_of (cd_states db) s = Some x" by (simp add: dict_simps)
    then show ?thesis
      using history_okD(3,4)[OF h(1), of s x] state_ok_cong[of x x db1 db s] assms(3) by simp
  qed
qed

lemma history_touch:
  assumes h: "history_ok J db" "map_of (cd_commands db) i = Some c" "cc_active c"
    and d: "kept c d" "cc_active d" "cd_states db1 = cd_states db" "cd_commands db1 = AList.update i d (cd_commands db)"
  shows "history_ok J db1"
proof (rule history_okI)
  show "unique_commands db1" by (rule unique_update[OF history_okD(1)[OF h(1)] h(2) d(1,4)])
next
  fix j e assume e: "map_of (cd_commands db1) j = Some e"
  have c: "command_ok J i c db" using h by (blast intro: history_okD)
  show "command_ok J j e db1"
  proof (cases "j = i")
    case True
    with e d(4) have "e = d" by (simp add: dict_simps)
    with c True h(3) d show ?thesis by (auto simp: command_ok_def kept_def)
  next
    case False
    with e d(4) have "command_ok J j e db" using history_okD(2)[OF h(1)] by (simp add: dict_simps)
    with d(3) show ?thesis by (simp add: command_ok_def)
  qed
next
  fix s x assume "map_of (cd_states db1) s = Some x"
  then have x: "0 \<le> cs_generation x" "state_ok s x db" using history_okD(3,4)[OF h(1)] d(3) by simp_all
  have "state_ok s x db1"
    by (rule state_ok_mono[OF x(2)]) (use h(2,3) d in \<open>auto simp: dict_simps\<close>)
  with x(1) show "0 \<le> cs_generation x \<and> state_ok s x db1" by simp
qed

lemma history_asked:
  assumes h: "history_ok J db" "map_of (cd_states db) sid = Some st" "cs_active st = None"
    and c: "insert_command i c db = Inr db2" "cc_strategy c = sid" "cc_generation c = cs_generation st + 1"
      "cc_scope_hash c = js_scope J (cc_scope c)" "cc_action c = (if stop then ''STOP'' else ''ON'')"
      "cc_active c = stop" "\<not> stop \<Longrightarrow> cc_phase c = ''SETTLED''"
    and s: "cd_commands db1 = cd_commands db2" "cd_states db1 = AList.update sid \<lparr>cs_generation = cs_generation st + 1,
         cs_revision = n, cs_desired = (if stop then ''STOP'' else ''RUN''),
         cs_active = (if stop then Some i else None)\<rparr> (cd_states db)"
  shows "history_ok J db1"
proof (rule history_okI)
  note look = history_snoc_lookup[OF c(1)]
  show "unique_commands db1" using unique_snoc[OF history_okD(1)[OF h(1)] c(1)] s(1) by (simp add: unique_commands_def)
  fix j e assume e: "map_of (cd_commands db1) j = Some e"
  show "command_ok J j e db1"
  proof (cases "j = i")
    case True
    with e look s(1) have "e = c" by simp
    with True c s(2) history_okD(3)[OF h(1,2)] show ?thesis by (auto simp: command_ok_def dict_simps)
  next
    case False
    with e look s(1) have "command_ok J j e db" using history_okD(2)[OF h(1)] by simp
    with h(2,3) s(2) show ?thesis by (auto simp: command_ok_def dict_simps)
  qed
next
  note look = history_snoc_lookup[OF c(1)]
  fix s x assume x: "map_of (cd_states db1) s = Some x"
  have new: "map_of (cd_commands db) i = None"
    using c(1) by (auto simp: insert_command_Inr list_ex_iff map_of_eq_None_iff)
  have old: "map_of (cd_commands db1) j = Some e" if "map_of (cd_commands db) j = Some e" for j e
    using that new look s(1) by auto
  show "0 \<le> cs_generation x \<and> state_ok s x db1"
  proof (cases "s = sid")
    case True
    have x: "x = \<lparr>cs_generation = cs_generation st + 1, cs_revision = n, cs_desired = (if stop then ''STOP'' else ''RUN''),
         cs_active = (if stop then Some i else None)\<rparr>" using x True s(2) by (simp add: dict_simps)
    have "map_of (cd_commands db1) i = Some c" using look s(1) by simp
    with x True c history_okD(3)[OF h(1,2)] show ?thesis
      by (auto simp: state_ok_def intro!: exI[of _ i] exI[of _ c])
  next
    case False
    with x s(2) have m: "map_of (cd_states db) s = Some x" by (simp add: dict_simps)
    have "state_ok s x db1"
      by (rule state_ok_mono[OF history_okD(4)[OF h(1) m]]) (auto dest: old)
    with history_okD(3)[OF h(1) m] show ?thesis by simp
  qed
qed

lemma history_settled:
  assumes h: "history_ok J db" "map_of (cd_commands db) i = Some c" "map_of (cd_states db) (cc_strategy c) = Some st"
      "cs_generation st = cc_generation c" "cs_active st = Some i" "cc_action c = ''STOP''"
    and d: "kept c d" "\<not> cc_active d" "cc_phase d = ''SETTLED''" "proven d"
    and s: "cd_commands db1 = AList.update i d (cd_commands db)"
      "cd_states db1 = AList.update (cc_strategy c) (st\<lparr>cs_active := None, cs_revision := n\<rparr>) (cd_states db)"
  shows "history_ok J db1"
proof (rule history_okI)
  show "unique_commands db1" by (rule unique_update[OF history_okD(1)[OF h(1)] h(2) d(1) s(1)])
next
  fix j e assume e: "map_of (cd_commands db1) j = Some e"
  show "command_ok J j e db1"
  proof (cases "j = i")
    case True
    with e s(1) have "e = d" by (simp add: dict_simps)
    with True history_okD(2)[OF h(1,2)] h d s(2) show ?thesis
      by (auto simp: command_ok_def kept_def dict_simps)
  next
    case False
    with e s(1) have "command_ok J j e db" using history_okD(2)[OF h(1)] by (simp add: dict_simps)
    with False h(3,5) s(2) show ?thesis by (auto simp: command_ok_def dict_simps)
  qed
next
  fix s' x assume x: "map_of (cd_states db1) s' = Some x"
  show "0 \<le> cs_generation x \<and> state_ok s' x db1"
  proof (cases "s' = cc_strategy c")
    case True
    have x: "x = st\<lparr>cs_active := None, cs_revision := n\<rparr>" using x True s(2) by (simp add: dict_simps)
    have "cs_desired st = ''STOP''"
      using history_okD(4)[OF h(1,3)] h(5,6) by (auto simp: state_ok_def h split: if_splits)
    moreover have "map_of (cd_commands db1) i = Some d" using s(1) by (simp add: dict_simps)
    moreover have "0 < cc_generation c" using history_okD(2)[OF h(1,2)] by (simp add: command_ok_def)
    ultimately show ?thesis
      using x True d h by (auto simp: state_ok_def kept_def intro!: exI[of _ i] exI[of _ d])
  next
    case False
    with x s(2) have m: "map_of (cd_states db) s' = Some x" by (simp add: dict_simps)
    have old: "map_of (cd_commands db1) j = Some e" if "map_of (cd_commands db) j = Some e" "cc_strategy e = s'" for j e
      using that False h(2) s(1) by (auto simp: dict_simps)
    have "state_ok s' x db1"
      by (rule state_ok_mono[OF history_okD(4)[OF h(1) m]]) (auto dest: old)
    with history_okD(3)[OF h(1) m] show ?thesis by simp
  qed
qed

lemma history_step:
  assumes "history_ok J db" "control_step J db l db1"
  shows "history_ok J db1"
  using assms(2)
proof (cases rule: control_cases)
  case quiet
  then show ?thesis by (intro history_same[OF assms(1)])
next
  case (bump sid st)
  then show ?thesis by (intro history_bump[OF assms(1), of sid st]) (simp_all add: hydrate_Inr)
next
  case (touch i c d)
  then show ?thesis by (intro history_touch[OF assms(1), of i c d])
next
  case (seeded sid)
  then show ?thesis by (intro history_seeded[OF assms(1), of sid])
next
  case (asked clock r x)
  from asked(1) show ?thesis
  proof (cases rule: request_Inr)
    case replayed
    with asked(2) show ?thesis by simp
  next
    case (asked st c)
    show ?thesis
      by (rule history_asked[OF assms(1), of "rq_strategy r" st "rq_command r" c _ "rq_action r = ''STOP''"])
        (use asked in \<open>auto simp: hydrate_Inr new_command_def Let_def\<close>)
  qed
next
  case (settled clock i census lease st1)
  from settled(1) show ?thesis
  proof (rule settle_Inr)
    fix c st
    assume *: "map_of (cd_commands db) i = Some c" "hydrate_state J (cc_strategy c) db = Inr st"
      "cc_action c = ''STOP''" "cs_active st = Some i" "cs_generation st = cc_generation c"
      "set (map fst census) = set (sc_accounts (cc_scope c))"
      "\<forall>x \<in> set (map snd census). check_evidence (cc_accepted c) clock x = Inr ()"
      "cd_states db1 = AList.update (cc_strategy c) (st\<lparr>cs_active := None, cs_revision := cs_revision st + 1\<rparr>) (cd_states db)"
      "cd_commands db1 = AList.update i (c\<lparr>cc_census := census, cc_phase := ''SETTLED'', cc_active := False,
         cc_revision := cc_revision c + 1, cc_completed := Some clock\<rparr>) (cd_commands db)"
    show ?thesis
      by (rule history_settled[OF assms(1) *(1) _ *(5,4,3) _ _ _ _ *(9,8)])
        (use * in \<open>simp_all add: hydrate_Inr kept_def proven_def\<close>)
  qed
qed

lemma history_empty: "cd_states db = [] \<Longrightarrow> cd_commands db = [] \<Longrightarrow> history_ok J db"
  by (rule history_okI) (auto simp: unique_commands_def)

interpretation history: invariant_system
  "\<lambda>db. cd_states db = [] \<and> cd_commands db = []" "control_step J" "history_ok J" for J
  by unfold_locales (auto intro: history_empty history_step)

lemma hydrate_error:
  assumes "history_ok J db" "hydrate_state J sid db = Inl e"
  shows "e \<in> {ValueError ''not_a_live_strategy'', ValueError ''not_a_controlled_live_strategy'',
    ValueError ''scope_not_seeded''}"
  using assms(2) state_ok_validates[OF assms(1)]
  by (auto simp: hydrate_state_def strategy_row_def res_simps split: option.splits)

lemma insert_command_fresh:
  assumes h: "history_ok J db" "map_of (cd_states db) (rq_strategy r) = Some st" "cs_active st = None"
    and "request_replay (rq_request r) db = None" "map_of (cd_commands db) (rq_command r) = None"
  shows "insert_command (rq_command r) (new_command J clock r (cs_generation st + 1)) db
    = Inr (db\<lparr>cd_commands := cd_commands db @ [(rq_command r, new_command J clock r (cs_generation st + 1))]\<rparr>)"
proof -
  have u: "unique_commands db" by (rule history_okD[OF h(1)])
  let ?c = "new_command J clock r (cs_generation st + 1)"
  have "\<not> (j = rq_command r \<or> cc_request d = cc_request ?c
       \<or> cc_strategy d = cc_strategy ?c \<and> (cc_generation d = cc_generation ?c \<or> cc_active d \<and> cc_active ?c))"
    if "(j, d) \<in> set (cd_commands db)" for j d
  proof -
    have d: "map_of (cd_commands db) j = Some d" using u that by (simp add: unique_commands_def map_of_eq_Some_iff)
    have "cc_request d \<noteq> rq_request r"
      using assms(4) d request_replay_iff[OF u, of "rq_request r" j d] by auto
    moreover have "command_ok J j d db" using history_okD(2)[OF h(1) d] .
    ultimately show ?thesis
      using d assms(5) h(2,3) by (auto simp: command_ok_def new_command_def Let_def)
  qed
  then show ?thesis by (auto simp: insert_command_def list_ex_iff)
qed


lemma state_stays:
  assumes "control_step J db l db1" "map_of (cd_states db) sid \<noteq> None"
  shows "map_of (cd_states db1) sid \<noteq> None"
  using assms(1)
proof (cases rule: control_cases)
  case (asked clock r x)
  from asked(1) show ?thesis by (cases rule: request_Inr) (use assms(2) in \<open>simp_all add: dict_simps\<close>)
next
  case (settled clock i census lease st)
  from settled(1) show ?thesis by (rule settle_Inr) (use assms(2) in \<open>simp add: dict_simps\<close>)
qed (use assms(2) in \<open>simp_all add: dict_simps\<close>)

lemma state_stays_run:
  "run (control_step J) db ls db1 \<Longrightarrow> map_of (cd_states db) sid \<noteq> None \<Longrightarrow> map_of (cd_states db1) sid \<noteq> None"
  by (induction rule: run.induct) (auto dest: state_stays)

text \<open>A receipt names a command that holds the request's identity and digest.\<close>

lemma request_receipt:
  assumes "history_ok J db" "request J clock r db = Inr (x, db1)"
  shows "\<exists>c. map_of (cd_commands db1) (cr_command x) = Some c \<and> cc_request c = rq_request r
    \<and> cc_request_hash c = request_hash J r \<and> cr_generation x = cc_generation c \<and> cr_action x = cc_action c"
  using assms(2)
proof (cases rule: request_Inr)
  case replayed
  then show ?thesis using request_replay_iff[OF history_okD(1)[OF assms(1)]] by auto
next
  case (asked st c)
  from history_snoc_lookup[OF asked(7)] asked(9) show ?thesis
    by (auto simp: asked(6,8) new_command_def Let_def)
qed

text \<open>
  A request is idempotent for ever: after it was accepted once, whatever happens later, repeating
  it returns the receipt of the same command with its generation and action, marked as a replay, and
  changes nothing, as long as the strategy is still a controlled live one.
\<close>
theorem request_idempotent:
  assumes "run (control_step J) db0 ls db" "cd_states db0 = []" "cd_commands db0 = []"
    and "request J clock r db = Inr (x, db1)" "run (control_step J) db1 ls' db2"
    and "strategy_row (rq_strategy r) db2 = Inr code"
  shows "\<exists>phase. request J clock' r db2 = Inr (\<lparr>cr_command = cr_command x, cr_generation = cr_generation x,
    cr_action = cr_action x, cr_phase = phase, cr_replayed = True\<rparr>, db2)"
proof -
  have h: "history_ok J db" using history.run_from_init[OF assms(1)] assms(2,3) by simp
  have h1: "history_ok J db1" by (rule history_step[OF h by_request[OF assms(4)]])
  have h2: "history_ok J db2" by (rule history.run_preserves[OF assms(5) h1])
  from request_receipt[OF h assms(4)] obtain c where
    c: "map_of (cd_commands db1) (cr_command x) = Some c" "cc_request c = rq_request r"
      "cc_request_hash c = request_hash J r" "cr_generation x = cc_generation c" "cr_action x = cc_action c" by blast
  from command_stays_run[OF assms(5) c(1)] obtain d where
    d: "map_of (cd_commands db2) (cr_command x) = Some d" "kept c d" by blast
  then have "request_replay (rq_request r) db2 = Some (cr_command x, d)"
    using request_replay_iff[OF history_okD(1)[OF h2]] c(2) by (simp add: kept_def)
  moreover obtain st0 where "check_request r = Inr ()" "hydrate_state J (rq_strategy r) db = Inr st0"
    using assms(4) by (auto simp: request_def res_simps)
  moreover obtain st where "hydrate_state J (rq_strategy r) db2 = Inr st"
  proof -
    have "map_of (cd_states db) (rq_strategy r) \<noteq> None" using calculation(3) by (simp add: hydrate_Inr)
    from state_stays_run[OF assms(5) state_stays[OF by_request[OF assms(4)] this]]
    obtain st where "map_of (cd_states db2) (rq_strategy r) = Some st" by blast
    with state_ok_validates[OF h2 this] assms(6) show thesis by (intro that[of st]) (simp add: hydrate_Inr)
  qed
  ultimately show ?thesis
    using c(3-5) d(2) by (simp add: request_def kept_def refuse_if_def)
qed


section \<open>A concrete control history\<close>

text \<open>
  One live strategy with one account and one pending entry order: seeded, permitted its order, stopped
  by the operator, its STOP claimed by one executor and, after the lease ran out, by another, settled
  with a flat census, and switched on again.
\<close>

definition ctl_json :: json_port where
  "ctl_json = \<lparr>js_scope = (\<lambda>s. concat (sc_accounts s)), js_request = (\<lambda>r s. rq_strategy r @ rq_action r),
     js_permit = (\<lambda>p c. ''p'' @ c), js_unsent = (\<lambda>g a. ''u'')\<rparr>"

definition ctl_entry_order :: broker_order where
  "ctl_entry_order = \<lparr>bo_id = ''o'', bo_intent = ''i'', bo_strategy = ''S'', bo_account = ''A'', bo_client_id = ''c'',
     bo_broker_id = None, bo_symbol = ''AB'', bo_side = ''buy'', bo_type = ''limit'', bo_tif = ''day'', bo_quantity = 1,
     bo_status = ''pending'', bo_payload = [], bo_submitted = None, bo_updated = 0\<rparr>"

definition ctl_control :: control_db where
  "ctl_control = \<lparr>cd_book = \<lparr>ob_accounts = [\<lparr>ba_id = ''A'', ba_name = ''live:a'', ba_provider = ''webull'', ba_active = True\<rparr>],
       ob_strategies = [(''S'', ''schwab_1m_v2'')], ob_orders = [ctl_entry_order], ob_fills = [], ob_events = [],
       ob_virtual = [], ob_positions = [], ob_managed = [], ob_ineligible = [], ob_rotation = 0\<rparr>,
     cd_live = [''S''], cd_states = [], cd_commands = [], cd_intents = [], cd_attempts = [], cd_refused = []\<rparr>"

definition ctl_terms :: "string \<Rightarrow> int \<Rightarrow> string \<Rightarrow> request_terms" where
  "ctl_terms i g action = \<lparr>rq_command = i, rq_strategy = ''S'', rq_request = ''r'' @ i, rq_expected = g, rq_action = action,
     rq_accounts = [''A''], rq_actor = ''op'', rq_reason = ''x'', rq_complete = True\<rparr>"

definition ctl_census :: "int \<Rightarrow> census" where
  "ctl_census t = [(''A'', Some \<lparr>ev_complete = True, ev_owned = Some 0, ev_working = Some 0, ev_in_flight = Some 0,
     ev_hash = Some (replicate 64 CHR ''f''), ev_observed = Some (Aware t)\<rparr>)]"

definition "ctl_seeding = seed ctl_json ''S'' ctl_control"
definition "ctl_seeded = snd (projr ctl_seeding)"
definition "ctl_permitting = authorize_entry ctl_json 5 ''o'' ''S'' 0 None None None ctl_seeded"
definition "ctl_permitted = snd (projr ctl_permitting)"
definition "ctl_stopping = request ctl_json 10 (ctl_terms ''c1'' 0 ''STOP'') ctl_permitted"
definition "ctl_stopped = snd (projr ctl_stopping)"
definition "ctl_claiming = claim_stop ctl_json ''c1'' ''e1'' (Aware 20) ctl_stopped"
definition "ctl_claimed = snd (projr ctl_claiming)"
definition "ctl_retaking = claim_stop ctl_json ''c1'' ''e2'' (Aware 30000020) ctl_claimed"
definition "ctl_retaken = snd (projr ctl_retaking)"
definition "ctl_report_of = \<lparr>er_event = ''filled'', er_origin = ''broker'', br_broker_id = Some ''b'', br_fill_id = None,
   br_filled = 1, br_price = Some 2, br_reason = '''', br_metadata = [], br_at = 7\<rparr>"
definition "ctl_reporting = update_order_from_report 7 ctl_report_of [] False
   (the (order_of ''o'' (cd_book ctl_retaken))) (cd_book ctl_retaken)"
definition "ctl_reported = ctl_retaken\<lparr>cd_book := snd ctl_reporting\<rparr>"
definition "ctl_settling = settle_stop ctl_json 40000000 ''c1'' (ctl_census 39000000) (fst (projr ctl_retaking)) ctl_reported"
definition "ctl_settled = snd (projr ctl_settling)"
definition "ctl_reopening = request ctl_json 41000000 (ctl_terms ''c2'' 1 ''ON'') ctl_settled"
definition "ctl_reopened = snd (projr ctl_reopening)"

lemma projr_pair: "\<not> isl r \<Longrightarrow> r = Inr (fst (projr r), snd (projr r))"
  by (cases r) simp_all

lemma projr_some: "\<not> isl r \<and> fst (projr r) \<noteq> None \<Longrightarrow> r = Inr (Some (the (fst (projr r))), snd (projr r))"
  by (cases r) auto

lemma ctl_permit: "ctl_permitting = Inr (fst (projr ctl_permitting), ctl_permitted)"
  unfolding ctl_permitted_def by (rule projr_pair) code_simp

lemma ctl_stop: "ctl_stopping = Inr (fst (projr ctl_stopping), ctl_stopped)"
  unfolding ctl_stopped_def by (rule projr_pair) code_simp

lemma ctl_reopen: "ctl_reopening = Inr (fst (projr ctl_reopening), ctl_reopened)"
  unfolding ctl_reopened_def by (rule projr_pair) code_simp

abbreviation "ctl_step \<equiv> control_step ctl_json"
abbreviation "ctl_lease1 \<equiv> the (fst (projr ctl_claiming))"
abbreviation "ctl_lease2 \<equiv> the (fst (projr ctl_retaking))"

lemma step_seed: "ctl_step ctl_control Internal ctl_seeded"
proof (rule by_seed)
  have "ctl_seeding = Inr (fst (projr ctl_seeding), ctl_seeded)"
    unfolding ctl_seeded_def by (rule projr_pair) code_simp
  then show "seed ctl_json ''S'' ctl_control = Inr (fst (projr ctl_seeding), ctl_seeded)"
    by (simp only: ctl_seeding_def)
qed

lemma step_permit: "ctl_step ctl_seeded (Permitted ''S'' ''o'' 0) ctl_permitted"
proof -
  have "pm_generation (fst (projr ctl_permitting)) = 0" by code_simp
  with by_entry[OF ctl_permit[unfolded ctl_permitting_def]] show ?thesis
    by (simp only: ctl_permitting_def[symmetric])
qed

lemma step_stop: "ctl_step ctl_permitted (Requested (fst (projr ctl_stopping)) ''S'') ctl_stopped"
proof -
  have "rq_strategy (ctl_terms ''c1'' 0 ''STOP'') = ''S''" by (simp add: ctl_terms_def)
  with by_request[OF ctl_stop[unfolded ctl_stopping_def]] show ?thesis
    by (simp only: ctl_stopping_def[symmetric])
qed

lemma step_claim: "ctl_step ctl_stopped (Claimed ctl_lease1) ctl_claimed"
proof (rule by_claim)
  have "ctl_claiming = Inr (Some ctl_lease1, ctl_claimed)"
    unfolding ctl_claimed_def by (rule projr_some) code_simp
  then show "claim_stop ctl_json ''c1'' ''e1'' (Aware 20) ctl_stopped = Inr (Some ctl_lease1, ctl_claimed)"
    by (simp only: ctl_claiming_def)
qed

lemma step_retake: "ctl_step ctl_claimed (Claimed ctl_lease2) ctl_retaken"
proof (rule by_claim)
  have "ctl_retaking = Inr (Some ctl_lease2, ctl_retaken)"
    unfolding ctl_retaken_def by (rule projr_some) code_simp
  then show "claim_stop ctl_json ''c1'' ''e2'' (Aware 30000020) ctl_claimed = Inr (Some ctl_lease2, ctl_retaken)"
    by (simp only: ctl_retaking_def)
qed

lemma step_report: "ctl_step ctl_retaken Internal ctl_reported"
  unfolding ctl_reported_def
proof (rule by_report)
  show "order_of ''o'' (cd_book ctl_retaken) = Some (the (order_of ''o'' (cd_book ctl_retaken)))" by code_simp
  show "update_order_from_report 7 ctl_report_of [] False (the (order_of ''o'' (cd_book ctl_retaken)))
      (cd_book ctl_retaken) = (fst ctl_reporting, snd ctl_reporting)" by (simp add: ctl_reporting_def)
qed

lemma step_settle: "ctl_step ctl_reported (Settled ''c1'') ctl_settled"
proof (rule by_settle)
  have "ctl_settling = Inr (fst (projr ctl_settling), ctl_settled)"
    unfolding ctl_settled_def by (rule projr_pair) code_simp
  then show "settle_stop ctl_json 40000000 ''c1'' (ctl_census 39000000) (fst (projr ctl_retaking)) ctl_reported
      = Inr (fst (projr ctl_settling), ctl_settled)" by (simp only: ctl_settling_def)
qed

text \<open>The runs of the witnesses.\<close>

lemma run_permitted: "run ctl_step ctl_control [Internal, Permitted ''S'' ''o'' 0] ctl_permitted"
  by (intro run_Cons[where step = ctl_step, OF step_seed] run_one[where step = ctl_step, OF step_permit])

lemma run_settled:
  "run ctl_step ctl_stopped [Claimed ctl_lease1, Claimed ctl_lease2, Internal, Settled ''c1''] ctl_settled"
  by (intro run_Cons[where step = ctl_step, OF step_claim] run_Cons[where step = ctl_step, OF step_retake]
      run_Cons[where step = ctl_step, OF step_report] run_one[where step = ctl_step, OF step_settle])

lemma run_whole: "run ctl_step ctl_control ([Internal, Permitted ''S'' ''o'' 0] @
  Requested (fst (projr ctl_stopping)) ''S'' # [Claimed ctl_lease1, Claimed ctl_lease2, Internal, Settled ''c1'']) ctl_settled"
  by (rule run_append[OF run_Cons[where step = ctl_step, OF step_stop run_settled] run_permitted])

theorem stop_blocks_entries_witness:
  "stopped ''S'' ctl_settled \<and> cr_generation (fst (projr ctl_stopping)) = 1"
proof -
  let ?x = "fst (projr ctl_stopping)"
  have x: "cr_action ?x = ''STOP'' \<and> \<not> cr_replayed ?x \<and> cr_generation ?x = 1" by code_simp
  have "\<forall>l \<in> set [Claimed ctl_lease1, Claimed ctl_lease2, Internal, Settled ''c1'']. \<not> reopens ''S'' l"
    by (simp add: reopens_def)
  with stop_blocks_entries[OF step_stop _ _ run_settled] x show ?thesis by blast
qed

theorem one_wire_permit_witness:
  "length (filter (\<lambda>l. permitted_order l = Some ''o'') [Internal, Permitted ''S'' ''o'' 0]) \<le> 1
   \<and> authorize_entry ctl_json 6 ''o'' ''S'' 0 None None None ctl_permitted
     = Inl (ValueError ''entry_dispatch_already_uncertain'')"
  by (rule conjI[OF one_wire_permit[OF run_permitted]]) code_simp

theorem lease_fenced_witness:
  "renew_stop ctl_json ctl_lease1 (Aware 30000021) ctl_retaken \<noteq> Inr ctl_retaken
   \<and> (\<exists>d. renew_stop ctl_json ctl_lease2 (Aware 30000021) ctl_retaken = Inr d)"
proof (rule conjI)
  have "le_command ctl_lease2 = le_command ctl_lease1" "le_executor ctl_lease2 \<noteq> le_executor ctl_lease1"
    by code_simp+
  from lease_fenced[OF step_claim run_nil step_retake run_nil this]
  show "renew_stop ctl_json ctl_lease1 (Aware 30000021) ctl_retaken \<noteq> Inr ctl_retaken" by blast
  have "\<not> isl (renew_stop ctl_json ctl_lease2 (Aware 30000021) ctl_retaken)" by code_simp
  then show "\<exists>d. renew_stop ctl_json ctl_lease2 (Aware 30000021) ctl_retaken = Inr d"
    by (auto simp: isl_def) (metis Inl_Inr_False obj_sumE)
qed

lemma ctl_empty: "cd_states ctl_control = []" "cd_commands ctl_control = []"
  by (simp_all add: ctl_control_def)


theorem request_idempotent_witness:
  "\<exists>phase. request ctl_json 99 (ctl_terms ''c1'' 0 ''STOP'') ctl_settled
    = Inr (\<lparr>cr_command = ''c1'', cr_generation = 1, cr_action = ''STOP'', cr_phase = phase, cr_replayed = True\<rparr>, ctl_settled)"
proof -
  let ?r = "ctl_terms ''c1'' 0 ''STOP''" and ?x = "fst (projr ctl_stopping)"
  have c: "strategy_row (rq_strategy ?r) ctl_settled = Inr ''schwab_1m_v2''" by code_simp
  have x: "cr_command ?x = ''c1'' \<and> cr_generation ?x = 1 \<and> cr_action ?x = ''STOP''" by code_simp
  from request_idempotent[OF run_permitted ctl_empty ctl_stop[unfolded ctl_stopping_def] run_settled c, of 99]
  show ?thesis using x by (simp only: ctl_stopping_def[symmetric])
qed


end
