(* ===== verification/LiveActor.thy ===== *)
theory LiveActor
  imports Lifecycle Execution
begin

text \<open>
  \<open>momentum_live/actor.py\<close>: the actor that owns the episode ledger, takes intents from the rest of the
  program, runs the entry lane and services every owned episode: observe, reconcile, protect, cancel
  the unfilled entry, exit. The ports are calls in a log whose outcomes the environment chooses by
  position; the log keeps the outcome of the calls a decision rests on. While a port is awaited the
  rest of the event loop may change the ledger (\<open>ae_drift\<close>: the entry lane claims and settles
  episodes without the state lock, a port records a close time). The quantities of an own-order
  observation are finite. The logging of the source is the calls \<open>AFailed\<close> (an exception was logged)
  and \<open>AQuiet\<close> (a short quantity mismatch, which is not reported as an error); the diagnostic observer of an exit
  decision, whose failures are swallowed, is left out.
\<close>

section \<open>State and ports\<close>

definition OBSERVATION_POLL_NS :: int where "OBSERVATION_POLL_NS = 1000000000"

record owned_observation =
  ob_quantity :: rat
  ob_exited :: rat
  ob_first_fill_ns :: "int option"
  ob_entry_terminal :: bool
  ob_outstanding_exit :: bool
  ob_position :: "owned_position option"
  ob_provider :: "string option"

text \<open>An intent event; \<open>ie_signal\<close> is what reading its sealed signal gives or raises.\<close>

record intent_event =
  ie_strategy :: string
  ie_type :: string
  ie_symbol :: string
  ie_signal :: "signal result"
  ie_episode :: "string option"

datatype actor_call =
    AEnabled
  | AClock int
  | AStop bool
  | AObserve string "owned_observation result"
  | ASave string row
  | ACancel string
  | AProtect owned_position
  | AQuote string "decimal option" "int option"
  | AExit owned_position string
  | AAbandon string "bool result"
  | AFailed string
  | AQuiet string int

record actor_env =
  ae_enabled :: "nat \<Rightarrow> bool"
  ae_clock :: "nat \<Rightarrow> int"
  ae_stop :: "nat \<Rightarrow> bool"
  ae_observe :: "nat \<Rightarrow> owned_observation result"
  ae_save :: "nat \<Rightarrow> unit result"
  ae_cancel :: "nat \<Rightarrow> unit result"
  ae_protect :: "nat \<Rightarrow> owned_position \<Rightarrow> unit result \<times> owned_position"
  ae_exit :: "nat \<Rightarrow> owned_position \<Rightarrow> unit result \<times> owned_position"
  ae_quote :: "nat \<Rightarrow> decimal option \<times> int option"
  ae_abandon :: "(nat \<Rightarrow> bool result) option"
  ae_account :: "string result option"
  ae_drift :: "nat \<Rightarrow> ledger \<Rightarrow> ledger"

text \<open>
  \<open>ac_exec\<close> is the entry executor with the ledger it shares; \<open>ac_transient\<close> and \<open>ac_now\<close> are the local
  variables of the service that its exception handler reads.
\<close>

record actor_state =
  ac_exec :: exec_state
  ac_dispatch :: quote_dispatch
  ac_restored :: bool
  ac_inflight :: "string option"
  ac_inbox :: "intent_event list"
  ac_observations :: "(string, int \<times> owned_observation) dict"
  ac_since :: "(string, int option) dict"
  ac_states :: "(string, ep_state) dict"
  ac_transient :: bool
  ac_now :: "int option"
  ac_log :: "actor_call list"

abbreviation ac_book :: "actor_state \<Rightarrow> ledger" where
  "ac_book s \<equiv> xs_book (ac_exec s)"

abbreviation ac_work :: "actor_state \<Rightarrow> work_queue" where
  "ac_work s \<equiv> qd_work (ac_dispatch s)"

definition set_book :: "ledger \<Rightarrow> actor_state \<Rightarrow> actor_state" where
  "set_book L s = s\<lparr>ac_exec := (ac_exec s)\<lparr>xs_book := L\<rparr>\<rparr>"

definition set_work :: "work_queue \<Rightarrow> actor_state \<Rightarrow> actor_state" where
  "set_work q s = s\<lparr>ac_dispatch := (ac_dispatch s)\<lparr>qd_work := q\<rparr>\<rparr>"

definition new_actor :: "exec_state \<Rightarrow> actor_state" where
  "new_actor x =
     \<lparr>ac_exec = x, ac_dispatch = \<lparr>qd_work = new_queue, qd_by_symbol = [], qd_waiters = []\<rparr>,
      ac_restored = False, ac_inflight = None, ac_inbox = [], ac_observations = [], ac_since = [],
      ac_states = [], ac_transient = False, ac_now = None, ac_log = []\<rparr>"

definition alog :: "actor_call \<Rightarrow> actor_state \<Rightarrow> actor_state" where
  "alog c s = s\<lparr>ac_log := ac_log s @ [c]\<rparr>"

text \<open>A call that returns at once, and one that is awaited.\<close>

definition acall :: "('a \<Rightarrow> actor_call) \<Rightarrow> (nat \<Rightarrow> 'a) \<Rightarrow> (actor_state, 'a) eff" where
  "acall c outcome = (\<lambda>s. let v = outcome (length (ac_log s)) in (Inr v, alog (c v) s))"

definition await_call ::
  "actor_env \<Rightarrow> ('a result \<Rightarrow> actor_call) \<Rightarrow> (nat \<Rightarrow> 'a result) \<Rightarrow> (actor_state, 'a) eff" where
  "await_call E c outcome =
     (\<lambda>s. let n = length (ac_log s); v = outcome n
          in (v, set_book (ae_drift E n (ac_book s)) (alog (c v) s)))"

definition clock_ns :: "actor_env \<Rightarrow> (actor_state, int) eff" where
  "clock_ns E = acall AClock (ae_clock E)"

definition stop_requested :: "actor_env \<Rightarrow> (actor_state, bool) eff" where
  "stop_requested E = acall AStop (ae_stop E)"

text \<open>The episode object of an identity, and a ledger operation on it.\<close>

definition episode_now :: "string \<Rightarrow> (actor_state, episode) eff" where
  "episode_now i = (\<lambda>s. (lookup_episode (ac_book s) i, s))"

definition on_ledger :: "(ledger \<Rightarrow> ledger result) \<Rightarrow> (actor_state, unit) eff" where
  "on_ledger f = (\<lambda>s. case f (ac_book s) of Inl e \<Rightarrow> (Inl e, s) | Inr L \<Rightarrow> (Inr (), set_book L s))"

definition save_episode :: "actor_env \<Rightarrow> string \<Rightarrow> (actor_state, unit) eff" where
  "save_episode E i = bindE (episode_now i) (\<lambda>e. await_call E (\<lambda>_. ASave i (row_of e)) (ae_save E))"

section \<open>Owners\<close>

definition active_owners :: "ledger \<Rightarrow> string set" where
  "active_owners L = \<Union> (snd ` set (active_by_symbol L))"

definition refresh_owners :: "actor_state \<Rightarrow> actor_state" where
  "refresh_owners s =
     (let L = ac_book s; A = active_owners L;
          names = map (\<lambda>p. (fst p, sorted_list_of_set (snd p))) (active_by_symbol L)
      in s\<lparr>ac_dispatch := (ac_dispatch s)
             \<lparr>qd_work := set_owners A (ac_work s), qd_by_symbol := names,
              qd_waiters := filter (\<lambda>p. map_of names (fst p) \<noteq> None) (qd_waiters (ac_dispatch s))\<rparr>,
           ac_observations := filter (\<lambda>p. fst p \<in> A) (ac_observations s),
           ac_since := filter (\<lambda>p. fst p \<in> A) (ac_since s),
           ac_states := filter (\<lambda>p. fst p \<in> A) (ac_states s)\<rparr>)"

section \<open>Servicing an owned episode\<close>

text \<open>A reservation whose entry was never sent: a STOP may give it up, otherwise it waits for a quote.\<close>

definition service_claimed :: "actor_env \<Rightarrow> string \<Rightarrow> (actor_state, unit) eff" where
  "service_claimed E i =
     bindE (stop_requested E) (\<lambda>stop.
     if \<not> stop then returnE ()
     else case ae_abandon E of
       None \<Rightarrow> returnE ()
     | Some f \<Rightarrow>
         bindE (await_call E (AAbandon i) f) (\<lambda>abandoned.
         if \<not> abandoned then returnE ()
         else bindE (clock_ns E) (\<lambda>now.
              thenE (on_ledger (\<lambda>L. reconcile L i (Fin 0) (Fin 0) now True False None))
             (thenE (save_episode E i) (modifyE refresh_owners)))))"

definition observe_owned :: "actor_env \<Rightarrow> string \<Rightarrow> (actor_state, owned_observation) eff" where
  "observe_owned E i =
     bindE (await_call E (AObserve i) (ae_observe E)) (\<lambda>ob.
     bindE (clock_ns E) (\<lambda>now.
     thenE (modifyE (\<lambda>s. s\<lparr>ac_observations := AList.update i (now, ob) (ac_observations s)\<rparr>))
           (returnE ob)))"

definition cached_fresh :: "int \<Rightarrow> (int \<times> owned_observation) option \<Rightarrow> bool" where
  "cached_fresh now cached =
     (case cached of None \<Rightarrow> False | Some (t, ob) \<Rightarrow> 0 \<le> now - t \<and> now - t < OBSERVATION_POLL_NS)"

text \<open>Whether a mismatch is the short lag between the order rows and the position of a Schwab owner.\<close>

definition quantity_mismatch :: "actor_env \<Rightarrow> string \<Rightarrow> string \<Rightarrow> owned_observation \<Rightarrow> owned_position \<Rightarrow> bool" where
  "quantity_mismatch E i y ob p \<longleftrightarrow>
     op_episode_id p = i \<and> op_symbol p = y \<and> op_strategy p = STRATEGY_CODE
     \<and> ob_provider ob = Some ''schwab'' \<and> ae_account E = Some (Inr (op_account p))
     \<and> op_entry_coid p \<noteq> [] \<and> op_entry_order_id p \<noteq> []
     \<and> op_quantity p \<ge> 0 \<and> op_exited p \<ge> 0 \<and> ob_quantity ob \<ge> 0 \<and> ob_exited ob \<ge> 0
     \<and> op_exited p \<le> op_quantity p \<and> ob_exited ob \<le> ob_quantity ob"

definition check_observation ::
  "actor_env \<Rightarrow> string \<Rightarrow> string \<Rightarrow> owned_observation \<Rightarrow> (actor_state, unit) eff" where
  "check_observation E i y ob =
     (case ob_position ob of
        Some p \<Rightarrow>
          if op_episode_id p \<noteq> i \<or> op_symbol p \<noteq> y \<or> op_strategy p \<noteq> STRATEGY_CODE
             \<or> op_quantity p \<noteq> ob_quantity ob \<or> op_exited p \<noteq> ob_exited ob
          then thenE (modifyE (\<lambda>s. if ac_restored s
                                   then s\<lparr>ac_transient := quantity_mismatch E i y ob p\<rparr> else s))
                     (raiseE (Refusal ''owned_observation_identity_mismatch''))
          else returnE ()
      | None \<Rightarrow> raise_if (ob_quantity ob > ob_exited ob) (Refusal ''held_position_identity_UNKNOWN''))"

text \<open>The position is one object, shared with the cached observation.\<close>

definition store_position :: "string \<Rightarrow> owned_position \<Rightarrow> actor_state \<Rightarrow> actor_state" where
  "store_position i p s =
     (case map_of (ac_observations s) i of
        None \<Rightarrow> s
      | Some (t, ob) \<Rightarrow> s\<lparr>ac_observations := AList.update i (t, ob\<lparr>ob_position := Some p\<rparr>) (ac_observations s)\<rparr>)"

definition call_position ::
  "actor_env \<Rightarrow> string \<Rightarrow> actor_call \<Rightarrow> (nat \<Rightarrow> owned_position \<Rightarrow> unit result \<times> owned_position)
   \<Rightarrow> owned_position \<Rightarrow> (actor_state, owned_position) eff" where
  "call_position E i c f p =
     (\<lambda>s. case f (length (ac_log s)) p of
        (r, p1) \<Rightarrow>
          (case r of Inl e \<Rightarrow> Inl e | Inr _ \<Rightarrow> Inr p1,
           store_position i p1 (set_book (ae_drift E (length (ac_log s)) (ac_book s)) (alog c s))))"

text \<open>A fresh observation: reconcile, save, protect what is held.\<close>

definition reconcile_owned :: "actor_env \<Rightarrow> string \<Rightarrow> owned_observation \<Rightarrow> (actor_state, unit) eff" where
  "reconcile_owned E i ob =
     bindE (clock_ns E) (\<lambda>now.
     thenE (on_ledger (\<lambda>L. reconcile L i (Fin (ob_quantity ob)) (Fin (ob_exited ob)) now
                              (ob_entry_terminal ob) (ob_outstanding_exit ob) (ob_first_fill_ns ob)))
           (save_episode E i))"

definition protect_position ::
  "actor_env \<Rightarrow> string \<Rightarrow> owned_position \<Rightarrow> (actor_state, owned_position) eff" where
  "protect_position E i p =
     bindE (episode_now i) (\<lambda>e.
     let p1 = p\<lparr>op_first_fill_ns := ep_first_fill_ns e, op_entry_send_ns := ep_first_submit_ns e\<rparr>
     in thenE (modifyE (store_position i p1))
       (bindE (call_position E i (AProtect p1) (ae_protect E) p1) (\<lambda>p2.
        case exit_clock_ns p2 of
          None \<Rightarrow> raiseE (Refusal ''owned_time_exit_anchor_UNKNOWN'')
        | Some t \<Rightarrow>
            bindE (clock_ns E) (\<lambda>now.
            thenE (raise_if (\<not> (0 < t \<and> t \<le> now)) (Refusal ''owned_time_exit_anchor_UNKNOWN''))
                  (returnE p2)))))"

definition reconcile_protect ::
  "actor_env \<Rightarrow> string \<Rightarrow> owned_observation \<Rightarrow> (actor_state, owned_position option) eff" where
  "reconcile_protect E i ob =
     thenE (reconcile_owned E i ob)
           (case ob_position ob of
              None \<Rightarrow> returnE None
            | Some p \<Rightarrow> bindE (protect_position E i p) (\<lambda>p2. returnE (Some p2)))"

text \<open>The cancel is latched in the ledger and saved before it is sent.\<close>

definition force_cancel :: "string \<Rightarrow> episode \<Rightarrow> ledger \<Rightarrow> ledger" where
  "force_cancel i e L = put_episode i (e\<lparr>ep_cancel_requested := True, ep_state := CancelRequested\<rparr>) L"

definition latch_cancel :: "actor_env \<Rightarrow> string \<Rightarrow> owned_observation \<Rightarrow> (actor_state, bool) eff" where
  "latch_cancel E i ob =
     bindE (stop_requested E) (\<lambda>stop.
     bindE (episode_now i) (\<lambda>e.
     if stop \<and> \<not> ob_entry_terminal ob \<and> \<not> ep_cancel_requested e
     then thenE (modifyE (\<lambda>s. set_book (force_cancel i e (ac_book s)) s)) (returnE True)
     else bindE (clock_ns E) (\<lambda>now s.
            case cancel_due (ac_book s) i now of
              Inl x \<Rightarrow> (Inl x, s)
            | Inr (L, due) \<Rightarrow> (Inr due, set_book L s))))"

definition cancel_when_due :: "actor_env \<Rightarrow> string \<Rightarrow> owned_observation \<Rightarrow> (actor_state, unit) eff" where
  "cancel_when_due E i ob =
     bindE (latch_cancel E i ob) (\<lambda>due.
     if due then thenE (save_episode E i) (await_call E (\<lambda>_. ACancel i) (ae_cancel E))
     else returnE ())"

definition exit_call :: "actor_env \<Rightarrow> string \<Rightarrow> owned_position \<Rightarrow> string \<Rightarrow> (actor_state, unit) eff" where
  "exit_call E i p why = bindE (call_position E i (AExit p why) (ae_exit E) p) (\<lambda>_. returnE ())"

definition exit_when_due ::
  "actor_env \<Rightarrow> string \<Rightarrow> string \<Rightarrow> owned_observation \<Rightarrow> owned_position option \<Rightarrow> (actor_state, unit) eff" where
  "exit_when_due E i y ob held =
     bindE (episode_now i) (\<lambda>e.
     thenE (case held of
              None \<Rightarrow> returnE ()
            | Some p \<Rightarrow>
                if ep_remaining e \<le> 0 then returnE ()
                else bindE (stop_requested E) (\<lambda>stop.
                  if stop then (if ob_entry_terminal ob then exit_call E i p ''KILLSW1_STOP'' else returnE ())
                  else bindE (acall (\<lambda>(b, q). AQuote y b q) (ae_quote E)) (\<lambda>(bid, quote_ns).
                       bindE (clock_ns E) (\<lambda>now.
                       case exit_reason p bid quote_ns now of
                         None \<Rightarrow> returnE ()
                       | Some why \<Rightarrow> exit_call E i p why))))
           (modifyE refresh_owners))"

definition forget_mismatch :: "string \<Rightarrow> actor_state \<Rightarrow> actor_state" where
  "forget_mismatch i s = s\<lparr>ac_since := AList.delete i (ac_since s), ac_states := AList.delete i (ac_states s)\<rparr>"

definition service_observed ::
  "actor_env \<Rightarrow> string \<Rightarrow> string \<Rightarrow> bool \<Rightarrow> owned_observation \<Rightarrow> (actor_state, unit) eff" where
  "service_observed E i y refreshed ob =
     thenE (check_observation E i y ob)
    (thenE (modifyE (forget_mismatch i))
    (bindE (if refreshed then reconcile_protect E i ob else returnE (ob_position ob)) (\<lambda>held.
     thenE (cancel_when_due E i ob) (exit_when_due E i y ob held))))"

definition service_locked :: "actor_env \<Rightarrow> string \<Rightarrow> (actor_state, unit) eff" where
  "service_locked E i =
     bindE (episode_now i) (\<lambda>e.
     if \<not> ep_active e then returnE ()
     else if ep_state e = Claimed \<and> ep_first_submit_ns e = None \<and> ep_filled e = 0 then service_claimed E i
     else bindE (clock_ns E) (\<lambda>now.
          thenE (modifyE (\<lambda>s. s\<lparr>ac_now := Some now\<rparr>))
         (bindE (getE (\<lambda>s. map_of (ac_observations s) i)) (\<lambda>cached.
          if cached_fresh now cached then service_observed E i (ep_symbol e) False (snd (the cached))
          else bindE (observe_owned E i) (service_observed E i (ep_symbol e) True)))))"

text \<open>
  The exception handler: a quantity mismatch is tolerated for two seconds from its first sight by a
  valid clock, everything else is logged; before the restore has finished it is raised on.
\<close>

definition valid_stamp :: "int \<Rightarrow> int option \<Rightarrow> (int \<times> owned_observation) option \<Rightarrow> bool" where
  "valid_stamp stamp now cached =
     (case (now, cached) of
        (Some n, Some (t, ob)) \<Rightarrow> stamp \<ge> max 1 (max n t) \<and> 0 \<le> stamp - t \<and> stamp - t < OBSERVATION_POLL_NS
      | _ \<Rightarrow> False)"

definition first_mismatch :: "string \<Rightarrow> bool \<Rightarrow> int \<Rightarrow> (string, int option) dict \<Rightarrow> (string, int option) dict" where
  "first_mismatch i valid stamp since =
     (if map_of since i = None \<and> length since < 2
      then AList.update i (if valid then Some stamp else None) since else since)"

definition in_grace :: "string \<Rightarrow> bool \<Rightarrow> int \<Rightarrow> (string, int option) dict \<Rightarrow> bool" where
  "in_grace i valid stamp since =
     (valid \<and> (case map_of since i of
                 Some (Some t) \<Rightarrow> 0 \<le> stamp - t \<and> stamp - t \<le> 2 * OBSERVATION_POLL_NS
               | _ \<Rightarrow> False))"

definition tolerated :: "actor_env \<Rightarrow> string \<Rightarrow> (actor_state, bool) eff" where
  "tolerated E i =
     bindE (getE id) (\<lambda>s.
     if \<not> (ac_transient s \<and> ac_restored s) then returnE False
     else bindE (clock_ns E) (\<lambda>stamp.
          let valid = valid_stamp stamp (ac_now s) (map_of (ac_observations s) i);
              since = first_mismatch i valid stamp (ac_since s)
          in thenE (modifyE (\<lambda>u. u\<lparr>ac_since := since\<rparr>))
            (if \<not> in_grace i valid stamp since then returnE False
             else bindE (episode_now i) (\<lambda>e.
                  thenE (modifyE (\<lambda>u. alog (AQuiet i stamp)
                                  (if map_of (ac_states u) i \<noteq> Some (ep_state e)
                                   then u\<lparr>ac_states := AList.update i (ep_state e) (ac_states u)\<rparr> else u)))
                        (returnE True)))))"

definition service_failed :: "actor_env \<Rightarrow> string \<Rightarrow> py_error \<Rightarrow> (actor_state, unit) eff" where
  "service_failed E i err =
     (if err = CancelledError then raiseE err
      else bindE (tolerated E i) (\<lambda>quiet.
           thenE (if quiet then returnE () else modifyE (alog (AFailed i)))
          (bindE (getE ac_restored) (\<lambda>r. if r then returnE () else raiseE err))))"

definition service_owned :: "actor_env \<Rightarrow> string \<Rightarrow> (actor_state, unit) eff" where
  "service_owned E i =
     thenE (modifyE (\<lambda>s. s\<lparr>ac_transient := False, ac_now := None\<rparr>))
           (catchE (service_locked E i) (service_failed E i))"

section \<open>Restoring, intents, cadence\<close>

fun service_all :: "actor_env \<Rightarrow> string list \<Rightarrow> (actor_state, unit) eff" where
  "service_all E [] = returnE ()"
| "service_all E (i # is) = thenE (service_owned E i) (service_all E is)"

definition restore_before_serving :: "actor_env \<Rightarrow> (actor_state, unit) eff" where
  "restore_before_serving E =
     bindE (getE ac_book) (\<lambda>L.
     thenE (raise_if (\<not> ready L) (Refusal ''ownership_restore_pending''))
    (thenE (modifyE refresh_owners)
    (bindE (getE (\<lambda>s. sorted_list_of_set (wq_owners (ac_work s)))) (\<lambda>ids.
     thenE (service_all E ids)
    (thenE (modifyE refresh_owners) (modifyE (\<lambda>s. s\<lparr>ac_restored := True\<rparr>)))))))"

definition close_actor :: "actor_state \<Rightarrow> actor_state" where
  "close_actor s = s\<lparr>ac_restored := False, ac_since := [], ac_states := []\<rparr>"

definition INBOX_SIZE :: nat where "INBOX_SIZE = 64"

definition offer_intent :: "actor_env \<Rightarrow> intent_event \<Rightarrow> (actor_state, bool) eff" where
  "offer_intent E ev =
     bindE (getE id) (\<lambda>s.
     if \<not> ac_restored s \<or> ie_strategy ev \<noteq> STRATEGY_CODE then returnE False
     else bindE (if ie_type ev = ''open'' then acall (\<lambda>_. AEnabled) (ae_enabled E) else returnE True) (\<lambda>on.
          if \<not> on \<or> ie_type ev \<notin> {''open'', ''close'', ''cancel''} \<or> length (ac_inbox s) \<ge> INBOX_SIZE
          then returnE False
          else thenE (modifyE (\<lambda>u. u\<lparr>ac_inbox := ac_inbox u @ [ev]\<rparr>)) (returnE True)))"

definition offer_work :: "string \<Rightarrow> actor_state \<Rightarrow> actor_state" where
  "offer_work i s = set_work (snd (offer i (ac_work s))) s"

text \<open>One event of the entry lane: an open goes through the executor, anything else to the owner.\<close>

definition open_event ::
  "(string \<Rightarrow> string) \<Rightarrow> exec_config \<Rightarrow> exec_env \<Rightarrow> intent_event \<Rightarrow> (actor_state, unit) eff" where
  "open_event uuid5 X XE ev =
     bindE (liftE (ie_signal ev)) (\<lambda>sig.
     thenE (raise_if (sig_country_route sig = None \<or> sig_country_evidence sig = None)
              (Refusal ''producer_country_decision_unsealed''))
    (thenE (raise_if (sig_symbol sig \<noteq> ie_symbol ev) (Refusal ''handoff_symbol_identity_mismatch''))
    (thenE (modifyE (\<lambda>s. s\<lparr>ac_inflight := Some (sig_symbol sig)\<rparr>))
    (bindE (\<lambda>s. case admit uuid5 X XE sig (ac_exec s) of (r, x) \<Rightarrow> (r, s\<lparr>ac_exec := x\<rparr>)) (\<lambda>(i, fresh).
     thenE (modifyE refresh_owners)
           (modifyE (\<lambda>s. if i \<in> wq_owners (ac_work s) then offer_work i s else s)))))))"

definition owner_event :: "intent_event \<Rightarrow> (actor_state, unit) eff" where
  "owner_event ev =
     bindE (getE ac_book) (\<lambda>L.
     case ie_episode ev of
       None \<Rightarrow> raiseE (Refusal ''owned_action_episode_unknown'')
     | Some i \<Rightarrow>
         (case map_of (episodes L) i of
            None \<Rightarrow> raiseE (Refusal ''owned_action_episode_unknown'')
          | Some e \<Rightarrow>
              thenE (raise_if (ep_symbol e \<noteq> ie_symbol ev \<or> \<not> ep_active e)
                       (Refusal ''owned_action_episode_unknown''))
                    (modifyE (offer_work i))))"

definition handle_event ::
  "(string \<Rightarrow> string) \<Rightarrow> exec_config \<Rightarrow> exec_env \<Rightarrow> actor_env \<Rightarrow> intent_event \<Rightarrow> (actor_state, unit) eff" where
  "handle_event uuid5 X XE E ev =
     (\<lambda>s. case catchE
               (if ie_type ev = ''open''
                then bindE (acall (\<lambda>_. AEnabled) (ae_enabled E)) (\<lambda>on.
                       if on then open_event uuid5 X XE ev else returnE ())
                else owner_event ev)
               (\<lambda>e. if e = CancelledError then raiseE e else modifyE refresh_owners) s of
          (r, t) \<Rightarrow> (r, t\<lparr>ac_inflight := None\<rparr>))"

definition next_event ::
  "(string \<Rightarrow> string) \<Rightarrow> exec_config \<Rightarrow> exec_env \<Rightarrow> actor_env \<Rightarrow> (actor_state, unit) eff" where
  "next_event uuid5 X XE E =
     (\<lambda>s. case ac_inbox s of
        [] \<Rightarrow> (Inr (), s)
      | ev # evs \<Rightarrow> handle_event uuid5 X XE E ev (s\<lparr>ac_inbox := evs\<rparr>))"

definition cadence :: "string list \<Rightarrow> actor_state \<Rightarrow> actor_state" where
  "cadence ids s = fold offer_work ids s"

section \<open>The actor as a transition system\<close>

text \<open>
  The tasks of the actor between their awaits: intents are offered, the entry lane handles one, the
  cadence and the quotes offer owners, a worker takes an owner, services it under the lock and puts it
  down, the actor is closed. \<open>E\<close>, \<open>X\<close> and \<open>XE\<close> are chosen anew for every step.
\<close>

text \<open>A new episode's name is not one of the ledger's: \<open>uuid5\<close> of a new source does not collide.\<close>

definition name_fresh :: "(string \<Rightarrow> string) \<Rightarrow> actor_state \<Rightarrow> bool" where
  "name_fresh uuid5 s \<longleftrightarrow>
     (case ac_inbox s of
        [] \<Rightarrow> True
      | ev # evs \<Rightarrow>
          (case ie_signal ev of
             Inl e \<Rightarrow> True
           | Inr sig \<Rightarrow> map_of (sources (ac_book s)) (sig_source_key sig) \<noteq> None
               \<or> map_of (episodes (ac_book s)) (uuid5 (identity_text sig)) = None))"

datatype actor_label =
    LOffer bool
  | LEntry
  | LTick
  | LTake string
  | LServe string
  | LPut string
  | LClose

inductive actor_step :: "(string \<Rightarrow> string) \<Rightarrow> (actor_env \<Rightarrow> bool) \<Rightarrow> actor_state \<Rightarrow> actor_label \<Rightarrow> actor_state \<Rightarrow> bool"
  for uuid5 and allowed where
  as_offer: "allowed E \<Longrightarrow> offer_intent E ev s = (Inr b, t) \<Longrightarrow> actor_step uuid5 allowed s (LOffer b) t"
| as_entry: "allowed E \<Longrightarrow> name_fresh uuid5 s \<Longrightarrow> next_event uuid5 X XE E s = (r, t)
    \<Longrightarrow> actor_step uuid5 allowed s LEntry t"
| as_cadence: "set ids = wq_owners (ac_work s) \<Longrightarrow> actor_step uuid5 allowed s LTick (cadence ids s)"
| as_quote: "actor_step uuid5 allowed s LTick (s\<lparr>ac_dispatch := on_quote y (ac_dispatch s)\<rparr>)"
| as_take: "take_work (ac_work s) = Some (i, q) \<Longrightarrow> actor_step uuid5 allowed s (LTake i) (set_work q s)"
| as_serve: "allowed E \<Longrightarrow> i \<in> wq_running (ac_work s) \<Longrightarrow> service_owned E i s = (r, t)
    \<Longrightarrow> actor_step uuid5 allowed s (LServe i) t"
| as_put: "i \<in> wq_running (ac_work s) \<Longrightarrow> actor_step uuid5 allowed s (LPut i) (set_work (finish_work i (ac_work s)) s)"
| as_close: "actor_step uuid5 allowed s LClose (close_actor s)"
| as_restore: "allowed E \<Longrightarrow> restore_before_serving E s = (r, t) \<Longrightarrow> actor_step uuid5 allowed s LTick t"

inductive_cases actor_stepE: "actor_step uuid5 allowed s l t"

end
