(* ===== verification/LiveActorSpec.thy ===== *)
theory LiveActorSpec
  imports LiveActor ExecutionSpec AdmissionSpec
begin

text \<open>
  What the live actor promises: the laws of the episode ledger that every executor and actor step
  keeps, the cancel that is latched, saved and sent once, exits that rest on the evidence read just
  before them.
\<close>

section \<open>Laws of the ledger kept by the entry lane and the services\<close>

text \<open>Most calls of the executor leave the ledger alone.\<close>

lemma book_only:
  "keeps (\<lambda>s. Q (xs_book s)) (xtry c f)" "keeps (\<lambda>s. Q (xs_book s)) (xcall c g)"
  "keeps (\<lambda>s. Q (xs_book s)) (build_request X E sig i rt)" "keeps (\<lambda>s. Q (xs_book s)) (row_for i)"
  "keeps (\<lambda>s. Q (xs_book s)) (on_attempt h)"
proof -
  show "keeps (\<lambda>s. Q (xs_book s)) (build_request X E sig i rt)"
    by (rule keeps_build_request) (simp add: stable_def)
qed (auto simp: keeps_def xtry_def xcall_def row_for_def eff_simps on_attempt_def split: option.splits prod.splits)

lemma routing_only: "keeps (\<lambda>s. Q (xs_book s)) (routing E sig)"
  unfolding routing_def
  by (intro keeps_bind book_only keeps_return; auto intro!: keeps_then keeps_bind keeps_raise keeps_raise_if
      keeps_lift keeps_return book_only split: option.split)

locale ledger_law =
  fixes Q :: "ledger \<Rightarrow> bool"
  assumes law_begin: "Q L \<Longrightarrow> begin_submit L i rt now = Inr L' \<Longrightarrow> Q L'"
    and law_reconcile: "Q L \<Longrightarrow> reconcile L i cf cx now t x f = Inr L' \<Longrightarrow> Q L'"
    and law_cancel: "Q L \<Longrightarrow> cancel_due L i now = Inr (L', b) \<Longrightarrow> Q L'"
    and law_force: "Q L \<Longrightarrow> lookup_episode L i = Inr e \<Longrightarrow> Q (force_cancel i e L)"
begin

lemma book_reconcile: "keeps (\<lambda>s. Q (xs_book s)) (on_book (\<lambda>L. reconcile L i cf cx now t x f))"
  and book_begin: "keeps (\<lambda>s. Q (xs_book s)) (on_book (\<lambda>L. begin_submit L i rt now))"
  by (auto simp: keeps_def on_book_def split: sum.splits intro: law_begin law_reconcile)

lemma save_row_law: "keeps (\<lambda>s. Q (xs_book s)) (save_row E i)"
  unfolding save_row_def by (intro keeps_bind book_only)

lemma settle_law: "keeps (\<lambda>s. Q (xs_book s)) (settle_unsent E i)"
  unfolding settle_unsent_def by (intro keeps_bind keeps_then book_only book_reconcile save_row_law)

lemmas book_rules = keeps_bind keeps_then keeps_if keeps_catch keeps_return keeps_raise keeps_raise_if keeps_get
  keeps_lift keeps_modify book_only book_begin settle_law

lemma quote_phase_law: "keeps (\<lambda>s. Q (xs_book s)) (quote_phase X E sig i rt)"
  unfolding quote_phase_def by (intro book_rules)

lemma prepare_phase_law: "keeps (\<lambda>s. Q (xs_book s)) (prepare_phase X E sig i rt)"
  unfolding prepare_phase_def Let_def by (intro book_rules) simp

lemma fresh_entry_law: "keeps (\<lambda>s. Q (xs_book s)) (fresh_entry X E sig rt)"
  unfolding fresh_entry_def by (intro book_rules) (auto intro!: book_rules split: option.split meta.split)

lemma take_turn_law: "keeps (\<lambda>s. Q (xs_book s)) (take_turn X E epi checked changed)"
proof -
  have "keeps (\<lambda>s. Q (xs_book s)) (store_reprice X E epi checked changed)"
    unfolding store_reprice_def by (intro book_rules) (auto intro!: book_rules split: option.split)
  then show ?thesis unfolding take_turn_def by (intro book_rules) simp_all
qed

lemma refresh_law: "keeps (\<lambda>s. Q (xs_book s)) (refresh_prepared n X E sig rt epi)"
proof (induction n arbitrary: epi)
  case (Suc n)
  then show ?case
    unfolding refresh_prepared.simps refresh_turn_def by (intro book_rules fresh_entry_law take_turn_law)
qed (simp add: keeps_raise)

lemma latch_phase_law: "keeps (\<lambda>s. Q (xs_book s)) (latch_phase X E sig i rt)"
  unfolding latch_phase_def by (intro book_rules refresh_law)

lemma refused_law: "keeps (\<lambda>s. Q (xs_book s)) (refused_before_wire X E i e)"
  unfolding refused_before_wire_def
  by (intro keeps_bind keeps_get; cases e; simp) (intro book_rules impI conjI; simp)+

lemma wire_law: "keeps (\<lambda>s. Q (xs_book s)) (wire_script X E sig i rt ws)"
proof (induction ws)
  case (Cons w ws)
  have v: "keeps (\<lambda>s. Q (xs_book s)) (validate_wire X E sig i rt)"
    unfolding validate_wire_def by (intro book_rules)
  have "keeps (\<lambda>s. Q (xs_book s)) (wire_action X E sig i rt w)"
    unfolding wire_action_def
    by (cases w; simp; intro book_rules v; simp add: add_permit_def Let_def)
  with Cons show ?case by (simp add: keeps_then)
qed (simp add: keeps_return)

lemma submit_phase_law: "keeps (\<lambda>s. Q (xs_book s)) (submit_phase X E sig i rt category)"
proof -
  have "keeps (\<lambda>s. Q (xs_book s)) (submit_call X E sig i rt)"
    unfolding submit_call_def
    by (intro book_rules wire_law) (auto intro!: book_rules split: sum.split py_error.split)
  moreover have "keeps (\<lambda>s. Q (xs_book s)) (settle_local X E i)"
    unfolding settle_local_def by (intro book_rules) (auto intro!: book_rules split: option.split)
  ultimately show ?thesis
    unfolding submit_phase_def by (intro book_rules) (auto intro!: book_rules split: option.split)
qed

lemma admit_law:
  assumes Q: "Q (xs_book s)"
    and claim: "\<And>now L i fresh. claim uuid5 (xs_book s) sig now False = Inr (L, i, fresh) \<Longrightarrow> Q L"
  shows "Q (xs_book (snd (admit uuid5 X E sig s)))"
proof -
  let ?B = "\<lambda>t. xs_book t = xs_book s"
  have owned: "keeps (\<lambda>s. Q (xs_book s)) (admit_owned X E sig i rt category)" for i rt category
    unfolding admit_owned_def
    by (intro book_rules quote_phase_law prepare_phase_law latch_phase_law refused_law submit_phase_law)
  have claimed: "wp (bindE (\<lambda>t. case claim uuid5 (xs_book t) sig now False of
          Inl e \<Rightarrow> (Inl e, t) | Inr (L, i, fresh) \<Rightarrow> (Inr (i, fresh), t\<lparr>xs_book := L\<rparr>))
        (\<lambda>(i, fresh). if \<not> fresh then thenE (save_row E i) (returnE (i, False))
           else thenE (admit_owned X E sig i rt category) (returnE (i, True))))
        (\<lambda>_ t. Q (xs_book t)) (\<lambda>_ t. Q (xs_book t)) t" if "?B t" for now rt category t
  proof (rule wp_bindI[where Q' = "\<lambda>_ t. Q (xs_book t)"])
    show "wp (\<lambda>t. case claim uuid5 (xs_book t) sig now False of
        Inl e \<Rightarrow> (Inl e, t) | Inr (L, i, fresh) \<Rightarrow> (Inr (i, fresh), t\<lparr>xs_book := L\<rparr>))
        (\<lambda>_ t. Q (xs_book t)) (\<lambda>_ t. Q (xs_book t)) t"
      using that Q by (auto simp: wp_def split: sum.split prod.split dest: claim)
    fix p :: "string \<times> bool" and u :: exec_state assume "Q (xs_book u)"
    then show "wp (case p of (i, fresh) \<Rightarrow> if \<not> fresh then thenE (save_row E i) (returnE (i, False))
           else thenE (admit_owned X E sig i rt category) (returnE (i, True)))
        (\<lambda>_ t. Q (xs_book t)) (\<lambda>_ t. Q (xs_book t)) u"
      by (cases p) (auto intro!: wp_keeps[where P = "\<lambda>s. Q (xs_book s)"] book_rules save_row_law owned)
  qed
  have route: "wp (routing E sig) (\<lambda>_. ?B) (\<lambda>_. ?B) t" if "?B t" for t
    using wp_keeps[OF routing_only[where Q = "\<lambda>L. L = xs_book s"]] that by simp
  have "wp (admit uuid5 X E sig) (\<lambda>_ t. Q (xs_book t)) (\<lambda>_ t. Q (xs_book t)) s"
    unfolding admit_def
    by (auto simp: wp_simps Q split: sum.split intro!: wp_mono[OF route] claimed[unfolded wp_simps])
  then show ?thesis by (cases "admit uuid5 X E sig s") (simp add: wp_def split: sum.splits)
qed

end

section \<open>Invariants of the ledger and the call log\<close>

text \<open>
  \<open>P\<close> looks at the ledger and the log only, is kept by reconciling, by what happens while a call is
  awaited and by every logged call but a cancel, and by the cancel step as a whole.
\<close>

definition drifts :: "(ledger \<Rightarrow> ledger \<Rightarrow> bool) \<Rightarrow> actor_env \<Rightarrow> bool" where
  "drifts W E \<longleftrightarrow> (\<forall>n L. W L (ae_drift E n L))"

locale actor_law =
  fixes P :: "ledger \<Rightarrow> actor_call list \<Rightarrow> bool" and W :: "ledger \<Rightarrow> ledger \<Rightarrow> bool"
  assumes law_note: "P L l \<Longrightarrow> (\<And>i. c \<noteq> ACancel i) \<Longrightarrow> P L (l @ [c])"
    and law_wait: "P L l \<Longrightarrow> W L L' \<Longrightarrow> P L' l"
    and law_settle: "P L l \<Longrightarrow> reconcile L i cf cx now t x f = Inr L' \<Longrightarrow> P L' l"
    and law_cancel_step: "drifts W E \<Longrightarrow> keeps (\<lambda>s. P (ac_book s) (ac_log s)) (cancel_when_due E i ob)"
begin

definition holds :: "actor_state \<Rightarrow> bool" where
  "holds s \<longleftrightarrow> P (ac_book s) (ac_log s)"

lemma store_position_parts [simp]:
  "ac_exec (store_position i p s) = ac_exec s" "ac_log (store_position i p s) = ac_log s"
  by (simp_all add: store_position_def split: option.split)

lemma law_await: "P L l \<Longrightarrow> W L L' \<Longrightarrow> (\<And>i. c \<noteq> ACancel i) \<Longrightarrow> P L' (l @ [c])"
  using law_wait law_note by blast

lemma actor_calls:
  "(\<And>v j. c v \<noteq> ACancel j) \<Longrightarrow> keeps holds (acall c f)"
  "drifts W E \<Longrightarrow> (\<And>v j. d v \<noteq> ACancel j) \<Longrightarrow> keeps holds (await_call E d g)"
  "drifts W E \<Longrightarrow> (\<And>j. k \<noteq> ACancel j) \<Longrightarrow> keeps holds (call_position E i k h p)"
  "keeps holds (episode_now i)"
  by (auto simp: keeps_def holds_def acall_def alog_def await_call_def call_position_def set_book_def episode_now_def
      drifts_def Let_def split: prod.splits intro: law_note law_await)

lemma actor_reconcile: "keeps holds (on_ledger (\<lambda>L. reconcile L i cf cx now t x f))"
  by (auto simp: keeps_def holds_def on_ledger_def set_book_def split: sum.splits intro: law_settle)

lemma actor_frame:
  "(\<And>s. ac_exec (f s) = ac_exec s \<and> ac_log (f s) = ac_log s) \<Longrightarrow> keeps holds (modifyE f)"
  by (auto simp: keeps_def holds_def modifyE_def)

lemmas actor_rules = keeps_bind keeps_then keeps_if keeps_catch keeps_return keeps_raise keeps_raise_if keeps_get
  keeps_lift actor_calls actor_reconcile actor_frame

lemma cancel_holds: "drifts W E \<Longrightarrow> keeps holds (cancel_when_due E i ob)"
  using law_cancel_step by (simp add: holds_def[abs_def])

lemma refresh_parts [simp]: "ac_exec (refresh_owners s) = ac_exec s" "ac_log (refresh_owners s) = ac_log s"
  by (simp_all add: refresh_owners_def Let_def)

lemma service_holds:
  assumes d: "drifts W E"
  shows "keeps holds (service_owned E i)"
proof -
  have save: "keeps holds (save_episode E i)"
    unfolding save_episode_def by (intro actor_rules d) simp
  have claimed: "keeps holds (service_claimed E i)"
    unfolding service_claimed_def stop_requested_def clock_ns_def
    by (auto intro!: actor_rules d save split: option.split)
  have observe: "keeps holds (observe_owned E i)"
    unfolding observe_owned_def clock_ns_def by (intro actor_rules d) simp_all
  have check: "keeps holds (check_observation E i y ob)" for y ob
    unfolding check_observation_def by (auto intro!: actor_rules split: option.split)
  have protect: "keeps holds (reconcile_protect E i ob)" for ob
    unfolding reconcile_protect_def reconcile_owned_def protect_position_def clock_ns_def Let_def
    by (auto intro!: actor_rules d save split: option.split)
  have exits: "keeps holds (exit_when_due E i y ob held)" for y ob held
    unfolding exit_when_due_def exit_call_def stop_requested_def clock_ns_def
    by (auto intro!: actor_rules d split: option.split prod.split)
  have observed: "keeps holds (service_observed E i y b ob)" for y b ob
    unfolding service_observed_def
    by (intro actor_rules check protect cancel_holds d exits) (simp add: forget_mismatch_def)
  have locked: "keeps holds (service_locked E i)"
    unfolding service_locked_def clock_ns_def by (intro actor_rules claimed observe observed) simp_all
  have logs: "keeps holds (modifyE (\<lambda>u. alog c (f u)))"
    if "\<And>s. ac_exec (f s) = ac_exec s \<and> ac_log (f s) = ac_log s" "\<And>j. c \<noteq> ACancel j" for c f
    using that by (auto simp: keeps_def holds_def modifyE_def alog_def intro: law_note)
  have "keeps holds (tolerated E i)"
    unfolding tolerated_def clock_ns_def Let_def by (intro actor_rules logs) simp_all
  then have "keeps holds (service_failed E i e)" for e
    unfolding service_failed_def using logs[of id "AFailed i"]
    by (intro keeps_bind keeps_then keeps_if keeps_return keeps_raise keeps_get) (simp_all add: id_def)
  then show ?thesis
    unfolding service_owned_def by (intro actor_rules locked) simp
qed

lemma service_all_holds: "drifts W E \<Longrightarrow> keeps holds (service_all E ids)"
  by (induction ids) (auto intro: actor_rules service_holds)

lemma restore_holds: "drifts W E \<Longrightarrow> keeps holds (restore_before_serving E)"
  unfolding restore_before_serving_def by (intro actor_rules service_all_holds) simp_all

lemma offer_holds: "keeps holds (offer_intent E ev)"
  unfolding offer_intent_def by (intro actor_rules) simp_all

end

section \<open>A cancel is latched and sent once\<close>

definition keyed :: "ledger \<Rightarrow> bool" where
  "keyed L \<longleftrightarrow> (\<forall>k e. map_of (episodes L) k = Some e \<longrightarrow> ep_id e = k)"

definition cancel_flag :: "string \<Rightarrow> ledger \<Rightarrow> bool" where
  "cancel_flag i L \<longleftrightarrow> (\<exists>e. map_of (episodes L) i = Some e \<and> ep_cancel_requested e)"

definition flag_law :: "string \<Rightarrow> bool \<Rightarrow> ledger \<Rightarrow> bool" where
  "flag_law i b L \<longleftrightarrow> keyed L \<and> (b \<longrightarrow> cancel_flag i L)"

text \<open>What may happen to the ledger while a call is awaited: no cancel request is taken back.\<close>

definition flags_stay :: "ledger \<Rightarrow> ledger \<Rightarrow> bool" where
  "flags_stay L L' \<longleftrightarrow> (keyed L \<longrightarrow> keyed L') \<and> (\<forall>i. cancel_flag i L \<longrightarrow> cancel_flag i L')"

lemma flag_put:
  assumes "flag_law i b L" "map_of (episodes L) j = Some e" "ep_id f = ep_id e"
    "ep_cancel_requested e \<Longrightarrow> ep_cancel_requested f" "episodes L' = AList.update j f (episodes L)"
  shows "flag_law i b L'"
  using assms by (auto simp: flag_law_def keyed_def cancel_flag_def dict_simps)

lemma lookup_Inr: "lookup_episode L i = Inr e \<longleftrightarrow> map_of (episodes L) i = Some e"
  by (simp add: lookup_episode_def split: option.split)

lemma reconciled_flag [simp]: "ep_cancel_requested (reconciled_episode e a b now t x f) = ep_cancel_requested e"
  by (simp add: reconciled_episode_def Let_def split: option.split)

interpretation flags: ledger_law "flag_law i b" for i b
proof (unfold_locales, goal_cases)
  case (1 L j rt now L')
  then obtain e where e: "map_of (episodes L) j = Some e" "L' = put_episode j
      (e\<lparr>ep_route := Some rt, ep_first_submit_ns := Some now, ep_state := Submitting\<rparr>) L"
    by (auto simp: begin_submit_def lookup_Inr split: sum.splits if_splits)
  show ?case by (rule flag_put[OF 1(1) e(1)]) (auto simp: e(2) put_episode_def)
next
  case (2 L j cf cx now t x f L')
  then obtain e a b where e: "map_of (episodes L) j = Some e"
      "L' = reindex j e (reconciled_episode e a b now t x f) L"
    by (auto simp: reconcile_def lookup_Inr split: sum.splits decimal.splits if_splits)
  show ?case
    by (rule flag_put[OF 2(1) e(1)]) (auto simp: e(2) ledger_simps)
next
  case (3 L j now L' due)
  then obtain e where e: "map_of (episodes L) j = Some e" "L' = L \<or>
      L' = put_episode j (e\<lparr>ep_cancel_requested := True, ep_state := CancelRequested\<rparr>) L"
    by (auto simp: cancel_due_def lookup_Inr split: sum.splits if_splits)
  from e(2) show ?case
  proof
    assume "L' = put_episode j (e\<lparr>ep_cancel_requested := True, ep_state := CancelRequested\<rparr>) L"
    then show ?thesis by (intro flag_put[OF 3(1) e(1)]) (auto simp: put_episode_def)
  qed (use 3 in simp)
next
  case (4 L j e)
  then show ?case by (intro flag_put[OF 4(1), of j e]) (auto simp: lookup_Inr force_cancel_def put_episode_def)
qed

definition cancels :: "string \<Rightarrow> actor_call list \<Rightarrow> nat" where
  "cancels i l = length (filter (\<lambda>c. c = ACancel i) l)"

text \<open>Every cancel directly follows the durable save of its latched request.\<close>

definition cancels_latched :: "actor_call list \<Rightarrow> bool" where
  "cancels_latched l \<longleftrightarrow>
     (\<forall>k < length l. \<forall>i. l ! k = ACancel i \<longrightarrow>
        0 < k \<and> (\<exists>r. l ! (k - 1) = ASave i r \<and> r_cancel_requested r))"

lemma cancels_snoc [simp]: "cancels i (l @ [c]) = cancels i l + (if c = ACancel i then 1 else 0)"
  by (simp add: cancels_def)

lemma latched_snoc:
  "cancels_latched (l @ [c]) \<longleftrightarrow> cancels_latched l \<and>
     (\<forall>i. c = ACancel i \<longrightarrow> (\<exists>l' r. l = l' @ [ASave i r] \<and> r_cancel_requested r))"
proof -
  have snoc: "cancels_latched (l @ [c]) \<longleftrightarrow> cancels_latched l \<and>
      (\<forall>i. c = ACancel i \<longrightarrow> 0 < length l \<and> (\<exists>r. l ! (length l - 1) = ASave i r \<and> r_cancel_requested r))"
    by (auto simp: cancels_latched_def nth_append less_Suc_eq)
  have last: "0 < length l \<and> (\<exists>r. l ! (length l - 1) = ASave i r \<and> r_cancel_requested r)
      \<longleftrightarrow> (\<exists>l' r. l = l' @ [ASave i r] \<and> r_cancel_requested r)" for i
    by (cases l rule: rev_cases) (auto simp: nth_append)
  show ?thesis by (simp only: snoc last)
qed

definition cancel_once :: "string \<Rightarrow> bool \<Rightarrow> ledger \<Rightarrow> actor_call list \<Rightarrow> bool" where
  "cancel_once i b L l \<longleftrightarrow> flag_law i (b \<or> 0 < cancels i l) L \<and> cancels i l \<le> (if b then 0 else 1) \<and> cancels_latched l"

lemma flags_stay_law: "flag_law i b L \<Longrightarrow> flags_stay L L' \<Longrightarrow> flag_law i b L'"
  by (auto simp: flag_law_def flags_stay_def)

lemma cancel_once_parts:
  "cancel_once i b L l \<Longrightarrow> flag_law i (b \<or> 0 < cancels i l) L"
  by (simp add: cancel_once_def)

lemma cancel_once_book:
  "cancel_once i b L l \<Longrightarrow> flag_law i (b \<or> 0 < cancels i l) L' \<Longrightarrow> cancel_once i b L' l"
  by (simp add: cancel_once_def)

text \<open>After the latch the request is in the ledger, and no cancel of the episode was sent before.\<close>

definition about_to_cancel :: "string \<Rightarrow> bool \<Rightarrow> string \<Rightarrow> ledger \<Rightarrow> actor_call list \<Rightarrow> bool" where
  "about_to_cancel i b j L l \<longleftrightarrow> cancel_once i b L l \<and> cancel_flag j L \<and> (j = i \<longrightarrow> cancels i l = 0 \<and> \<not> b)"

lemma latch_cases:
  assumes "latch_cancel E j ob s = (r, t)"
  obtains (raised) cs where "isl r" "ac_book t = ac_book s" "ac_log t = ac_log s @ cs" "\<forall>i. ACancel i \<notin> set cs"
  | (quiet) cs where "r = Inr False" "ac_book t = ac_book s" "ac_log t = ac_log s @ cs" "\<forall>i. ACancel i \<notin> set cs"
  | (due) cs e f where "r = Inr True" "map_of (episodes (ac_book s)) j = Some e" "\<not> ep_cancel_requested e"
      "ep_id f = ep_id e" "ep_cancel_requested f" "episodes (ac_book t) = AList.update j f (episodes (ac_book s))"
      "ac_log t = ac_log s @ cs" "\<forall>i. ACancel i \<notin> set cs"
proof -
  let ?v = "ae_stop E (length (ac_log s))"
  show thesis
  proof (cases "map_of (episodes (ac_book s)) j")
    case None
    with assms show thesis
      by (intro raised[of "[AStop ?v]"]) (auto simp: latch_cancel_def stop_requested_def acall_def alog_def episode_now_def
        lookup_episode_def eff_simps Let_def)
  next
    case (Some e)
    show thesis
    proof (cases "?v \<and> \<not> ob_entry_terminal ob \<and> \<not> ep_cancel_requested e")
      case True
      with assms Some show thesis
        by (intro due[of e "e\<lparr>ep_cancel_requested := True, ep_state := CancelRequested\<rparr>" "[AStop ?v]"])
          (auto simp: latch_cancel_def stop_requested_def acall_def alog_def episode_now_def lookup_episode_def
            eff_simps Let_def force_cancel_def set_book_def put_episode_def)
    next
      case False
      let ?n = "ae_clock E (Suc (length (ac_log s)))"
      have "\<exists>L d. cancel_due (ac_book s) j ?n = Inr (L, d)"
        using Some by (auto simp: cancel_due_def lookup_episode_def)
      then obtain L d where c: "cancel_due (ac_book s) j ?n = Inr (L, d)" by blast
      have t: "r = Inr d" "t = set_book L (s\<lparr>ac_log := ac_log s @ [AStop ?v, AClock ?n]\<rparr>)"
        using assms Some False c
        by (auto simp: latch_cancel_def stop_requested_def clock_ns_def acall_def alog_def episode_now_def lookup_episode_def
            eff_simps Let_def)
      show thesis
      proof (cases d)
        case True
        with c Some have "\<not> ep_cancel_requested e"
            "L = put_episode j (e\<lparr>ep_cancel_requested := True, ep_state := CancelRequested\<rparr>) (ac_book s)"
          by (auto simp: cancel_due_def lookup_episode_def split: if_splits)
        with Some t True show thesis
          by (intro due[of e "e\<lparr>ep_cancel_requested := True, ep_state := CancelRequested\<rparr>" "[AStop ?v, AClock ?n]"])
            (auto simp: set_book_def put_episode_def)
      next
        case False
        with c Some have "L = ac_book s" by (auto simp: cancel_due_def lookup_episode_def split: if_splits)
        with t False show thesis by (intro quiet[of "[AStop ?v, AClock ?n]"]) (auto simp: set_book_def)
      qed
    qed
  qed
qed

lemma cancel_once_log:
  "cancel_once i b L l \<Longrightarrow> \<forall>j. ACancel j \<notin> set cs \<Longrightarrow> cancel_once i b L (l @ cs) \<and> cancels i (l @ cs) = cancels i l"
proof (induction cs rule: rev_induct)
  case (snoc c cs)
  then show ?case by (auto simp: cancel_once_def latched_snoc simp flip: append_assoc)
qed simp

lemma latch_wp:
  assumes "cancel_once i b (ac_book s) (ac_log s)"
  shows "wp (latch_cancel E j ob)
    (\<lambda>due t. cancel_once i b (ac_book t) (ac_log t) \<and> (due \<longrightarrow> about_to_cancel i b j (ac_book t) (ac_log t)))
    (\<lambda>_ t. cancel_once i b (ac_book t) (ac_log t)) s"
proof -
  obtain r t where r: "latch_cancel E j ob s = (r, t)" by (cases "latch_cancel E j ob s")
  then show ?thesis
  proof (cases rule: latch_cases)
    case (due cs e f)
    have law: "flag_law i (b \<or> 0 < cancels i (ac_log s)) (ac_book s)" by (rule cancel_once_parts[OF assms])
    have "flag_law i (b \<or> 0 < cancels i (ac_log s)) (ac_book t)"
      by (rule flag_put[OF law due(2,4)]) (use due(5,6) in simp_all)
    with assms have "cancel_once i b (ac_book t) (ac_log s)" by (rule cancel_once_book)
    with cancel_once_log[OF this due(8)] have "cancel_once i b (ac_book t) (ac_log t)"
        "cancels i (ac_log t) = cancels i (ac_log s)" by (simp_all add: due(7))
    moreover have "j = i \<longrightarrow> cancels i (ac_log s) = 0 \<and> \<not> b" "cancel_flag j (ac_book t)"
      using law due by (auto simp: flag_law_def cancel_flag_def dict_simps)
    ultimately show ?thesis using r due(1) by (simp add: wp_def about_to_cancel_def)
  qed (use r assms cancel_once_log[OF assms] in \<open>auto simp: wp_def isl_def\<close>)
qed

lemma about_drift:
  "about_to_cancel i b j L l \<Longrightarrow> flags_stay L L' \<Longrightarrow> about_to_cancel i b j L' l"
  using cancel_once_book flags_stay_law cancel_once_parts
  unfolding about_to_cancel_def flags_stay_def by blast

lemma save_latched_wp:
  assumes "drifts flags_stay E" "about_to_cancel i b j (ac_book s) (ac_log s)"
  shows "wp (save_episode E j)
    (\<lambda>_ t. about_to_cancel i b j (ac_book t) (ac_log t) \<and> (\<exists>l r. ac_log t = l @ [ASave j r] \<and> r_cancel_requested r))
    (\<lambda>_ t. cancel_once i b (ac_book t) (ac_log t)) s"
proof -
  obtain e where e: "map_of (episodes (ac_book s)) j = Some e" "ep_cancel_requested e"
    using assms(2) by (auto simp: about_to_cancel_def cancel_flag_def)
  let ?l = "ac_log s @ [ASave j (row_of e)]"
  have "about_to_cancel i b j (ac_book s) ?l"
    using assms(2) by (auto simp: about_to_cancel_def cancel_once_def latched_snoc)
  with assms(1) have a: "about_to_cancel i b j (ae_drift E n (ac_book s)) ?l" for n
    by (auto simp: drifts_def intro: about_drift)
  moreover have "cancel_once i b (ae_drift E n (ac_book s)) ?l" for n
    using a[of n] by (simp add: about_to_cancel_def)
  ultimately show ?thesis
    using e by (auto simp: wp_def save_episode_def await_call_def episode_now_def lookup_episode_def alog_def set_book_def
        eff_simps Let_def row_of_def split: sum.split)
qed

lemma cancel_now:
  assumes "about_to_cancel i b j L l" "\<exists>l' r. l = l' @ [ASave j r] \<and> r_cancel_requested r"
  shows "cancel_once i b L (l @ [ACancel j])"
proof -
  from assms(1) have "cancel_once i b L l" "cancel_flag j L" "j = i \<longrightarrow> cancels i l = 0 \<and> \<not> b"
    by (simp_all add: about_to_cancel_def)
  then show ?thesis
    using assms(2) unfolding cancel_once_def cancels_snoc latched_snoc
    by (cases "j = i") (simp_all add: flag_law_def)
qed

lemma cancel_step_once:
  assumes "drifts flags_stay E"
  shows "keeps (\<lambda>s. cancel_once i b (ac_book s) (ac_log s)) (cancel_when_due E j ob)"
proof (rule keeps_wp)
  fix s assume "cancel_once i b (ac_book s) (ac_log s)"
  then show "wp (cancel_when_due E j ob) (\<lambda>_ t. cancel_once i b (ac_book t) (ac_log t))
      (\<lambda>_ t. cancel_once i b (ac_book t) (ac_log t)) s"
    unfolding cancel_when_due_def
  proof (rule wp_bindI[OF latch_wp], elim conjE)
    fix due t
    assume t: "cancel_once i b (ac_book t) (ac_log t)" "due \<longrightarrow> about_to_cancel i b j (ac_book t) (ac_log t)"
    show "wp (if due then thenE (save_episode E j) (await_call E (\<lambda>_. ACancel j) (ae_cancel E)) else returnE ())
        (\<lambda>_ t. cancel_once i b (ac_book t) (ac_log t)) (\<lambda>_ t. cancel_once i b (ac_book t) (ac_log t)) t"
    proof (cases due)
      case True
      with t(2) have "about_to_cancel i b j (ac_book t) (ac_log t)" by simp
      then show ?thesis
        unfolding if_P[OF True]
      proof (rule wp_thenI[OF save_latched_wp[OF assms]], elim conjE exE)
        fix u l r
        assume u: "about_to_cancel i b j (ac_book u) (ac_log u)" "ac_log u = l @ [ASave j r]" "r_cancel_requested r"
        have "cancel_once i b L (ac_log u @ [ACancel j])" if "flags_stay (ac_book u) L" for L
          by (rule cancel_now[OF about_drift[OF u(1) that]]) (use u(2,3) in blast)
        then show "wp (await_call E (\<lambda>_. ACancel j) (ae_cancel E)) (\<lambda>_ t. cancel_once i b (ac_book t) (ac_log t))
            (\<lambda>_ t. cancel_once i b (ac_book t) (ac_log t)) u"
          using assms by (auto simp: wp_def await_call_def alog_def set_book_def Let_def drifts_def split: sum.split)
      qed
    qed (use t in \<open>simp add: wp_simps\<close>)
  qed
qed

interpretation once: actor_law "cancel_once i b" flags_stay for i b
proof (unfold_locales, goal_cases)
  case (1 L l c)
  then show ?case by (auto simp: cancel_once_def latched_snoc)
next
  case (2 L l L')
  then show ?case using cancel_once_book flags_stay_law cancel_once_parts by blast
next
  case (3 L l j cf cx now t x f L')
  then show ?case using cancel_once_book flags.law_reconcile cancel_once_parts by blast
next
  case (4 E j ob)
  then show ?case by (rule cancel_step_once)
qed

section \<open>Steps of the actor\<close>

lemma offer_work_parts [simp]: "ac_exec (offer_work i s) = ac_exec s" "ac_log (offer_work i s) = ac_log s"
  by (simp_all add: offer_work_def set_work_def)

lemma cadence_parts [simp]: "ac_exec (cadence ids s) = ac_exec s" "ac_log (cadence ids s) = ac_log s"
  unfolding cadence_def by (induction ids arbitrary: s) simp_all

lemma open_event_parts:
  assumes "open_event uuid5 X XE ev s = (r, t)"
  shows "ac_log t = ac_log s
    \<and> (ac_exec t = ac_exec s \<or> (\<exists>sig. ie_signal ev = Inr sig \<and> ac_exec t = snd (admit uuid5 X XE sig (ac_exec s))))"
  using assms unfolding open_event_def
  by (auto simp: eff_simps liftE_def once.refresh_parts split: sum.splits prod.splits if_splits)

lemma owner_event_parts:
  "owner_event ev s = (r, t) \<Longrightarrow> ac_log t = ac_log s \<and> ac_exec t = ac_exec s"
  unfolding owner_event_def by (auto simp: eff_simps split: option.splits sum.splits prod.splits if_splits)

lemma handle_event_parts:
  assumes "handle_event uuid5 X XE E ev s = (r, t)"
  shows "(ac_log t = ac_log s \<or> ac_log t = ac_log s @ [AEnabled])
    \<and> (ac_exec t = ac_exec s \<or> (\<exists>sig. ie_signal ev = Inr sig \<and> ac_exec t = snd (admit uuid5 X XE sig (ac_exec s))))"
proof -
  let ?body = "if ie_type ev = ''open''
    then bindE (acall (\<lambda>_. AEnabled) (ae_enabled E)) (\<lambda>on. if on then open_event uuid5 X XE ev else returnE ())
    else owner_event ev"
  obtain r1 u where b: "?body s = (r1, u)" by (cases "?body s")
  have u: "(ac_log u = ac_log s \<or> ac_log u = ac_log s @ [AEnabled])
    \<and> (ac_exec u = ac_exec s \<or> (\<exists>sig. ie_signal ev = Inr sig \<and> ac_exec u = snd (admit uuid5 X XE sig (ac_exec s))))"
    using b open_event_parts[of uuid5 X XE ev "alog AEnabled s" r1 u] owner_event_parts[of ev s r1 u]
    by (auto simp: acall_def alog_def eff_simps Let_def split: if_splits)
  have "ac_log t = ac_log u \<and> ac_exec t = ac_exec u"
    using assms b unfolding handle_event_def catchE_def
    by (auto simp: eff_simps once.refresh_parts split: sum.splits prod.splits if_splits)
  with u show ?thesis by simp
qed

lemma claim_flags:
  assumes law: "flag_law i b L" and c: "claim uuid5 L sig now foreign = Inr (L', j, fresh)"
    and new: "map_of (sources L) (sig_source_key sig) \<noteq> None \<or> map_of (episodes L) (uuid5 (identity_text sig)) = None"
  shows "flag_law i b L'"
proof (cases "map_of (sources L) (sig_source_key sig)")
  case (Some k)
  with law c show ?thesis by (auto simp: claim_def split: sum.splits if_splits)
next
  case None
  with c obtain active where
    act: "map_result (lookup_episode L) (sorted_list_of_set (active_ids L (sig_symbol sig))) = Inr active"
    and co: "claim_owned uuid5 L sig now active = Inr (L', j, fresh)"
    by (auto simp: claim_def split: sum.splits if_splits option.splits)
  have keyed: "map_of (episodes L) (ep_id e) = Some e" if "map_of (episodes L) k = Some e" for k e
    using law that by (auto simp: flag_law_def keyed_def)
  have mem: "map_of (episodes L) (ep_id e) = Some e" if "e \<in> set active" for e
    using list_all2_right[OF map_result_InrD[OF act] that] keyed by (auto simp: lookup_Inr)
  let ?ov = "filter (\<lambda>e. ep_date e = sig_session_date sig \<and> overlaps sig e) active"
  let ?recent = "case map_of (latest L) (sig_key sig) of None \<Rightarrow> None | Some i \<Rightarrow> map_of (episodes L) i"
  let ?prior = "if ?ov \<noteq> [] then Some (hd ?ov) else ?recent"
  have prior: "map_of (episodes L) (ep_id p) = Some p" if pr: "?prior = Some p" for p
  proof (cases "?ov = []")
    case False
    then have "p \<in> set ?ov" using pr by (metis hd_in_set option.inject)
    then show ?thesis using mem by auto
  qed (use pr keyed in \<open>auto split: option.splits\<close>)
  have "(\<exists>p. ?prior = Some p \<and> episodes L' = AList.update (ep_id p) (merge_signal sig p) (episodes L))
      \<or> episodes L' = AList.update (uuid5 (identity_text sig)) (new_episode (uuid5 (identity_text sig)) sig) (episodes L)"
    using co unfolding claim_owned_def admit_new_def put_episode_def insert_active_def
    by (auto simp: Let_def split: if_splits option.splits)
  then show ?thesis
  proof (elim disjE exE conjE)
    fix p assume "?prior = Some p" "episodes L' = AList.update (ep_id p) (merge_signal sig p) (episodes L)"
    then show ?thesis
      by (intro flag_put[OF law prior]) (simp_all add: merge_signal_def)
  next
    assume "episodes L' = AList.update (uuid5 (identity_text sig)) (new_episode (uuid5 (identity_text sig)) sig) (episodes L)"
    then show ?thesis
      using law new None by (auto simp: flag_law_def keyed_def cancel_flag_def dict_simps new_episode_def)
  qed
qed

lemma entry_law:
  assumes law: "cancel_once i b (ac_book s) (ac_log s)" and "name_fresh uuid5 s" "next_event uuid5 X XE E s = (r, t)"
  shows "cancel_once i b (ac_book t) (ac_log t)"
proof (cases "ac_inbox s")
  case Nil
  with assms(1,3) show ?thesis by (simp add: next_event_def)
next
  case (Cons ev evs)
  let ?Q = "flag_law i (b \<or> 0 < cancels i (ac_log s))"
  have "handle_event uuid5 X XE E ev (s\<lparr>ac_inbox := evs\<rparr>) = (r, t)" using assms(3) Cons by (simp add: next_event_def)
  from handle_event_parts[OF this] have t: "ac_log t = ac_log s \<or> ac_log t = ac_log s @ [AEnabled]"
    "ac_exec t = ac_exec s \<or> (\<exists>sig. ie_signal ev = Inr sig \<and> ac_exec t = snd (admit uuid5 X XE sig (ac_exec s)))"
    by simp_all
  have "?Q (ac_book t)"
    using t(2)
  proof (elim disjE exE conjE)
    fix sig assume sig: "ie_signal ev = Inr sig" "ac_exec t = snd (admit uuid5 X XE sig (ac_exec s))"
    then have "map_of (sources (ac_book s)) (sig_source_key sig) \<noteq> None
        \<or> map_of (episodes (ac_book s)) (uuid5 (identity_text sig)) = None"
      using assms(2) Cons by (simp add: name_fresh_def)
    then show ?thesis
      unfolding sig(2)
      by (intro flags.admit_law cancel_once_parts[OF law]) (rule claim_flags[OF cancel_once_parts[OF law]])
  qed (use cancel_once_parts[OF law] in simp)
  with law have "cancel_once i b (ac_book t) (ac_log s)" by (rule cancel_once_book)
  with t(1) once.law_note[of i b "ac_book t" "ac_log s" AEnabled] show ?thesis by auto
qed

lemma actor_step_once:
  assumes "actor_step uuid5 (drifts flags_stay) s l t" "cancel_once i b (ac_book s) (ac_log s)"
  shows "cancel_once i b (ac_book t) (ac_log t)"
  using assms(1)
proof (cases rule: actor_step.cases)
  case (as_offer E ev b')
  with once.offer_holds[of i b E ev] assms(2) show ?thesis by (auto simp: keeps_def once.holds_def dest: spec[of _ s])
next
  case as_entry
  with entry_law[OF assms(2)] show ?thesis by blast
next
  case (as_serve E j r)
  with once.service_holds[OF as_serve(2), of i b j] assms(2) show ?thesis by (auto simp: keeps_def once.holds_def dest: spec[of _ s])
next
  case (as_restore E r)
  with once.restore_holds[OF as_restore(2), of i b] assms(2) show ?thesis by (auto simp: keeps_def once.holds_def dest: spec[of _ s])
qed (use assms(2) in \<open>simp_all add: set_work_def close_actor_def\<close>)

lemma actor_run_once:
  "run (actor_step uuid5 (drifts flags_stay)) s ls t \<Longrightarrow> cancel_once i b (ac_book s) (ac_log s) \<Longrightarrow>
   cancel_once i b (ac_book t) (ac_log t)"
  by (induction rule: run.induct) (blast intro: actor_step_once)+


section \<open>Exits rest on evidence\<close>

definition seen :: "string \<Rightarrow> owned_observation \<Rightarrow> actor_call list \<Rightarrow> bool" where
  "seen i ob l \<longleftrightarrow> (\<exists>ob0. AObserve i (Inr ob0) \<in> set l \<and> ob_quantity ob0 = ob_quantity ob
     \<and> ob_entry_terminal ob0 = ob_entry_terminal ob)"

text \<open>
  An exit of a position for a reason: the position is the strategy's, of an episode whose own-order
  observation reported its quantity, and either a STOP was just confirmed and the entry is terminal,
  or no STOP, the quote of its symbol and the clock were just read and \<open>exit_reason\<close> gives the reason.
\<close>

definition exit_evidence :: "actor_call list \<Rightarrow> owned_position \<Rightarrow> string \<Rightarrow> bool" where
  "exit_evidence l p why \<longleftrightarrow>
     op_strategy p = STRATEGY_CODE
     \<and> (\<exists>ob. AObserve (op_episode_id p) (Inr ob) \<in> set l \<and> ob_quantity ob = op_quantity p
          \<and> (why = ''KILLSW1_STOP'' \<and> ob_entry_terminal ob \<and> (\<exists>l'. l = l' @ [AStop True])
             \<or> (\<exists>l' b q now. l = l' @ [AStop False, AQuote (op_symbol p) b q, AClock now]
                  \<and> exit_reason p b q now = Some why)))"

definition exits_ok :: "actor_call list \<Rightarrow> bool" where
  "exits_ok l \<longleftrightarrow> (\<forall>k < length l. \<forall>p why. l ! k = AExit p why \<longrightarrow> exit_evidence (take k l) p why)"

lemma exits_snoc:
  "exits_ok (l @ [c]) \<longleftrightarrow> exits_ok l \<and> (\<forall>p why. c = AExit p why \<longrightarrow> exit_evidence l p why)"
  by (auto simp: exits_ok_def nth_append less_Suc_eq)

text \<open>The broker side never changes whose position it is, nor its quantity.\<close>

definition same_owned :: "owned_position \<Rightarrow> owned_position \<Rightarrow> bool" where
  "same_owned p q \<longleftrightarrow> op_episode_id q = op_episode_id p \<and> op_symbol q = op_symbol p
     \<and> op_strategy q = op_strategy p \<and> op_quantity q = op_quantity p"

definition protects :: "actor_env \<Rightarrow> bool" where
  "protects E \<longleftrightarrow> (\<forall>n p. same_owned p (snd (ae_protect E n p)))"

definition exit_inv :: "actor_state \<Rightarrow> bool" where
  "exit_inv s \<longleftrightarrow> exits_ok (ac_log s)
     \<and> (\<forall>i t ob. map_of (ac_observations s) i = Some (t, ob) \<longrightarrow> seen i ob (ac_log s))"

definition watched :: "(string \<times> owned_observation) option \<Rightarrow> actor_state \<Rightarrow> bool" where
  "watched w s \<longleftrightarrow> exit_inv s \<and> (\<forall>i ob. w = Some (i, ob) \<longrightarrow> seen i ob (ac_log s))"

definition held_ok :: "string \<Rightarrow> string \<Rightarrow> owned_observation \<Rightarrow> owned_position option \<Rightarrow> bool" where
  "held_ok i y ob held \<longleftrightarrow> (\<forall>p. held = Some p \<longrightarrow> op_episode_id p = i \<and> op_symbol p = y
     \<and> op_strategy p = STRATEGY_CODE \<and> op_quantity p = ob_quantity ob)"

lemma seen_mono: "seen i ob l \<Longrightarrow> seen i ob (l @ [c])"
  by (auto simp: seen_def)

lemma exit_inv_log: "exit_inv s \<Longrightarrow> (\<And>p why. c \<noteq> AExit p why) \<Longrightarrow> exit_inv (alog c s)"
  by (auto simp: exit_inv_def alog_def exits_snoc intro: seen_mono)

lemma exit_inv_frame:
  "exit_inv s \<Longrightarrow> ac_log t = ac_log s \<Longrightarrow> (\<And>i x. map_of (ac_observations t) i = Some x \<Longrightarrow> map_of (ac_observations s) i = Some x)
   \<Longrightarrow> exit_inv t"
  by (auto simp: exit_inv_def)

lemma exit_inv_store: "exit_inv s \<Longrightarrow> exit_inv (store_position i p s)"
  unfolding store_position_def
  by (auto simp: exit_inv_def seen_def dict_simps split: option.split)

lemma watched_log: "watched w s \<Longrightarrow> (\<And>p why. c \<noteq> AExit p why) \<Longrightarrow> watched w (alog c s)"
  using exit_inv_log[of s c] by (auto simp: watched_def alog_def intro: seen_mono)

lemma watched_book [simp]: "watched w (set_book L s) = watched w s"
  by (simp add: watched_def exit_inv_def set_book_def)

lemma watched_store: "watched w s \<Longrightarrow> watched w (store_position j p s)"
  using exit_inv_store by (auto simp: watched_def once.store_position_parts)

lemma watched_frame:
  "watched w s \<Longrightarrow> ac_log t = ac_log s \<Longrightarrow> ac_observations t = ac_observations s \<Longrightarrow> watched w t"
  by (auto simp: watched_def exit_inv_def)

lemma map_of_restrict: "map_of (filter (\<lambda>p. fst p \<in> A) d) i = (if i \<in> A then map_of d i else None)"
  by (induction d) auto

lemma watched_refresh:
  assumes "watched w s"
  shows "watched w (refresh_owners s)"
proof -
  have obs: "map_of (ac_observations (refresh_owners s)) i =
      (if i \<in> active_owners (ac_book s) then map_of (ac_observations s) i else None)" for i
    by (simp add: refresh_owners_def Let_def map_of_restrict)
  have "exit_inv (refresh_owners s)"
  proof (rule exit_inv_frame)
    show "exit_inv s" using assms by (simp add: watched_def)
  qed (simp_all add: obs once.refresh_parts split: if_splits)
  with assms show ?thesis by (simp add: watched_def once.refresh_parts)
qed

lemma watched_position:
  assumes "\<And>p why. k \<noteq> AExit p why"
  shows "keeps (watched w) (call_position E i k h p)"
proof (rule keepsI)
  fix s assume "watched w s"
  then have "watched w (alog k s)" by (rule watched_log[OF _ assms])
  then show "watched w (snd (call_position E i k h p s))"
    by (auto simp: call_position_def split: prod.split intro: watched_store)
qed

lemma watched_calls:
  "(\<And>v p why. c v \<noteq> AExit p why) \<Longrightarrow> keeps (watched w) (acall c f)"
  "(\<And>v p why. d v \<noteq> AExit p why) \<Longrightarrow> keeps (watched w) (await_call E d g)"
  "keeps (watched w) (episode_now i)"
  "keeps (watched w) (on_ledger f')"
  by (auto simp: keeps_def acall_def await_call_def episode_now_def on_ledger_def Let_def
      split: prod.splits sum.splits intro!: watched_log)

lemma watched_modify:
  "(\<And>s. ac_log (f s) = ac_log s \<and> ac_observations (f s) = ac_observations s) \<Longrightarrow> keeps (watched w) (modifyE f)"
  "keeps (watched w) (modifyE refresh_owners)" "keeps (watched w) (modifyE (store_position i p))"
  by (auto simp: keeps_def modifyE_def intro: watched_frame watched_refresh watched_store)

lemmas watch_rules = keeps_bind keeps_then keeps_if keeps_catch keeps_return keeps_raise keeps_raise_if keeps_get
  keeps_lift watched_calls watched_position watched_modify

lemma save_watched: "keeps (watched w) (save_episode E i)"
  unfolding save_episode_def by (intro watch_rules) simp

lemma claimed_watched: "keeps (watched w) (service_claimed E i)"
  unfolding service_claimed_def stop_requested_def clock_ns_def
  by (auto intro!: watch_rules save_watched split: option.split)

lemma check_watched: "keeps (watched w) (check_observation E i y ob)"
  unfolding check_observation_def by (auto intro!: watch_rules split: option.split)

lemma protect_watched: "keeps (watched w) (reconcile_protect E i ob)"
  unfolding reconcile_protect_def reconcile_owned_def protect_position_def clock_ns_def Let_def
  by (auto intro!: watch_rules save_watched split: option.split)

lemma cancel_watched: "keeps (watched w) (cancel_when_due E i ob)"
proof -
  have "keeps (watched w) (latch_cancel E i ob)"
  proof (rule keepsI)
    fix s assume "watched w s"
    then show "watched w (snd (latch_cancel E i ob s))"
      by (auto simp: latch_cancel_def stop_requested_def clock_ns_def acall_def episode_now_def eff_simps Let_def
          split: sum.split prod.split intro!: watched_log)
  qed
  then show ?thesis
    unfolding cancel_when_due_def by (intro watch_rules save_watched) simp_all
qed

lemma tolerated_watched: "keeps (watched w) (tolerated E i)"
proof -
  have "keeps (watched w) (modifyE (\<lambda>u. alog (AQuiet i stamp) (if c u then f u else u)))"
    if "\<And>s. ac_log (f s) = ac_log s \<and> ac_observations (f s) = ac_observations s" for stamp c f
    using that by (auto simp: keeps_def modifyE_def intro!: watched_log intro: watched_frame)
  then show ?thesis
    unfolding tolerated_def clock_ns_def Let_def
    by (intro keeps_bind keeps_then keeps_if keeps_return keeps_get watched_calls) (auto intro!: watched_modify)
qed

text \<open>What a service holds in its hand after the check, the protection and the read of the evidence.\<close>

lemma check_wp:
  assumes "watched (Some (i, ob)) s"
  shows "wp (check_observation E i y ob) (\<lambda>_ t. watched (Some (i, ob)) t \<and> held_ok i y ob (ob_position ob))
    (\<lambda>_. watched (Some (i, ob))) s"
proof -
  have "wp (check_observation E i y ob) (\<lambda>_ _. held_ok i y ob (ob_position ob)) (\<lambda>_ _. True) s"
    by (auto simp: check_observation_def wp_simps held_ok_def split: option.split)
  from wp_conj[OF wp_keeps[OF check_watched assms] this] show ?thesis by simp
qed

lemma protect_held:
  assumes "protects E" "held_ok i y ob (ob_position ob)"
  shows "wp (reconcile_protect E i ob) (\<lambda>held _. held_ok i y ob held) (\<lambda>_ _. True) s"
proof -
  have p: "wp (protect_position E i p) (\<lambda>q _. same_owned p q) (\<lambda>_ _. True) s" for p s
  proof -
    have "same_owned p q" if "ae_protect E n (p\<lparr>op_first_fill_ns := a, op_entry_send_ns := b\<rparr>) = (r, q)" for n a b r q
      using assms(1)[unfolded protects_def, rule_format, of "p\<lparr>op_first_fill_ns := a, op_entry_send_ns := b\<rparr>" n] that
      by (simp add: same_owned_def)
    then show ?thesis
      by (auto simp: protect_position_def episode_now_def call_position_def clock_ns_def acall_def wp_def eff_simps Let_def
          split: sum.splits prod.splits option.splits if_splits)
  qed
  show ?thesis
    unfolding reconcile_protect_def
    by (rule wp_thenI[OF wp_top])
      (use assms(2) in \<open>auto simp: held_ok_def same_owned_def wp_simps intro!: wp_mono[OF p] split: option.split\<close>)
qed

lemma wp_acall: "wp (acall c f) Q R s = Q (f (length (ac_log s))) (alog (c (f (length (ac_log s)))) s)"
  by (simp add: wp_def acall_def Let_def)

lemma wp_episode_now:
  "wp (episode_now i) Q R s = (case lookup_episode (ac_book s) i of Inl e \<Rightarrow> R e s | Inr e \<Rightarrow> Q e s)"
  by (simp add: wp_def episode_now_def)

lemma exit_call_wp:
  assumes "exit_inv s" "exit_evidence (ac_log s) p why"
  shows "wp (exit_call E i p why) (\<lambda>_. exit_inv) (\<lambda>_. exit_inv) s"
proof -
  have "exit_inv (alog (AExit p why) s)"
    using assms by (auto simp: exit_inv_def alog_def exits_snoc intro: seen_mono)
  then have "exit_inv (store_position i q (set_book L (alog (AExit p why) s)))" for q L
    by (intro exit_inv_store) (simp add: exit_inv_def set_book_def)
  then show ?thesis
    by (auto simp: exit_call_def wp_def call_position_def eff_simps split: prod.split sum.split)
qed

lemma alog_log [simp]: "ac_log (alog c s) = ac_log s @ [c]" by (simp add: alog_def)

lemma exit_wp:
  assumes w: "watched (Some (i, ob)) s" and h: "held_ok i y ob held"
  shows "wp (exit_when_due E i y ob held) (\<lambda>_. exit_inv) (\<lambda>_. exit_inv) s"
proof -
  have refresh: "exit_inv (refresh_owners t)" if "exit_inv t" for t
    using watched_refresh[of None t] that by (simp add: watched_def)
  have quiet: "exit_inv t" if "watched (Some (i, ob)) t" for t using that by (simp add: watched_def)
  have exits: "wp (case held of
              None \<Rightarrow> returnE ()
            | Some p \<Rightarrow>
                if ep_remaining e \<le> 0 then returnE ()
                else bindE (stop_requested E) (\<lambda>stop.
                  if stop then (if ob_entry_terminal ob then exit_call E i p ''KILLSW1_STOP'' else returnE ())
                  else bindE (acall (\<lambda>(b, q). AQuote y b q) (ae_quote E)) (\<lambda>(bid, quote_ns).
                       bindE (clock_ns E) (\<lambda>now.
                       case exit_reason p bid quote_ns now of
                         None \<Rightarrow> returnE ()
                       | Some why \<Rightarrow> exit_call E i p why))))
      (\<lambda>_. exit_inv) (\<lambda>_. exit_inv) s" for e
  proof (cases held)
    case (Some p)
    with h have p: "op_episode_id p = i" "op_symbol p = y" "op_strategy p = STRATEGY_CODE" "op_quantity p = ob_quantity ob"
      by (simp_all add: held_ok_def)
    let ?n = "length (ac_log s)"
    let ?s1 = "alog (AStop (ae_stop E ?n)) s"
    have w1: "watched (Some (i, ob)) ?s1" using w by (rule watched_log) simp
    obtain b q where bq: "ae_quote E (Suc ?n) = (b, q)" by (cases "ae_quote E (Suc ?n)")
    let ?s2 = "alog (AClock (ae_clock E (Suc (Suc ?n)))) (alog (AQuote y b q) ?s1)"
    have w2: "watched (Some (i, ob)) ?s2" by (intro watched_log w1) simp_all
    have stop: "exit_evidence (ac_log ?s1) p ''KILLSW1_STOP''" if "ae_stop E ?n" "ob_entry_terminal ob"
      using w1 that p by (auto simp: exit_evidence_def watched_def seen_def)
    have quote: "exit_evidence (ac_log ?s2) p why"
      if "\<not> ae_stop E ?n" "exit_reason p b q (ae_clock E (Suc (Suc ?n))) = Some why" for why
      using w2 that p by (auto simp: exit_evidence_def watched_def seen_def)
    show ?thesis
      using Some bq quiet[OF w] quiet[OF w1] quiet[OF w2] exit_call_wp[OF quiet[OF w1] stop]
        exit_call_wp[OF quiet[OF w2] quote]
      by (auto simp: wp_simps wp_acall stop_requested_def clock_ns_def split: option.split)
  qed (use quiet[OF w] in \<open>simp add: wp_simps\<close>)
  show ?thesis
    unfolding exit_when_due_def wp_bind[of "episode_now i"] wp_episode_now wp_then wp_modify
    by (auto split: sum.split intro!: wp_mono[OF exits] refresh quiet[OF w])
qed

lemma watched_None [simp]: "watched None = exit_inv"
  by (rule ext) (simp add: watched_def)

lemma watched_exit: "watched w s \<Longrightarrow> exit_inv s"
  by (simp add: watched_def)

lemma observed_wp:
  assumes p: "protects E" and w: "watched (Some (i, ob)) s"
  shows "wp (service_observed E i y b ob) (\<lambda>_. exit_inv) (\<lambda>_. exit_inv) s"
  unfolding service_observed_def
proof (rule wp_thenI[OF wp_mono[OF check_wp[OF w]]])
  fix u :: unit and t assume t: "watched (Some (i, ob)) t \<and> held_ok i y ob (ob_position ob)"
  have f: "watched (Some (i, ob)) (forget_mismatch i t)"
    using t by (auto simp: forget_mismatch_def intro: watched_frame[of _ t "t\<lparr>ac_since := AList.delete i (ac_since t), ac_states := AList.delete i (ac_states t)\<rparr>"])
  have held: "wp (if b then reconcile_protect E i ob else returnE (ob_position ob))
      (\<lambda>held u. watched (Some (i, ob)) u \<and> held_ok i y ob held) (\<lambda>_. exit_inv) (forget_mismatch i t)"
  proof (cases b)
    case True
    have "wp (reconcile_protect E i ob) (\<lambda>held u. watched (Some (i, ob)) u \<and> held_ok i y ob held)
        (\<lambda>_ u. watched (Some (i, ob)) u \<and> True) (forget_mismatch i t)"
      by (rule wp_conj[OF wp_keeps[OF protect_watched f] protect_held[OF p]]) (use t in simp)
    then show ?thesis unfolding if_P[OF True] by (rule wp_mono) (auto dest: watched_exit)
  next
    case False
    with t f show ?thesis by (simp add: wp_simps)
  qed
  have rest: "wp (thenE (cancel_when_due E i ob) (exit_when_due E i y ob held)) (\<lambda>_. exit_inv) (\<lambda>_. exit_inv) u"
    if "watched (Some (i, ob)) u \<and> held_ok i y ob held" for held u
  proof (rule wp_thenI[OF wp_mono[OF wp_keeps[OF cancel_watched[of "Some (i, ob)"]]]])
    show "wp (exit_when_due E i y ob held) (\<lambda>_. exit_inv) (\<lambda>_. exit_inv) v" if "watched (Some (i, ob)) v" for v
      using exit_wp[OF that] \<open>watched (Some (i, ob)) u \<and> held_ok i y ob held\<close> by blast
  qed (use that in \<open>auto dest: watched_exit\<close>)
  show "wp (thenE (modifyE (forget_mismatch i)) (bindE (if b then reconcile_protect E i ob else returnE (ob_position ob))
      (\<lambda>held. thenE (cancel_when_due E i ob) (exit_when_due E i y ob held)))) (\<lambda>_. exit_inv) (\<lambda>_. exit_inv) t"
    unfolding wp_then[of "modifyE _"] wp_modify by (rule wp_bindI[OF held rest])
qed (use watched_exit in blast)

lemma wp_await: "wp (await_call E c f) Q R s =
   (let n = length (ac_log s); t = set_book (ae_drift E n (ac_book s)) (alog (c (f n)) s)
    in case f n of Inl e \<Rightarrow> R e t | Inr a \<Rightarrow> Q a t)"
  by (simp add: wp_def await_call_def Let_def)

lemma observe_wp:
  assumes "exit_inv s"
  shows "wp (observe_owned E i) (\<lambda>ob. watched (Some (i, ob))) (\<lambda>_. exit_inv) s"
proof -
  have "wp (bindE (clock_ns E) (\<lambda>now. thenE (modifyE (\<lambda>s. s\<lparr>ac_observations := AList.update i (now, ob) (ac_observations s)\<rparr>))
      (returnE ob))) (\<lambda>ob. watched (Some (i, ob))) (\<lambda>_. exit_inv) t" if "watched (Some (i, ob)) t" for ob t
    using watched_log[OF that, of "AClock (ae_clock E (length (ac_log t)))"]
    by (auto simp: wp_simps clock_ns_def wp_acall watched_def exit_inv_def dict_simps)
  moreover have "watched (Some (i, ob)) (set_book L (alog (AObserve i (Inr ob)) s))" for ob L
    using exit_inv_log[OF assms, of "AObserve i (Inr ob)"]
    by (auto simp: watched_def seen_def exit_inv_def set_book_def)
  moreover have "exit_inv (set_book L (alog (AObserve i r) s))" for r L
    using exit_inv_log[OF assms, of "AObserve i r"] by (simp add: exit_inv_def set_book_def)
  ultimately show ?thesis
    unfolding observe_owned_def wp_bind[of "await_call _ _ _"] wp_await Let_def by (simp split: sum.split)
qed

lemma service_exit_inv:
  assumes p: "protects E"
  shows "keeps exit_inv (service_owned E i)"
proof -
  have locked: "keeps exit_inv (service_locked E i)"
  proof (rule keeps_wp)
    fix s assume s: "exit_inv s"
    let ?now = "ae_clock E (length (ac_log s))"
    let ?t = "(alog (AClock ?now) s)\<lparr>ac_now := Some ?now\<rparr>"
    have t: "exit_inv ?t" using exit_inv_log[OF s, of "AClock ?now"] by (simp add: exit_inv_def)
    have cached: "wp (service_observed E i y False ob) (\<lambda>_. exit_inv) (\<lambda>_. exit_inv) ?t"
      if "map_of (ac_observations s) i = Some (at0, ob)" for at0 ob y
      by (rule observed_wp[OF p]) (use t that in \<open>auto simp: watched_def exit_inv_def alog_def\<close>)
    have fresh: "wp (bindE (observe_owned E i) (service_observed E i y True)) (\<lambda>_. exit_inv) (\<lambda>_. exit_inv) ?t" for y
      by (rule wp_bindI[OF observe_wp[OF t] observed_wp[OF p]])
    have claimed: "wp (service_claimed E i) (\<lambda>_. exit_inv) (\<lambda>_. exit_inv) s"
      using wp_keeps[OF claimed_watched[of None]] s by simp
    have obs: "ac_observations ?t = ac_observations s" by (simp add: alog_def)
    show "wp (service_locked E i) (\<lambda>_. exit_inv) (\<lambda>_. exit_inv) s"
      unfolding service_locked_def clock_ns_def wp_bind[of "episode_now i"] wp_episode_now wp_if
        wp_bind[of "acall _ _"] wp_acall wp_then[of "modifyE _"] wp_modify wp_bind[of "getE _"] wp_get obs wp_return
      using s claimed cached fresh
      by (auto simp: cached_fresh_def split: sum.split option.split)
  qed
  have failed: "keeps exit_inv (modifyE (alog (AFailed i)))"
    by (auto simp: keeps_def modifyE_def intro: exit_inv_log)
  have "keeps exit_inv (tolerated E i)" using tolerated_watched[of None] by simp
  then have "keeps exit_inv (service_failed E i e)" for e
    unfolding service_failed_def by (intro keeps_bind keeps_then keeps_if keeps_return keeps_raise keeps_get failed)
  moreover have "keeps exit_inv (modifyE (\<lambda>s. s\<lparr>ac_transient := False, ac_now := None\<rparr>))"
    by (auto simp: keeps_def modifyE_def exit_inv_def)
  ultimately show ?thesis
    unfolding service_owned_def by (intro keeps_then keeps_catch locked)
qed


lemma exit_rules:
  "(\<And>v p why. c v \<noteq> AExit p why) \<Longrightarrow> keeps exit_inv (acall c f)"
  "(\<And>s. ac_log (g s) = ac_log s \<and> ac_observations (g s) = ac_observations s) \<Longrightarrow> keeps exit_inv (modifyE g)"
  "keeps exit_inv (modifyE refresh_owners)"
  using watched_calls(1)[of c None f] watched_modify(1)[of g None] watched_modify(2)[of None] by simp_all

lemma restore_exit_inv:
  assumes "protects E"
  shows "keeps exit_inv (restore_before_serving E)"
proof -
  have "keeps exit_inv (service_all E ids)" for ids
    by (induction ids) (auto intro: keeps_return keeps_then service_exit_inv[OF assms])
  then show ?thesis
    unfolding restore_before_serving_def
    by (intro keeps_bind keeps_then keeps_get keeps_raise_if exit_rules) simp_all
qed

lemma offer_exit_inv: "keeps exit_inv (offer_intent E ev)"
  unfolding offer_intent_def by (intro keeps_bind keeps_then keeps_if keeps_return keeps_get exit_rules) simp_all

lemma offer_work_frame: "ac_log (offer_work i s) = ac_log s \<and> ac_observations (offer_work i s) = ac_observations s"
  by (simp add: offer_work_def set_work_def)

lemma next_event_exit_inv: "keeps exit_inv (next_event uuid5 X XE E)"
proof -
  have admit: "keeps exit_inv (\<lambda>s. case admit uuid5 X XE sig (ac_exec s) of (r, x) \<Rightarrow> (r, s\<lparr>ac_exec := x\<rparr>))" for sig
    by (auto simp: keeps_def exit_inv_def split: prod.split)
  have opened: "keeps exit_inv (open_event uuid5 X XE ev)" for ev
    unfolding open_event_def
    by (auto intro!: keeps_bind keeps_then keeps_if keeps_return keeps_lift keeps_raise_if exit_rules admit
        simp: offer_work_frame split: prod.split)
  have owner: "keeps exit_inv (owner_event ev)" for ev
    unfolding owner_event_def
    by (auto intro!: keeps_bind keeps_then keeps_get keeps_raise keeps_raise_if exit_rules
        simp: offer_work_frame split: option.split)
  let ?body = "\<lambda>ev. catchE
               (if ie_type ev = ''open''
                then bindE (acall (\<lambda>_. AEnabled) (ae_enabled E)) (\<lambda>on.
                       if on then open_event uuid5 X XE ev else returnE ())
                else owner_event ev)
               (\<lambda>e. if e = CancelledError then raiseE e else modifyE refresh_owners)"
  have body: "keeps exit_inv (?body ev)" for ev
    by (intro keeps_catch keeps_bind keeps_if keeps_return keeps_raise exit_rules opened owner) simp
  have handled: "exit_inv (snd (handle_event uuid5 X XE E ev s))" if "exit_inv s" for ev s
  proof -
    have "exit_inv (snd (?body ev s))" using body[of ev] that by (simp add: keeps_def)
    then show ?thesis by (auto simp: handle_event_def exit_inv_def split: prod.splits)
  qed
  show ?thesis
    by (rule keepsI) (auto simp: next_event_def exit_inv_def split: list.split
        intro!: handled[unfolded exit_inv_def])
qed

lemma actor_step_exit:
  assumes "actor_step uuid5 protects s l t" "exit_inv s"
  shows "exit_inv t"
  using assms(1)
proof (cases rule: actor_step.cases)
  case (as_offer E ev b)
  then show ?thesis using keepsD[OF offer_exit_inv assms(2)] by blast
next
  case (as_entry E X XE r)
  then show ?thesis using keepsD[OF next_event_exit_inv assms(2)] by blast
next
  case (as_cadence ids)
  have "exit_inv (fold offer_work ids s)"
    by (induction ids rule: rev_induct) (use assms(2) offer_work_frame in \<open>auto simp: exit_inv_def\<close>)
  with as_cadence show ?thesis by (simp add: cadence_def)
next
  case (as_serve E i r)
  then show ?thesis using keepsD[OF service_exit_inv assms(2)] by blast
next
  case (as_restore E r)
  then show ?thesis using keepsD[OF restore_exit_inv assms(2)] by blast
qed (use assms(2) in \<open>simp_all add: exit_inv_def set_work_def close_actor_def\<close>)

lemma actor_run_exit: "run (actor_step uuid5 protects) s ls t \<Longrightarrow> exit_inv s \<Longrightarrow> exit_inv t"
  by (induction rule: run.induct) (blast intro: actor_step_exit)+

text \<open>
  C19: Whatever the ports report and however the tasks interleave, the actor orders an exit only of a
  position of its own strategy whose quantity an own-order observation of that episode reported, and
  only on the evidence read directly before the order: a confirmed STOP with a terminal entry, or no
  STOP and a quote and a clock for which the exit policy gives exactly that reason.
\<close>
theorem exits_on_evidence:
  assumes "run (actor_step uuid5 protects) (new_actor x) ls t"
  shows "exits_ok (ac_log t)"
proof -
  have "exit_inv (new_actor x)" by (simp add: exit_inv_def exits_ok_def new_actor_def)
  from actor_run_exit[OF assms this] show ?thesis by (simp add: exit_inv_def)
qed

section \<open>A restore serves nothing until every owner was serviced\<close>

definition failures :: "actor_call list \<Rightarrow> nat" where
  "failures l = length (filter (\<lambda>c. \<exists>i. c = AFailed i) l)"

definition still :: "bool \<Rightarrow> nat \<Rightarrow> actor_state \<Rightarrow> bool" where
  "still r n s \<longleftrightarrow> ac_restored s = r \<and> failures (ac_log s) = n"

lemma still_log [simp]: "(\<And>i. c \<noteq> AFailed i) \<Longrightarrow> still r n (alog c s) = still r n s"
  by (simp add: still_def failures_def alog_def)

lemma still_book [simp]: "still r n (set_book L s) = still r n s"
  by (simp add: still_def set_book_def)

lemma still_store [simp]: "still r n (store_position i p s) = still r n s"
  by (simp add: still_def store_position_def split: option.split)

lemma still_refresh [simp]: "still r n (refresh_owners s) = still r n s"
  by (simp add: still_def refresh_owners_def Let_def)

lemma still_transient [simp]: "still r n (if c then s\<lparr>ac_transient := b\<rparr> else s) = still r n s"
  by (simp add: still_def)

lemma still_calls:
  "(\<And>v i. c v \<noteq> AFailed i) \<Longrightarrow> keeps (still r n) (acall c f)"
  "(\<And>v i. d v \<noteq> AFailed i) \<Longrightarrow> keeps (still r n) (await_call E d g)"
  "(\<And>i. k \<noteq> AFailed i) \<Longrightarrow> keeps (still r n) (call_position E j k h p)"
  "keeps (still r n) (episode_now i)" "keeps (still r n) (on_ledger f')"
  "(\<And>s. still r n (f'' s) = still r n s) \<Longrightarrow> keeps (still r n) (modifyE f'')"
  by (auto simp: keeps_def acall_def await_call_def call_position_def episode_now_def on_ledger_def modifyE_def Let_def
      split: prod.splits sum.splits)

lemmas still_rules = keeps_bind keeps_then keeps_if keeps_catch keeps_return keeps_raise keeps_raise_if keeps_get
  keeps_lift still_calls

lemma still_save: "keeps (still r n) (save_episode E i)"
  unfolding save_episode_def by (intro still_rules) simp

lemma still_claimed: "keeps (still r n) (service_claimed E i)"
  unfolding service_claimed_def stop_requested_def clock_ns_def
  by (auto intro!: still_rules still_save split: option.split)

lemma still_latch: "keeps (still r n) (latch_cancel E i ob)"
proof (rule keepsI)
  fix s assume "still r n s"
  then show "still r n (snd (latch_cancel E i ob s))"
    by (auto simp: latch_cancel_def stop_requested_def clock_ns_def acall_def episode_now_def eff_simps Let_def
        split: sum.split prod.split)
qed

lemma still_observed: "keeps (still r n) (service_observed E i y b ob)"
proof -
  have "keeps (still r n) (check_observation E i y ob)"
    unfolding check_observation_def
    by (auto intro!: still_rules split: option.split)
  moreover have "keeps (still r n) (reconcile_protect E i ob)"
    unfolding reconcile_protect_def reconcile_owned_def protect_position_def clock_ns_def Let_def
    by (auto intro!: still_rules still_save split: option.split)
  moreover have "keeps (still r n) (cancel_when_due E i ob)"
    unfolding cancel_when_due_def by (intro still_rules still_latch still_save) simp
  moreover have "keeps (still r n) (exit_when_due E i y ob held)" for held
    unfolding exit_when_due_def exit_call_def stop_requested_def clock_ns_def
    by (auto intro!: still_rules split: option.split prod.split)
  ultimately show ?thesis
    unfolding service_observed_def by (intro still_rules) (simp_all add: still_def forget_mismatch_def)
qed

lemma still_locked: "keeps (still r n) (service_locked E i)"
  unfolding service_locked_def observe_owned_def clock_ns_def
  by (intro still_rules still_claimed still_observed) (simp_all add: still_def)

lemma service_before_restore:
  assumes "still False n s"
  shows "wp (service_owned E i) (\<lambda>_. still False n) (\<lambda>_ t. \<not> ac_restored t) s"
proof -
  have failed: "wp (service_failed E i e) (\<lambda>_. still False n) (\<lambda>_ t. \<not> ac_restored t) t" if "still False n t" for e t
    using that by (auto simp: service_failed_def tolerated_def wp_simps still_def alog_def)
  have start: "still False n (s\<lparr>ac_transient := False, ac_now := None\<rparr>)" using assms by (simp add: still_def)
  show ?thesis
    unfolding service_owned_def wp_then wp_modify wp_catch
    by (rule wp_mono[OF wp_keeps[OF still_locked start]]) (auto intro: failed)
qed

lemma service_all_before_restore:
  "still False n s \<Longrightarrow> wp (service_all E ids) (\<lambda>_. still False n) (\<lambda>_ t. \<not> ac_restored t) s"
proof (induction ids arbitrary: s)
  case (Cons i ids)
  then show ?case
    by (simp del: service_owned_def) (rule wp_thenI[OF service_before_restore], auto)
qed (simp add: wp_simps)


section \<open>Concrete runs\<close>

definition demo_observation :: "bool \<Rightarrow> owned_observation" where
  "demo_observation terminal =
     \<lparr>ob_quantity = 20, ob_exited = 0, ob_first_fill_ns = Some 100, ob_entry_terminal = terminal,
      ob_outstanding_exit = False, ob_position = Some demo_position, ob_provider = Some ''webull''\<rparr>"

definition demo_actor_env :: "bool \<Rightarrow> owned_observation result \<Rightarrow> actor_env" where
  "demo_actor_env stop observed =
     \<lparr>ae_enabled = (\<lambda>_. True), ae_clock = (\<lambda>_. 1000), ae_stop = (\<lambda>_. stop), ae_observe = (\<lambda>_. observed),
      ae_save = (\<lambda>_. Inr ()), ae_cancel = (\<lambda>_. Inr ()), ae_protect = (\<lambda>_ p. (Inr (), p)),
      ae_exit = (\<lambda>_ p. (Inr (), p)), ae_quote = (\<lambda>_. (Some (Fin 4), Some 900)), ae_abandon = None,
      ae_account = None, ae_drift = (\<lambda>_ L. L)\<rparr>"

definition demo_owner_state :: exec_state where
  "demo_owner_state = demo_exec_state\<lparr>xs_book := demo_submitted\<rparr>"

abbreviation demo_restored :: "bool \<Rightarrow> bool \<Rightarrow> unit result \<times> actor_state" where
  "demo_restored stop terminal \<equiv>
     restore_before_serving (demo_actor_env stop (Inr (demo_observation terminal))) (new_actor demo_owner_state)"

lemma demo_restored_cancel:
  "case demo_restored True False of (r, t) \<Rightarrow> r = Inr () \<and> cancels ''e1'' (ac_log t) = 1"
  by code_simp

lemma demo_restored_stop:
  "case demo_restored True True of (r, t) \<Rightarrow> r = Inr () \<and>
     AExit (demo_position\<lparr>op_entry_send_ns := Some 7\<rparr>) ''KILLSW1_STOP'' \<in> set (ac_log t)"
  by code_simp

lemma demo_restored_step:
  assumes "allowed (demo_actor_env stop (Inr (demo_observation terminal)))"
  shows "run (actor_step uuid5 allowed) (new_actor demo_owner_state) [LTick] (snd (demo_restored stop terminal))"
  by (rule run_one, rule as_restore[where allowed = allowed], rule assms, rule surjective_pairing)


theorem exits_on_evidence_witness:
  "exits_ok (ac_log (snd (demo_restored True True)))
   \<and> AExit (demo_position\<lparr>op_entry_send_ns := Some 7\<rparr>) ''KILLSW1_STOP'' \<in> set (ac_log (snd (demo_restored True True)))"
proof -
  have "protects (demo_actor_env True (Inr (demo_observation True)))"
    by (simp add: protects_def demo_actor_env_def same_owned_def)
  from exits_on_evidence[OF demo_restored_step[where allowed = protects, OF this]] demo_restored_stop show ?thesis
    by (simp add: case_prod_unfold)
qed

abbreviation demo_refused :: "unit result \<times> actor_state" where
  "demo_refused \<equiv> restore_before_serving (demo_actor_env False (Inl TimeoutError)) (new_actor demo_owner_state)"

lemma demo_refused_run: "fst demo_refused = Inl TimeoutError"
  by code_simp

definition demo_intent :: intent_event where
  "demo_intent = \<lparr>ie_strategy = STRATEGY_CODE, ie_type = ''open'', ie_symbol = ''ABC'', ie_signal = Inr demo_signal,
     ie_episode = None\<rparr>"


end
