(* ===== verification/CleanupJournal.thy ===== *)
theory CleanupJournal
  imports BotControl
begin

text \<open>
  \<open>oms/bot_control_journal.py\<close>: the journal of what a STOP does to the orders it owns. An attempt is
  prepared under the lease, its one call is committed as \<open>MAY_HAVE_SENT\<close> before the socket is
  touched, and only an authoritative read of the same identity resolves it. Every method is one
  transaction under the state lock of \<open>BotControl\<close>, so it is a function on the database that either
  raises and changes nothing or returns the new database. \<open>uuid5\<close> and SHA-256 are parameters; the
  texts they digest are built as the source builds them. The log lines are left out.
\<close>

section \<open>Rows\<close>

text \<open>\<open>terminal_evidence\<close>: the JSON object each kind of read writes; quantities are exact texts.\<close>

datatype read_evidence =
    OrderRead string string string rat int
  | TreeRead string "string list" rat bool bool int
  | NativeRead string "string option" string string int
  | NotSent int

record attempt =
  at_command :: string
  at_strategy :: string
  at_generation :: int
  at_account :: string
  at_symbol :: string
  at_kind :: string
  at_binding :: string
  at_intent :: "string option"
  at_entry :: "string option"
  at_managed :: "string option"
  at_target :: "string option"
  at_existing :: "string option"
  at_sequence :: int
  at_operation :: string
  at_status :: string
  at_client :: string
  at_requested :: "rat option"
  at_owner_revision :: int
  at_owner_hash :: string
  at_evidence :: "read_evidence option"
  at_executor :: string
  at_fence :: int
  at_revision :: int
  at_prepared :: int
  at_dispatched :: "int option"
  at_completed :: "int option"
  at_read :: "int option"

text \<open>The control tables with the attempts; \<open>cd_attempts\<close> of the control tables is what they show of them.\<close>

record journal_db =
  jd_control :: control_db
  jd_attempts :: "(string, attempt) dict"

abbreviation jd_book :: "journal_db \<Rightarrow> oms_book" where
  "jd_book db \<equiv> cd_book (jd_control db)"

record attempt_view =
  av_id :: string
  av_order :: "string option"
  av_operation :: string
  av_status :: string
  av_client :: string
  av_revision :: int

definition view_of :: "string \<Rightarrow> attempt \<Rightarrow> attempt_view" where
  "view_of i a =
     \<lparr>av_id = i, av_order = (if at_target a \<noteq> None then at_target a else at_entry a),
      av_operation = at_operation a, av_status = at_status a, av_client = at_client a,
      av_revision = at_revision a\<rparr>"

text \<open>\<open>uuid5\<close> of a namespace and a name, and the hexadecimal SHA-256 of a text.\<close>

record digest_port =
  dp_json :: json_port
  dp_uuid5 :: "string \<Rightarrow> string \<Rightarrow> string"
  dp_sha256 :: "string \<Rightarrow> string"

definition show_opt :: "string option \<Rightarrow> string" where
  "show_opt x = (case x of None \<Rightarrow> ''None'' | Some s \<Rightarrow> s)"

section \<open>The table of attempts\<close>

definition shown :: "(string, attempt) dict \<Rightarrow> (string \<times> string) list" where
  "shown d = map (\<lambda>(i, a). (at_strategy a, at_status a)) d"

definition set_attempts :: "(string, attempt) dict \<Rightarrow> journal_db \<Rightarrow> journal_db" where
  "set_attempts d db =
     db\<lparr>jd_attempts := d, jd_control := (jd_control db)\<lparr>cd_attempts := shown d\<rparr>\<rparr>"

definition RESOLVED :: "string list" where
  "RESOLVED = [''TERMINAL'', ''PROVEN_NOT_SENT'']"

definition is_exit :: "attempt \<Rightarrow> bool" where
  "is_exit a \<longleftrightarrow> at_operation a \<in> {''SUBMIT_EXIT'', ''ADOPT_EXISTING_EXIT''}"

definition unresolved :: "attempt \<Rightarrow> bool" where
  "unresolved a \<longleftrightarrow> at_status a \<notin> set RESOLVED"

definition same_place :: "attempt \<Rightarrow> attempt \<Rightarrow> bool" where
  "same_place a b \<longleftrightarrow>
     at_strategy a = at_strategy b \<and> at_account a = at_account b \<and> at_symbol a = at_symbol b"

text \<open>The unique keys of the table: identity, client order id, one unresolved exit per place.\<close>

definition clashes :: "string \<Rightarrow> attempt \<Rightarrow> string \<times> attempt \<Rightarrow> bool" where
  "clashes i a = (\<lambda>(j, b).
     j = i \<or> at_client b = at_client a
     \<or> (at_command b = at_command a \<and> at_account b = at_account a \<and> at_symbol b = at_symbol a
        \<and> at_kind b = at_kind a \<and> at_binding b = at_binding a \<and> at_operation b = at_operation a
        \<and> at_sequence b = at_sequence a)
     \<or> (is_exit a \<and> is_exit b \<and> unresolved a \<and> unresolved b \<and> same_place a b))"

definition insert_attempt :: "string \<Rightarrow> attempt \<Rightarrow> journal_db \<Rightarrow> (attempt_view \<times> journal_db) result" where
  "insert_attempt i a db =
     (if list_ex (clashes i a) (jd_attempts db) then Inl (OtherError ''IntegrityError'')
      else Inr (view_of i a, set_attempts (jd_attempts db @ [(i, a)]) db))"

definition write_attempt :: "string \<Rightarrow> attempt \<Rightarrow> journal_db \<Rightarrow> (attempt_view \<times> journal_db) result" where
  "write_attempt i a db = Inr (view_of i a, set_attempts (AList.update i a (jd_attempts db)) db)"

definition lease_row :: "digest_port \<Rightarrow> stop_lease \<Rightarrow> instant \<Rightarrow> journal_db \<Rightarrow> control_command result" where
  "lease_row D L now db = leased (dp_json D) L now (jd_control db)"

definition owned_attempt :: "stop_lease \<Rightarrow> string \<Rightarrow> journal_db \<Rightarrow> attempt result" where
  "owned_attempt L i db =
     (case map_of (jd_attempts db) i of
        None \<Rightarrow> Inl (ValueError ''cleanup_attempt_not_owned'')
      | Some a \<Rightarrow>
          and_then (refuse_if (at_command a \<noteq> le_command L \<or> at_strategy a \<noteq> le_strategy L
              \<or> at_generation a \<noteq> le_generation L) ''cleanup_attempt_not_owned'') (\<lambda>_. Inr a))"

section \<open>Native trees\<close>

text \<open>The parent's evidence text, and whether the managed row is the one of this entry.\<close>

definition parent_text ::
  "string \<Rightarrow> string \<Rightarrow> string option \<Rightarrow> string \<Rightarrow> string option \<Rightarrow> string \<Rightarrow> string" where
  "parent_text sid entry broker client managed binding =
     sid @ '':'' @ entry @ '':'' @ show_opt broker @ '':'' @ client @ '':'' @ show_opt managed @ '':'' @ binding"

definition has_broker_id :: "broker_order \<Rightarrow> bool" where
  "has_broker_id o' \<longleftrightarrow> bo_broker_id o' \<noteq> None \<and> bo_broker_id o' \<noteq> Some ''''"

definition managed_bound :: "string \<Rightarrow> string \<Rightarrow> string \<Rightarrow> string \<Rightarrow> broker_order \<Rightarrow> oms_book \<Rightarrow> bool" where
  "managed_bound sid account symbol mid entry b \<longleftrightarrow>
     (case (List.find (\<lambda>m. mg_id m = mid) (ob_managed b), map_of (ob_strategies b) sid, account_of account b) of
        (Some m, Some code, Some a) \<Rightarrow>
          mg_strategy m = code \<and> mg_account_name m = ba_name a \<and> mg_symbol m = symbol
          \<and> mg_entry_order m = Some (bo_id entry) \<and> mg_entry_client_id m = Some (bo_client_id entry)
      | _ \<Rightarrow> False)"

definition binding_changed :: "string \<Rightarrow> string \<Rightarrow> string \<Rightarrow> string option \<Rightarrow> broker_order \<Rightarrow> oms_book \<Rightarrow> bool" where
  "binding_changed sid account symbol managed entry b \<longleftrightarrow>
     (case managed of None \<Rightarrow> False | Some m \<Rightarrow> \<not> managed_bound sid account symbol m entry b)"

definition native_parent :: "digest_port \<Rightarrow> stop_lease \<Rightarrow> attempt \<Rightarrow> journal_db \<Rightarrow> broker_order result" where
  "native_parent D L a db =
     (case Option.bind (at_entry a) (\<lambda>i. order_of i (jd_book db)) of
        None \<Rightarrow> Inl (ValueError ''native_parent_identity_changed'')
      | Some e \<Rightarrow>
          and_then (refuse_if (\<not> has_broker_id e \<or> bo_side e \<noteq> ''buy'' \<or> bo_strategy e \<noteq> le_strategy L
              \<or> bo_account e \<noteq> at_account a \<or> bo_symbol e \<noteq> at_symbol a) ''native_parent_identity_changed'') (\<lambda>_.
          and_then (refuse_if (binding_changed (le_strategy L) (at_account a) (at_symbol a) (at_managed a) e (jd_book db))
              ''native_managed_binding_changed'') (\<lambda>_.
          and_then (refuse_if (at_owner_hash a \<noteq>
                dp_sha256 D (parent_text (le_strategy L) (bo_id e) (bo_broker_id e) (bo_client_id e)
                  (at_managed a) (at_binding a))) ''native_parent_identity_changed'') (\<lambda>_.
          Inr e))))"

definition NATIVE_KINDS :: "string list" where
  "NATIVE_KINDS = [''managed_native_tree'', ''orb_native_tree'']"

definition native_attempt ::
  "digest_port \<Rightarrow> stop_lease \<Rightarrow> broker_order \<Rightarrow> string option \<Rightarrow> string \<Rightarrow> string \<Rightarrow> string \<Rightarrow> int \<Rightarrow> attempt" where
  "native_attempt D L e managed binding identity owner_hash now =
     \<lparr>at_command = le_command L, at_strategy = le_strategy L, at_generation = le_generation L,
      at_account = bo_account e, at_symbol = bo_symbol e,
      at_kind = (if managed \<noteq> None then ''managed_native_tree'' else ''orb_native_tree''),
      at_binding = binding, at_intent = Some (bo_intent e), at_entry = Some (bo_id e), at_managed = managed,
      at_target = None, at_existing = None, at_sequence = 0, at_operation = ''CANCEL_PROTECTION'',
      at_status = ''PREPARED'', at_client = ''ks1-native-'' @ identity, at_requested = None,
      at_owner_revision = le_generation L, at_owner_hash = owner_hash, at_evidence = None,
      at_executor = le_executor L, at_fence = le_fence L, at_revision = 0, at_prepared = now,
      at_dispatched = None, at_completed = None, at_read = None\<rparr>"

definition prepare_native ::
  "digest_port \<Rightarrow> stop_lease \<Rightarrow> string \<Rightarrow> string option \<Rightarrow> string \<Rightarrow> instant \<Rightarrow> journal_db
   \<Rightarrow> (attempt_view \<times> journal_db) result" where
  "prepare_native D L entry managed binding now db =
     and_then (refuse_if (binding = '''' \<or> length binding > 256) ''native_tree_binding_unknown'') (\<lambda>_.
     let identity = dp_uuid5 D (le_command L)
           (''native:'' @ entry @ '':'' @ show_opt managed @ '':'' @ binding)
     in and_then (lease_row D L now db) (\<lambda>c.
        case order_of entry (jd_book db) of
          None \<Rightarrow> Inl (ValueError ''native_parent_not_owned'')
        | Some e \<Rightarrow>
            and_then (refuse_if (bo_strategy e \<noteq> le_strategy L \<or> bo_side e \<noteq> ''buy'' \<or> \<not> has_broker_id e
                \<or> bo_account e \<notin> set (sc_accounts (cc_scope c))) ''native_parent_not_owned'') (\<lambda>_.
            and_then (refuse_if (binding_changed (le_strategy L) (bo_account e) (bo_symbol e) managed e (jd_book db))
                ''native_managed_binding_changed'') (\<lambda>_.
            let owner_hash = dp_sha256 D (parent_text (le_strategy L) (bo_id e) (bo_broker_id e)
                               (bo_client_id e) managed binding)
            in case map_of (jd_attempts db) identity of
                 Some a \<Rightarrow>
                   and_then (refuse_if (at_owner_hash a \<noteq> owner_hash) ''native_parent_identity_changed'') (\<lambda>_.
                     Inr (view_of identity a, db))
               | None \<Rightarrow>
                   insert_attempt identity
                     (native_attempt D L e managed binding identity owner_hash (utc_of now)) db))))"

definition NATIVE_OUTCOMES :: "string list" where
  "NATIVE_OUTCOMES = [''released'', ''resolved_by_fill'', ''reserved'', ''unanswerable'', ''unsupported'']"

definition native_status :: "string \<Rightarrow> string" where
  "native_status outcome = (if outcome \<in> {''released'', ''resolved_by_fill''} then ''TERMINAL'' else ''UNKNOWN'')"

definition record_native_outcome ::
  "digest_port \<Rightarrow> stop_lease \<Rightarrow> string \<Rightarrow> string \<Rightarrow> instant \<Rightarrow> journal_db \<Rightarrow> (attempt_view \<times> journal_db) result" where
  "record_native_outcome D L i outcome now db =
     and_then (refuse_if (outcome \<notin> set NATIVE_OUTCOMES) ''native_release_outcome_unknown'') (\<lambda>_.
     and_then (lease_row D L now db) (\<lambda>c.
     and_then (owned_attempt L i db) (\<lambda>a.
     and_then (refuse_if (at_kind a \<notin> set NATIVE_KINDS) ''native_attempt_binding_unknown'') (\<lambda>_.
     if at_status a = ''TERMINAL'' then Inr (view_of i a, db)
     else case at_dispatched a of
       None \<Rightarrow> Inl (ValueError ''native_release_not_dispatched'')
     | Some sent \<Rightarrow>
         and_then (refuse_if (utc_of now < sent) ''native_release_before_dispatch'') (\<lambda>_.
         and_then (native_parent D L a db) (\<lambda>e.
         write_attempt i
           (a\<lparr>at_status := native_status outcome, at_evidence := Some (NativeRead (bo_id e) (bo_broker_id e) (at_binding a) outcome (utc_of now)),
              at_read := Some (utc_of now), at_completed := Some (utc_of now),
              at_revision := at_revision a + 1\<rparr>) db))))))"

section \<open>Preparing and dispatching\<close>

definition OPERATIONS :: "string list" where
  "OPERATIONS = [''CANCEL_ENTRY'', ''CANCEL_PROTECTION'', ''SUBMIT_EXIT'', ''ADOPT_EXISTING_EXIT'']"

definition is_sha256 :: "string \<Rightarrow> bool" where
  "is_sha256 h \<longleftrightarrow> length h = 64 \<and> list_all (\<lambda>c. c \<in> set ''0123456789abcdef'') h"

definition WORKING_STATUSES :: "string list" where
  "WORKING_STATUSES = [''accepted'', ''working'', ''open'', ''partially_filled'']"

definition owned_for :: "stop_lease \<Rightarrow> control_command \<Rightarrow> string \<Rightarrow> broker_order option \<Rightarrow> bool" where
  "owned_for L c operation x \<longleftrightarrow>
     (case x of
        None \<Rightarrow> False
      | Some o' \<Rightarrow>
          bo_strategy o' = le_strategy L \<and> bo_account o' \<in> set (sc_accounts (cc_scope c))
          \<and> bo_symbol o' \<noteq> '''' \<and> bo_client_id o' \<noteq> '''' \<and> bo_quantity o' > 0
          \<and> bo_side o' = (if operation = ''CANCEL_ENTRY'' then ''buy'' else ''sell''))"

definition order_ready :: "string \<Rightarrow> broker_order \<Rightarrow> unit result" where
  "order_ready operation o' =
     (if operation = ''SUBMIT_EXIT''
      then refuse_if (bo_status o' \<noteq> ''pending'' \<or> bo_broker_id o' \<noteq> None \<or> bo_submitted o' \<noteq> None)
             ''cleanup_exit_not_unsent''
      else refuse_if (bo_status o' \<notin> set WORKING_STATUSES \<or> \<not> has_broker_id o') ''cleanup_order_not_working'')"

definition exit_pending :: "stop_lease \<Rightarrow> broker_order \<Rightarrow> journal_db \<Rightarrow> bool" where
  "exit_pending L o' db \<longleftrightarrow>
     list_ex (\<lambda>(j, b). at_strategy b = le_strategy L \<and> at_account b = bo_account o' \<and> at_symbol b = bo_symbol o'
                \<and> is_exit b \<and> unresolved b) (jd_attempts db)"

definition new_attempt_row ::
  "stop_lease \<Rightarrow> broker_order \<Rightarrow> string \<Rightarrow> int \<Rightarrow> string \<Rightarrow> int \<Rightarrow> string \<Rightarrow> int \<Rightarrow> attempt" where
  "new_attempt_row L o' operation sequence_no owner_hash owner_revision identity now =
     \<lparr>at_command = le_command L, at_strategy = le_strategy L, at_generation = le_generation L,
      at_account = bo_account o', at_symbol = bo_symbol o', at_kind = ''broker_order'', at_binding = bo_id o',
      at_intent = None, at_entry = None, at_managed = None, at_target = Some (bo_id o'),
      at_existing = (if operation = ''ADOPT_EXISTING_EXIT'' then Some (bo_id o') else None),
      at_sequence = sequence_no, at_operation = operation,
      at_status = (if operation = ''ADOPT_EXISTING_EXIT'' then ''WORKING'' else ''PREPARED''),
      at_client = (if operation \<in> {''SUBMIT_EXIT'', ''ADOPT_EXISTING_EXIT''} then bo_client_id o'
                   else ''killsw1-'' @ identity),
      at_requested = Some (bo_quantity o'), at_owner_revision = owner_revision, at_owner_hash = owner_hash,
      at_evidence = None, at_executor = le_executor L, at_fence = le_fence L, at_revision = 0,
      at_prepared = now, at_dispatched = None, at_completed = None, at_read = None\<rparr>"

definition prepare ::
  "digest_port \<Rightarrow> stop_lease \<Rightarrow> string \<Rightarrow> string \<Rightarrow> int \<Rightarrow> string \<Rightarrow> int \<Rightarrow> instant \<Rightarrow> journal_db
   \<Rightarrow> (attempt_view \<times> journal_db) result" where
  "prepare D L oid operation sequence_no owner_hash owner_revision now db =
     and_then (refuse_if (operation \<notin> set OPERATIONS \<or> sequence_no < 0 \<or> owner_revision < 0 \<or> \<not> is_sha256 owner_hash)
       ''cleanup_identity_unknown'') (\<lambda>_.
     let identity = dp_uuid5 D (le_command L) (oid @ '':'' @ operation @ '':'' @ show_int sequence_no);
         found = order_of oid (jd_book db); o' = the found
     in and_then (lease_row D L now db) (\<lambda>c.
        and_then (refuse_if (\<not> owned_for L c operation found) ''cleanup_order_not_owned'') (\<lambda>_.
        case map_of (jd_attempts db) identity of
          Some a \<Rightarrow>
            and_then (refuse_if (at_owner_hash a \<noteq> owner_hash \<or> at_owner_revision a \<noteq> owner_revision
                \<or> at_requested a \<noteq> Some (bo_quantity o')) ''cleanup_identity_conflict'') (\<lambda>_.
              Inr (view_of identity a, db))
        | None \<Rightarrow>
            and_then (order_ready operation o') (\<lambda>_.
            and_then (refuse_if (operation \<in> {''SUBMIT_EXIT'', ''ADOPT_EXISTING_EXIT''} \<and> exit_pending L o' db)
              ''cleanup_exit_already_unresolved'') (\<lambda>_.
            insert_attempt identity
              (new_attempt_row L o' operation sequence_no owner_hash owner_revision identity (utc_of now)) db)))))"

definition dispatch ::
  "digest_port \<Rightarrow> stop_lease \<Rightarrow> string \<Rightarrow> instant \<Rightarrow> journal_db \<Rightarrow> (attempt_view \<times> journal_db) result" where
  "dispatch D L i now db =
     and_then (lease_row D L now db) (\<lambda>c.
     and_then (owned_attempt L i db) (\<lambda>a.
     and_then (refuse_if (at_status a \<noteq> ''PREPARED'' \<or> at_dispatched a \<noteq> None
         \<or> at_executor a \<noteq> le_executor L \<or> at_fence a \<noteq> le_fence L) ''cleanup_dispatch_uncertain_or_fenced'') (\<lambda>_.
     and_then (if at_kind a \<in> set NATIVE_KINDS then and_then (native_parent D L a db) (\<lambda>_. Inr ()) else Inr ()) (\<lambda>_.
     write_attempt i
       (a\<lparr>at_status := ''MAY_HAVE_SENT'', at_dispatched := Some (utc_of now), at_revision := at_revision a + 1\<rparr>) db))))"

definition prove_prepared_not_sent ::
  "digest_port \<Rightarrow> stop_lease \<Rightarrow> string \<Rightarrow> instant \<Rightarrow> journal_db \<Rightarrow> (attempt_view \<times> journal_db) result" where
  "prove_prepared_not_sent D L i now db =
     and_then (lease_row D L now db) (\<lambda>c.
     and_then (owned_attempt L i db) (\<lambda>a.
     and_then (refuse_if (at_status a \<noteq> ''PREPARED'' \<or> at_dispatched a \<noteq> None)
       ''cleanup_dispatch_already_uncertain'') (\<lambda>_.
     write_attempt i
       (a\<lparr>at_status := ''PROVEN_NOT_SENT'', at_evidence := Some (NotSent (utc_of now)),
          at_executor := le_executor L, at_fence := le_fence L, at_revision := at_revision a + 1\<rparr>) db)))"

section \<open>Authoritative reads\<close>

definition READ_STATUSES :: "string list" where
  "READ_STATUSES = [''accepted'', ''working'', ''open'', ''partially_filled'', ''filled'', ''cancelled'',
     ''canceled'', ''expired'', ''rejected'']"

definition TERMINAL_READS :: "string list" where
  "TERMINAL_READS = [''filled'', ''cancelled'', ''canceled'', ''expired'', ''rejected'']"

definition fresh_read :: "instant \<Rightarrow> instant \<Rightarrow> bool" where
  "fresh_read observed now \<longleftrightarrow>
     \<not> is_naive observed \<and> \<not> is_naive now \<and> 0 \<le> utc_of now - utc_of observed
     \<and> utc_of now - utc_of observed \<le> 2000000"

definition good_quantity :: "decimal \<Rightarrow> bool" where
  "good_quantity q \<longleftrightarrow> (case q of Fin r \<Rightarrow> r \<ge> 0 | _ \<Rightarrow> False)"

definition finite_of :: "decimal \<Rightarrow> rat" where
  "finite_of q = (case q of Fin r \<Rightarrow> r | _ \<Rightarrow> 0)"

definition stale_read :: "int \<Rightarrow> attempt \<Rightarrow> bool" where
  "stale_read observed a \<longleftrightarrow>
     observed < at_prepared a \<or> (case at_read a of None \<Rightarrow> False | Some t \<Rightarrow> observed < t)"

definition recorded_fill :: "attempt \<Rightarrow> rat option" where
  "recorded_fill a = (case at_evidence a of Some (OrderRead b k s q t) \<Rightarrow> Some q | _ \<Rightarrow> None)"

definition recorded_tree :: "attempt \<Rightarrow> (string list \<times> rat) option" where
  "recorded_tree a = (case at_evidence a of Some (TreeRead e ks q t w u) \<Rightarrow> Some (ks, q) | _ \<Rightarrow> None)"

definition same_order :: "string \<Rightarrow> string \<Rightarrow> broker_order option \<Rightarrow> bool" where
  "same_order broker client x \<longleftrightarrow>
     (case x of None \<Rightarrow> False
      | Some o' \<Rightarrow> broker \<noteq> '''' \<and> bo_broker_id o' = Some broker \<and> bo_client_id o' = client)"

definition target_order :: "attempt \<Rightarrow> journal_db \<Rightarrow> broker_order option" where
  "target_order a db = Option.bind (at_target a) (\<lambda>i. order_of i (jd_book db))"

definition reconcile_attempt ::
  "digest_port \<Rightarrow> stop_lease \<Rightarrow> string \<Rightarrow> string \<Rightarrow> string \<Rightarrow> string \<Rightarrow> decimal \<Rightarrow> instant \<Rightarrow> instant \<Rightarrow> journal_db
   \<Rightarrow> (attempt_view \<times> journal_db) result" where
  "reconcile_attempt D L i broker client status filled observed now db =
     and_then (refuse_if (\<not> fresh_read observed now \<or> \<not> good_quantity filled \<or> status \<notin> set READ_STATUSES)
       ''cleanup_read_unknown'') (\<lambda>_.
     and_then (lease_row D L now db) (\<lambda>c.
     and_then (owned_attempt L i db) (\<lambda>a.
     let q = finite_of filled; t = utc_of observed
     in and_then (refuse_if (\<not> same_order broker client (target_order a db) \<or> at_status a \<in> set RESOLVED
          \<or> stale_read t a) ''cleanup_read_identity_conflict'') (\<lambda>_.
        case at_requested a of
          None \<Rightarrow> Inl TypeError
        | Some requested \<Rightarrow>
            and_then (refuse_if (q > requested \<or> (status = ''filled'' \<and> q \<noteq> requested))
              ''cleanup_read_identity_conflict'') (\<lambda>_.
            and_then (refuse_if (case recorded_fill a of None \<Rightarrow> False | Some p \<Rightarrow> q < p)
              ''cleanup_fill_would_regress'') (\<lambda>_.
            write_attempt i
              (a\<lparr>at_status := (if status \<in> set TERMINAL_READS then ''TERMINAL'' else ''WORKING''),
                 at_evidence := Some (OrderRead broker client status q t), at_read := Some t,
                 at_executor := le_executor L, at_fence := le_fence L, at_revision := at_revision a + 1\<rparr>) db))))))"

definition tree_of_owner :: "string \<Rightarrow> string \<Rightarrow> broker_order option \<Rightarrow> bool" where
  "tree_of_owner sid entry_broker x \<longleftrightarrow>
     (case x of None \<Rightarrow> False
      | Some o' \<Rightarrow> bo_strategy o' = sid \<and> entry_broker \<noteq> ''''
          \<and> meta_is (bo_payload o') ''entry_broker_order_id'' entry_broker)"

definition reconcile_tree ::
  "digest_port \<Rightarrow> stop_lease \<Rightarrow> string \<Rightarrow> string \<Rightarrow> string \<Rightarrow> string list \<Rightarrow> decimal \<Rightarrow> bool \<Rightarrow> bool \<Rightarrow> instant \<Rightarrow> instant
   \<Rightarrow> journal_db \<Rightarrow> (attempt_view \<times> journal_db) result" where
  "reconcile_tree D L i owner_hash entry_broker children exited terminal working observed now db =
     and_then (refuse_if (\<not> fresh_read observed now \<or> children = [] \<or> [] \<in> set children \<or> \<not> distinct children
         \<or> (terminal \<and> working) \<or> \<not> good_quantity exited) ''cleanup_tree_read_unknown'') (\<lambda>_.
     and_then (lease_row D L now db) (\<lambda>c.
     and_then (owned_attempt L i db) (\<lambda>a.
     let q = finite_of exited; t = utc_of observed
     in and_then (refuse_if (at_operation a \<noteq> ''CANCEL_PROTECTION'' \<or> at_owner_hash a \<noteq> owner_hash
          \<or> at_status a \<in> set RESOLVED \<or> \<not> tree_of_owner (le_strategy L) entry_broker (target_order a db)
          \<or> stale_read t a) ''cleanup_tree_binding_changed'') (\<lambda>_.
        and_then (refuse_if (case recorded_tree a of None \<Rightarrow> False
              | Some (ks, p) \<Rightarrow> ks \<noteq> children \<or> q < p) ''cleanup_tree_execution_regressed'') (\<lambda>_.
        write_attempt i
          (a\<lparr>at_status := (if terminal then ''TERMINAL'' else if working then ''WORKING'' else ''UNKNOWN''),
             at_evidence := Some (TreeRead entry_broker children q terminal working t), at_read := Some t,
             at_executor := le_executor L, at_fence := le_fence L, at_revision := at_revision a + 1\<rparr>) db)))))"

section \<open>Transactions\<close>

text \<open>
  One committed transaction of the journal, or one of the control store and the tables it shares. The
  attempts are written by the journal alone, so the store's step leaves what it sees of them unchanged.
\<close>

datatype journal_label =
    Control control_label
  | Prepared string
  | Dispatched string
  | ProvenUnsent string
  | ReadOrder string string rat
  | ReadTree string rat
  | ReadNative string

inductive journal_step :: "digest_port \<Rightarrow> journal_db \<Rightarrow> journal_label \<Rightarrow> journal_db \<Rightarrow> bool" for D where
  jn_control: "control_step (dp_json D) (jd_control db) l c \<Longrightarrow> cd_attempts c = cd_attempts (jd_control db)
    \<Longrightarrow> journal_step D db (Control l) (db\<lparr>jd_control := c\<rparr>)"
| jn_native: "prepare_native D L entry managed binding now db = Inr (v, db1)
    \<Longrightarrow> journal_step D db (Prepared (av_id v)) db1"
| jn_prepare: "prepare D L oid operation n h r now db = Inr (v, db1) \<Longrightarrow> journal_step D db (Prepared (av_id v)) db1"
| jn_dispatch: "dispatch D L i now db = Inr (v, db1) \<Longrightarrow> journal_step D db (Dispatched i) db1"
| jn_unsent: "prove_prepared_not_sent D L i now db = Inr (v, db1) \<Longrightarrow> journal_step D db (ProvenUnsent i) db1"
| jn_read: "reconcile_attempt D L i broker client status (Fin q) observed now db = Inr (v, db1)
    \<Longrightarrow> journal_step D db (ReadOrder i status q) db1"
| jn_tree: "reconcile_tree D L i h entry_broker children (Fin q) terminal working observed now db = Inr (v, db1)
    \<Longrightarrow> journal_step D db (ReadTree i q) db1"
| jn_outcome: "record_native_outcome D L i outcome now db = Inr (v, db1) \<Longrightarrow> journal_step D db (ReadNative i) db1"

inductive_cases journal_stepE: "journal_step D db l db1"

end
