(* ===== verification/CleanupJournalSpec.thy ===== *)
theory CleanupJournalSpec
  imports CleanupJournal BotControlSpec
begin

text \<open>
  What the cleanup journal promises together with the control store: one committed call per attempt,
  one uncertain exit per place, reads that only move forward, and no permitted entry while an attempt
  is uncertain.
\<close>

section \<open>What a transaction changes\<close>

definition same_identity :: "attempt \<Rightarrow> attempt \<Rightarrow> bool" where
  "same_identity a b \<longleftrightarrow> at_command b = at_command a \<and> at_strategy b = at_strategy a \<and> at_account b = at_account a
     \<and> at_symbol b = at_symbol a \<and> at_operation b = at_operation a \<and> at_requested b = at_requested a
     \<and> at_target b = at_target a \<and> at_client b = at_client a \<and> at_kind b = at_kind a"

fun moves :: "journal_label \<Rightarrow> string \<Rightarrow> attempt \<Rightarrow> attempt \<Rightarrow> bool" where
  "moves (Dispatched j) i a b \<longleftrightarrow> j = i \<and> at_status a = ''PREPARED'' \<and> at_dispatched a = None
     \<and> at_status b = ''MAY_HAVE_SENT'' \<and> at_dispatched b \<noteq> None \<and> at_evidence b = at_evidence a"
| "moves (ProvenUnsent j) i a b \<longleftrightarrow> j = i \<and> at_status a = ''PREPARED'' \<and> at_dispatched a = None
     \<and> at_status b = ''PROVEN_NOT_SENT'' \<and> at_dispatched b = None \<and> (\<exists>t. at_evidence b = Some (NotSent t))"
| "moves (ReadOrder j status q) i a b \<longleftrightarrow> j = i \<and> unresolved a
     \<and> at_status b = (if status \<in> set TERMINAL_READS then ''TERMINAL'' else ''WORKING'') \<and> at_dispatched b = at_dispatched a
     \<and> recorded_fill b = Some q \<and> 0 \<le> q \<and> (\<forall>p. recorded_fill a = Some p \<longrightarrow> p \<le> q)
     \<and> (\<exists>r. at_requested a = Some r \<and> q \<le> r \<and> (status = ''filled'' \<longrightarrow> q = r))"
| "moves (ReadTree j q) i a b \<longleftrightarrow> j = i \<and> unresolved a \<and> at_operation a = ''CANCEL_PROTECTION''
     \<and> at_status b \<in> {''TERMINAL'', ''WORKING'', ''UNKNOWN''} \<and> at_dispatched b = at_dispatched a
     \<and> recorded_fill b = None"
| "moves (ReadNative j) i a b \<longleftrightarrow> j = i \<and> at_status a \<noteq> ''TERMINAL'' \<and> at_dispatched a \<noteq> None
     \<and> at_kind a \<in> set NATIVE_KINDS
     \<and> at_status b \<in> {''TERMINAL'', ''UNKNOWN''} \<and> at_dispatched b = at_dispatched a \<and> recorded_fill b = None"
| "moves _ i a b \<longleftrightarrow> False"

definition freshly :: "stop_lease \<Rightarrow> attempt \<Rightarrow> journal_db \<Rightarrow> bool" where
  "freshly L a db \<longleftrightarrow> at_command a = le_command L \<and> at_strategy a = le_strategy L \<and> at_dispatched a = None
     \<and> at_evidence a = None \<and> at_status a \<in> {''PREPARED'', ''WORKING''}
     \<and> (at_kind a \<in> set NATIVE_KINDS \<longrightarrow> at_operation a = ''CANCEL_PROTECTION'')
     \<and> (\<forall>(j, b) \<in> set (jd_attempts db). is_exit a \<and> is_exit b \<and> unresolved b \<longrightarrow> \<not> same_place a b)"

lemma set_attempts_parts [simp]:
  "jd_attempts (set_attempts d db) = d" "cd_states (jd_control (set_attempts d db)) = cd_states (jd_control db)"
  "cd_commands (jd_control (set_attempts d db)) = cd_commands (jd_control db)"
  "cd_attempts (jd_control (set_attempts d db)) = shown d" "jd_book (set_attempts d db) = jd_book db"
  by (simp_all add: set_attempts_def)

lemma insert_attempt_Inr:
  "insert_attempt i a db = Inr (v, db1) \<longleftrightarrow>
   \<not> list_ex (clashes i a) (jd_attempts db) \<and> v = view_of i a \<and> db1 = set_attempts (jd_attempts db @ [(i, a)]) db"
  by (auto simp: insert_attempt_def)

lemma view_id [simp]: "av_id (view_of i a) = i"
  by (simp add: view_of_def)

lemma inserted_fresh:
  assumes "insert_attempt i a db = Inr (v, db1)" "at_status a \<in> {''PREPARED'', ''WORKING''}"
  shows "\<forall>(j, b) \<in> set (jd_attempts db). is_exit a \<and> is_exit b \<and> unresolved b \<longrightarrow> \<not> same_place a b"
    and "map_of (jd_attempts db) i = None"
proof -
  have "\<not> clashes i a (j, b)" if "(j, b) \<in> set (jd_attempts db)" for j b
    using assms(1) that by (auto simp: insert_attempt_Inr list_ex_iff)
  moreover have "unresolved a" using assms(2) by (auto simp: unresolved_def RESOLVED_def)
  ultimately show "\<forall>(j, b) \<in> set (jd_attempts db). is_exit a \<and> is_exit b \<and> unresolved b \<longrightarrow> \<not> same_place a b"
    and "map_of (jd_attempts db) i = None"
    by (fastforce simp: clashes_def map_of_eq_None_iff)+
qed

lemma owned_attempt_Inr:
  "owned_attempt L i db = Inr a \<longleftrightarrow> map_of (jd_attempts db) i = Some a \<and> at_command a = le_command L
     \<and> at_strategy a = le_strategy L \<and> at_generation a = le_generation L"
  by (auto simp: owned_attempt_def res_simps split: option.splits)

lemma inserted:
  assumes "insert_attempt i a db = Inr (v, db1)" "freshly L a (db\<lparr>jd_attempts := []\<rparr>)"
  shows "av_id v = i" "map_of (jd_attempts db) i = None" "freshly L a db"
    "db1 = set_attempts (jd_attempts db @ [(i, a)]) db"
  using assms inserted_fresh[OF assms(1)] by (auto simp: insert_attempt_Inr freshly_def)

lemma native_Inr:
  assumes "prepare_native D L entry managed binding now db = Inr (v, db1)"
  obtains "db1 = db"
  | c a where "lease_row D L now db = Inr c" "map_of (jd_attempts db) (av_id v) = None" "freshly L a db"
      "db1 = set_attempts (jd_attempts db @ [(av_id v, a)]) db"
proof -
  let ?i = "dp_uuid5 D (le_command L) (''native:'' @ entry @ '':'' @ show_opt managed @ '':'' @ binding)"
  show thesis
  proof (cases "map_of (jd_attempts db) ?i")
    case None
    have "\<exists>c e h. lease_row D L now db = Inr c \<and>
        insert_attempt ?i (native_attempt D L e managed binding ?i h (utc_of now)) db = Inr (v, db1)"
      using assms None unfolding prepare_native_def
      by (auto simp: res_simps Let_def simp del: append.simps split: option.split_asm)
    then obtain c e h where l: "lease_row D L now db = Inr c" and
      i: "insert_attempt ?i (native_attempt D L e managed binding ?i h (utc_of now)) db = Inr (v, db1)" by blast
    have "freshly L (native_attempt D L e managed binding ?i h (utc_of now)) (db\<lparr>jd_attempts := []\<rparr>)"
      by (simp add: freshly_def native_attempt_def)
    from inserted[OF i this] show thesis using that(2)[OF l] by simp
  next
    case (Some a)
    then have "db1 = db"
      using assms unfolding prepare_native_def
      by (auto simp: res_simps Let_def simp del: append.simps split: option.split_asm)
    then show thesis by (rule that(1))
  qed
qed

lemma prepare_Inr:
  assumes "prepare D L oid operation n h r now db = Inr (v, db1)"
  obtains "db1 = db"
  | c a where "lease_row D L now db = Inr c" "map_of (jd_attempts db) (av_id v) = None" "freshly L a db"
      "db1 = set_attempts (jd_attempts db @ [(av_id v, a)]) db"
proof -
  let ?i = "dp_uuid5 D (le_command L) (oid @ '':'' @ operation @ '':'' @ show_int n)"
  show thesis
  proof (cases "map_of (jd_attempts db) ?i")
    case None
    have "\<exists>c o'. lease_row D L now db = Inr c \<and>
        insert_attempt ?i (new_attempt_row L o' operation n h r ?i (utc_of now)) db = Inr (v, db1)"
      using assms None unfolding prepare_def
      by (simp only: res_simps Let_def option.case) blast
    then obtain c o' where l: "lease_row D L now db = Inr c" and
      i: "insert_attempt ?i (new_attempt_row L o' operation n h r ?i (utc_of now)) db = Inr (v, db1)" by blast
    have "freshly L (new_attempt_row L o' operation n h r ?i (utc_of now)) (db\<lparr>jd_attempts := []\<rparr>)"
      by (simp add: freshly_def new_attempt_row_def NATIVE_KINDS_def)
    from inserted[OF i this] show thesis using that(2)[OF l] by simp
  next
    case (Some a)
    then have "db1 = db"
      using assms unfolding prepare_def
      by (simp only: res_simps Let_def option.case sum.inject prod.inject) blast
    then show thesis by (rule that(1))
  qed
qed

definition wrote :: "digest_port \<Rightarrow> journal_label \<Rightarrow> string \<Rightarrow> journal_db \<Rightarrow> journal_db \<Rightarrow> bool" where
  "wrote D l i db db1 \<longleftrightarrow>
     (\<exists>L now c a b. lease_row D L now db = Inr c \<and> map_of (jd_attempts db) i = Some a \<and> at_command a = le_command L
        \<and> at_strategy a = le_strategy L \<and> same_identity a b \<and> moves l i a b
        \<and> db1 = set_attempts (AList.update i b (jd_attempts db)) db)"

lemma wroteI:
  "lease_row D L now db = Inr c \<Longrightarrow> owned_attempt L i db = Inr a \<Longrightarrow> same_identity a b \<Longrightarrow> moves l i a b
   \<Longrightarrow> write_attempt i b db = Inr (v, db1) \<Longrightarrow> wrote D l i db db1"
  by (auto simp: wrote_def owned_attempt_Inr write_attempt_def)

lemma dispatch_wrote: "dispatch D L i now db = Inr (v, db1) \<Longrightarrow> wrote D (Dispatched i) i db db1"
  unfolding dispatch_def
  by (simp only: res_simps) (elim exE conjE, rule wroteI, auto simp: same_identity_def)

lemma unsent_wrote: "prove_prepared_not_sent D L i now db = Inr (v, db1) \<Longrightarrow> wrote D (ProvenUnsent i) i db db1"
  unfolding prove_prepared_not_sent_def
  by (simp only: res_simps) (elim exE conjE, rule wroteI, auto simp: same_identity_def)

lemma read_wrote:
  assumes "reconcile_attempt D L i broker client status (Fin q) observed now db = Inr (v, db1)"
  shows "wrote D (ReadOrder i status q) i db db1"
proof -
  from assms obtain c and a :: attempt and requested where
    r: "lease_row D L now db = Inr c" "owned_attempt L i db = Inr a" "at_status a \<notin> set RESOLVED" "0 \<le> q"
      "at_requested a = Some requested" "q \<le> requested" "status = ''filled'' \<Longrightarrow> q = requested"
      "\<forall>p. recorded_fill a = Some p \<longrightarrow> p \<le> q"
      "write_attempt i
              (a\<lparr>at_status := (if status \<in> set TERMINAL_READS then ''TERMINAL'' else ''WORKING''),
                 at_evidence := Some (OrderRead broker client status q (utc_of observed)), at_read := Some (utc_of observed),
                 at_executor := le_executor L, at_fence := le_fence L, at_revision := at_revision a + 1\<rparr>) db = Inr (v, db1)"
    unfolding reconcile_attempt_def
    by (auto simp: res_simps Let_def finite_of_def good_quantity_def not_less split: option.splits)
  show ?thesis
    by (rule wroteI[OF r(1,2) _ _ r(9)]) (use r in \<open>auto simp: same_identity_def unresolved_def recorded_fill_def\<close>)
qed

lemma tree_wrote:
  assumes "reconcile_tree D L i h e ks (Fin q) terminal working observed now db = Inr (v, db1)"
  shows "wrote D (ReadTree i q) i db db1"
proof -
  from assms obtain c and a :: attempt and u where
    r: "lease_row D L now db = Inr c" "owned_attempt L i db = Inr a" "at_status a \<notin> set RESOLVED"
      "at_operation a = ''CANCEL_PROTECTION''"
      "write_attempt i
          (a\<lparr>at_status := (if terminal then ''TERMINAL'' else if working then ''WORKING'' else ''UNKNOWN''),
             at_evidence := Some (TreeRead e ks u terminal working (utc_of observed)), at_read := Some (utc_of observed),
             at_executor := le_executor L, at_fence := le_fence L, at_revision := at_revision a + 1\<rparr>) db = Inr (v, db1)"
    unfolding reconcile_tree_def by (auto simp: res_simps Let_def)
  show ?thesis
    by (rule wroteI[OF r(1,2) _ _ r(5)]) (use r in \<open>auto simp: same_identity_def unresolved_def recorded_fill_def\<close>)
qed

lemma outcome_wrote:
  assumes "record_native_outcome D L i outcome now db = Inr (v, db1)"
  shows "db1 = db \<or> wrote D (ReadNative i) i db db1"
proof (cases "db1 = db")
  case False
  with assms obtain c and a :: attempt and e :: broker_order and sent where
    r: "lease_row D L now db = Inr c" "owned_attempt L i db = Inr a" "at_kind a \<in> set NATIVE_KINDS" "at_status a \<noteq> ''TERMINAL''"
      "at_dispatched a = Some sent"
      "write_attempt i
           (a\<lparr>at_status := native_status outcome, at_evidence := Some (NativeRead (bo_id e) (bo_broker_id e) (at_binding a) outcome (utc_of now)),
              at_read := Some (utc_of now), at_completed := Some (utc_of now),
              at_revision := at_revision a + 1\<rparr>) db = Inr (v, db1)"
    unfolding record_native_outcome_def by (auto simp: res_simps split: if_split_asm option.split_asm)
  have "wrote D (ReadNative i) i db db1"
    by (rule wroteI[OF r(1,2) _ _ r(6)]) (use r in \<open>auto simp: same_identity_def unresolved_def recorded_fill_def native_status_def\<close>)
  then show ?thesis ..
qed simp

text \<open>Every transaction is one of four moves on the attempts.\<close>

lemma journal_cases [consumes 1, case_names control same added written]:
  assumes "journal_step D db l db1"
  obtains k c where "l = Control k" "control_step (dp_json D) (jd_control db) k c" "db1 = db\<lparr>jd_control := c\<rparr>"
      "cd_attempts c = cd_attempts (jd_control db)"
  | i where "db1 = db" "l \<in> {Prepared i, ReadNative i}"
  | L now c i a where "lease_row D L now db = Inr c" "map_of (jd_attempts db) i = None" "freshly L a db"
      "db1 = set_attempts (jd_attempts db @ [(i, a)]) db" "l = Prepared i"
  | i where "wrote D l i db db1"
  using assms
proof (cases rule: journal_step.cases)
  case (jn_control k c)
  then show thesis by (intro that(1)[of k c])
next
  case (jn_native L entry managed binding now v)
  from jn_native(2) show thesis by (rule native_Inr) (auto intro: that(2,3) simp: jn_native(1))
next
  case (jn_prepare L oid operation n h r now v)
  from jn_prepare(2) show thesis by (rule prepare_Inr) (auto intro: that(2,3) simp: jn_prepare(1))
next
  case (jn_outcome L i outcome now v)
  from outcome_wrote[OF jn_outcome(2)] show thesis
    by (rule disjE) (auto intro: that(2,4) simp: jn_outcome(1))
qed (auto intro: that(4) dest: dispatch_wrote unsent_wrote read_wrote tree_wrote)

section \<open>One call or one proof\<close>

definition decides :: "journal_label \<Rightarrow> string option" where
  "decides l = (case l of Dispatched i \<Rightarrow> Some i | ProvenUnsent i \<Rightarrow> Some i | _ \<Rightarrow> None)"

definition decided :: "journal_db \<Rightarrow> string \<Rightarrow> bool" where
  "decided db i \<longleftrightarrow> (\<exists>a. map_of (jd_attempts db) i = Some a \<and> at_status a \<noteq> ''PREPARED'')"

lemma moves_identity: "wrote D l i db db1 \<Longrightarrow> \<exists>a b. map_of (jd_attempts db) i = Some a \<and> same_identity a b \<and> moves l i a b
    \<and> jd_attempts db1 = AList.update i b (jd_attempts db) \<and> jd_control db1 = jd_control (set_attempts (jd_attempts db1) db)"
  by (auto simp: wrote_def set_attempts_def)

lemma moves_status: "moves l i a b \<Longrightarrow> at_status b \<noteq> ''PREPARED''"
  by (cases "(l, i, a, b)" rule: moves.cases) (auto split: if_splits)

lemma decides_moves:
  assumes "decides l = Some i" "moves l j a b"
  shows "j = i \<and> at_status a = ''PREPARED''"
  using assms by (cases l) (auto simp: decides_def)

lemma decided_step:
  assumes "journal_step D db l db1"
  shows "(decides l = Some i \<longrightarrow> \<not> decided db i \<and> decided db1 i) \<and> (decided db i \<longrightarrow> decided db1 i)"
  using assms
proof (cases rule: journal_cases)
  case (written j)
  from moves_identity[OF this] obtain a b where w: "map_of (jd_attempts db) j = Some a" "moves l j a b"
    "jd_attempts db1 = AList.update j b (jd_attempts db)" by blast
  have d: "decided db1 i \<longleftrightarrow> (if i = j then at_status b \<noteq> ''PREPARED'' else decided db i)"
    by (simp add: decided_def w(3) dict_simps)
  show ?thesis
  proof (cases "decides l = Some i")
    case True
    from decides_moves[OF True w(2)] w(1) have "\<not> decided db i" "i = j" by (simp_all add: decided_def)
    with d moves_status[OF w(2)] show ?thesis by simp
  next
    case False
    with d moves_status[OF w(2)] show ?thesis by simp
  qed
next
  case (added L now c j a)
  have "jd_attempts db1 = AList.update j a (jd_attempts db)" by (simp add: added(4) map_of_append_new[OF added(2)])
  with added(2,5) show ?thesis by (simp add: decided_def decides_def dict_simps)
next
  case (same j)
  then show ?thesis by (auto simp: decides_def)
qed (simp_all add: decided_def decides_def)

interpretation calls: one_shot_system "\<lambda>_. True" "journal_step D" "\<lambda>_. True" decides decided for D
  by unfold_locales (use decided_step in blast)+

text \<open>
  C16: Whatever executors, restarts and reads interleave, an attempt is decided at most once: its one
  broker call is committed at most once, and never for an attempt that was proven not sent, nor is an
  attempt proven not sent after its call was committed.
\<close>
theorem call_or_proof:
  assumes "run (journal_step D) db ls db1"
  shows "length (filter (\<lambda>l. decides l = Some i) ls) \<le> 1"
  by (rule calls.at_most_one_act[OF assms TrueI])

section \<open>Uncertain attempts keep the STOP open\<close>

definition held_open :: "journal_db \<Rightarrow> attempt \<Rightarrow> bool" where
  "held_open db a \<longleftrightarrow>
     (\<exists>st. map_of (cd_states (jd_control db)) (at_strategy a) = Some st \<and> cs_active st = Some (at_command a))"

definition attempt_ok :: "journal_db \<Rightarrow> attempt \<Rightarrow> bool" where
  "attempt_ok db a \<longleftrightarrow>
     (at_status a = ''PROVEN_NOT_SENT'' \<longrightarrow> at_dispatched a = None) \<and> (unresolved a \<longrightarrow> held_open db a)
     \<and> (at_kind a \<in> set NATIVE_KINDS \<longrightarrow> \<not> is_exit a)
     \<and> (\<forall>q. recorded_fill a = Some q \<longrightarrow> at_status a \<noteq> ''PREPARED'' \<and> 0 \<le> q \<and> (\<exists>r. at_requested a = Some r \<and> q \<le> r))"

definition rivals :: "attempt \<Rightarrow> attempt \<Rightarrow> bool" where
  "rivals a b \<longleftrightarrow> is_exit a \<and> is_exit b \<and> unresolved a \<and> unresolved b \<and> same_place a b"

definition one_exit :: "(string, attempt) dict \<Rightarrow> bool" where
  "one_exit d \<longleftrightarrow> (\<forall>i j a b. map_of d i = Some a \<longrightarrow> map_of d j = Some b \<longrightarrow> rivals a b \<longrightarrow> i = j)"

definition journal_ok :: "journal_db \<Rightarrow> bool" where
  "journal_ok db \<longleftrightarrow> keys_distinct (jd_attempts db) \<and> cd_attempts (jd_control db) = shown (jd_attempts db)
     \<and> (\<forall>i a. map_of (jd_attempts db) i = Some a \<longrightarrow> attempt_ok db a) \<and> one_exit (jd_attempts db)"

lemma lease_held:
  assumes "lease_row D L now db = Inr c" "at_command a = le_command L" "at_strategy a = le_strategy L"
  shows "held_open db a"
  using assms by (auto simp: lease_row_def leased_Inr hydrate_Inr held_open_def)

lemma moves_resolved:
  assumes "moves l i a b" "attempt_ok db a"
  shows "unresolved a" "at_status b = ''PROVEN_NOT_SENT'' \<longrightarrow> at_dispatched b = None"
proof -
  have p: "at_status a = ''PROVEN_NOT_SENT'' \<Longrightarrow> at_dispatched a = None" using assms(2) by (simp add: attempt_ok_def)
  show "unresolved a" "at_status b = ''PROVEN_NOT_SENT'' \<longrightarrow> at_dispatched b = None"
    using assms(1) p
    by (cases "(l, i, a, b)" rule: moves.cases; force simp: unresolved_def RESOLVED_def split: if_splits)+
qed

lemma moves_fill:
  assumes "moves l i a b" "attempt_ok db a"
  shows "recorded_fill b = Some q \<longrightarrow> 0 \<le> q \<and> (\<exists>r. at_requested a = Some r \<and> q \<le> r)"
    "is_exit a \<longrightarrow> recorded_fill a = Some p \<longrightarrow> (\<exists>q. recorded_fill b = Some q \<and> p \<le> q)"
proof -
  have f: "recorded_fill a = Some q \<Longrightarrow> at_status a \<noteq> ''PREPARED'' \<and> 0 \<le> q \<and> (\<exists>r. at_requested a = Some r \<and> q \<le> r)" for q
    using assms(2) by (simp add: attempt_ok_def)
  have n: "at_kind a \<in> set NATIVE_KINDS \<Longrightarrow> \<not> is_exit a" using assms(2) by (simp_all add: attempt_ok_def)
  have c: "at_operation a = ''CANCEL_PROTECTION'' \<Longrightarrow> \<not> is_exit a" by (simp add: is_exit_def)
  have e: "at_evidence b = at_evidence a \<Longrightarrow> recorded_fill b = recorded_fill a"
    "at_evidence b = Some (NotSent t) \<Longrightarrow> recorded_fill b = None" for t
    by (simp_all add: recorded_fill_def)
  show "recorded_fill b = Some q \<longrightarrow> 0 \<le> q \<and> (\<exists>r. at_requested a = Some r \<and> q \<le> r)"
    "is_exit a \<longrightarrow> recorded_fill a = Some p \<longrightarrow> (\<exists>q. recorded_fill b = Some q \<and> p \<le> q)"
    using assms(1) f[of q] f[of p] n c e
    by (cases "(l, i, a, b)" rule: moves.cases; auto)+
qed

lemma unresolved_shown:
  assumes "keys_distinct d" "map_of d i = Some a" "unresolved a"
  shows "list_ex (\<lambda>(s, status). s = at_strategy a \<and> status \<notin> {''TERMINAL'', ''PROVEN_NOT_SENT''}) (shown d)"
  using assms map_of_SomeD[OF assms(2)] by (force simp: shown_def list_ex_iff unresolved_def RESOLVED_def)

lemma control_keeps_open:
  assumes "control_step J (jd_control db) k c" "held_open db a"
    and "attempt_unresolved (at_strategy a) (jd_control db)"
  shows "held_open (db\<lparr>jd_control := c\<rparr>) a"
  using assms(1)
proof (cases rule: control_cases)
  case (asked clock r x)
  from asked(1) show ?thesis
    by (cases rule: request_Inr) (use assms(2) asked(2) in \<open>auto simp: held_open_def dict_simps hydrate_Inr\<close>)
next
  case (settled clock i census lease st)
  from settled(1) show ?thesis
    by (rule settle_Inr) (use assms(2,3) in \<open>auto simp: held_open_def dict_simps\<close>)
qed (use assms(2) in \<open>auto simp: held_open_def dict_simps hydrate_Inr\<close>)

lemma one_exit_update:
  assumes d: "one_exit d"
    and new: "\<And>j x. map_of d j = Some x \<Longrightarrow> j \<noteq> i \<Longrightarrow> \<not> rivals x b \<and> \<not> rivals b x"
  shows "one_exit (AList.update i b d)"
  unfolding one_exit_def
proof (intro allI impI)
  fix j k x y
  assume h: "map_of (AList.update i b d) j = Some x" "map_of (AList.update i b d) k = Some y" "rivals x y"
  show "j = k"
  proof (cases "j = i \<or> k = i")
    case True
    then show ?thesis using h new[of k y] new[of j x] by (auto simp: dict_simps split: if_splits)
  next
    case False
    then have "map_of d j = Some x" "map_of d k = Some y" using h(1,2) by (simp_all add: dict_simps)
    with d h(3) show ?thesis unfolding one_exit_def by blast
  qed
qed

lemma journal_ok_step:
  assumes ok: "journal_ok db" and "journal_step D db l db1"
  shows "journal_ok db1"
  using assms(2)
proof (cases rule: journal_cases)
  case (control k c)
  have "attempt_ok db1 a" if "map_of (jd_attempts db) i = Some a" for i a
  proof -
    have "attempt_ok db a" using ok that by (simp add: journal_ok_def)
    moreover have "held_open db1 a" if u: "unresolved a"
      unfolding control(3)
    proof (rule control_keeps_open[OF control(2)])
      show "held_open db a" using \<open>attempt_ok db a\<close> u by (simp add: attempt_ok_def)
      show "attempt_unresolved (at_strategy a) (jd_control db)"
        using unresolved_shown[OF _ \<open>map_of _ i = Some a\<close> u] ok by (simp add: journal_ok_def attempt_unresolved_def)
    qed
    ultimately show ?thesis by (simp add: attempt_ok_def)
  qed
  with ok control show ?thesis by (simp add: journal_ok_def)
next
  case (added L now c i a)
  have h: "held_open db a" using lease_held[OF added(1)] added(3) by (simp add: freshly_def)
  have s: "held_open db1 = held_open db" by (rule ext) (simp add: held_open_def added(4))
  have e: "attempt_ok db1 = attempt_ok db" by (rule ext) (simp add: attempt_ok_def s)
  have a: "attempt_ok db a" using h added(3) by (auto simp: attempt_ok_def freshly_def recorded_fill_def is_exit_def)
  have u: "jd_attempts db1 = AList.update i a (jd_attempts db)" by (simp add: added(4) map_of_append_new[OF added(2)])
  have "one_exit (jd_attempts db1)"
    unfolding u
  proof (rule one_exit_update)
    show "one_exit (jd_attempts db)" using ok by (simp add: journal_ok_def)
    show "\<not> rivals x a \<and> \<not> rivals a x" if "map_of (jd_attempts db) j = Some x" for j x
      using added(3) map_of_SomeD[OF that] by (auto simp: freshly_def rivals_def same_place_def)
  qed
  moreover have "attempt_ok db1 b" if "map_of (jd_attempts db1) j = Some b" for j b
    using ok that a unfolding journal_ok_def u e by (auto simp: dict_simps split: if_splits)
  ultimately show ?thesis
    using ok by (simp add: journal_ok_def u dict_simps) (simp add: added(4) map_of_append_new[OF added(2)])
next
  case (written i)
  then obtain L now c a b where w: "lease_row D L now db = Inr c" "map_of (jd_attempts db) i = Some a"
    "at_command a = le_command L" "at_strategy a = le_strategy L" "same_identity a b" "moves l i a b"
    "db1 = set_attempts (AList.update i b (jd_attempts db)) db"
    by (auto simp: wrote_def)
  have o: "attempt_ok db a" using ok w(2) by (simp add: journal_ok_def)
  note m = moves_resolved[OF w(6) o] moves_fill[OF w(6) o]
  have h: "held_open db b"
    using lease_held[OF w(1)] w(3-5) by (simp add: same_identity_def)
  have s: "held_open db1 = held_open db" by (rule ext) (simp add: held_open_def w(7))
  have e: "attempt_ok db1 = attempt_ok db" by (rule ext) (simp add: attempt_ok_def s)
  have b: "attempt_ok db b"
    using m h w(5) o moves_status[OF w(6)] by (auto simp: attempt_ok_def same_identity_def is_exit_def)
  have "one_exit (jd_attempts db1)"
    unfolding w(7) set_attempts_parts
  proof (rule one_exit_update)
    show "one_exit (jd_attempts db)" using ok by (simp add: journal_ok_def)
    show "\<not> rivals x b \<and> \<not> rivals b x" if "map_of (jd_attempts db) j = Some x" "j \<noteq> i" for j x
    proof -
      have "\<not> rivals x a" "\<not> rivals a x"
        using ok w(2) that unfolding journal_ok_def one_exit_def by blast+
      then show ?thesis
        using m(1) w(5) by (auto simp: rivals_def is_exit_def same_place_def same_identity_def)
    qed
  qed
  moreover have "attempt_ok db1 x" if "map_of (jd_attempts db1) j = Some x" for j x
    using ok that b unfolding journal_ok_def e by (auto simp: w(7) dict_simps split: if_splits)
  ultimately show ?thesis
    using ok by (simp add: journal_ok_def w(7) dict_simps)
qed (use ok in auto)

lemma journal_empty: "jd_attempts db = [] \<Longrightarrow> cd_attempts (jd_control db) = [] \<Longrightarrow> journal_ok db"
  by (simp add: journal_ok_def shown_def one_exit_def)

interpretation journal: invariant_system
  "\<lambda>db. jd_attempts db = [] \<and> cd_attempts (jd_control db) = []" "journal_step D" journal_ok for D
  by unfold_locales (auto intro: journal_empty journal_ok_step)

text \<open>
  C15: From an empty journal on, no entry and no replacement of a bot is permitted while any cleanup
  attempt of its strategy is uncertain: every attempt is terminal or proven not sent.
\<close>
theorem entries_need_resolved_cleanup:
  assumes "run (journal_step D) db0 ls db" "jd_attempts db0 = []" "cd_attempts (jd_control db0) = []"
    and "journal_step D db (Control k) db1" "permits sid k = Some g"
    and "map_of (jd_attempts db) i = Some a" "at_strategy a = sid"
  shows "at_status a \<in> {''TERMINAL'', ''PROVEN_NOT_SENT''}"
proof (rule ccontr)
  assume "at_status a \<notin> {''TERMINAL'', ''PROVEN_NOT_SENT''}"
  then have u: "unresolved a" by (simp add: unresolved_def RESOLVED_def)
  have "journal_ok db" using journal.run_from_init[OF assms(1)] assms(2,3) by blast
  then have h: "held_open db a" using assms(6) u by (simp add: journal_ok_def attempt_ok_def)
  from assms(4) obtain c where c: "control_step (dp_json D) (jd_control db) k c"
    by (cases rule: journal_cases) (auto simp: wrote_def)
  then show False
  proof (cases rule: control_cases)
    case (bump sid' st)
    then show False using assms(5,7) h by (auto simp: permits_def held_open_def hydrate_Inr admission_open_def split: if_split_asm)
  qed (use assms(5) in \<open>auto simp: permits_def\<close>)
qed

text \<open>
  C17: From an empty journal on, a strategy has at most one unresolved exit attempt per account and
  symbol, and an attempt's recorded fill is between zero and the quantity it asked for.
\<close>
theorem one_uncertain_exit:
  assumes "run (journal_step D) db0 ls db" "jd_attempts db0 = []" "cd_attempts (jd_control db0) = []"
    and "map_of (jd_attempts db) i = Some a"
  shows "(\<forall>q. recorded_fill a = Some q \<longrightarrow> 0 \<le> q \<and> (\<exists>r. at_requested a = Some r \<and> q \<le> r))
    \<and> (\<forall>j b. map_of (jd_attempts db) j = Some b \<longrightarrow> i \<noteq> j \<longrightarrow> is_exit a \<longrightarrow> is_exit b \<longrightarrow> same_place a b
        \<longrightarrow> \<not> unresolved a \<or> \<not> unresolved b)"
proof -
  have "journal_ok db" using journal.run_from_init[OF assms(1)] assms(2,3) by blast
  with assms(4) show ?thesis unfolding journal_ok_def attempt_ok_def one_exit_def rivals_def by blast
qed

section \<open>Reads only move forward\<close>

definition advances :: "attempt \<Rightarrow> attempt \<Rightarrow> bool" where
  "advances a b \<longleftrightarrow> same_identity a b \<and> (\<not> unresolved a \<longrightarrow> b = a)
     \<and> (is_exit a \<longrightarrow> (\<forall>p. recorded_fill a = Some p \<longrightarrow> (\<exists>q. recorded_fill b = Some q \<and> p \<le> q)))"

lemma advances_refl [simp]: "advances a a"
  by (auto simp: advances_def same_identity_def)

lemma advances_trans: "advances a b \<Longrightarrow> advances b c \<Longrightarrow> advances a c"
  unfolding advances_def
proof (elim conjE, intro conjI impI allI)
  assume i: "same_identity a b" "same_identity b c"
  then show "same_identity a c" by (simp add: same_identity_def)
  assume u: "\<not> unresolved a \<longrightarrow> b = a" "\<not> unresolved b \<longrightarrow> c = b"
  show "c = a" if "\<not> unresolved a" using u that by blast
  assume f: "is_exit a \<longrightarrow> (\<forall>p. recorded_fill a = Some p \<longrightarrow> (\<exists>q. recorded_fill b = Some q \<and> p \<le> q))"
    "is_exit b \<longrightarrow> (\<forall>p. recorded_fill b = Some p \<longrightarrow> (\<exists>q. recorded_fill c = Some q \<and> p \<le> q))"
  fix p assume p: "is_exit a" "recorded_fill a = Some p"
  then obtain q where q: "recorded_fill b = Some q" "p \<le> q" using f(1) by blast
  moreover have "is_exit b" using i(1) p(1) by (simp add: same_identity_def is_exit_def)
  ultimately obtain r where "recorded_fill c = Some r" "q \<le> r" using f(2) by blast
  with q(2) show "\<exists>q. recorded_fill c = Some q \<and> p \<le> q" by (intro exI[of _ r]) simp
qed

lemma advances_step:
  assumes "journal_step D db l db1" "journal_ok db" "map_of (jd_attempts db) i = Some a"
  shows "\<exists>b. map_of (jd_attempts db1) i = Some b \<and> advances a b"
  using assms(1)
proof (cases rule: journal_cases)
  case (written j)
  from moves_identity[OF this] obtain x y where w: "map_of (jd_attempts db) j = Some x" "same_identity x y"
    "moves l j x y" "jd_attempts db1 = AList.update j y (jd_attempts db)" by blast
  have "attempt_ok db x" using assms(2) w(1) by (simp add: journal_ok_def)
  from moves_resolved[OF w(3) this] moves_fill[OF w(3) this] have "advances x y" using w(2) by (auto simp: advances_def)
  then show ?thesis using w assms(3) by (cases "i = j") (auto simp: dict_simps)
next
  case (added L now c j x)
  have "jd_attempts db1 = AList.update j x (jd_attempts db)" by (simp add: added(4) map_of_append_new[OF added(2)])
  then show ?thesis using assms(3) added(2) by (auto simp: dict_simps)
qed (use assms(3) in auto)

lemma advances_run:
  "run (journal_step D) db ls db1 \<Longrightarrow> journal_ok db \<Longrightarrow> map_of (jd_attempts db) i = Some a \<Longrightarrow>
   \<exists>b. map_of (jd_attempts db1) i = Some b \<and> advances a b"
proof (induction rule: run.induct)
  case (run_snoc s ls t l u)
  then obtain b where b: "map_of (jd_attempts t) i = Some b" "advances a b" by blast
  have "journal_ok t" using journal.run_preserves[OF run_snoc.hyps(1)] run_snoc.prems(1) by blast
  from advances_step[OF run_snoc.hyps(2) this b(1)] b(2) show ?case using advances_trans by blast
qed auto

text \<open>
  A resolved attempt is never touched again, and the fill recorded for an exit attempt never
  decreases, whatever reads, takeovers and restarts follow.
\<close>
theorem reads_move_forward:
  assumes "run (journal_step D) db0 ls db" "jd_attempts db0 = []" "cd_attempts (jd_control db0) = []"
    and "run (journal_step D) db ls' db1" "map_of (jd_attempts db) i = Some a"
  shows "\<exists>b. map_of (jd_attempts db1) i = Some b \<and> (\<not> unresolved a \<longrightarrow> b = a)
    \<and> (is_exit a \<longrightarrow> recorded_fill a = Some p \<longrightarrow> (\<exists>q. recorded_fill b = Some q \<and> p \<le> q))"
proof -
  have "journal_ok db" using journal.run_from_init[OF assms(1)] assms(2,3) by blast
  from advances_run[OF assms(4) this assms(5)] show ?thesis unfolding advances_def by blast
qed

section \<open>A concrete cleanup\<close>

text \<open>
  A STOP of a strategy with one unsent sell order: the exit is prepared, its call committed, the order
  filled at the broker and read, the STOP settled, the bot switched on and a new entry permitted.
\<close>

definition jx_digest :: digest_port where
  "jx_digest = \<lparr>dp_json = ctl_json, dp_uuid5 = (\<lambda>n t. t), dp_sha256 = (\<lambda>_. ''h'')\<rparr>"

definition jx_sell :: broker_order where
  "jx_sell = ctl_entry_order\<lparr>bo_id := ''x'', bo_client_id := ''cx'', bo_side := ''sell''\<rparr>"

definition jx_start :: journal_db where
  "jx_start = \<lparr>jd_control = ctl_control\<lparr>cd_book := (cd_book ctl_control)\<lparr>ob_orders := [jx_sell]\<rparr>\<rparr>, jd_attempts = []\<rparr>"

abbreviation jx_control :: "control_db \<Rightarrow> journal_db \<Rightarrow> journal_db" where
  "jx_control c db \<equiv> db\<lparr>jd_control := c\<rparr>"

abbreviation "jx_hash \<equiv> replicate 64 CHR ''a''"

text \<open>A transaction of the control store, and one of the journal.\<close>

definition jx_on :: "(control_db \<Rightarrow> ('a \<times> control_db) result) \<Rightarrow> journal_db \<Rightarrow> journal_db" where
  "jx_on f db = jx_control (snd (projr (f (jd_control db)))) db"

definition jx_at :: "(journal_db \<Rightarrow> ('a \<times> journal_db) result) \<Rightarrow> journal_db \<Rightarrow> journal_db" where
  "jx_at f db = snd (projr (f db))"

definition jx_fill :: "control_db \<Rightarrow> control_db" where
  "jx_fill c = c\<lparr>cd_book := snd (update_order_from_report 7 ctl_report_of [] False (the (order_of ''x'' (cd_book c))) (cd_book c))\<rparr>"

definition jx_order_row :: "control_db \<Rightarrow> control_db" where
  "jx_order_row c = c\<lparr>cd_book := (cd_book c)\<lparr>ob_orders := ob_orders (cd_book c) @ [ctl_entry_order]\<rparr>\<rparr>"

definition "jx_seeded = jx_on (seed ctl_json ''S'') jx_start"
definition "jx_stopping = request ctl_json 10 (ctl_terms ''c1'' 0 ''STOP'')"
definition "jx_stopped = jx_on jx_stopping jx_seeded"
definition "jx_claiming = claim_stop ctl_json ''c1'' ''e1'' (Aware 20)"
definition "jx_claimed = jx_on jx_claiming jx_stopped"
definition "jx_lease = the (fst (projr (jx_claiming (jd_control jx_stopped))))"
definition "jx_preparing = prepare jx_digest jx_lease ''x'' ''SUBMIT_EXIT'' 0 jx_hash 1 (Aware 30)"
definition "jx_prepared = jx_at jx_preparing jx_claimed"
abbreviation "jx_id \<equiv> ''x:SUBMIT_EXIT:0''"
definition "jx_sending = dispatch jx_digest jx_lease jx_id (Aware 40)"
definition "jx_sent = jx_at jx_sending jx_prepared"
definition "jx_reported = jx_control (jx_fill (jd_control jx_sent)) jx_sent"
definition "jx_reading = reconcile_attempt jx_digest jx_lease jx_id ''b'' ''cx'' ''filled'' (Fin 1) (Aware 50) (Aware 60)"
definition "jx_read = jx_at jx_reading jx_reported"
definition "jx_settling = settle_stop ctl_json 100 ''c1'' (ctl_census 90) (Some jx_lease)"
definition "jx_settled = jx_on jx_settling jx_read"
definition "jx_reopening = request ctl_json 200 (ctl_terms ''c2'' 1 ''ON'')"
definition "jx_reopened = jx_on jx_reopening jx_settled"
definition "jx_ordered = jx_control (jx_order_row (jd_control jx_reopened)) jx_reopened"
definition "jx_permitting = authorize_entry ctl_json 300 ''o'' ''S'' 2 (Some (Aware 250)) None None"
definition "jx_permitted = jx_on jx_permitting jx_ordered"

abbreviation "jx_step \<equiv> journal_step jx_digest"

lemma jx_json: "dp_json jx_digest = ctl_json"
  by (simp add: jx_digest_def)

lemma jx_lift:
  assumes "control_step ctl_json (jd_control db) k c" "cd_attempts c = cd_attempts (jd_control db)"
  shows "jx_step db (Control k) (jx_control c db)"
  using jn_control[of jx_digest db k c] assms by (simp only: jx_json)

lemma jx_on_step:
  assumes "\<not> isl (f (jd_control db))" "\<And>x c. f (jd_control db) = Inr (x, c) \<Longrightarrow> control_step ctl_json (jd_control db) (l x) c"
    and "cd_attempts (snd (projr (f (jd_control db)))) = cd_attempts (jd_control db)"
  shows "jx_step db (Control (l (fst (projr (f (jd_control db)))))) (jx_on f db)"
  unfolding jx_on_def by (rule jx_lift[OF assms(2)[OF projr_pair[OF assms(1)]] assms(3)])

lemma jx_at_step:
  assumes "\<not> isl (f db)" "\<And>x c. f db = Inr (x, c) \<Longrightarrow> jx_step db l c"
  shows "jx_step db l (jx_at f db)"
  unfolding jx_at_def by (rule assms(2)[OF projr_pair[OF assms(1)]])

lemma jx_seed: "jx_step jx_start (Control Internal) jx_seeded"
  unfolding jx_seeded_def by (rule jx_on_step[where l = "\<lambda>_. Internal"]; (rule by_seed, assumption | code_simp))

lemma jx_stop: "jx_step jx_seeded (Control (Requested (fst (projr (jx_stopping (jd_control jx_seeded))))
    (rq_strategy (ctl_terms ''c1'' 0 ''STOP'')))) jx_stopped"
  unfolding jx_stopped_def
  by (rule jx_on_step[where l = "\<lambda>x. Requested x (rq_strategy (ctl_terms ''c1'' 0 ''STOP''))"];
      (unfold jx_stopping_def, rule by_request, assumption | code_simp))

lemma jx_claim: "jx_step jx_stopped (Control (Claimed jx_lease)) jx_claimed"
  unfolding jx_claimed_def jx_lease_def
proof (rule jx_on_step[where l = "\<lambda>x. Claimed (the x)"])
  fix x c assume c: "jx_claiming (jd_control jx_stopped) = Inr (x, c)"
  have "fst (projr (jx_claiming (jd_control jx_stopped))) \<noteq> None" by code_simp
  with c obtain L where "x = Some L" by auto
  with c show "control_step ctl_json (jd_control jx_stopped) (Claimed (the x)) c"
    by (auto simp: jx_claiming_def intro: by_claim)
qed code_simp+

lemma jx_prepare: "jx_step jx_claimed (Prepared jx_id) jx_prepared"
  unfolding jx_prepared_def
proof (rule jx_at_step)
  fix x c assume c: "jx_preparing jx_claimed = Inr (x, c)"
  have "av_id (fst (projr (jx_preparing jx_claimed))) = jx_id" by code_simp
  with c have "av_id x = jx_id" by simp
  with c jn_prepare[of jx_digest] show "jx_step jx_claimed (Prepared jx_id) c"
    unfolding jx_preparing_def by metis
qed code_simp

lemma jx_send: "jx_step jx_prepared (Dispatched jx_id) jx_sent"
  unfolding jx_sent_def by (rule jx_at_step; (unfold jx_sending_def, rule jn_dispatch, assumption | code_simp))

lemma jx_report: "jx_step jx_sent (Control Internal) jx_reported"
  unfolding jx_reported_def jx_fill_def
proof (rule jx_lift, rule by_report)
  show "order_of ''x'' (jd_book jx_sent) = Some (the (order_of ''x'' (jd_book jx_sent)))" by code_simp
  show "update_order_from_report 7 ctl_report_of [] False (the (order_of ''x'' (jd_book jx_sent))) (jd_book jx_sent)
    = (fst (update_order_from_report 7 ctl_report_of [] False (the (order_of ''x'' (jd_book jx_sent))) (jd_book jx_sent)),
       snd (update_order_from_report 7 ctl_report_of [] False (the (order_of ''x'' (jd_book jx_sent))) (jd_book jx_sent)))"
    by (rule surjective_pairing)
qed simp

lemma jx_observe: "jx_step jx_reported (ReadOrder jx_id ''filled'' 1) jx_read"
  unfolding jx_read_def by (rule jx_at_step; (unfold jx_reading_def, rule jn_read, assumption | code_simp))

lemma jx_settle: "jx_step jx_read (Control (Settled ''c1'')) jx_settled"
  unfolding jx_settled_def
  by (rule jx_on_step[where l = "\<lambda>_. Settled ''c1''"]; (unfold jx_settling_def, rule by_settle, assumption | code_simp))

lemma jx_reopen: "jx_step jx_settled (Control (Requested (fst (projr (jx_reopening (jd_control jx_settled))))
    (rq_strategy (ctl_terms ''c2'' 1 ''ON'')))) jx_reopened"
  unfolding jx_reopened_def
  by (rule jx_on_step[where l = "\<lambda>x. Requested x (rq_strategy (ctl_terms ''c2'' 1 ''ON''))"];
      (unfold jx_reopening_def, rule by_request, assumption | code_simp))

lemma jx_order: "jx_step jx_reopened (Control Internal) jx_ordered"
  unfolding jx_ordered_def
proof (rule jx_lift)
  have "order_of (bo_id ctl_entry_order) (jd_book jx_reopened) = None"
    "\<not> has_key ''bot_control_permit'' (bo_payload ctl_entry_order)" by code_simp+
  then show "control_step ctl_json (jd_control jx_reopened) Internal (jx_order_row (jd_control jx_reopened))"
    unfolding jx_order_row_def by (rule by_prepare)
qed (simp add: jx_order_row_def)

lemma jx_permit: "jx_step jx_ordered (Control (Permitted ''S'' ''o'' 2)) jx_permitted"
proof -
  have "pm_generation (fst (projr (jx_permitting (jd_control jx_ordered)))) = 2" by code_simp
  moreover have "jx_step jx_ordered (Control (Permitted ''S'' ''o''
      (pm_generation (fst (projr (jx_permitting (jd_control jx_ordered))))))) (jx_on jx_permitting jx_ordered)"
    by (rule jx_on_step[where l = "\<lambda>p. Permitted ''S'' ''o'' (pm_generation p)"];
        (unfold jx_permitting_def, rule by_entry, assumption | code_simp))
  ultimately show ?thesis unfolding jx_permitted_def by (simp only:)
qed

abbreviation "jx_labels \<equiv> [Control Internal,
    Control (Requested (fst (projr (jx_stopping (jd_control jx_seeded)))) (rq_strategy (ctl_terms ''c1'' 0 ''STOP''))),
    Control (Claimed jx_lease), Prepared jx_id, Dispatched jx_id, Control Internal]"

lemma jx_run: "run jx_step jx_start jx_labels jx_reported"
  by (intro run_Cons[where step = jx_step, OF jx_seed] run_Cons[where step = jx_step, OF jx_stop]
      run_Cons[where step = jx_step, OF jx_claim] run_Cons[where step = jx_step, OF jx_prepare]
      run_Cons[where step = jx_step, OF jx_send] run_one[where step = jx_step, OF jx_report])

abbreviation "jx_tail \<equiv> [Control (Settled ''c1''),
    Control (Requested (fst (projr (jx_reopening (jd_control jx_settled)))) (rq_strategy (ctl_terms ''c2'' 1 ''ON''))), Control Internal]"

lemma jx_closing: "run jx_step jx_read jx_tail jx_ordered"
  by (intro run_Cons[where step = jx_step, OF jx_settle] run_Cons[where step = jx_step, OF jx_reopen]
      run_one[where step = jx_step, OF jx_order])

lemma jx_half: "run jx_step jx_start (jx_labels @ [ReadOrder jx_id ''filled'' 1]) jx_read"
  by (rule run_append[OF run_one[where step = jx_step, OF jx_observe] jx_run])

lemma jx_whole: "run jx_step jx_start ((jx_labels @ [ReadOrder jx_id ''filled'' 1]) @ jx_tail) jx_ordered"
  by (rule run_append[OF jx_closing jx_half])

lemma jx_empty: "jd_attempts jx_start = []" "cd_attempts (jd_control jx_start) = []"
  by (simp_all add: jx_start_def ctl_control_def)

abbreviation "jx_row db \<equiv> the (map_of (jd_attempts db) jx_id)"

lemma jx_row_read: "map_of (jd_attempts jx_read) jx_id = Some (jx_row jx_read)" by code_simp
lemma jx_row_end: "map_of (jd_attempts jx_ordered) jx_id = Some (jx_row jx_ordered)" by code_simp

theorem call_or_proof_witness:
  "length (filter (\<lambda>l. decides l = Some jx_id) jx_labels) \<le> 1
   \<and> dispatch jx_digest jx_lease jx_id (Aware 41) jx_sent = Inl (ValueError ''cleanup_dispatch_uncertain_or_fenced'')"
  by (rule conjI[OF call_or_proof[OF jx_run]]) code_simp

theorem entries_need_resolved_cleanup_witness:
  "at_status (jx_row jx_ordered) \<in> {''TERMINAL'', ''PROVEN_NOT_SENT''}"
proof -
  have "at_strategy (jx_row jx_ordered) = ''S''" by code_simp
  moreover have "permits ''S'' (Permitted ''S'' ''o'' 2) = Some 2" by (simp add: permits_def)
  ultimately show ?thesis
    using entries_need_resolved_cleanup[OF jx_whole jx_empty jx_permit _ jx_row_end] by blast
qed

theorem one_uncertain_exit_witness:
  "recorded_fill (jx_row jx_read) = Some 1 \<and> at_requested (jx_row jx_read) = Some 1"
proof -
  have f: "recorded_fill (jx_row jx_read) = Some 1" by code_simp
  with one_uncertain_exit[OF jx_half jx_empty jx_row_read] obtain r where
    "at_requested (jx_row jx_read) = Some r" "1 \<le> r" by blast
  moreover have "at_requested (jx_row jx_read) = Some 1" by code_simp
  ultimately show ?thesis using f by simp
qed

theorem reads_move_forward_witness:
  "map_of (jd_attempts jx_ordered) jx_id = Some (jx_row jx_read) \<and> at_status (jx_row jx_read) = ''TERMINAL''"
proof -
  have t: "at_status (jx_row jx_read) = ''TERMINAL''" by code_simp
  then have "\<not> unresolved (jx_row jx_read)" by (simp add: unresolved_def RESOLVED_def)
  with reads_move_forward[OF jx_half jx_empty jx_closing jx_row_read] t show ?thesis by blast
qed

end
