(* ===== verification/PausePolicy.thy ===== *)
theory PausePolicy
  imports Prelude
begin

text \<open>
  \<open>market_data/momwarn_pause_policy.py\<close>: when the warning gateway pauses its feed, resumes it, or
  turns it off for good. Times are nonnegative nanoseconds that must not go back; where the source
  may read its clock, the time is an argument. \<open>_current\<close> is the last row of the history while it is
  set, one object seen through two names. The rendering of the snapshot is left out; what it prunes
  and alerts is \<open>alert_reasons\<close>.
\<close>

section \<open>Reasons\<close>

definition RECONNECT_EVENT_REASONS :: "string list" where
  "RECONNECT_EVENT_REASONS = [''disconnect'', ''policy_1008'', ''reconnect_1012'']"

definition MONITOR_REASONS :: "string list" where
  "MONITOR_REASONS =
     [''monitor_unreadable'', ''monitor_stale'', ''monitor_invalid'', ''monitor_sync_regressed'',
      ''monitor_sync_gap'', ''v2_startup_pending'', ''v2_startup_timeout'', ''publish_lag'', ''v2_bar_late'',
      ''provider_disconnected''] @ RECONNECT_EVENT_REASONS"

definition HARM_REASONS :: "string list" where
  "HARM_REASONS =
     [''oms_sync_slow_twice'', ''v2_cohort_late_twice'', ''load'', ''ram'', ''live_error'', ''reconnect_storm'']"

definition RECOVERY_READS :: int where "RECOVERY_READS = 3"
definition PAUSE_HISTORY_LIMIT :: nat where "PAUSE_HISTORY_LIMIT = 32"
definition FLAPPING_THRESHOLD :: nat where "FLAPPING_THRESHOLD = 6"
definition HOUR_NS :: int where "HOUR_NS = 3600000000000"
definition LONG_PAUSE_NS :: int where "LONG_PAUSE_NS = 600000000000"
definition RECONNECT_WINDOW_NS :: int where "RECONNECT_WINDOW_NS = 600000000000"
definition RECONNECT_THRESHOLD :: nat where "RECONNECT_THRESHOLD = 3"

datatype reason_class = Monitor | Harm | Unknown_reason

definition classify_reason :: "string \<Rightarrow> reason_class" where
  "classify_reason r =
     (if r \<in> set MONITOR_REASONS then Monitor else if r \<in> set HARM_REASONS then Harm else Unknown_reason)"

section \<open>State\<close>

record pause_row =
  pr_reason :: string
  pr_latest :: string
  pr_start :: int
  pr_end :: "int option"
  pr_duration :: int
  pr_outcome :: string

record pause_policy =
  pp_last_now :: "int option"
  pp_state :: string
  pp_reason :: "string option"
  pp_clean :: int
  pp_pauses :: int
  pp_episodes :: int
  pp_wire_pauses :: int
  pp_events :: int
  pp_interruptions :: int
  pp_history :: "pause_row list"
  pp_current :: bool
  pp_starts :: "int list"
  pp_flaps :: "int list"
  pp_reason_counts :: "(string, int) dict"
  pp_noise_counts :: "(string, int) dict"
  pp_alerts :: "string set"
  pp_reconnects :: "int list"
  pp_reconnect_count :: int
  pp_closed :: bool

definition new_policy :: pause_policy where
  "new_policy =
     \<lparr>pp_last_now = None, pp_state = ''paused'', pp_reason = Some ''v2_startup_pending'', pp_clean = 0,
      pp_pauses = 0, pp_episodes = 0, pp_wire_pauses = 0, pp_events = 0, pp_interruptions = 0,
      pp_history = [], pp_current = False, pp_starts = [], pp_flaps = [], pp_reason_counts = [],
      pp_noise_counts = [], pp_alerts = {}, pp_reconnects = [], pp_reconnect_count = 0, pp_closed = False\<rparr>"

text \<open>\<open>deque(maxlen=n).append\<close>, popping from the left while the head is old, and a counter.\<close>

definition push :: "nat \<Rightarrow> 'a \<Rightarrow> 'a list \<Rightarrow> 'a list" where
  "push n x xs = drop (Suc (length xs) - n) (xs @ [x])"

definition prune :: "int \<Rightarrow> int list \<Rightarrow> int list" where
  "prune bound xs = dropWhile (\<lambda>t. t \<le> bound) xs"

definition bump :: "string \<Rightarrow> (string, int) dict \<Rightarrow> (string, int) dict" where
  "bump k d = AList.update k ((case map_of d k of None \<Rightarrow> 0 | Some n \<Rightarrow> n) + 1) d"

definition policy_now :: "int \<Rightarrow> (pause_policy, unit) eff" where
  "policy_now now =
     bindE (getE pp_last_now) (\<lambda>seen.
     thenE (raise_if (now < 0) (ValueError ''policy time must be nonnegative integer monotonic nanoseconds''))
    (thenE (raise_if (case seen of None \<Rightarrow> False | Some t \<Rightarrow> now < t) (ValueError ''policy clock regressed''))
           (modifyE (\<lambda>s. s\<lparr>pp_last_now := Some now\<rparr>))))"

definition set_last :: "('a \<Rightarrow> 'a) \<Rightarrow> 'a list \<Rightarrow> 'a list" where
  "set_last f xs = (if xs = [] then [] else butlast xs @ [f (last xs)])"

definition finish_pause :: "int \<Rightarrow> string \<Rightarrow> pause_policy \<Rightarrow> pause_policy" where
  "finish_pause now outcome s =
     (if pp_current s
      then s\<lparr>pp_history := set_last (\<lambda>r. r\<lparr>pr_end := Some now, pr_duration := now - pr_start r,
                                           pr_outcome := outcome\<rparr>) (pp_history s),
             pp_current := False\<rparr>
      else s)"

definition begin_pause :: "string \<Rightarrow> int \<Rightarrow> pause_policy \<Rightarrow> pause_policy" where
  "begin_pause reason now s =
     s\<lparr>pp_pauses := pp_pauses s + 1, pp_episodes := pp_episodes s + 1, pp_events := pp_events s + 1,
       pp_starts := push (FLAPPING_THRESHOLD + 1) now (pp_starts s),
       pp_reason_counts := bump reason (pp_reason_counts s), pp_current := True,
       pp_history := push PAUSE_HISTORY_LIMIT
          \<lparr>pr_reason = reason, pr_latest = reason, pr_start = now, pr_end = None, pr_duration = 0,
           pr_outcome = ''paused''\<rparr> (pp_history s)\<rparr>"

section \<open>Windows\<close>

definition close_window :: "int \<Rightarrow> (pause_policy, unit) eff" where
  "close_window now =
     thenE (policy_now now)
    (modifyE (\<lambda>s.
       let s1 = (finish_pause now ''window_closed'' s)\<lparr>pp_closed := True, pp_alerts := {}\<rparr>
       in if pp_state s1 \<noteq> ''off''
          then s1\<lparr>pp_state := ''window_closed'', pp_reason := None, pp_clean := 0\<rparr> else s1))"

definition open_window :: "int \<Rightarrow> (pause_policy, unit) eff" where
  "open_window now =
     bindE (getE pp_closed) (\<lambda>closed'.
     if \<not> closed' then returnE ()
     else thenE (policy_now now)
         (modifyE (\<lambda>s.
            let s1 = s\<lparr>pp_closed := False\<rparr>
            in if pp_state s1 \<noteq> ''off''
               then s1\<lparr>pp_state := ''paused'', pp_reason := Some ''v2_startup_pending'', pp_clean := 0\<rparr> else s1)))"

section \<open>Trips and clean reads\<close>

text \<open>A reconnect event is counted; the fourth within the window becomes a storm.\<close>

definition prune_reconnects :: "int \<Rightarrow> pause_policy \<Rightarrow> pause_policy" where
  "prune_reconnects now s = s\<lparr>pp_reconnects := prune (now - RECONNECT_WINDOW_NS) (pp_reconnects s)\<rparr>"

definition count_reconnect :: "int \<Rightarrow> pause_policy \<Rightarrow> pause_policy" where
  "count_reconnect now s =
     (let s1 = prune_reconnects now s
      in s1\<lparr>pp_reconnect_count := pp_reconnect_count s1 + 1,
            pp_reconnects := push (RECONNECT_THRESHOLD + 1) now (pp_reconnects s1)\<rparr>)"

definition effective_reason :: "string \<Rightarrow> pause_policy \<Rightarrow> string" where
  "effective_reason reason s =
     (if reason \<in> set RECONNECT_EVENT_REASONS \<and> length (pp_reconnects s) > RECONNECT_THRESHOLD
      then ''reconnect_storm'' else reason)"

definition turn_off :: "string \<Rightarrow> int \<Rightarrow> pause_policy \<Rightarrow> pause_policy" where
  "turn_off reason now s =
     (finish_pause now ''sticky'' s)
       \<lparr>pp_state := ''off'', pp_clean := 0,
        pp_reason := Some (if reason \<noteq> '''' then take 128 reason else ''unknown_invalid_reason'')\<rparr>"

definition pause_for :: "string \<Rightarrow> int \<Rightarrow> pause_policy \<Rightarrow> pause_policy" where
  "pause_for reason now s =
     (let s1 = s\<lparr>pp_noise_counts := bump reason (pp_noise_counts s),
                 pp_wire_pauses := pp_wire_pauses s + (if pp_state s = ''active'' then 1 else 0)\<rparr>;
          s2 = (if \<not> pp_current s1 then begin_pause reason now s1
                else if reason \<noteq> pr_latest (last (pp_history s1))
                then s1\<lparr>pp_pauses := pp_pauses s1 + 1, pp_reason_counts := bump reason (pp_reason_counts s1)\<rparr>
                else s1);
          s3 = (if pp_state s2 = ''paused'' \<and> pp_clean s2 \<noteq> 0
                then s2\<lparr>pp_interruptions := pp_interruptions s2 + 1, pp_events := pp_events s2 + 1,
                        pp_flaps := push (FLAPPING_THRESHOLD + 1) now (pp_flaps s2)\<rparr>
                else s2)
      in s3\<lparr>pp_history := set_last (\<lambda>r. r\<lparr>pr_latest := reason\<rparr>) (pp_history s3),
            pp_state := ''paused'', pp_reason := Some reason, pp_clean := 0\<rparr>)"

definition trip :: "string \<Rightarrow> int \<Rightarrow> (pause_policy, string) eff" where
  "trip reason now =
     thenE (policy_now now)
    (bindE (getE id) (\<lambda>s.
     if pp_state s = ''off'' then returnE ''sticky''
     else if pp_closed s \<and> classify_reason reason = Monitor then returnE ''pause''
     else thenE (modifyE (if reason \<in> set RECONNECT_EVENT_REASONS then count_reconnect now else id))
         (bindE (getE (effective_reason reason)) (\<lambda>why.
          if classify_reason why \<noteq> Monitor then thenE (modifyE (turn_off why now)) (returnE ''sticky'')
          else thenE (modifyE (pause_for why now)) (returnE ''pause'')))))"

definition clean :: "int \<Rightarrow> (pause_policy, bool) eff" where
  "clean now =
     thenE (policy_now now)
    (bindE (getE id) (\<lambda>s.
     if pp_state s = ''off'' \<or> pp_closed s then returnE False
     else thenE (modifyE (\<lambda>s.
            let s1 = (if pp_state s = ''paused'' \<and> \<not> pp_current s then begin_pause ''v2_startup_pending'' now s else s)
            in s1\<lparr>pp_clean := min RECOVERY_READS (pp_clean s1 + 1)\<rparr>))
         (bindE (getE id) (\<lambda>s1.
          if pp_state s1 = ''paused''
          then if pp_clean s1 < RECOVERY_READS then returnE False
               else thenE (modifyE (\<lambda>u. (finish_pause now ''resumed'' u)\<lparr>pp_state := ''active'', pp_reason := None\<rparr>))
                          (returnE True)
          else returnE True))))"

section \<open>Alerts and decisions\<close>

definition alert_reasons :: "int \<Rightarrow> (pause_policy, string set) eff" where
  "alert_reasons now =
     bindE (getE pp_closed) (\<lambda>closed'.
     if closed' then returnE {}
     else thenE (modifyE (\<lambda>s. (prune_reconnects now s)
                    \<lparr>pp_starts := prune (now - HOUR_NS) (pp_starts s), pp_flaps := prune (now - HOUR_NS) (pp_flaps s)\<rparr>))
         (getE (\<lambda>s.
            (if length (pp_starts s) > FLAPPING_THRESHOLD \<or> length (pp_flaps s) > FLAPPING_THRESHOLD
             then {''pause_flapping''} else {})
            \<union> (if pp_current s \<and> now - pr_start (last (pp_history s)) > LONG_PAUSE_NS
               then {''pause_over_10min''} else {}))))"

definition look :: "int \<Rightarrow> (pause_policy, string set) eff" where
  "look now = thenE (policy_now now) (alert_reasons now)"

record pause_decision =
  pd_state :: string
  pd_action :: string
  pd_reason :: "string option"
  pd_clean :: int
  pd_alerts :: "string set"
  pd_new_alerts :: "string set"

text \<open>\<open>observe\<close> reads the time once for the transition and once for the alerts.\<close>

definition decide :: "string \<Rightarrow> string \<Rightarrow> int \<Rightarrow> (pause_policy, pause_decision) eff" where
  "decide prior action later =
     thenE (policy_now later)
    (bindE (alert_reasons later) (\<lambda>alerts.
     bindE (getE id) (\<lambda>s.
     thenE (modifyE (\<lambda>u. u\<lparr>pp_alerts := alerts\<rparr>))
           (returnE \<lparr>pd_state = pp_state s, pd_action = action, pd_reason = pp_reason s, pd_clean = pp_clean s,
                     pd_alerts = alerts, pd_new_alerts = alerts - pp_alerts s\<rparr>))))"

definition observed_reason :: "string option \<Rightarrow> bool \<Rightarrow> bool \<Rightarrow> string option" where
  "observed_reason reason ready failed =
     (let r = (if failed \<and> reason = None then Some ''monitor_unreadable'' else reason)
      in if r = None \<and> \<not> ready then Some ''v2_startup_pending'' else r)"

definition observe_health ::
  "string option \<Rightarrow> bool \<Rightarrow> py_error option \<Rightarrow> int \<Rightarrow> int \<Rightarrow> (pause_policy, pause_decision) eff" where
  "observe_health reason ready failure now later =
     (if failure = Some CancelledError then raiseE CancelledError
      else bindE (getE pp_state) (\<lambda>prior.
        case observed_reason reason ready (failure \<noteq> None) of
          Some why \<Rightarrow>
            bindE (trip why now) (\<lambda>outcome.
              decide prior (if outcome = ''sticky'' \<and> prior \<noteq> ''off'' then ''sticky_off''
                            else if outcome = ''pause'' \<and> prior = ''active'' then ''pause'' else ''none'') later)
        | None \<Rightarrow>
            bindE (clean now) (\<lambda>resumed.
              decide prior (if resumed \<and> prior = ''paused'' then ''resume'' else ''none'') later)))"

section \<open>The policy as a transition system\<close>

text \<open>
  The gateway's calls. A label says which call was made; a reconnect event that was counted carries
  its time, and the clean read that resumes the feed is told from the others.
\<close>

datatype pause_label =
    Reconnected int
  | Tripped
  | CleanRead
  | Resumed
  | Windowed
  | Looked

definition counts_event :: "string \<Rightarrow> pause_policy \<Rightarrow> bool" where
  "counts_event reason s \<longleftrightarrow> reason \<in> set RECONNECT_EVENT_REASONS \<and> pp_state s \<noteq> ''off'' \<and> \<not> pp_closed s"

inductive pause_step :: "pause_policy \<Rightarrow> pause_label \<Rightarrow> pause_policy \<Rightarrow> bool" where
  ps_event: "trip reason now s = (Inr x, t) \<Longrightarrow> counts_event reason s \<Longrightarrow> pause_step s (Reconnected now) t"
| ps_trip: "trip reason now s = (Inr x, t) \<Longrightarrow> \<not> counts_event reason s \<Longrightarrow> pause_step s Tripped t"
| ps_clean: "clean now s = (Inr b, t) \<Longrightarrow>
    pause_step s (if pp_state s = ''paused'' \<and> pp_state t = ''active'' then Resumed else CleanRead) t"
| ps_close: "close_window now s = (Inr u, t) \<Longrightarrow> pause_step s Windowed t"
| ps_open: "open_window now s = (Inr u, t) \<Longrightarrow> pause_step s (if pp_closed s then Windowed else Looked) t"
| ps_look: "look now s = (Inr x, t) \<Longrightarrow> pause_step s Looked t"
| ps_decide: "decide prior action later s = (Inr d, t) \<Longrightarrow> pause_step s Looked t"
| ps_refused: "policy_now now s = (Inl e, t) \<Longrightarrow> pause_step s Looked t"

end
