(* ===== verification/PausePolicySpec.thy ===== *)
theory PausePolicySpec
  imports PausePolicy
begin

text \<open>
  What the pause policy promises. The bounded windows are related to the whole histories they stand
  for; one invariant ties the clean streak to the run of the calls (the feed resumes on the third clean
  read in a row, and never after it was turned off), a second one the reconnect queue to all reconnect
  events ever counted.
\<close>

section \<open>Bounded windows\<close>

text \<open>
  A bounded queue that is pruned from the left counts exactly: over non-decreasing times it is the last
  \<open>n\<close> of what the unbounded list holds after the last pruning bound.
\<close>

definition last_n :: "nat \<Rightarrow> 'a list \<Rightarrow> 'a list" where
  "last_n n xs = drop (length xs - n) xs"

definition after :: "int \<Rightarrow> int list \<Rightarrow> int list" where
  "after b xs = filter (\<lambda>t. b < t) xs"

definition windowed :: "nat \<Rightarrow> int \<Rightarrow> int list \<Rightarrow> int list \<Rightarrow> bool" where
  "windowed n bound full q \<longleftrightarrow> sorted full \<and> (\<exists>b \<le> bound. q = last_n n (after b full))"

lemma length_last_n [simp]: "length (last_n n xs) = min n (length xs)"
  by (simp add: last_n_def)

lemma push_last_n: "0 < n \<Longrightarrow> push n x (last_n n xs) = last_n n (xs @ [x])"
  by (cases "n \<le> length xs") (auto simp: push_def last_n_def Suc_diff_le not_le)

lemma sorted_split:
  assumes "sorted xs"
  obtains k where "k \<le> length xs" "after b xs = drop k xs" "\<And>i. i < length xs \<Longrightarrow> xs ! i \<le> b \<longleftrightarrow> i < k"
  using assms
proof (induction xs arbitrary: thesis)
  case (Cons x xs)
  then obtain k where k: "k \<le> length xs" "after b xs = drop k xs" "\<And>i. i < length xs \<Longrightarrow> xs ! i \<le> b \<longleftrightarrow> i < k"
    by auto
  show ?case
  proof (cases "x \<le> b")
    case True
    show ?thesis
      by (rule Cons.prems(1)[of "Suc k"]) (use k True in \<open>auto simp: after_def nth_Cons split: nat.split\<close>)
  next
    case False
    with Cons.prems(2) have above': "\<forall>y \<in> set (x # xs). b < y" by auto
    then have "\<not> (x # xs) ! i \<le> b" if "i < length (x # xs)" for i
      using nth_mem[OF that] by fastforce
    with above' show ?thesis
      by (intro Cons.prems(1)[of 0]) (auto simp: after_def filter_id_conv)
  qed
qed (simp add: after_def)

lemma prune_drop:
  assumes "\<And>i. i < length xs \<Longrightarrow> xs ! i \<le> b \<longleftrightarrow> i < k" "k \<le> length xs"
  shows "prune b (drop m xs) = drop (max k m) xs"
proof -
  have "dropWhile (\<lambda>t. t \<le> b) (drop m xs) = drop (max k m) xs"
    if "n = length xs - m" for n
    using that
  proof (induction n arbitrary: m)
    case 0
    then show ?case using assms(2) by simp
  next
    case (Suc n)
    then have m: "m < length xs" by simp
    show ?case
    proof (cases "xs ! m \<le> b")
      case True
      then have "m < k" using assms(1)[OF m] by simp
      then have "max k m = max k (Suc m)" by simp
      with True m Suc.IH[of "Suc m"] Suc.prems show ?thesis
        by (simp add: Cons_nth_drop_Suc[symmetric])
    next
      case False
      then have "k \<le> m" using assms(1)[OF m] by simp
      with False m show ?thesis by (simp add: Cons_nth_drop_Suc[symmetric] max_def)
    qed
  qed
  then show ?thesis by (simp add: prune_def)
qed

lemma prune_last_n:
  assumes "sorted xs"
  shows "prune b (last_n n xs) = last_n n (after b xs)"
proof -
  obtain k where k: "k \<le> length xs" "after b xs = drop k xs" "\<And>i. i < length xs \<Longrightarrow> xs ! i \<le> b \<longleftrightarrow> i < k"
    using sorted_split[OF assms, of b] by blast
  moreover have "k + (length xs - k - n) = max k (length xs - n)" using k(1) by arith
  ultimately show ?thesis
    by (simp add: last_n_def prune_drop[OF k(3,1)] add.commute)
qed

lemma after_after: "b \<le> c \<Longrightarrow> after c (after b xs) = after c xs"
  by (induction xs) (auto simp: after_def)

lemma after_sorted: "sorted xs \<Longrightarrow> sorted (after b xs)"
  unfolding after_def by (rule sorted_wrt_filter)

lemma windowed_prune:
  assumes "windowed n bound full q" "bound \<le> b"
  shows "windowed n b full (prune b q)" "prune b q = last_n n (after b full)"
proof -
  from assms(1) obtain c where "sorted full" "c \<le> bound" "q = last_n n (after c full)"
    unfolding windowed_def by blast
  with assms(2) have c: "sorted full" "c \<le> b" "q = last_n n (after c full)" by simp_all
  then show "prune b q = last_n n (after b full)"
    by (simp add: prune_last_n[OF after_sorted] after_after)
  with c(1) show "windowed n b full (prune b q)" by (auto simp: windowed_def)
qed

lemma windowed_push:
  assumes "windowed n bound full q" "\<forall>t \<in> set full. t \<le> now" "bound < now" "0 < n"
  shows "windowed n bound (full @ [now]) (push n now q)"
proof -
  from assms(1) obtain b where b: "sorted full" "b \<le> bound" "q = last_n n (after b full)"
    by (auto simp: windowed_def)
  then have "push n now q = last_n n (after b (full @ [now]))"
    using push_last_n[OF assms(4)] assms(3) by (simp add: after_def)
  with b assms(2) show ?thesis by (auto simp: windowed_def sorted_append)
qed

lemma windowed_mono: "windowed n bound full q \<Longrightarrow> bound \<le> b \<Longrightarrow> windowed n b full q"
  unfolding windowed_def using order_trans by blast

section \<open>Sticky off and three clean reads\<close>

fun is_clean_read :: "pause_label \<Rightarrow> bool" where
  "is_clean_read CleanRead = True"
| "is_clean_read Resumed = True"
| "is_clean_read _ = False"

lemma policy_now_Inr:
  "policy_now now s = (Inr u, t) \<longleftrightarrow>
   0 \<le> now \<and> (\<forall>v. pp_last_now s = Some v \<longrightarrow> v \<le> now) \<and> t = s\<lparr>pp_last_now := Some now\<rparr>"
  by (auto simp: policy_now_def eff_simps not_less split: option.splits)

lemma policy_now_Inl: "policy_now now s = (Inl e, t) \<Longrightarrow> t = s"
  by (auto simp: policy_now_def eff_simps split: if_splits option.splits)

lemma finish_parts [simp]:
  "pp_state (finish_pause now o' s) = pp_state s" "pp_clean (finish_pause now o' s) = pp_clean s"
  "pp_reconnects (finish_pause now o' s) = pp_reconnects s" "pp_last_now (finish_pause now o' s) = pp_last_now s"
  "pp_starts (finish_pause now o' s) = pp_starts s" "pp_flaps (finish_pause now o' s) = pp_flaps s"
  "pp_closed (finish_pause now o' s) = pp_closed s"
  by (simp_all add: finish_pause_def)

lemma begin_parts [simp]:
  "pp_state (begin_pause r now s) = pp_state s" "pp_clean (begin_pause r now s) = pp_clean s"
  "pp_reconnects (begin_pause r now s) = pp_reconnects s" "pp_last_now (begin_pause r now s) = pp_last_now s"
  "pp_flaps (begin_pause r now s) = pp_flaps s" "pp_closed (begin_pause r now s) = pp_closed s"
  by (simp_all add: begin_pause_def)

lemma pause_for_parts [simp]:
  "pp_state (pause_for r now s) = ''paused''" "pp_clean (pause_for r now s) = 0"
  "pp_reconnects (pause_for r now s) = pp_reconnects s" "pp_last_now (pause_for r now s) = pp_last_now s"
  "pp_closed (pause_for r now s) = pp_closed s"
  by (simp_all add: pause_for_def Let_def)

lemma turn_off_parts [simp]:
  "pp_state (turn_off r now s) = ''off''" "pp_clean (turn_off r now s) = 0"
  "pp_reconnects (turn_off r now s) = pp_reconnects s" "pp_last_now (turn_off r now s) = pp_last_now s"
  by (simp_all add: turn_off_def)

lemma count_parts [simp]:
  "pp_state (count_reconnect now s) = pp_state s" "pp_clean (count_reconnect now s) = pp_clean s"
  "pp_last_now (count_reconnect now s) = pp_last_now s" "pp_closed (count_reconnect now s) = pp_closed s"
  "pp_reconnects (count_reconnect now s) =
     push (RECONNECT_THRESHOLD + 1) now (prune (now - RECONNECT_WINDOW_NS) (pp_reconnects s))"
  by (simp_all add: count_reconnect_def prune_reconnects_def Let_def)

text \<open>What a trip does, by cases of the state it finds.\<close>

lemma trip_cases:
  assumes "trip reason now s = (Inr x, t)"
  obtains (quiet) "t = s\<lparr>pp_last_now := Some now\<rparr>" "pp_state s = ''off'' \<or> pp_closed s" "\<not> counts_event reason s"
  | (acted) s1 why where "pp_state s \<noteq> ''off''" "x = (if classify_reason why \<noteq> Monitor then ''sticky'' else ''pause'')"
      "s1 = (if reason \<in> set RECONNECT_EVENT_REASONS then count_reconnect now else id) (s\<lparr>pp_last_now := Some now\<rparr>)"
      "why = effective_reason reason s1" "t = (if classify_reason why \<noteq> Monitor then turn_off why now s1 else pause_for why now s1)"
      "reason \<in> set RECONNECT_EVENT_REASONS \<longrightarrow> counts_event reason s"
      "pp_closed s \<Longrightarrow> classify_reason why \<noteq> Monitor"
proof -
  from assms obtain u where n: "policy_now now s = (Inr (), s\<lparr>pp_last_now := Some now\<rparr>)"
    by (cases "policy_now now s") (auto simp: trip_def eff_simps policy_now_Inr split: sum.splits)
  have m: "reason \<in> set RECONNECT_EVENT_REASONS \<Longrightarrow> classify_reason reason = Monitor"
    by (auto simp: classify_reason_def MONITOR_REASONS_def)
  show thesis
  proof (cases "pp_state s = ''off'' \<or> pp_closed s \<and> classify_reason reason = Monitor")
    case True
    then show thesis
      using assms n by (intro quiet) (auto simp: trip_def eff_simps counts_event_def split: if_splits)
  next
    case False
    show thesis
      by (rule acted[OF _ _ refl refl])
        (use False assms n m in \<open>auto simp: trip_def eff_simps counts_event_def effective_reason_def Let_def split: if_split_asm\<close>)
  qed
qed

lemma clean_cases:
  assumes "clean now s = (Inr b, t)"
  obtains (idle) "t = s\<lparr>pp_last_now := Some now\<rparr>" "pp_state s = ''off'' \<or> pp_closed s" "\<not> b"
  | (read) s1 where "pp_state s \<noteq> ''off''" "\<not> pp_closed s" "s1 = s\<lparr>pp_last_now := Some now\<rparr> \<or>
        s1 = begin_pause ''v2_startup_pending'' now (s\<lparr>pp_last_now := Some now\<rparr>)"
      "pp_clean t = min RECOVERY_READS (pp_clean s + 1)"
      "pp_state s = ''paused'' \<Longrightarrow> pp_clean t < RECOVERY_READS \<Longrightarrow> pp_state t = ''paused'' \<and> \<not> b"
      "pp_state s = ''paused'' \<Longrightarrow> RECOVERY_READS \<le> pp_clean t \<Longrightarrow> pp_state t = ''active'' \<and> b"
      "pp_state s \<noteq> ''paused'' \<Longrightarrow> pp_state t = pp_state s"
      "pp_reconnects t = pp_reconnects s" "pp_last_now t = Some now" "pp_closed t = pp_closed s"
proof -
  from assms obtain u where n: "policy_now now s = (Inr (), s\<lparr>pp_last_now := Some now\<rparr>)"
    by (cases "policy_now now s") (auto simp: clean_def eff_simps policy_now_Inr split: sum.splits)
  show thesis
  proof (cases "pp_state s = ''off'' \<or> pp_closed s")
    case True
    then show thesis using assms n by (intro idle) (auto simp: clean_def eff_simps split: if_splits)
  next
    case False
    show thesis
      by (rule read[of "if pp_state s = ''paused'' \<and> \<not> pp_current s
            then begin_pause ''v2_startup_pending'' now (s\<lparr>pp_last_now := Some now\<rparr>) else s\<lparr>pp_last_now := Some now\<rparr>"])
        (use False assms n in \<open>auto simp: clean_def eff_simps Let_def split: if_split_asm\<close>)
  qed
qed

lemma look_frame:
  "alert_reasons now s = (Inr x, t) \<Longrightarrow> pp_state t = pp_state s \<and> pp_clean t = pp_clean s \<and> pp_closed t = pp_closed s
     \<and> pp_last_now t = pp_last_now s
     \<and> (pp_reconnects t = pp_reconnects s \<or> pp_reconnects t = prune (now - RECONNECT_WINDOW_NS) (pp_reconnects s))"
  by (auto simp: alert_reasons_def eff_simps prune_reconnects_def split: if_splits)


definition acts :: "pause_label list \<Rightarrow> pause_label list" where
  "acts ls = filter (\<lambda>l. l \<noteq> Looked) ls"

definition streak :: "pause_label list \<Rightarrow> nat" where
  "streak ls = length (takeWhile is_clean_read (rev (acts ls)))"

lemma streak_snoc [simp]:
  "streak (ls @ [l]) = (if l = Looked then streak ls else if is_clean_read l then Suc (streak ls) else 0)"
  by (simp add: streak_def acts_def)

definition pause_inv :: "pause_label list \<Rightarrow> pause_policy \<Rightarrow> bool" where
  "pause_inv ls s \<longleftrightarrow> (pp_closed s \<longrightarrow> pp_state s \<in> {''off'', ''window_closed''})
     \<and> (pp_state s = ''paused'' \<longrightarrow> pp_clean s \<le> int (streak ls))"

lemma pause_inv_step:
  assumes "pause_step s l t" "pause_inv ls s"
  shows "pause_inv (ls @ [l]) t"
  using assms(1)
proof (cases rule: pause_step.cases)
  case (ps_event reason now x)
  from ps_event(2) show ?thesis
    by (cases rule: trip_cases) (use assms(2) ps_event in \<open>auto simp: pause_inv_def counts_event_def\<close>)
next
  case (ps_trip reason now x)
  from ps_trip(2) show ?thesis
    by (cases rule: trip_cases) (use assms(2) ps_trip in \<open>auto simp: pause_inv_def counts_event_def\<close>)
next
  case (ps_clean now b)
  have l: "is_clean_read l" "l \<noteq> Looked" using ps_clean(1) by (auto split: if_splits)
  from ps_clean(2) show ?thesis
    by (cases rule: clean_cases)
      (use assms(2) l in \<open>auto simp: pause_inv_def RECOVERY_READS_def not_le[symmetric] split: if_splits\<close>)
next
  case (ps_close now u)
  then show ?thesis
    using assms(2) by (auto simp: pause_inv_def close_window_def eff_simps Let_def policy_now_Inr split: sum.splits prod.splits if_splits)
next
  case (ps_open now u)
  then show ?thesis
    using assms(2) by (auto simp: pause_inv_def open_window_def eff_simps Let_def policy_now_Inr split: sum.splits prod.splits if_splits)
next
  case (ps_look now x)
  then show ?thesis
    using assms(2) by (auto simp: pause_inv_def look_def eff_simps policy_now_Inr dest!: look_frame split: sum.splits prod.splits)
next
  case (ps_decide prior action later d)
  then show ?thesis
    using assms(2) by (auto simp: pause_inv_def decide_def eff_simps policy_now_Inr dest!: look_frame split: sum.splits prod.splits)
next
  case (ps_refused now e)
  then show ?thesis using assms(2) policy_now_Inl by (auto simp: pause_inv_def)
qed

lemma pause_inv_run: "run pause_step s ls t \<Longrightarrow> pause_inv ks s \<Longrightarrow> pause_inv (ks @ ls) t"
proof (induction rule: run.induct)
  case (run_snoc s ls t l u)
  then show ?case using pause_inv_step[of t l u "ks @ ls"] by simp
qed simp


lemma off_step:
  assumes "pause_step s l t" "pp_state s = ''off''"
  shows "pp_state t = ''off'' \<and> l \<noteq> Resumed"
  using assms(1)
proof (cases rule: pause_step.cases)
  case (ps_event reason now x)
  from ps_event(2) show ?thesis by (cases rule: trip_cases) (use assms(2) ps_event in auto)
next
  case (ps_trip reason now x)
  from ps_trip(2) show ?thesis by (cases rule: trip_cases) (use assms(2) ps_trip in auto)
next
  case (ps_clean now b)
  from ps_clean(2) show ?thesis by (cases rule: clean_cases) (use assms(2) ps_clean in auto)
next
  case (ps_close now u)
  then show ?thesis
    using assms(2) by (auto simp: close_window_def eff_simps Let_def policy_now_Inr split: sum.splits prod.splits if_splits)
next
  case (ps_open now u)
  then show ?thesis
    using assms(2) by (auto simp: open_window_def eff_simps Let_def policy_now_Inr split: sum.splits prod.splits if_splits)
next
  case (ps_look now x)
  then show ?thesis
    using assms(2) by (auto simp: look_def eff_simps policy_now_Inr dest!: look_frame split: sum.splits prod.splits)
next
  case (ps_decide prior action later d)
  then show ?thesis
    using assms(2) by (auto simp: decide_def eff_simps policy_now_Inr dest!: look_frame split: sum.splits prod.splits)
next
  case (ps_refused now e)
  then show ?thesis using assms(2) policy_now_Inl by auto
qed

text \<open>Off is for good: after harm or an unknown reason nothing resumes the feed.\<close>

lemma off_is_final: "run pause_step s ls t \<Longrightarrow> pp_state s = ''off'' \<Longrightarrow> pp_state t = ''off'' \<and> Resumed \<notin> set ls"
  by (induction rule: run.induct) (auto dest: off_step)

section \<open>The reconnect storm is counted exactly\<close>

definition reconnects_of :: "pause_label list \<Rightarrow> int list" where
  "reconnects_of ls = concat (map (\<lambda>l. case l of Reconnected t \<Rightarrow> [t] | _ \<Rightarrow> []) ls)"

lemma reconnects_snoc [simp]:
  "reconnects_of (ls @ [l]) = reconnects_of ls @ (case l of Reconnected t \<Rightarrow> [t] | _ \<Rightarrow> [])"
  by (simp add: reconnects_of_def)

definition storm_inv :: "int list \<Rightarrow> pause_policy \<Rightarrow> bool" where
  "storm_inv es s \<longleftrightarrow>
     (case pp_last_now s of
        None \<Rightarrow> es = [] \<and> pp_reconnects s = []
      | Some now \<Rightarrow> (\<forall>t \<in> set es. t \<le> now)
          \<and> windowed (RECONNECT_THRESHOLD + 1) (now - RECONNECT_WINDOW_NS) es (pp_reconnects s))"

lemma storm_time:
  assumes "storm_inv es s" "policy_now now s = (Inr u, s')"
  shows "\<forall>t \<in> set es. t \<le> now" "windowed (RECONNECT_THRESHOLD + 1) (now - RECONNECT_WINDOW_NS) es (pp_reconnects s)"
proof -
  have n: "\<forall>v. pp_last_now s = Some v \<longrightarrow> v \<le> now" using assms(2) by (simp add: policy_now_Inr)
  have e: "windowed k b [] []" for k b by (auto simp: windowed_def after_def last_n_def)
  show "\<forall>t \<in> set es. t \<le> now" "windowed (RECONNECT_THRESHOLD + 1) (now - RECONNECT_WINDOW_NS) es (pp_reconnects s)"
    using assms(1) n e by (fastforce simp: storm_inv_def intro: windowed_mono split: option.splits)+
qed

lemma storm_keep:
  assumes "storm_inv es s" "policy_now now s = (Inr u, s')" "pp_last_now t = Some now"
    "pp_reconnects t = pp_reconnects s \<or> pp_reconnects t = prune (now - RECONNECT_WINDOW_NS) (pp_reconnects s)"
  shows "storm_inv es t"
  using storm_time[OF assms(1,2)] windowed_prune(1)[OF storm_time(2)[OF assms(1,2)]] assms(3,4)
  by (auto simp: storm_inv_def)

lemma storm_step:
  assumes "pause_step s l t" "storm_inv (reconnects_of ls) s"
  shows "storm_inv (reconnects_of (ls @ [l])) t"
  using assms(1)
proof (cases rule: pause_step.cases)
  case (ps_event reason now x)
  have n: "policy_now now s = (Inr (), s\<lparr>pp_last_now := Some now\<rparr>)"
    using ps_event(2) by (cases "policy_now now s") (auto simp: trip_def eff_simps policy_now_Inr split: sum.splits)
  note w = storm_time[OF assms(2) n]
  note p = windowed_prune(1)[OF w(2) order_refl]
  have "windowed (RECONNECT_THRESHOLD + 1) (now - RECONNECT_WINDOW_NS) (reconnects_of ls @ [now])
      (push (RECONNECT_THRESHOLD + 1) now (prune (now - RECONNECT_WINDOW_NS) (pp_reconnects s)))"
    by (rule windowed_push[OF p w(1)]) (simp_all add: RECONNECT_WINDOW_NS_def)
  with ps_event(2) w(1) show ?thesis
    by (cases rule: trip_cases) (use ps_event in \<open>auto simp: storm_inv_def counts_event_def\<close>)
next
  case (ps_trip reason now x)
  have n: "policy_now now s = (Inr (), s\<lparr>pp_last_now := Some now\<rparr>)"
    using ps_trip(2) by (cases "policy_now now s") (auto simp: trip_def eff_simps policy_now_Inr split: sum.splits)
  from ps_trip(2) have "pp_last_now t = Some now \<and> pp_reconnects t = pp_reconnects s"
    by (cases rule: trip_cases) (use ps_trip in auto)
  with storm_keep[OF assms(2) n] ps_trip(1) show ?thesis by simp
next
  case (ps_clean now b)
  have n: "policy_now now s = (Inr (), s\<lparr>pp_last_now := Some now\<rparr>)"
    using ps_clean(2) by (cases "policy_now now s") (auto simp: clean_def eff_simps policy_now_Inr split: sum.splits)
  from ps_clean(2) have "pp_last_now t = Some now \<and> pp_reconnects t = pp_reconnects s"
    by (cases rule: clean_cases) auto
  with storm_keep[OF assms(2) n] ps_clean(1) show ?thesis by simp
next
  case (ps_close now u)
  then have "\<exists>u. policy_now now s = (Inr u, s\<lparr>pp_last_now := Some now\<rparr>)" "pp_last_now t = Some now"
    "pp_reconnects t = pp_reconnects s"
    by (auto simp: close_window_def eff_simps Let_def policy_now_Inr split: sum.splits prod.splits if_splits)
  with storm_keep[OF assms(2), of now] ps_close(1) show ?thesis by auto
next
  case (ps_open now u)
  show ?thesis
  proof (cases "pp_closed s")
    case True
    with ps_open(2) have "\<exists>u. policy_now now s = (Inr u, s\<lparr>pp_last_now := Some now\<rparr>)" "pp_last_now t = Some now"
      "pp_reconnects t = pp_reconnects s"
      by (auto simp: open_window_def eff_simps Let_def policy_now_Inr split: sum.splits prod.splits if_splits)
    with storm_keep[OF assms(2), of now] ps_open(1) show ?thesis by auto
  qed (use ps_open assms(2) in \<open>auto simp: open_window_def eff_simps\<close>)
next
  case (ps_look now x)
  then have "\<exists>u. policy_now now s = (Inr u, s\<lparr>pp_last_now := Some now\<rparr>)" "pp_last_now t = Some now"
    "pp_reconnects t = pp_reconnects s \<or> pp_reconnects t = prune (now - RECONNECT_WINDOW_NS) (pp_reconnects s)"
    by (auto simp: look_def eff_simps policy_now_Inr dest!: look_frame split: sum.splits prod.splits)
  with storm_keep[OF assms(2), of now] ps_look(1) show ?thesis by auto
next
  case (ps_decide prior action later d)
  then have "\<exists>u. policy_now later s = (Inr u, s\<lparr>pp_last_now := Some later\<rparr>)" "pp_last_now t = Some later"
    "pp_reconnects t = pp_reconnects s \<or> pp_reconnects t = prune (later - RECONNECT_WINDOW_NS) (pp_reconnects s)"
    by (auto simp: decide_def eff_simps policy_now_Inr dest!: look_frame split: sum.splits prod.splits)
  with storm_keep[OF assms(2), of later] ps_decide(1) show ?thesis by auto
next
  case (ps_refused now e)
  then show ?thesis using assms(2) policy_now_Inl by auto
qed

lemma storm_run: "run pause_step s ls t \<Longrightarrow> storm_inv (reconnects_of ks) s \<Longrightarrow> storm_inv (reconnects_of (ks @ ls)) t"
proof (induction rule: run.induct)
  case (run_snoc s ls t l u)
  then show ?case using storm_step[of t l u "ks @ ls"] by simp
qed simp

text \<open>
  C39: The bounded queue of reconnect times decides as the whole history would: a reconnect event that
  is counted turns the feed off exactly when at least three earlier ones, of all that were ever counted,
  lie within the last ten minutes.
\<close>
theorem storm_counts_all_events:
  assumes "run pause_step new_policy ls s" "trip reason now s = (Inr x, t)" "counts_event reason s"
  shows "pp_state t = ''off'' \<longleftrightarrow> 3 \<le> length (filter (\<lambda>e. now - RECONNECT_WINDOW_NS < e) (reconnects_of ls))"
proof -
  have "storm_inv (reconnects_of []) new_policy" by (simp add: storm_inv_def new_policy_def reconnects_of_def)
  from storm_run[OF assms(1) this] have i: "storm_inv (reconnects_of ls) s" by simp
  have n: "policy_now now s = (Inr (), s\<lparr>pp_last_now := Some now\<rparr>)"
    using assms(2) by (cases "policy_now now s") (auto simp: trip_def eff_simps policy_now_Inr split: sum.splits)
  let ?q = "after (now - RECONNECT_WINDOW_NS) (reconnects_of ls)"
  have q: "prune (now - RECONNECT_WINDOW_NS) (pp_reconnects s) = last_n (RECONNECT_THRESHOLD + 1) ?q"
    by (rule windowed_prune(2)[OF storm_time(2)[OF i n] order_refl])
  have len: "length (push (RECONNECT_THRESHOLD + 1) now (last_n (RECONNECT_THRESHOLD + 1) ?q)) > RECONNECT_THRESHOLD
      \<longleftrightarrow> 3 \<le> length ?q"
    by (subst push_last_n) (auto simp: RECONNECT_THRESHOLD_def)
  have r: "reason \<in> set RECONNECT_EVENT_REASONS" using assms(3) by (simp add: counts_event_def)
  then have m: "classify_reason reason = Monitor" "classify_reason ''reconnect_storm'' = Harm"
    by (auto simp: classify_reason_def MONITOR_REASONS_def HARM_REASONS_def RECONNECT_EVENT_REASONS_def)
  from assms(2) show ?thesis
  proof (cases rule: trip_cases)
    case (acted s1 why)
    have "length (pp_reconnects s1) > RECONNECT_THRESHOLD \<longleftrightarrow> 3 \<le> length ?q"
      using r len by (simp add: acted(3) q)
    then show ?thesis
      using m r by (auto simp: acted(4,5) effective_reason_def after_def)
  qed (use assms(3) in simp)
qed

section \<open>A concrete day\<close>

definition px_after :: "(pause_policy, 'a) eff \<Rightarrow> pause_policy \<Rightarrow> pause_policy" where
  "px_after m s = snd (m s)"

definition px_reads :: "pause_policy" where
  "px_reads = px_after (clean 20) (px_after (clean 10) new_policy)"

definition px_storm :: "pause_policy" where
  "px_storm = px_after (trip ''disconnect'' 300) (px_after (trip ''policy_1008'' 200) (px_after (trip ''disconnect'' 100) new_policy))"

lemma px_clean_step:
  assumes "\<not> isl (fst (clean now s))"
  shows "pause_step s (if pp_state s = ''paused'' \<and> pp_state (px_after (clean now) s) = ''active'' then Resumed else CleanRead)
    (px_after (clean now) s)"
proof -
  from assms obtain b where "clean now s = (Inr b, px_after (clean now) s)"
    by (cases "clean now s"; cases "fst (clean now s)") (auto simp: px_after_def)
  then show ?thesis by (rule ps_clean)
qed

lemma px_trip_step:
  assumes "\<not> isl (fst (trip reason now s))" "counts_event reason s"
  shows "pause_step s (Reconnected now) (px_after (trip reason now) s)"
proof -
  from assms(1) obtain b where "trip reason now s = (Inr b, px_after (trip reason now) s)"
    by (cases "trip reason now s"; cases "fst (trip reason now s)") (auto simp: px_after_def)
  then show ?thesis using assms(2) by (rule ps_event)
qed

lemma px_resume:
  assumes "\<not> isl (fst (clean now s))" "pp_state s = ''paused''" "pp_state (px_after (clean now) s) = ''active''"
  shows "pause_step s Resumed (px_after (clean now) s)"
  using px_clean_step[OF assms(1)] assms(2,3) by simp

lemma px_read:
  assumes "\<not> isl (fst (clean now s))" "pp_state (px_after (clean now) s) = ''paused''"
  shows "pause_step s CleanRead (px_after (clean now) s)"
  using px_clean_step[OF assms(1)] assms(2) by (simp split: if_splits)

lemma px_reads_run: "run pause_step new_policy [CleanRead, CleanRead] px_reads"
proof -
  have 1: "pause_step new_policy CleanRead (px_after (clean 10) new_policy)"
    by (rule px_read; code_simp)
  have 2: "pause_step (px_after (clean 10) new_policy) CleanRead px_reads"
    unfolding px_reads_def by (rule px_read; code_simp)
  show ?thesis by (rule run_Cons[where step = pause_step, OF 1 run_one[where step = pause_step, OF 2]])
qed


lemma px_storm_run: "run pause_step new_policy [Reconnected 100, Reconnected 200, Reconnected 300] px_storm"
proof -
  let ?a = "px_after (trip ''disconnect'' 100) new_policy"
  let ?b = "px_after (trip ''policy_1008'' 200) ?a"
  have 1: "pause_step new_policy (Reconnected 100) ?a" by (rule px_trip_step; code_simp)
  have 2: "pause_step ?a (Reconnected 200) ?b" by (rule px_trip_step; code_simp)
  have 3: "pause_step ?b (Reconnected 300) px_storm" unfolding px_storm_def by (rule px_trip_step; code_simp)
  show ?thesis
    by (rule run_Cons[where step = pause_step, OF 1
          run_Cons[where step = pause_step, OF 2 run_one[where step = pause_step, OF 3]]])
qed

lemma px_trip_value:
  assumes "\<not> isl (fst (trip reason now s))"
  shows "trip reason now s = (Inr (projr (fst (trip reason now s))), px_after (trip reason now) s)"
  using assms by (cases "trip reason now s"; cases "fst (trip reason now s)") (auto simp: px_after_def)

theorem storm_counts_all_events_witness:
  "pp_state (px_after (trip ''reconnect_1012'' 400) px_storm) = ''off'' \<longleftrightarrow>
     3 \<le> length (filter (\<lambda>e. 400 - RECONNECT_WINDOW_NS < e)
            (reconnects_of [Reconnected 100, Reconnected 200, Reconnected 300]))"
proof (rule storm_counts_all_events)
  show "run pause_step new_policy [Reconnected 100, Reconnected 200, Reconnected 300] px_storm"
    by (rule px_storm_run)
  show "trip ''reconnect_1012'' 400 px_storm =
     (Inr (projr (fst (trip ''reconnect_1012'' 400 px_storm))), px_after (trip ''reconnect_1012'' 400) px_storm)"
    by (rule px_trip_value) code_simp
  show "counts_event ''reconnect_1012'' px_storm" by code_simp
qed

lemma px_storm_off: "pp_state (px_after (trip ''reconnect_1012'' 400) px_storm) = ''off''" by code_simp

end
