(* ===== verification/MomentumAlerts.thy ===== *)
theory MomentumAlerts
  imports Prelude
begin

text \<open>
  \<open>strategy_core/momentum_alerts.py\<close>, the first stage of the scanner: it keeps the last ten minutes of
  snapshots and fires volume-spike and squeeze alerts, with a cooldown for each symbol and kind. With
  it the snapshots of \<open>strategy_core/models.py\<close> and their readings in \<open>snapshot_utils.py\<close>. Prices and
  volumes are exact rationals and integers; an instant is a number of microseconds, its rendering a
  parameter. Log lines are left out.
\<close>

section \<open>Snapshots\<close>

record day_snapshot =
  ds_close :: "rat option"
  ds_volume :: "int option"
  ds_high :: "rat option"
  ds_vwap :: "rat option"

record minute_snapshot =
  ms_close :: "rat option"
  ms_volume :: "int option"
  ms_high :: "rat option"
  ms_vwap :: "rat option"

record quote_snapshot =
  qs_bid :: "rat option"
  qs_ask :: "rat option"
  qs_bid_size :: "int option"
  qs_ask_size :: "int option"

record scan_snapshot =
  mk_ticker :: string
  mk_previous_close :: "rat option"
  mk_day :: "day_snapshot option"
  mk_minute :: "minute_snapshot option"
  mk_last_trade :: "rat option"
  mk_last_quote :: "quote_snapshot option"
  mk_change :: "rat option"

record reference_data =
  rd_shares :: int
  rd_avg_volume :: rat

text \<open>\<open>x is not None and x > 0\<close>.\<close>

definition positive :: "('a :: linordered_idom) option \<Rightarrow> bool" where
  "positive x \<longleftrightarrow> (case x of Some v \<Rightarrow> 0 < v | None \<Rightarrow> False)"

definition day_field :: "(day_snapshot \<Rightarrow> 'a option) \<Rightarrow> scan_snapshot \<Rightarrow> 'a option" where
  "day_field f m = Option.bind (mk_day m) f"

definition minute_field :: "(minute_snapshot \<Rightarrow> 'a option) \<Rightarrow> scan_snapshot \<Rightarrow> 'a option" where
  "minute_field f m = Option.bind (mk_minute m) f"

definition get_snapshot_price :: "scan_snapshot \<Rightarrow> rat option" where
  "get_snapshot_price m =
     (if positive (mk_last_trade m) then mk_last_trade m
      else if positive (minute_field ms_close m) then minute_field ms_close m
      else if positive (day_field ds_close m) then day_field ds_close m
      else None)"

definition get_current_volume :: "scan_snapshot \<Rightarrow> int" where
  "get_current_volume m =
     (if positive (day_field ds_volume m) then or_zero (day_field ds_volume m)
      else or_zero (minute_field ms_volume m))"

definition get_current_hod :: "scan_snapshot \<Rightarrow> rat" where
  "get_current_hod m =
     (if positive (day_field ds_high m) then or_zero (day_field ds_high m)
      else if positive (minute_field ms_high m) then or_zero (minute_field ms_high m)
      else or_zero (get_snapshot_price m))"

definition get_current_vwap :: "scan_snapshot \<Rightarrow> rat" where
  "get_current_vwap m =
     (if positive (day_field ds_vwap m) then or_zero (day_field ds_vwap m)
      else if positive (minute_field ms_vwap m) then or_zero (minute_field ms_vwap m)
      else 0)"

record bid_ask =
  ba_bid :: rat
  ba_ask :: rat
  ba_bid_size :: int
  ba_ask_size :: int
  ba_spread :: rat
  ba_spread_pct :: rat

definition spread_of :: "rat \<Rightarrow> rat \<Rightarrow> rat" where
  "spread_of bid ask = py_round (ask - bid) 4"

definition spread_pct_of :: "rat \<Rightarrow> rat \<Rightarrow> rat" where
  "spread_pct_of bid ask =
     (let mid = (ask + bid) / 2 in if 0 < mid then py_round (spread_of bid ask / mid * 100) 2 else 0)"

definition get_bid_ask :: "scan_snapshot \<Rightarrow> bid_ask" where
  "get_bid_ask m =
     (case mk_last_quote m of
        None \<Rightarrow> \<lparr>ba_bid = 0, ba_ask = 0, ba_bid_size = 0, ba_ask_size = 0, ba_spread = 0, ba_spread_pct = 0\<rparr>
      | Some q \<Rightarrow>
          (let bid = or_zero (qs_bid q); ask = or_zero (qs_ask q); two = 0 < bid \<and> 0 < ask
           in \<lparr>ba_bid = bid, ba_ask = ask, ba_bid_size = or_zero (qs_bid_size q),
               ba_ask_size = or_zero (qs_ask_size q),
               ba_spread = (if two then spread_of bid ask else 0),
               ba_spread_pct = (if two then spread_pct_of bid ask else 0)\<rparr>))"

definition compute_rvol :: "rat \<Rightarrow> rat \<Rightarrow> int \<Rightarrow> rat" where
  "compute_rvol day_volume avg minutes =
     (if avg \<le> 0 \<or> minutes \<le> 0 then 0
      else let expected = avg * (of_int minutes / 390) in if expected \<le> 0 then 0 else day_volume / expected)"

section \<open>State\<close>

record alert_config =
  ac_min_price :: rat
  ac_max_price :: rat
  ac_min_volume :: int
  ac_squeeze5 :: rat
  ac_squeeze10 :: rat
  ac_spike_mult :: rat
  ac_cooldown_mins :: int
  ac_interval :: int

type_synonym history_entry = "(string, rat \<times> int) dict"

definition VOLUME_SPIKE :: string where "VOLUME_SPIKE = ''VOLUME_SPIKE''"
definition SQUEEZE_5MIN :: string where "SQUEEZE_5MIN = ''SQUEEZE_5MIN''"
definition SQUEEZE_10MIN :: string where "SQUEEZE_10MIN = ''SQUEEZE_10MIN''"

datatype alert_details =
    Spike int int rat int bool bool
  | Squeeze rat rat

record scanner_alert =
  al_ticker :: string
  al_price :: rat
  al_quote :: bid_ask
  al_volume :: int
  al_float :: int
  al_time :: string
  al_type :: string
  al_details :: alert_details

record rejection =
  rj_ticker :: string
  rj_price :: rat
  rj_quote :: bid_ask
  rj_volume :: int
  rj_float :: int
  rj_time :: string
  rj_cycles :: nat
  rj_reasons :: "string list"
  rj_vol5 :: int
  rj_expected :: int
  rj_relative :: bool
  rj_absolute :: bool
  rj_gate :: bool
  rj_squeeze5 :: "rat option"
  rj_squeeze10 :: "rat option"

record alert_engine =
  ae_history :: "history_entry list"
  ae_cooldowns :: "(string \<times> string, int) dict"
  ae_last_spike :: "(string, int) dict"
  ae_spiked :: "string set"
  ae_rejections :: "rejection list"

definition new_alert_engine :: alert_engine where
  "new_alert_engine =
     \<lparr>ae_history = [], ae_cooldowns = [], ae_last_spike = [], ae_spiked = {}, ae_rejections = []\<rparr>"

text \<open>The interval is a positive number of seconds; the history is a bounded queue, oldest first.\<close>

definition snaps_per_5min :: "alert_config \<Rightarrow> nat" where
  "snaps_per_5min c = nat (max 1 (300 div ac_interval c))"

definition snaps_per_10min :: "alert_config \<Rightarrow> nat" where
  "snaps_per_10min c = nat (max 1 (600 div ac_interval c))"

definition last_entries :: "nat \<Rightarrow> 'a list \<Rightarrow> 'a list" where
  "last_entries n xs = drop (length xs - n) xs"

definition push_history :: "alert_config \<Rightarrow> history_entry \<Rightarrow> alert_engine \<Rightarrow> alert_engine" where
  "push_history c h s = s\<lparr>ae_history := last_entries (snaps_per_10min c) (ae_history s @ [h])\<rparr>"

fun build_history_entry :: "alert_config \<Rightarrow> scan_snapshot list \<Rightarrow> history_entry \<Rightarrow> history_entry" where
  "build_history_entry c [] h = h"
| "build_history_entry c (m # ms) h =
     build_history_entry c ms
       (case get_snapshot_price m of
          Some p \<Rightarrow>
            if is_upper_symbol (mk_ticker m) \<and> ac_min_price c \<le> p \<and> p \<le> ac_max_price c
            then AList.update (mk_ticker m) (p, get_current_volume m) h else h
        | None \<Rightarrow> h)"

definition record_snapshot :: "alert_config \<Rightarrow> scan_snapshot list \<Rightarrow> alert_engine \<Rightarrow> alert_engine" where
  "record_snapshot c ms s = push_history c (build_history_entry c ms []) s"

definition prefill_history ::
  "alert_config \<Rightarrow> (history_entry + scan_snapshot list) list \<Rightarrow> alert_engine \<Rightarrow> alert_engine" where
  "prefill_history c entries s =
     fold (\<lambda>e t. case e of
              Inl h \<Rightarrow> push_history c (filter (\<lambda>(t, _). is_upper_symbol t) h) t
            | Inr ms \<Rightarrow> record_snapshot c ms t)
          entries (s\<lparr>ae_history := []\<rparr>)"

definition reset_alerts :: "alert_engine \<Rightarrow> alert_engine" where
  "reset_alerts s = new_alert_engine"

section \<open>Cooldowns\<close>

definition minutes_us :: int where "minutes_us = 60000000"

definition on_cooldown :: "alert_config \<Rightarrow> string \<Rightarrow> string \<Rightarrow> int \<Rightarrow> alert_engine \<Rightarrow> bool" where
  "on_cooldown c ticker kind now s =
     (case map_of (ae_cooldowns s) (ticker, kind) of
        None \<Rightarrow> False
      | Some t \<Rightarrow> now - t < ac_cooldown_mins c * minutes_us)"

definition set_cooldown :: "string \<Rightarrow> string \<Rightarrow> int \<Rightarrow> alert_engine \<Rightarrow> alert_engine" where
  "set_cooldown ticker kind now s = s\<lparr>ae_cooldowns := AList.update (ticker, kind) now (ae_cooldowns s)\<rparr>"

definition cleanup_cooldowns :: "alert_config \<Rightarrow> int \<Rightarrow> alert_engine \<Rightarrow> alert_engine" where
  "cleanup_cooldowns c now s =
     s\<lparr>ae_cooldowns := filter (\<lambda>(_, t). now - (ac_cooldown_mins c + 1) * minutes_us < t) (ae_cooldowns s)\<rparr>"

section \<open>One symbol\<close>

text \<open>What the check reads of the history and the reference data before it decides.\<close>

record ticker_view =
  tv_ticker :: string
  tv_price :: rat
  tv_volume :: int
  tv_quote :: bid_ask
  tv_float :: int
  tv_old5 :: "(rat \<times> int) option"
  tv_vol5 :: int
  tv_expected :: rat
  tv_relative :: bool
  tv_absolute :: bool
  tv_squeeze5 :: "rat option"
  tv_old10 :: "(rat \<times> int) option"
  tv_squeeze10 :: "rat option"

definition ago :: "nat \<Rightarrow> string \<Rightarrow> history_entry list \<Rightarrow> (rat \<times> int) option" where
  "ago k ticker hs = (if k \<le> length hs then map_of (hs ! (length hs - k)) ticker else None)"

definition change_since :: "rat \<Rightarrow> (rat \<times> int) option \<Rightarrow> rat option" where
  "change_since price old =
     (case old of Some (p, _) \<Rightarrow> if 0 < p then Some ((price - p) / p * 100) else None | None \<Rightarrow> None)"

definition spike_inputs ::
  "alert_config \<Rightarrow> int \<Rightarrow> (rat \<times> int) option \<Rightarrow> reference_data option \<Rightarrow> int \<times> rat \<times> bool \<times> bool" where
  "spike_inputs c volume old ref =
     (case (old, ref) of
        (Some (_, v), Some r) \<Rightarrow>
          (let vol = volume - v; expected = rd_avg_volume r / 78
           in (vol, expected, 0 < expected \<and> expected * ac_spike_mult c \<le> of_int vol, 50000 \<le> vol))
      | _ \<Rightarrow> (0, 0, False, False))"

definition view_ticker ::
  "alert_config \<Rightarrow> (string, reference_data) dict option \<Rightarrow> history_entry list \<Rightarrow> scan_snapshot \<Rightarrow> rat
     \<Rightarrow> ticker_view" where
  "view_ticker c refs hs m price =
     (let t = mk_ticker m; volume = get_current_volume m; ref = Option.bind refs (\<lambda>d. map_of d t);
          old5 = (if refs = None then None else ago (snaps_per_5min c) t hs);
          old10 = ago (snaps_per_10min c) t hs
      in case spike_inputs c volume old5 ref of (vol5, expected, rel, ab) \<Rightarrow>
         \<lparr>tv_ticker = t, tv_price = price, tv_volume = volume, tv_quote = get_bid_ask m,
          tv_float = (case ref of Some r \<Rightarrow> rd_shares r | None \<Rightarrow> 0),
          tv_old5 = old5, tv_vol5 = vol5, tv_expected = expected, tv_relative = rel,
          tv_absolute = ab, tv_squeeze5 = change_since price old5, tv_old10 = old10,
          tv_squeeze10 = change_since price old10\<rparr>)"

definition spiking :: "ticker_view \<Rightarrow> bool" where
  "spiking v \<longleftrightarrow> tv_relative v \<or> tv_absolute v"

definition reaches :: "rat option \<Rightarrow> rat \<Rightarrow> bool" where
  "reaches x bound \<longleftrightarrow> (case x of Some v \<Rightarrow> bound \<le> v | None \<Rightarrow> False)"

definition late_catchup :: "alert_config \<Rightarrow> int \<Rightarrow> ticker_view \<Rightarrow> alert_engine \<Rightarrow> bool" where
  "late_catchup c now v s \<longleftrightarrow>
     spiking v \<and> tv_ticker v \<notin> ae_spiked s \<and> \<not> on_cooldown c (tv_ticker v) VOLUME_SPIKE now s
     \<and> (reaches (tv_squeeze5 v) (ac_squeeze5 c) \<or> reaches (tv_squeeze10 v) (ac_squeeze10 c))"

definition spike_due :: "alert_config \<Rightarrow> int \<Rightarrow> ticker_view \<Rightarrow> alert_engine \<Rightarrow> bool" where
  "spike_due c now v s \<longleftrightarrow>
     spiking v
     \<and> (let seen = or_zero (map_of (ae_last_spike s) (tv_ticker v))
        in seen = 0 \<or> seen * 2 \<le> tv_volume v \<or> late_catchup c now v s)
     \<and> \<not> on_cooldown c (tv_ticker v) VOLUME_SPIKE now s"

definition base_alert :: "(int \<Rightarrow> string) \<Rightarrow> int \<Rightarrow> ticker_view \<Rightarrow> string \<Rightarrow> alert_details \<Rightarrow> scanner_alert" where
  "base_alert show_time now v kind details =
     \<lparr>al_ticker = tv_ticker v, al_price = tv_price v, al_quote = tv_quote v, al_volume = tv_volume v,
      al_float = tv_float v, al_time = show_time now, al_type = kind, al_details = details\<rparr>"

definition spike_step ::
  "alert_config \<Rightarrow> (int \<Rightarrow> string) \<Rightarrow> int \<Rightarrow> ticker_view \<Rightarrow> alert_engine \<Rightarrow> scanner_alert list \<times> alert_engine" where
  "spike_step c show_time now v s =
     (if spike_due c now v s
      then ([base_alert show_time now v VOLUME_SPIKE
              (Spike (tv_vol5 v) (py_int (tv_expected v))
                 (py_round (of_int (tv_vol5 v) / max (tv_expected v) 1) 1) (tv_volume v) (tv_relative v)
                 (late_catchup c now v s))],
            set_cooldown (tv_ticker v) VOLUME_SPIKE now
              (s\<lparr>ae_last_spike := AList.update (tv_ticker v) (tv_volume v) (ae_last_spike s),
                 ae_spiked := insert (tv_ticker v) (ae_spiked s)\<rparr>))
      else ([], s))"

definition squeeze_step ::
  "alert_config \<Rightarrow> (int \<Rightarrow> string) \<Rightarrow> int \<Rightarrow> ticker_view \<Rightarrow> string \<Rightarrow> rat option \<Rightarrow> (rat \<times> int) option \<Rightarrow> rat
     \<Rightarrow> alert_engine \<Rightarrow> scanner_alert list \<times> alert_engine" where
  "squeeze_step c show_time now v kind change old bound s =
     (case (change, old) of
        (Some x, Some (p, _)) \<Rightarrow>
          if tv_ticker v \<in> ae_spiked s \<and> bound \<le> x \<and> \<not> on_cooldown c (tv_ticker v) kind now s
          then ([base_alert show_time now v kind (Squeeze (py_round x 1) (py_round p 3))],
                set_cooldown (tv_ticker v) kind now s)
          else ([], s)
      | _ \<Rightarrow> ([], s))"

text \<open>Why an interesting symbol fired nothing; the cooldowns are those read before each step.\<close>

definition interesting :: "alert_config \<Rightarrow> ticker_view \<Rightarrow> alert_engine \<Rightarrow> bool" where
  "interesting c v s \<longleftrightarrow>
     tv_ticker v \<in> ae_spiked s \<or> spiking v
     \<or> reaches (tv_squeeze5 v) (max 1 (ac_squeeze5 c / 2)) \<or> reaches (tv_squeeze10 v) (max 2 (ac_squeeze10 c / 2))"

definition reason_history :: "alert_config \<Rightarrow> ticker_view \<Rightarrow> alert_engine \<Rightarrow> string list" where
  "reason_history c v s =
     (if length (ae_history s) < snaps_per_5min c then [''waiting_for_5min_history'']
      else if tv_old5 v = None then [''missing_5min_baseline''] else [])"

definition reason_spike :: "alert_config \<Rightarrow> int \<Rightarrow> ticker_view \<Rightarrow> alert_engine \<Rightarrow> string list" where
  "reason_spike c now v s =
     (if \<not> spiking v then [''volume_spike_gate_not_met'']
      else if on_cooldown c (tv_ticker v) VOLUME_SPIKE now s then [''volume_spike_on_cooldown''] else [])"

definition reason_5min :: "alert_config \<Rightarrow> int \<Rightarrow> ticker_view \<Rightarrow> alert_engine \<Rightarrow> string list" where
  "reason_5min c now v s =
     (if tv_ticker v \<notin> ae_spiked s then [''volume_gate_closed'']
      else if tv_squeeze5 v = None then [''squeeze_5min_unavailable'']
      else if \<not> reaches (tv_squeeze5 v) (ac_squeeze5 c) then [''squeeze_5min_below_threshold'']
      else if on_cooldown c (tv_ticker v) SQUEEZE_5MIN now s then [''squeeze_5min_on_cooldown''] else [])"

definition reason_10min :: "alert_config \<Rightarrow> int \<Rightarrow> ticker_view \<Rightarrow> alert_engine \<Rightarrow> string list" where
  "reason_10min c now v s =
     (if length (ae_history s) < snaps_per_10min c then [''waiting_for_10min_history'']
      else if tv_old10 v = None then [''missing_10min_baseline'']
      else if tv_ticker v \<notin> ae_spiked s then [''squeeze_10min_waiting_for_volume_gate'']
      else if tv_squeeze10 v = None then [''squeeze_10min_unavailable'']
      else if \<not> reaches (tv_squeeze10 v) (ac_squeeze10 c) then [''squeeze_10min_below_threshold'']
      else if on_cooldown c (tv_ticker v) SQUEEZE_10MIN now s then [''squeeze_10min_on_cooldown''] else [])"

definition rejection_reasons :: "alert_config \<Rightarrow> int \<Rightarrow> ticker_view \<Rightarrow> alert_engine \<Rightarrow> string list" where
  "rejection_reasons c now v s =
     (let reasons = reason_history c v s @ reason_spike c now v s @ reason_5min c now v s @ reason_10min c now v s
      in if reasons = [] then [''candidate_seen_but_no_alert_fired''] else reasons)"

definition reject :: "alert_config \<Rightarrow> (int \<Rightarrow> string) \<Rightarrow> int \<Rightarrow> ticker_view \<Rightarrow> alert_engine \<Rightarrow> alert_engine" where
  "reject c show_time now v s =
     s\<lparr>ae_rejections := last_entries 250 (ae_rejections s @
         [\<lparr>rj_ticker = tv_ticker v, rj_price = tv_price v, rj_quote = tv_quote v, rj_volume = tv_volume v,
           rj_float = tv_float v, rj_time = show_time now, rj_cycles = length (ae_history s),
           rj_reasons = rejection_reasons c now v s, rj_vol5 = tv_vol5 v, rj_expected = py_int (tv_expected v),
           rj_relative = tv_relative v, rj_absolute = tv_absolute v, rj_gate = tv_ticker v \<in> ae_spiked s,
           rj_squeeze5 = map_option (\<lambda>x. py_round x 2) (tv_squeeze5 v),
           rj_squeeze10 = map_option (\<lambda>x. py_round x 2) (tv_squeeze10 v)\<rparr>])\<rparr>"

definition check_view ::
  "alert_config \<Rightarrow> (int \<Rightarrow> string) \<Rightarrow> int \<Rightarrow> ticker_view \<Rightarrow> alert_engine \<Rightarrow> scanner_alert list \<times> alert_engine" where
  "check_view c show_time now v s =
     (case spike_step c show_time now v s of (a1, s1) \<Rightarrow>
      case squeeze_step c show_time now v SQUEEZE_5MIN (tv_squeeze5 v) (tv_old5 v) (ac_squeeze5 c) s1 of (a2, s2) \<Rightarrow>
      case squeeze_step c show_time now v SQUEEZE_10MIN (tv_squeeze10 v) (tv_old10 v) (ac_squeeze10 c) s2 of (a3, s3) \<Rightarrow>
      if interesting c v s3 \<and> a1 = [] \<and> a2 = [] \<and> a3 = [] then ([], reject c show_time now v s3)
      else (a1 @ a2 @ a3, s3))"

section \<open>The check\<close>

fun current_prices :: "scan_snapshot list \<Rightarrow> (string, scan_snapshot \<times> rat) dict \<Rightarrow> (string, scan_snapshot \<times> rat) dict" where
  "current_prices [] d = d"
| "current_prices (m # ms) d =
     current_prices ms
       (case get_snapshot_price m of
          Some p \<Rightarrow> if is_upper_symbol (mk_ticker m) then AList.update (mk_ticker m) (m, p) d else d
        | None \<Rightarrow> d)"

definition check_one ::
  "alert_config \<Rightarrow> (int \<Rightarrow> string) \<Rightarrow> int \<Rightarrow> (string, reference_data) dict option \<Rightarrow> scan_snapshot \<Rightarrow> rat
     \<Rightarrow> alert_engine \<Rightarrow> scanner_alert list \<times> alert_engine" where
  "check_one c show_time now refs m price s =
     (if \<not> (ac_min_price c \<le> price \<and> price \<le> ac_max_price c) \<or> get_current_volume m < ac_min_volume c then ([], s)
      else check_view c show_time now (view_ticker c refs (ae_history s) m price) s)"

fun check_all ::
  "alert_config \<Rightarrow> (int \<Rightarrow> string) \<Rightarrow> int \<Rightarrow> (string, reference_data) dict option
     \<Rightarrow> (string, scan_snapshot \<times> rat) dict \<Rightarrow> alert_engine \<Rightarrow> scanner_alert list \<times> alert_engine" where
  "check_all c show_time now refs [] s = ([], s)"
| "check_all c show_time now refs ((_, m, price) # d) s =
     (case check_one c show_time now refs m price s of (a, s1) \<Rightarrow>
      case check_all c show_time now refs d s1 of (b, s2) \<Rightarrow> (a @ b, s2))"

definition check_alerts ::
  "alert_config \<Rightarrow> (int \<Rightarrow> string) \<Rightarrow> int \<Rightarrow> scan_snapshot list \<Rightarrow> (string, reference_data) dict option
     \<Rightarrow> alert_engine \<Rightarrow> scanner_alert list \<times> alert_engine" where
  "check_alerts c show_time now ms refs s =
     (case check_all c show_time now refs (current_prices ms []) s of (alerts, s1) \<Rightarrow>
        (alerts, if length (ae_history s1) mod 60 = 0 then cleanup_cooldowns c now s1 else s1))"

section \<open>Warm-up\<close>

record warmup =
  wu_cycles :: nat
  wu_ready5 :: bool
  wu_eta5 :: int
  wu_ready10 :: bool
  wu_eta10 :: int

definition get_warmup_status :: "alert_config \<Rightarrow> alert_engine \<Rightarrow> warmup" where
  "get_warmup_status c s =
     (let n = length (ae_history s); k5 = snaps_per_5min c; k10 = snaps_per_10min c
      in \<lparr>wu_cycles = n, wu_ready5 = (k5 \<le> n), wu_eta5 = max 0 ((int k5 - int n) * ac_interval c),
          wu_ready10 = (k10 \<le> n), wu_eta10 = max 0 ((int k10 - int n) * ac_interval c)\<rparr>)"

section \<open>The saved state\<close>

text \<open>
  The payload of \<open>export_state\<close> as the rows it holds; restoring leaves out what its guards refuse.
  The type tests of \<open>restore_state\<close> against foreign JSON hold of every payload that was exported.
\<close>

record alert_payload =
  ap_history :: "history_entry list"
  ap_cooldowns :: "(string \<times> string \<times> int) list"
  ap_last_spike :: "(string, int) dict"
  ap_spiked :: "string set"
  ap_rejections :: "rejection list"

definition export_alerts :: "alert_engine \<Rightarrow> alert_payload" where
  "export_alerts s =
     \<lparr>ap_history = ae_history s, ap_cooldowns = map (\<lambda>((t, k), at'). (t, k, at')) (ae_cooldowns s),
      ap_last_spike = ae_last_spike s, ap_spiked = ae_spiked s, ap_rejections = last_entries 250 (ae_rejections s)\<rparr>"

definition restored_entry :: "history_entry \<Rightarrow> history_entry" where
  "restored_entry h = fold (\<lambda>(t, v) d. if is_upper_symbol t then AList.update (py_upper t) v d else d) h []"

text \<open>\<open>bool(text.strip())\<close>.\<close>

definition not_blank :: "string \<Rightarrow> bool" where
  "not_blank r \<longleftrightarrow> (\<exists>x \<in> set r. x \<notin> {CHR '' '', CHR 0x09, CHR 0x0A, CHR 0x0B, CHR 0x0C, CHR 0x0D})"

definition restore_alerts :: "alert_config \<Rightarrow> alert_payload \<Rightarrow> alert_engine \<Rightarrow> bool \<times> alert_engine" where
  "restore_alerts c p s =
     (let hs = last_entries (snaps_per_10min c) (filter (\<lambda>h. h \<noteq> []) (map restored_entry (ap_history p)))
      in (hs \<noteq> [],
          \<lparr>ae_history = hs,
           ae_cooldowns = fold (\<lambda>(t, k, at') d.
              if is_upper_symbol t \<and> k \<noteq> [] then AList.update (py_upper t, py_upper k) at' d else d) (ap_cooldowns p) [],
           ae_last_spike = fold (\<lambda>(t, v) d. if is_upper_symbol t then AList.update (py_upper t) v d else d) (ap_last_spike p) [],
           ae_spiked = py_upper ` {t \<in> ap_spiked p. is_upper_symbol t \<and> not_blank t},
           ae_rejections = map (\<lambda>r. r\<lparr>rj_ticker := py_upper (rj_ticker r), rj_reasons := filter not_blank (rj_reasons r)\<rparr>)
              (filter (\<lambda>r. is_upper_symbol (rj_ticker r)) (last_entries 250 (ap_rejections p)))\<rparr>))"

end
