(* ===== verification/MomentumConfirmed.thy ===== *)
theory MomentumConfirmed
  imports MomentumAlerts
begin

text \<open>
  \<open>strategy_core/momentum_confirmed.py\<close>, the second stage of the scanner: it takes the alerts of
  \<open>MomentumAlerts\<close>, remembers for each symbol its spike and its squeezes, and confirms a symbol on
  news and one squeeze, on two squeezes, or on an extreme day. The confirmed list is refreshed from
  the snapshots, faded symbols leave it, and a score ranks it. The rows of the source are dictionaries
  with fixed keys, here records; the catalyst engine is a port that may answer anything; of a catalyst
  only the eligibility is read, its display fields are carried along. The minutes since four o'clock are
  an argument, log lines are left out.
\<close>

section \<open>Catalysts\<close>

record catalyst =
  ct_eligible :: bool
  ct_display :: "(string, string) dict"

definition no_catalyst :: catalyst where
  "no_catalyst = \<lparr>ct_eligible = False, ct_display = []\<rparr>"

text \<open>
  \<open>cp_one\<close> is \<open>None\<close> when the engine raises or does not answer with a mapping, \<open>cp_batch\<close> is empty
  when it has no batch call or that call raises.
\<close>

record catalyst_port =
  cp_present :: bool
  cp_one :: "string \<Rightarrow> catalyst option"
  cp_batch :: "string list \<Rightarrow> (string, catalyst) dict"

definition display_catalyst :: "catalyst_port \<Rightarrow> string \<Rightarrow> catalyst" where
  "display_catalyst P ticker =
     (if cp_present P then case cp_one P ticker of Some k \<Rightarrow> k | None \<Rightarrow> no_catalyst else no_catalyst)"

definition has_bullish_news :: "catalyst_port \<Rightarrow> string \<Rightarrow> bool" where
  "has_bullish_news P ticker = ct_eligible (display_catalyst P ticker)"

section \<open>State\<close>

record confirm_config =
  cc_min_volume :: int
  cc_max_float :: int
  cc_min_score :: rat
  cc_fade_below :: rat
  cc_extreme :: rat
  cc_turnover_small :: rat
  cc_turnover_mid :: rat
  cc_turnover_large :: rat

record squeeze =
  sq_time :: string
  sq_price :: rat
  sq_volume :: int
  sq_change :: rat
  sq_type :: string
  sq_bid :: rat
  sq_ask :: rat
  sq_bid_size :: int
  sq_ask_size :: int

record track =
  tk_spike :: bool
  tk_spike_time :: string
  tk_spike_price :: rat
  tk_spike_volume :: int
  tk_squeezes :: "squeeze list"
  tk_confirmed :: bool
  tk_confirmed_at :: string
  tk_confirmed_price :: rat

definition new_track :: track where
  "new_track =
     \<lparr>tk_spike = False, tk_spike_time = '''', tk_spike_price = 0, tk_spike_volume = 0, tk_squeezes = [],
      tk_confirmed = False, tk_confirmed_at = '''', tk_confirmed_price = 0\<rparr>"

record confirmed_stock =
  cf_ticker :: string
  cf_confirmed_at :: string
  cf_entry_price :: rat
  cf_price :: rat
  cf_change :: rat
  cf_volume :: int
  cf_rvol :: rat
  cf_shares :: int
  cf_bid :: rat
  cf_ask :: rat
  cf_bid_size :: int
  cf_ask_size :: int
  cf_spread :: rat
  cf_spread_pct :: rat
  cf_hod :: rat
  cf_vwap :: rat
  cf_prev_close :: rat
  cf_avg_volume :: rat
  cf_spike_time :: string
  cf_spike_price :: rat
  cf_squeezes :: nat
  cf_age :: int
  cf_path :: string
  cf_force :: bool
  cf_score :: rat
  cf_catalyst :: catalyst

record scanner =
  sc_tracking :: "(string, track) dict"
  sc_confirmed :: "confirmed_stock list"

definition new_scanner :: scanner where
  "new_scanner = \<lparr>sc_tracking = [], sc_confirmed = []\<rparr>"

definition track_of :: "scanner \<Rightarrow> string \<Rightarrow> track" where
  "track_of s ticker = (case map_of (sc_tracking s) ticker of Some k \<Rightarrow> k | None \<Rightarrow> new_track)"

definition put_track :: "string \<Rightarrow> track \<Rightarrow> scanner \<Rightarrow> scanner" where
  "put_track ticker k s = s\<lparr>sc_tracking := AList.update ticker k (sc_tracking s)\<rparr>"

section \<open>Filters\<close>

definition required_turnover :: "confirm_config \<Rightarrow> int \<Rightarrow> rat" where
  "required_turnover c shares =
     (if shares \<le> 10000000 then cc_turnover_small c
      else if shares \<le> 30000000 then cc_turnover_mid c else cc_turnover_large c)"

definition common_filters :: "confirm_config \<Rightarrow> int \<Rightarrow> int \<Rightarrow> bool" where
  "common_filters c volume shares \<longleftrightarrow>
     cc_min_volume c \<le> volume
     \<and> \<not> (0 < shares \<and> 0 < volume \<and> of_int volume / of_int shares < required_turnover c shares)
     \<and> \<not> (0 < shares \<and> cc_max_float c < shares)"

definition qualifies_path_b :: "squeeze \<Rightarrow> squeeze \<Rightarrow> bool" where
  "qualifies_path_b q1 q2 \<longleftrightarrow>
     sq_price q1 < sq_price q2 \<and> sq_volume q1 \<le> sq_volume q2
     \<or> sq_time q1 = sq_time q2 \<and> py_upper (sq_type q1) \<noteq> py_upper (sq_type q2)
       \<and> {SQUEEZE_5MIN, SQUEEZE_10MIN} = {py_upper (sq_type q1), py_upper (sq_type q2)}"

definition snapshot_volume :: "scan_snapshot option \<Rightarrow> int" where
  "snapshot_volume m =
     (case m of
        None \<Rightarrow> 0
      | Some m \<Rightarrow>
          if positive (day_field ds_volume m) then or_zero (day_field ds_volume m)
          else if positive (minute_field ms_volume m) then or_zero (minute_field ms_volume m) else 0)"

definition day_change :: "rat \<Rightarrow> scan_snapshot option \<Rightarrow> rat" where
  "day_change price m =
     (case m of
        None \<Rightarrow> 0
      | Some m \<Rightarrow>
          let prev = or_zero (mk_previous_close m)
          in if 0 < prev \<and> 0 < price then (price - prev) / prev * 100 else or_zero (mk_change m))"

section \<open>Confirming\<close>

text \<open>
  \<open>snaps\<close> and \<open>refs\<close> are the snapshot and reference lookups of the cycle; an empty or missing
  dictionary answers no lookup.
\<close>

record confirm_env =
  en_config :: confirm_config
  en_port :: catalyst_port
  en_minutes :: int
  en_refs :: "(string, reference_data) dict"
  en_snaps :: "(string, scan_snapshot) dict"
  en_has_snaps :: bool

definition snap_for :: "confirm_env \<Rightarrow> string \<Rightarrow> scan_snapshot option" where
  "snap_for E t = (if en_has_snaps E then map_of (en_snaps E) t else None)"

definition build_confirmed_entry :: "confirm_env \<Rightarrow> string \<Rightarrow> track \<Rightarrow> squeeze \<Rightarrow> int \<Rightarrow> confirmed_stock" where
  "build_confirmed_entry E ticker k q shares =
     (let bid = sq_bid q; ask = sq_ask q; two = 0 < ask \<and> 0 < bid; ref = map_of (en_refs E) ticker;
          avg = (case ref of Some r \<Rightarrow> rd_avg_volume r | None \<Rightarrow> 0); m = snap_for E ticker;
          prev = (case m of Some m \<Rightarrow> or_zero (mk_previous_close m) | None \<Rightarrow> 0)
      in \<lparr>cf_ticker = ticker, cf_confirmed_at = tk_confirmed_at k, cf_entry_price = tk_confirmed_price k,
          cf_price = sq_price q,
          cf_change = (if 0 < prev then py_round ((sq_price q - prev) / prev * 100) 2 else 0),
          cf_volume = sq_volume q,
          cf_rvol = py_round (if 0 < avg then compute_rvol (of_int (sq_volume q)) avg (en_minutes E) else 0) 2,
          cf_shares = (case ref of Some r \<Rightarrow> rd_shares r | None \<Rightarrow> shares),
          cf_bid = bid, cf_ask = ask, cf_bid_size = sq_bid_size q, cf_ask_size = sq_ask_size q,
          cf_spread = (if two then spread_of bid ask else 0),
          cf_spread_pct = (if two then spread_pct_of bid ask else 0),
          cf_hod = (case m of Some m \<Rightarrow> get_current_hod m | None \<Rightarrow> sq_price q),
          cf_vwap = (case m of Some m \<Rightarrow> get_current_vwap m | None \<Rightarrow> 0),
          cf_prev_close = prev, cf_avg_volume = avg, cf_spike_time = tk_spike_time k,
          cf_spike_price = tk_spike_price k, cf_squeezes = length (tk_squeezes k), cf_age = 0,
          cf_path = '''', cf_force = False, cf_score = 0, cf_catalyst = display_catalyst (en_port E) ticker\<rparr>)"

definition PATH_A :: string where "PATH_A = ''PATH_A_NEWS''"
definition PATH_B :: string where "PATH_B = ''PATH_B_2SQ''"
definition PATH_C :: string where "PATH_C = ''PATH_C_EXTREME_MOVER''"

definition confirm_ticker ::
  "confirm_env \<Rightarrow> string \<Rightarrow> track \<Rightarrow> squeeze \<Rightarrow> int \<Rightarrow> string \<Rightarrow> scanner \<Rightarrow> confirmed_stock list \<times> scanner" where
  "confirm_ticker E ticker k q shares path s =
     (let k1 = k\<lparr>tk_confirmed := True, tk_confirmed_at := sq_time q, tk_confirmed_price := sq_price q\<rparr>;
          row = (build_confirmed_entry E ticker k1 q shares)\<lparr>cf_path := path, cf_force := (path = PATH_C)\<rparr>
      in ([row],
          (put_track ticker k1 s)
            \<lparr>sc_confirmed := filter (\<lambda>x. cf_ticker x \<noteq> ticker) (sc_confirmed s) @ [row]\<rparr>))"

text \<open>\<open>"SQUEEZE" in alert_type\<close>.\<close>

definition mentions_squeeze :: "string \<Rightarrow> bool" where
  "mentions_squeeze kind \<longleftrightarrow> list_ex (\<lambda>i. py_startswith (drop i kind) ''SQUEEZE'') [0..<length kind]"

definition squeeze_of :: "confirm_env \<Rightarrow> scanner_alert \<Rightarrow> squeeze" where
  "squeeze_of E a =
     \<lparr>sq_time = al_time a, sq_price = al_price a,
      sq_volume = (if en_has_snaps E then max (al_volume a) (snapshot_volume (snap_for E (al_ticker a)))
                   else al_volume a),
      sq_change = (case al_details a of Squeeze x _ \<Rightarrow> x | _ \<Rightarrow> 0), sq_type = al_type a,
      sq_bid = ba_bid (al_quote a), sq_ask = ba_ask (al_quote a),
      sq_bid_size = ba_bid_size (al_quote a), sq_ask_size = ba_ask_size (al_quote a)\<rparr>"

definition float_of :: "confirm_env \<Rightarrow> scanner_alert \<Rightarrow> int" where
  "float_of E a =
     (if al_float a \<noteq> 0 then al_float a
      else case map_of (en_refs E) (al_ticker a) of Some r \<Rightarrow> rd_shares r | None \<Rightarrow> 0)"

definition note_spike :: "scanner_alert \<Rightarrow> track \<Rightarrow> track" where
  "note_spike a k =
     (if al_type a = VOLUME_SPIKE \<and> \<not> tk_spike k
      then k\<lparr>tk_spike := True, tk_spike_time := al_time a, tk_spike_price := al_price a,
             tk_spike_volume := al_volume a\<rparr>
      else k)"

definition process_squeeze ::
  "confirm_env \<Rightarrow> scanner_alert \<Rightarrow> track \<Rightarrow> scanner \<Rightarrow> confirmed_stock list \<times> scanner" where
  "process_squeeze E a k s =
     (let t = al_ticker a; q = squeeze_of E a; shares = float_of E a;
          passed = common_filters (en_config E) (sq_volume q) shares
      in if cc_extreme (en_config E) \<le> day_change (al_price a) (snap_for E t) \<and> passed
         then confirm_ticker E t (k\<lparr>tk_squeezes := (if tk_spike k then tk_squeezes k @ [q] else [q])\<rparr>) q shares PATH_C s
         else if \<not> tk_spike k then ([], s)
         else let k1 = k\<lparr>tk_squeezes := tk_squeezes k @ [q]\<rparr>; qs = tk_squeezes k1
              in if length qs = 1 \<and> passed \<and> has_bullish_news (en_port E) t
                 then confirm_ticker E t k1 q shares PATH_A s
                 else if 2 \<le> length qs \<and> passed \<and> qualifies_path_b (qs ! (length qs - 2)) q
                 then confirm_ticker E t k1 q shares PATH_B s
                 else ([], put_track t k1 s))"

definition process_alert :: "confirm_env \<Rightarrow> scanner_alert \<Rightarrow> scanner \<Rightarrow> confirmed_stock list \<times> scanner" where
  "process_alert E a s =
     (if \<not> is_upper_symbol (al_ticker a) then ([], s)
      else let k = track_of s (al_ticker a)
           in if tk_confirmed k then ([], put_track (al_ticker a) k s)
              else let k1 = note_spike a k; s1 = put_track (al_ticker a) k1 s
                   in if mentions_squeeze (al_type a) then process_squeeze E a k1 s1 else ([], s1))"

fun process_alerts :: "confirm_env \<Rightarrow> scanner_alert list \<Rightarrow> scanner \<Rightarrow> confirmed_stock list \<times> scanner" where
  "process_alerts E [] s = ([], s)"
| "process_alerts E (a # as) s =
     (case process_alert E a s of (x, s1) \<Rightarrow>
      case process_alerts E as s1 of (y, s2) \<Rightarrow> (x @ y, s2))"

section \<open>Refreshing the confirmed list\<close>

definition refresh_catalysts :: "catalyst_port \<Rightarrow> string list \<Rightarrow> scanner \<Rightarrow> scanner" where
  "refresh_catalysts P tickers s =
     (if \<not> cp_present P \<or> sc_confirmed s = [] then s
      else let given = remdups (map py_upper (filter (\<lambda>t. t \<noteq> []) tickers));
               target = (if given \<noteq> [] then given
                         else remdups (map (py_upper \<circ> cf_ticker) (filter (\<lambda>x. cf_ticker x \<noteq> []) (sc_confirmed s))));
               batch = map (\<lambda>(t, k). (py_upper t, k)) (cp_batch P (sort target));
               fresh = (\<lambda>t. case map_of (rev batch) t of
                              Some k \<Rightarrow> if k = no_catalyst then display_catalyst P t else k
                            | None \<Rightarrow> display_catalyst P t)
           in if target = [] then s
              else s\<lparr>sc_confirmed := map (\<lambda>x. if py_upper (cf_ticker x) \<in> set target
                        then x\<lparr>cf_catalyst := fresh (py_upper (cf_ticker x))\<rparr> else x) (sc_confirmed s)\<rparr>)"

definition seed_confirmed :: "confirmed_stock list \<Rightarrow> scanner \<Rightarrow> scanner" where
  "seed_confirmed rows s =
     s\<lparr>sc_confirmed := map (\<lambda>x. x\<lparr>cf_ticker := py_upper (cf_ticker x)\<rparr>)
                        (filter (\<lambda>x. is_upper_symbol (cf_ticker x)) rows)\<rparr>"

definition quote_update :: "quote_snapshot option \<Rightarrow> confirmed_stock \<Rightarrow> confirmed_stock" where
  "quote_update quote x =
     (case quote of
        None \<Rightarrow> x
      | Some q \<Rightarrow>
          (let bid = or_zero (qs_bid q); ask = or_zero (qs_ask q);
               x1 = x\<lparr>cf_bid := (if 0 < bid then bid else cf_bid x), cf_ask := (if 0 < ask then ask else cf_ask x),
                      cf_bid_size := (case qs_bid_size q of Some n \<Rightarrow> n | None \<Rightarrow> cf_bid_size x),
                      cf_ask_size := (case qs_ask_size q of Some n \<Rightarrow> n | None \<Rightarrow> cf_ask_size x)\<rparr>
           in if 0 < bid \<and> 0 < ask
              then x1\<lparr>cf_spread := spread_of bid ask, cf_spread_pct := spread_pct_of bid ask\<rparr> else x1))"

definition revalidated :: "confirm_env \<Rightarrow> scan_snapshot \<Rightarrow> confirmed_stock \<Rightarrow> confirmed_stock" where
  "revalidated E m x =
     (let ref = map_of (en_refs E) (py_upper (cf_ticker x));
          x1 = (case ref of Some r \<Rightarrow> x\<lparr>cf_shares := rd_shares r, cf_avg_volume := rd_avg_volume r\<rparr> | None \<Rightarrow> x);
          price = or_zero (get_snapshot_price m);
          prev = (if or_zero (mk_previous_close m) \<noteq> 0 then or_zero (mk_previous_close m) else cf_prev_close x1);
          x2 = x1\<lparr>cf_price := (if 0 < price then price else cf_price x1), cf_prev_close := prev,
                  cf_change := (if 0 < price \<and> 0 < prev then py_round ((price - prev) / prev * 100) 2 else cf_change x1)\<rparr>;
          x3 = quote_update (mk_last_quote m) x2;
          volume = get_current_volume m
      in x3\<lparr>cf_volume := (if 0 < volume then volume else cf_volume x3),
            cf_rvol := (if 0 < volume \<and> 0 < cf_avg_volume x3
                        then py_round (compute_rvol (of_int volume) (cf_avg_volume x3) (en_minutes E)) 2 else cf_rvol x3),
            cf_hod := get_current_hod m, cf_vwap := get_current_vwap m, cf_age := 0\<rparr>)"

definition revalidate_seeded :: "confirm_env \<Rightarrow> scanner \<Rightarrow> scanner" where
  "revalidate_seeded E s =
     refresh_catalysts (en_port E) []
       (s\<lparr>sc_confirmed := List.map_filter (\<lambda>x.
            if is_upper_symbol (cf_ticker x)
            then map_option (\<lambda>m. revalidated E m x) (map_of (en_snaps E) (py_upper (cf_ticker x))) else None)
          (sc_confirmed s)\<rparr>)"

definition live_price :: "scan_snapshot \<Rightarrow> confirmed_stock \<Rightarrow> confirmed_stock" where
  "live_price m x =
     (let price = or_zero (get_snapshot_price m); prev = cf_prev_close x;
          x1 = x\<lparr>cf_price := (if 0 < price then price else cf_price x),
                 cf_change := (if 0 < price \<and> 0 < prev then (price - prev) / prev * 100 else cf_change x)\<rparr>;
          x2 = quote_update (mk_last_quote m) x1; volume = get_current_volume m
      in x2\<lparr>cf_volume := (if 0 < volume then volume else cf_volume x2)\<rparr>)"

definition update_live_prices :: "confirm_env \<Rightarrow> scanner \<Rightarrow> scanner" where
  "update_live_prices E s =
     refresh_catalysts (en_port E) []
       (s\<lparr>sc_confirmed := map (\<lambda>x. case map_of (en_snaps E) (cf_ticker x) of Some m \<Rightarrow> live_price m x | None \<Rightarrow> x)
          (sc_confirmed s)\<rparr>)"

section \<open>Fading and removal\<close>

definition allow_reconfirmation :: "string \<Rightarrow> scanner \<Rightarrow> scanner" where
  "allow_reconfirmation ticker s =
     (case map_of (sc_tracking s) ticker of
        None \<Rightarrow> s
      | Some k \<Rightarrow> put_track ticker (k\<lparr>tk_confirmed := False, tk_spike := False, tk_squeezes := []\<rparr>) s)"

definition forget_spike :: "string \<Rightarrow> scanner \<Rightarrow> scanner" where
  "forget_spike ticker s =
     (case map_of (sc_tracking s) ticker of
        None \<Rightarrow> s
      | Some k \<Rightarrow> put_track ticker (k\<lparr>tk_spike_time := '''', tk_spike_price := 0, tk_spike_volume := 0,
                                       tk_confirmed_at := '''', tk_confirmed_price := 0\<rparr>) s)"

definition prune_faded :: "confirm_config \<Rightarrow> rat option \<Rightarrow> scanner \<Rightarrow> string list \<times> scanner" where
  "prune_faded c bound s =
     (let threshold = (case bound of None \<Rightarrow> cc_fade_below c | Some b \<Rightarrow> b);
          listed = filter (\<lambda>x. is_upper_symbol (cf_ticker x)) (sc_confirmed s);
          faded = map (py_upper \<circ> cf_ticker) (filter (\<lambda>x. cf_change x < threshold) listed)
      in if threshold \<le> 0 \<or> faded = [] then ([], s)
         else (faded,
               fold (\<lambda>t. forget_spike t \<circ> allow_reconfirmation t) faded
                 (s\<lparr>sc_confirmed := filter (\<lambda>x. \<not> cf_change x < threshold) listed\<rparr>)))"

definition remove_confirmed :: "string list \<Rightarrow> scanner \<Rightarrow> scanner" where
  "remove_confirmed tickers s =
     (let blocked = set (map py_upper (filter (\<lambda>t. t \<noteq> []) tickers))
      in if blocked = {} then s
         else \<lparr>sc_tracking = filter (\<lambda>(t, _). py_upper t \<notin> blocked) (sc_tracking s),
               sc_confirmed = filter (\<lambda>x. py_upper (cf_ticker x) \<notin> blocked) (sc_confirmed s)\<rparr>)"

definition reset_scanner :: "scanner \<Rightarrow> scanner" where
  "reset_scanner s = new_scanner"

section \<open>Ranking\<close>

definition get_confirmed :: "rat \<Rightarrow> scanner \<Rightarrow> confirmed_stock list" where
  "get_confirmed min_change s =
     (if min_change \<le> 0 then sc_confirmed s else filter (\<lambda>x. min_change \<le> cf_change x) (sc_confirmed s))"

text \<open>\<open>xs.index(v)\<close> for a member of the list.\<close>

definition index_of :: "'a list \<Rightarrow> 'a \<Rightarrow> nat" where
  "index_of xs v = length (takeWhile (\<lambda>x. x \<noteq> v) xs)"

definition rank_asc :: "rat \<Rightarrow> rat list \<Rightarrow> rat" where
  "rank_asc v vs =
     of_nat (if v \<in> set vs then index_of (sort vs) v else 0) / of_nat (max (length vs - 1) 1) * 100"

definition rank_desc :: "rat \<Rightarrow> rat list \<Rightarrow> rat" where
  "rank_desc v vs =
     of_nat (if v \<in> set vs then index_of (rev (sort vs)) v else 0) / of_nat (max (length vs - 1) 1) * 100"

definition score_spread :: "confirmed_stock \<Rightarrow> rat" where
  "score_spread x = (if 0 < cf_bid x \<and> 0 < cf_ask x then (cf_ask x - cf_bid x) * 100 else 999)"

definition score_turnover :: "confirmed_stock \<Rightarrow> rat" where
  "score_turnover x = (if 0 < cf_shares x then of_int (cf_volume x) / of_int (cf_shares x) else 0)"

definition calculate_score :: "confirmed_stock \<Rightarrow> confirmed_stock list \<Rightarrow> rat" where
  "calculate_score x xs =
     (if xs = [] then 0
      else if length xs = 1 then 100
      else let asc = (\<lambda>f. rank_asc (f x) (map f xs)); desc = (\<lambda>f. rank_desc (f x) (map f xs))
           in py_round (asc (of_int \<circ> cf_volume) * (1 / 5) + desc (of_int \<circ> cf_shares) * (1 / 5)
                + asc cf_rvol * (1 / 5) + asc cf_change * (1 / 5)
                + desc score_spread * (1 / 10) + asc score_turnover * (1 / 10)) 1)"

text \<open>
  The sort key \<open>(force_watchlist, rank_score)\<close> with \<open>reverse=True\<close>: a stable sort by the reversed
  order of the pairs.
\<close>

datatype rank_key = Rank (rk_force: bool) (rk_score: rat)

instantiation rank_key :: linorder
begin

definition less_eq_rank_key :: "rank_key \<Rightarrow> rank_key \<Rightarrow> bool" where
  "a \<le> b \<longleftrightarrow> rk_force b < rk_force a \<or> rk_force a = rk_force b \<and> rk_score b \<le> rk_score a"

definition less_rank_key :: "rank_key \<Rightarrow> rank_key \<Rightarrow> bool" where
  "a < b \<longleftrightarrow> rk_force b < rk_force a \<or> rk_force a = rk_force b \<and> rk_score b < rk_score a"

instance
  by standard (auto simp: less_eq_rank_key_def less_rank_key_def intro: rank_key.expand)

end

definition rank_of :: "confirmed_stock \<Rightarrow> rank_key" where
  "rank_of x = Rank (cf_force x) (cf_score x)"

definition get_ranked_confirmed ::
  "confirm_config \<Rightarrow> rat \<Rightarrow> rat option \<Rightarrow> scanner \<Rightarrow> confirmed_stock list \<times> scanner" where
  "get_ranked_confirmed c min_change min_score s =
     (let threshold = (case min_score of None \<Rightarrow> cc_min_score c | Some m \<Rightarrow> m);
          eligible = (\<lambda>x. min_change \<le> cf_change x);
          candidates = filter eligible (sc_confirmed s);
          scored = (\<lambda>x. x\<lparr>cf_score := calculate_score x candidates\<rparr>);
          ranked = sort_key rank_of (map scored candidates)
      in if candidates = [] then ([], s)
         else (if 0 < threshold then filter (\<lambda>x. threshold \<le> cf_score x \<or> cf_force x) ranked else ranked,
               s\<lparr>sc_confirmed := map (\<lambda>x. if eligible x then scored x else x) (sc_confirmed s)\<rparr>))"

definition get_top_n ::
  "confirm_config \<Rightarrow> nat \<Rightarrow> rat \<Rightarrow> rat option \<Rightarrow> scanner \<Rightarrow> confirmed_stock list \<times> scanner" where
  "get_top_n c n min_change min_score s =
     (case get_ranked_confirmed c min_change min_score s of (ranked, t) \<Rightarrow> (take n ranked, t))"

end
