(* ===== verification/MomentumAlertsSpec.thy ===== *)
theory MomentumAlertsSpec
  imports MomentumAlerts
begin

text \<open>
  What the alert engine promises in every run of recordings, checks and restarts. A check is a sequence
  of moves (\<open>fires\<close>), each of which fires one alert with its evidence; the properties are proved for
  the moves: alerts of one kind keep their distance, a squeeze follows a spike, the bounded history
  measures as the whole recording would, and an exported state is restored.
\<close>

section \<open>What one check fires\<close>

text \<open>The key of an alert in the cooldown table, and the evidence an alert rests on.\<close>

definition fired_key :: "scanner_alert \<Rightarrow> string \<times> string" where
  "fired_key a = (al_ticker a, al_type a)"

definition squeezed :: "rat \<Rightarrow> (rat \<times> int) option \<Rightarrow> rat \<Rightarrow> bool" where
  "squeezed bound old price \<longleftrightarrow>
     (case old of Some (p, _) \<Rightarrow> 0 < p \<and> bound \<le> (price - p) / p * 100 | None \<Rightarrow> False)"

definition volume_jumped :: "alert_config \<Rightarrow> (rat \<times> int) option \<Rightarrow> reference_data option \<Rightarrow> int \<Rightarrow> bool" where
  "volume_jumped c old ref volume \<longleftrightarrow>
     (case (old, ref) of
        (Some (_, v), Some r) \<Rightarrow>
          50000 \<le> volume - v
          \<or> 0 < rd_avg_volume r \<and> rd_avg_volume r / 78 * ac_spike_mult c \<le> of_int (volume - v)
      | _ \<Rightarrow> False)"

definition kinds :: "string set" where
  "kinds = {VOLUME_SPIKE, SQUEEZE_5MIN, SQUEEZE_10MIN}"

definition alert_ok :: "alert_config \<Rightarrow> (string, reference_data) dict option \<Rightarrow> history_entry list \<Rightarrow> scanner_alert \<Rightarrow> bool" where
  "alert_ok c refs hs a \<longleftrightarrow>
     is_upper_symbol (al_ticker a) \<and> al_type a \<in> kinds
     \<and> ac_min_price c \<le> al_price a \<and> al_price a \<le> ac_max_price c \<and> ac_min_volume c \<le> al_volume a
     \<and> (al_type a = SQUEEZE_5MIN \<longrightarrow> squeezed (ac_squeeze5 c) (ago (snaps_per_5min c) (al_ticker a) hs) (al_price a))
     \<and> (al_type a = SQUEEZE_10MIN \<longrightarrow> squeezed (ac_squeeze10 c) (ago (snaps_per_10min c) (al_ticker a) hs) (al_price a))
     \<and> (al_type a = VOLUME_SPIKE \<longrightarrow>
          volume_jumped c (ago (snaps_per_5min c) (al_ticker a) hs) (Option.bind refs (\<lambda>d. map_of d (al_ticker a))) (al_volume a))"

definition rejection_ok :: "rejection \<Rightarrow> bool" where
  "rejection_ok r \<longleftrightarrow> is_upper_symbol (rj_ticker r) \<and> (\<forall>x \<in> set (rj_reasons r). not_blank x)"

text \<open>
  A check is a sequence of moves: it files a rejection or nothing, or fires one alert whose key is not
  cooling down, starts the cooldown, and either notes the spike or has seen it.
\<close>

inductive fires ::
  "alert_config \<Rightarrow> int \<Rightarrow> (string, reference_data) dict option \<Rightarrow> history_entry list
     \<Rightarrow> alert_engine \<Rightarrow> scanner_alert list \<Rightarrow> alert_engine \<Rightarrow> bool" for c now refs hs where
  fires_none: "ae_history s = hs \<Longrightarrow> t = s \<or> (\<exists>r. rejection_ok r
      \<and> t = s\<lparr>ae_rejections := last_entries 250 (ae_rejections s @ [r])\<rparr>) \<Longrightarrow> fires c now refs hs s [] t"
| fires_one: "ae_history s = hs \<Longrightarrow> \<not> on_cooldown c (al_ticker a) (al_type a) now s \<Longrightarrow> alert_ok c refs hs a
    \<Longrightarrow> al_type a \<noteq> VOLUME_SPIKE \<longrightarrow> al_ticker a \<in> ae_spiked s
    \<Longrightarrow> t = (if al_type a = VOLUME_SPIKE
             then s\<lparr>ae_last_spike := AList.update (al_ticker a) (al_volume a) (ae_last_spike s),
                    ae_spiked := insert (al_ticker a) (ae_spiked s)\<rparr> else s)
    \<Longrightarrow> fires c now refs hs s [a] (set_cooldown (al_ticker a) (al_type a) now t)"
| fires_both: "fires c now refs hs s as t \<Longrightarrow> fires c now refs hs t bs u \<Longrightarrow> fires c now refs hs s (as @ bs) u"

lemma kinds_differ [simp]:
  "SQUEEZE_5MIN \<noteq> VOLUME_SPIKE" "SQUEEZE_10MIN \<noteq> VOLUME_SPIKE" "SQUEEZE_5MIN \<noteq> SQUEEZE_10MIN"
  "VOLUME_SPIKE \<noteq> SQUEEZE_5MIN" "VOLUME_SPIKE \<noteq> SQUEEZE_10MIN" "SQUEEZE_10MIN \<noteq> SQUEEZE_5MIN"
  by (simp_all add: VOLUME_SPIKE_def SQUEEZE_5MIN_def SQUEEZE_10MIN_def)

text \<open>A view of a symbol in range, read off the history and the reference data.\<close>

definition view_ok :: "alert_config \<Rightarrow> (string, reference_data) dict option \<Rightarrow> history_entry list \<Rightarrow> ticker_view \<Rightarrow> bool" where
  "view_ok c refs hs v \<longleftrightarrow>
     is_upper_symbol (tv_ticker v)
     \<and> ac_min_price c \<le> tv_price v \<and> tv_price v \<le> ac_max_price c \<and> ac_min_volume c \<le> tv_volume v
     \<and> (\<forall>b. reaches (tv_squeeze5 v) b \<longrightarrow> squeezed b (ago (snaps_per_5min c) (tv_ticker v) hs) (tv_price v))
     \<and> (\<forall>b. reaches (tv_squeeze10 v) b \<longrightarrow> squeezed b (ago (snaps_per_10min c) (tv_ticker v) hs) (tv_price v))
     \<and> (spiking v \<longrightarrow>
          volume_jumped c (ago (snaps_per_5min c) (tv_ticker v) hs) (Option.bind refs (\<lambda>d. map_of d (tv_ticker v))) (tv_volume v))"

lemma view_ticker_ok:
  assumes "is_upper_symbol (mk_ticker m)" "ac_min_price c \<le> p" "p \<le> ac_max_price c" "ac_min_volume c \<le> get_current_volume m"
  shows "view_ok c refs hs (view_ticker c refs hs m p)"
  using assms
  by (cases refs; cases "ago (snaps_per_5min c) (mk_ticker m) hs"; cases "Option.bind refs (\<lambda>d. map_of d (mk_ticker m))")
    (auto simp: view_ok_def view_ticker_def Let_def change_since_def squeezed_def reaches_def spike_inputs_def spiking_def volume_jumped_def
      split: prod.splits if_splits option.splits)

lemma spike_fires:
  assumes "ae_history s = hs" "view_ok c refs hs v" "spike_step c f now v s = (as, t)"
  shows "fires c now refs hs s as t"
proof (cases "spike_due c now v s")
  case True
  from assms(3) obtain d where
    as: "as = [base_alert f now v VOLUME_SPIKE d]" and
    t: "t = set_cooldown (tv_ticker v) VOLUME_SPIKE now
        (s\<lparr>ae_last_spike := AList.update (tv_ticker v) (tv_volume v) (ae_last_spike s),
           ae_spiked := insert (tv_ticker v) (ae_spiked s)\<rparr>)"
    by (auto simp: spike_step_def True)
  have ok: "alert_ok c refs hs (base_alert f now v VOLUME_SPIKE d)"
    using assms(2) True by (simp add: alert_ok_def base_alert_def view_ok_def kinds_def spike_due_def)
  show ?thesis
    unfolding as t using fires_one[OF assms(1) _ ok _ refl, of now] True
    by (simp add: base_alert_def spike_due_def)
qed (use assms in \<open>auto simp: spike_step_def intro: fires_none\<close>)

lemma squeeze_fires:
  assumes "ae_history s = hs" "view_ok c refs hs v" "squeeze_step c f now v kind change old bound s = (as, t)"
    and k: "kind = SQUEEZE_5MIN \<and> change = tv_squeeze5 v \<and> bound = ac_squeeze5 c
      \<or> kind = SQUEEZE_10MIN \<and> change = tv_squeeze10 v \<and> bound = ac_squeeze10 c"
  shows "fires c now refs hs s as t"
proof (cases "\<exists>x p w. change = Some x \<and> old = Some (p, w) \<and> tv_ticker v \<in> ae_spiked s \<and> bound \<le> x
    \<and> \<not> on_cooldown c (tv_ticker v) kind now s")
  case True
  then obtain x p w where x: "change = Some x" "old = Some (p, w)" "tv_ticker v \<in> ae_spiked s" "bound \<le> x"
    "\<not> on_cooldown c (tv_ticker v) kind now s" by blast
  from assms(3) x obtain d where as: "as = [base_alert f now v kind d]" and
    t: "t = set_cooldown (tv_ticker v) kind now s" by (auto simp: squeeze_step_def)
  have ok: "alert_ok c refs hs (base_alert f now v kind d)"
  proof -
    have "reaches change bound" using x by (simp add: reaches_def)
    with k assms(2) show ?thesis by (elim disjE) (simp_all add: alert_ok_def base_alert_def view_ok_def kinds_def)
  qed
  have n: "kind \<noteq> VOLUME_SPIKE" using k by auto
  show ?thesis
    unfolding as t using fires_one[OF assms(1) _ ok _ refl, of now] x(3,5) n by (simp add: base_alert_def)
qed (use assms in \<open>auto simp: squeeze_step_def split: option.splits if_splits intro: fires_none\<close>)

lemma fires_history: "fires c now refs hs s as t \<Longrightarrow> ae_history s = hs \<and> ae_history t = hs"
  by (induction rule: fires.induct) (auto simp: set_cooldown_def)

lemma not_blank_head [simp]:
  "x \<notin> {CHR '' '', CHR 0x09, CHR 0x0A, CHR 0x0B, CHR 0x0C, CHR 0x0D} \<Longrightarrow> not_blank (x # xs)"
  unfolding not_blank_def by (rule bexI[of _ x]) simp_all

lemma reason_parts_not_blank:
  "\<forall>x \<in> set (reason_history c v s). not_blank x" "\<forall>x \<in> set (reason_spike c now v s). not_blank x"
  "\<forall>x \<in> set (reason_5min c now v s). not_blank x" "\<forall>x \<in> set (reason_10min c now v s). not_blank x"
  by (simp_all add: reason_history_def reason_spike_def reason_5min_def reason_10min_def)

lemma reasons_not_blank: "\<forall>x \<in> set (rejection_reasons c now v s). not_blank x"
  using reason_parts_not_blank by (auto simp: rejection_reasons_def Let_def)

lemma check_view_fires:
  assumes h: "ae_history s = hs" and r: "view_ok c refs hs v" and k: "check_view c f now v s = (as, t)"
  shows "fires c now refs hs s as t"
proof -
  obtain a1 s1 where 1: "spike_step c f now v s = (a1, s1)" by fastforce
  obtain a2 s2 where 2: "squeeze_step c f now v SQUEEZE_5MIN (tv_squeeze5 v) (tv_old5 v) (ac_squeeze5 c) s1 = (a2, s2)"
    by fastforce
  obtain a3 s3 where 3: "squeeze_step c f now v SQUEEZE_10MIN (tv_squeeze10 v) (tv_old10 v) (ac_squeeze10 c) s2 = (a3, s3)"
    by fastforce
  have f1: "fires c now refs hs s a1 s1" by (rule spike_fires[OF h r 1])
  have f2: "fires c now refs hs s1 a2 s2" by (rule squeeze_fires[OF _ r 2]) (use fires_history[OF f1] in simp_all)
  have f3: "fires c now refs hs s2 a3 s3" by (rule squeeze_fires[OF _ r 3]) (use fires_history[OF f2] in simp_all)
  have all: "fires c now refs hs s (a1 @ a2 @ a3) s3" by (intro fires_both[OF f1] fires_both[OF f2] f3)
  have "rejection_ok rr" if "reject c f now v s3 = s3\<lparr>ae_rejections := last_entries 250 (ae_rejections s3 @ [rr])\<rparr>"
    "rr = \<lparr>rj_ticker = tv_ticker v, rj_price = tv_price v, rj_quote = tv_quote v, rj_volume = tv_volume v,
           rj_float = tv_float v, rj_time = f now, rj_cycles = length (ae_history s3),
           rj_reasons = rejection_reasons c now v s3, rj_vol5 = tv_vol5 v, rj_expected = py_int (tv_expected v),
           rj_relative = tv_relative v, rj_absolute = tv_absolute v, rj_gate = tv_ticker v \<in> ae_spiked s3,
           rj_squeeze5 = map_option (\<lambda>x. py_round x 2) (tv_squeeze5 v),
           rj_squeeze10 = map_option (\<lambda>x. py_round x 2) (tv_squeeze10 v)\<rparr>" for rr
    using r reasons_not_blank by (auto simp: that(2) rejection_ok_def view_ok_def)
  then have quiet: "fires c now refs hs s3 [] (reject c f now v s3)"
    using fires_history[OF f3] by (auto simp: reject_def intro!: fires_none)
  from k show ?thesis
    using all fires_both[OF all quiet] by (auto simp: check_view_def 1 2 3 split: if_splits)
qed

lemma check_one_fires:
  assumes "ae_history s = hs" "is_upper_symbol (mk_ticker m)" "check_one c f now refs m p s = (as, t)"
  shows "fires c now refs hs s as t"
  using assms view_ticker_ok[of m c p refs hs]
  by (auto simp: check_one_def not_less intro: fires_none elim!: check_view_fires[rotated 2] split: if_splits)

lemma check_all_fires:
  "ae_history s = hs \<Longrightarrow> \<forall>x \<in> set d. is_upper_symbol (mk_ticker (fst (snd x))) \<Longrightarrow> check_all c f now refs d s = (as, t) \<Longrightarrow>
   fires c now refs hs s as t"
proof (induction c f now refs d s arbitrary: as t rule: check_all.induct)
  case (2 c f now refs k m p d s)
  obtain a s1 where 1: "check_one c f now refs m p s = (a, s1)" by fastforce
  obtain b s2 where b: "check_all c f now refs d s1 = (b, s2)" by fastforce
  have f: "fires c now refs hs s a s1" by (rule check_one_fires[OF 2(2) _ 1]) (use 2(3) in simp)
  from 2 1 b f fires_history[OF f] show ?case by (auto intro: fires_both)
qed (auto intro: fires_none)

definition prices_upper :: "(string, scan_snapshot \<times> rat) dict \<Rightarrow> bool" where
  "prices_upper d \<longleftrightarrow> (\<forall>x \<in> set d. is_upper_symbol (mk_ticker (fst (snd x))))"

lemma prices_upper_update: "prices_upper d \<Longrightarrow> is_upper_symbol (mk_ticker m) \<Longrightarrow> prices_upper (AList.update t (m, p) d)"
  by (induction d) (auto simp: prices_upper_def)

lemma current_prices_upper: "prices_upper d \<Longrightarrow> prices_upper (current_prices ms d)"
  by (induction ms d rule: current_prices.induct) (auto simp: prices_upper_update split: option.splits)

lemma check_alerts_fires:
  assumes "check_alerts c f now ms refs s = (as, t)"
  shows "\<exists>u. fires c now refs (ae_history s) s as u \<and> (t = u \<or> t = cleanup_cooldowns c now u)"
proof -
  obtain b u where u: "check_all c f now refs (current_prices ms []) s = (b, u)" by fastforce
  have "fires c now refs (ae_history s) s b u" 
    by (rule check_all_fires[OF refl _ u]) (use current_prices_upper[of "[]" ms] in \<open>simp add: prices_upper_def\<close>)
  with assms u show ?thesis by (auto simp: check_alerts_def split: if_splits)
qed

section \<open>Well-formed states and restarts\<close>

definition keys_in :: "('k \<Rightarrow> bool) \<Rightarrow> ('k, 'v) dict \<Rightarrow> bool" where
  "keys_in P d \<longleftrightarrow> (\<forall>k \<in> fst ` set d. P k)"

lemma keys_in_update [simp]: "keys_in P (AList.update k v d) \<longleftrightarrow> P k \<and> keys_in P d"
  by (simp only: keys_in_def dom_update) auto

lemma keys_in_Nil [simp]: "keys_in P []"
  and keys_in_Cons [simp]: "keys_in P (x # d) \<longleftrightarrow> P (fst x) \<and> keys_in P d"
  by (simp_all add: keys_in_def)

lemma keys_in_filter: "keys_in P d \<Longrightarrow> keys_in P (filter Q d)"
  by (induction d) auto

definition entry_ok :: "history_entry \<Rightarrow> bool" where
  "entry_ok h \<longleftrightarrow> keys_distinct h \<and> keys_in is_upper_symbol h"

definition key_ok :: "string \<times> string \<Rightarrow> bool" where
  "key_ok k \<longleftrightarrow> is_upper_symbol (fst k) \<and> snd k \<in> kinds"

definition engine_ok :: "alert_config \<Rightarrow> alert_engine \<Rightarrow> bool" where
  "engine_ok c s \<longleftrightarrow>
     keys_distinct (ae_cooldowns s) \<and> keys_in key_ok (ae_cooldowns s)
     \<and> keys_distinct (ae_last_spike s) \<and> keys_in is_upper_symbol (ae_last_spike s)
     \<and> (\<forall>t \<in> ae_spiked s. is_upper_symbol t)
     \<and> length (ae_history s) \<le> snaps_per_10min c \<and> (\<forall>h \<in> set (ae_history s). entry_ok h)
     \<and> length (ae_rejections s) \<le> 250 \<and> (\<forall>r \<in> set (ae_rejections s). rejection_ok r)"

lemma length_last_entries [simp]: "length (last_entries n xs) = min n (length xs)"
  by (simp add: last_entries_def)

lemma last_entries_all [simp]: "length xs \<le> n \<Longrightarrow> last_entries n xs = xs"
  by (simp add: last_entries_def)

lemma set_last_entries: "x \<in> set (last_entries n xs) \<Longrightarrow> x \<in> set xs"
  by (auto simp: last_entries_def dest: in_set_dropD)

lemma ball_last_entries: "\<forall>x \<in> set xs. P x \<Longrightarrow> \<forall>x \<in> set (last_entries n xs). P x"
  using set_last_entries by fast

lemma fires_ok: "fires c now refs hs s as t \<Longrightarrow> engine_ok c s \<Longrightarrow> engine_ok c t"
proof (induction rule: fires.induct)
  case (fires_none s t)
  from fires_none(2) show ?case
  proof
    assume "\<exists>r. rejection_ok r \<and> t = s\<lparr>ae_rejections := last_entries 250 (ae_rejections s @ [r])\<rparr>"
    then obtain r where r: "rejection_ok r" "t = s\<lparr>ae_rejections := last_entries 250 (ae_rejections s @ [r])\<rparr>"
      by blast
    have "\<forall>x \<in> set (last_entries 250 (ae_rejections s @ [r])). rejection_ok x"
      by (rule ball_last_entries) (use r fires_none(3) in \<open>simp add: engine_ok_def\<close>)
    with r fires_none(3) show ?thesis by (simp add: engine_ok_def)
  qed (use fires_none in simp)
next
  case (fires_one s a t)
  then have "key_ok (al_ticker a, al_type a)" "is_upper_symbol (al_ticker a)"
    by (simp_all add: alert_ok_def key_ok_def)
  with fires_one(5,6) show ?case
    by (simp add: engine_ok_def set_cooldown_def keys_distinct_update)
qed simp

section \<open>The engine as a transition system\<close>

text \<open>
  \<open>Recorded\<close> carries the entry, \<open>Checked\<close> the time and what fired; \<open>Restarted\<close> is a process that
  restores what the previous one exported, \<open>Prefilled\<close> a boot from stored snapshots, \<open>Rolled\<close> a new
  session.
\<close>

datatype scan_label =
    Recorded history_entry
  | Checked int "scanner_alert list"
  | Restarted
  | Prefilled
  | Rolled

inductive scan_step ::
  "alert_config \<Rightarrow> (int \<Rightarrow> string) \<Rightarrow> alert_engine \<Rightarrow> scan_label \<Rightarrow> alert_engine \<Rightarrow> bool" for c f where
  ss_record: "scan_step c f s (Recorded (build_history_entry c ms [])) (record_snapshot c ms s)"
| ss_check: "check_alerts c f now ms refs s = (as, t) \<Longrightarrow> scan_step c f s (Checked now as) t"
| ss_restart: "scan_step c f s Restarted (snd (restore_alerts c (export_alerts s) u))"
| ss_prefill: "(\<And>h. Inl h \<in> set es \<Longrightarrow> keys_distinct h) \<Longrightarrow> scan_step c f s Prefilled (prefill_history c es s)"
| ss_roll: "scan_step c f s Rolled (reset_alerts s)"

lemma build_entry_ok: "entry_ok h \<Longrightarrow> entry_ok (build_history_entry c ms h)"
  by (induction c ms h rule: build_history_entry.induct)
    (auto simp: entry_ok_def keys_distinct_update split: option.splits)

lemma push_ok:
  assumes "entry_ok h" "engine_ok c s"
  shows "engine_ok c (push_history c h s)"
proof -
  have "\<forall>x \<in> set (last_entries (snaps_per_10min c) (ae_history s @ [h])). entry_ok x"
    by (rule ball_last_entries) (use assms in \<open>simp add: engine_ok_def\<close>)
  with assms(2) show ?thesis by (simp add: engine_ok_def push_history_def)
qed

lemma record_ok: "engine_ok c s \<Longrightarrow> engine_ok c (record_snapshot c ms s)"
  unfolding record_snapshot_def by (rule push_ok[OF build_entry_ok]) (simp_all add: entry_ok_def)

lemma prefill_ok:
  assumes "\<And>h. Inl h \<in> set es \<Longrightarrow> keys_distinct h" "engine_ok c s"
  shows "engine_ok c (prefill_history c es s)"
proof -
  have "engine_ok c (fold (\<lambda>e t. case e of Inl h \<Rightarrow> push_history c (filter (\<lambda>(t, _). is_upper_symbol t) h) t
      | Inr ms \<Rightarrow> record_snapshot c ms t) es t)" if "engine_ok c t" for t
    using assms(1) that
  proof (induction es arbitrary: t)
    case (Cons e es)
    show ?case
    proof (cases e)
      case (Inl h)
      have "keys_in is_upper_symbol (filter (\<lambda>(t, _). is_upper_symbol t) h)" by (auto simp: keys_in_def)
      with Cons Inl have "entry_ok (filter (\<lambda>(t, _). is_upper_symbol t) h)"
        by (simp add: entry_ok_def distinct_map_filter)
      with Cons Inl show ?thesis by (simp add: push_ok)
    qed (use Cons record_ok in simp)
  qed simp
  moreover have "engine_ok c (s\<lparr>ae_history := []\<rparr>)" using assms(2) by (simp add: engine_ok_def)
  ultimately show ?thesis by (simp add: prefill_history_def)
qed

lemma prefill_frame: "ae_cooldowns (prefill_history c es s) = ae_cooldowns s \<and> ae_spiked (prefill_history c es s) = ae_spiked s"
proof -
  have "ae_cooldowns (fold (\<lambda>e t. case e of Inl h \<Rightarrow> push_history c (filter (\<lambda>(t, _). is_upper_symbol t) h) t
        | Inr ms \<Rightarrow> record_snapshot c ms t) es t) = ae_cooldowns t
      \<and> ae_spiked (fold (\<lambda>e t. case e of Inl h \<Rightarrow> push_history c (filter (\<lambda>(t, _). is_upper_symbol t) h) t
        | Inr ms \<Rightarrow> record_snapshot c ms t) es t) = ae_spiked t" for t
    by (induction es arbitrary: t) (auto simp: push_history_def record_snapshot_def split: sum.splits)
  then show ?thesis by (simp add: prefill_history_def)
qed

text \<open>Restoring keys that are distinct and in upper case gives the dictionary back.\<close>

lemma upper_fixed: "is_upper_symbol t \<Longrightarrow> py_upper t = t"
  by (simp add: is_upper_symbol_def)

lemma fold_update_back:
  assumes "keys_distinct (acc @ d)"
  shows "fold (\<lambda>(k, v) e. AList.update k v e) d acc = acc @ d"
  using assms
proof (induction d arbitrary: acc)
  case (Cons x d)
  then have "map_of acc (fst x) = None" by (auto simp: map_of_eq_None_iff)
  with Cons show ?case by (simp add: map_of_append_new case_prod_beta)
qed simp

lemma fold_upper_back:
  assumes "keys_distinct d" "keys_in is_upper_symbol d"
  shows "fold (\<lambda>(t, v) e. if is_upper_symbol t then AList.update (py_upper t) v e else e) d [] = d"
proof -
  have "fold (\<lambda>(t, v) e. if is_upper_symbol t then AList.update (py_upper t) v e else e) d []
      = fold (\<lambda>(k, v) e. AList.update k v e) d []"
    by (rule fold_cong) (use assms(2) in \<open>auto simp: keys_in_def upper_fixed fun_eq_iff\<close>)
  with fold_update_back[of "[]" d] assms(1) show ?thesis by simp
qed

lemma kind_fixed: "k \<in> kinds \<Longrightarrow> k \<noteq> [] \<and> py_upper k = k"
  by (auto simp: kinds_def VOLUME_SPIKE_def SQUEEZE_5MIN_def SQUEEZE_10MIN_def py_upper_def char_upper_def)

lemma fold_cooldowns_back:
  assumes "keys_distinct d" "keys_in key_ok d"
  shows "fold (\<lambda>(t, k, at') e. if is_upper_symbol t \<and> k \<noteq> [] then AList.update (py_upper t, py_upper k) at' e else e)
    (map (\<lambda>((t, k), at'). (t, k, at')) d) [] = d"
proof -
  have "fold (\<lambda>(t, k, at') e. if is_upper_symbol t \<and> k \<noteq> [] then AList.update (py_upper t, py_upper k) at' e else e)
      (map (\<lambda>((t, k), at'). (t, k, at')) d) [] = fold (\<lambda>(k, v) e. AList.update k v e) d []"
    unfolding fold_map
    by (rule fold_cong) (use assms(2) in \<open>auto simp: keys_in_def key_ok_def upper_fixed kind_fixed fun_eq_iff\<close>)
  with fold_update_back[of "[]" d] assms(1) show ?thesis by simp
qed

definition restarted :: "alert_engine \<Rightarrow> alert_engine" where
  "restarted s = s\<lparr>ae_history := filter (\<lambda>h. h \<noteq> []) (ae_history s), ae_spiked := {t \<in> ae_spiked s. not_blank t}\<rparr>"

lemma restore_export:
  assumes "engine_ok c s"
  shows "snd (restore_alerts c (export_alerts s) u) = restarted s"
proof -
  have e: "map restored_entry (ae_history s) = ae_history s"
    by (rule map_idI) (use assms in \<open>simp add: engine_ok_def entry_ok_def restored_entry_def fold_upper_back\<close>)
  have r: "map (\<lambda>r. r\<lparr>rj_ticker := py_upper (rj_ticker r), rj_reasons := filter not_blank (rj_reasons r)\<rparr>)
      (filter (\<lambda>r. is_upper_symbol (rj_ticker r)) (ae_rejections s)) = ae_rejections s"
    using assms by (auto simp: engine_ok_def rejection_ok_def upper_fixed filter_id_conv intro!: trans[OF map_idI] filter_True)
  have p: "py_upper ` {t \<in> ae_spiked s. is_upper_symbol t \<and> not_blank t} = {t \<in> ae_spiked s. not_blank t}"
    using assms by (force simp: engine_ok_def upper_fixed image_def)
  have l: "length (filter (\<lambda>h. h \<noteq> []) (ae_history s)) \<le> snaps_per_10min c"
    using assms by (simp add: engine_ok_def) (meson length_filter_le order_trans)
  show ?thesis
    using assms by (simp add: restore_alerts_def export_alerts_def Let_def e r p l fold_upper_back fold_cooldowns_back
        engine_ok_def restarted_def)
qed

lemma restarted_ok: "engine_ok c s \<Longrightarrow> engine_ok c (restarted s)"
  by (auto simp: engine_ok_def restarted_def intro: order_trans[OF length_filter_le])

lemma cleanup_ok: "engine_ok c s \<Longrightarrow> engine_ok c (cleanup_cooldowns c now s)"
  by (auto simp: engine_ok_def cleanup_cooldowns_def keys_in_filter distinct_map_filter)

lemma new_engine_ok: "engine_ok c new_alert_engine"
  by (simp add: engine_ok_def new_alert_engine_def)

lemma scan_step_ok:
  assumes ok: "engine_ok c s" and step: "scan_step c f s l t"
  shows "engine_ok c t"
  using step
proof (cases rule: scan_step.cases)
  case (ss_check now ms refs as)
  from check_alerts_fires[OF ss_check(2)] show ?thesis using fires_ok[OF _ ok] cleanup_ok by blast
qed (simp_all add: restore_export[OF ok] record_ok[OF ok] restarted_ok[OF ok] prefill_ok[OF _ ok] reset_alerts_def new_engine_ok)

interpretation alerts: invariant_system "\<lambda>s. s = new_alert_engine" "scan_step c f" "engine_ok c" for c f
  by unfold_locales (auto intro: scan_step_ok new_engine_ok)

section \<open>Alerts keep their distance\<close>

definition fired :: "scan_label list \<Rightarrow> ((string \<times> string) \<times> int) list" where
  "fired ls = concat (map (\<lambda>l. case l of Checked now as \<Rightarrow> map (\<lambda>a. (fired_key a, now)) as | _ \<Rightarrow> []) ls)"

lemma fired_snoc [simp]:
  "fired (ls @ [l]) = fired ls @ (case l of Checked now as \<Rightarrow> map (\<lambda>a. (fired_key a, now)) as | _ \<Rightarrow> [])"
  by (simp add: fired_def)

definition clocks :: "scan_label list \<Rightarrow> int list" where
  "clocks ls = concat (map (\<lambda>l. case l of Checked now _ \<Rightarrow> [now] | _ \<Rightarrow> []) ls)"

lemma clocks_snoc [simp]: "clocks (ls @ [l]) = clocks ls @ (case l of Checked now _ \<Rightarrow> [now] | _ \<Rightarrow> [])"
  by (simp add: clocks_def)

definition cooldown_us :: "alert_config \<Rightarrow> int" where
  "cooldown_us c = ac_cooldown_mins c * minutes_us"

definition spaced :: "alert_config \<Rightarrow> ((string \<times> string) \<times> int) list \<Rightarrow> bool" where
  "spaced c F \<longleftrightarrow> sorted_wrt (\<lambda>x y. fst x = fst y \<longrightarrow> snd x + cooldown_us c \<le> snd y) F"

text \<open>Every alert fired is in the cooldown table, or the clock has passed the end of its cooldown.\<close>

definition covered :: "alert_config \<Rightarrow> int \<Rightarrow> ((string \<times> string) \<times> int) list \<Rightarrow> alert_engine \<Rightarrow> bool" where
  "covered c now F s \<longleftrightarrow>
     (\<forall>x \<in> set F. (\<exists>t \<ge> snd x. map_of (ae_cooldowns s) (fst x) = Some t) \<or> snd x + cooldown_us c \<le> now)"

lemma covered_later: "covered c now F s \<Longrightarrow> now \<le> n \<Longrightarrow> covered c n F s"
  by (fastforce simp: covered_def)

lemma covered_cong: "ae_cooldowns t = ae_cooldowns s \<Longrightarrow> covered c now F t = covered c now F s"
  by (simp add: covered_def)

lemma cool_again:
  assumes "covered c now F s" "\<not> on_cooldown c (fst k) (snd k) now s" "x \<in> set F" "fst x = k"
  shows "snd x + cooldown_us c \<le> now"
proof (cases "map_of (ae_cooldowns s) k")
  case (Some t)
  with assms show ?thesis by (fastforce simp: covered_def on_cooldown_def cooldown_us_def)
qed (use assms in \<open>force simp: covered_def\<close>)

lemma fires_spaced:
  "fires c now refs hs s as t \<Longrightarrow> covered c now F s \<Longrightarrow> spaced c F \<Longrightarrow>
   spaced c (F @ map (\<lambda>a. (fired_key a, now)) as) \<and> covered c now (F @ map (\<lambda>a. (fired_key a, now)) as) t"
proof (induction arbitrary: F rule: fires.induct)
  case (fires_none s t)
  then show ?case by (auto simp: covered_def)
next
  case (fires_one s a t)
  have again: "snd x + cooldown_us c \<le> now" if "x \<in> set F" "fst x = fired_key a" for x
    using cool_again[OF fires_one(6) _ that] fires_one(2) by (simp add: fired_key_def)
  have t: "ae_cooldowns t = ae_cooldowns s" using fires_one(5) by simp
  have "spaced c (F @ [(fired_key a, now)])"
    using fires_one(7) again by (simp add: spaced_def sorted_wrt_append)
  moreover have "covered c now (F @ [(fired_key a, now)]) (set_cooldown (al_ticker a) (al_type a) now t)"
    using fires_one(6) again by (auto simp: covered_def set_cooldown_def fired_key_def t dict_simps)
  ultimately show ?case by simp
next
  case (fires_both s as t bs u)
  then show ?case by (metis append.assoc map_append)
qed

lemma cleanup_covered:
  assumes "covered c now F s" "keys_distinct (ae_cooldowns s)"
  shows "covered c now F (cleanup_cooldowns c now s)"
  unfolding covered_def
proof
  fix x assume x: "x \<in> set F"
  show "(\<exists>t \<ge> snd x. map_of (ae_cooldowns (cleanup_cooldowns c now s)) (fst x) = Some t) \<or> snd x + cooldown_us c \<le> now"
  proof (cases "snd x + cooldown_us c \<le> now")
    case False
    with assms(1) x obtain t where t: "snd x \<le> t" "map_of (ae_cooldowns s) (fst x) = Some t"
      by (auto simp: covered_def)
    with False have "now - (ac_cooldown_mins c + 1) * minutes_us < t"
      by (simp add: cooldown_us_def minutes_us_def algebra_simps)
    with t assms(2) have "map_of (ae_cooldowns (cleanup_cooldowns c now s)) (fst x) = Some t"
      by (simp add: cleanup_cooldowns_def map_of_eq_Some_iff distinct_map_filter)
    with t show ?thesis by blast
  qed simp
qed

definition distance_inv :: "alert_config \<Rightarrow> scan_label list \<Rightarrow> alert_engine \<Rightarrow> bool" where
  "distance_inv c ls s \<longleftrightarrow> engine_ok c s \<and> spaced c (fired ls)
     \<and> (\<forall>n. (\<forall>x \<in> set (clocks ls). x \<le> n) \<longrightarrow> covered c n (fired ls) s)"

lemma distance_step:
  assumes inv: "distance_inv c ls s" and step: "scan_step c f s l t" and l: "l \<noteq> Rolled"
    and sorted: "sorted (clocks (ls @ [l]))"
  shows "distance_inv c (ls @ [l]) t"
proof -
  have ok: "engine_ok c s" "engine_ok c t" using inv scan_step_ok[OF _ step] by (simp_all add: distance_inv_def)
  from step show ?thesis
  proof (cases rule: scan_step.cases)
    case (ss_check now ms refs as)
    have "\<forall>x \<in> set (clocks ls). x \<le> now" using sorted by (simp add: ss_check(1) sorted_append)
    with inv have c: "covered c now (fired ls) s" "spaced c (fired ls)" by (simp_all add: distance_inv_def)
    obtain u where u: "fires c now refs (ae_history s) s as u" "t = u \<or> t = cleanup_cooldowns c now u"
      using check_alerts_fires[OF ss_check(2)] by blast
    note F = fires_spaced[OF u(1) c]
    have "keys_distinct (ae_cooldowns u)" using fires_ok[OF u(1) ok(1)] by (simp add: engine_ok_def)
    then have "covered c now (fired (ls @ [l])) t" using F u(2) cleanup_covered by (auto simp: ss_check(1))
    then show ?thesis using F ok(2) by (auto simp: distance_inv_def ss_check(1) intro: covered_later)
  next
    case (ss_restart u)
    then show ?thesis using inv ok restore_export[OF ok(1)]
      by (simp add: distance_inv_def restarted_def covered_def)
  qed (use inv ok l prefill_frame in \<open>simp_all add: distance_inv_def covered_def record_snapshot_def push_history_def\<close>)
qed

lemma distance_run:
  "run (scan_step c f) s ls t \<Longrightarrow> s = new_alert_engine \<Longrightarrow> Rolled \<notin> set ls \<Longrightarrow> sorted (clocks ls) \<Longrightarrow> distance_inv c ls t"
proof (induction rule: run.induct)
  case (run_nil s)
  then show ?case by (simp add: distance_inv_def new_engine_ok spaced_def fired_def covered_def)
next
  case (run_snoc s ls t l u)
  then have "sorted (clocks ls)" by (simp add: sorted_append)
  with run_snoc show ?case by (auto intro: distance_step)
qed



section \<open>A squeeze follows a spike\<close>

definition grounded :: "((string \<times> string) \<times> int) list \<Rightarrow> bool" where
  "grounded F \<longleftrightarrow> (\<forall>i < length F. snd (fst (F ! i)) \<noteq> VOLUME_SPIKE \<longrightarrow>
     (\<exists>j < i. fst (F ! j) = (fst (fst (F ! i)), VOLUME_SPIKE)))"

definition spikes_fired :: "((string \<times> string) \<times> int) list \<Rightarrow> alert_engine \<Rightarrow> bool" where
  "spikes_fired F s \<longleftrightarrow> (\<forall>t \<in> ae_spiked s. (t, VOLUME_SPIKE) \<in> fst ` set F)"

lemma grounded_snoc:
  assumes "grounded F" "snd (fst x) \<noteq> VOLUME_SPIKE \<longrightarrow> (fst (fst x), VOLUME_SPIKE) \<in> fst ` set F"
  shows "grounded (F @ [x])"
proof -
  have "\<exists>j < length F. fst (F ! j) = (fst (fst x), VOLUME_SPIKE)" if "snd (fst x) \<noteq> VOLUME_SPIKE"
    using assms(2) that by (force simp: in_set_conv_nth)
  moreover have "\<exists>j < i. fst (F ! j) = (fst (fst (F ! i)), VOLUME_SPIKE)"
    if "i < length F" "snd (fst (F ! i)) \<noteq> VOLUME_SPIKE" for i
    using assms(1) that by (simp add: grounded_def)
  ultimately show ?thesis
    unfolding grounded_def by (smt (verit, best) length_append_singleton less_Suc_eq nth_append nth_append_length order.strict_trans)
qed

lemma fires_grounded:
  "fires c now refs hs s as t \<Longrightarrow> spikes_fired F s \<Longrightarrow> grounded F \<Longrightarrow>
   grounded (F @ map (\<lambda>a. (fired_key a, now)) as) \<and> spikes_fired (F @ map (\<lambda>a. (fired_key a, now)) as) t"
proof (induction arbitrary: F rule: fires.induct)
  case (fires_none s t)
  then show ?case by (auto simp: spikes_fired_def)
next
  case (fires_one s a t)
  then show ?case
    by (auto simp: spikes_fired_def fired_key_def set_cooldown_def intro!: grounded_snoc)
next
  case (fires_both s as t bs u)
  then show ?case by (metis append.assoc map_append)
qed

lemma grounded_run:
  "run (scan_step c f) s ls t \<Longrightarrow> s = new_alert_engine \<Longrightarrow> Rolled \<notin> set ls \<Longrightarrow>
   engine_ok c t \<and> grounded (fired ls) \<and> spikes_fired (fired ls) t"
proof (induction rule: run.induct)
  case (run_nil s)
  then show ?case using new_engine_ok[of c]
    by (simp add: grounded_def fired_def spikes_fired_def) (simp add: new_alert_engine_def)
next
  case (run_snoc s ls t l u)
  then have inv: "engine_ok c t" "grounded (fired ls)" "spikes_fired (fired ls) t" and l: "l \<noteq> Rolled" by auto
  from run_snoc(2) show ?case
  proof (cases rule: scan_step.cases)
    case (ss_check now ms refs as)
    obtain v where v: "fires c now refs (ae_history t) t as v" "u = v \<or> u = cleanup_cooldowns c now v"
      using check_alerts_fires[OF ss_check(2)] by blast
    from fires_grounded[OF v(1) inv(3,2)] v(2) scan_step_ok[OF inv(1) run_snoc(2)] show ?thesis
      by (auto simp: ss_check(1) spikes_fired_def cleanup_cooldowns_def)
  next
    case (ss_restart w)
    then show ?thesis using inv restore_export[OF inv(1)] scan_step_ok[OF inv(1) run_snoc(2)]
      by (simp add: restarted_def spikes_fired_def)
  qed (use inv l prefill_frame scan_step_ok[OF inv(1) run_snoc(2)] in
      \<open>simp_all add: spikes_fired_def record_snapshot_def push_history_def\<close>)
qed

text \<open>
  A squeeze alert of a symbol comes only after a volume spike of the same symbol in the same
  session, in whatever order snapshots, checks and restarts follow each other.
\<close>
theorem squeeze_follows_spike:
  assumes "run (scan_step c f) new_alert_engine ls s" "Rolled \<notin> set ls"
    "i < length (fired ls)" "snd (fst (fired ls ! i)) \<noteq> VOLUME_SPIKE"
  shows "\<exists>j < i. fst (fired ls ! j) = (fst (fst (fired ls ! i)), VOLUME_SPIKE)"
  using grounded_run[OF assms(1) refl assms(2)] assms(3,4) by (simp add: grounded_def)

section \<open>Alerts are measured against the recording\<close>

definition recorded :: "scan_label list \<Rightarrow> history_entry list" where
  "recorded ls = concat (map (\<lambda>l. case l of Recorded h \<Rightarrow> [h] | _ \<Rightarrow> []) ls)"

lemma recorded_snoc [simp]: "recorded (ls @ [l]) = recorded ls @ (case l of Recorded h \<Rightarrow> [h] | _ \<Rightarrow> [])"
  by (simp add: recorded_def)

lemma last_entries_push: "last_entries n (last_entries n xs @ [x]) = last_entries n (xs @ [x])"
  by (cases "n \<le> length xs"; cases n) (auto simp: last_entries_def Suc_diff_le Suc_diff_Suc Suc_le_eq)

lemma ago_last_entries: "0 < k \<Longrightarrow> k \<le> n \<Longrightarrow> ago k t (last_entries n xs) = ago k t xs"
  by (auto simp: ago_def last_entries_def min_def)

lemma snaps_bounds: "0 < snaps_per_5min c" "0 < snaps_per_10min c"
  by (simp_all add: snaps_per_5min_def snaps_per_10min_def)

lemma snaps_ordered: "0 < ac_interval c \<Longrightarrow> snaps_per_5min c \<le> snaps_per_10min c"
  using zdiv_mono1[of 300 600 "ac_interval c"] by (simp add: snaps_per_5min_def snaps_per_10min_def nat_mono)

lemma fires_evidence: "fires c now refs hs s as t \<Longrightarrow> a \<in> set as \<Longrightarrow> alert_ok c refs hs a"
  by (induction rule: fires.induct) auto

lemma recording_run:
  "run (scan_step c f) s ls t \<Longrightarrow> s = new_alert_engine \<Longrightarrow> {Rolled, Restarted, Prefilled} \<inter> set ls = {} \<Longrightarrow>
   ae_history t = last_entries (snaps_per_10min c) (recorded ls)"
proof (induction rule: run.induct)
  case (run_nil s)
  then show ?case by (simp add: new_alert_engine_def recorded_def last_entries_def)
next
  case (run_snoc s ls t l u)
  then have h: "ae_history t = last_entries (snaps_per_10min c) (recorded ls)"
    and l: "l \<notin> {Rolled, Restarted, Prefilled}" by auto
  from run_snoc(2) show ?case
  proof (cases rule: scan_step.cases)
    case (ss_check now ms refs as)
    then show ?thesis using check_alerts_fires[OF ss_check(2)] fires_history h
      by (auto simp: cleanup_cooldowns_def dest: fires_history)
  qed (use h l in \<open>simp_all add: record_snapshot_def push_history_def last_entries_push\<close>)
qed


text \<open>
  A restart brings the alert engine back: restoring what any reachable state exports gives that
  state, less the cycles in which no symbol was in range and blank symbols, whatever the new process
  held before.
\<close>
theorem restart_restores_alerts:
  assumes "run (scan_step c f) new_alert_engine ls s"
  shows "snd (restore_alerts c (export_alerts s) u)
    = s\<lparr>ae_history := filter (\<lambda>h. h \<noteq> []) (ae_history s), ae_spiked := {t \<in> ae_spiked s. not_blank t}\<rparr>"
  using restore_export[OF alerts.run_from_init[OF assms refl]] by (simp add: restarted_def)

section \<open>A concrete session\<close>

definition mx_config :: alert_config where
  "mx_config = \<lparr>ac_min_price = 1, ac_max_price = 10, ac_min_volume = 100000, ac_squeeze5 = 5, ac_squeeze10 = 10,
     ac_spike_mult = 5, ac_cooldown_mins = 5, ac_interval = 150\<rparr>"

definition mx_snap :: "rat \<Rightarrow> int \<Rightarrow> scan_snapshot" where
  "mx_snap price volume = \<lparr>mk_ticker = ''ABC'', mk_previous_close = Some 2,
     mk_day = Some \<lparr>ds_close = None, ds_volume = Some volume, ds_high = None, ds_vwap = None\<rparr>, mk_minute = None,
     mk_last_trade = Some price, mk_last_quote = None, mk_change = None\<rparr>"

definition mx_refs :: "(string, reference_data) dict" where
  "mx_refs = [(''ABC'', \<lparr>rd_shares = 5000000, rd_avg_volume = 1000000\<rparr>)]"

definition mx_time :: "int \<Rightarrow> string" where "mx_time t = ''t''"

definition mx_warm :: alert_engine where
  "mx_warm = record_snapshot mx_config [mx_snap 2 100000] (record_snapshot mx_config [mx_snap 2 100000] new_alert_engine)"

definition mx_check :: "int \<Rightarrow> rat \<Rightarrow> int \<Rightarrow> alert_engine \<Rightarrow> scanner_alert list \<times> alert_engine" where
  "mx_check now price volume = check_alerts mx_config mx_time now [mx_snap price volume] (Some mx_refs)"

definition mx_first :: "scanner_alert list \<times> alert_engine" where
  "mx_first = mx_check 0 3 600000 mx_warm"

definition mx_second :: "scanner_alert list \<times> alert_engine" where
  "mx_second = mx_check 300000000 4 1300000 (record_snapshot mx_config [mx_snap 3 600000] (snd mx_first))"

definition mx_warming :: "scan_label list" where
  "mx_warming = [Recorded (build_history_entry mx_config [mx_snap 2 100000] []),
                 Recorded (build_history_entry mx_config [mx_snap 2 100000] [])]"

definition mx_labels :: "scan_label list" where
  "mx_labels = mx_warming @ [Checked 0 (fst mx_first), Recorded (build_history_entry mx_config [mx_snap 3 600000] []),
     Checked 300000000 (fst mx_second)]"

lemma check_step: "scan_step c f s (Checked now (fst (check_alerts c f now ms refs s))) (snd (check_alerts c f now ms refs s))"
  by (rule ss_check[of c f now ms refs s]) simp

lemma mx_warm_run: "run (scan_step mx_config mx_time) new_alert_engine mx_warming mx_warm"
  unfolding mx_warming_def mx_warm_def
  by (rule run_Cons[where step = "scan_step mx_config mx_time", OF ss_record run_one[where step = "scan_step mx_config mx_time", OF ss_record]])

lemma mx_run: "run (scan_step mx_config mx_time) new_alert_engine mx_labels (snd mx_second)"
proof -
  have 1: "scan_step mx_config mx_time mx_warm (Checked 0 (fst mx_first)) (snd mx_first)"
    unfolding mx_first_def mx_check_def by (rule check_step)
  have 2: "scan_step mx_config mx_time (record_snapshot mx_config [mx_snap 3 600000] (snd mx_first))
      (Checked 300000000 (fst mx_second)) (snd mx_second)"
    unfolding mx_second_def mx_check_def by (rule check_step)
  show ?thesis
    unfolding mx_labels_def
    by (rule run_append[OF _ mx_warm_run])
      (rule run_Cons[where step = "scan_step mx_config mx_time", OF 1
          run_Cons[where step = "scan_step mx_config mx_time", OF ss_record
            run_one[where step = "scan_step mx_config mx_time", OF 2]]])
qed

lemma mx_fired: "map fst (fired mx_labels) = [(''ABC'', VOLUME_SPIKE), (''ABC'', SQUEEZE_5MIN), (''ABC'', VOLUME_SPIKE), (''ABC'', SQUEEZE_5MIN)]"
  by code_simp


theorem squeeze_follows_spike_witness: "\<exists>j < 1. fst (fired mx_labels ! j) = (''ABC'', VOLUME_SPIKE)"
proof -
  have l: "length (fired mx_labels) = 4" using arg_cong[OF mx_fired, of length] by simp
  have k: "fst (fired mx_labels ! 1) = (''ABC'', SQUEEZE_5MIN)"
    using arg_cong[OF mx_fired, of "\<lambda>xs. xs ! 1"] l by simp
  have "Rolled \<notin> set mx_labels" by (simp add: mx_labels_def mx_warming_def)
  from squeeze_follows_spike[OF mx_run this, of 1]
  have "\<exists>j < 1. fst (fired mx_labels ! j) = (fst (fst (fired mx_labels ! 1)), VOLUME_SPIKE)" by (simp add: l k[simplified])
  then show ?thesis by (simp add: k[simplified])
qed


theorem restart_restores_alerts_witness:
  "snd (restore_alerts mx_config (export_alerts (snd mx_second)) new_alert_engine)
    = (snd mx_second)\<lparr>ae_history := filter (\<lambda>h. h \<noteq> []) (ae_history (snd mx_second)),
        ae_spiked := {t \<in> ae_spiked (snd mx_second). not_blank t}\<rparr>"
  by (rule restart_restores_alerts[OF mx_run])

text \<open>
  A cycle in which no symbol was in range is recorded but not restored: the same symbol is measured
  against an older cycle after the restart.
\<close>

definition mx_gap :: alert_engine where
  "mx_gap = record_snapshot mx_config [] (record_snapshot mx_config [mx_snap 3 600000] (record_snapshot mx_config [mx_snap 2 100000] new_alert_engine))"

lemma restart_shifts_baseline:
  "ago (snaps_per_5min mx_config) ''ABC'' (ae_history mx_gap) = Some (3, 600000)
   \<and> ago (snaps_per_5min mx_config) ''ABC'' (ae_history (snd (restore_alerts mx_config (export_alerts mx_gap) new_alert_engine)))
      = Some (2, 100000)"
  by code_simp

end
