(* ===== verification/MomentumConfirmedSpec.thy ===== *)
theory MomentumConfirmedSpec
  imports MomentumConfirmed MomentumAlertsSpec "HOL-Library.Multiset"
begin

text \<open>
  What the confirmed scanner promises: what a confirmation rests on, a confirmed list with each symbol
  once and none that faded, a ranking that is a sorted selection of it, and, composed with the alert
  engine, confirmations only after a spike of the same session.
\<close>

section \<open>What a confirmation rests on\<close>

definition confirms :: "confirm_env \<Rightarrow> scanner_alert \<Rightarrow> track \<Rightarrow> confirmed_stock \<Rightarrow> bool" where
  "confirms E a k x \<longleftrightarrow>
     cf_ticker x = al_ticker a \<and> is_upper_symbol (al_ticker a) \<and> mentions_squeeze (al_type a)
     \<and> cf_price x = al_price a \<and> cf_volume x = sq_volume (squeeze_of E a)
     \<and> common_filters (en_config E) (cf_volume x) (float_of E a)
     \<and> cf_force x = (cf_path x = PATH_C) \<and> \<not> tk_confirmed k
     \<and> (cf_path x = PATH_C \<and> cc_extreme (en_config E) \<le> day_change (al_price a) (snap_for E (al_ticker a))
        \<or> cf_path x = PATH_A \<and> tk_spike k \<and> tk_squeezes k = [] \<and> has_bullish_news (en_port E) (al_ticker a)
        \<or> cf_path x = PATH_B \<and> tk_spike k
          \<and> (\<exists>q. tk_squeezes k \<noteq> [] \<and> last (tk_squeezes k) = q \<and> qualifies_path_b q (squeeze_of E a)))"

lemma paths_differ [simp]: "PATH_A \<noteq> PATH_B" "PATH_A \<noteq> PATH_C" "PATH_B \<noteq> PATH_C" "PATH_B \<noteq> PATH_A" "PATH_C \<noteq> PATH_A" "PATH_C \<noteq> PATH_B"
  by (simp_all add: PATH_A_def PATH_B_def PATH_C_def)

lemma build_entry_simps [simp]:
  "cf_ticker (build_confirmed_entry E t k q n) = t" "cf_price (build_confirmed_entry E t k q n) = sq_price q"
  "cf_volume (build_confirmed_entry E t k q n) = sq_volume q"
  by (simp_all add: build_confirmed_entry_def Let_def)

lemma note_spike_simps [simp]:
  "tk_squeezes (note_spike a k) = tk_squeezes k" "tk_confirmed (note_spike a k) = tk_confirmed k"
  by (simp_all add: note_spike_def)

lemma put_track_simps [simp]:
  "sc_confirmed (put_track t k s) = sc_confirmed s"
  "map_of (sc_tracking (put_track t k s)) u = (if u = t then Some k else map_of (sc_tracking s) u)"
  "track_of (put_track t k s) u = (if u = t then k else track_of s u)"
  by (simp_all add: put_track_def track_of_def dict_simps)

lemma confirm_ticker_obtain:
  assumes "confirm_ticker E u k q n path s = (xs, t)"
  obtains x k' where "xs = [x]" "tk_confirmed k'" "cf_path x = path" "cf_force x = (path = PATH_C)" "cf_ticker x = u"
    "cf_price x = sq_price q" "cf_volume x = sq_volume q"
    "t = (put_track u k' s)\<lparr>sc_confirmed := filter (\<lambda>y. cf_ticker y \<noteq> u) (sc_confirmed s) @ [x]\<rparr>"
proof
  let ?k = "k\<lparr>tk_confirmed := True, tk_confirmed_at := sq_time q, tk_confirmed_price := sq_price q\<rparr>"
  let ?x = "(build_confirmed_entry E u ?k q n)\<lparr>cf_path := path, cf_force := (path = PATH_C)\<rparr>"
  show "xs = [?x]" "tk_confirmed ?k" "cf_path ?x = path" "cf_force ?x = (path = PATH_C)" "cf_ticker ?x = u"
    "cf_price ?x = sq_price q" "cf_volume ?x = sq_volume q"
    "t = (put_track u ?k s)\<lparr>sc_confirmed := filter (\<lambda>y. cf_ticker y \<noteq> u) (sc_confirmed s) @ [?x]\<rparr>"
    using assms by (auto simp: confirm_ticker_def Let_def)
qed

text \<open>
  A squeeze confirms its symbol on one of the three paths, or is noted in an open track.
\<close>

lemma process_squeeze_cases:
  assumes p: "process_squeeze E a k s = (xs, t)" and up: "is_upper_symbol (al_ticker a)" "mentions_squeeze (al_type a)"
    and "\<not> tk_confirmed k"
  obtains (noted) k' where "xs = []" "t = s \<or> t = put_track (al_ticker a) k' s" "\<not> tk_confirmed k'"
  | (confirmed) x k' where "xs = [x]" "confirms E a k x" "tk_confirmed k'"
      "t = (put_track (al_ticker a) k' s)\<lparr>sc_confirmed := filter (\<lambda>y. cf_ticker y \<noteq> al_ticker a) (sc_confirmed s) @ [x]\<rparr>"
proof -
  let ?t = "al_ticker a" let ?q = "squeeze_of E a"
  let ?ok = "common_filters (en_config E) (sq_volume ?q) (float_of E a)"
  let ?extreme = "cc_extreme (en_config E) \<le> day_change (al_price a) (snap_for E ?t)"
  let ?qs = "tk_squeezes k @ [?q]"
  have conf: thesis if c: "confirm_ticker E ?t k1 ?q (float_of E a) path s = (xs, t)" and ok: ?ok and
    path: "path = PATH_C \<and> ?extreme
        \<or> path = PATH_A \<and> tk_spike k \<and> tk_squeezes k = [] \<and> has_bullish_news (en_port E) ?t
        \<or> path = PATH_B \<and> tk_spike k \<and> tk_squeezes k \<noteq> [] \<and> qualifies_path_b (last (tk_squeezes k)) ?q"
    for k1 path
  proof -
    obtain x k' where x: "xs = [x]" "tk_confirmed k'" "cf_path x = path" "cf_force x = (path = PATH_C)" "cf_ticker x = ?t"
      "cf_price x = sq_price ?q" "cf_volume x = sq_volume ?q"
      "t = (put_track ?t k' s)\<lparr>sc_confirmed := filter (\<lambda>y. cf_ticker y \<noteq> ?t) (sc_confirmed s) @ [x]\<rparr>"
      using confirm_ticker_obtain[OF c] by metis
    have "confirms E a k x"
      unfolding confirms_def using x up assms(4) ok path by (simp add: squeeze_of_def)
    then show thesis using confirmed x by blast
  qed
  consider (c) "?extreme" "?ok" | (none) "\<not> (?extreme \<and> ?ok)" "\<not> tk_spike k"
    | (a) "\<not> (?extreme \<and> ?ok)" "tk_spike k" "tk_squeezes k = []" "?ok" "has_bullish_news (en_port E) ?t"
    | (b) "\<not> (?extreme \<and> ?ok)" "tk_spike k" "tk_squeezes k \<noteq> []" "?ok" "qualifies_path_b (last (tk_squeezes k)) ?q"
    | (track) "\<not> (?extreme \<and> ?ok)" "tk_spike k" "\<not> (tk_squeezes k = [] \<and> ?ok \<and> has_bullish_news (en_port E) ?t)"
      "\<not> (tk_squeezes k \<noteq> [] \<and> ?ok \<and> qualifies_path_b (last (tk_squeezes k)) ?q)"
    by blast
  then show thesis
  proof cases
    case c
    with p show thesis by (intro conf) (auto simp: process_squeeze_def Let_def)
  next
    case none
    with p have "xs = []" "t = s" by (auto simp: process_squeeze_def Let_def)
    then show thesis using noted assms(4) by blast
  next
    case a
    with p show thesis by (intro conf) (auto simp: process_squeeze_def Let_def)
  next
    case b
    then have l: "?qs ! (length ?qs - 2) = last (tk_squeezes k)" "2 \<le> length ?qs"
      by (auto simp: nth_append last_conv_nth Suc_le_eq)
    with b p show thesis by (intro conf) (auto simp: process_squeeze_def Let_def)
  next
    case track
    have "xs = [] \<and> t = put_track ?t (k\<lparr>tk_squeezes := ?qs\<rparr>) s"
    proof (cases "tk_squeezes k = []")
      case False
      then have "?qs ! (length ?qs - 2) = last (tk_squeezes k)" by (auto simp: nth_append last_conv_nth)
      with False track p show ?thesis by (auto simp: process_squeeze_def Let_def)
    qed (use track p in \<open>auto simp: process_squeeze_def Let_def\<close>)
    then show thesis using noted[of "k\<lparr>tk_squeezes := ?qs\<rparr>"] assms(4) by simp
  qed
qed

text \<open>What one alert does to the scanner: it confirms one symbol, or changes its track at most.\<close>

lemma process_alert_cases:
  assumes "process_alert E a s = (xs, t)"
  obtains (ignored) "xs = []" "t = s"
  | (known) k where "xs = []" "is_upper_symbol (al_ticker a)" "t = put_track (al_ticker a) k s"
      "tk_confirmed k = tk_confirmed (track_of s (al_ticker a))"
  | (confirmed) x k where "xs = [x]" "confirms E a (note_spike a (track_of s (al_ticker a))) x" "tk_confirmed k"
      "t = (put_track (al_ticker a) k s)\<lparr>sc_confirmed := filter (\<lambda>y. cf_ticker y \<noteq> al_ticker a) (sc_confirmed s) @ [x]\<rparr>"
proof (cases "is_upper_symbol (al_ticker a)")
  case False
  with assms ignored show ?thesis by (simp add: process_alert_def)
next
  case up: True
  let ?t = "al_ticker a" let ?k = "track_of s ?t" let ?n = "note_spike a ?k"
  have twice: "put_track ?t k (put_track ?t k' s) = put_track ?t k s" for k k'
    by (simp add: put_track_def)
  show ?thesis
  proof (cases "tk_confirmed ?k \<or> \<not> mentions_squeeze (al_type a)")
    case True
    with assms up known[of ?k] known[of ?n] show ?thesis by (auto simp: process_alert_def Let_def split: if_splits)
  next
    case False
    with assms up have p: "process_squeeze E a ?n (put_track ?t ?n s) = (xs, t)"
      by (simp add: process_alert_def Let_def)
    have m: "mentions_squeeze (al_type a)" and n: "\<not> tk_confirmed ?n" using False by simp_all
    show ?thesis
    proof (rule process_squeeze_cases[OF p up m n])
      fix k' assume "xs = []" "t = put_track ?t ?n s \<or> t = put_track ?t k' (put_track ?t ?n s)" "\<not> tk_confirmed k'"
      with False up known[of ?n] known[of k'] show ?thesis by (auto simp: twice)
    next
      fix x k' assume "xs = [x]" "confirms E a ?n x" "tk_confirmed k'"
        "t = (put_track ?t k' (put_track ?t ?n s))
          \<lparr>sc_confirmed := filter (\<lambda>y. cf_ticker y \<noteq> ?t) (sc_confirmed (put_track ?t ?n s)) @ [x]\<rparr>"
      then show ?thesis using confirmed[of x k'] by (simp add: twice)
    qed
  qed
qed

section \<open>Well-formed scanners\<close>

definition scanner_ok :: "scanner \<Rightarrow> bool" where
  "scanner_ok s \<longleftrightarrow> distinct (map cf_ticker (sc_confirmed s)) \<and> (\<forall>x \<in> set (sc_confirmed s). is_upper_symbol (cf_ticker x))"

lemma confirm_row_ok:
  "distinct (map cf_ticker xs) \<Longrightarrow> distinct (map cf_ticker (filter (\<lambda>y. cf_ticker y \<noteq> cf_ticker x) xs @ [x]))"
  by (induction xs) auto

lemma process_alert_ok:
  assumes "process_alert E a s = (xs, t)" "scanner_ok s"
  shows "scanner_ok t"
  using assms(1)
proof (cases rule: process_alert_cases)
  case (confirmed x k)
  then have "cf_ticker x = al_ticker a" "is_upper_symbol (al_ticker a)" by (simp_all add: confirms_def)
  with confirmed(4) assms(2) confirm_row_ok[of "sc_confirmed s" x] show ?thesis by (auto simp: scanner_ok_def)
qed (use assms(2) in \<open>simp_all add: scanner_ok_def\<close>)

lemma process_alerts_ok: "process_alerts E as s = (xs, t) \<Longrightarrow> scanner_ok s \<Longrightarrow> scanner_ok t"
proof (induction as arbitrary: s xs)
  case (Cons a as)
  obtain x s1 where 1: "process_alert E a s = (x, s1)" by fastforce
  obtain y s2 where 2: "process_alerts E as s1 = (y, s2)" by fastforce
  from Cons 1 2 process_alert_ok[OF 1] show ?case by auto
qed simp

lemma process_alerts_evidence:
  "process_alerts E as s = (xs, t) \<Longrightarrow> x \<in> set xs \<Longrightarrow> \<exists>a \<in> set as. \<exists>k. confirms E a k x"
proof (induction as arbitrary: s xs t)
  case (Cons a as)
  obtain y s1 where 1: "process_alert E a s = (y, s1)" by fastforce
  obtain z s2 where 2: "process_alerts E as s1 = (z, s2)" by fastforce
  from Cons(2) 1 2 have "xs = y @ z" "t = s2" by simp_all
  with Cons(3) consider "x \<in> set y" | "x \<in> set z" by auto
  then show ?case
  proof cases
    assume "x \<in> set y"
    with 1 show ?thesis by (cases rule: process_alert_cases) auto
  next
    assume "x \<in> set z"
    with Cons(1)[OF 2] show ?thesis by fastforce
  qed
qed simp

lemma refresh_tickers [simp]: "map cf_ticker (sc_confirmed (refresh_catalysts P ts s)) = map cf_ticker (sc_confirmed s)"
  "sc_tracking (refresh_catalysts P ts s) = sc_tracking s"
  by (simp_all add: refresh_catalysts_def Let_def comp_def if_distrib[of cf_ticker])

lemma scanner_ok_alt: "scanner_ok s \<longleftrightarrow> distinct (map cf_ticker (sc_confirmed s)) \<and> (\<forall>t \<in> set (map cf_ticker (sc_confirmed s)). is_upper_symbol t)"
  by (simp add: scanner_ok_def)

lemma quote_update_ticker [simp]: "cf_ticker (quote_update q x) = cf_ticker x"
  by (simp add: quote_update_def Let_def split: option.splits)

lemma live_price_ticker [simp]: "cf_ticker (live_price m x) = cf_ticker x"
  by (simp add: live_price_def Let_def)

lemma live_prices_ok: "scanner_ok s \<Longrightarrow> scanner_ok (update_live_prices E s)"
proof -
  have "cf_ticker (case o' of Some m \<Rightarrow> live_price m x | None \<Rightarrow> x) = cf_ticker x" for o' x by (cases o') simp_all
  then have "map cf_ticker (sc_confirmed (update_live_prices E s)) = map cf_ticker (sc_confirmed s)"
    by (simp add: update_live_prices_def comp_def)
  then show "scanner_ok s \<Longrightarrow> scanner_ok (update_live_prices E s)" unfolding scanner_ok_alt by metis
qed

lemma filter_ok: "scanner_ok s \<Longrightarrow> sc_confirmed t = filter P (sc_confirmed s) \<Longrightarrow> scanner_ok t"
  by (auto simp: scanner_ok_def distinct_map_filter)

lemma fade_frame: "sc_confirmed (fold (\<lambda>t. forget_spike t \<circ> allow_reconfirmation t) ts s) = sc_confirmed s"
  by (induction ts arbitrary: s) (auto simp: forget_spike_def allow_reconfirmation_def split: option.splits)

lemma prune_ok: "prune_faded c b s = (fs, t) \<Longrightarrow> scanner_ok s \<Longrightarrow> scanner_ok t"
  by (auto simp: prune_faded_def Let_def fade_frame filter_filter split: if_splits elim!: filter_ok)

lemma remove_ok: "scanner_ok s \<Longrightarrow> scanner_ok (remove_confirmed ts s)"
  by (auto simp: remove_confirmed_def Let_def elim!: filter_ok)

section \<open>Ranking\<close>

lemma index_of_less: "v \<in> set xs \<Longrightarrow> index_of xs v < length xs"
proof (induction xs)
  case (Cons x xs)
  then show ?case by (auto simp: index_of_def)
qed simp

lemma rank_bounds:
  assumes "2 \<le> length vs"
  shows "0 \<le> rank_asc v vs" "rank_asc v vs \<le> 100" "0 \<le> rank_desc v vs" "rank_desc v vs \<le> 100"
proof -
  have b: "0 \<le> of_nat k / of_nat (max (length vs - 1) 1) * (100 :: rat)
      \<and> of_nat k / of_nat (max (length vs - 1) 1) * (100 :: rat) \<le> 100" if "k < length vs" for k
  proof -
    have "of_nat k \<le> (of_nat (max (length vs - 1) 1) :: rat)" using that by (simp only: of_nat_le_iff)
    then have "of_nat k / of_nat (max (length vs - 1) 1) \<le> (1 :: rat)" using assms by (simp add: divide_le_eq)
    from mult_right_mono[OF this, of 100] show ?thesis by simp
  qed
  have k: "(if v \<in> set vs then index_of (sort vs) v else 0) < length vs"
    "(if v \<in> set vs then index_of (rev (sort vs)) v else 0) < length vs"
    using index_of_less[of v "sort vs"] index_of_less[of v "rev (sort vs)"] assms by auto
  show "0 \<le> rank_asc v vs" "rank_asc v vs \<le> 100" "0 \<le> rank_desc v vs" "rank_desc v vs \<le> 100"
    unfolding rank_asc_def rank_desc_def using b[OF k(1)] b[OF k(2)] by blast+
qed

lemma score_ranks:
  fixes f :: "confirmed_stock \<Rightarrow> rat"
  assumes "\<not> length xs \<le> 1"
  shows "0 \<le> rank_asc v (map f xs)" "rank_asc v (map f xs) \<le> 100"
    "0 \<le> rank_desc v (map f xs)" "rank_desc v (map f xs) \<le> 100"
  using rank_bounds[of "map f xs" v] assms by simp_all

lemma weighted_bounds:
  fixes a b c d e g :: rat
  assumes "0 \<le> a" "a \<le> 100" "0 \<le> b" "b \<le> 100" "0 \<le> c" "c \<le> 100" "0 \<le> d" "d \<le> 100" "0 \<le> e" "e \<le> 100"
    "0 \<le> g" "g \<le> 100"
  shows "0 \<le> py_round (a * (1 / 5) + b * (1 / 5) + c * (1 / 5) + d * (1 / 5) + e * (1 / 10) + g * (1 / 10)) n
    \<and> py_round (a * (1 / 5) + b * (1 / 5) + c * (1 / 5) + d * (1 / 5) + e * (1 / 10) + g * (1 / 10)) n \<le> 100"
  using py_round_bounds[of 0 "a * (1 / 5) + b * (1 / 5) + c * (1 / 5) + d * (1 / 5) + e * (1 / 10) + g * (1 / 10)" 100 n] assms
  by simp

lemma score_bounds: "0 \<le> calculate_score x xs \<and> calculate_score x xs \<le> 100"
proof (cases "length xs \<le> 1")
  case True
  then show ?thesis by (cases xs) (auto simp: calculate_score_def)
next
  case False
  then have "xs \<noteq> []" "length xs \<noteq> 1" by auto
  then show ?thesis
    unfolding calculate_score_def Let_def if_not_P[OF \<open>xs \<noteq> []\<close>] if_not_P[OF \<open>length xs \<noteq> 1\<close>]
    by (intro weighted_bounds score_ranks False)
qed

lemma rank_le: "rank_of x \<le> rank_of y \<longleftrightarrow>
   (cf_force y \<longrightarrow> cf_force x) \<and> (cf_force x = cf_force y \<longrightarrow> cf_score y \<le> cf_score x)"
  by (cases "cf_force x"; cases "cf_force y") (auto simp: rank_of_def less_eq_rank_key_def)

lemma sorted_filter_key: "sorted (map f xs) \<Longrightarrow> sorted (map f (filter P xs))"
  by (induction xs) auto

lemma filter_scored:
  "filter (\<lambda>x. b \<le> cf_change x) (map (\<lambda>x. if b \<le> cf_change x then x\<lparr>cf_score := g x\<rparr> else x) xs)
   = map (\<lambda>x. x\<lparr>cf_score := g x\<rparr>) (filter (\<lambda>x. b \<le> cf_change x) xs)"
  by (induction xs) auto

text \<open>
  The ranked view is a correct selection of the confirmed list: it is sorted by forced symbols
  first and falling score, it holds exactly the rows (with their multiplicity) that reach the day's
  change and the score or are forced, the scores lie between 0 and 100, and ranking changes nothing of
  the confirmed list but the scores.
\<close>
theorem ranked_selection:
  assumes "get_ranked_confirmed c mn ms s = (r, t)"
  shows "sorted_wrt (\<lambda>x y. (cf_force y \<longrightarrow> cf_force x) \<and> (cf_force x = cf_force y \<longrightarrow> cf_score y \<le> cf_score x)) r
    \<and> mset r = filter_mset (\<lambda>x. mn \<le> cf_change x
          \<and> (case_option (cc_min_score c) id ms \<le> 0 \<or> case_option (cc_min_score c) id ms \<le> cf_score x \<or> cf_force x))
        (mset (sc_confirmed t))
    \<and> (\<forall>x \<in> set r. 0 \<le> cf_score x \<and> cf_score x \<le> 100)
    \<and> map (\<lambda>x. x\<lparr>cf_score := 0\<rparr>) (sc_confirmed t) = map (\<lambda>x. x\<lparr>cf_score := 0\<rparr>) (sc_confirmed s)
    \<and> sc_tracking t = sc_tracking s"
proof -
  let ?b = "case_option (cc_min_score c) id ms"
  let ?cs = "filter (\<lambda>x. mn \<le> cf_change x) (sc_confirmed s)"
  let ?sc = "\<lambda>x. x\<lparr>cf_score := calculate_score x ?cs\<rparr>"
  let ?up = "\<lambda>x. if mn \<le> cf_change x then ?sc x else x"
  let ?rk = "sort_key rank_of (map ?sc ?cs)"
  let ?pass = "\<lambda>x. ?b \<le> 0 \<or> ?b \<le> cf_score x \<or> cf_force x"
  have b: "(case ms of None \<Rightarrow> cc_min_score c | Some m \<Rightarrow> m) = ?b" by (cases ms) simp_all
  show ?thesis
  proof (cases "?cs = []")
    case True
    then have "r = [] \<and> t = s" "filter (\<lambda>x. mn \<le> cf_change x \<and> ?pass x) (sc_confirmed s) = []"
      using assms by (auto simp: get_ranked_confirmed_def Let_def filter_empty_conv)
    then show ?thesis by (simp flip: mset_filter)
  next
    case False
    have "r = (if 0 < ?b then filter (\<lambda>x. ?b \<le> cf_score x \<or> cf_force x) ?rk else ?rk)"
      using assms False unfolding get_ranked_confirmed_def Let_def b by (simp only: if_False prod.inject)
    then have r: "r = filter ?pass ?rk" by (auto intro!: filter_cong simp: not_less)
    have t: "sc_confirmed t = map ?up (sc_confirmed s)" "sc_tracking t = sc_tracking s"
      using assms False unfolding get_ranked_confirmed_def Let_def by auto
    have "mset r = filter_mset ?pass (mset (filter (\<lambda>x. mn \<le> cf_change x) (sc_confirmed t)))"
      unfolding r t filter_scored by simp
    then have m: "mset r = filter_mset (\<lambda>x. mn \<le> cf_change x \<and> ?pass x) (mset (sc_confirmed t))"
      by (simp add: filter_filter_mset conj_commute)
    have "sorted (map rank_of r)" unfolding r by (rule sorted_filter_key) simp
    then have "sorted_wrt (\<lambda>x y. (cf_force y \<longrightarrow> cf_force x) \<and> (cf_force x = cf_force y \<longrightarrow> cf_score y \<le> cf_score x)) r"
      by (simp add: sorted_wrt_map rank_le)
    moreover have "\<forall>x \<in> set r. 0 \<le> cf_score x \<and> cf_score x \<le> 100" unfolding r by (auto simp: score_bounds)
    moreover have "map (\<lambda>x. x\<lparr>cf_score := 0\<rparr>) (sc_confirmed t) = map (\<lambda>x. x\<lparr>cf_score := 0\<rparr>) (sc_confirmed s)"
      unfolding t by simp
    ultimately show ?thesis using m t by blast
  qed
qed

section \<open>From alerts to confirmations\<close>

text \<open>
  The cycle of the strategy engine: record, check, confirm, refresh, prune; between cycles blocked
  symbols leave, a restart restores the alerts and seeds the confirmed rows, a new session resets both.
\<close>

datatype pipe_label =
    Cycle int "scanner_alert list" "confirmed_stock list"
  | Unlisted
  | Rebooted
  | New_session

inductive pipe_step ::
  "alert_config \<Rightarrow> confirm_config \<Rightarrow> (int \<Rightarrow> string) \<Rightarrow> alert_engine \<times> scanner \<Rightarrow> pipe_label \<Rightarrow> alert_engine \<times> scanner \<Rightarrow> bool"
  for c g f where
  pipe_cycle: "check_alerts c f now ms refs (record_snapshot c ms e) = (as, e') \<Longrightarrow> process_alerts E as s = (rows, s1)
    \<Longrightarrow> prune_faded (en_config E) None (update_live_prices E s1) = (faded, s') \<Longrightarrow> en_config E = g
    \<Longrightarrow> pipe_step c g f (e, s) (Cycle now as rows) (e', s')"
| pipe_unlist: "pipe_step c g f (e, s) Unlisted (e, remove_confirmed ts s)"
| pipe_reboot: "distinct (map cf_ticker rows) \<Longrightarrow>
    pipe_step c g f (e, s) Rebooted (snd (restore_alerts c (export_alerts e) new_alert_engine), seed_confirmed rows new_scanner)"
| pipe_roll: "pipe_step c g f (e, s) New_session (reset_alerts e, reset_scanner s)"

inductive_cases pipe_cycle_cases: "pipe_step c g f p (Cycle now as rows) q"

lemma pipe_cycleE:
  assumes "pipe_step c g f p (Cycle now as rows) q"
  obtains ms refs e e' E s s1 faded s' where "p = (e, s)" "q = (e', s')"
    "check_alerts c f now ms refs (record_snapshot c ms e) = (as, e')" "process_alerts E as s = (rows, s1)"
    "prune_faded (en_config E) None (update_live_prices E s1) = (faded, s')" "en_config E = g"
  using assms by (elim pipe_cycle_cases) blast

definition pipe_fired :: "pipe_label list \<Rightarrow> ((string \<times> string) \<times> int) list" where
  "pipe_fired ls = concat (map (\<lambda>l. case l of Cycle now as _ \<Rightarrow> map (\<lambda>a. (fired_key a, now)) as | _ \<Rightarrow> []) ls)"

lemma pipe_fired_snoc [simp]:
  "pipe_fired (ls @ [l]) = pipe_fired ls @ (case l of Cycle now as _ \<Rightarrow> map (\<lambda>a. (fired_key a, now)) as | _ \<Rightarrow> [])"
  by (simp add: pipe_fired_def)

lemma seed_ok: "distinct (map cf_ticker rows) \<Longrightarrow> scanner_ok (seed_confirmed rows s)"
proof -
  have m: "map cf_ticker (sc_confirmed (seed_confirmed rows s)) = map cf_ticker (filter (\<lambda>x. is_upper_symbol (cf_ticker x)) rows)"
    by (simp add: seed_confirmed_def upper_fixed)
  then show "distinct (map cf_ticker rows) \<Longrightarrow> scanner_ok (seed_confirmed rows s)"
    unfolding scanner_ok_alt by (simp only: m distinct_map_filter set_map set_filter) auto
qed

definition pipe_ok :: "alert_config \<Rightarrow> alert_engine \<times> scanner \<Rightarrow> bool" where
  "pipe_ok c p \<longleftrightarrow> engine_ok c (fst p) \<and> scanner_ok (snd p)"

lemma cycle_ok:
  assumes "engine_ok c e" "check_alerts c f now ms refs (record_snapshot c ms e) = (as, e')"
  shows "engine_ok c e'"
  using check_alerts_fires[OF assms(2)] fires_ok[OF _ record_ok[OF assms(1)]] cleanup_ok by blast

lemma new_scanner_ok: "scanner_ok new_scanner"
  by (simp add: scanner_ok_def new_scanner_def)

lemma pipe_ok_step:
  assumes "pipe_ok c p" "pipe_step c g f p l q"
  shows "pipe_ok c q"
  using assms(2)
proof (cases rule: pipe_step.cases)
  case (pipe_cycle now ms refs e as e' E s rows s1 faded s')
  with assms(1) cycle_ok[OF _ pipe_cycle(4)] have "engine_ok c e'" "scanner_ok s" by (simp_all add: pipe_ok_def)
  with process_alerts_ok[OF pipe_cycle(5)] prune_ok[OF pipe_cycle(6)] live_prices_ok pipe_cycle show ?thesis
    by (simp add: pipe_ok_def)
next
  case (pipe_reboot rows e s)
  with assms(1) restore_export[of c e new_alert_engine] restarted_ok[of c e] seed_ok show ?thesis by (simp add: pipe_ok_def)
next
  case (pipe_roll e s)
  then show ?thesis by (simp add: pipe_ok_def reset_alerts_def new_engine_ok reset_scanner_def new_scanner_ok)
qed (use assms(1) in \<open>simp add: pipe_ok_def remove_ok\<close>)

interpretation pipe: invariant_system "\<lambda>p. p = (new_alert_engine, new_scanner)" "pipe_step c g f" "pipe_ok c" for c g f
  by unfold_locales (simp add: pipe_ok_def new_engine_ok new_scanner_ok, rule pipe_ok_step)

lemma unfaded:
  assumes "prune_faded g None s = (fs, t)" "scanner_ok s" "0 < cc_fade_below g" "x \<in> set (sc_confirmed t)"
  shows "cc_fade_below g \<le> cf_change x"
  using assms by (auto simp: prune_faded_def Let_def fade_frame scanner_ok_def filter_empty_conv not_less split: if_splits)

lemma fires_spikes:
  "fires c now refs hs s as t \<Longrightarrow> spikes_fired F s \<Longrightarrow> spikes_fired (F @ map (\<lambda>a. (fired_key a, now)) as) t"
proof (induction arbitrary: F rule: fires.induct)
  case (fires_both s as t bs u)
  then show ?case by (metis append.assoc map_append)
qed (auto simp: spikes_fired_def fired_key_def set_cooldown_def)

lemma fires_spiked:
  "fires c now refs hs s as t \<Longrightarrow> spikes_fired F s \<Longrightarrow> a \<in> set as \<Longrightarrow>
   (al_ticker a, VOLUME_SPIKE) \<in> fst ` set (F @ map (\<lambda>a. (fired_key a, now)) as)"
proof (induction arbitrary: F rule: fires.induct)
  case (fires_both s as t bs u)
  from fires_both(6) consider "a \<in> set as" | "a \<in> set bs" by auto
  then show ?case
  proof cases
    assume "a \<in> set as"
    with fires_both show ?thesis by force
  next
    assume "a \<in> set bs"
    with fires_both(4)[OF fires_spikes[OF fires_both(1,5)]] show ?thesis by simp
  qed
qed (auto simp: spikes_fired_def fired_key_def)

text \<open>
  C35: After every cycle of the scanner, whatever happened before (blocked symbols, restarts, new
  sessions), the confirmed list holds each symbol once, in upper case, and no row whose change of the
  day is below the fade threshold.
\<close>
theorem confirmed_list_sound:
  assumes "run (pipe_step c g f) (new_alert_engine, new_scanner) ls p" "pipe_step c g f p (Cycle now as rows) (e, s)"
  shows "distinct (map cf_ticker (sc_confirmed s))
    \<and> (\<forall>x \<in> set (sc_confirmed s). is_upper_symbol (cf_ticker x) \<and> (0 < cc_fade_below g \<longrightarrow> cc_fade_below g \<le> cf_change x))"
proof -
  have ok: "pipe_ok c p" by (rule pipe.run_from_init[OF assms(1) refl])
  have "scanner_ok s" using pipe_ok_step[OF ok assms(2)] by (simp add: pipe_ok_def)
  moreover have "cc_fade_below g \<le> cf_change x" if "0 < cc_fade_below g" "x \<in> set (sc_confirmed s)" for x
  proof (rule pipe_cycleE[OF assms(2)])
    fix ms refs e0 e' E s0 s1 faded s'
    assume p: "p = (e0, s0)" "(e, s) = (e', s')" "process_alerts E as s0 = (rows, s1)"
      "prune_faded (en_config E) None (update_live_prices E s1) = (faded, s')" "en_config E = g"
    have "scanner_ok (update_live_prices E s1)"
      using ok process_alerts_ok[OF p(3)] live_prices_ok by (simp add: p(1) pipe_ok_def)
    with p that show ?thesis using unfaded[of g "update_live_prices E s1" faded s' x] by simp
  qed
  ultimately show ?thesis by (simp add: scanner_ok_def)
qed

lemma pipe_spikes:
  "run (pipe_step c g f) p ls q \<Longrightarrow> p = (new_alert_engine, new_scanner) \<Longrightarrow> New_session \<notin> set ls \<Longrightarrow>
   pipe_ok c q \<and> spikes_fired (pipe_fired ls) (fst q)"
proof (induction rule: run.induct)
  case (run_nil p)
  then show ?case using new_engine_ok[of c] new_scanner_ok
    by (simp add: spikes_fired_def pipe_ok_def pipe_fired_def) (simp add: new_alert_engine_def)
next
  case (run_snoc p ls q l r)
  then have ok: "pipe_ok c q" and sp: "spikes_fired (pipe_fired ls) (fst q)" and l: "l \<noteq> New_session" by auto
  from run_snoc(2) have "spikes_fired (pipe_fired (ls @ [l])) (fst r)"
  proof (cases rule: pipe_step.cases)
    case (pipe_cycle now ms refs e as e' E s rows s1 faded s')
    obtain v where v: "fires c now refs (ae_history (record_snapshot c ms e)) (record_snapshot c ms e) as v"
      "e' = v \<or> e' = cleanup_cooldowns c now v"
      using check_alerts_fires[OF pipe_cycle(4)] by blast
    have "spikes_fired (pipe_fired ls) (record_snapshot c ms e)"
      using sp by (simp add: pipe_cycle(1) spikes_fired_def record_snapshot_def push_history_def)
    from fires_spikes[OF v(1) this] v(2) show ?thesis
      by (auto simp: pipe_cycle(2,3) spikes_fired_def cleanup_cooldowns_def)
  next
    case (pipe_reboot rows e s)
    with sp ok restore_export[of c e new_alert_engine] show ?thesis
      by (auto simp: pipe_ok_def restarted_def spikes_fired_def)
  qed (use sp l in \<open>auto simp: spikes_fired_def\<close>)
  then show ?case using pipe_ok_step[OF ok run_snoc(2)] by simp
qed


section \<open>A concrete scan\<close>

definition run_cycle ::
  "alert_config \<Rightarrow> (int \<Rightarrow> string) \<Rightarrow> int \<Rightarrow> scan_snapshot list \<Rightarrow> (string, reference_data) dict option \<Rightarrow> confirm_env
     \<Rightarrow> alert_engine \<times> scanner \<Rightarrow> scanner_alert list \<times> confirmed_stock list \<times> alert_engine \<times> scanner" where
  "run_cycle c f now ms refs E p =
     (case check_alerts c f now ms refs (record_snapshot c ms (fst p)) of (as, e) \<Rightarrow>
      case process_alerts E as (snd p) of (rows, s1) \<Rightarrow>
        (as, rows, e, snd (prune_faded (en_config E) None (update_live_prices E s1))))"

lemma run_cycle_step:
  assumes "run_cycle c f now ms refs E p = (as, rows, q)"
  shows "pipe_step c (en_config E) f p (Cycle now as rows) q"
proof -
  obtain as' e where 1: "check_alerts c f now ms refs (record_snapshot c ms (fst p)) = (as', e)" by fastforce
  obtain rows' s1 where 2: "process_alerts E as' (snd p) = (rows', s1)" by fastforce
  obtain faded s' where 3: "prune_faded (en_config E) None (update_live_prices E s1) = (faded, s')" by fastforce
  from assms have "as' = as" "rows' = rows" "q = (e, s')" by (simp_all add: run_cycle_def 1 2 3)
  with pipe_cycle[where f = f, OF 1 2 3 refl] show ?thesis by simp
qed

definition mx_filters :: confirm_config where
  "mx_filters = \<lparr>cc_min_volume = 500000, cc_max_float = 50000000, cc_min_score = 50, cc_fade_below = 30, cc_extreme = 30,
     cc_turnover_small = 7 / 100, cc_turnover_mid = 1 / 10, cc_turnover_large = 12 / 100\<rparr>"

definition mx_env :: "scan_snapshot \<Rightarrow> confirm_env" where
  "mx_env m = \<lparr>en_config = mx_filters, en_port = \<lparr>cp_present = False, cp_one = (\<lambda>_. None), cp_batch = (\<lambda>_. [])\<rparr>,
     en_minutes = 60, en_refs = mx_refs, en_snaps = [(''ABC'', m)], en_has_snaps = True\<rparr>"

definition mx_cycle :: "int \<Rightarrow> rat \<Rightarrow> int \<Rightarrow> alert_engine \<times> scanner
    \<Rightarrow> scanner_alert list \<times> confirmed_stock list \<times> alert_engine \<times> scanner" where
  "mx_cycle now price volume =
     run_cycle mx_config mx_time now [mx_snap price volume] (Some mx_refs) (mx_env (mx_snap price volume))"

definition mx_calm :: "scanner_alert list \<times> confirmed_stock list \<times> alert_engine \<times> scanner" where
  "mx_calm = mx_cycle 0 2 100000 (new_alert_engine, new_scanner)"

definition mx_move :: "scanner_alert list \<times> confirmed_stock list \<times> alert_engine \<times> scanner" where
  "mx_move = mx_cycle 150000000 3 600000 (snd (snd mx_calm))"

lemma mx_cycle_step:
  "pipe_step mx_config mx_filters mx_time p
     (Cycle now (fst (mx_cycle now price volume p)) (fst (snd (mx_cycle now price volume p)))) (snd (snd (mx_cycle now price volume p)))"
  using run_cycle_step[of mx_config mx_time now "[mx_snap price volume]" "Some mx_refs" "mx_env (mx_snap price volume)" p
      "fst (mx_cycle now price volume p)" "fst (snd (mx_cycle now price volume p))" "snd (snd (mx_cycle now price volume p))"]
  by (simp add: mx_cycle_def mx_env_def)

lemma mx_scan: "run (pipe_step mx_config mx_filters mx_time) (new_alert_engine, new_scanner)
    [Cycle 0 (fst mx_calm) (fst (snd mx_calm))] (snd (snd mx_calm))"
  unfolding mx_calm_def by (rule run_one[where step = "pipe_step mx_config mx_filters mx_time", OF mx_cycle_step])

lemma mx_confirmed: "map cf_path (fst (snd mx_move)) = [PATH_C]"
  by code_simp


lemma mx_listed_now: "map cf_ticker (sc_confirmed (snd (snd (snd mx_move)))) = [''ABC'']"
  by code_simp

theorem confirmed_list_sound_witness:
  "sc_confirmed (snd (snd (snd mx_move))) \<noteq> []
    \<and> is_upper_symbol (cf_ticker (hd (sc_confirmed (snd (snd (snd mx_move))))))
    \<and> 30 \<le> cf_change (hd (sc_confirmed (snd (snd (snd mx_move)))))"
proof -
  let ?rows = "sc_confirmed (snd (snd (snd mx_move)))"
  have "distinct (map cf_ticker ?rows) \<and> (\<forall>x \<in> set ?rows. is_upper_symbol (cf_ticker x)
      \<and> (0 < cc_fade_below mx_filters \<longrightarrow> cc_fade_below mx_filters \<le> cf_change x))"
    by (rule confirmed_list_sound[OF mx_scan, of 150000000 "fst mx_move" "fst (snd mx_move)" "fst (snd (snd mx_move))"])
      (use mx_cycle_step[of "snd (snd mx_calm)" 150000000 3 600000] in \<open>simp add: mx_move_def\<close>)
  moreover have "?rows \<noteq> []" using mx_listed_now by auto
  ultimately show ?thesis by (simp add: mx_filters_def)
qed

definition mx_row :: "string \<Rightarrow> rat \<Rightarrow> int \<Rightarrow> bool \<Rightarrow> confirmed_stock" where
  "mx_row ticker change volume force =
     \<lparr>cf_ticker = ticker, cf_confirmed_at = ''t'', cf_entry_price = 2, cf_price = 3, cf_change = change, cf_volume = volume,
      cf_rvol = 1, cf_shares = 5000000, cf_bid = 0, cf_ask = 0, cf_bid_size = 0, cf_ask_size = 0, cf_spread = 0,
      cf_spread_pct = 0, cf_hod = 3, cf_vwap = 3, cf_prev_close = 2, cf_avg_volume = 0, cf_spike_time = '''',
      cf_spike_price = 0, cf_squeezes = 1, cf_age = 0, cf_path = PATH_B, cf_force = force, cf_score = 0,
      cf_catalyst = no_catalyst\<rparr>"

definition mx_listed :: scanner where
  "mx_listed = \<lparr>sc_tracking = [], sc_confirmed =
     [mx_row ''ABC'' 40 600000 False, mx_row ''XYZ'' 60 900000 False, mx_row ''LOW'' 5 100000 False, mx_row ''FRC'' 20 500000 True]\<rparr>"

definition mx_ranked :: "confirmed_stock list \<times> scanner" where
  "mx_ranked = get_ranked_confirmed mx_filters 10 None mx_listed"

theorem ranked_selection_witness:
  "sorted_wrt (\<lambda>x y. (cf_force y \<longrightarrow> cf_force x) \<and> (cf_force x = cf_force y \<longrightarrow> cf_score y \<le> cf_score x)) (fst mx_ranked)
   \<and> map cf_ticker (fst mx_ranked) = [''FRC'', ''XYZ'']"
proof
  show "sorted_wrt (\<lambda>x y. (cf_force y \<longrightarrow> cf_force x) \<and> (cf_force x = cf_force y \<longrightarrow> cf_score y \<le> cf_score x)) (fst mx_ranked)"
    using ranked_selection[of mx_filters 10 None mx_listed "fst mx_ranked" "snd mx_ranked"] by (simp add: mx_ranked_def)
  show "map cf_ticker (fst mx_ranked) = [''FRC'', ''XYZ'']" by code_simp
qed

end
