(* ===== verification/AtrFlip.thy ===== *)
theory AtrFlip
  imports EntryGuards
begin

text \<open>
  The ATR trailing-stop flip of \<open>strategy_core/schwab_1m_v2.py\<close>, the signal of the live one-minute
  strategy: the incremental indicator (\<open>_update_atr_state\<close>), its warm start from earlier bars of the
  session (\<open>seed_atr_state\<close>), the guard of a short segment, and the entries built on it (variants A and
  B of \<open>_maybe_atr_emit\<close>, the confirmed window of \<open>_cw_entry\<close>). Beside it the batch computation of
  \<open>backtest/atr_oracle.py\<close> that the indicator is meant to reproduce. Prices are exact rationals. The New
  York session anchor, the sizing of an order, the liquidity volume of a bar and the attestation of an
  empty gap are parameters. Of the session reset the fields of this component are modelled; the resting
  orders and owners of the strategy and its other entry paths (the intrabar hold draft also claims the guard)
  are not, nor are diagnostics, counters and log lines.
\<close>

section \<open>Bars, parameters and state\<close>

record atr_bar =
  ab_ts :: int
  ab_open :: rat
  ab_high :: rat
  ab_low :: rat
  ab_close :: rat
  ab_volume :: int

datatype trend = Long | Short
datatype flip = Buy_flip | Sell_flip
datatype guard = Unclaimed | Provisional | Claimed

record atr_params =
  ap_period :: nat
  ap_factor :: rat
  ap_rearm :: bool
  ap_anchor :: "int \<Rightarrow> int"
  ap_attested :: "int \<Rightarrow> int \<Rightarrow> bool"
  ap_enabled :: bool
  ap_cw :: bool
  ap_cw_v2 :: bool
  ap_variant_A :: bool
  ap_vol_floor :: rat
  ap_use_max_age :: bool
  ap_max_age :: int
  ap_timeout_ms :: rat

definition ATR_MAX_BAR_GAP_MS :: int where "ATR_MAX_BAR_GAP_MS = 90000"

text \<open>\<open>as_quote\<close> is the ask of the last quote, \<open>as_seeded\<close> the session the symbol was seeded for.\<close>

record atr_symbol =
  as_anchor :: int
  as_hl :: "rat list"
  as_prev :: "atr_bar option"
  as_wilders :: "rat option"
  as_seed :: "rat list"
  as_trend :: "trend option"
  as_trail :: "rat option"
  as_prev_trail :: "rat option"
  as_prev_trend :: "trend option"
  as_age :: int
  as_short_ts :: int
  as_fired :: bool
  as_guard :: guard
  as_emit_ms :: int
  as_hold :: bool
  as_seeded :: "int option"
  as_quote :: "rat option"
  as_cw_armed :: bool
  as_cw_waited :: int
  as_cw_high :: rat
  as_entry :: "rat option"

definition new_atr_symbol :: atr_symbol where
  "new_atr_symbol =
     \<lparr>as_anchor = 0, as_hl = [], as_prev = None, as_wilders = None, as_seed = [], as_trend = None, as_trail = None,
      as_prev_trail = None, as_prev_trend = None, as_age = 0, as_short_ts = 0, as_fired = False, as_guard = Unclaimed,
      as_emit_ms = 0, as_hold = False, as_seeded = None, as_quote = None, as_cw_armed = False, as_cw_waited = 0,
      as_cw_high = 0, as_entry = None\<rparr>"

record atr_signal =
  sg_touch :: "rat option"
  sg_flip :: "flip option"
  sg_flip_level :: "rat option"
  sg_trail :: rat
  sg_loss :: rat
  sg_trend :: trend
  sg_age :: int
  sg_prev_ts :: int
  sg_ts :: int
  sg_gap :: int
  sg_short_id :: int

definition floor_allows :: "rat \<Rightarrow> bool" where
  "floor_allows x = buy_price_allowed (Some (MDec (Fin x))) ''buy''"

section \<open>The guard of a short segment\<close>

definition set_atr_guard :: "guard \<Rightarrow> int \<Rightarrow> atr_symbol \<Rightarrow> atr_symbol" where
  "set_atr_guard g ms s = s\<lparr>as_guard := g, as_emit_ms := (if g = Provisional then ms else 0)\<rparr>"

definition poll_atr_guard :: "atr_params \<Rightarrow> int \<Rightarrow> int \<Rightarrow> int \<Rightarrow> atr_symbol \<Rightarrow> atr_symbol" where
  "poll_atr_guard p prev_qty qty now s =
     (if prev_qty = 0 \<and> 0 < qty \<and> as_guard s = Provisional then set_atr_guard Claimed 0 s
      else if as_guard s = Provisional \<and> qty = 0 \<and> ap_timeout_ms p \<le> of_int (now - as_emit_ms s)
      then set_atr_guard Unclaimed 0 s else s)"

section \<open>Session resets\<close>

definition reset_indicator :: "int \<Rightarrow> atr_symbol \<Rightarrow> atr_symbol" where
  "reset_indicator anchor s =
     s\<lparr>as_anchor := anchor, as_hl := [], as_prev := None, as_wilders := None, as_seed := [], as_trend := None,
       as_trail := None, as_prev_trail := None, as_prev_trend := None, as_age := 0, as_short_ts := 0\<rparr>"

definition session_reset :: "atr_params \<Rightarrow> int \<Rightarrow> atr_symbol \<Rightarrow> atr_symbol" where
  "session_reset p anchor s =
     (let s1 = (reset_indicator anchor s)\<lparr>as_fired := False\<rparr>;
          s2 = (if ap_rearm p then (set_atr_guard Unclaimed 0 s1)\<lparr>as_hold := False\<rparr> else s1)
      in s2\<lparr>as_cw_armed := False, as_cw_waited := 0, as_cw_high := 0\<rparr>)"

text \<open>The indicator fields of a snapshot put back.\<close>

definition restore_indicator :: "atr_symbol \<Rightarrow> atr_symbol \<Rightarrow> atr_symbol" where
  "restore_indicator snap s =
     s\<lparr>as_anchor := as_anchor snap, as_hl := as_hl snap, as_prev := as_prev snap, as_wilders := as_wilders snap,
       as_seed := as_seed snap, as_trend := as_trend snap, as_trail := as_trail snap,
       as_prev_trail := as_prev_trail snap, as_prev_trend := as_prev_trend snap, as_age := as_age snap,
       as_short_ts := as_short_ts snap\<rparr>"

definition roll_session :: "atr_params \<Rightarrow> bool \<Rightarrow> int \<Rightarrow> atr_symbol \<Rightarrow> atr_symbol" where
  "roll_session p state_only anchor s =
     (if \<not> state_only \<and> as_seeded s = Some anchor
      then (restore_indicator s (session_reset p anchor s))\<lparr>as_seeded := None\<rparr>
      else if anchor \<noteq> as_anchor s
      then if state_only then reset_indicator anchor s else session_reset p anchor s
      else s)"

section \<open>The indicator\<close>

definition bar_range :: "atr_bar \<Rightarrow> rat" where
  "bar_range b = ab_high b - ab_low b"

definition true_range :: "rat \<Rightarrow> atr_bar \<Rightarrow> atr_bar \<Rightarrow> rat" where
  "true_range hilo prev cur =
     (let href = (if ab_low cur \<le> ab_high prev then ab_high cur - ab_close prev
                  else (ab_high cur - ab_close prev) - 1 / 2 * (ab_low cur - ab_high prev));
          lref = (if ab_low prev \<le> ab_high cur then ab_close prev - ab_low cur
                  else (ab_close prev - ab_low cur) - 1 / 2 * (ab_low prev - ab_high cur))
      in max (max hilo href) lref)"

definition gap_ms :: "atr_bar option \<Rightarrow> atr_bar \<Rightarrow> int" where
  "gap_ms prev cur = (case prev of Some q \<Rightarrow> if ab_ts q \<noteq> 0 then ab_ts cur - ab_ts q else 0 | None \<Rightarrow> 0)"

text \<open>The range of a bar after the last one, not spanned over a gap that nobody vouches for.\<close>

definition next_range :: "atr_params \<Rightarrow> bool \<Rightarrow> rat list \<Rightarrow> atr_bar option \<Rightarrow> atr_bar \<Rightarrow> rat option" where
  "next_range p vouched hls prev cur =
     (case prev of
        None \<Rightarrow> None
      | Some q \<Rightarrow>
          if length hls \<noteq> ap_period p then None
          else let hilo = min (bar_range cur) (3 / 2 * (sum_list hls / of_nat (ap_period p)))
               in if ATR_MAX_BAR_GAP_MS < gap_ms prev cur \<and> \<not> (vouched \<or> ap_attested p (ab_ts q) (ab_ts cur))
                  then Some hilo else Some (true_range hilo q cur))"

definition wilders_step :: "atr_params \<Rightarrow> rat option \<Rightarrow> atr_symbol \<Rightarrow> atr_symbol" where
  "wilders_step p tr s =
     (case tr of
        None \<Rightarrow> s
      | Some t \<Rightarrow>
          (case as_wilders s of
             None \<Rightarrow> s\<lparr>as_seed := as_seed s @ [t],
                       as_wilders := (if length (as_seed s @ [t]) = ap_period p
                                      then Some (sum_list (as_seed s @ [t]) / of_nat (ap_period p)) else None)\<rparr>
           | Some w \<Rightarrow> s\<lparr>as_wilders := Some (w + (t - w) / of_nat (ap_period p))\<rparr>))"

definition segment_free :: "atr_params \<Rightarrow> bool \<Rightarrow> atr_symbol \<Rightarrow> bool" where
  "segment_free p state_only s \<longleftrightarrow>
     \<not> state_only \<and> (if ap_rearm p then as_guard s = Unclaimed \<and> \<not> as_hold s else \<not> as_fired s)"

definition atr_touched :: "atr_params \<Rightarrow> bool \<Rightarrow> atr_bar \<Rightarrow> atr_symbol \<Rightarrow> rat option" where
  "atr_touched p state_only cur s =
     (if as_prev_trend s = Some Short \<and> segment_free p state_only s
      then case as_prev_trail s of Some t \<Rightarrow> if t \<le> ab_high cur then Some t else None | None \<Rightarrow> None
      else None)"

definition claim_touch :: "atr_params \<Rightarrow> rat option \<Rightarrow> atr_bar \<Rightarrow> atr_symbol \<Rightarrow> atr_symbol" where
  "claim_touch p touch cur s =
     (case touch of
        None \<Rightarrow> s
      | Some t \<Rightarrow>
          if \<not> ap_rearm p \<and> floor_allows t \<and> floor_allows (ab_close cur)
             \<and> (case as_quote s of None \<Rightarrow> True | Some ask \<Rightarrow> floor_allows ask)
          then s\<lparr>as_fired := True\<rparr> else s)"

text \<open>The flip: the close against the trail of the bar before.\<close>

definition open_short :: "atr_params \<Rightarrow> bool \<Rightarrow> atr_bar \<Rightarrow> atr_symbol \<Rightarrow> atr_symbol" where
  "open_short p state_only cur s =
     (let s1 = s\<lparr>as_short_ts := ab_ts cur, as_fired := (if state_only then as_fired s else False)\<rparr>
      in if ap_rearm p \<and> \<not> state_only then set_atr_guard Unclaimed 0 s1 else s1)"

definition flip_step ::
  "atr_params \<Rightarrow> bool \<Rightarrow> rat \<Rightarrow> atr_bar \<Rightarrow> atr_symbol \<Rightarrow> flip option \<times> rat option \<times> atr_symbol" where
  "flip_step p state_only loss cur s =
     (let close = ab_close cur; trail = (case as_trail s of Some t \<Rightarrow> t | None \<Rightarrow> 0)
      in case as_trend s of
           None \<Rightarrow> (None, None, s\<lparr>as_trend := Some Long, as_trail := Some (close - loss), as_age := 0\<rparr>)
         | Some Long \<Rightarrow>
             if trail < close
             then (None, None, s\<lparr>as_age := as_age s + 1, as_trail := Some (max trail (close - loss))\<rparr>)
             else (Some Sell_flip, None,
                   open_short p state_only cur (s\<lparr>as_trend := Some Short, as_trail := Some (close + loss), as_age := 0\<rparr>))
         | Some Short \<Rightarrow>
             if close < trail
             then (None, None, s\<lparr>as_age := as_age s + 1, as_trail := Some (min trail (close + loss))\<rparr>)
             else (Some Buy_flip, Some trail,
                   s\<lparr>as_trend := Some Long, as_trail := Some (close - loss), as_age := 0, as_short_ts := 0\<rparr>))"

text \<open>The part of an update after the averages: nothing before the first loss, then the touch and the flip.\<close>

definition signal_step ::
  "atr_params \<Rightarrow> bool \<Rightarrow> atr_bar \<Rightarrow> atr_bar option \<Rightarrow> atr_symbol \<Rightarrow> atr_signal option \<times> atr_symbol" where
  "signal_step p state_only cur prev s1 =
     (case as_wilders s1 of
        None \<Rightarrow> (None, s1)
      | Some w \<Rightarrow>
          (let loss = ap_factor p * w; touch = atr_touched p state_only cur s1;
               s2 = claim_touch p touch cur s1; short_id = as_short_ts s2
           in case flip_step p state_only loss cur s2 of (flip, level, s3) \<Rightarrow>
              (Some \<lparr>sg_touch = touch, sg_flip = flip, sg_flip_level = level,
                     sg_trail = (case as_trail s3 of Some t \<Rightarrow> t | None \<Rightarrow> 0), sg_loss = loss,
                     sg_trend = (case as_trend s3 of Some t \<Rightarrow> t | None \<Rightarrow> Long), sg_age = as_age s3,
                     sg_prev_ts = (case prev of Some q \<Rightarrow> ab_ts q | None \<Rightarrow> 0), sg_ts = ab_ts cur,
                     sg_gap = gap_ms prev cur, sg_short_id = short_id\<rparr>,
               s3\<lparr>as_prev_trail := as_trail s3, as_prev_trend := as_trend s3\<rparr>)))"

definition update_atr ::
  "atr_params \<Rightarrow> bool \<Rightarrow> bool \<Rightarrow> atr_bar \<Rightarrow> atr_symbol \<Rightarrow> atr_signal option \<times> atr_symbol" where
  "update_atr p state_only span_gap cur s0 =
     (let s = roll_session p state_only (ap_anchor p (ab_ts cur)) s0;
          hls = drop (Suc (length (as_hl s)) - ap_period p) (as_hl s @ [bar_range cur]);
          prev = as_prev s;
          tr = next_range p (state_only \<and> span_gap) hls prev cur
      in signal_step p state_only cur prev ((wilders_step p tr (s\<lparr>as_hl := hls\<rparr>))\<lparr>as_prev := Some cur\<rparr>))"

fun update_all ::
  "atr_params \<Rightarrow> bool \<Rightarrow> atr_bar list \<Rightarrow> atr_symbol \<Rightarrow> atr_signal option list \<times> atr_symbol" where
  "update_all p state_only [] s = ([], s)"
| "update_all p state_only (b # bs) s =
     (case update_atr p state_only False b s of (sig, s1) \<Rightarrow>
      case update_all p state_only bs s1 of (sigs, s2) \<Rightarrow> (sig # sigs, s2))"

record seed_report =
  sr_bars :: nat
  sr_trend :: "trend option"
  sr_trail :: "rat option"
  sr_flips :: "(int \<times> flip) list"

definition seed_atr :: "atr_params \<Rightarrow> atr_bar list \<Rightarrow> atr_symbol \<Rightarrow> seed_report \<times> atr_symbol" where
  "seed_atr p bars s =
     (let ordered = sort_key ab_ts bars
      in case update_all p True ordered s of (sigs, s1) \<Rightarrow>
         let s2 = (if ordered = [] then s1 else s1\<lparr>as_seeded := Some (as_anchor s1)\<rparr>)
         in (\<lparr>sr_bars = length ordered, sr_trend = as_trend s2, sr_trail = as_trail s2,
              sr_flips = List.map_filter (\<lambda>(b, sig). Option.bind sig (\<lambda>g. map_option (\<lambda>f. (ab_ts b, f)) (sg_flip g)))
                           (zip ordered sigs)\<rparr>, s2))"

section \<open>Entries\<close>

text \<open>
  \<open>volume\<close> is the answer of \<open>_bar_volume_for_liquidity_floor\<close>, \<open>sizing\<close> that of \<open>_sized_open\<close> for the ask
  of the last quote, after the price floor.
\<close>

definition sized_open :: "(rat option \<Rightarrow> rat option) \<Rightarrow> rat option \<Rightarrow> rat option" where
  "sized_open sizing price =
     (case price of Some x \<Rightarrow> if floor_allows x then sizing price else None | None \<Rightarrow> sizing price)"

record atr_draft =
  dr_entry :: rat
  dr_quantity :: rat
  dr_variant :: string
  dr_trail :: rat
  dr_loss :: rat
  dr_trend :: trend
  dr_age :: int
  dr_high :: rat
  dr_break :: "rat option"
  dr_ts :: int

definition draft_of :: "rat \<Rightarrow> rat \<Rightarrow> string \<Rightarrow> rat option \<Rightarrow> atr_signal \<Rightarrow> atr_bar \<Rightarrow> atr_draft" where
  "draft_of entry quantity variant brk sig cur =
     \<lparr>dr_entry = entry, dr_quantity = quantity, dr_variant = variant, dr_trail = sg_trail sig, dr_loss = sg_loss sig,
      dr_trend = sg_trend sig, dr_age = sg_age sig, dr_high = ab_high cur, dr_break = brk, dr_ts = ab_ts cur\<rparr>"

definition cw_entry ::
  "atr_params \<Rightarrow> (rat option \<Rightarrow> rat option) \<Rightarrow> rat \<Rightarrow> atr_bar \<Rightarrow> atr_signal \<Rightarrow> atr_symbol
     \<Rightarrow> atr_draft option \<times> atr_symbol" where
  "cw_entry p sizing volume cur sig s =
     (if ap_cw_v2 p then (None, s)
      else if sg_flip sig = Some Buy_flip then (None, s\<lparr>as_cw_armed := True, as_cw_waited := 0, as_cw_high := 0\<rparr>)
      else if sg_flip sig = Some Sell_flip then (None, s\<lparr>as_cw_armed := False\<rparr>)
      else if \<not> as_cw_armed s then (None, s)
      else let s1 = s\<lparr>as_cw_waited := as_cw_waited s + 1\<rparr>
           in if as_cw_waited s1 \<le> 3 then (None, s1\<lparr>as_cw_high := max (as_cw_high s1) (ab_high cur)\<rparr>)
              else if ab_high cur \<le> as_cw_high s1 \<or> volume \<le> ap_vol_floor p
                 \<or> \<not> floor_allows (as_cw_high s1) \<or> \<not> floor_allows (ab_close cur) then (None, s1)
              else case sized_open sizing (as_quote s1) of
                     None \<Rightarrow> (None, s1)
                   | Some q \<Rightarrow> (Some (draft_of (as_cw_high s1) q ''CW'' (Some (as_cw_high s1)) sig cur),
                                s1\<lparr>as_cw_armed := False, as_entry := Some (as_cw_high s1)\<rparr>))"

definition atr_entry_price :: "atr_params \<Rightarrow> atr_bar \<Rightarrow> atr_signal \<Rightarrow> atr_symbol \<Rightarrow> rat option" where
  "atr_entry_price p cur sig s =
     (if ap_variant_A p then if sg_flip sig = Some Buy_flip then Some (ab_close cur) else None
      else case sg_touch sig of
             Some t \<Rightarrow> Some t
           | None \<Rightarrow> if ap_rearm p \<and> sg_flip sig = Some Buy_flip \<and> as_guard s = Unclaimed
                      then Some (ab_close cur) else None)"

definition maybe_atr_emit ::
  "atr_params \<Rightarrow> (rat option \<Rightarrow> rat option) \<Rightarrow> rat \<Rightarrow> int \<Rightarrow> atr_bar \<Rightarrow> atr_signal option \<Rightarrow> bool \<Rightarrow> atr_symbol
     \<Rightarrow> atr_draft option \<times> atr_symbol" where
  "maybe_atr_emit p sizing volume now cur signal fresh s =
     (case signal of
        None \<Rightarrow> (None, s)
      | Some sig \<Rightarrow>
          if \<not> ap_enabled p \<or> \<not> fresh then (None, s)
          else if ap_cw p then cw_entry p sizing volume cur sig s
          else if volume \<le> ap_vol_floor p \<or> ap_use_max_age p \<and> ap_max_age p \<le> sg_age sig then (None, s)
          else case atr_entry_price p cur sig s of
                 None \<Rightarrow> (None, s)
               | Some entry \<Rightarrow>
                   if \<not> floor_allows entry \<or> \<not> floor_allows (ab_close cur) then (None, s)
                   else case sized_open sizing (as_quote s) of
                          None \<Rightarrow> (None, s)
                        | Some q \<Rightarrow>
                            (Some (draft_of entry q (if ap_variant_A p then ''A'' else ''B'') None sig cur),
                             let s1 = s\<lparr>as_entry := Some entry\<rparr>
                             in if ap_rearm p then set_atr_guard Provisional now s1 else s1))"

section \<open>A symbol over time\<close>

text \<open>
  A new bar advances the indicator and is evaluated for an entry when it is fresh and the symbol flat
  (\<open>Closed\<close>), or only advances it (\<open>Observed\<close>, and \<open>Shadowed\<close> for a bar behind a repair, which touches nothing
  else). Between bars there are quotes, the poll of the guard and pending holds. The poll's release of an
  entry that never filled is \<open>Released\<close>.
\<close>

datatype atr_label =
    Closed atr_bar "atr_signal option" "atr_draft option"
  | Observed atr_bar "atr_signal option"
  | Shadowed atr_bar "atr_signal option"
  | Released
  | Between

inductive atr_step :: "atr_params \<Rightarrow> (rat option \<Rightarrow> rat option) \<Rightarrow> atr_symbol \<Rightarrow> atr_label \<Rightarrow> atr_symbol \<Rightarrow> bool"
  for p sizing where
  atr_closed: "update_atr p False False b s = (sig, t) \<Longrightarrow> maybe_atr_emit p sizing volume now b sig True t = (draft, u)
    \<Longrightarrow> atr_step p sizing s (Closed b sig draft) u"
| atr_observed: "update_atr p False False b s = (sig, t) \<Longrightarrow> atr_step p sizing s (Observed b sig) t"
| atr_shadowed: "update_atr p True span_gap b s = (sig, t) \<Longrightarrow> atr_step p sizing s (Shadowed b sig) t"
| atr_polled: "poll_atr_guard p prev_qty qty now s = t \<Longrightarrow>
    atr_step p sizing s (if as_guard s \<noteq> Unclaimed \<and> as_guard t = Unclaimed then Released else Between) t"
| atr_quoted: "atr_step p sizing s Between (s\<lparr>as_quote := Some ask\<rparr>)"
| atr_held: "atr_step p sizing s Between (s\<lparr>as_hold := h\<rparr>)"

section \<open>The batch oracle\<close>

text \<open>
  \<open>compute_atr_trail\<close> over one ascending session. A row leaves out the rendered time of day; \<open>seed\<close> tells
  the two seedings apart.
\<close>

record oracle_row =
  ow_ts :: int
  ow_close :: rat
  ow_tr :: "rat option"
  ow_loss :: "rat option"
  ow_trail :: "rat option"
  ow_trend :: "trend option"
  ow_flip :: "flip option"
  ow_age :: "int option"
  ow_vol :: int

definition oracle_sma :: "rat list \<Rightarrow> nat \<Rightarrow> nat \<Rightarrow> rat option" where
  "oracle_sma xs i p = (if p \<le> i + 1 then Some (sum_list (take p (drop (i + 1 - p) xs)) / of_nat p) else None)"

definition oracle_tr :: "nat \<Rightarrow> atr_bar list \<Rightarrow> nat \<Rightarrow> rat option" where
  "oracle_tr period bars i =
     (if i = 0 then None
      else case oracle_sma (map bar_range bars) i period of
             None \<Rightarrow> None
           | Some s \<Rightarrow> Some (true_range (min (bar_range (bars ! i)) (3 / 2 * s)) (bars ! (i - 1)) (bars ! i)))"

fun oracle_smooth :: "nat \<Rightarrow> rat \<Rightarrow> rat option list \<Rightarrow> rat option list" where
  "oracle_smooth period w [] = []"
| "oracle_smooth period w (None # ts) = None # oracle_smooth period w ts"
| "oracle_smooth period w (Some t # ts) =
     (let v = w + (t - w) / of_nat period in Some v # oracle_smooth period v ts)"

definition oracle_wilders :: "bool \<Rightarrow> nat \<Rightarrow> rat option list \<Rightarrow> rat option list" where
  "oracle_wilders sma5 period trs =
     (let valid = filter (\<lambda>i. trs ! i \<noteq> None) [0..<length trs]
      in if length valid < (if sma5 then period else 1) then replicate (length trs) None
         else let start = (if sma5 then last (take period valid) else hd valid);
                  w = (if sma5 then sum_list (map (\<lambda>i. the (trs ! i)) (take period valid)) / of_nat period
                       else the (trs ! start))
              in replicate start None @ [Some w] @ oracle_smooth period w (drop (start + 1) trs))"

definition round4 :: "rat \<Rightarrow> rat" where "round4 x = py_round x 4"

definition make_row ::
  "atr_bar \<Rightarrow> rat option \<Rightarrow> rat option \<Rightarrow> rat option \<Rightarrow> trend option \<Rightarrow> flip option \<Rightarrow> int option \<Rightarrow> oracle_row" where
  "make_row b tr loss trail trend flip age =
     \<lparr>ow_ts = ab_ts b, ow_close = round4 (ab_close b), ow_tr = map_option round4 tr, ow_loss = map_option round4 loss,
      ow_trail = map_option round4 trail, ow_trend = trend, ow_flip = flip, ow_age = age, ow_vol = ab_volume b\<rparr>"

text \<open>\<open>cur\<close> is the state and trail of the loop, \<open>None\<close> before the first loss.\<close>

fun oracle_rows :: "(trend \<times> rat) option \<Rightarrow> int \<Rightarrow> (atr_bar \<times> rat option \<times> rat option) list \<Rightarrow> oracle_row list" where
  "oracle_rows cur age [] = []"
| "oracle_rows cur age ((b, tr, None) # rest) = make_row b tr None None None None None # oracle_rows cur age rest"
| "oracle_rows None age ((b, tr, Some loss) # rest) =
     make_row b tr (Some loss) (Some (ab_close b - loss)) (Some Long) None (Some 0)
       # oracle_rows (Some (Long, ab_close b - loss)) 0 rest"
| "oracle_rows (Some (Long, t)) age ((b, tr, Some loss) # rest) =
     (if t < ab_close b
      then let t1 = max t (ab_close b - loss)
           in make_row b tr (Some loss) (Some t1) (Some Long) None (Some (age + 1)) # oracle_rows (Some (Long, t1)) (age + 1) rest
      else let t1 = ab_close b + loss
           in make_row b tr (Some loss) (Some t1) (Some Short) (Some Sell_flip) (Some 0) # oracle_rows (Some (Short, t1)) 0 rest)"
| "oracle_rows (Some (Short, t)) age ((b, tr, Some loss) # rest) =
     (if ab_close b < t
      then let t1 = min t (ab_close b + loss)
           in make_row b tr (Some loss) (Some t1) (Some Short) None (Some (age + 1)) # oracle_rows (Some (Short, t1)) (age + 1) rest
      else let t1 = ab_close b - loss
           in make_row b tr (Some loss) (Some t1) (Some Long) (Some Buy_flip) (Some 0) # oracle_rows (Some (Long, t1)) 0 rest)"

definition compute_atr_trail :: "bool \<Rightarrow> nat \<Rightarrow> rat \<Rightarrow> atr_bar list \<Rightarrow> oracle_row list" where
  "compute_atr_trail sma5 period factor bars =
     (let trs = map (oracle_tr period bars) [0..<length bars];
          losses = map (map_option (\<lambda>w. factor * w)) (oracle_wilders sma5 period trs)
      in oracle_rows None 0 (zip bars (zip trs losses)))"

end
