(* ===== verification/AtrOracleSpec.thy ===== *)
theory AtrOracleSpec
  imports AtrFlip
begin

text \<open>
  The incremental ATR indicator against the batch computation of the backtest. The batch series is first
  written one bar at a time (ranges, Wilder's average, rows); \<open>agrees\<close> then relates the state of a symbol to
  the batch computation over the bars it has seen, and every update keeps the relation.
\<close>

section \<open>The batch computation, one bar at a time\<close>

definition smooth :: "nat \<Rightarrow> rat \<Rightarrow> rat \<Rightarrow> rat" where
  "smooth n t w = w + (t - w) / of_nat n"

definition wilder :: "nat \<Rightarrow> rat list \<Rightarrow> rat option" where
  "wilder n ts =
     (if length ts < n then None else Some (fold (smooth n) (drop n ts) (sum_list (take n ts) / of_nat n)))"

lemma wilder_snoc:
  assumes "0 < n"
  shows "wilder n (ts @ [t]) =
    (case wilder n ts of
       Some w \<Rightarrow> Some (smooth n t w)
     | None \<Rightarrow> if length (ts @ [t]) = n then Some (sum_list (ts @ [t]) / of_nat n) else None)"
  using assms by (auto simp: wilder_def)

lemma oracle_smooth_some: "oracle_smooth n w (map Some ts) = map (\<lambda>j. Some (fold (smooth n) (take (Suc j) ts) w)) [0..<length ts]"
proof (induction ts arbitrary: w)
  case (Cons t ts)
  have "[0..<length (t # ts)] = 0 # map Suc [0..<length ts]" unfolding map_Suc_upt by (simp add: upt_rec)
  with Cons show ?case by (simp del: upt_Suc add: Let_def smooth_def comp_def)
qed simp

lemma valid_indices:
  "filter (\<lambda>i. (replicate k None @ map Some ts) ! i \<noteq> None) [0..<length (replicate k None @ map Some ts)] = [k..<k + length ts]"
proof -
  have "[0..<k + length ts] = [0..<k] @ [k..<k + length ts]" by (rule upt_add_eq_append) simp
  moreover have "filter (\<lambda>i. (replicate k None @ map Some ts) ! i \<noteq> None) [0..<k] = []"
    by (auto simp: filter_empty_conv nth_append)
  moreover have "filter (\<lambda>i. (replicate k None @ map Some ts) ! i \<noteq> None) [k..<k + length ts] = [k..<k + length ts]"
    by (auto simp: filter_id_conv nth_append)
  ultimately show ?thesis by simp
qed

lemma oracle_wilders_form:
  assumes n: "0 < n"
  shows "oracle_wilders True n (replicate k None @ map Some ts)
    = replicate k None @ map (\<lambda>j. wilder n (take (Suc j) ts)) [0..<length ts]"
proof (cases "length ts < n")
  case True
  have "map (\<lambda>j. wilder n (take (Suc j) ts)) [0..<length ts] = replicate (length ts) None"
    using True by (auto simp: wilder_def intro!: nth_equalityI)
  with True show ?thesis
    unfolding oracle_wilders_def Let_def valid_indices by (simp add: replicate_add)
next
  case False
  let ?trs = "replicate k None @ map Some ts"
  let ?w = "sum_list (take n ts) / of_nat n"
  have tk: "take n [k..<k + length ts] = [k..<k + n]" using False by simp
  have last: "last [k..<k + n] = k + n - 1" using n by simp
  have vals: "map (\<lambda>i. the (?trs ! i)) [k..<k + n] = take n ts"
    using False by (intro nth_equalityI) (auto simp: nth_append)
  have rest: "drop (k + n - 1 + 1) ?trs = map Some (drop n ts)" using n by (simp add: drop_map)
  have "oracle_wilders True n ?trs = replicate (k + n - 1) None @ [Some ?w] @ oracle_smooth n ?w (map Some (drop n ts))"
    unfolding oracle_wilders_def Let_def valid_indices if_True tk last vals rest using False by simp
  also have "\<dots> = replicate k None @ map (\<lambda>j. wilder n (take (Suc j) ts)) [0..<length ts]" (is "?l = ?r")
  proof (rule nth_equalityI)
    show len: "length ?l = length ?r" using False n by (simp add: oracle_smooth_some)
    fix i assume "i < length ?l"
    with len have i: "i < k + length ts" by simp
    consider "i < k" | "k \<le> i" "i < k + n - 1" | "i = k + n - 1" | "k + n \<le> i" by linarith
    then show "?l ! i = ?r ! i"
    proof cases
      case 1
      then have "i < k + n - Suc 0" using n by linarith
      with 1 show ?thesis by (simp add: nth_append)
    next
      case 2
      then show ?thesis using False by (simp add: nth_append wilder_def)
    next
      case 3
      obtain m where m: "n = Suc m" using n by (cases n) auto
      have "?r ! i = wilder n (take n ts)" using 3 m False by (simp del: upt_Suc add: nth_append)
      then show ?thesis using 3 n False by (simp add: nth_append wilder_def)
    next
      case 4
      then obtain m j where m: "n = Suc m" and j: "i = k + n + j" using n by (metis Suc_pred le_Suc_ex)
      have "j < length ts - n" using i j by linarith
      then have l: "?l ! i = Some (fold (smooth n) (take (Suc (i - (k + n))) (drop n ts)) ?w)"
        by (simp del: upt_Suc add: nth_append oracle_smooth_some j m)
      have "i - k < length ts" "\<not> i < k" using 4 i by linarith+
      then have r: "?r ! i = wilder n (take (Suc (i - k)) ts)" by (simp del: upt_Suc add: nth_append)
      have "drop n (take (Suc (i - k)) ts) = take (Suc (i - (k + n))) (drop n ts)"
        using 4 by (simp add: drop_take Suc_diff_le)
      moreover have "take n (take (Suc (i - k)) ts) = take n ts" using 4 by (simp add: min_def)
      moreover have "n \<le> length (take (Suc (i - k)) ts)" using 4 i by simp
      ultimately show ?thesis unfolding l r by (auto simp: wilder_def min_def)
    qed
  qed
  finally show ?thesis .
qed

text \<open>The ranges a session yields.\<close>

definition ranges :: "nat \<Rightarrow> atr_bar list \<Rightarrow> rat option list" where
  "ranges n xs = map (oracle_tr n xs) [0..<length xs]"

definition valid_ranges :: "nat \<Rightarrow> atr_bar list \<Rightarrow> rat list" where
  "valid_ranges n xs = map the (filter (\<lambda>t. t \<noteq> None) (ranges n xs))"

lemma oracle_tr_prefix: "i < length xs \<Longrightarrow> oracle_tr n (xs @ ys) i = oracle_tr n xs i"
proof -
  assume i: "i < length xs"
  have "take n (drop (i + 1 - n) (map bar_range (xs @ ys))) = take n (drop (i + 1 - n) (map bar_range xs))" if "n \<le> i + 1"
    using i that by (simp add: take_drop)
  with i show ?thesis by (auto simp: oracle_tr_def oracle_sma_def nth_append)
qed

lemma ranges_snoc: "ranges n (xs @ [b]) = ranges n xs @ [oracle_tr n (xs @ [b]) (length xs)]"
  by (auto simp: ranges_def oracle_tr_prefix)

lemma valid_ranges_snoc:
  "valid_ranges n (xs @ [b]) = valid_ranges n xs @ (case oracle_tr n (xs @ [b]) (length xs) of Some t \<Rightarrow> [t] | None \<Rightarrow> [])"
  by (simp add: valid_ranges_def ranges_snoc split: option.splits)

lemma oracle_tr_None: "oracle_tr n xs i = None \<longleftrightarrow> i < max 1 (n - 1)"
  by (auto simp: oracle_tr_def oracle_sma_def)

lemma ranges_form: "\<exists>k. ranges n xs = replicate k None @ map Some (valid_ranges n xs)"
proof -
  let ?m = "max 1 (n - 1)"
  have "ranges n xs = replicate (min ?m (length xs)) None @ map Some (valid_ranges n xs)"
  proof (induction xs rule: rev_induct)
    case Nil
    then show ?case by (simp add: ranges_def valid_ranges_def)
  next
    case (snoc b xs)
    show ?case
    proof (cases "length xs < ?m")
      case True
      then have "oracle_tr n (xs @ [b]) (length xs) = None" by (simp add: oracle_tr_None)
      moreover have "valid_ranges n xs = []"
        using True by (auto simp: valid_ranges_def ranges_def filter_empty_conv oracle_tr_None)
      moreover have "min ?m (length xs) = length xs" "min ?m (length (xs @ [b])) = Suc (length xs)" using True by auto
      ultimately show ?thesis
        using snoc by (simp only: ranges_snoc valid_ranges_snoc) (simp add: replicate_append_same)
    next
      case False
      then obtain t where t: "oracle_tr n (xs @ [b]) (length xs) = Some t"
        using oracle_tr_None[of n "xs @ [b]" "length xs"] by (cases "oracle_tr n (xs @ [b]) (length xs)") auto
      have "min ?m (length xs) = ?m" "min ?m (length (xs @ [b])) = ?m" using False by auto
      with snoc t show ?thesis by (simp add: ranges_snoc valid_ranges_snoc)
    qed
  qed
  then show ?thesis by blast
qed

lemma wilders_snoc:
  assumes n: "0 < n"
  shows "oracle_wilders True n (ranges n (xs @ [b]))
    = oracle_wilders True n (ranges n xs)
      @ [case oracle_tr n (xs @ [b]) (length xs) of None \<Rightarrow> None | Some t \<Rightarrow> wilder n (valid_ranges n (xs @ [b]))]"
proof -
  obtain k where k: "ranges n xs = replicate k None @ map Some (valid_ranges n xs)" using ranges_form by blast
  show ?thesis
  proof (cases "oracle_tr n (xs @ [b]) (length xs)")
    case None
    then have l: "length xs < max 1 (n - 1)" by (simp add: oracle_tr_None)
    then have v: "valid_ranges n xs = []"
      by (auto simp: valid_ranges_def ranges_def filter_empty_conv oracle_tr_None)
    have "ranges n (xs @ [b]) = replicate (Suc k) None @ map Some []"
      using k v None by (simp add: ranges_snoc replicate_append_same)
    with oracle_wilders_form[OF n, of "Suc k" "[]"] oracle_wilders_form[OF n, of k "[]"] k v None show ?thesis
      by (simp add: replicate_append_same)
  next
    case (Some t)
    have "ranges n (xs @ [b]) = replicate k None @ map Some (valid_ranges n xs @ [t])"
      using k Some by (simp add: ranges_snoc)
    moreover have "valid_ranges n (xs @ [b]) = valid_ranges n xs @ [t]" using Some by (simp add: valid_ranges_snoc)
    ultimately show ?thesis
      unfolding k by (simp only: oracle_wilders_form[OF n]) (simp add: Some)
  qed
qed

lemma wilders_length:
  assumes "0 < n"
  shows "length (oracle_wilders True n (ranges n xs)) = length xs"
proof -
  obtain k where k: "ranges n xs = replicate k None @ map Some (valid_ranges n xs)" using ranges_form by blast
  have "length (ranges n xs) = length xs" by (simp add: ranges_def)
  then show ?thesis using oracle_wilders_form[OF assms, of k "valid_ranges n xs"] k by simp
qed

text \<open>The rows as a machine: the trend and trail a row leaves for the next one.\<close>

fun row_state :: "atr_bar \<times> rat option \<times> rat option \<Rightarrow> (trend \<times> rat) option \<times> int \<Rightarrow> (trend \<times> rat) option \<times> int" where
  "row_state (b, tr, None) (cur, age) = (cur, age)"
| "row_state (b, tr, Some loss) (None, age) = (Some (Long, ab_close b - loss), 0)"
| "row_state (b, tr, Some loss) (Some (Long, t), age) =
     (if t < ab_close b then (Some (Long, max t (ab_close b - loss)), age + 1) else (Some (Short, ab_close b + loss), 0))"
| "row_state (b, tr, Some loss) (Some (Short, t), age) =
     (if ab_close b < t then (Some (Short, min t (ab_close b + loss)), age + 1) else (Some (Long, ab_close b - loss), 0))"

definition rows_end :: "(atr_bar \<times> rat option \<times> rat option) list \<Rightarrow> (trend \<times> rat) option \<times> int" where
  "rows_end xs = fold row_state xs (None, 0)"

lemma oracle_rows_append:
  "oracle_rows cur age (xs @ ys) = oracle_rows cur age xs
    @ (case fold row_state xs (cur, age) of (c, a) \<Rightarrow> oracle_rows c a ys)"
  by (induction cur age xs rule: oracle_rows.induct) (simp_all add: Let_def)

definition row_input :: "nat \<Rightarrow> rat \<Rightarrow> atr_bar list \<Rightarrow> (atr_bar \<times> rat option \<times> rat option) list" where
  "row_input n f xs = zip xs (zip (ranges n xs) (map (map_option (\<lambda>w. f * w)) (oracle_wilders True n (ranges n xs))))"

lemma compute_atr_trail_rows: "compute_atr_trail True n f xs = oracle_rows None 0 (row_input n f xs)"
  by (simp add: compute_atr_trail_def row_input_def ranges_def Let_def)

definition range_at :: "nat \<Rightarrow> atr_bar list \<Rightarrow> atr_bar \<Rightarrow> rat option" where
  "range_at n xs b = oracle_tr n (xs @ [b]) (length xs)"

definition loss_at :: "nat \<Rightarrow> rat \<Rightarrow> atr_bar list \<Rightarrow> atr_bar \<Rightarrow> rat option" where
  "loss_at n f xs b =
     (case range_at n xs b of None \<Rightarrow> None | Some t \<Rightarrow> map_option (\<lambda>w. f * w) (wilder n (valid_ranges n (xs @ [b]))))"

lemma row_input_snoc:
  assumes "0 < n"
  shows "row_input n f (xs @ [b]) = row_input n f xs @ [(b, range_at n xs b, loss_at n f xs b)]"
proof -
  have "length (ranges n xs) = length xs" by (simp add: ranges_def)
  then show ?thesis
    unfolding row_input_def wilders_snoc[OF assms] loss_at_def range_at_def
    by (simp add: ranges_snoc wilders_length[OF assms] split: option.splits)
qed

lemma rows_snoc:
  assumes "0 < n"
  shows "compute_atr_trail True n f (xs @ [b]) = compute_atr_trail True n f xs
    @ (case rows_end (row_input n f xs) of (c, a) \<Rightarrow> oracle_rows c a [(b, range_at n xs b, loss_at n f xs b)])"
  by (simp add: compute_atr_trail_rows row_input_snoc[OF assms] oracle_rows_append rows_end_def)

section \<open>The indicator agrees with the batch computation\<close>

definition agrees :: "atr_params \<Rightarrow> int \<Rightarrow> atr_bar list \<Rightarrow> atr_symbol \<Rightarrow> bool" where
  "agrees p A xs s \<longleftrightarrow>
     as_anchor s = A \<and> as_hl s = drop (length xs - ap_period p) (map bar_range xs)
     \<and> as_prev s = (if xs = [] then None else Some (last xs))
     \<and> as_wilders s = wilder (ap_period p) (valid_ranges (ap_period p) xs)
     \<and> as_seed s = take (ap_period p) (valid_ranges (ap_period p) xs)
     \<and> (case rows_end (row_input (ap_period p) (ap_factor p) xs) of (cur, age) \<Rightarrow>
          case cur of None \<Rightarrow> as_trend s = None
                    | Some (t, r) \<Rightarrow> as_trend s = Some t \<and> as_trail s = Some r \<and> as_age s = age)"

lemma window_step:
  assumes "0 < n"
  shows "drop (Suc (length (drop (length l - n) l)) - n) (drop (length l - n) l @ [x]) = drop (Suc (length l) - n) (l @ [x])"
  using assms by (cases "length l \<le> n") (simp_all add: Suc_diff_le)

lemma valid_ranges_Nil: "valid_ranges n [] = []"
  by (simp add: valid_ranges_def ranges_def)

lemma agrees_start: "0 < ap_period p \<Longrightarrow> agrees p A [] (reset_indicator A s)"
  by (simp add: agrees_def reset_indicator_def wilder_def valid_ranges_Nil row_input_def rows_end_def)

lemma agrees_cong:
  "agrees p A xs s \<Longrightarrow> as_anchor t = as_anchor s \<Longrightarrow> as_hl t = as_hl s \<Longrightarrow> as_prev t = as_prev s \<Longrightarrow> as_wilders t = as_wilders s
   \<Longrightarrow> as_seed t = as_seed s \<Longrightarrow> as_trend t = as_trend s \<Longrightarrow> as_trail t = as_trail s \<Longrightarrow> as_age t = as_age s \<Longrightarrow> agrees p A xs t"
  by (auto simp: agrees_def split: prod.splits option.splits)

text \<open>A symbol that is in the session of its bars, or has yet to enter it.\<close>

definition in_session :: "atr_params \<Rightarrow> int \<Rightarrow> atr_bar list \<Rightarrow> atr_symbol \<Rightarrow> bool" where
  "in_session p A xs s \<longleftrightarrow> agrees p A xs s \<or> xs = [] \<and> as_anchor s \<noteq> A \<and> as_seeded s \<noteq> Some A"

lemma roll_agrees:
  assumes "0 < ap_period p" "in_session p A xs s"
  shows "agrees p A xs (roll_session p so A s)"
proof (cases "agrees p A xs s")
  case True
  then have a: "as_anchor s = A" by (simp add: agrees_def)
  show ?thesis by (rule agrees_cong[OF True])
      (simp_all add: a roll_session_def restore_indicator_def session_reset_def reset_indicator_def set_atr_guard_def Let_def)
next
  case False
  with assms(2) have n: "xs = []" "as_anchor s \<noteq> A" "as_seeded s \<noteq> Some A" by (auto simp: in_session_def)
  show ?thesis unfolding n(1)
    by (rule agrees_cong[OF agrees_start[OF assms(1), of A s]])
      (use n in \<open>simp_all add: roll_session_def session_reset_def reset_indicator_def set_atr_guard_def Let_def\<close>)
qed

definition follows :: "atr_params \<Rightarrow> atr_bar \<Rightarrow> atr_bar \<Rightarrow> bool" where
  "follows p a b \<longleftrightarrow> ab_ts b - ab_ts a \<le> ATR_MAX_BAR_GAP_MS \<or> ap_attested p (ab_ts a) (ab_ts b)"

lemma next_range_at:
  assumes n: "0 < ap_period p" and l: "xs = [] \<or> follows p (last xs) b"
  shows "next_range p so (drop (Suc (length xs) - ap_period p) (map bar_range (xs @ [b]))) (if xs = [] then None else Some (last xs)) b
    = range_at (ap_period p) xs b"
proof (cases "xs = []")
  case True
  then show ?thesis by (simp add: next_range_def range_at_def oracle_tr_def)
next
  case False
  let ?n = "ap_period p" and ?h = "map bar_range (xs @ [b])"
  have "\<not> (ATR_MAX_BAR_GAP_MS < gap_ms (Some (last xs)) b \<and> \<not> (so \<or> ap_attested p (ab_ts (last xs)) (ab_ts b)))"
    using l False by (auto simp: gap_ms_def follows_def ATR_MAX_BAR_GAP_MS_def)
  moreover have "take ?n (drop (Suc (length xs) - ?n) ?h) = drop (Suc (length xs) - ?n) ?h" if "?n \<le> Suc (length xs)"
    using that by (simp add: take_all)
  moreover have "(xs @ [b]) ! (length xs - 1) = last xs" using False by (simp add: nth_append last_conv_nth)
  ultimately show ?thesis
    using False unfolding next_range_def range_at_def oracle_tr_def oracle_sma_def by (auto simp: Let_def simp del: map_append)
qed

lemma loss_at_wilder:
  assumes "0 < n"
  shows "loss_at n f xs b = map_option (\<lambda>w. f * w) (wilder n (valid_ranges n (xs @ [b])))"
proof (cases "range_at n xs b")
  case None
  then have "oracle_tr n (xs @ [b]) (length xs) = None" "length xs < max 1 (n - 1)"
    by (simp_all add: range_at_def oracle_tr_None)
  then have "valid_ranges n (xs @ [b]) = []"
    by (auto simp: valid_ranges_snoc valid_ranges_def ranges_def filter_empty_conv oracle_tr_None)
  with None assms show ?thesis by (simp add: loss_at_def wilder_def)
qed (simp add: loss_at_def)

lemma wilders_step_keeps [simp]:
  "as_anchor (wilders_step p tr s) = as_anchor s" "as_hl (wilders_step p tr s) = as_hl s"
  "as_prev (wilders_step p tr s) = as_prev s" "as_trend (wilders_step p tr s) = as_trend s"
  "as_trail (wilders_step p tr s) = as_trail s" "as_age (wilders_step p tr s) = as_age s"
  "as_short_ts (wilders_step p tr s) = as_short_ts s"
  by (simp_all add: wilders_step_def split: option.splits)

lemma wilders_step_at:
  assumes n: "0 < ap_period p" and w: "as_wilders s = wilder (ap_period p) (valid_ranges (ap_period p) xs)"
    and d: "as_seed s = take (ap_period p) (valid_ranges (ap_period p) xs)"
  shows "as_wilders (wilders_step p (range_at (ap_period p) xs b) s) = wilder (ap_period p) (valid_ranges (ap_period p) (xs @ [b]))"
    and "as_seed (wilders_step p (range_at (ap_period p) xs b) s) = take (ap_period p) (valid_ranges (ap_period p) (xs @ [b]))"
proof -
  let ?n = "ap_period p" and ?v = "valid_ranges (ap_period p) xs"
  have v: "valid_ranges ?n (xs @ [b]) = ?v @ (case range_at ?n xs b of Some t \<Rightarrow> [t] | None \<Rightarrow> [])"
    by (simp add: valid_ranges_snoc range_at_def)
  show "as_wilders (wilders_step p (range_at ?n xs b) s) = wilder ?n (valid_ranges ?n (xs @ [b]))"
  proof (cases "range_at ?n xs b")
    case (Some t)
    show ?thesis
      using n by (cases "length ?v < ?n") (simp_all add: Some v w d wilders_step_def wilder_snoc[OF n] smooth_def wilder_def)
  qed (simp add: v w wilders_step_def)
  show "as_seed (wilders_step p (range_at ?n xs b) s) = take ?n (valid_ranges ?n (xs @ [b]))"
    by (cases "length ?v < ?n") (simp_all add: v w d wilders_step_def wilder_def split: option.splits)
qed

text \<open>The trend, the trail and the age of a symbol, as the loop of the batch computation holds them.\<close>

definition trend_is :: "(trend \<times> rat) option \<times> int \<Rightarrow> atr_symbol \<Rightarrow> bool" where
  "trend_is c s \<longleftrightarrow>
     (case fst c of None \<Rightarrow> as_trend s = None
                  | Some (t, r) \<Rightarrow> as_trend s = Some t \<and> as_trail s = Some r \<and> as_age s = snd c)"

lemma open_short_keeps [simp]:
  "as_anchor (open_short p so b s) = as_anchor s" "as_hl (open_short p so b s) = as_hl s"
  "as_prev (open_short p so b s) = as_prev s" "as_wilders (open_short p so b s) = as_wilders s"
  "as_seed (open_short p so b s) = as_seed s" "as_trend (open_short p so b s) = as_trend s"
  "as_trail (open_short p so b s) = as_trail s" "as_age (open_short p so b s) = as_age s"
  "as_short_ts (open_short p so b s) = ab_ts b"
  by (simp_all add: open_short_def set_atr_guard_def Let_def)

lemma flip_step_keeps:
  assumes "flip_step p so loss b s = (fl, lv, t)"
  shows "as_anchor t = as_anchor s" "as_hl t = as_hl s" "as_prev t = as_prev s" "as_wilders t = as_wilders s" "as_seed t = as_seed s"
  using assms by (auto simp: flip_step_def Let_def split: option.splits trend.splits if_splits)

lemma flip_step_row:
  assumes "trend_is (cur, age) s" "flip_step p so loss b s = (fl, lv, t)"
  shows "trend_is (row_state (b, tr, Some loss) (cur, age)) t
    \<and> oracle_rows cur age [(b, tr, Some loss)]
        = [make_row b tr (Some loss) (as_trail t) (as_trend t) fl (Some (as_age t))]
    \<and> as_trail t \<noteq> None \<and> as_trend t \<noteq> None"
proof (cases cur)
  case None
  with assms show ?thesis by (auto simp: trend_is_def flip_step_def Let_def)
next
  case (Some c)
  obtain d r where c: "c = (d, r)" by force
  with Some assms(1) have s: "as_trend s = Some d" "as_trail s = Some r" "as_age s = age" by (auto simp: trend_is_def)
  show ?thesis
    using assms(2) s by (cases d) (auto simp: Some c trend_is_def flip_step_def Let_def split: if_splits)
qed

lemma claim_touch_keeps [simp]:
  "as_anchor (claim_touch p x b s) = as_anchor s" "as_hl (claim_touch p x b s) = as_hl s"
  "as_prev (claim_touch p x b s) = as_prev s" "as_wilders (claim_touch p x b s) = as_wilders s"
  "as_seed (claim_touch p x b s) = as_seed s" "as_trend (claim_touch p x b s) = as_trend s"
  "as_trail (claim_touch p x b s) = as_trail s" "as_age (claim_touch p x b s) = as_age s"
  "as_short_ts (claim_touch p x b s) = as_short_ts s"
  by (simp_all add: claim_touch_def split: option.splits)

lemma agrees_trend: "agrees p A xs s \<Longrightarrow> trend_is (rows_end (row_input (ap_period p) (ap_factor p) xs)) s"
  by (auto simp: agrees_def trend_is_def split: prod.splits option.splits)

text \<open>What a signal says of a row.\<close>

definition same_signal :: "atr_signal option \<Rightarrow> oracle_row \<Rightarrow> bool" where
  "same_signal sig row \<longleftrightarrow>
     (case sig of
        None \<Rightarrow> ow_loss row = None \<and> ow_trail row = None \<and> ow_trend row = None \<and> ow_flip row = None \<and> ow_age row = None
      | Some g \<Rightarrow> ow_ts row = sg_ts g \<and> ow_loss row = Some (round4 (sg_loss g)) \<and> ow_trail row = Some (round4 (sg_trail g))
          \<and> ow_trend row = Some (sg_trend g) \<and> ow_flip row = sg_flip g \<and> ow_age row = Some (sg_age g))"

lemma update_atr_eq:
  assumes "roll_session p so (ap_anchor p (ab_ts b)) s = q"
    and "drop (Suc (length (as_hl q)) - ap_period p) (as_hl q @ [bar_range b]) = h"
    and "next_range p (so \<and> sg) h (as_prev q) b = tr"
    and "(wilders_step p tr (q\<lparr>as_hl := h\<rparr>))\<lparr>as_prev := Some b\<rparr> = m"
  shows "update_atr p so sg b s = signal_step p so b (as_prev q) m"
  unfolding update_atr_def Let_def assms ..

lemma signal_step_some:
  assumes "signal_step p so b prev m = (sig, t)" "as_wilders m = Some v"
  obtains fl lv s3 g where "flip_step p so (ap_factor p * v) b (claim_touch p (atr_touched p so b m) b m) = (fl, lv, s3)"
    and "sig = Some g" "sg_loss g = ap_factor p * v" "sg_ts g = ab_ts b" "sg_flip g = fl" "sg_age g = as_age s3"
    and "sg_trail g = (case as_trail s3 of Some x \<Rightarrow> x | None \<Rightarrow> 0)" "sg_trend g = (case as_trend s3 of Some x \<Rightarrow> x | None \<Rightarrow> Long)"
    and "sg_touch g = atr_touched p so b m" "sg_flip_level g = lv" "sg_short_id g = as_short_ts m"
    and "t = s3\<lparr>as_prev_trail := as_trail s3, as_prev_trend := as_trend s3\<rparr>"
proof -
  obtain fl lv s3 where "flip_step p so (ap_factor p * v) b (claim_touch p (atr_touched p so b m) b m) = (fl, lv, s3)"
    by (metis prod_cases3)
  with assms that show ?thesis by (auto simp: signal_step_def Let_def)
qed

lemma agreesI:
  assumes "as_anchor s = A" "as_hl s = drop (length xs - ap_period p) (map bar_range xs)"
    "as_prev s = (if xs = [] then None else Some (last xs))" "as_wilders s = wilder (ap_period p) (valid_ranges (ap_period p) xs)"
    "as_seed s = take (ap_period p) (valid_ranges (ap_period p) xs)"
    "trend_is (rows_end (row_input (ap_period p) (ap_factor p) xs)) s"
  shows "agrees p A xs s"
  using assms by (auto simp: agrees_def trend_is_def split: prod.splits option.splits)

lemma trend_is_cong:
  "trend_is c s \<Longrightarrow> as_trend t = as_trend s \<Longrightarrow> as_trail t = as_trail s \<Longrightarrow> as_age t = as_age s \<Longrightarrow> trend_is c t"
  by (auto simp: trend_is_def split: prod.splits option.splits)

lemma signal_step_row:
  assumes c: "trend_is (cur, age) m" and u: "signal_step p so b prev m = (sig, t)"
    and L: "L = map_option (\<lambda>w. ap_factor p * w) (as_wilders m)"
  shows "trend_is (row_state (b, tr, L) (cur, age)) t" "\<exists>row. oracle_rows cur age [(b, tr, L)] = [row] \<and> same_signal sig row"
    "as_anchor t = as_anchor m" "as_hl t = as_hl m" "as_prev t = as_prev m" "as_wilders t = as_wilders m" "as_seed t = as_seed m"
proof -
  have "trend_is (row_state (b, tr, L) (cur, age)) t \<and> (\<exists>row. oracle_rows cur age [(b, tr, L)] = [row] \<and> same_signal sig row)
    \<and> as_anchor t = as_anchor m \<and> as_hl t = as_hl m \<and> as_prev t = as_prev m \<and> as_wilders t = as_wilders m \<and> as_seed t = as_seed m"
  proof (cases "as_wilders m")
    case None
    with u c show ?thesis by (simp add: L signal_step_def same_signal_def make_row_def)
  next
    case (Some v)
    let ?c = "claim_touch p (atr_touched p so b m) b m"
    from signal_step_some[OF u Some] obtain fl lv s3 g where
      fs: "flip_step p so (ap_factor p * v) b ?c = (fl, lv, s3)"
      and sg: "sig = Some g" "sg_loss g = ap_factor p * v" "sg_ts g = ab_ts b" "sg_flip g = fl" "sg_age g = as_age s3"
        "sg_trail g = (case as_trail s3 of Some x \<Rightarrow> x | None \<Rightarrow> 0)" "sg_trend g = (case as_trend s3 of Some x \<Rightarrow> x | None \<Rightarrow> Long)"
      and t: "t = s3\<lparr>as_prev_trail := as_trail s3, as_prev_trend := as_trend s3\<rparr>"
      by metis
    have "trend_is (cur, age) ?c" by (rule trend_is_cong[OF c]) simp_all
    note row = flip_step_row[OF this fs, of tr]
    have "trend_is (row_state (b, tr, L) (cur, age)) t"
      by (rule trend_is_cong[of _ s3]) (use row in \<open>simp_all add: t L Some\<close>)
    moreover have "same_signal sig (make_row b tr (Some (ap_factor p * v)) (as_trail s3) (as_trend s3) fl (Some (as_age s3)))"
      using row sg by (auto simp: same_signal_def make_row_def)
    ultimately show ?thesis using row flip_step_keeps[OF fs] by (simp add: t L Some)
  qed
  then show "trend_is (row_state (b, tr, L) (cur, age)) t" "\<exists>row. oracle_rows cur age [(b, tr, L)] = [row] \<and> same_signal sig row"
    "as_anchor t = as_anchor m" "as_hl t = as_hl m" "as_prev t = as_prev m" "as_wilders t = as_wilders m" "as_seed t = as_seed m"
    by simp_all
qed

lemma update_atr_agrees:
  assumes n: "0 < ap_period p" and s: "in_session p A xs s" and a: "ap_anchor p (ab_ts b) = A"
    and l: "xs = [] \<or> follows p (last xs) b" and u: "update_atr p so False b s = (sig, t)"
  shows "agrees p A (xs @ [b]) t
    \<and> (\<exists>row. compute_atr_trail True (ap_period p) (ap_factor p) (xs @ [b])
          = compute_atr_trail True (ap_period p) (ap_factor p) xs @ [row] \<and> same_signal sig row)"
proof -
  let ?n = "ap_period p" and ?f = "ap_factor p"
  let ?s = "roll_session p so A s" and ?h = "drop (Suc (length xs) - ap_period p) (map bar_range (xs @ [b]))"
  let ?m = "(wilders_step p (range_at ?n xs b) (?s\<lparr>as_hl := ?h\<rparr>))\<lparr>as_prev := Some b\<rparr>"
  obtain cur age where e: "rows_end (row_input ?n ?f xs) = (cur, age)" by force
  from roll_agrees[OF n s, of so] have r: "agrees p A xs ?s" .
  then have f: "as_anchor ?s = A" "as_hl ?s = drop (length xs - ?n) (map bar_range xs)"
      "as_prev ?s = (if xs = [] then None else Some (last xs))"
      "as_wilders ?s = wilder ?n (valid_ranges ?n xs)" "as_seed ?s = take ?n (valid_ranges ?n xs)"
    and tr: "trend_is (cur, age) ?s" using agrees_trend[OF r] e by (auto simp: agrees_def)
  have h: "drop (Suc (length (as_hl ?s)) - ?n) (as_hl ?s @ [bar_range b]) = ?h"
    using window_step[OF n, of "map bar_range xs" "bar_range b"] by (simp add: f(2))
  have g: "next_range p False ?h (as_prev ?s) b = range_at ?n xs b" unfolding f(3) by (rule next_range_at[OF n l])
  have w: "as_wilders ?m = wilder ?n (valid_ranges ?n (xs @ [b]))" "as_seed ?m = take ?n (valid_ranges ?n (xs @ [b]))"
    using wilders_step_at[OF n, of "?s\<lparr>as_hl := ?h\<rparr>" xs b] f(4,5) by simp_all
  have c: "trend_is (cur, age) ?m" by (rule trend_is_cong[OF tr]) simp_all
  have "update_atr p so False b s = signal_step p so b (as_prev ?s) ?m"
    by (rule update_atr_eq[OF _ h]) (simp_all only: a g simp_thms)
  with u have st: "signal_step p so b (as_prev ?s) ?m = (sig, t)" by simp
  have loss: "loss_at ?n ?f xs b = map_option (\<lambda>w. ?f * w) (as_wilders ?m)" unfolding w(1) by (rule loss_at_wilder[OF n])
  note row = signal_step_row(1,2)[OF c st loss, where tr = "range_at ?n xs b"] signal_step_row(3-7)[OF c st loss]
  have "agrees p A (xs @ [b]) t"
    by (rule agreesI) (use row f(1) w in \<open>simp_all add: row_input_snoc[OF n] rows_end_def e[unfolded rows_end_def]\<close>)
  moreover have "compute_atr_trail True ?n ?f (xs @ [b])
      = compute_atr_trail True ?n ?f xs @ oracle_rows cur age [(b, range_at ?n xs b, loss_at ?n ?f xs b)]"
    by (simp add: rows_snoc[OF n] e)
  ultimately show ?thesis using row(2) by auto
qed

lemma update_all_agrees:
  assumes n: "0 < ap_period p"
  shows "in_session p A xs s \<Longrightarrow> (\<forall>b \<in> set ys. ap_anchor p (ab_ts b) = A) \<Longrightarrow> successively (follows p) (xs @ ys)
    \<Longrightarrow> update_all p so ys s = (sigs, t)
    \<Longrightarrow> in_session p A (xs @ ys) t \<and> (ys \<noteq> [] \<longrightarrow> as_anchor t = A)
      \<and> (\<exists>rows. compute_atr_trail True (ap_period p) (ap_factor p) (xs @ ys)
            = compute_atr_trail True (ap_period p) (ap_factor p) xs @ rows \<and> list_all2 same_signal sigs rows)"
proof (induction ys arbitrary: xs s sigs)
  case (Cons b ys)
  obtain sig q where q: "update_atr p so False b s = (sig, q)" by force
  from q Cons.prems(4) obtain more_sigs where r: "update_all p so ys q = (more_sigs, t)" and st: "sigs = sig # more_sigs"
    by (auto split: prod.splits)
  have l: "xs = [] \<or> follows p (last xs) b" using Cons.prems(3) by (auto simp: successively_append_iff)
  have ab: "ap_anchor p (ab_ts b) = A" using Cons.prems(2) by simp
  from update_atr_agrees[OF n Cons.prems(1) ab l q] obtain row where
    ag: "agrees p A (xs @ [b]) q" and row: "same_signal sig row"
      "compute_atr_trail True (ap_period p) (ap_factor p) (xs @ [b]) = compute_atr_trail True (ap_period p) (ap_factor p) xs @ [row]"
    by blast
  have "in_session p A (xs @ [b]) q" using ag by (simp add: in_session_def)
  from Cons.IH[OF this _ _ r] Cons.prems(2,3) obtain rows where
    "in_session p A (xs @ b # ys) t" "ys \<noteq> [] \<longrightarrow> as_anchor t = A" "list_all2 same_signal more_sigs rows"
    "compute_atr_trail True (ap_period p) (ap_factor p) (xs @ b # ys)
      = compute_atr_trail True (ap_period p) (ap_factor p) (xs @ [b]) @ rows"
    by auto
  moreover have "ys = [] \<Longrightarrow> as_anchor t = A" using ag r st by (simp add: agrees_def)
  ultimately show ?case using row st by auto
qed simp

definition row_flips :: "oracle_row list \<Rightarrow> (int \<times> flip) list" where
  "row_flips = List.map_filter (\<lambda>row. map_option (\<lambda>f. (ow_ts row, f)) (ow_flip row))"

lemma update_all_length: "update_all p so bs s = (sigs, t) \<Longrightarrow> length sigs = length bs"
  by (induction bs arbitrary: s sigs) (auto split: prod.splits)

lemma rows_length: "length (oracle_rows cur age xs) = length xs"
  by (induction cur age xs rule: oracle_rows.induct) (simp_all add: Let_def)

lemma ranges_length: "length (ranges n xs) = length xs"
  by (simp add: ranges_def)

lemma compute_atr_trail_length: "0 < n \<Longrightarrow> length (compute_atr_trail True n f xs) = length xs"
  by (simp add: compute_atr_trail_rows rows_length row_input_def wilders_length ranges_length)

lemma rows_ts: "map ow_ts (oracle_rows cur age xs) = map (\<lambda>x. ab_ts (fst x)) xs"
  by (induction cur age xs rule: oracle_rows.induct) (simp_all add: Let_def make_row_def)

lemma compute_atr_trail_ts: "0 < n \<Longrightarrow> map ow_ts (compute_atr_trail True n f xs) = map ab_ts xs"
proof -
  assume n: "0 < n"
  have "map fst (row_input n f xs) = xs" by (simp add: row_input_def wilders_length[OF n] ranges_length)
  then have "map (\<lambda>x. ab_ts (fst x)) (row_input n f xs) = map ab_ts xs" using map_map[of ab_ts fst "row_input n f xs"] by (simp add: comp_def)
  then show ?thesis by (simp add: compute_atr_trail_rows rows_ts)
qed

lemma flips_of_rows:
  "list_all2 same_signal sigs rows \<Longrightarrow> map ow_ts rows = map ab_ts bs \<Longrightarrow>
   List.map_filter (\<lambda>(b, sig). Option.bind sig (\<lambda>g. map_option (\<lambda>f. (ab_ts b, f)) (sg_flip g))) (zip bs sigs) = row_flips rows"
proof (induction sigs rows arbitrary: bs rule: list_all2_induct)
  case (Cons sig sigs row rows)
  from Cons.prems obtain b bs' where b: "bs = b # bs'" "ow_ts row = ab_ts b" "map ow_ts rows = map ab_ts bs'" by (cases bs) auto
  have "Option.bind sig (\<lambda>g. map_option (\<lambda>f. (ab_ts b, f)) (sg_flip g)) = map_option (\<lambda>f. (ow_ts row, f)) (ow_flip row)"
    using Cons.hyps(1) b(2) by (cases sig) (auto simp: same_signal_def)
  with Cons.IH[OF b(3)] b(1) show ?case by (simp add: row_flips_def map_filter_simps split: option.splits)
qed (simp add: row_flips_def map_filter_simps)

end
