(* ===== verification/AtrFlipSpec.thy ===== *)
theory AtrFlipSpec
  imports AtrOracleSpec
begin

text \<open>
  Safety of the ATR flip entries over the life of a symbol: one entry per short segment (variant B), entries
  of the confirmed window only after the wait, the trail as a ratchet between flips, and the equality of the
  live series, warm start included, with the backtest. The last section
  replays small sessions for the witnesses and one session with a gap.
\<close>

section \<open>One entry per short segment\<close>

text \<open>The segment is spent: no touch, and no entry at the flip, is taken from it.\<close>

definition spent :: "atr_params \<Rightarrow> atr_symbol \<Rightarrow> bool" where
  "spent p s \<longleftrightarrow> (if ap_rearm p then as_guard s \<noteq> Unclaimed else as_fired s)"

definition level_rolled :: "atr_symbol \<Rightarrow> bool" where
  "level_rolled s \<longleftrightarrow> as_prev_trend s = as_trend s \<and> as_prev_trail s = as_trail s"

lemma roll_same_session:
  "as_anchor s = A \<Longrightarrow> as_seeded s \<noteq> Some A \<Longrightarrow> roll_session p so A s = s"
  by (simp add: roll_session_def)

lemma roll_level_rolled: "level_rolled s \<Longrightarrow> level_rolled (roll_session p so A s)"
  by (auto simp: level_rolled_def roll_session_def restore_indicator_def session_reset_def reset_indicator_def set_atr_guard_def Let_def)

lemma roll_anchor: "as_seeded s \<noteq> Some A \<Longrightarrow> as_anchor (roll_session p so A s) = A"
  by (simp add: roll_session_def session_reset_def reset_indicator_def set_atr_guard_def Let_def)

lemma roll_seeded: "as_seeded s \<noteq> Some A \<Longrightarrow> as_seeded (roll_session p so A s) = as_seeded s"
  by (simp add: roll_session_def session_reset_def reset_indicator_def set_atr_guard_def Let_def)

definition sells :: "atr_signal option \<Rightarrow> bool" where
  "sells sig \<longleftrightarrow> Option.bind sig sg_flip = Some Sell_flip"

lemma wilders_step_keeps_guard [simp]:
  "as_prev_trend (wilders_step p tr s) = as_prev_trend s" "as_prev_trail (wilders_step p tr s) = as_prev_trail s"
  "as_fired (wilders_step p tr s) = as_fired s" "as_guard (wilders_step p tr s) = as_guard s"
  "as_hold (wilders_step p tr s) = as_hold s" "as_quote (wilders_step p tr s) = as_quote s"
  "as_seeded (wilders_step p tr s) = as_seeded s"
  by (simp_all add: wilders_step_def split: option.splits)

lemma claim_touch_keeps_guard [simp]:
  "as_guard (claim_touch p x b s) = as_guard s" "as_quote (claim_touch p x b s) = as_quote s"
  "as_seeded (claim_touch p x b s) = as_seeded s" "as_hold (claim_touch p x b s) = as_hold s"
  "as_prev_trend (claim_touch p x b s) = as_prev_trend s" "as_prev_trail (claim_touch p x b s) = as_prev_trail s"
  by (simp_all add: claim_touch_def split: option.splits)

lemma flip_step_guard:
  assumes "flip_step p so loss b s = (fl, lv, t)"
  shows "as_seeded t = as_seeded s" "as_quote t = as_quote s"
    "fl \<noteq> Some Sell_flip \<Longrightarrow> as_fired t = as_fired s \<and> as_guard t = as_guard s"
    "as_trend s = Some Short \<Longrightarrow> fl \<noteq> Some Sell_flip"
  using assms by (auto simp: flip_step_def open_short_def set_atr_guard_def Let_def split: option.splits trend.splits if_splits)

text \<open>An update in the session of the symbol.\<close>

lemma signal_step_guard:
  assumes "signal_step p so b prev m = (sig, t)"
  shows "as_seeded t = as_seeded m" "as_anchor t = as_anchor m" "as_quote t = as_quote m"
    "level_rolled m \<Longrightarrow> level_rolled t" "\<not> sells sig \<Longrightarrow> spent p m \<Longrightarrow> spent p t"
    "sig = Some g \<Longrightarrow> sg_touch g = atr_touched p so b m"
    "sig = Some g \<Longrightarrow> sg_touch g = Some v \<Longrightarrow> level_rolled m \<Longrightarrow> \<not> sells sig \<and> (\<not> ap_rearm p \<longrightarrow>
       as_fired t = (as_fired m \<or> floor_allows v \<and> floor_allows (ab_close b)
         \<and> (case as_quote m of None \<Rightarrow> True | Some ask \<Rightarrow> floor_allows ask)))"
    "sig = Some g \<Longrightarrow> \<not> sells sig \<Longrightarrow> as_guard t = as_guard m"
proof -
  have "as_seeded t = as_seeded m \<and> as_anchor t = as_anchor m \<and> as_quote t = as_quote m \<and> (level_rolled m \<longrightarrow> level_rolled t)
    \<and> (\<not> sells sig \<longrightarrow> spent p m \<longrightarrow> spent p t) \<and> (sig = Some g \<longrightarrow> sg_touch g = atr_touched p so b m)
    \<and> (sig = Some g \<longrightarrow> \<not> sells sig \<longrightarrow> as_guard t = as_guard m)
    \<and> (sig = Some g \<longrightarrow> sg_touch g = Some v \<longrightarrow> level_rolled m \<longrightarrow> \<not> sells sig \<and> (\<not> ap_rearm p \<longrightarrow>
       as_fired t = (as_fired m \<or> floor_allows v \<and> floor_allows (ab_close b)
         \<and> (case as_quote m of None \<Rightarrow> True | Some ask \<Rightarrow> floor_allows ask))))"
  proof (cases "as_wilders m")
    case None
    with assms show ?thesis by (auto simp: signal_step_def)
  next
    case (Some w)
    let ?c = "claim_touch p (atr_touched p so b m) b m"
    from signal_step_some[OF assms Some] obtain fl lv s3 g' where
      fs: "flip_step p so (ap_factor p * w) b ?c = (fl, lv, s3)" and sg: "sig = Some g'" "sg_flip g' = fl"
        "sg_touch g' = atr_touched p so b m"
      and t: "t = s3\<lparr>as_prev_trail := as_trail s3, as_prev_trend := as_trend s3\<rparr>" by metis
    note k = flip_step_guard[OF fs] flip_step_keeps[OF fs]
    have "spent p m \<Longrightarrow> spent p ?c" by (auto simp: spent_def claim_touch_def split: option.splits)
    moreover have "as_trend m = Some Short" if "atr_touched p so b m = Some v" "level_rolled m"
      using that by (auto simp: atr_touched_def level_rolled_def split: if_splits)
    moreover have "as_fired ?c = (as_fired m \<or> floor_allows v \<and> floor_allows (ab_close b)
         \<and> (case as_quote m of None \<Rightarrow> True | Some ask \<Rightarrow> floor_allows ask))" if "atr_touched p so b m = Some v" "\<not> ap_rearm p"
      using that by (auto simp: claim_touch_def)
    ultimately show ?thesis using k sg by (auto simp: t sells_def spent_def level_rolled_def)
  qed
  then show "as_seeded t = as_seeded m" "as_anchor t = as_anchor m" "as_quote t = as_quote m"
    "level_rolled m \<Longrightarrow> level_rolled t" "\<not> sells sig \<Longrightarrow> spent p m \<Longrightarrow> spent p t"
    "sig = Some g \<Longrightarrow> sg_touch g = atr_touched p so b m"
    "sig = Some g \<Longrightarrow> sg_touch g = Some v \<Longrightarrow> level_rolled m \<Longrightarrow> \<not> sells sig \<and> (\<not> ap_rearm p \<longrightarrow>
       as_fired t = (as_fired m \<or> floor_allows v \<and> floor_allows (ab_close b)
         \<and> (case as_quote m of None \<Rightarrow> True | Some ask \<Rightarrow> floor_allows ask)))"
    "sig = Some g \<Longrightarrow> \<not> sells sig \<Longrightarrow> as_guard t = as_guard m"
    by blast+
qed

definition fresh_in :: "int \<Rightarrow> atr_symbol \<Rightarrow> bool" where
  "fresh_in A s \<longleftrightarrow> as_seeded s \<noteq> Some A \<and> level_rolled s"

definition locked :: "atr_params \<Rightarrow> int \<Rightarrow> atr_symbol \<Rightarrow> bool" where
  "locked p A s \<longleftrightarrow> as_anchor s = A \<and> spent p s"

lemma roll_quote: "as_quote (roll_session p so A s) = as_quote s"
  by (simp add: roll_session_def session_reset_def reset_indicator_def restore_indicator_def set_atr_guard_def Let_def)

lemma update_atr_fresh:
  assumes u: "update_atr p so sg b s = (sig, t)" and a: "ap_anchor p (ab_ts b) = A" and f: "fresh_in A s"
  shows "fresh_in A t" "as_anchor t = A" "locked p A s \<Longrightarrow> \<not> sells sig \<Longrightarrow> locked p A t"
    and "sig = Some g \<Longrightarrow> sg_touch g = Some v \<Longrightarrow> \<not> locked p A s \<and> \<not> sells sig"
    and "sig = Some g \<Longrightarrow> sg_touch g = Some v \<Longrightarrow> \<not> ap_rearm p \<Longrightarrow> floor_allows v \<Longrightarrow> floor_allows (ab_close b)
      \<Longrightarrow> (\<forall>ask. as_quote t = Some ask \<longrightarrow> floor_allows ask) \<Longrightarrow> as_fired t"
proof -
  let ?s = "roll_session p so A s"
  obtain h tr where m: "update_atr p so sg b s
      = signal_step p so b (as_prev ?s) ((wilders_step p tr (?s\<lparr>as_hl := h\<rparr>))\<lparr>as_prev := Some b\<rparr>)"
    using update_atr_eq[OF _ refl refl refl, of p so b s ?s sg] a by blast
  let ?m = "(wilders_step p tr (?s\<lparr>as_hl := h\<rparr>))\<lparr>as_prev := Some b\<rparr>"
  have st: "signal_step p so b (as_prev ?s) ?m = (sig, t)" using u m by simp
  note k = signal_step_guard[OF st]
  have f': "as_seeded s \<noteq> Some A" "level_rolled s" using f by (simp_all add: fresh_in_def)
  have lv: "level_rolled ?m" using roll_level_rolled[OF f'(2), of p so A] by (simp add: level_rolled_def)
  have an: "as_anchor ?m = A" using roll_anchor[OF f'(1)] by simp
  have sd: "as_seeded ?m \<noteq> Some A" using f'(1) by (simp add: roll_seeded)
  have sp: "spent p ?m" if "locked p A s" using that roll_same_session[OF _ f'(1), of p so] by (auto simp: locked_def spent_def)
  show "fresh_in A t" using k(1,4) lv sd by (simp add: fresh_in_def)
  show "as_anchor t = A" using k(2) an by simp
  then show "locked p A t" if "locked p A s" "\<not> sells sig" using that sp k(5) by (simp add: locked_def)
  show "\<not> locked p A s \<and> \<not> sells sig" if g: "sig = Some g" "sg_touch g = Some v"
  proof -
    have "atr_touched p so b ?m = Some v" using k(6)[OF g(1)] g(2) by simp
    then have "\<not> spent p ?m" by (auto simp: atr_touched_def segment_free_def spent_def split: if_splits)
    with sp k(7)[OF g lv] show ?thesis by blast
  qed
  show "as_fired t" if "sig = Some g" "sg_touch g = Some v" "\<not> ap_rearm p" "floor_allows v" "floor_allows (ab_close b)"
      "\<forall>ask. as_quote t = Some ask \<longrightarrow> floor_allows ask"
    using k(7)[OF that(1,2) lv] that k(3) by (auto split: option.splits)
qed

text \<open>An entry of variant B.\<close>

lemma variant_B_entry:
  assumes "maybe_atr_emit p sizing volume now b sig True t = (Some d, u)" "\<not> ap_cw p" "\<not> ap_variant_A p"
  obtains g where "sig = Some g" "floor_allows (dr_entry d)" "floor_allows (ab_close b)"
    "\<forall>ask. as_quote t = Some ask \<longrightarrow> floor_allows ask"
    "sg_touch g = Some (dr_entry d) \<or> ap_rearm p \<and> sg_flip g = Some Buy_flip \<and> as_guard t = Unclaimed"
    "as_seeded u = as_seeded t" "as_anchor u = as_anchor t" "level_rolled u = level_rolled t"
    "as_fired u = as_fired t" "ap_rearm p \<Longrightarrow> as_guard u = Provisional"
  using assms
  by (auto simp: maybe_atr_emit_def atr_entry_price_def sized_open_def draft_of_def set_atr_guard_def level_rolled_def Let_def
      split: option.splits if_splits)

lemma no_entry_keeps:
  "maybe_atr_emit p sizing volume now b sig True t = (None, u) \<Longrightarrow> \<not> ap_cw p \<Longrightarrow> u = t"
  by (auto simp: maybe_atr_emit_def split: option.splits if_splits)

fun in_day :: "atr_params \<Rightarrow> int \<Rightarrow> atr_label \<Rightarrow> bool" where
  "in_day p A (Closed b sig d) \<longleftrightarrow> ap_anchor p (ab_ts b) = A"
| "in_day p A (Observed b sig) \<longleftrightarrow> ap_anchor p (ab_ts b) = A"
| "in_day p A (Shadowed b sig) \<longleftrightarrow> ap_anchor p (ab_ts b) = A"
| "in_day p A l \<longleftrightarrow> True"

fun reopens :: "atr_label \<Rightarrow> bool" where
  "reopens (Closed b sig d) = sells sig"
| "reopens (Observed b sig) = sells sig"
| "reopens (Shadowed b sig) = sells sig"
| "reopens Released = True"
| "reopens Between = False"

lemma entry_step:
  assumes "atr_step p sizing s (Closed b sig (Some d)) u" "ap_anchor p (ab_ts b) = A" "fresh_in A s" "\<not> ap_cw p" "\<not> ap_variant_A p"
  shows "\<not> locked p A s \<and> locked p A u \<and> fresh_in A u"
  using assms(1)
proof (cases rule: atr_step.cases)
  case (atr_closed t volume now)
  obtain g where g: "sig = Some g" "floor_allows (dr_entry d)" "floor_allows (ab_close b)"
    "\<forall>ask. as_quote t = Some ask \<longrightarrow> floor_allows ask"
    "sg_touch g = Some (dr_entry d) \<or> ap_rearm p \<and> sg_flip g = Some Buy_flip \<and> as_guard t = Unclaimed"
    and u: "as_seeded u = as_seeded t" "as_anchor u = as_anchor t" "level_rolled u = level_rolled t"
    "as_fired u = as_fired t" "ap_rearm p \<Longrightarrow> as_guard u = Provisional"
    using variant_B_entry[OF atr_closed(2) assms(4,5)] by metis
  note k = update_atr_fresh[OF atr_closed(1) assms(2,3)]
  have "\<not> locked p A s"
  proof (cases "sg_touch g = Some (dr_entry d)")
    case True
    then show ?thesis using k(4)[OF g(1)] by blast
  next
    case False
    with g(5) have f: "ap_rearm p" "sg_flip g = Some Buy_flip" "as_guard t = Unclaimed" by blast+
    then have "\<not> sells sig" "\<not> locked p A t" by (simp_all add: g(1) sells_def locked_def spent_def)
    with k(3) show ?thesis by blast
  qed
  moreover have "locked p A u"
    using k(2) k(5)[OF g(1) _ _ g(2,3,4)] g(5) u by (auto simp: locked_def spent_def)
  ultimately show ?thesis using k(1) u by (simp add: fresh_in_def)
qed (simp split: if_splits)

lemma quiet_step:
  assumes "atr_step p sizing s l u" "in_day p A l" "fresh_in A s" "\<not> ap_cw p" "\<not> ap_variant_A p"
  shows "fresh_in A u \<and> (locked p A s \<longrightarrow> \<not> reopens l \<longrightarrow> locked p A u)"
  using assms(1)
proof (cases rule: atr_step.cases)
  case (atr_closed b sig t volume now draft)
  have ab: "ap_anchor p (ab_ts b) = A" using assms(2) by (simp add: atr_closed)
  show ?thesis
  proof (cases draft)
    case None
    with atr_closed have "u = t" using no_entry_keeps assms(4) by blast
    then show ?thesis using update_atr_fresh(1,3)[OF atr_closed(2) ab assms(3)] by (simp add: atr_closed(1))
  next
    case (Some d)
    then show ?thesis using entry_step[of p sizing s b sig d u A] assms ab by (simp add: atr_closed(1))
  qed
next
  case (atr_observed b sig)
  then show ?thesis using update_atr_fresh(1,3)[OF atr_observed(2) _ assms(3)] assms(2) by simp
next
  case (atr_shadowed sg b sig)
  then show ?thesis using update_atr_fresh(1,3)[OF atr_shadowed(2) _ assms(3)] assms(2) by simp
next
  case (atr_polled prev_qty qty now)
  then show ?thesis using assms(3)
    by (auto simp: poll_atr_guard_def set_atr_guard_def fresh_in_def level_rolled_def locked_def spent_def split: if_splits)
qed (use assms(3) in \<open>auto simp: fresh_in_def level_rolled_def locked_def spent_def\<close>)

lemma run_locked:
  "run (atr_step p sizing) s ls t \<Longrightarrow> fresh_in A s \<Longrightarrow> \<forall>l \<in> set ls. in_day p A l \<Longrightarrow> \<not> ap_cw p \<Longrightarrow> \<not> ap_variant_A p \<Longrightarrow>
   fresh_in A t \<and> (\<forall>xs b sig d ys. ls = xs @ Closed b sig (Some d) # ys \<longrightarrow> (\<forall>l \<in> set ys. \<not> reopens l) \<longrightarrow> locked p A t)"
proof (induction rule: run.induct)
  case (run_snoc s ls t l u)
  then have t: "fresh_in A t" and l: "in_day p A l" by auto
  note q = quiet_step[OF run_snoc(2) l t run_snoc.prems(3,4)]
  have "locked p A u" if e: "ls @ [l] = xs @ Closed b sig (Some d) # ys" "\<forall>l \<in> set ys. \<not> reopens l" for xs b sig d ys
  proof (cases ys rule: rev_cases)
    case Nil
    with e(1) have "l = Closed b sig (Some d)" by simp
    with entry_step[of p sizing t b sig d u A] run_snoc l t show ?thesis by simp
  next
    case (snoc zs z)
    with e have "ls = xs @ Closed b sig (Some d) # zs" "z = l" "\<forall>l \<in> set zs. \<not> reopens l" "\<not> reopens l" by auto
    with run_snoc.IH run_snoc.prems q show ?thesis by auto
  qed
  with q show ?case by blast
qed simp

inductive_cases run_snocE: "run step s (ls @ [l]) u"

text \<open>
  C31: One entry per short segment: in any interleaving of bars, quotes, holds and polls of the guard within one
  session, two entries of variant B have a SELL flip between them, or (with re-arming) a release of the guard
  because the first never filled.
\<close>
theorem one_entry_per_short_segment:
  assumes "run (atr_step p sizing) s (xs @ Closed b sig (Some d) # ys @ [Closed b' sig' (Some d')]) t"
    and "fresh_in A s" and "\<forall>l \<in> set (xs @ Closed b sig (Some d) # ys @ [Closed b' sig' (Some d')]). in_day p A l"
    and "\<not> ap_cw p" "\<not> ap_variant_A p"
  shows "\<exists>l \<in> set ys. reopens l"
proof (rule ccontr)
  assume n: "\<not> (\<exists>l \<in> set ys. reopens l)"
  have "run (atr_step p sizing) s ((xs @ Closed b sig (Some d) # ys) @ [Closed b' sig' (Some d')]) t" using assms(1) by simp
  then obtain q where q: "run (atr_step p sizing) s (xs @ Closed b sig (Some d) # ys) q"
      "atr_step p sizing q (Closed b' sig' (Some d')) t" by (rule run_snocE)
  have "fresh_in A q \<and> locked p A q" using run_locked[OF q(1) assms(2) _ assms(4,5)] assms(3) n by auto
  with entry_step[OF q(2) _ _ assms(4,5)] assms(3) show False by auto
qed

section \<open>The confirmed window\<close>

fun watched :: "atr_label \<Rightarrow> (atr_bar \<times> atr_signal) list" where
  "watched (Closed b (Some g) d) = [(b, g)]"
| "watched l = []"

text \<open>
  The evaluated bars end with a BUY flip and bars without a flip, the first three of which have the high
  \<open>h\<close> (or 0).
\<close>

definition window :: "(atr_bar \<times> atr_signal) list \<Rightarrow> nat \<Rightarrow> rat \<Rightarrow> bool" where
  "window ws n h \<longleftrightarrow> (\<exists>pre x mid. ws = pre @ x # mid \<and> sg_flip (snd x) = Some Buy_flip \<and> (\<forall>y \<in> set mid. sg_flip (snd y) = None)
     \<and> length mid = n \<and> h = fold max (map (\<lambda>y. ab_high (fst y)) (take 3 mid)) 0)"

definition cw_ok :: "(atr_bar \<times> atr_signal) list \<Rightarrow> atr_symbol \<Rightarrow> bool" where
  "cw_ok ws s \<longleftrightarrow> (as_cw_armed s \<longrightarrow> 0 \<le> as_cw_waited s \<and> window ws (nat (as_cw_waited s)) (as_cw_high s))"

lemma window_open: "sg_flip g = Some Buy_flip \<Longrightarrow> window (ws @ [(b, g)]) 0 0"
  unfolding window_def by (rule exI[of _ ws], rule exI[of _ "(b, g)"], rule exI[of _ "[]"]) simp

lemma window_next:
  assumes "window ws n h" "sg_flip g = None"
  shows "window (ws @ [(b, g)]) (Suc n) (if n < 3 then max h (ab_high b) else h)"
proof -
  from assms(1) obtain pre x mid where w: "ws = pre @ x # mid" "sg_flip (snd x) = Some Buy_flip" "\<forall>y \<in> set mid. sg_flip (snd y) = None"
    "length mid = n" "h = fold max (map (\<lambda>y. ab_high (fst y)) (take 3 mid)) 0" by (auto simp: window_def)
  have "(if n < 3 then max h (ab_high b) else h) = fold max (map (\<lambda>y. ab_high (fst y)) (take 3 (mid @ [(b, g)]))) 0"
    using w(4,5) by (auto simp: take_Cons' max.commute)
  then show ?thesis unfolding window_def
    by (intro exI[of _ pre] exI[of _ x] exI[of _ "mid @ [(b, g)]"]) (use w assms(2) in auto)
qed

lemma flip_step_cw:
  "flip_step p so loss b s = (fl, lv, t) \<Longrightarrow> as_cw_armed t = as_cw_armed s \<and> as_cw_waited t = as_cw_waited s \<and> as_cw_high t = as_cw_high s"
  by (auto simp: flip_step_def open_short_def set_atr_guard_def Let_def split: option.splits trend.splits if_splits)

lemma update_cw:
  assumes "update_atr p so sg b s = (sig, t)" "as_cw_armed t"
  shows "as_cw_armed s \<and> as_cw_waited t = as_cw_waited s \<and> as_cw_high t = as_cw_high s"
proof -
  let ?s = "roll_session p so (ap_anchor p (ab_ts b)) s"
  obtain h tr where m: "update_atr p so sg b s
      = signal_step p so b (as_prev ?s) ((wilders_step p tr (?s\<lparr>as_hl := h\<rparr>))\<lparr>as_prev := Some b\<rparr>)"
    using update_atr_eq[OF refl refl refl refl] by blast
  let ?m = "(wilders_step p tr (?s\<lparr>as_hl := h\<rparr>))\<lparr>as_prev := Some b\<rparr>"
  have st: "signal_step p so b (as_prev ?s) ?m = (sig, t)" using assms(1) m by simp
  have "as_cw_armed t = as_cw_armed ?m \<and> as_cw_waited t = as_cw_waited ?m \<and> as_cw_high t = as_cw_high ?m"
  proof (cases "as_wilders ?m")
    case (Some w)
    from signal_step_some[OF st Some] obtain fl lv s3 g where
      "flip_step p so (ap_factor p * w) b (claim_touch p (atr_touched p so b ?m) b ?m) = (fl, lv, s3)"
      "t = s3\<lparr>as_prev_trail := as_trail s3, as_prev_trend := as_trend s3\<rparr>" by metis
    then show ?thesis using flip_step_cw by (fastforce simp: claim_touch_def split: option.splits if_splits)
  qed (use st in \<open>simp add: signal_step_def\<close>)
  moreover have "as_cw_armed ?m = as_cw_armed ?s \<and> as_cw_waited ?m = as_cw_waited ?s \<and> as_cw_high ?m = as_cw_high ?s"
    by (simp add: wilders_step_def split: option.splits)
  moreover have "as_cw_armed ?s \<Longrightarrow> as_cw_armed s \<and> as_cw_waited ?s = as_cw_waited s \<and> as_cw_high ?s = as_cw_high s"
    by (auto simp: roll_session_def session_reset_def reset_indicator_def restore_indicator_def set_atr_guard_def Let_def split: if_splits)
  ultimately show ?thesis using assms(2) by simp
qed

lemma cw_ok_update: "cw_ok ws s \<Longrightarrow> update_atr p so sg b s = (sig, t) \<Longrightarrow> cw_ok ws t"
  using update_cw[of p so sg b s sig t] by (auto simp: cw_ok_def)

lemma cw_entry_ok:
  assumes c: "cw_ok ws s" and e: "cw_entry p sizing volume b g s = (draft, t)" and p: "\<not> ap_cw_v2 p"
  shows "cw_ok (ws @ [(b, g)]) t \<and>
    (\<forall>d. draft = Some d \<longrightarrow> (\<exists>n \<ge> 3. window ws n (dr_entry d)) \<and> sg_flip g = None \<and> dr_entry d < ab_high b
       \<and> ap_vol_floor p < volume \<and> floor_allows (dr_entry d))"
proof (cases "sg_flip g = None \<and> as_cw_armed s")
  case False
  then show ?thesis
    using c e p window_open[of g ws b] by (cases "sg_flip g"; cases "the (sg_flip g)") (auto simp: cw_entry_def cw_ok_def)
next
  case True
  then have a: "as_cw_armed s" "sg_flip g = None" by auto
  with c have w: "0 \<le> as_cw_waited s" "window ws (nat (as_cw_waited s)) (as_cw_high s)" by (auto simp: cw_ok_def)
  have n: "nat (as_cw_waited s + 1) = Suc (nat (as_cw_waited s))" using w(1) by simp
  show ?thesis
  proof (cases "as_cw_waited s + 1 \<le> 3")
    case True
    with e a p have "draft = None" "t = s\<lparr>as_cw_waited := as_cw_waited s + 1, as_cw_high := max (as_cw_high s) (ab_high b)\<rparr>"
      by (auto simp: cw_entry_def Let_def)
    moreover have "nat (as_cw_waited s) < 3" using True w(1) by linarith
    ultimately show ?thesis using window_next[OF w(2) a(2), of b] w(1) n by (simp add: cw_ok_def)
  next
    case False
    then have l: "\<not> nat (as_cw_waited s) < 3" using w(1) by linarith
    note nx = window_next[OF w(2) a(2), of b, unfolded if_not_P[OF l]]
    show ?thesis using e a p False l w n nx
      by (auto simp: cw_entry_def cw_ok_def draft_of_def Let_def sized_open_def not_le split: if_splits option.splits
          intro!: exI[of _ "nat (as_cw_waited s)"])
  qed
qed

lemma run_cw_ok:
  "run (atr_step p sizing) s ls t \<Longrightarrow> \<not> as_cw_armed s \<Longrightarrow> ap_enabled p \<Longrightarrow> ap_cw p \<Longrightarrow> \<not> ap_cw_v2 p \<Longrightarrow>
   cw_ok (concat (map watched ls)) t"
proof (induction rule: run.induct)
  case (run_snoc s ls t l u)
  then have ok: "cw_ok (concat (map watched ls)) t" by simp
  from run_snoc(2) show ?case
  proof (cases rule: atr_step.cases)
    case (atr_closed b sig q volume now draft)
    have q: "cw_ok (concat (map watched ls)) q" using cw_ok_update[OF ok atr_closed(2)] .
    show ?thesis
    proof (cases sig)
      case (Some g)
      then have "cw_entry p sizing volume b g q = (draft, u)" using atr_closed(3) run_snoc.prems by (simp add: maybe_atr_emit_def)
      from cw_entry_ok[OF q this run_snoc.prems(4)] show ?thesis using Some by (simp add: atr_closed(1))
    qed (use atr_closed q in \<open>simp add: maybe_atr_emit_def\<close>)
  next
    case (atr_polled prev_qty qty now)
    then show ?thesis using ok by (auto simp: poll_atr_guard_def set_atr_guard_def cw_ok_def split: if_splits)
  qed (use ok cw_ok_update[OF ok] in \<open>auto simp: cw_ok_def\<close>)
qed (simp add: cw_ok_def)

text \<open>
  C32: A confirmed-window entry is confirmed: the evaluated bars before it end with a BUY flip and at least three
  bars without a flip, the entry price is the highest high of the first three of these, allowed by the price
  floor, and the entry bar has no flip and its high breaks that price.
\<close>
theorem confirmed_window_entry:
  assumes "run (atr_step p sizing) s (ls @ [Closed b (Some g) (Some d)]) t"
    and "\<not> as_cw_armed s" "ap_enabled p" "ap_cw p" "\<not> ap_cw_v2 p"
  shows "(\<exists>n \<ge> 3. window (concat (map watched ls)) n (dr_entry d)) \<and> sg_flip g = None \<and> dr_entry d < ab_high b
    \<and> floor_allows (dr_entry d)"
proof -
  obtain q where q: "run (atr_step p sizing) s ls q" "atr_step p sizing q (Closed b (Some g) (Some d)) t"
    using assms(1) by (rule run_snocE)
  have ok: "cw_ok (concat (map watched ls)) q" by (rule run_cw_ok[OF q(1) assms(2-5)])
  from q(2) obtain r volume now where r: "update_atr p False False b q = (Some g, r)"
      "maybe_atr_emit p sizing volume now b (Some g) True r = (Some d, t)"
    by (cases rule: atr_step.cases) (auto split: if_splits)
  then have "cw_entry p sizing volume b g r = (Some d, t)" using assms(3,4) by (simp add: maybe_atr_emit_def)
  from cw_entry_ok[OF cw_ok_update[OF ok r(1)] this assms(5)] show ?thesis by simp
qed

section \<open>The trail\<close>

text \<open>The trail is on the far side of the close it was set at.\<close>

definition trail_ok :: "atr_symbol \<Rightarrow> bool" where
  "trail_ok s \<longleftrightarrow> (\<forall>h \<in> set (as_hl s). 0 \<le> h) \<and> (\<forall>x \<in> set (as_seed s). 0 \<le> x) \<and> (\<forall>w. as_wilders s = Some w \<longrightarrow> 0 \<le> w)
     \<and> (as_wilders s = None \<longrightarrow> as_trend s = None)
     \<and> (\<forall>d. as_trend s = Some d \<longrightarrow> (\<exists>b r. as_prev s = Some b \<and> as_trail s = Some r
          \<and> (case d of Long \<Rightarrow> r \<le> ab_close b | Short \<Rightarrow> ab_close b \<le> r)))"

fun sane_label :: "atr_label \<Rightarrow> bool" where
  "sane_label (Closed b sig d) \<longleftrightarrow> ab_low b \<le> ab_high b"
| "sane_label (Observed b sig) \<longleftrightarrow> ab_low b \<le> ab_high b"
| "sane_label (Shadowed b sig) \<longleftrightarrow> ab_low b \<le> ab_high b"
| "sane_label l \<longleftrightarrow> True"

lemma trail_okD:
  assumes "trail_ok s"
  shows "\<forall>x \<in> set (as_seed s). 0 \<le> x" "\<forall>w. as_wilders s = Some w \<longrightarrow> 0 \<le> w" "\<forall>x \<in> set (as_hl s). 0 \<le> x"
    "as_wilders s = None \<Longrightarrow> as_trend s = None" "\<forall>d. as_trend s = Some d \<longrightarrow> as_trail s \<noteq> None"
  using assms unfolding trail_ok_def by (blast, blast, blast, blast, fastforce)

lemma trail_ok_cong:
  "trail_ok s \<Longrightarrow> as_hl t = as_hl s \<Longrightarrow> as_seed t = as_seed s \<Longrightarrow> as_wilders t = as_wilders s \<Longrightarrow> as_trend t = as_trend s
   \<Longrightarrow> as_prev t = as_prev s \<Longrightarrow> as_trail t = as_trail s \<Longrightarrow> trail_ok t"
  by (simp add: trail_ok_def)

lemma true_range_ge: "x \<le> h \<Longrightarrow> x \<le> true_range h q cur"
  by (simp add: true_range_def Let_def le_max_iff_disj)

lemma roll_indicator:
  "as_hl (roll_session p so A s) = as_hl s \<and> as_seed (roll_session p so A s) = as_seed s
     \<and> as_wilders (roll_session p so A s) = as_wilders s \<and> as_trend (roll_session p so A s) = as_trend s
     \<and> as_prev (roll_session p so A s) = as_prev s \<and> as_trail (roll_session p so A s) = as_trail s
   \<or> as_hl (roll_session p so A s) = [] \<and> as_seed (roll_session p so A s) = [] \<and> as_wilders (roll_session p so A s) = None
     \<and> as_trend (roll_session p so A s) = None"
  by (simp add: roll_session_def session_reset_def reset_indicator_def restore_indicator_def set_atr_guard_def Let_def)

lemma next_range_nonneg:
  assumes "next_range p v hls prev cur = Some x" "ab_low cur \<le> ab_high cur" "\<forall>h \<in> set hls. 0 \<le> h"
  shows "0 \<le> x"
proof -
  have "0 \<le> sum_list hls / rat_of_nat (ap_period p)" using assms(3) by (simp add: sum_list_nonneg)
  with assms(2) have "0 \<le> min (bar_range cur) (3 / 2 * (sum_list hls / rat_of_nat (ap_period p)))" by (simp add: bar_range_def)
  then show ?thesis
    using assms(1) by (auto simp: next_range_def Let_def intro: true_range_ge split: option.splits if_splits)
qed

lemma smooth_nonneg: "0 < n \<Longrightarrow> 0 \<le> w \<Longrightarrow> 0 \<le> t \<Longrightarrow> 0 \<le> w + (t - w) / rat_of_nat n"
proof -
  assume n: "0 < n" and w: "0 \<le> w" "0 \<le> t"
  have "w * 1 \<le> w * rat_of_nat n" using n w(1) by (intro mult_left_mono) auto
  then have "(w - t) / rat_of_nat n \<le> w" using n w(2) by (simp add: pos_divide_le_eq)
  then show ?thesis by (simp add: diff_divide_distrib)
qed

lemma wilders_step_nonneg:
  assumes "0 < ap_period p" "\<forall>x \<in> set (as_seed s). 0 \<le> x" "\<forall>w. as_wilders s = Some w \<longrightarrow> 0 \<le> w" "\<forall>x. tr = Some x \<longrightarrow> 0 \<le> x"
  shows "(\<forall>x \<in> set (as_seed (wilders_step p tr s)). 0 \<le> x) \<and> (\<forall>w. as_wilders (wilders_step p tr s) = Some w \<longrightarrow> 0 \<le> w)"
proof -
  have "0 \<le> sum_list (as_seed s)" using assms(2) by (simp add: sum_list_nonneg)
  then show ?thesis using assms smooth_nonneg[OF assms(1)] by (auto simp: wilders_step_def split: option.splits)
qed

text \<open>What one bar may do to the trend and the trail.\<close>

definition turn :: "trend \<Rightarrow> rat \<Rightarrow> rat \<Rightarrow> flip option \<Rightarrow> rat option \<Rightarrow> trend \<Rightarrow> rat \<Rightarrow> bool" where
  "turn d r close flip level d' r' \<longleftrightarrow>
     (case (d, d') of
        (Long, Long) \<Rightarrow> flip = None \<and> r < close \<and> r \<le> r' \<and> r' \<le> close
      | (Short, Short) \<Rightarrow> flip = None \<and> close < r \<and> r' \<le> r \<and> close \<le> r'
      | (Long, Short) \<Rightarrow> flip = Some Sell_flip \<and> close \<le> r \<and> close \<le> r'
      | (Short, Long) \<Rightarrow> flip = Some Buy_flip \<and> r \<le> close \<and> r' \<le> close \<and> level = Some r)"

lemma flip_step_trail:
  assumes "flip_step p so loss b s = (fl, lv, t)" "0 \<le> loss" "\<forall>d. as_trend s = Some d \<longrightarrow> as_trail s \<noteq> None"
  shows "\<exists>d r. as_trend t = Some d \<and> as_trail t = Some r \<and> (case d of Long \<Rightarrow> r \<le> ab_close b | Short \<Rightarrow> ab_close b \<le> r)"
    "as_trend s = Some d \<Longrightarrow> as_trail s = Some r \<Longrightarrow> as_trend t = Some d' \<Longrightarrow> as_trail t = Some r'
     \<Longrightarrow> turn d r (ab_close b) fl lv d' r'"
  using assms by (auto simp: flip_step_def turn_def Let_def split: option.splits trend.splits if_splits)

lemma update_trail:
  assumes u: "update_atr p so sg b s = (sig, t)" and n: "0 < ap_period p" "0 \<le> ap_factor p" "ab_low b \<le> ab_high b" and ok: "trail_ok s"
  shows "trail_ok t"
    and "sig = Some g \<Longrightarrow> as_trend s = Some d \<Longrightarrow> as_trail s = Some r \<Longrightarrow> ap_anchor p (ab_ts b) = as_anchor s
      \<Longrightarrow> turn d r (ab_close b) (sg_flip g) (sg_flip_level g) (sg_trend g) (sg_trail g)"
proof -
  let ?s = "roll_session p so (ap_anchor p (ab_ts b)) s"
  let ?T = "\<lambda>g. turn d r (ab_close b) (sg_flip g) (sg_flip_level g) (sg_trend g) (sg_trail g)"
  have ok': "trail_ok ?s" using ok roll_indicator[of p so "ap_anchor p (ab_ts b)" s] by (auto simp only: trail_ok_def list.set)
  obtain h where h: "h = drop (Suc (length (as_hl ?s)) - ap_period p) (as_hl ?s @ [bar_range b])" by simp
  obtain tr where tr: "tr = next_range p (so \<and> sg) h (as_prev ?s) b" by simp
  obtain m where m: "m = (wilders_step p tr (?s\<lparr>as_hl := h\<rparr>))\<lparr>as_prev := Some b\<rparr>" by simp
  have st: "signal_step p so b (as_prev ?s) m = (sig, t)" using u update_atr_eq[OF refl h[symmetric] tr[symmetric] m[symmetric]] by simp
  have nn: "\<forall>x \<in> set h. 0 \<le> x" using trail_okD(3)[OF ok'] n(3) by (auto simp: h bar_range_def dest!: in_set_dropD)
  have "\<forall>x. tr = Some x \<longrightarrow> 0 \<le> x" using next_range_nonneg[OF _ n(3) nn] tr by metis
  moreover have okc: "\<forall>x \<in> set (as_seed ?s). 0 \<le> x" "\<forall>w. as_wilders ?s = Some w \<longrightarrow> 0 \<le> w"
    by (rule trail_okD[OF ok'])+
  ultimately have w: "(\<forall>x \<in> set (as_seed m). 0 \<le> x) \<and> (\<forall>w. as_wilders m = Some w \<longrightarrow> 0 \<le> w)"
    unfolding m by (simp; intro wilders_step_nonneg n(1); simp)
  have mt: "as_trend m = as_trend ?s" "as_trail m = as_trail ?s" "as_hl m = h" by (simp_all add: m)
  have "trail_ok t \<and> (\<forall>g. sig = Some g \<longrightarrow> as_trend m = Some d \<longrightarrow> as_trail m = Some r \<longrightarrow> ?T g)"
  proof (cases "as_wilders m")
    case None
    then have "as_wilders ?s = None" by (auto simp: m wilders_step_def split: option.splits)
    then have "as_trend m = None" using trail_okD(4)[OF ok'] by (simp add: mt)
    moreover have "sig = None" "t = m" using None st by (simp_all add: signal_step_def)
    ultimately show ?thesis using None w nn by (simp add: trail_ok_def mt(3))
  next
    case (Some v)
    let ?c = "claim_touch p (atr_touched p so b m) b m"
    from signal_step_some[OF st Some] obtain fl lv s3 g where
      fs: "flip_step p so (ap_factor p * v) b ?c = (fl, lv, s3)" and g: "sig = Some g" "sg_flip g = fl" "sg_flip_level g = lv"
        "sg_trail g = (case as_trail s3 of Some x \<Rightarrow> x | None \<Rightarrow> 0)" "sg_trend g = (case as_trend s3 of Some x \<Rightarrow> x | None \<Rightarrow> Long)"
      and t: "t = s3\<lparr>as_prev_trail := as_trail s3, as_prev_trend := as_trend s3\<rparr>" by metis
    have l: "0 \<le> ap_factor p * v" using w n(2) Some by simp
    have tc: "\<forall>d. as_trend ?c = Some d \<longrightarrow> as_trail ?c \<noteq> None" using trail_okD(5)[OF ok'] by (simp add: mt)
    from flip_step_trail(1)[OF fs l tc] obtain d' r' where d': "as_trend s3 = Some d'" "as_trail s3 = Some r'"
      "case d' of Long \<Rightarrow> r' \<le> ab_close b | Short \<Rightarrow> ab_close b \<le> r'" by blast
    have "trail_ok t" using d' w nn Some flip_step_keeps[OF fs] by (auto simp: t trail_ok_def m)
    moreover have "?T g" if "as_trend m = Some d" "as_trail m = Some r"
      using flip_step_trail(2)[OF fs l tc _ _ d'(1,2), of d r] that g d'(1,2) by simp
    ultimately show ?thesis using g(1) by auto
  qed
  moreover have "as_trend m = as_trend s \<and> as_trail m = as_trail s" if "ap_anchor p (ab_ts b) = as_anchor s"
    using that by (simp add: mt roll_session_def restore_indicator_def session_reset_def reset_indicator_def set_atr_guard_def Let_def)
  ultimately show "trail_ok t" "sig = Some g \<Longrightarrow> as_trend s = Some d \<Longrightarrow> as_trail s = Some r \<Longrightarrow>
    ap_anchor p (ab_ts b) = as_anchor s \<Longrightarrow> ?T g" by auto
qed

lemma emit_trail_ok: "maybe_atr_emit p sizing volume now b sig fr t = (draft, u) \<Longrightarrow> trail_ok t \<Longrightarrow> trail_ok u"
  by (erule trail_ok_cong; auto simp: maybe_atr_emit_def cw_entry_def set_atr_guard_def Let_def split: option.splits if_splits)

lemma run_trail_ok:
  "run (atr_step p sizing) s ls t \<Longrightarrow> trail_ok s \<Longrightarrow> \<forall>l \<in> set ls. sane_label l \<Longrightarrow> 0 < ap_period p \<Longrightarrow> 0 \<le> ap_factor p \<Longrightarrow> trail_ok t"
proof (induction rule: run.induct)
  case (run_snoc s ls t l u)
  then have ok: "trail_ok t" and l: "sane_label l" by auto
  note up = update_trail(1)[OF _ run_snoc.prems(3,4) _ ok]
  from run_snoc(2) show ?case
  proof (cases rule: atr_step.cases)
    case (atr_closed b sig q volume now draft)
    show ?thesis by (rule emit_trail_ok[OF atr_closed(3) up[OF atr_closed(2)]]) (use l atr_closed(1) in simp)
  next
    case (atr_polled prev_qty qty now)
    show ?thesis by (rule trail_ok_cong[OF ok]) (use atr_polled in \<open>auto simp: poll_atr_guard_def set_atr_guard_def split: if_splits\<close>)
  next
    case (atr_quoted ask)
    show ?thesis by (rule trail_ok_cong[OF ok]) (simp_all add: atr_quoted)
  next
    case (atr_held h)
    show ?thesis by (rule trail_ok_cong[OF ok]) (simp_all add: atr_held)
  qed (use up l in auto)
qed simp

lemma new_trail_ok: "trail_ok new_atr_symbol"
  by (simp add: trail_ok_def new_atr_symbol_def)

text \<open>
  C33: The trail ratchets: from a new symbol on, a bar either keeps the trend, with the close beyond the old trail
  and the trail moved only in the trend's favour and never past the close, or flips it because the close reached
  the old trail, and a BUY flip names the trail it crossed.
\<close>
theorem trail_ratchets:
  assumes "run (atr_step p sizing) new_atr_symbol ls s" "\<forall>l \<in> set ls. sane_label l" "ab_low b \<le> ab_high b"
    and "0 < ap_period p" "0 \<le> ap_factor p" and "ap_anchor p (ab_ts b) = as_anchor s"
    and "as_trend s = Some d" "as_trail s = Some r" and "update_atr p so sg b s = (Some g, t)"
  shows "turn d r (ab_close b) (sg_flip g) (sg_flip_level g) (sg_trend g) (sg_trail g)"
  by (rule update_trail(2)[OF assms(9,4,5,3) run_trail_ok[OF assms(1) new_trail_ok assms(2,4,5)] refl assms(7,8,6)])

section \<open>The live indicator and the backtest\<close>

text \<open>
  C30: The live indicator is the backtest's indicator. Over one session whose bars follow each other within 90 s
  (or over gaps the provider vouches for), a symbol that is warmed up from the earlier bars in any order and then
  fed bar by bar gives the rows of \<open>compute_atr_trail\<close> over the whole session: the same loss, trail, trend, flip
  and age at every live bar, and the flips reported by the warm-up are those of the earlier rows.
\<close>
theorem live_indicator_is_oracle:
  assumes "0 < ap_period p" "as_anchor s \<noteq> A" "as_seeded s \<noteq> Some A"
    and bars: "\<forall>b \<in> set (early @ live). ap_anchor p (ab_ts b) = A"
    and linked: "successively (follows p) (sort_key ab_ts early @ live)"
    and seed: "seed_atr p early s = (report, s1)" and live: "update_all p False live s1 = (sigs, s2)"
    and rows: "rows = compute_atr_trail True (ap_period p) (ap_factor p) (sort_key ab_ts early @ live)"
  shows "list_all2 same_signal sigs (drop (length early) rows)
    \<and> sr_flips report = row_flips (take (length early) rows)"
proof -
  let ?e = "sort_key ab_ts early" and ?rows = "compute_atr_trail True (ap_period p) (ap_factor p)"
  note n = assms(1)
  obtain esigs t where t: "update_all p True ?e s = (esigs, t)" by force
  have "in_session p A [] s" using assms(2,3) by (simp add: in_session_def)
  from update_all_agrees[OF n this _ _ t] bars linked obtain er where
    e: "in_session p A ?e t" "?rows [] @ er = ?rows ?e" "list_all2 same_signal esigs er"
    by (auto simp: successively_append_iff)
  have er: "?rows ?e = er" using e(2) compute_atr_trail_length[OF n, of "ap_factor p" "[]"] by simp
  have s1: "s1 = (if ?e = [] then t else t\<lparr>as_seeded := Some (as_anchor t)\<rparr>)"
    and fl: "sr_flips report
      = List.map_filter (\<lambda>(b, sig). Option.bind sig (\<lambda>g. map_option (\<lambda>f. (ab_ts b, f)) (sg_flip g))) (zip ?e esigs)"
    using seed t by (auto simp: seed_atr_def Let_def)
  have "in_session p A ?e s1"
  proof (cases "?e = []")
    case False
    with e(1) have "agrees p A ?e t" by (simp add: in_session_def)
    then have "agrees p A ?e s1" by (rule agrees_cong) (simp_all add: s1)
    then show ?thesis by (simp add: in_session_def)
  qed (use e(1) s1 in simp)
  from update_all_agrees[OF n this _ linked live] bars obtain lr where
    l: "?rows (?e @ live) = er @ lr" "list_all2 same_signal sigs lr" unfolding er by auto
  have len: "length er = length early" using compute_atr_trail_length[OF n, of "ap_factor p" ?e] er by simp
  have "map ow_ts er = map ab_ts ?e" using compute_atr_trail_ts[OF n, of "ap_factor p" ?e] er by simp
  from flips_of_rows[OF e(3) this] show ?thesis using l len fl by (simp add: rows)
qed

section \<open>A session\<close>

definition tx_params :: "bool \<Rightarrow> atr_params" where
  "tx_params cw = \<lparr>ap_period = 2, ap_factor = 1, ap_rearm = False, ap_anchor = (\<lambda>_. 1), ap_attested = (\<lambda>_ _. False),
     ap_enabled = True, ap_cw = cw, ap_cw_v2 = False, ap_variant_A = False, ap_vol_floor = 5000, ap_use_max_age = False,
     ap_max_age = 0, ap_timeout_ms = 0\<rparr>"

definition tx_bar :: "nat \<Rightarrow> rat \<Rightarrow> atr_bar" where
  "tx_bar i c = \<lparr>ab_ts = 60000 * (int i + 1), ab_open = c, ab_high = c + 1 / 2, ab_low = c - 1 / 2, ab_close = c, ab_volume = 9000\<rparr>"

definition tx_bars :: "atr_bar list" where
  "tx_bars = map (\<lambda>(i, c). tx_bar i c) (enumerate 0 [10, 10, 10, 8, 9, 12, 8, 12])"

definition tx_break :: "atr_bar list" where
  "tx_break = map (\<lambda>(i, c). tx_bar i c) (enumerate 0 [10, 10, 10, 8, 12, 12, 13, 13, 14])"

definition tx_sizing :: "rat option \<Rightarrow> rat option" where "tx_sizing ask = Some 10"

fun replay_bars :: "atr_params \<Rightarrow> atr_bar list \<Rightarrow> atr_symbol \<Rightarrow> atr_label list \<times> atr_symbol" where
  "replay_bars p [] s = ([], s)"
| "replay_bars p (b # bs) s =
     (case update_atr p False False b s of (sig, t) \<Rightarrow>
      case maybe_atr_emit p tx_sizing (of_int (ab_volume b)) 0 b sig True t of (draft, u) \<Rightarrow>
      case replay_bars p bs u of (ls, v) \<Rightarrow> (Closed b sig draft # ls, v))"

lemma replay_run: "replay_bars p bs s = (ls, t) \<Longrightarrow> run (atr_step p tx_sizing) s ls t"
proof (induction bs arbitrary: s ls)
  case (Cons b bs)
  obtain sig q draft u ms where *: "update_atr p False False b s = (sig, q)"
    "maybe_atr_emit p tx_sizing (of_int (ab_volume b)) 0 b sig True q = (draft, u)" "replay_bars p bs u = (ms, t)"
    "ls = Closed b sig draft # ms"
    using Cons.prems by (auto split: prod.splits)
  show ?case unfolding *(4) by (rule run_Cons[OF atr_closed[OF *(1,2)] Cons.IH[OF *(3)]])
qed (simp add: run_nil)

lemma replay_length: "length (fst (replay_bars p bs s)) = length bs"
  by (induction bs arbitrary: s) (simp_all split: prod.splits, metis fst_conv)

lemma floor_allows_iff: "floor_allows x \<longleftrightarrow> 1 \<le> x"
  by (simp add: floor_allows_def)

lemmas atr_eval = update_atr_def roll_session_def session_reset_def reset_indicator_def restore_indicator_def
  set_atr_guard_def next_range_def true_range_def gap_ms_def bar_range_def wilders_step_def signal_step_def atr_touched_def
  segment_free_def claim_touch_def flip_step_def open_short_def ATR_MAX_BAR_GAP_MS_def maybe_atr_emit_def cw_entry_def
  atr_entry_price_def sized_open_def draft_of_def tx_params_def tx_bar_def new_atr_symbol_def tx_sizing_def floor_allows_iff Let_def

fun draft_in :: "atr_label \<Rightarrow> atr_draft option" where
  "draft_in (Closed b sig d) = d"
| "draft_in l = None"

definition tx_seed :: "seed_report \<times> atr_symbol" where
  "tx_seed = seed_atr (tx_params False) (rev (take 4 tx_bars)) new_atr_symbol"

definition tx_live :: "atr_signal option list \<times> atr_symbol" where
  "tx_live = update_all (tx_params False) False (drop 4 tx_bars) (snd tx_seed)"

theorem live_indicator_is_oracle_witness:
  "list_all2 same_signal (fst tx_live) (drop 4 (compute_atr_trail True 2 1 tx_bars))
    \<and> sr_flips (fst tx_seed) = [(240000, Sell_flip)]"
proof -
  have o: "sort_key ab_ts (rev (take 4 tx_bars)) @ drop 4 tx_bars = tx_bars" by code_simp
  have "list_all2 same_signal (fst tx_live) (drop (length (rev (take 4 tx_bars))) (compute_atr_trail True 2 1 tx_bars))
      \<and> sr_flips (fst tx_seed) = row_flips (take (length (rev (take 4 tx_bars))) (compute_atr_trail True 2 1 tx_bars))"
  proof (rule live_indicator_is_oracle[of "tx_params False" new_atr_symbol 1 "rev (take 4 tx_bars)" "drop 4 tx_bars"
      "fst tx_seed" "snd tx_seed" "fst tx_live" "snd tx_live"])
    show "successively (follows (tx_params False)) (sort_key ab_ts (rev (take 4 tx_bars)) @ drop 4 tx_bars)" unfolding o by code_simp
    show "compute_atr_trail True 2 1 tx_bars = compute_atr_trail True (ap_period (tx_params False)) (ap_factor (tx_params False))
        (sort_key ab_ts (rev (take 4 tx_bars)) @ drop 4 tx_bars)" unfolding o by (simp add: tx_params_def)
  qed (simp_all add: tx_params_def tx_seed_def tx_live_def new_atr_symbol_def)
  moreover have "length (rev (take 4 tx_bars)) = 4" by code_simp
  moreover have "sr_flips (fst tx_seed) = [(240000, Sell_flip)]" by code_simp
  ultimately show ?thesis by simp
qed

definition tx_labels :: "atr_label list" where
  "tx_labels = fst (replay_bars (tx_params False) tx_bars new_atr_symbol)"

lemma tx_in_day: "in_day (tx_params cw) 1 l"
  by (cases l) (simp_all add: tx_params_def)

lemma tx_run: "run (atr_step (tx_params cw) tx_sizing) new_atr_symbol (fst (replay_bars (tx_params cw) bs new_atr_symbol))
    (snd (replay_bars (tx_params cw) bs new_atr_symbol))"
  by (rule replay_run) simp

lemma draft_inE: "draft_in l = Some d \<Longrightarrow> (\<And>b sig. l = Closed b sig (Some d) \<Longrightarrow> P) \<Longrightarrow> P"
  by (cases l) auto

lemma tx_drafts: "map (\<lambda>l. map_option dr_entry (draft_in l)) tx_labels
    = [None, None, None, None, Some (19 / 2), None, None, Some (21 / 2)]"
  by (simp add: tx_labels_def tx_bars_def atr_eval)

theorem one_entry_per_short_segment_witness: "\<exists>l \<in> set [tx_labels ! 5, tx_labels ! 6]. reopens l"
proof -
  have n: "length tx_labels = 8" using arg_cong[OF tx_drafts, of length] by simp
  have "map_option dr_entry (draft_in (tx_labels ! 4)) = Some (19 / 2)" "map_option dr_entry (draft_in (tx_labels ! 7)) = Some (21 / 2)"
    using arg_cong[OF tx_drafts, of "\<lambda>xs. xs ! 4"] arg_cong[OF tx_drafts, of "\<lambda>xs. xs ! 7"] n by simp_all
  then obtain d d' where "draft_in (tx_labels ! 4) = Some d" "draft_in (tx_labels ! 7) = Some d'" by auto
  then obtain b sig b' sig' where l: "tx_labels ! 4 = Closed b sig (Some d)" "tx_labels ! 7 = Closed b' sig' (Some d')"
    by (metis draft_inE)
  have "drop 4 tx_labels = [tx_labels ! 4, tx_labels ! 5, tx_labels ! 6, tx_labels ! 7]"
    using n by (intro nth_equalityI) (auto simp: less_Suc_eq nth_Cons' eval_nat_numeral)
  then have s: "take 4 tx_labels @ Closed b sig (Some d) # [tx_labels ! 5, tx_labels ! 6] @ [Closed b' sig' (Some d')] = tx_labels"
    using append_take_drop_id[of 4 tx_labels] l by simp
  show ?thesis
  proof (rule one_entry_per_short_segment[of "tx_params False" tx_sizing new_atr_symbol "take 4 tx_labels" b sig d _ b' sig' d' _ 1])
    show "run (atr_step (tx_params False) tx_sizing) new_atr_symbol
        (take 4 tx_labels @ Closed b sig (Some d) # [tx_labels ! 5, tx_labels ! 6] @ [Closed b' sig' (Some d')])
        (snd (replay_bars (tx_params False) tx_bars new_atr_symbol))"
      unfolding s unfolding tx_labels_def by (rule tx_run)
  qed (simp_all add: tx_in_day, simp_all add: fresh_in_def level_rolled_def new_atr_symbol_def tx_params_def)
qed

definition tx_watch :: "atr_label list" where
  "tx_watch = fst (replay_bars (tx_params True) tx_break new_atr_symbol)"

lemma tx_breaks: "map (\<lambda>l. (watched l = [], map_option dr_entry (draft_in l))) tx_watch
    = [(True, None), (True, None), (False, None), (False, None), (False, None), (False, None), (False, None), (False, None),
       (False, Some (27 / 2))]"
  by (simp add: tx_watch_def tx_break_def atr_eval)

theorem confirmed_window_entry_witness:
  "(\<exists>n \<ge> 3. window (concat (map watched (take 8 tx_watch))) n (27 / 2)) \<and> floor_allows (27 / 2)"
proof -
  have n: "length tx_watch = Suc 8" using arg_cong[OF tx_breaks, of length] by simp
  have "watched (tx_watch ! 8) \<noteq> []" "map_option dr_entry (draft_in (tx_watch ! 8)) = Some (27 / 2)"
    using arg_cong[OF tx_breaks, of "\<lambda>xs. xs ! 8"] n by simp_all
  then obtain d b g where l: "tx_watch ! 8 = Closed b (Some g) (Some d)" "dr_entry d = 27 / 2"
    by (cases "tx_watch ! 8" rule: watched.cases) auto
  have s: "take 8 tx_watch @ [Closed b (Some g) (Some d)] = tx_watch"
    using take_Suc_conv_app_nth[of 8 tx_watch] n l(1) by simp
  have "run (atr_step (tx_params True) tx_sizing) new_atr_symbol (take 8 tx_watch @ [Closed b (Some g) (Some d)])
      (snd (replay_bars (tx_params True) tx_break new_atr_symbol))"
    unfolding s unfolding tx_watch_def by (rule tx_run)
  from confirmed_window_entry[OF this] show ?thesis by (simp add: l(2) tx_params_def new_atr_symbol_def)
qed

definition tx_short :: "atr_label list \<times> atr_symbol" where
  "tx_short = replay_bars (tx_params False) (take 4 tx_bars) new_atr_symbol"

definition tx_next :: "atr_signal option \<times> atr_symbol" where
  "tx_next = update_atr (tx_params False) False False (tx_bars ! 4) (snd tx_short)"

theorem trail_ratchets_witness: "turn Short (19 / 2) 9 None None Short (19 / 2)"
proof -
  have c: "list_all sane_label (fst tx_short) \<and> ab_low (tx_bars ! 4) \<le> ab_high (tx_bars ! 4) \<and> ab_close (tx_bars ! 4) = 9
      \<and> as_anchor (snd tx_short) = 1 \<and> as_trend (snd tx_short) = Some Short \<and> as_trail (snd tx_short) = Some (19 / 2)
      \<and> map_option (\<lambda>g. (sg_flip g, sg_flip_level g, sg_trend g, sg_trail g)) (fst tx_next) = Some (None, None, Short, 19 / 2)"
    by code_simp
  then obtain g where g: "fst tx_next = Some g" "sg_flip g = None" "sg_flip_level g = None" "sg_trend g = Short" "sg_trail g = 19 / 2"
    by auto
  have u: "update_atr (tx_params False) False False (tx_bars ! 4) (snd tx_short) = (Some g, snd tx_next)"
    by (simp add: tx_next_def g(1)[unfolded tx_next_def, symmetric])
  have "turn Short (19 / 2) (ab_close (tx_bars ! 4)) (sg_flip g) (sg_flip_level g) (sg_trend g) (sg_trail g)"
    by (rule trail_ratchets[OF tx_run[of False "take 4 tx_bars", folded tx_short_def] _ _ _ _ _ _ _ u])
      (use c in \<open>simp_all add: tx_params_def list_all_iff\<close>)
  then show ?thesis using c g by simp
qed

definition tx_gap :: "atr_bar list" where
  "tx_gap = [tx_bar 0 10, tx_bar 1 10, tx_bar 2 10, tx_bar 9 14]"

lemma gap_departs_from_oracle:
  "map (map_option sg_trail) (fst (update_all (tx_params False) False tx_gap new_atr_symbol)) = [None, None, Some 9, Some 13]
   \<and> map ow_trail (compute_atr_trail True 2 1 tx_gap) = [None, None, Some 9, Some 12]"
proof
  show "map (map_option sg_trail) (fst (update_all (tx_params False) False tx_gap new_atr_symbol)) = [None, None, Some 9, Some 13]"
    by (simp add: tx_gap_def atr_eval)
  show "map ow_trail (compute_atr_trail True 2 1 tx_gap) = [None, None, Some 9, Some 12]"
    by code_simp
qed

end
