(* ===== verification/Spec2Isabelle.thy ===== *)
theory Spec2Isabelle
  imports Prelude AdmissionSpec Lifecycle ProtectionSpec ExecutionSpec ExitSpec FeedRetentionSpec
    BarBuilderSpec PositionTrackerSpec PaperEngineSpec OmsBookSpec ArmedStopsSpec BotControlSpec LiveActorSpec CleanupJournalSpec PausePolicySpec MomentumConfirmedSpec
    AtrFlipSpec
begin

text \<open>
  Project Mai Tai is a trading system for momentum stocks. This development verifies the parts of
  \<open>src/src/project_mai_tai\<close> that keep state of their own and decide with money at stake: who owns an
  entry, how often it is sent, what protects the shares, when they are sold, what the books say
  afterwards, and who may stop all of it. Paths below are relative to that directory.

  The program in short. Market data arrives in bars and prints. Scanners and strategies turn them into
  intents; the order management (\<open>oms\<close>) books the broker's reports, keeps armed hard stops and carries
  out the operator's STOP and ON commands. Beside it runs the live warning path (\<open>momentum_live\<close>): one
  actor that owns the episodes of a warning, sends at most one entry for each, protects the filled
  shares with native broker orders and exits them. The paper engine (\<open>momentum_paper\<close>) evaluates the
  same warnings without orders.

  \<^bold>\<open>Theories.\<close> Each component has a theory with its records, datatypes and operations in the order of
  the source, and for most a second one, \<open>...Spec\<close>, with the invariants, the transition system of its
  operations, the properties and the concrete runs that witness them.

  \<^item> \<open>Prelude\<close>: Python exceptions as values of a sum, Python decimals with their non-finite values,
    insertion-ordered dictionaries, a state-and-exception combinator library (an operation that changes
    the state before it raises returns both), runs of labelled transition systems, and the contracts
    every component instantiates: \<open>invariant_system\<close> (an invariant of the reachable states),
    \<open>one_shot_system\<close> (an act that is latched happens at most once for each identity in any run) and
    \<open>recorder\<close> (operations that append records which tell what they did). Also \<open>symbol_case.py\<close>.
  \<^item> \<open>Admission\<close>, \<open>AdmissionInv\<close>, \<open>AdmissionSpec\<close>: \<open>momentum_live/admission.py\<close>, signals, routes, entry
    prices and \<open>EpisodeLedger\<close>. Its four indexes are determined by its episodes in every reachable
    state; an episode is submitted at most once in any run, restarts included; the restart snapshot is exact.
  \<^item> \<open>Lifecycle\<close>: \<open>momentum_live/exit_policy.py\<close> and \<open>lifecycle.py\<close>, the owned position with its exit
    decision and its reservation, and the coalescing work queue with its workers (no wake-up is lost).
  \<^item> \<open>Orders\<close>, \<open>EntryGuards\<close>: the records of \<open>broker_adapters/protocols.py\<close>, and the guards of a live
    entry: \<open>buy_price_floor.py\<close>, \<open>momentum_live/entry_reprice.py\<close>, \<open>momentum_live/entry_wire.py\<close>.
  \<^item> \<open>Execution\<close>, \<open>ExecutionSpec\<close>: \<open>momentum_live/execution.py\<close>, the entry executor. One admission puts
    at most one order on the wire, after its episode was durably latched and checked; a transport and a
    proof of no dispatch exclude each other.
  \<^item> \<open>Protection\<close>, \<open>ProtectionSpec\<close>: \<open>momentum_live/protection.py\<close>, \<open>NativeProtection\<close>. Wire calls follow
    the durable save of their latch; a release is granted on a terminal read only.
  \<^item> \<open>LiveActor\<close>, \<open>LiveActorSpec\<close>: \<open>momentum_live/actor.py\<close>, which composes the four above: the ledger,
    the executor, the owned positions and the work queue. The cancel of an unfilled entry is latched,
    saved and sent once; an exit rests on the evidence read just before it; a restore that fails for one
    owner serves nothing.
  \<^item> \<open>ExitLogic\<close>, \<open>ExitSpec\<close>: \<open>exit_logic/{position,engine,cw_exit}.py\<close>, the ladder with its ratcheting
    floor, its scale-outs and the confirmed-window decision.
  \<^item> \<open>FeedRetention\<close>, \<open>BarBuilder\<close>, \<open>PositionTracker\<close> with their \<open>...Spec\<close>: the modules of the same names in
    \<open>strategy_core\<close>: phases of a promoted symbol's feed, OHLCV bars from trades and aggregates, open
    positions with their limits, pauses and file.
  \<^item> \<open>PaperEngine\<close>, \<open>PaperEngineInv\<close>, \<open>PaperEngineSpec\<close>: \<open>momentum_paper/engine.py\<close>. Every operation is
    a sequence of six moves on the active events; invariants are proved for the moves and reach the
    operations through \<open>recorder\<close>. Also \<open>market_data/tick_time.py\<close> and \<open>warning_source_age.py\<close> as far as
    the engine uses them.
  \<^item> \<open>OmsBook\<close>, \<open>OmsManaged\<close>, \<open>OmsBookSpec\<close>: the book of \<open>oms/store.py\<close> (orders, fills, virtual and
    account positions, managed rows) and how \<open>oms/service.py\<close> settles a report and a round of position
    reads on it: executions are booked once, balances agree with the fills, clearing and restoring
    respect the broker's backing.
  \<^item> \<open>ArmedStops\<close>, \<open>ArmedStopsSpec\<close>: the armed hard stops of \<open>oms/service.py\<close>, with the frames between two
    awaits of the market loop and the asynchronous flushes of the durable mirror.
  \<^item> \<open>BotControl\<close>, \<open>BotControlSpec\<close>: \<open>oms/bot_control.py\<close> and \<open>bot_control_scope.py\<close>, transactions on the
    command, lease and permit tables: a STOP fences every later entry, an ON needs a settled STOP
    proven flat, an order gets one wire permit, a lease taken over is fenced for good.
  \<^item> \<open>CleanupJournal\<close>, \<open>CleanupJournalSpec\<close>: \<open>oms/bot_control_journal.py\<close>, what a STOP does to the orders
    it owns, as transactions under the lease of \<open>BotControl\<close>: one committed call or one proof per attempt,
    and no entry permit after an ON while an attempt of the STOP is unresolved.
  \<^item> \<open>MomentumAlerts\<close>, \<open>MomentumAlertsSpec\<close>, \<open>MomentumConfirmed\<close>, \<open>MomentumConfirmedSpec\<close>: the scanner of
    \<open>strategy_core/momentum_alerts.py\<close> and \<open>momentum_confirmed.py\<close>: alerts on bounded history that answers as
    the whole recording would, their cooldowns across restarts, confirmations only after a spike of the
    same session, the confirmed list and its ranking; the two stages are composed as one pipeline.
  \<^item> \<open>AtrFlip\<close>, \<open>AtrOracleSpec\<close>, \<open>AtrFlipSpec\<close>: the ATR trailing-stop flip of \<open>strategy_core/schwab_1m_v2.py\<close>
    (\<open>_update_atr_state\<close>, \<open>seed_atr_state\<close>, \<open>_maybe_atr_emit\<close>, \<open>_cw_entry\<close>) and the batch computation of
    \<open>backtest/atr_oracle.py\<close>: over a session without open gaps the live indicator gives the backtest's rows, a
    short segment is entered once, an entry of the confirmed window follows its wait, the trail is a ratchet.
  \<^item> \<open>PausePolicy\<close>, \<open>PausePolicySpec\<close>: \<open>market_data/momwarn_pause_policy.py\<close>, the pauses of the warning
    feed with their bounded counters.

  \<^bold>\<open>State and errors.\<close> An object is a record, its methods are functions that return the new record. A
  method that raises before it changes anything returns a sum (\<open>Inl\<close> the exception); a method that may
  change state before it raises is an \<open>eff\<close>, which returns the changed state beside the exception. A
  database transaction either raises and leaves the database as it was or returns the new one. Where the
  source shares a mutable object (a hard stop held by the market loop and the registry) the model has a
  store and references; where sharing has no effect the object lives once and the other places hold its key.

  \<^bold>\<open>Ports.\<close> Broker, database and clock calls of the live path are entries in a log. The environment
  gives the outcome of each by its position in the log, so a theorem holds for all answers and all
  failures in all orders. While a port is awaited the rest of the event loop runs; in \<open>LiveActor\<close> the
  environment changes the ledger at every call (\<open>ae_drift\<close>) within the laws that the entry lane is
  proved to keep. The New York clock, \<open>uuid5\<close>, SHA-256 and the JSON texts that are digested are
  parameters: the statements hold for every choice of them, unless a hypothesis of the statement says
  what it needs (a fresh \<open>uuid5\<close> for a new episode).

  \<^bold>\<open>Numbers.\<close> Python integers are \<open>int\<close>. Prices, quantities and percentages are exact rationals where the
  source uses floats or decimals; the non-finite decimals are values of their own where the source can
  meet them. Rounding is modelled where the source rounds (cents, ticks, the numeric columns of managed
  and armed rows); the rounding error of float arithmetic is not. Instants are integers in the unit of
  the source, seconds as rationals where the source has floats.

  \<^bold>\<open>Loops and fuel.\<close> Loops over lists are recursions on them. \<open>refresh_prepared\<close> may repeat a refresh; its
  fuel \<open>REFRESH_FUEL\<close> is 4 and \<open>refresh_terminates\<close> shows that no fuel above it changes the result for any
  environment. \<open>show_nat\<close> writes decimal digits with the number itself as fuel, which is never used up.

  \<^bold>\<open>Not modelled.\<close> The broker adapters and the stream clients are HTTP and websocket code of third-party
  services: they are the environment. The services (\<open>strategy_engine_app\<close>, \<open>control_plane\<close>,
  \<open>schwab_1m_v2_bot\<close> and the loops of \<open>oms/service.py\<close>) interleave SQL sessions, Redis streams and web
  pages; of \<open>oms/service.py\<close> the settlement, the position reads and the hard stops are modelled, the
  protected close of the Schwab strategies, the native guard orders and the boot reconciliation are
  not. Of \<open>schwab_1m_v2\<close> the ATR flip is modelled; its MACD and VWAP paths, the intrabar hold, CW-v2, resting
  orders and fan-out ownership are not, nor are the 30-second bots, whose signals rest on float indicators
  with exact rounding. Simulation, the rest of the backtest and research run on recorded data,
  outside the trading path. Log lines, rendered payloads and web views have no effect on the state.
\<close>

end
